(* ===== verification/Prelude.thy ===== *)
theory Prelude
  imports Complex_Main "HOL-Library.Log_Nat" "HOL-Library.Multiset"
begin

text \<open>
  What the components share: the collections of facts the proofs draw on, the reading of
  optional fields, the pattern of an ordered chain of gates (the first one that objects
  decides), a stable comparison sort, and runs of a state machine over a list of events.
\<close>

named_theorems gate_defs \<open>definitions of the single gates of a chain\<close>
named_theorems num_simps \<open>evaluation of arithmetic on concrete numbers\<close>

section \<open>Optional values\<close>

text \<open>The operator \<open>??\<close>: the value, or the default when it is null or undefined.\<close>

definition nullish :: "'a option \<Rightarrow> 'a \<Rightarrow> 'a" where
  "nullish a b = (case a of None \<Rightarrow> b | Some x \<Rightarrow> x)"

lemma nullish_simps [simp]: "nullish None b = b" "nullish (Some x) b = x"
  by (simp_all add: nullish_def)

section \<open>Chains of gates\<close>

text \<open>The first objection of a list of optional ones, in their order.\<close>

fun first_some :: "'a option list \<Rightarrow> 'a option" where
  "first_some [] = None"
| "first_some (g # gs) = (case g of None \<Rightarrow> first_some gs | Some r \<Rightarrow> Some r)"

lemma first_some_None_iff: "first_some gs = None \<longleftrightarrow> (\<forall>g \<in> set gs. g = None)"
  by (induction gs) (auto split: option.splits)

lemma first_some_Some_iff:
  "first_some gs = Some r \<longleftrightarrow>
     (\<exists>i < length gs. gs ! i = Some r \<and> (\<forall>j < i. gs ! j = None))"
proof (induction gs)
  case (Cons g gs)
  have split: "(\<exists>i < length (g # gs). (g # gs) ! i = Some r \<and> (\<forall>j < i. (g # gs) ! j = None)) \<longleftrightarrow>
      g = Some r \<or>
      g = None \<and> (\<exists>i < length gs. gs ! i = Some r \<and> (\<forall>j < i. gs ! j = None))"
    by (simp only: length_Cons Ex_less_Suc2 All_less_Suc2 nth_Cons_0 nth_Cons_Suc) auto
  show ?case unfolding split using Cons by (auto split: option.splits)
qed simp

lemma first_some_in: "first_some gs = Some r \<Longrightarrow> Some r \<in> set gs"
  by (induction gs) (auto split: option.splits)

lemma first_some_append:
  "first_some (gs @ hs) = (case first_some gs of None \<Rightarrow> first_some hs | Some r \<Rightarrow> Some r)"
  by (induction gs) (auto split: option.splits)

locale gate_chain =
  fixes gates :: "('req \<Rightarrow> 'rej option) list"
    and rejected :: "'rej \<Rightarrow> 'res"
    and passed :: "'req \<Rightarrow> 'res"
    and decide :: "'req \<Rightarrow> 'res"
  assumes decide_chain: "decide r =
    (case first_some (map (\<lambda>g. g r) gates) of None \<Rightarrow> passed r | Some x \<Rightarrow> rejected x)"
    and rejected_not_passed: "g \<in> set gates \<Longrightarrow> g r = Some x \<Longrightarrow> rejected x \<noteq> passed r"
    and rejected_inj: "rejected x = rejected y \<Longrightarrow> x = y"
begin

lemma decide_passed_iff: "decide r = passed r \<longleftrightarrow> (\<forall>g \<in> set gates. g r = None)"
proof (cases "first_some (map (\<lambda>g. g r) gates)")
  case None
  then show ?thesis by (simp add: decide_chain) (simp add: first_some_None_iff)
next
  case (Some x)
  from first_some_in[OF Some] obtain g where g: "g \<in> set gates" "g r = Some x" by auto
  then show ?thesis using rejected_not_passed[OF g] Some by (auto simp: decide_chain)
qed

lemma decide_first:
  assumes "i < length gates" "(gates ! i) r = Some x" "\<forall>j < i. (gates ! j) r = None"
  shows "decide r = rejected x"
proof -
  have "first_some (map (\<lambda>g. g r) gates) = Some x"
    using assms by (auto simp: first_some_Some_iff)
  then show ?thesis by (simp add: decide_chain)
qed

lemma decide_rejectedD:
  assumes "decide r = rejected x" and "decide r \<noteq> passed r"
  shows "\<exists>i < length gates. (gates ! i) r = Some x \<and> (\<forall>j < i. (gates ! j) r = None)"
proof -
  obtain y where y: "first_some (map (\<lambda>g. g r) gates) = Some y"
    using assms(2) by (cases "first_some (map (\<lambda>g. g r) gates)") (auto simp: decide_chain)
  then have "y = x" using assms(1) by (auto simp: decide_chain dest: rejected_inj)
  with y have "first_some (map (\<lambda>g. g r) gates) = Some x" by simp
  then show ?thesis by (auto simp: first_some_Some_iff)
qed

end

section \<open>Stable sorting\<close>

text \<open>
  \<^verbatim>\<open>xs.sort(cmp)\<close> for a consistent comparator: \<open>before x y\<close> is \<^verbatim>\<open>cmp(x, y) < 0\<close>.
  The language fixes the result (the stable sort); for an inconsistent comparator it leaves it
  to the implementation, and the insertion sort below is one of the permitted results.
\<close>

fun insert_before :: "('a \<Rightarrow> 'a \<Rightarrow> bool) \<Rightarrow> 'a \<Rightarrow> 'a list \<Rightarrow> 'a list" where
  "insert_before before x [] = [x]"
| "insert_before before x (y # ys) =
     (if before y x then y # insert_before before x ys else x # y # ys)"

definition sort_before :: "('a \<Rightarrow> 'a \<Rightarrow> bool) \<Rightarrow> 'a list \<Rightarrow> 'a list" where
  "sort_before before xs = foldr (insert_before before) xs []"

lemma sort_before_simps [simp]:
  "sort_before before [] = []"
  "sort_before before (x # xs) = insert_before before x (sort_before before xs)"
  by (simp_all add: sort_before_def)

lemma mset_insert_before [simp]: "mset (insert_before before x ys) = add_mset x (mset ys)"
  by (induction ys) auto

lemma mset_sort_before [simp]: "mset (sort_before before xs) = mset xs"
  by (induction xs) auto

lemma set_sort_before [simp]: "set (sort_before before xs) = set xs"
  using mset_eq_setD[OF mset_sort_before] .

lemma length_sort_before [simp]: "length (sort_before before xs) = length xs"
  using mset_eq_length[OF mset_sort_before] .

text \<open>Order of the result: no later element belongs before an earlier one.\<close>

lemma set_insert_before [simp]: "set (insert_before before x ys) = insert x (set ys)"
  by (induction ys) auto

lemma sorted_insert_before:
  assumes "sorted_wrt (\<lambda>x y. \<not> before y x) ys" and "insert x (set ys) \<subseteq> A"
    and trans: "\<And>x y z. {x, y, z} \<subseteq> A \<Longrightarrow> \<not> before y x \<Longrightarrow> \<not> before z y \<Longrightarrow> \<not> before z x"
    and asym: "\<And>x y. {x, y} \<subseteq> A \<Longrightarrow> before x y \<Longrightarrow> \<not> before y x"
  shows "sorted_wrt (\<lambda>x y. \<not> before y x) (insert_before before x ys)"
  using assms(1,2)
proof (induction ys)
  case (Cons y ys)
  show ?case
  proof (cases "before y x")
    case True
    then show ?thesis using Cons asym[of y x] by auto
  next
    case False
    have "\<not> before z x" if "z \<in> set ys" for z
      using trans[of x y z] False Cons.prems that by auto
    then show ?thesis using False Cons by auto
  qed
qed simp

lemma sorted_sort_before:
  assumes "\<And>x y z. {x, y, z} \<subseteq> set xs \<Longrightarrow> \<not> before y x \<Longrightarrow> \<not> before z y \<Longrightarrow> \<not> before z x"
    and "\<And>x y. {x, y} \<subseteq> set xs \<Longrightarrow> before x y \<Longrightarrow> \<not> before y x"
  shows "sorted_wrt (\<lambda>x y. \<not> before y x) (sort_before before xs)"
proof -
  have "set zs \<subseteq> set xs \<Longrightarrow> sorted_wrt (\<lambda>x y. \<not> before y x) (sort_before before zs)" for zs
  proof (induction zs)
    case (Cons z zs)
    then have "sorted_wrt (\<lambda>x y. \<not> before y x) (sort_before before zs)"
      "insert z (set (sort_before before zs)) \<subseteq> set xs" by simp_all
    then show ?case unfolding sort_before_simps
      by (rule sorted_insert_before[where A = "set xs"]) (use assms in blast)+
  qed simp
  then show ?thesis by blast
qed

section \<open>Searching\<close>

text \<open>\<^verbatim>\<open>xs.findIndex(pred)\<close>, None for \<^verbatim>\<open>-1\<close>.\<close>

fun find_index :: "('a \<Rightarrow> bool) \<Rightarrow> 'a list \<Rightarrow> nat option" where
  "find_index P [] = None"
| "find_index P (x # xs) = (if P x then Some 0 else map_option Suc (find_index P xs))"

lemma find_index_Some_iff:
  "find_index P xs = Some i \<longleftrightarrow> i < length xs \<and> P (xs ! i) \<and> (\<forall>j < i. \<not> P (xs ! j))"
proof (induction xs arbitrary: i)
  case (Cons x xs)
  then show ?case by (cases i) (auto simp: All_less_Suc2)
qed simp

lemma find_index_None_iff: "find_index P xs = None \<longleftrightarrow> (\<forall>x \<in> set xs. \<not> P x)"
  by (induction xs) auto

text \<open>\<^verbatim>\<open>[...new Set(xs)]\<close>: the elements in the order of their first occurrence.\<close>

definition unique_list :: "'a list \<Rightarrow> 'a list" where
  "unique_list xs = rev (remdups (rev xs))"

lemma set_unique_list [simp]: "set (unique_list xs) = set xs"
  by (simp add: unique_list_def)

lemma distinct_unique_list [simp]: "distinct (unique_list xs)"
  by (simp add: unique_list_def)

section \<open>State machines\<close>

fun run_machine :: "('s \<Rightarrow> 'e \<Rightarrow> 's) \<Rightarrow> 's \<Rightarrow> 'e list \<Rightarrow> 's" where
  "run_machine step s [] = s"
| "run_machine step s (e # es) = run_machine step (step s e) es"

locale machine =
  fixes step :: "'s \<Rightarrow> 'e \<Rightarrow> 's"
    and inv :: "'s \<Rightarrow> bool"
    and ok :: "'e \<Rightarrow> bool"
  assumes step_inv: "inv s \<Longrightarrow> ok e \<Longrightarrow> inv (step s e)"
begin

lemma run_inv: "inv s \<Longrightarrow> \<forall>e \<in> set es. ok e \<Longrightarrow> inv (run_machine step s es)"
  by (induction es arbitrary: s) (auto intro: step_inv)

end

locale monotone_machine = machine +
  fixes le :: "'s \<Rightarrow> 's \<Rightarrow> bool"
  assumes le_refl: "inv s \<Longrightarrow> le s s"
    and le_trans: "le s t \<Longrightarrow> le t u \<Longrightarrow> le s u"
    and step_le: "inv s \<Longrightarrow> ok e \<Longrightarrow> le s (step s e)"
begin

lemma run_le: "inv s \<Longrightarrow> \<forall>e \<in> set es. ok e \<Longrightarrow> le s (run_machine step s es)"
proof (induction es arbitrary: s)
  case (Cons e es)
  then have "le s (step s e)" "le (step s e) (run_machine step (step s e) es)"
    by (auto intro: step_inv step_le)
  then show ?case by (auto intro: le_trans)
qed (simp add: le_refl)

end

end
