(* ===== verification/JsNumber.thy ===== *)
theory JsNumber
  imports Prelude
begin

text \<open>
  The numbers of the source language.  A TypeScript \<^verbatim>\<open>number\<close> is an IEEE-754 binary64
  value.  A finite value is a rational; \<open>rnd64\<close> is round-to-nearest, ties-to-even, to 53
  significant bits with gradual underflow, \<open>fl\<close> adds the overflow to the infinities, and every
  arithmetic operation of the model rounds its exact result once, as the hardware does.  NaN and
  the infinities propagate as the language says and compare as it says (every comparison with
  NaN is false).  The one thing left out is the sign of zero: \<open>1 / -0\<close> is read as \<open>1 / 0\<close>.
  The laws the components use (monotone, idempotent, sign-symmetric rounding) are the locale
  \<open>rounding\<close>, interpreted on \<open>rnd64\<close>.
\<close>

section \<open>Binary64 rounding\<close>

definition round_even :: "rat \<Rightarrow> int" where
  "round_even x =
     (let f = \<lfloor>x\<rfloor>; d = x - of_int f
      in if d < 1 / 2 then f else if d > 1 / 2 then f + 1 else if even f then f else f + 1)"

definition pow2 :: "int \<Rightarrow> rat" where
  "pow2 k = (if 0 \<le> k then 2 ^ nat k else 1 / 2 ^ nat (- k))"

definition ilog2 :: "rat \<Rightarrow> int" where
  "ilog2 x =
     (let (p, q) = quotient_of x; k = bitlen p - bitlen q
      in if pow2 k \<le> x then k else k - 1)"

definition rnd64 :: "rat \<Rightarrow> rat" where
  "rnd64 x =
     (if x = 0 then 0
      else let u = pow2 (max (ilog2 \<bar>x\<bar>) (- 1022) - 52) in of_int (round_even (x / u)) * u)"

subsection \<open>Powers of two\<close>

lemma pow2_pos [simp]: "0 < pow2 k"
  by (simp add: pow2_def)

lemma pow2_nonneg [simp]: "0 \<le> pow2 k"
  by (simp add: less_imp_le)

lemma pow2_not_nonpos [simp]: "\<not> pow2 k \<le> 0"
  by (simp add: not_le)

lemma pow2_le_both: "pow2 k \<le> x \<Longrightarrow> pow2 k \<le> - x \<Longrightarrow> False"
  using pow2_pos[of k] by linarith

lemma pow2_neq_0 [simp]: "pow2 k \<noteq> 0"
  using pow2_pos[of k] by (metis less_irrefl)

lemma pow2_powi: "pow2 k = 2 powi k"
  by (auto simp: pow2_def power_int_def power_one_over field_simps)

lemma pow2_add: "pow2 (a + b) = pow2 a * pow2 b"
  by (simp add: pow2_powi power_int_add)

lemma pow2_diff: "pow2 (a - b) = pow2 a / pow2 b"
  by (simp add: pow2_powi power_int_diff)

lemma pow2_mono: "a \<le> b \<Longrightarrow> pow2 a \<le> pow2 b"
  by (simp add: pow2_powi power_int_increasing)

lemma pow2_less_cancel: "pow2 a < pow2 b \<Longrightarrow> a < b"
  by (meson linorder_not_less pow2_mono)

lemma pow2_strict: "a < b \<Longrightarrow> pow2 a < pow2 b"
  by (simp add: pow2_powi power_int_strict_increasing)

lemma pow2_Ints: "0 \<le> k \<Longrightarrow> pow2 k \<in> \<int>"
  by (simp add: pow2_def)

subsection \<open>The binary exponent\<close>

lemma pow2_bitlen:
  assumes "0 < n"
  shows "pow2 (bitlen n - 1) \<le> of_int n" and "of_int n < pow2 (bitlen n)"
proof -
  have b: "1 \<le> bitlen n"
    using assms bitlen_nonneg[of n] bitlen_eq_zero_iff[of n] by linarith
  from bitlen_bounds[OF assms] have lo: "2 ^ nat (bitlen n - 1) \<le> n"
    and hi: "n < 2 ^ nat (bitlen n)" by auto
  show "pow2 (bitlen n - 1) \<le> of_int n"
    using b of_int_le_iff[where 'a = rat, THEN iffD2, OF lo] by (simp add: pow2_def)
  show "of_int n < pow2 (bitlen n)"
    using b of_int_less_iff[where 'a = rat, THEN iffD2, OF hi] by (simp add: pow2_def)
qed

lemma ilog2_bounds:
  assumes "0 < x"
  shows "pow2 (ilog2 x) \<le> x \<and> x < pow2 (ilog2 x + 1)"
proof -
  obtain p q where pq: "quotient_of x = (p, q)" by fastforce
  have q: "0 < q" using quotient_of_denom_pos[OF pq] .
  have x: "x = of_int p / of_int q" using quotient_of_div[OF pq] .
  have p: "0 < p" using assms q by (simp add: x zero_less_divide_iff)
  define k where "k = bitlen p - bitlen q"
  note up = pow2_bitlen(2)[OF p] and lp = pow2_bitlen(1)[OF p]
    and uq = pow2_bitlen(2)[OF q] and lq = pow2_bitlen(1)[OF q]
  have "x < pow2 (bitlen p) / pow2 (bitlen q - 1)"
    unfolding x using up lq p q by (intro frac_less) auto
  then have hi: "x < pow2 (k + 1)"
    by (simp add: k_def pow2_diff[symmetric] algebra_simps)
  have "pow2 (bitlen p - 1) / pow2 (bitlen q) < x"
    unfolding x using lp uq p q by (intro frac_less2) auto
  then have lo: "pow2 (k - 1) < x"
    by (simp add: k_def pow2_diff[symmetric] algebra_simps)
  show ?thesis
    using hi lo by (auto simp: ilog2_def pq k_def[symmetric] not_le)
qed

lemma ilog2_mono:
  assumes "0 < x" "x \<le> y"
  shows "ilog2 x \<le> ilog2 y"
proof -
  have "pow2 (ilog2 x) < pow2 (ilog2 y + 1)"
    using ilog2_bounds[of x] ilog2_bounds[of y] assms by linarith
  then show ?thesis by (auto dest: pow2_less_cancel)
qed

subsection \<open>Round to nearest, ties to even\<close>

lemma round_even_of_int [simp]: "round_even (of_int n) = n"
  by (simp add: round_even_def)

lemma round_even_mono:
  assumes "x \<le> y" shows "round_even x \<le> round_even y"
proof (cases "\<lfloor>x\<rfloor> = \<lfloor>y\<rfloor>")
  case True
  then show ?thesis using assms by (auto simp: round_even_def Let_def)
next
  case False
  then have "\<lfloor>x\<rfloor> + 1 \<le> \<lfloor>y\<rfloor>" using floor_mono[OF assms] by linarith
  then show ?thesis by (auto simp: round_even_def Let_def)
qed

lemma floor_minus_nonint:
  fixes x :: rat
  assumes "x \<noteq> of_int \<lfloor>x\<rfloor>"
  shows "\<lfloor>- x\<rfloor> = - \<lfloor>x\<rfloor> - 1"
proof (rule floor_unique)
  show "of_int (- \<lfloor>x\<rfloor> - 1) \<le> - x" using floor_correct[of x] by simp
  show "- x < of_int (- \<lfloor>x\<rfloor> - 1) + 1"
    using of_int_floor_le[of x] assms by (simp add: order.strict_iff_order)
qed

lemma round_even_minus: "round_even (- x) = - round_even x"
proof (cases "x = of_int \<lfloor>x\<rfloor>")
  case True
  then have "- x = of_int (- \<lfloor>x\<rfloor>)" by simp
  then show ?thesis using True by (metis round_even_of_int)
next
  case False
  define f where "f = \<lfloor>x\<rfloor>"
  define d where "d = x - of_int f"
  have x: "x = of_int f + d" by (simp add: d_def)
  have d: "- x - of_int (- f - 1) = 1 - d" by (simp add: d_def)
  have f': "\<lfloor>- x\<rfloor> = - f - 1" using floor_minus_nonint[OF False] by (simp add: f_def)
  consider "d < 1 / 2" | "d = 1 / 2" | "1 / 2 < d" by linarith
  then show ?thesis
    by cases (simp_all only: round_even_def Let_def f' f_def[symmetric] d_def[symmetric] d, auto)
qed

subsection \<open>Laws of the rounding\<close>

definition ulp64 :: "rat \<Rightarrow> rat" where
  "ulp64 x = pow2 (max (ilog2 \<bar>x\<bar>) (- 1022) - 52)"

lemma rnd64_ulp: "rnd64 x = (if x = 0 then 0 else of_int (round_even (x / ulp64 x)) * ulp64 x)"
  by (simp add: rnd64_def ulp64_def Let_def)

lemma rnd64_0 [simp]: "rnd64 0 = 0"
  by (simp add: rnd64_def)

lemma ulp64_minus [simp]: "ulp64 (- x) = ulp64 x"
  by (simp add: ulp64_def)

lemma ulp64_pos [simp]: "0 < ulp64 x"
  by (simp add: ulp64_def)

lemma rnd64_minus: "rnd64 (- x) = - rnd64 x"
  by (simp add: rnd64_ulp round_even_minus)

lemma rnd64_exact:
  assumes "\<bar>m\<bar> \<le> 2 ^ 53" and "- 1074 \<le> k"
  shows "rnd64 (of_int m * pow2 k) = of_int m * pow2 k"
proof (cases "m = 0")
  case False
  define x where "x = of_int m * pow2 k"
  define e where "e = max (ilog2 \<bar>x\<bar>) (- 1022)"
  have x0: "x \<noteq> 0" using False by (simp add: x_def)
  have ulp: "ulp64 x = pow2 (e - 52)" by (simp add: ulp64_def e_def)
  have "\<exists>n. x / ulp64 x = of_int n"
  proof (cases "e - 52 \<le> k")
    case True
    then have "x / ulp64 x = of_int m * pow2 (k - (e - 52))"
      by (simp add: ulp pow2_diff) (simp add: x_def)
    also have "\<dots> \<in> \<int>" using True by (intro Ints_mult pow2_Ints) auto
    finally show ?thesis by (auto elim: Ints_cases)
  next
    case gt: False
    then have e: "e = ilog2 \<bar>x\<bar>" "k + 53 \<le> e" using assms(2) by (auto simp: e_def)
    have "pow2 53 * pow2 k \<le> pow2 e" using e(2) by (simp add: pow2_mono flip: pow2_add)
    also have "\<dots> \<le> \<bar>x\<bar>" using ilog2_bounds[of "\<bar>x\<bar>"] x0 e(1) by simp
    also have "\<dots> = of_int \<bar>m\<bar> * pow2 k" by (simp add: x_def abs_mult)
    finally have "of_int (2 ^ 53) * pow2 k \<le> of_int \<bar>m\<bar> * pow2 k"
      by (simp add: pow2_def)
    then have "(of_int (2 ^ 53) :: rat) \<le> of_int \<bar>m\<bar>"
      using pow2_pos[of k] by (rule mult_right_le_imp_le)
    then have "2 ^ 53 \<le> \<bar>m\<bar>" by (simp only: of_int_le_iff)
    with assms(1) have m: "\<bar>m\<bar> = 2 ^ 53" by simp
    then have ax: "\<bar>x\<bar> = pow2 (k + 53)" by (simp add: x_def abs_mult pow2_add pow2_def[of 53])
    then have "pow2 e \<le> pow2 (k + 53)" using ilog2_bounds[of "\<bar>x\<bar>"] x0 e(1) by simp
    then have "\<not> pow2 (k + 53) < pow2 e" by simp
    then have "e = k + 53" using e(2) pow2_strict[of "k + 53" e] by linarith
    then have "\<bar>x\<bar> / ulp64 x = pow2 52" by (simp add: ax ulp flip: pow2_diff)
    then have "\<bar>x / ulp64 x\<bar> = of_int (2 ^ 52)" by (simp add: abs_divide abs_of_pos[OF ulp64_pos] pow2_def)
    then have "x / ulp64 x = of_int (2 ^ 52) \<or> x / ulp64 x = of_int (- (2 ^ 52))" by linarith
    then show ?thesis by blast
  qed
  then obtain n where n: "x / ulp64 x = of_int n" ..
  then have "rnd64 x = x" using x0 by (simp add: rnd64_ulp) (metis n nonzero_divide_eq_eq ulp64_pos less_irrefl)
  then show ?thesis by (simp add: x_def)
qed simp

lemma mantissa_bound: "\<bar>x / ulp64 x\<bar> \<le> 2 ^ 53"
proof (cases "x = 0")
  case False
  define e where "e = max (ilog2 \<bar>x\<bar>) (- 1022)"
  have "\<bar>x\<bar> < pow2 (ilog2 \<bar>x\<bar> + 1)" using ilog2_bounds[of "\<bar>x\<bar>"] False by simp
  also have "\<dots> \<le> pow2 (e + 1)" by (rule pow2_mono) (simp add: e_def)
  also have "\<dots> = 2 ^ 53 * pow2 (e - 52)"
    using pow2_add[of 53 "e - 52"] by (simp add: pow2_def[of 53] add.commute)
  finally have "\<bar>x\<bar> < 2 ^ 53 * ulp64 x" by (simp add: ulp64_def e_def)
  then show ?thesis by (simp add: abs_divide pos_divide_le_eq)
qed simp

lemma rnd64_form:
  obtains n k where "rnd64 x = of_int n * pow2 k" "\<bar>n\<bar> \<le> 2 ^ 53" "- 1074 \<le> k"
proof
  let ?n = "if x = 0 then 0 else round_even (x / ulp64 x)"
  show "rnd64 x = of_int ?n * pow2 (max (ilog2 \<bar>x\<bar>) (- 1022) - 52)"
    by (simp add: rnd64_ulp) (simp add: ulp64_def)
  have "x / ulp64 x \<le> of_int (2 ^ 53)" and "of_int (- (2 ^ 53)) \<le> x / ulp64 x"
    using abs_le_D1[OF mantissa_bound[of x]] abs_le_D2[OF mantissa_bound[of x]] by simp_all
  from this[THEN round_even_mono]
  show "\<bar>?n\<bar> \<le> 2 ^ 53" by (simp only: round_even_of_int) auto
  show "- 1074 \<le> max (ilog2 \<bar>x\<bar>) (- 1022) - 52" by simp
qed

lemma rnd64_idem [simp]: "rnd64 (rnd64 x) = rnd64 x"
  by (rule rnd64_form[of x]) (simp add: rnd64_exact)

lemma rnd64_nonneg: "0 \<le> x \<Longrightarrow> 0 \<le> rnd64 x"
  using round_even_mono[of 0 "x / ulp64 x"] round_even_of_int[of 0]
  by (simp add: rnd64_ulp less_imp_le)

lemma rnd64_mono_pos:
  assumes "0 < x" "x \<le> y"
  shows "rnd64 x \<le> rnd64 y"
proof -
  define a b where "a = max (ilog2 x) (- 1022)" and "b = max (ilog2 y) (- 1022)"
  have ux: "ulp64 x = pow2 (a - 52)" and uy: "ulp64 y = pow2 (b - 52)"
    using assms by (simp_all add: ulp64_def a_def b_def)
  have ab: "a \<le> b" using ilog2_mono[OF assms] by (auto simp: a_def b_def)
  show ?thesis
  proof (cases "a = b")
    case True
    then have u: "ulp64 x = ulp64 y" by (simp add: ux uy)
    have "x / ulp64 x \<le> y / ulp64 x" using assms by (simp add: divide_right_mono less_imp_le)
    then have "round_even (x / ulp64 x) \<le> round_even (y / ulp64 x)" by (rule round_even_mono)
    then show ?thesis using assms by (simp add: rnd64_ulp u mult_right_mono less_imp_le)
  next
    case False
    with ab have less: "a + 1 \<le> b" by simp
    then have b: "b = ilog2 y" by (auto simp: a_def b_def)
    have "x / ulp64 x \<le> of_int (2 ^ 53)" using abs_le_D1[OF mantissa_bound[of x]] by simp
    from round_even_mono[OF this] have "round_even (x / ulp64 x) \<le> 2 ^ 53"
      by (simp only: round_even_of_int)
    then have "rnd64 x \<le> of_int (2 ^ 53) * pow2 (a - 52)"
      using assms by (simp only: rnd64_ulp ux of_int_le_iff mult_right_mono pow2_nonneg if_not_P less_irrefl not_less)
    also have "\<dots> = pow2 (a + 1)"
      using pow2_add[of 53 "a - 52"] by (simp add: pow2_def[of 53] add.commute)
    also have "\<dots> \<le> pow2 b" using less by (rule pow2_mono)
    finally have hi: "rnd64 x \<le> pow2 b" .
    have "pow2 b \<le> y" using ilog2_bounds[of y] assms b by simp
    then have "pow2 52 \<le> y / ulp64 y"
      by (simp add: uy pos_le_divide_eq flip: pow2_add)
    then have "of_int (2 ^ 52) \<le> y / ulp64 y" by (simp add: pow2_def)
    from round_even_mono[OF this] have "2 ^ 52 \<le> round_even (y / ulp64 y)"
      by (simp only: round_even_of_int)
    then have "of_int (2 ^ 52) * pow2 (b - 52) \<le> rnd64 y"
      using assms by (simp only: rnd64_ulp uy of_int_le_iff mult_right_mono pow2_nonneg if_not_P)
    then have "pow2 b \<le> rnd64 y"
      using pow2_add[of 52 "b - 52"] by (simp add: pow2_def[of 52])
    with hi show ?thesis by simp
  qed
qed

lemma rnd64_mono:
  assumes "x \<le> y" shows "rnd64 x \<le> rnd64 y"
proof -
  consider "0 < x" | "x \<le> 0" "0 \<le> y" | "y < 0" by linarith
  then show ?thesis
  proof cases
    case 1 then show ?thesis using assms by (rule rnd64_mono_pos)
  next
    case 2
    then show ?thesis using rnd64_nonneg[of "- x"] rnd64_nonneg[of y] by (simp add: rnd64_minus)
  next
    case 3
    then show ?thesis using rnd64_mono_pos[of "- y" "- x"] assms by (simp add: rnd64_minus)
  qed
qed

section \<open>The rounding interface\<close>

locale rounding =
  fixes rnd :: "rat \<Rightarrow> rat"
  assumes rnd_mono: "x \<le> y \<Longrightarrow> rnd x \<le> rnd y"
    and rnd_idem: "rnd (rnd x) = rnd x"
    and rnd_sym: "rnd (- x) = - rnd x"
begin

lemma rnd_zero: "rnd 0 = 0"
  using rnd_sym[of 0] by simp

lemma rnd_le: "x \<le> y \<Longrightarrow> rnd y = y \<Longrightarrow> rnd x \<le> y"
  by (metis rnd_mono)

lemma rnd_ge: "x \<le> y \<Longrightarrow> rnd x = x \<Longrightarrow> x \<le> rnd y"
  by (metis rnd_mono)

lemma rnd_nonneg: "0 \<le> x \<Longrightarrow> 0 \<le> rnd x"
  using rnd_mono[of 0 x] by (simp add: rnd_zero)

lemma rnd_nonpos: "x \<le> 0 \<Longrightarrow> rnd x \<le> 0"
  using rnd_mono[of x 0] by (simp add: rnd_zero)

lemma rnd_abs: "rnd \<bar>x\<bar> = \<bar>rnd x\<bar>"
  using rnd_nonneg[of x] rnd_nonpos[of x] by (cases "0 \<le> x") (simp_all add: rnd_sym)

lemma rnd_abs_le: "\<bar>x\<bar> \<le> y \<Longrightarrow> rnd y = y \<Longrightarrow> \<bar>rnd x\<bar> \<le> y"
  by (metis rnd_abs rnd_le)

end

interpretation f64: rounding rnd64
  by unfold_locales (simp_all add: rnd64_mono rnd64_minus)

end
