(* ===== verification/JsArith.thy ===== *)
theory JsArith
  imports JsNumber
begin

text \<open>
  The values of type \<^verbatim>\<open>number\<close> and the operations the program uses on them:
  arithmetic, the comparisons, \<^verbatim>\<open>Math.min\<close>, \<^verbatim>\<open>Math.max\<close>,
  \<^verbatim>\<open>Math.floor\<close>, \<^verbatim>\<open>Math.ceil\<close>, \<^verbatim>\<open>Math.round\<close>, \<^verbatim>\<open>Math.abs\<close>, \<^verbatim>\<open>Number.isFinite\<close>,
  \<^verbatim>\<open>Number.isInteger\<close>, \<^verbatim>\<open>Number.isSafeInteger\<close>, \<^verbatim>\<open>2 ** n\<close> and sums over arrays, each with what it
  does on NaN and the infinities.  The lemmas are the order laws and the bounds that survive
  rounding.
\<close>

section \<open>Values\<close>

datatype jsnum = Fin rat | PosInf | NegInf | NaN

text \<open>An exact rational result becomes a number: rounded, or an infinity when it overflows.\<close>

definition fl :: "rat \<Rightarrow> jsnum" where
  "fl x =
     (let r = rnd64 x
      in if r \<noteq> 0 \<and> 1024 \<le> ilog2 \<bar>r\<bar> then (if 0 < r then PosInf else NegInf) else Fin r)"

definition jnat :: "nat \<Rightarrow> jsnum" where
  "jnat n = Fin (of_nat n)"

fun is_double :: "jsnum \<Rightarrow> bool" where
  "is_double (Fin x) \<longleftrightarrow> fl x = Fin x"
| "is_double _ \<longleftrightarrow> True"

section \<open>Arithmetic\<close>

fun jneg :: "jsnum \<Rightarrow> jsnum" where
  "jneg (Fin x) = Fin (- x)"
| "jneg PosInf = NegInf"
| "jneg NegInf = PosInf"
| "jneg NaN = NaN"

fun jadd :: "jsnum \<Rightarrow> jsnum \<Rightarrow> jsnum" where
  "jadd (Fin x) (Fin y) = fl (x + y)"
| "jadd NaN _ = NaN"
| "jadd _ NaN = NaN"
| "jadd PosInf NegInf = NaN"
| "jadd NegInf PosInf = NaN"
| "jadd PosInf _ = PosInf"
| "jadd _ PosInf = PosInf"
| "jadd NegInf _ = NegInf"
| "jadd _ NegInf = NegInf"

definition jsub :: "jsnum \<Rightarrow> jsnum \<Rightarrow> jsnum" where
  "jsub a b = jadd a (jneg b)"

definition signed_inf :: "bool \<Rightarrow> jsnum" where
  "signed_inf neg = (if neg then NegInf else PosInf)"

fun jmul :: "jsnum \<Rightarrow> jsnum \<Rightarrow> jsnum" where
  "jmul (Fin x) (Fin y) = fl (x * y)"
| "jmul NaN _ = NaN"
| "jmul _ NaN = NaN"
| "jmul (Fin x) PosInf = (if x = 0 then NaN else signed_inf (x < 0))"
| "jmul (Fin x) NegInf = (if x = 0 then NaN else signed_inf (0 < x))"
| "jmul PosInf (Fin y) = (if y = 0 then NaN else signed_inf (y < 0))"
| "jmul NegInf (Fin y) = (if y = 0 then NaN else signed_inf (0 < y))"
| "jmul PosInf PosInf = PosInf"
| "jmul PosInf NegInf = NegInf"
| "jmul NegInf PosInf = NegInf"
| "jmul NegInf NegInf = PosInf"

fun jdiv :: "jsnum \<Rightarrow> jsnum \<Rightarrow> jsnum" where
  "jdiv (Fin x) (Fin y) =
     (if y = 0 then (if x = 0 then NaN else signed_inf (x < 0)) else fl (x / y))"
| "jdiv NaN _ = NaN"
| "jdiv _ NaN = NaN"
| "jdiv (Fin x) _ = Fin 0"
| "jdiv PosInf (Fin y) = signed_inf (y < 0)"
| "jdiv NegInf (Fin y) = signed_inf (0 \<le> y)"
| "jdiv _ _ = NaN"

fun jabs :: "jsnum \<Rightarrow> jsnum" where
  "jabs (Fin x) = Fin \<bar>x\<bar>"
| "jabs NaN = NaN"
| "jabs _ = PosInf"

fun jfloor :: "jsnum \<Rightarrow> jsnum" where
  "jfloor (Fin x) = Fin (of_int \<lfloor>x\<rfloor>)"
| "jfloor a = a"

fun jceil :: "jsnum \<Rightarrow> jsnum" where
  "jceil (Fin x) = Fin (of_int \<lceil>x\<rceil>)"
| "jceil a = a"

text \<open>\<^verbatim>\<open>Math.round\<close>: to the nearest integer, ties towards plus infinity.\<close>

fun jround :: "jsnum \<Rightarrow> jsnum" where
  "jround (Fin x) = Fin (of_int \<lfloor>x + 1 / 2\<rfloor>)"
| "jround a = a"

text \<open>\<^verbatim>\<open>2 ** n\<close> for a count \<open>n\<close>.\<close>

definition jpow2 :: "nat \<Rightarrow> jsnum" where
  "jpow2 n = (if 1024 \<le> n then PosInf else Fin (2 ^ n))"

section \<open>Tests and comparisons\<close>

fun is_finite :: "jsnum \<Rightarrow> bool" where
  "is_finite (Fin _) \<longleftrightarrow> True"
| "is_finite _ \<longleftrightarrow> False"

fun is_integer :: "jsnum \<Rightarrow> bool" where
  "is_integer (Fin x) \<longleftrightarrow> x = of_int \<lfloor>x\<rfloor>"
| "is_integer _ \<longleftrightarrow> False"

fun is_safe_integer :: "jsnum \<Rightarrow> bool" where
  "is_safe_integer (Fin x) \<longleftrightarrow> x = of_int \<lfloor>x\<rfloor> \<and> \<bar>x\<bar> \<le> 9007199254740991"
| "is_safe_integer _ \<longleftrightarrow> False"

fun jlt :: "jsnum \<Rightarrow> jsnum \<Rightarrow> bool" where
  "jlt (Fin x) (Fin y) \<longleftrightarrow> x < y"
| "jlt NaN _ \<longleftrightarrow> False"
| "jlt _ NaN \<longleftrightarrow> False"
| "jlt PosInf _ \<longleftrightarrow> False"
| "jlt _ NegInf \<longleftrightarrow> False"
| "jlt NegInf _ \<longleftrightarrow> True"
| "jlt _ PosInf \<longleftrightarrow> True"

text \<open>\<^verbatim>\<open>===\<close> on numbers.\<close>

definition jeq :: "jsnum \<Rightarrow> jsnum \<Rightarrow> bool" where
  "jeq a b \<longleftrightarrow> a = b \<and> a \<noteq> NaN"

definition jle :: "jsnum \<Rightarrow> jsnum \<Rightarrow> bool" where
  "jle a b \<longleftrightarrow> jlt a b \<or> jeq a b"

abbreviation jgt :: "jsnum \<Rightarrow> jsnum \<Rightarrow> bool" where
  "jgt a b \<equiv> jlt b a"

abbreviation jge :: "jsnum \<Rightarrow> jsnum \<Rightarrow> bool" where
  "jge a b \<equiv> jle b a"

definition jmin :: "jsnum \<Rightarrow> jsnum \<Rightarrow> jsnum" where
  "jmin a b = (if a = NaN \<or> b = NaN then NaN else if jle a b then a else b)"

definition jmax :: "jsnum \<Rightarrow> jsnum \<Rightarrow> jsnum" where
  "jmax a b = (if a = NaN \<or> b = NaN then NaN else if jle a b then b else a)"

text \<open>\<^verbatim>\<open>Math.min\<close> of any number of arguments.\<close>

fun jmins :: "jsnum list \<Rightarrow> jsnum" where
  "jmins [] = PosInf"
| "jmins (x # xs) = jmin x (jmins xs)"

text \<open>\<^verbatim>\<open>BigInt(x)\<close>: None is the RangeError it throws on what is not an integer.\<close>

definition to_bigint :: "jsnum \<Rightarrow> int option" where
  "to_bigint a = (case a of Fin x \<Rightarrow> if x = of_int \<lfloor>x\<rfloor> then Some \<lfloor>x\<rfloor> else None | _ \<Rightarrow> None)"

text \<open>\<^verbatim>\<open>Number(b)\<close> of a bigint.\<close>

definition of_bigint :: "int \<Rightarrow> jsnum" where
  "of_bigint n = fl (of_int n)"

text \<open>\<^verbatim>\<open>xs.reduce((s, v) => s + v, 0)\<close>: a left fold, rounding at each step.\<close>

definition jsum :: "jsnum list \<Rightarrow> jsnum" where
  "jsum xs = foldl jadd (Fin 0) xs"

text \<open>\<^verbatim>\<open>xs[i]\<close> with a numeric key: undefined unless the key is an index.\<close>

definition js_at :: "'a list \<Rightarrow> jsnum \<Rightarrow> 'a option" where
  "js_at xs i =
     (case i of Fin x \<Rightarrow>
        if x = of_int \<lfloor>x\<rfloor> \<and> 0 \<le> x \<and> nat \<lfloor>x\<rfloor> < length xs then Some (xs ! nat \<lfloor>x\<rfloor>) else None
      | _ \<Rightarrow> None)"

text \<open>\<^verbatim>\<open>xs.slice(0, n)\<close>: the bound is truncated, a negative one counts from the end.\<close>

definition js_take :: "jsnum \<Rightarrow> 'a list \<Rightarrow> 'a list" where
  "js_take n xs =
     (case n of
        Fin x \<Rightarrow> if 0 \<le> x then take (nat \<lfloor>x\<rfloor>) xs else take (nat (int (length xs) + \<lceil>x\<rceil>)) xs
      | PosInf \<Rightarrow> xs | NegInf \<Rightarrow> [] | NaN \<Rightarrow> [])"

section \<open>Rounding to a number\<close>

lemma ilog2_ge_iff: "0 < x \<Longrightarrow> k \<le> ilog2 x \<longleftrightarrow> pow2 k \<le> x"
  using ilog2_bounds[of x] pow2_mono[of k "ilog2 x"] pow2_less_cancel[of k "ilog2 x + 1"]
  by (meson less_add_one linorder_not_le order_le_less_trans order_less_le_trans zle_add1_eq_le order_trans)

lemma fl_cases:
  "fl x = (if pow2 1024 \<le> rnd64 x then PosInf
           else if rnd64 x \<le> - pow2 1024 then NegInf else Fin (rnd64 x))"
proof -
  have "rnd64 x \<noteq> 0 \<and> 1024 \<le> ilog2 \<bar>rnd64 x\<bar> \<longleftrightarrow> pow2 1024 \<le> \<bar>rnd64 x\<bar>"
    using ilog2_ge_iff[of "\<bar>rnd64 x\<bar>" 1024] pow2_pos[of 1024] by (cases "rnd64 x = 0") auto
  then show ?thesis
    unfolding fl_def Let_def
    by (auto simp: abs_if dest: order_trans[OF pow2_nonneg] split: if_splits)
qed

lemma fl_not_NaN [simp]: "fl x \<noteq> NaN"
  by (simp add: fl_cases)

lemma fl_0 [simp]: "fl 0 = Fin 0"
  by (simp add: fl_def)

lemma fl_minus: "fl (- x) = jneg (fl x)"
  by (auto simp: fl_cases rnd64_minus dest: pow2_le_both)

lemma fl_FinD: "fl x = Fin y \<Longrightarrow> y = rnd64 x"
  by (auto simp: fl_cases split: if_splits)

lemma is_double_fl [simp]: "is_double (fl x)"
  by (auto simp: fl_cases)

text \<open>Multiples of \<open>2 ^ -20\<close> up to \<open>2 ^ 33\<close> are numbers: the constants and test values of this size.\<close>

lemma fl_exact [num_simps]:
  assumes "x * 1048576 = of_int \<lfloor>x * 1048576\<rfloor>" and "\<bar>x * 1048576\<bar> \<le> 9007199254740992"
  shows "fl x = Fin x"
proof -
  define m where "m = \<lfloor>x * 1048576\<rfloor>"
  have mx: "of_int m = x * 1048576" using assms(1) by (simp only: m_def)
  then have x: "x = of_int m * pow2 (- 20)" by (simp add: pow2_def)
  have "\<bar>of_int m\<bar> \<le> (9007199254740992 :: rat)" using assms(2) by (simp only: mx)
  then have "of_int \<bar>m\<bar> \<le> (of_int (2 ^ 53) :: rat)" by simp
  then have m: "\<bar>m\<bar> \<le> 2 ^ 53" by (simp only: of_int_le_iff)
  have r: "rnd64 x = x" unfolding x using m by (rule rnd64_exact) simp
  have "\<bar>x\<bar> \<le> pow2 53" using assms(2) by (simp add: pow2_def abs_mult)
  also have "\<dots> < pow2 1024" by (rule pow2_strict) simp
  finally show ?thesis by (auto simp: fl_cases r)
qed

section \<open>Order laws\<close>

lemma jlt_irrefl [simp]: "\<not> jlt a a"
  by (cases a) auto

lemma jle_Fin [simp]: "jle (Fin x) (Fin y) \<longleftrightarrow> x \<le> y"
  by (auto simp: jle_def jeq_def)

lemma jle_NaN [simp]: "\<not> jle NaN a" "\<not> jle a NaN"
  by (cases a; simp add: jle_def jeq_def)+

lemma jlt_NaN [simp]: "\<not> jlt a NaN"
  by (cases a) auto

lemma jle_PosInf [simp]: "jle a PosInf \<longleftrightarrow> a \<noteq> NaN"
  by (cases a) (auto simp: jle_def jeq_def)

lemma jle_NegInf [simp]: "jle NegInf a \<longleftrightarrow> a \<noteq> NaN"
  by (cases a) (auto simp: jle_def jeq_def)

lemma jle_from_PosInf [simp]: "jle PosInf a \<longleftrightarrow> a = PosInf"
  by (cases a) (auto simp: jle_def jeq_def)

lemma jle_to_NegInf [simp]: "jle a NegInf \<longleftrightarrow> a = NegInf"
  by (cases a) (auto simp: jle_def jeq_def)

lemma jle_refl [simp]: "jle a a \<longleftrightarrow> a \<noteq> NaN"
  by (auto simp: jle_def jeq_def)

lemma jlt_imp_jle: "jlt a b \<Longrightarrow> jle a b"
  by (simp add: jle_def)

lemma jle_trans [trans]: "jle a b \<Longrightarrow> jle b c \<Longrightarrow> jle a c"
  by (cases a; cases b; cases c) auto

lemma jlt_jle_trans [trans]: "jlt a b \<Longrightarrow> jle b c \<Longrightarrow> jlt a c"
  by (cases a; cases b; cases c) (auto simp: jle_def jeq_def)

lemma jle_jlt_trans [trans]: "jle a b \<Longrightarrow> jlt b c \<Longrightarrow> jlt a c"
  by (cases a; cases b; cases c) (auto simp: jle_def jeq_def)

lemma jle_antisym: "jle a b \<Longrightarrow> jle b a \<Longrightarrow> a = b"
  by (cases a; cases b) auto

lemma not_jlt_iff: "\<not> jlt a b \<longleftrightarrow> jle b a \<or> a = NaN \<or> b = NaN"
  by (cases a; cases b) (auto simp: jle_def jeq_def)

lemma not_jle_iff: "\<not> jle a b \<longleftrightarrow> jlt b a \<or> a = NaN \<or> b = NaN"
  by (cases a; cases b) (auto simp: jle_def jeq_def)

lemma jle_not_NaN: "jle a b \<Longrightarrow> a \<noteq> NaN \<and> b \<noteq> NaN"
  by auto

lemma jlt_not_NaN: "jlt a b \<Longrightarrow> a \<noteq> NaN \<and> b \<noteq> NaN"
  by auto

lemma jlt_asym: "jlt a b \<Longrightarrow> \<not> jle b a"
  by (cases a; cases b) (auto simp: jle_def jeq_def)

lemma is_finite_iff: "is_finite a \<longleftrightarrow> (\<exists>x. a = Fin x)"
  by (cases a) auto

lemma jle_finite_between: "jle (Fin x) a \<Longrightarrow> jle a (Fin y) \<Longrightarrow> is_finite a"
  by (cases a) auto

section \<open>Minimum and maximum\<close>

lemma jmin_NaN [simp]: "jmin NaN b = NaN" "jmin a NaN = NaN"
  by (simp_all add: jmin_def)

lemma jmax_NaN [simp]: "jmax NaN b = NaN" "jmax a NaN = NaN"
  by (simp_all add: jmax_def)

lemma jmin_Fin [simp]: "jmin (Fin x) (Fin y) = Fin (min x y)"
  by (simp add: jmin_def min_def)

lemma jmax_Fin [simp]: "jmax (Fin x) (Fin y) = Fin (max x y)"
  by (simp add: jmax_def max_def)

lemma jmin_le1: "jmin a b \<noteq> NaN \<Longrightarrow> jle (jmin a b) a"
  by (auto simp: jmin_def not_jle_iff jlt_imp_jle)

lemma jmin_le2: "jmin a b \<noteq> NaN \<Longrightarrow> jle (jmin a b) b"
  by (auto simp: jmin_def not_jle_iff jlt_imp_jle)

lemma jmax_ge1: "jmax a b \<noteq> NaN \<Longrightarrow> jle a (jmax a b)"
  by (auto simp: jmax_def not_jle_iff jlt_imp_jle)

lemma jmax_ge2: "jmax a b \<noteq> NaN \<Longrightarrow> jle b (jmax a b)"
  by (auto simp: jmax_def not_jle_iff jlt_imp_jle)

lemma jmin_eq_NaN_iff [simp]: "jmin a b = NaN \<longleftrightarrow> a = NaN \<or> b = NaN"
  by (auto simp: jmin_def)

lemma jmax_eq_NaN_iff [simp]: "jmax a b = NaN \<longleftrightarrow> a = NaN \<or> b = NaN"
  by (auto simp: jmax_def)

lemma jle_jmin_iff: "jle c (jmin a b) \<longleftrightarrow> jle c a \<and> jle c b"
  by (auto simp: jmin_def not_jle_iff intro: jle_trans jlt_imp_jle dest: jle_not_NaN)

lemma jmax_jle_iff: "jle (jmax a b) c \<longleftrightarrow> jle a c \<and> jle b c"
  by (auto simp: jmax_def not_jle_iff intro: jle_trans jlt_imp_jle dest: jle_not_NaN)

lemma jmin_choice: "jmin a b = NaN \<or> jmin a b = a \<or> jmin a b = b"
  by (auto simp: jmin_def)

lemma jmax_choice: "jmax a b = NaN \<or> jmax a b = a \<or> jmax a b = b"
  by (auto simp: jmax_def)

lemma jmins_eq_NaN_iff [simp]: "jmins xs = NaN \<longleftrightarrow> NaN \<in> set xs"
  by (induction xs) auto

lemma jle_jmins_iff: "jle c (jmins xs) \<longleftrightarrow> c \<noteq> NaN \<and> (\<forall>x \<in> set xs. jle c x)"
  by (induction xs) (auto simp: jle_jmin_iff)

lemma jmins_le: "jmins xs \<noteq> NaN \<Longrightarrow> x \<in> set xs \<Longrightarrow> jle (jmins xs) x"
  using jle_jmins_iff[of "jmins xs" xs] by simp

lemma to_bigint_Fin_of_int [simp]: "to_bigint (Fin (of_int n)) = Some n"
  by (simp add: to_bigint_def)

section \<open>Bounds that survive rounding\<close>

lemma fl_mono: "x \<le> y \<Longrightarrow> jle (fl x) (fl y)"
proof -
  assume "x \<le> y"
  then have "rnd64 x \<le> rnd64 y" by (rule rnd64_mono)
  then show ?thesis by (auto simp: fl_cases dest: pow2_le_both intro: order_trans)
qed

lemma fl_le: "x \<le> y \<Longrightarrow> fl y = Fin y \<Longrightarrow> jle (fl x) (Fin y)"
  using fl_mono[of x y] by simp

lemma fl_ge: "x \<le> y \<Longrightarrow> fl x = Fin x \<Longrightarrow> jle (Fin x) (fl y)"
  using fl_mono[of x y] by simp

lemma fl_nonneg: "0 \<le> x \<Longrightarrow> jle (Fin 0) (fl x)"
  by (rule fl_ge) simp_all

lemma fl_nonpos: "x \<le> 0 \<Longrightarrow> jle (fl x) (Fin 0)"
  by (rule fl_le) simp_all

lemma jadd_nonneg: "jle (Fin 0) a \<Longrightarrow> jle (Fin 0) b \<Longrightarrow> jle (Fin 0) (jadd a b)"
  by (cases a; cases b) (auto simp: fl_nonneg)

lemma jadd_ge_left:
  "is_double a \<Longrightarrow> a \<noteq> NegInf \<Longrightarrow> a \<noteq> NaN \<Longrightarrow> jle (Fin 0) b \<Longrightarrow> jle a (jadd a b)"
  by (cases a; cases b) (auto intro: fl_ge)

lemma jsub_le_left: "is_double a \<Longrightarrow> jle (Fin 0) b \<Longrightarrow> jsub a b \<noteq> NaN \<Longrightarrow> jle (jsub a b) a"
  by (cases a; cases b) (auto simp: jsub_def intro: fl_le)

lemma jmul_nonneg:
  "jle (Fin 0) a \<Longrightarrow> jle (Fin 0) b \<Longrightarrow> jmul a b \<noteq> NaN \<Longrightarrow> jle (Fin 0) (jmul a b)"
  by (cases a; cases b) (auto simp: fl_nonneg signed_inf_def split: if_splits)

lemma jmul_mono_right:
  assumes "jle a b" "jle (Fin 0) c" "jmul a c \<noteq> NaN" "jmul b c \<noteq> NaN"
  shows "jle (jmul a c) (jmul b c)"
  using assms
  by (cases a; cases b; cases c)
    (auto simp: signed_inf_def not_less intro!: fl_mono mult_right_mono split: if_splits)

lemma jdiv_nonneg:
  "jle (Fin 0) a \<Longrightarrow> jle (Fin 0) b \<Longrightarrow> jdiv a b \<noteq> NaN \<Longrightarrow> jle (Fin 0) (jdiv a b)"
  by (cases a; cases b) (auto simp: fl_nonneg signed_inf_def split: if_splits)

lemma jdiv_le_1:
  assumes "jle (Fin 0) a" "jle a b" "jlt (Fin 0) b" "is_finite b"
  shows "jle (jdiv a b) (Fin 1)"
  using assms by (cases a; cases b) (auto intro!: fl_le simp: num_simps)

lemma foldl_jadd_nonneg:
  "\<forall>x \<in> set xs. jle (Fin 0) x \<Longrightarrow> jle (Fin 0) a \<Longrightarrow> jle (Fin 0) (foldl jadd a xs)"
  by (induction xs arbitrary: a) (auto intro: jadd_nonneg)

lemma jsum_nonneg: "\<forall>x \<in> set xs. jle (Fin 0) x \<Longrightarrow> jle (Fin 0) (jsum xs)"
  by (simp add: jsum_def foldl_jadd_nonneg)

lemma jsum_Nil [simp]: "jsum [] = Fin 0"
  by (simp add: jsum_def)

text \<open>The operations produce numbers from numbers.\<close>

lemma is_double_neg: "is_double a \<Longrightarrow> is_double (jneg a)"
  by (cases a) (auto simp: fl_minus)

lemma is_double_add: "is_double (jadd a b)"
  by (cases a; cases b) auto

lemma is_double_sub: "is_double (jsub a b)"
  by (simp add: jsub_def is_double_add)

lemma is_double_mul: "is_double (jmul a b)"
  by (cases a; cases b) (auto simp: signed_inf_def)

lemma is_double_div: "is_double (jdiv a b)"
  by (cases a; cases b) (auto simp: signed_inf_def)

lemma is_double_min: "is_double a \<Longrightarrow> is_double b \<Longrightarrow> is_double (jmin a b)"
  by (auto simp: jmin_def)

lemma is_double_max: "is_double a \<Longrightarrow> is_double b \<Longrightarrow> is_double (jmax a b)"
  by (auto simp: jmax_def)

lemmas is_double_intros [intro, simp] =
  is_double_neg is_double_add is_double_sub is_double_mul is_double_div is_double_min is_double_max

section \<open>Monotone operations\<close>

lemma jadd_commute: "jadd a b = jadd b a"
  by (cases a; cases b) (auto simp: add.commute)

lemma jadd_ge_right:
  "is_double b \<Longrightarrow> b \<noteq> NegInf \<Longrightarrow> b \<noteq> NaN \<Longrightarrow> jle (Fin 0) a \<Longrightarrow> jle b (jadd a b)"
  by (metis jadd_commute jadd_ge_left)

lemma jadd_mono_left:
  "jle a b \<Longrightarrow> jadd a c \<noteq> NaN \<Longrightarrow> jadd b c \<noteq> NaN \<Longrightarrow> jle (jadd a c) (jadd b c)"
  by (cases a; cases b; cases c) (auto intro: fl_mono)

lemma jsub_mono_left:
  "jle a b \<Longrightarrow> jsub a c \<noteq> NaN \<Longrightarrow> jsub b c \<noteq> NaN \<Longrightarrow> jle (jsub a c) (jsub b c)"
  unfolding jsub_def by (rule jadd_mono_left)

lemma jsub_finite_not_NaN: "is_finite b \<Longrightarrow> a \<noteq> NaN \<Longrightarrow> jsub a b \<noteq> NaN"
  by (cases a; cases b) (auto simp: jsub_def)

lemma jdiv_mono_left:
  "jle a b \<Longrightarrow> jlt (Fin 0) c \<Longrightarrow> is_finite c \<Longrightarrow> jle (jdiv a c) (jdiv b c)"
  by (cases a; cases b; cases c)
    (auto simp: signed_inf_def intro!: fl_mono divide_right_mono)

lemma jdiv_finite_pos_not_NaN: "jlt (Fin 0) c \<Longrightarrow> is_finite c \<Longrightarrow> a \<noteq> NaN \<Longrightarrow> jdiv a c \<noteq> NaN"
  by (cases a; cases c) (auto simp: signed_inf_def)

lemma jsub_pos_imp_jlt: "jlt (Fin 0) (jsub a b) \<Longrightarrow> jlt b a"
proof (cases a; cases b)
  fix x y assume ab: "a = Fin x" "b = Fin y" and "jlt (Fin 0) (jsub a b)"
  then have "jlt (Fin 0) (fl (x - y))" by (simp add: jsub_def)
  moreover have "x \<le> y \<Longrightarrow> jle (fl (x - y)) (Fin 0)" by (rule fl_nonpos) simp
  ultimately show "jlt b a" using ab jlt_asym by (auto simp: not_le[symmetric])
qed (auto simp: jsub_def)

lemma jsub_neg_imp_jlt: "jlt (jsub a b) (Fin 0) \<Longrightarrow> jlt a b"
proof (cases a; cases b)
  fix x y assume ab: "a = Fin x" "b = Fin y" and "jlt (jsub a b) (Fin 0)"
  then have "jlt (fl (x - y)) (Fin 0)" by (simp add: jsub_def)
  moreover have "y \<le> x \<Longrightarrow> jle (Fin 0) (fl (x - y))" by (rule fl_nonneg) simp
  ultimately show "jlt a b" using ab jlt_asym by (auto simp: not_le[symmetric])
qed (auto simp: jsub_def)

lemma jmul_finite_not_NaN: "is_finite a \<Longrightarrow> is_finite b \<Longrightarrow> jmul a b \<noteq> NaN"
  by (auto simp: is_finite_iff)

lemma jmul_pos_imp:
  "jlt (Fin 0) (jmul a b) \<Longrightarrow> jlt (Fin 0) a \<Longrightarrow> is_finite b \<Longrightarrow> jlt (Fin 0) b"
proof (cases a; cases b)
  fix x y assume ab: "a = Fin x" "b = Fin y" and h: "jlt (Fin 0) (jmul a b)" "jlt (Fin 0) a"
  show "jlt (Fin 0) b"
  proof (rule ccontr)
    assume "\<not> jlt (Fin 0) b"
    then have "x * y \<le> 0" using ab h by (auto simp: mult_le_0_iff)
    then have "jle (fl (x * y)) (Fin 0)" by (rule fl_nonpos)
    then show False using h ab jlt_asym by auto
  qed
qed (auto simp: signed_inf_def split: if_splits)

lemma jlt_cases: "a \<noteq> NaN \<Longrightarrow> b \<noteq> NaN \<Longrightarrow> jlt a b \<or> jle b a"
  by (cases a; cases b) auto

section \<open>Exact powers of ten and quotients\<close>

lemma rnd64_pow2: "- 1074 \<le> k \<Longrightarrow> rnd64 (pow2 k) = pow2 k"
  using rnd64_exact[of 1 k] by simp

lemma fl_bounded:
  assumes "\<bar>x\<bar> \<le> pow2 1023"
  shows "is_finite (fl x)"
proof -
  have r: "rnd64 (pow2 1023) = pow2 1023" by (rule rnd64_pow2) simp
  have "rnd64 x \<le> pow2 1023" "- pow2 1023 \<le> rnd64 x"
    using rnd64_mono[of x "pow2 1023"] rnd64_mono[of "- pow2 1023" x] assms r
    by (auto simp: rnd64_minus)
  moreover have "pow2 1023 < pow2 1024" by (rule pow2_strict) simp
  ultimately show ?thesis by (simp add: fl_cases)
qed

lemma fl_power10:
  assumes "d \<le> 18"
  shows "fl (10 ^ d) = Fin (10 ^ d)"
proof -
  have f: "(10 :: rat) ^ d = of_int (5 ^ d) * pow2 (int d)"
    by (simp add: pow2_def power_mult_distrib[symmetric])
  have "(5 :: int) ^ d \<le> 5 ^ 18" using assms by (intro power_increasing) auto
  then have r: "rnd64 (10 ^ d) = 10 ^ d" unfolding f by (intro rnd64_exact) auto
  have "(10 :: rat) ^ d \<le> 10 ^ 18" using assms by (intro power_increasing) auto
  also have "\<dots> \<le> pow2 64" by (simp add: pow2_def)
  also have "\<dots> \<le> pow2 1023" by (rule pow2_mono) simp
  finally have "is_finite (fl (10 ^ d))" by (intro fl_bounded) simp
  then show ?thesis using r by (auto simp: is_finite_iff dest: fl_FinD)
qed

lemma jdiv_lt_1_imp:
  assumes "jlt (jdiv a b) (Fin 1)" "jlt (Fin 0) b" "is_finite b" "is_finite a"
  shows "jlt a b"
proof (rule ccontr)
  obtain x y where ab: "a = Fin x" "b = Fin y" using assms(3,4) by (auto simp: is_finite_iff)
  assume "\<not> jlt a b"
  then have "1 \<le> x / y" using assms(2) by (simp add: ab field_simps)
  moreover have "fl 1 = Fin 1" by (simp add: num_simps)
  ultimately have "jle (Fin 1) (fl (x / y))" by (intro fl_ge)
  then show False using assms(1,2) jlt_asym by (auto simp: ab)
qed

lemma to_bigint_jceil: "to_bigint (jceil (Fin x)) = Some \<lceil>x\<rceil>"
  "to_bigint (jfloor (Fin x)) = Some \<lfloor>x\<rfloor>"
  by (simp_all add: to_bigint_def)

lemma jmul_pos_not_NaN: "a \<noteq> NaN \<Longrightarrow> jlt (Fin 0) b \<Longrightarrow> is_finite b \<Longrightarrow> jmul a b \<noteq> NaN"
  by (cases a; cases b) (auto simp: signed_inf_def)

lemma jmul_finite_left: "is_finite (jmul a b) \<Longrightarrow> jlt (Fin 0) b \<Longrightarrow> is_finite b \<Longrightarrow> is_finite a"
  by (cases a; cases b) (auto simp: signed_inf_def)

lemma foldl_jadd_finite:
  "\<forall>x \<in> set xs. is_finite x \<Longrightarrow> a \<noteq> NaN \<Longrightarrow> foldl jadd a xs \<noteq> NaN"
proof (induction xs arbitrary: a)
  case (Cons x xs)
  then have "jadd a x \<noteq> NaN" by (cases a; cases x) auto
  then show ?case using Cons by simp
qed simp

lemma foldl_jadd_mono:
  assumes "list_all2 (\<lambda>x y. jle x y \<and> is_finite x \<and> is_finite y) xs ys" "jle a b"
  shows "jle (foldl jadd a xs) (foldl jadd b ys)"
  using assms
proof (induction arbitrary: a b rule: list_all2_induct)
  case (Cons x xs y ys)
  have "jadd a x \<noteq> NaN" "jadd a y \<noteq> NaN" "jadd b y \<noteq> NaN"
    using Cons.hyps Cons.prems by (cases a; cases b; cases x; cases y; simp)+
  then have "jle (jadd a x) (jadd a y)" "jle (jadd a y) (jadd b y)"
    using Cons.hyps Cons.prems jadd_mono_left[of x y a] jadd_mono_left[of a b y]
    by (auto simp: jadd_commute)
  then have "jle (jadd a x) (jadd b y)" by (rule jle_trans)
  then show ?case using Cons.IH by simp
qed simp

text \<open>Sums of finite numbers are numbers, and grow with their terms.\<close>

lemma jsum_finite_not_NaN: "\<forall>x \<in> set xs. is_finite x \<Longrightarrow> jsum xs \<noteq> NaN"
  by (simp add: jsum_def foldl_jadd_finite)

lemma jsum_mono:
  "list_all2 (\<lambda>x y. jle x y \<and> is_finite x \<and> is_finite y) xs ys \<Longrightarrow> jle (jsum xs) (jsum ys)"
  by (simp add: jsum_def foldl_jadd_mono)

text \<open>Differences of numbers never underflow to zero: comparators of the form \<open>a - b\<close> are faithful.\<close>

lemma double_multiple:
  assumes "is_double (Fin x)"
  obtains m where "x = of_int m * pow2 (- 1074)"
proof -
  have "x = rnd64 x" using assms by (auto dest: fl_FinD)
  then obtain n k where nk: "x = of_int n * pow2 k" "- 1074 \<le> k" by (metis rnd64_form)
  have "pow2 k = pow2 (k + 1074) * pow2 (- 1074)" by (simp add: pow2_add[symmetric])
  moreover obtain j where "pow2 (k + 1074) = of_int j" using pow2_Ints[of "k + 1074"] nk(2)
    by (auto elim: Ints_cases)
  ultimately have "x = of_int (n * j) * pow2 (- 1074)" using nk(1) by simp
  then show ?thesis using that by blast
qed

lemma rnd64_pos:
  assumes "pow2 (- 1074) \<le> x" shows "0 < rnd64 x"
proof -
  have "rnd64 (pow2 (- 1074)) = pow2 (- 1074)" by (rule rnd64_pow2) simp
  then have "pow2 (- 1074) \<le> rnd64 x" using rnd64_mono[OF assms] by simp
  then show ?thesis using pow2_pos order_less_le_trans by blast
qed

lemma jsub_neg_iff:
  assumes "is_double (Fin x)" "is_double (Fin y)"
  shows "jlt (jsub (Fin x) (Fin y)) (Fin 0) \<longleftrightarrow> x < y"
proof
  assume "x < y"
  obtain m n where mn: "x = of_int m * pow2 (- 1074)" "y = of_int n * pow2 (- 1074)"
    using double_multiple[OF assms(1)] double_multiple[OF assms(2)] by metis
  then have "of_int m * pow2 (- 1074) < of_int n * pow2 (- 1074)" using \<open>x < y\<close> by simp
  then have "m < n" by (simp add: mult_less_cancel_right_pos)
  then have "1 \<le> n - m" by simp
  then have "(1 :: rat) \<le> of_int (n - m)" by (simp only: of_int_1_le_iff)
  then have "1 * pow2 (- 1074) \<le> of_int (n - m) * pow2 (- 1074)" by (intro mult_right_mono) simp_all
  also have "\<dots> = y - x" by (simp add: mn left_diff_distrib)
  finally have "0 < rnd64 (y - x)" by (intro rnd64_pos) simp
  then have "rnd64 (x - y) < 0" using rnd64_minus[of "y - x"] by simp
  then have "\<not> pow2 1024 \<le> rnd64 (x - y)" using pow2_nonneg[of 1024] by linarith
  then show "jlt (jsub (Fin x) (Fin y)) (Fin 0)" using \<open>rnd64 (x - y) < 0\<close>
    by (simp add: jsub_def fl_cases)
qed (use jsub_neg_imp_jlt in force)

text \<open>Integers up to \<open>2 ^ 53\<close> are numbers.\<close>

lemma fl_of_int:
  assumes "\<bar>n\<bar> \<le> 2 ^ 53"
  shows "fl (of_int n) = Fin (of_int n)"
proof -
  have r: "rnd64 (of_int n) = of_int n" using rnd64_exact[of n 0] assms by (simp add: pow2_def)
  have "of_int \<bar>n\<bar> \<le> (of_int (2 ^ 53) :: rat)" using assms by (simp only: of_int_le_iff)
  also have "\<dots> = pow2 53" by (simp add: pow2_def)
  also have "\<dots> \<le> pow2 1023" by (rule pow2_mono) simp
  finally have "is_finite (fl (of_int n))" by (intro fl_bounded) simp
  then show ?thesis using r by (auto simp: is_finite_iff dest: fl_FinD)
qed

lemma fl_of_nat: "n \<le> 2 ^ 53 \<Longrightarrow> fl (of_nat n) = Fin (of_nat n)"
  using fl_of_int[of "int n"] by simp

lemma jlt_jnat [simp]: "jlt (jnat m) (jnat n) \<longleftrightarrow> m < n"
  by (simp add: jnat_def)

lemma jle_jnat [simp]: "jle (jnat m) (jnat n) \<longleftrightarrow> m \<le> n"
  by (simp add: jnat_def)

lemma jnat_not_NaN [simp]: "jnat n \<noteq> NaN" "is_finite (jnat n)"
  by (simp_all add: jnat_def)

lemma jsub_pos_iff:
  assumes "is_double (Fin x)" "is_double (Fin y)"
  shows "jlt (Fin 0) (jsub (Fin x) (Fin y)) \<longleftrightarrow> y < x"
proof -
  have "jsub (Fin x) (Fin y) = jneg (jsub (Fin y) (Fin x))"
    using fl_minus[of "y - x"] by (simp add: jsub_def)
  moreover have "jlt (Fin 0) (jneg a) \<longleftrightarrow> jlt a (Fin 0)" for a by (cases a) auto
  ultimately show ?thesis using jsub_neg_iff[OF assms(2,1)] by simp
qed

lemma jsub_antimono_right:
  assumes "jle a b" "jsub c a \<noteq> NaN" "jsub c b \<noteq> NaN"
  shows "jle (jsub c b) (jsub c a)"
proof -
  have "jle (jneg b) (jneg a)" using assms(1) by (cases a; cases b) auto
  then have "jle (jadd (jneg b) c) (jadd (jneg a) c)"
    using assms(2,3) by (intro jadd_mono_left) (auto simp: jsub_def jadd_commute)
  then show ?thesis by (simp add: jsub_def jadd_commute)
qed

lemma jmin_mono: "jle a b \<Longrightarrow> jle c d \<Longrightarrow> jle (jmin a c) (jmin b d)"
  unfolding jle_jmin_iff using jmin_le1[of a c] jmin_le2[of a c] jle_not_NaN jmin_eq_NaN_iff jle_trans
  by metis

lemma jmax_mono: "jle a b \<Longrightarrow> jle c d \<Longrightarrow> jle (jmax a c) (jmax b d)"
  unfolding jmax_jle_iff using jmax_ge1[of b d] jmax_ge2[of b d] jle_not_NaN jmax_eq_NaN_iff jle_trans
  by metis

lemma jdiv_antimono_right:
  assumes "jle (Fin 0) m" "is_finite m" "jlt (Fin 0) a" "jle a b"
  shows "jle (jdiv m b) (jdiv m a)"
  using assms by (cases m; cases a; cases b) (auto intro!: fl_mono divide_left_mono fl_nonneg)

lemma jmul_ge_1:
  assumes "jle (Fin 1) p" "jle (Fin 1) q"
  shows "jle (Fin 1) (jmul p q)"
proof -
  have one: "fl 1 = Fin 1" by (simp add: num_simps)
  have "jle (Fin 1) (fl (x * y))" if "1 \<le> x" "1 \<le> y" for x y
    using mult_mono[of 1 x 1 y] that by (intro fl_ge one) simp
  then show ?thesis using assms by (cases p; cases q) (auto simp: signed_inf_def)
qed

lemma jmul_commute: "jmul a b = jmul b a"
  by (cases a; cases b) (simp_all add: mult.commute)

lemma jdiv_pos_imp: "jlt (Fin 0) (jdiv a b) \<Longrightarrow> jlt (Fin 0) b \<Longrightarrow> jlt (Fin 0) a"
proof (cases a; cases b)
  fix x y assume ab: "a = Fin x" "b = Fin y" and h: "jlt (Fin 0) (jdiv a b)" "jlt (Fin 0) b"
  have "x \<le> 0 \<Longrightarrow> jle (fl (x / y)) (Fin 0)" using ab h(2) by (intro fl_nonpos) (simp add: divide_le_0_iff)
  then show "jlt (Fin 0) a" using ab h jlt_asym by (auto simp: not_le[symmetric] split: if_splits)
qed (auto simp: signed_inf_def)

end
