(* ===== verification/DomainTypes.thy ===== *)
theory DomainTypes
  imports JsArith
begin

text \<open>
  The data the engine's components exchange (\<^verbatim>\<open>engine/types.ts\<close> and the service
  interfaces of \<^verbatim>\<open>engine/services.ts\<close>), as records with the source's fields.  The fields
  carry a short prefix because record fields are global names.  An optional or nullable field is
  an \<open>option\<close>; a \<^verbatim>\<open>bigint\<close> is an \<open>int\<close>; a \<^verbatim>\<open>number\<close> is a \<open>jsnum\<close>.
\<close>

section \<open>Decisions and positions\<close>

datatype ActionType = HOLD | REBALANCE | EXIT | ENTER

record Position =
  pos_id :: string
  pos_poolAddress :: string
  pos_poolName :: string
  pos_lowerBinId :: jsnum
  pos_upperBinId :: jsnum
  pos_liquidityShares :: int
  pos_depositedUsd :: jsnum
  pos_currentValueUsd :: jsnum
  pos_unrealizedPnlUsd :: jsnum
  pos_feesEarnedUsd :: jsnum
  pos_openedAt :: jsnum

record RebalanceParams =
  reb_newLowerBinId :: jsnum
  reb_newUpperBinId :: jsnum
  reb_slippageBps :: jsnum
  reb_topUp :: "(int \<times> int) option"
  reb_topUpUsd :: "jsnum option"

datatype PositionMode = FallenAngelMode | LaunchMode | HotWindowMode

record AgentDecision =
  dec_action :: ActionType
  dec_poolAddress :: string
  dec_confidence :: jsnum
  dec_reasoning :: string
  dec_rebalanceParams :: "RebalanceParams option"
  dec_positionSizeUsd :: "jsnum option"
  dec_positionId :: "string option"
  dec_positionMode :: "PositionMode option"
  dec_tpLadderJson :: "string option"
  dec_invalidationStopPrice :: "jsnum option"

datatype ProposalSource = SyncPrompt | HttpQueue

datatype ProposalStatus = ProposalPending | ProposalApproved | ProposalRejected | ProposalExecuted

record AgentProposal = AgentDecision +
  prop_proposalId :: string
  prop_proposedAt :: jsnum
  prop_expiresAt :: jsnum
  prop_source :: ProposalSource
  prop_originalAction :: "ActionType option"
  prop_originalConfidence :: "jsnum option"
  prop_status :: ProposalStatus

record RiskContext =
  ctx_openPositions :: "Position list"
  ctx_portfolioValueUsd :: jsnum
  ctx_recentPnlUsd :: jsnum
  ctx_poolAddress :: string
  ctx_originalDecision :: "AgentDecision option"
  ctx_activeBinId :: "jsnum option"
  ctx_positionId :: "string option"
  ctx_maxOpenPositions :: "jsnum option"
  ctx_rollingRealizedPnlHalted :: "bool option"

section \<open>Pools\<close>

datatype StatsSource = Datapi | Geckoterminal | Heuristic

record BinData =
  bin_binId :: jsnum
  bin_price :: jsnum
  bin_reserveX :: int
  bin_reserveY :: int
  bin_liquiditySupply :: int

record BinArray =
  ba_lowerBinId :: jsnum
  ba_upperBinId :: jsnum
  ba_bins :: "BinData list"
  ba_activeBinId :: jsnum
  ba_binStep :: "jsnum option"
  ba_reservesKnown :: "bool option"

record PoolState =
  ps_address :: string
  ps_tokenX :: string
  ps_tokenY :: string
  ps_tokenXSymbol :: string
  ps_tokenYSymbol :: string
  ps_tvlUsd :: jsnum
  ps_volume24hUsd :: jsnum
  ps_fees24hUsd :: jsnum
  ps_apr :: jsnum
  ps_activeBinId :: jsnum
  ps_binStep :: jsnum
  ps_currentPrice :: jsnum
  ps_timestamp :: jsnum
  ps_statsSource :: "StatsSource option"
  ps_hasFarm :: "bool option"
  ps_farmAprPct :: "jsnum option"

definition isMeasuredStatsSource :: "StatsSource option \<Rightarrow> bool" where
  "isMeasuredStatsSource source \<longleftrightarrow> source = Some Datapi \<or> source = Some Geckoterminal"

record PoolMetrics =
  pm_pool :: PoolState
  pm_binArray :: BinArray
  pm_tvlVelocity :: jsnum
  pm_feeIlRatio :: jsnum
  pm_volumeAuthenticity :: jsnum
  pm_binUtilization :: jsnum
  pm_volumeAuthenticityKnown :: bool
  pm_feeIlRatioKnown :: bool
  pm_binUtilizationKnown :: bool
  pm_farmAprPct :: "jsnum option"
  pm_netDriftBins :: "jsnum option"

record PriceDriftContext =
  drift_previousPrice :: "jsnum option"
  drift_previousTimestamp :: "jsnum option"

section \<open>Sums over the positions of a pool\<close>

text \<open>\<^verbatim>\<open>ps.filter(p => p.poolAddress === a)\<close> and its summed current value.\<close>

definition poolPositionsOf :: "string \<Rightarrow> Position list \<Rightarrow> Position list" where
  "poolPositionsOf a ps = filter (\<lambda>p. pos_poolAddress p = a) ps"

definition exposureUsd :: "Position list \<Rightarrow> jsnum" where
  "exposureUsd ps = jsum (map pos_currentValueUsd ps)"

text \<open>\<^verbatim>\<open>ps.find(pred)\<close>.\<close>

definition find_first :: "('a \<Rightarrow> bool) \<Rightarrow> 'a list \<Rightarrow> 'a option" where
  "find_first P xs = (case filter P xs of [] \<Rightarrow> None | x # _ \<Rightarrow> Some x)"

lemma find_first_Nil [simp]: "find_first P [] = None"
  by (simp add: find_first_def)

lemma find_first_Cons [simp]:
  "find_first P (x # xs) = (if P x then Some x else find_first P xs)"
  by (simp add: find_first_def)

lemma find_first_SomeD: "find_first P xs = Some x \<Longrightarrow> x \<in> set xs \<and> P x"
  by (induction xs) (auto split: if_splits)

lemma find_first_None_iff: "find_first P xs = None \<longleftrightarrow> (\<forall>x \<in> set xs. \<not> P x)"
  by (induction xs) auto

lemma exposure_nonneg:
  "\<forall>p \<in> set ps. jle (Fin 0) (pos_currentValueUsd p) \<Longrightarrow> jle (Fin 0) (exposureUsd ps)"
  unfolding exposureUsd_def by (rule jsum_nonneg) simp

end
