(* ===== verification/RiskGates.thy ===== *)
theory RiskGates
  imports DomainTypes
begin

text \<open>
  The pre-execution risk gates of \<^verbatim>\<open>engine/risk-service.ts\<close>: \<open>evaluateRisk\<close> and its numbered
  gates, and the stand-alone gates for rebalance gas, fee compounding, per-pool allocation and
  paper validation.  A reason is the message's template with the values it prints, before their
  formatting.  The chain of gates is an instance of \<open>gate_chain\<close>.
\<close>

section \<open>Results\<close>

datatype RiskReason =
    ExitApproved
  | AllChecksPassed
  | ConfidenceNotFinite
  | ConfidenceBelow jsnum jsnum
  | RollingPnlHalt
  | PerPoolCapReached nat jsnum string
  | DrawdownDataNotFinite
  | DrawdownExceeds jsnum
  | StopLossTriggered jsnum jsnum
  | EntryBelowFloor jsnum jsnum
  | SizeDataNotFinite
  | PoolCapFilled jsnum jsnum
  | HeadroomBelowFloor jsnum jsnum
  | SizeCapped jsnum jsnum
  | InvalidRange
  | RangeTooWide jsnum jsnum
  | RangeMissesActiveBin jsnum jsnum jsnum

record RiskResult =
  approved :: bool
  reason :: RiskReason
  adjustedSizeUsd :: "jsnum option"

record RiskConfig =
  rc_confidenceThreshold :: jsnum
  rc_maxRebalanceRangeBins :: jsnum
  rc_stopLossPct :: jsnum
  rc_maxPerPoolAllocationPct :: jsnum
  rc_maxPositionsPerPool :: jsnum

definition reject :: "RiskReason \<Rightarrow> RiskResult" where
  "reject r = \<lparr>approved = False, reason = r, adjustedSizeUsd = None\<rparr>"

definition approve :: "RiskReason \<Rightarrow> RiskResult" where
  "approve r = \<lparr>approved = True, reason = r, adjustedSizeUsd = None\<rparr>"

definition ENTRY_SIZE_FLOOR_USD :: jsnum where
  "ENTRY_SIZE_FLOOR_USD = Fin 10"

section \<open>The numbered gates\<close>

definition checkConfidenceGate ::
  "RiskConfig \<Rightarrow> AgentDecision \<Rightarrow> RiskResult option" where
  "checkConfidenceGate cfg d =
     (if \<not> is_finite (dec_confidence d) then Some (reject ConfidenceNotFinite)
      else if jlt (dec_confidence d) (rc_confidenceThreshold cfg)
        then Some (reject (ConfidenceBelow (dec_confidence d) (rc_confidenceThreshold cfg)))
      else None)"

definition checkRollingPnlHaltGate :: "AgentDecision \<Rightarrow> RiskContext \<Rightarrow> RiskResult option" where
  "checkRollingPnlHaltGate d ctx =
     (if dec_action d = ENTER \<and> ctx_rollingRealizedPnlHalted ctx = Some True
      then Some (reject RollingPnlHalt) else None)"

definition checkPerPoolPositionCapGate ::
  "RiskConfig \<Rightarrow> AgentDecision \<Rightarrow> RiskContext \<Rightarrow> RiskResult option" where
  "checkPerPoolPositionCapGate cfg d ctx =
     (if dec_action d \<noteq> ENTER \<or> dec_poolAddress d = [] then None
      else let n = length (poolPositionsOf (dec_poolAddress d) (ctx_openPositions ctx))
        in if jge (jnat n) (rc_maxPositionsPerPool cfg)
           then Some (reject (PerPoolCapReached n (rc_maxPositionsPerPool cfg) (dec_poolAddress d)))
           else None)"

definition checkDrawdownGate :: "AgentDecision \<Rightarrow> RiskContext \<Rightarrow> RiskResult option" where
  "checkDrawdownGate d ctx =
     (if dec_action d \<noteq> ENTER then None
      else if \<not> is_finite (ctx_portfolioValueUsd ctx) \<or> \<not> is_finite (ctx_recentPnlUsd ctx)
        then Some (reject DrawdownDataNotFinite)
      else if jgt (ctx_portfolioValueUsd ctx) (Fin 0)
        then (let drawdownPct = jdiv (jabs (ctx_recentPnlUsd ctx)) (ctx_portfolioValueUsd ctx)
              in if jlt (ctx_recentPnlUsd ctx) (Fin 0) \<and> jgt drawdownPct (fl (1 / 10))
                 then Some (reject (DrawdownExceeds drawdownPct)) else None)
      else None)"

definition stopLossTarget :: "AgentDecision \<Rightarrow> RiskContext \<Rightarrow> Position option" where
  "stopLossTarget d ctx =
     (case (case dec_positionId d of None \<Rightarrow> ctx_positionId ctx | Some i \<Rightarrow> Some i) of
        Some i \<Rightarrow> find_first (\<lambda>p. pos_id p = i) (ctx_openPositions ctx)
      | None \<Rightarrow> find_first (\<lambda>p. pos_poolAddress p = dec_poolAddress d) (ctx_openPositions ctx))"

definition checkStopLossGate ::
  "RiskConfig \<Rightarrow> AgentDecision \<Rightarrow> RiskContext \<Rightarrow> RiskResult option" where
  "checkStopLossGate cfg d ctx =
     (if dec_action d \<noteq> HOLD \<and> dec_action d \<noteq> REBALANCE then None
      else case stopLossTarget d ctx of
        None \<Rightarrow> None
      | Some pos \<Rightarrow>
          if jle (pos_depositedUsd pos) (Fin 0) then None
          else let lossPct = jdiv (jsub (pos_currentValueUsd pos) (pos_depositedUsd pos))
                              (pos_depositedUsd pos)
            in if jlt lossPct (jneg (rc_stopLossPct cfg))
               then Some (reject (StopLossTriggered lossPct (rc_stopLossPct cfg))) else None)"

definition checkPositionSizeGate ::
  "RiskConfig \<Rightarrow> AgentDecision \<Rightarrow> RiskContext \<Rightarrow> RiskResult option" where
  "checkPositionSizeGate cfg d ctx =
     (case (dec_action d, dec_positionSizeUsd d) of
        (ENTER, Some sz) \<Rightarrow>
          if jlt sz ENTRY_SIZE_FLOOR_USD
            then Some (reject (EntryBelowFloor sz ENTRY_SIZE_FLOOR_USD))
          else
            let capPct = rc_maxPerPoolAllocationPct cfg;
                existingPoolExposureUsd =
                  exposureUsd (poolPositionsOf (dec_poolAddress d) (ctx_openPositions ctx))
            in if \<not> is_finite sz \<or> \<not> is_finite (ctx_portfolioValueUsd ctx)
                 \<or> \<not> is_finite existingPoolExposureUsd
               then Some (reject SizeDataNotFinite)
               else
                 let maxSize = jmax (jsub (jmul (ctx_portfolioValueUsd ctx) capPct)
                                 existingPoolExposureUsd) (Fin 0)
                 in if jle sz maxSize then None
                    else if jle maxSize (Fin 0)
                      then Some (reject (PoolCapFilled existingPoolExposureUsd capPct))
                    else if jlt maxSize ENTRY_SIZE_FLOOR_USD
                      then Some (reject (HeadroomBelowFloor maxSize ENTRY_SIZE_FLOOR_USD))
                    else Some \<lparr>approved = True, reason = SizeCapped capPct maxSize,
                           adjustedSizeUsd = Some maxSize\<rparr>
      | _ \<Rightarrow> None)"

text \<open>The bin containment test both range gates share; an unknown active bin passes.\<close>

definition binOutside :: "jsnum option \<Rightarrow> jsnum \<Rightarrow> jsnum \<Rightarrow> bool" where
  "binOutside b lower upper =
     (case b of None \<Rightarrow> False | Some a \<Rightarrow> is_finite a \<and> (jlt a lower \<or> jgt a upper))"

definition checkRebalanceRangeGate ::
  "RiskConfig \<Rightarrow> AgentDecision \<Rightarrow> RiskContext \<Rightarrow> RiskResult option" where
  "checkRebalanceRangeGate cfg d ctx =
     (case (dec_action d, dec_rebalanceParams d) of
        (REBALANCE, Some rp) \<Rightarrow>
          (let lower = reb_newLowerBinId rp; upper = reb_newUpperBinId rp;
               rangeWidth = jsub upper lower
           in if jle upper lower then Some (reject InvalidRange)
              else if jgt rangeWidth (rc_maxRebalanceRangeBins cfg)
                then Some (reject (RangeTooWide rangeWidth (rc_maxRebalanceRangeBins cfg)))
              else if reb_topUp rp = None \<and> binOutside (ctx_activeBinId ctx) lower upper
                then Some (reject (RangeMissesActiveBin lower upper
                       (nullish (ctx_activeBinId ctx) NaN)))
              else None)
      | _ \<Rightarrow> None)"

section \<open>The chain\<close>

definition evaluateRisk :: "RiskConfig \<Rightarrow> AgentDecision \<Rightarrow> RiskContext \<Rightarrow> RiskResult" where
  "evaluateRisk cfg d ctx =
     (if dec_action d = EXIT then approve ExitApproved
      else case checkConfidenceGate cfg d of Some r \<Rightarrow> r | None \<Rightarrow>
        (case checkRollingPnlHaltGate d ctx of Some r \<Rightarrow> r | None \<Rightarrow>
        (case checkPerPoolPositionCapGate cfg d ctx of Some r \<Rightarrow> r | None \<Rightarrow>
        (case checkDrawdownGate d ctx of Some r \<Rightarrow> r | None \<Rightarrow>
        (case checkStopLossGate cfg d ctx of Some r \<Rightarrow> r | None \<Rightarrow>
        (case checkPositionSizeGate cfg d ctx of Some r \<Rightarrow> r | None \<Rightarrow>
        (case checkRebalanceRangeGate cfg d ctx of Some r \<Rightarrow> r | None \<Rightarrow>
         approve AllChecksPassed)))))))"

lemmas risk_gate_defs [gate_defs] =
  checkConfidenceGate_def checkRollingPnlHaltGate_def checkPerPoolPositionCapGate_def
  checkDrawdownGate_def checkStopLossGate_def checkPositionSizeGate_def
  checkRebalanceRangeGate_def reject_def approve_def

definition riskGates ::
  "(RiskConfig \<times> AgentDecision \<times> RiskContext \<Rightarrow> RiskResult option) list" where
  "riskGates =
     [\<lambda>(cfg, d, ctx). if dec_action d = EXIT then Some (approve ExitApproved) else None,
      \<lambda>(cfg, d, ctx). checkConfidenceGate cfg d,
      \<lambda>(cfg, d, ctx). checkRollingPnlHaltGate d ctx,
      \<lambda>(cfg, d, ctx). checkPerPoolPositionCapGate cfg d ctx,
      \<lambda>(cfg, d, ctx). checkDrawdownGate d ctx,
      \<lambda>(cfg, d, ctx). checkStopLossGate cfg d ctx,
      \<lambda>(cfg, d, ctx). checkPositionSizeGate cfg d ctx,
      \<lambda>(cfg, d, ctx). checkRebalanceRangeGate cfg d ctx]"

lemma risk_gate_reason:
  "checkConfidenceGate cfg d = Some r \<Longrightarrow> reason r \<noteq> AllChecksPassed"
  "checkRollingPnlHaltGate d ctx = Some r \<Longrightarrow> reason r \<noteq> AllChecksPassed"
  "checkPerPoolPositionCapGate cfg d ctx = Some r \<Longrightarrow> reason r \<noteq> AllChecksPassed"
  "checkDrawdownGate d ctx = Some r \<Longrightarrow> reason r \<noteq> AllChecksPassed"
  "checkStopLossGate cfg d ctx = Some r \<Longrightarrow> reason r \<noteq> AllChecksPassed"
  "checkPositionSizeGate cfg d ctx = Some r \<Longrightarrow> reason r \<noteq> AllChecksPassed"
  "checkRebalanceRangeGate cfg d ctx = Some r \<Longrightarrow> reason r \<noteq> AllChecksPassed"
  by (auto simp: gate_defs Let_def split: if_splits option.splits ActionType.splits)

interpretation risk: gate_chain riskGates "\<lambda>r. r" "\<lambda>_. approve AllChecksPassed"
  "\<lambda>(cfg, d, ctx). evaluateRisk cfg d ctx"
proof
  fix q :: "RiskConfig \<times> AgentDecision \<times> RiskContext"
  obtain cfg d ctx where q: "q = (cfg, d, ctx)" by (cases q)
  show "(case q of (cfg, d, ctx) \<Rightarrow> evaluateRisk cfg d ctx) =
    (case first_some (map (\<lambda>g. g q) riskGates) of None \<Rightarrow> approve AllChecksPassed | Some x \<Rightarrow> x)"
    by (simp add: q riskGates_def evaluateRisk_def split: option.splits)
next
  fix g and q :: "RiskConfig \<times> AgentDecision \<times> RiskContext" and x
  assume "g \<in> set riskGates" "g q = Some x"
  then have "reason x \<noteq> AllChecksPassed"
    by (cases q) (auto simp: riskGates_def approve_def dest: risk_gate_reason split: if_splits)
  then show "x \<noteq> approve AllChecksPassed" by (auto simp: approve_def)
qed simp

section \<open>Gas, compounding, allocation and paper validation\<close>

datatype GasReason =
    GasNotFinite
  | GasNotPositive jsnum
  | GasNoFees jsnum
  | GasExceedsFees jsnum jsnum jsnum
  | GasCovered jsnum jsnum jsnum

record GasGateInput =
  gas_rebalanceGasCostSol :: jsnum
  gas_solPriceUsd :: jsnum
  gas_positionDailyFeesUsd :: jsnum
  gas_minDaysOfFeesPaidAhead :: jsnum

record GasGateResult =
  gas_approved :: bool
  gas_reason :: GasReason
  gas_gasCostUsd :: jsnum
  gas_feesThresholdUsd :: jsnum

definition evaluateGasGate :: "GasGateInput \<Rightarrow> GasGateResult" where
  "evaluateGasGate inp =
     (let cost = jmul (gas_rebalanceGasCostSol inp) (gas_solPriceUsd inp);
          thr = jmul (gas_positionDailyFeesUsd inp) (gas_minDaysOfFeesPaidAhead inp);
          result = (\<lambda>ok r. \<lparr>gas_approved = ok, gas_reason = r, gas_gasCostUsd = cost,
                      gas_feesThresholdUsd = thr\<rparr>)
      in if \<not> is_finite cost \<or> \<not> is_finite thr then result False GasNotFinite
         else if jle cost (Fin 0) then result False (GasNotPositive (gas_rebalanceGasCostSol inp))
         else if jle (gas_positionDailyFeesUsd inp) (Fin 0)
           then result False (GasNoFees (gas_positionDailyFeesUsd inp))
         else if jgt cost thr
           then result False (GasExceedsFees cost (gas_minDaysOfFeesPaidAhead inp) thr)
         else result True (GasCovered cost (gas_minDaysOfFeesPaidAhead inp) thr))"

datatype CompoundReason =
    CompoundNotFinite
  | CompoundNoFees jsnum
  | CompoundBelowCost jsnum jsnum jsnum jsnum jsnum
  | CompoundCovered jsnum jsnum jsnum

record CompoundGateInput =
  cmp_netFeesUsd :: jsnum
  cmp_minCompoundFeesUsd :: jsnum
  cmp_compoundGasBufferUsd :: jsnum
  cmp_rebalanceGasCostUsd :: jsnum

record CompoundGateResult =
  cmp_approved :: bool
  cmp_reason :: CompoundReason
  cmp_thresholdUsd :: jsnum
  cmp_savingsUsd :: jsnum

definition evaluateCompoundGate :: "CompoundGateInput \<Rightarrow> CompoundGateResult" where
  "evaluateCompoundGate inp =
     (let thr = jadd (jadd (cmp_minCompoundFeesUsd inp) (cmp_compoundGasBufferUsd inp))
                  (cmp_rebalanceGasCostUsd inp);
          savings = jsub (cmp_netFeesUsd inp) thr;
          result = (\<lambda>ok r. \<lparr>cmp_approved = ok, cmp_reason = r, cmp_thresholdUsd = thr,
                      cmp_savingsUsd = savings\<rparr>)
      in if \<not> is_finite (cmp_netFeesUsd inp) \<or> \<not> is_finite (cmp_minCompoundFeesUsd inp)
            \<or> \<not> is_finite (cmp_compoundGasBufferUsd inp) \<or> \<not> is_finite (cmp_rebalanceGasCostUsd inp)
           then result False CompoundNotFinite
         else if jle (cmp_netFeesUsd inp) (Fin 0)
           then result False (CompoundNoFees (cmp_netFeesUsd inp))
         else if jle savings (Fin 0)
           then result False (CompoundBelowCost (cmp_netFeesUsd inp) thr
                  (cmp_minCompoundFeesUsd inp) (cmp_compoundGasBufferUsd inp)
                  (cmp_rebalanceGasCostUsd inp))
         else result True (CompoundCovered (cmp_netFeesUsd inp) thr savings))"

datatype AllocationReason =
    AllocPoolCapReached nat jsnum string
  | AllocMaxOpenReached nat jsnum
  | AllocNotFinite
  | AllocPoolFilled jsnum jsnum jsnum
  | AllocCapped jsnum jsnum
  | AllocWithinCap

record PerPoolAllocationInput =
  alloc_proposedDepositUsd :: jsnum
  alloc_portfolioValueUsd :: jsnum
  alloc_openPositions :: "Position list"
  alloc_maxPerPoolAllocationPct :: jsnum
  alloc_maxOpenPositions :: jsnum
  alloc_poolAddress :: string
  alloc_maxPositionsPerPool :: jsnum

record PerPoolAllocationResult =
  alloc_approved :: bool
  alloc_reason :: AllocationReason
  alloc_adjustedDepositUsd :: jsnum

definition evaluatePerPoolAllocation :: "PerPoolAllocationInput \<Rightarrow> PerPoolAllocationResult" where
  "evaluatePerPoolAllocation inp =
     (let rej = (\<lambda>r. \<lparr>alloc_approved = False, alloc_reason = r, alloc_adjustedDepositUsd = Fin 0\<rparr>);
          poolPositions = poolPositionsOf (alloc_poolAddress inp) (alloc_openPositions inp)
      in if jge (jnat (length poolPositions)) (alloc_maxPositionsPerPool inp)
           then rej (AllocPoolCapReached (length poolPositions) (alloc_maxPositionsPerPool inp)
                  (alloc_poolAddress inp))
         else if jge (jnat (length (alloc_openPositions inp))) (alloc_maxOpenPositions inp)
           then rej (AllocMaxOpenReached (length (alloc_openPositions inp))
                  (alloc_maxOpenPositions inp))
         else
           let exposure = exposureUsd poolPositions
           in if \<not> is_finite (alloc_proposedDepositUsd inp)
                \<or> \<not> is_finite (alloc_portfolioValueUsd inp)
                \<or> \<not> is_finite (alloc_maxPerPoolAllocationPct inp) \<or> \<not> is_finite exposure
              then rej AllocNotFinite
              else
                let perPoolCapUsd = jmax (jmul (alloc_portfolioValueUsd inp)
                                      (alloc_maxPerPoolAllocationPct inp)) (Fin 0);
                    headroomUsd = jmax (jsub perPoolCapUsd exposure) (Fin 0);
                    adjusted = jmin (alloc_proposedDepositUsd inp) headroomUsd
                in if jle adjusted (Fin 0)
                     then rej (AllocPoolFilled perPoolCapUsd exposure (alloc_proposedDepositUsd inp))
                   else \<lparr>alloc_approved = True,
                     alloc_reason =
                       (if jlt adjusted (alloc_proposedDepositUsd inp)
                        then AllocCapped (alloc_maxPerPoolAllocationPct inp) adjusted
                        else AllocWithinCap),
                     alloc_adjustedDepositUsd = adjusted\<rparr>)"

datatype PaperReason =
    PaperTrading
  | PaperValidated jsnum jsnum
  | PaperNotEnforced
  | PaperBlocked jsnum jsnum

record PaperValidationResult =
  paper_approved :: bool
  paper_reason :: PaperReason
  paper_warning :: "(jsnum \<times> jsnum) option"

definition evaluatePaperValidation ::
  "bool \<Rightarrow> jsnum \<Rightarrow> jsnum \<Rightarrow> bool \<Rightarrow> PaperValidationResult" where
  "evaluatePaperValidation paperTrading days minDays enforce =
     (if paperTrading
        then \<lparr>paper_approved = True, paper_reason = PaperTrading, paper_warning = None\<rparr>
      else if jge days minDays
        then \<lparr>paper_approved = True, paper_reason = PaperValidated days minDays,
               paper_warning = None\<rparr>
      else if \<not> enforce
        then \<lparr>paper_approved = True, paper_reason = PaperNotEnforced,
               paper_warning = Some (days, minDays)\<rparr>
      else \<lparr>paper_approved = False, paper_reason = PaperBlocked days minDays,
             paper_warning = None\<rparr>)"

section \<open>Claimed fees in USD\<close>

definition to_upper :: "string \<Rightarrow> string" where
  "to_upper s = map (\<lambda>c. let n = of_char c :: nat
                       in if 97 \<le> n \<and> n \<le> 122 then char_of (n - 32) else c) s"

definition getTokenDecimals :: "string \<Rightarrow> int" where
  "getTokenDecimals symbol =
     (let upper = to_upper symbol
      in if upper = ''SOL'' \<or> upper = ''WSOL'' then 9
         else if upper = ''USDC'' \<or> upper = ''USDT'' then 6
         else - 1)"

definition tokenAmountToUsd :: "jsnum \<Rightarrow> string \<Rightarrow> jsnum \<Rightarrow> jsnum" where
  "tokenAmountToUsd rawAmount tokenSymbol solPriceUsd =
     (if jeq rawAmount (Fin 0) then Fin 0
      else
        let decimals = getTokenDecimals tokenSymbol
        in if decimals < 0 then Fin 0
           else
             let human = jdiv rawAmount (Fin (10 ^ nat decimals));
                 upper = to_upper tokenSymbol
             in if upper = ''USDC'' \<or> upper = ''USDT'' then human
                else jmul human solPriceUsd)"

definition convertClaimFeesToUsd ::
  "jsnum \<Rightarrow> jsnum \<Rightarrow> string \<Rightarrow> string \<Rightarrow> jsnum \<Rightarrow> jsnum" where
  "convertClaimFeesToUsd netFeeXRaw netFeeYRaw tokenXSymbol tokenYSymbol solPriceUsd =
     (let xDecimals = getTokenDecimals tokenXSymbol; yDecimals = getTokenDecimals tokenYSymbol
      in if xDecimals < 0 \<or> yDecimals < 0 then Fin 0
         else jadd (tokenAmountToUsd netFeeXRaw tokenXSymbol solPriceUsd)
                (tokenAmountToUsd netFeeYRaw tokenYSymbol solPriceUsd))"

section \<open>What each gate's silence means\<close>

lemma gates_reject:
  "checkConfidenceGate cfg d = Some r \<Longrightarrow> \<not> approved r"
  "checkRollingPnlHaltGate d ctx = Some r \<Longrightarrow> \<not> approved r"
  "checkPerPoolPositionCapGate cfg d ctx = Some r \<Longrightarrow> \<not> approved r"
  "checkDrawdownGate d ctx = Some r \<Longrightarrow> \<not> approved r"
  "checkStopLossGate cfg d ctx = Some r \<Longrightarrow> \<not> approved r"
  "checkRebalanceRangeGate cfg d ctx = Some r \<Longrightarrow> \<not> approved r"
  by (auto simp: gate_defs Let_def split: if_splits option.splits ActionType.splits)

lemma approved_nonexit:
  assumes "approved (evaluateRisk cfg d ctx)" and "dec_action d \<noteq> EXIT"
  shows "checkConfidenceGate cfg d = None" "checkRollingPnlHaltGate d ctx = None"
    "checkPerPoolPositionCapGate cfg d ctx = None" "checkDrawdownGate d ctx = None"
    "checkStopLossGate cfg d ctx = None"
    "checkPositionSizeGate cfg d ctx = None \<or>
      checkPositionSizeGate cfg d ctx = Some (evaluateRisk cfg d ctx)"
    "checkPositionSizeGate cfg d ctx = None \<Longrightarrow>
      checkRebalanceRangeGate cfg d ctx = None \<and> evaluateRisk cfg d ctx = approve AllChecksPassed"
  using assms by (auto simp: evaluateRisk_def dest: gates_reject split: option.splits)

lemma confidence_gate_None:
  "checkConfidenceGate cfg d = None \<longleftrightarrow>
     is_finite (dec_confidence d) \<and> \<not> jlt (dec_confidence d) (rc_confidenceThreshold cfg)"
  by (simp add: checkConfidenceGate_def)

lemma halt_gate_None:
  "checkRollingPnlHaltGate d ctx = None \<longleftrightarrow>
     \<not> (dec_action d = ENTER \<and> ctx_rollingRealizedPnlHalted ctx = Some True)"
  by (simp add: checkRollingPnlHaltGate_def)

lemma cap_gate_None:
  "dec_action d = ENTER \<Longrightarrow> dec_poolAddress d \<noteq> [] \<Longrightarrow>
   checkPerPoolPositionCapGate cfg d ctx = None \<longleftrightarrow>
     \<not> jge (jnat (length (poolPositionsOf (dec_poolAddress d) (ctx_openPositions ctx))))
       (rc_maxPositionsPerPool cfg)"
  by (simp add: checkPerPoolPositionCapGate_def Let_def)

lemma drawdown_gate_None:
  assumes "dec_action d = ENTER" "checkDrawdownGate d ctx = None"
  shows "is_finite (ctx_portfolioValueUsd ctx) \<and> is_finite (ctx_recentPnlUsd ctx) \<and>
    (jlt (Fin 0) (ctx_portfolioValueUsd ctx) \<longrightarrow> jlt (ctx_recentPnlUsd ctx) (Fin 0) \<longrightarrow>
      jle (jdiv (jabs (ctx_recentPnlUsd ctx)) (ctx_portfolioValueUsd ctx)) (fl (1 / 10)))"
proof -
  have fin: "is_finite (ctx_portfolioValueUsd ctx)" "is_finite (ctx_recentPnlUsd ctx)"
    using assms by (auto simp: checkDrawdownGate_def split: if_splits)
  then obtain v p where v: "ctx_portfolioValueUsd ctx = Fin v" and p: "ctx_recentPnlUsd ctx = Fin p"
    by (auto simp: is_finite_iff)
  show ?thesis
    using assms unfolding v p
    by (auto simp: checkDrawdownGate_def v p Let_def not_jlt_iff split: if_splits)
qed

lemma entry_gates_silent:
  assumes "dec_action d \<noteq> ENTER"
  shows "checkRollingPnlHaltGate d ctx = None" "checkPerPoolPositionCapGate cfg d ctx = None"
    "checkDrawdownGate d ctx = None" "checkPositionSizeGate cfg d ctx = None"
  using assms
  by (auto simp: checkRollingPnlHaltGate_def checkPerPoolPositionCapGate_def checkDrawdownGate_def
      checkPositionSizeGate_def split: ActionType.splits option.splits)

definition enterHeadroomUsd :: "RiskConfig \<Rightarrow> string \<Rightarrow> RiskContext \<Rightarrow> jsnum" where
  "enterHeadroomUsd cfg pool ctx =
     jmax (jsub (jmul (ctx_portfolioValueUsd ctx) (rc_maxPerPoolAllocationPct cfg))
            (exposureUsd (poolPositionsOf pool (ctx_openPositions ctx)))) (Fin 0)"

lemma size_gate_cases:
  assumes "dec_action d = ENTER" "dec_positionSizeUsd d = Some sz"
    and "is_finite (rc_maxPerPoolAllocationPct cfg)"
    and "checkPositionSizeGate cfg d ctx = None \<or>
         (\<exists>r. checkPositionSizeGate cfg d ctx = Some r \<and> approved r)"
  shows "checkPositionSizeGate cfg d ctx = None \<and> jle (Fin 10) sz \<and>
           jle sz (enterHeadroomUsd cfg (dec_poolAddress d) ctx) \<or>
         (\<exists>r h. checkPositionSizeGate cfg d ctx = Some r \<and> adjustedSizeUsd r = Some h \<and>
           h = enterHeadroomUsd cfg (dec_poolAddress d) ctx \<and> jle (Fin 10) h \<and> jlt h sz)"
proof -
  define pv ex where "pv = ctx_portfolioValueUsd ctx"
    and "ex = exposureUsd (poolPositionsOf (dec_poolAddress d) (ctx_openPositions ctx))"
  define h where "h = enterHeadroomUsd cfg (dec_poolAddress d) ctx"
  have h: "jmax (jsub (jmul pv (rc_maxPerPoolAllocationPct cfg)) ex) (Fin 0) = h"
    by (simp add: h_def enterHeadroomUsd_def pv_def ex_def)
  have g: "checkPositionSizeGate cfg d ctx =
    (if jlt sz (Fin 10) then Some (reject (EntryBelowFloor sz (Fin 10)))
     else if \<not> is_finite sz \<or> \<not> is_finite pv \<or> \<not> is_finite ex then Some (reject SizeDataNotFinite)
     else if jle sz h then None
     else if jle h (Fin 0) then Some (reject (PoolCapFilled ex (rc_maxPerPoolAllocationPct cfg)))
     else if jlt h (Fin 10) then Some (reject (HeadroomBelowFloor h (Fin 10)))
     else Some \<lparr>approved = True, reason = SizeCapped (rc_maxPerPoolAllocationPct cfg) h,
       adjustedSizeUsd = Some h\<rparr>)"
    by (simp add: checkPositionSizeGate_def assms(1,2) Let_def ENTRY_SIZE_FLOOR_USD_def
        pv_def[symmetric] ex_def[symmetric] h)
  have fin: "is_finite sz" "is_finite pv" "is_finite ex"
    using assms(4) unfolding g by (auto simp: reject_def split: if_splits)
  then have "h \<noteq> NaN"
    using assms(3) unfolding h[symmetric]
    by (auto simp: is_finite_iff jsub_def) (metis fl_not_NaN jadd.simps(1) jneg.simps jsnum.exhaust jadd.simps)
  then show ?thesis
    using assms(4) fin unfolding g h_def[symmetric]
    by (cases h) (auto simp: reject_def not_jlt_iff not_jle_iff is_finite_iff split: if_splits)
qed

text \<open>
  C1. Whatever ENTER the risk gates approve is within every limit: its confidence is finite and
  at the threshold, no rolling-loss halt is in force, the pool is below its position cap, and
  the size that will be executed (the capped one when the gate caps it) is at least the ten
  dollar floor, at most the proposed size, and at most the headroom the pool's per-pool
  allocation has left over its present exposure.
\<close>
theorem enter_approved_within_limits:
  assumes "dec_action d = ENTER" and "approved (evaluateRisk cfg d ctx)"
    and "dec_positionSizeUsd d = Some sz" and "dec_poolAddress d \<noteq> []"
    and "is_finite (rc_maxPerPoolAllocationPct cfg)"
  shows "is_finite (dec_confidence d) \<and> \<not> jlt (dec_confidence d) (rc_confidenceThreshold cfg) \<and>
    ctx_rollingRealizedPnlHalted ctx \<noteq> Some True \<and>
    \<not> jge (jnat (length (poolPositionsOf (dec_poolAddress d) (ctx_openPositions ctx))))
        (rc_maxPositionsPerPool cfg) \<and>
    (let e = nullish (adjustedSizeUsd (evaluateRisk cfg d ctx)) sz
     in jle (Fin 10) e \<and> jle e sz \<and> jle e (enterHeadroomUsd cfg (dec_poolAddress d) ctx))"
proof -
  have ne: "dec_action d \<noteq> EXIT" using assms(1) by simp
  note ap = approved_nonexit[OF assms(2) ne]
  have size: "checkPositionSizeGate cfg d ctx = None \<or>
      (\<exists>r. checkPositionSizeGate cfg d ctx = Some r \<and> approved r)"
    using ap(6) assms(2) by auto
  note sc = size_gate_cases[OF assms(1,3,5) size]
  have "let e = nullish (adjustedSizeUsd (evaluateRisk cfg d ctx)) sz
     in jle (Fin 10) e \<and> jle e sz \<and> jle e (enterHeadroomUsd cfg (dec_poolAddress d) ctx)"
    using sc ap(6,7) by (auto simp: Let_def approve_def intro: jlt_imp_jle dest: jle_not_NaN)
  then show ?thesis
    using ap(1-3) assms(1,4) by (auto simp: confidence_gate_None halt_gate_None cap_gate_None)
qed

section \<open>Properties of the risk gates\<close>

text \<open>
  Confidence never blocks capital protection, and nothing else escapes it: a decision whose
  confidence is NaN or infinite is approved exactly when it is an EXIT.
\<close>
theorem nonfinite_confidence_only_exit:
  assumes "\<not> is_finite (dec_confidence d)"
  shows "approved (evaluateRisk cfg d ctx) \<longleftrightarrow> dec_action d = EXIT"
  using assms by (auto simp: evaluateRisk_def checkConfidenceGate_def approve_def reject_def)

text \<open>
  C11. The portfolio-level breakers ration new capital only: for EXIT, REBALANCE and HOLD the
  verdict does not depend on the rolling-loss halt, the portfolio value or the recent PnL.
\<close>
theorem management_free_of_entry_breakers:
  assumes "dec_action d \<noteq> ENTER"
  shows "evaluateRisk cfg d (ctx\<lparr>ctx_rollingRealizedPnlHalted := h, ctx_portfolioValueUsd := v,
           ctx_recentPnlUsd := p\<rparr>) = evaluateRisk cfg d ctx"
proof -
  let ?ctx = "ctx\<lparr>ctx_rollingRealizedPnlHalted := h, ctx_portfolioValueUsd := v, ctx_recentPnlUsd := p\<rparr>"
  have "stopLossTarget d ?ctx = stopLossTarget d ctx" by (simp add: stopLossTarget_def split: option.split)
  then have "checkStopLossGate cfg d ?ctx = checkStopLossGate cfg d ctx"
    by (simp add: checkStopLossGate_def)
  moreover have "checkRebalanceRangeGate cfg d ?ctx = checkRebalanceRangeGate cfg d ctx"
    by (simp add: checkRebalanceRangeGate_def Let_def split: option.split ActionType.split)
  ultimately show ?thesis using entry_gates_silent[OF assms]
    by (cases "checkConfidenceGate cfg d") (simp_all add: evaluateRisk_def split: option.split)
qed

text \<open>
  The gates decide in the order of the code: the verdict is that of the first gate that
  speaks, and \<open>All risk checks passed\<close> is the verdict exactly when all of them are silent.
\<close>
theorem risk_first_gate_decides:
  "(\<forall>i < length riskGates. \<forall>x. (riskGates ! i) (cfg, d, ctx) = Some x \<longrightarrow>
      (\<forall>j < i. (riskGates ! j) (cfg, d, ctx) = None) \<longrightarrow> evaluateRisk cfg d ctx = x) \<and>
   (evaluateRisk cfg d ctx = approve AllChecksPassed \<longleftrightarrow>
      (\<forall>g \<in> set riskGates. g (cfg, d, ctx) = None))"
  using risk.decide_first[of _ "(cfg, d, ctx)"] risk.decide_passed_iff[of "(cfg, d, ctx)"] by simp

text \<open>
  C12. An approved REBALANCE with finite bin ids moves to a proper range no wider than the cap,
  and, unless it is a scale-in with a top-up, one that contains the pool's active bin.
\<close>
theorem rebalance_approved_range:
  assumes "dec_action d = REBALANCE" "dec_rebalanceParams d = Some rp"
    and "approved (evaluateRisk cfg d ctx)"
    and "is_finite (reb_newLowerBinId rp)" "is_finite (reb_newUpperBinId rp)"
    and "is_finite (rc_maxRebalanceRangeBins cfg)"
  shows "jlt (reb_newLowerBinId rp) (reb_newUpperBinId rp) \<and>
    jle (jsub (reb_newUpperBinId rp) (reb_newLowerBinId rp)) (rc_maxRebalanceRangeBins cfg) \<and>
    (reb_topUp rp = None \<longrightarrow> (\<forall>b. ctx_activeBinId ctx = Some b \<longrightarrow> is_finite b \<longrightarrow>
      jle (reb_newLowerBinId rp) b \<and> jle b (reb_newUpperBinId rp)))"
proof -
  have ne: "dec_action d \<noteq> EXIT" using assms(1) by simp
  have "checkPositionSizeGate cfg d ctx = None"
    using assms(1) by (simp add: checkPositionSizeGate_def)
  with approved_nonexit(7)[OF assms(3) ne]
  have g: "checkRebalanceRangeGate cfg d ctx = None" by simp
  obtain l u m where num: "reb_newLowerBinId rp = Fin l" "reb_newUpperBinId rp = Fin u"
    "rc_maxRebalanceRangeBins cfg = Fin m"
    using assms(4-6) by (auto simp: is_finite_iff)
  have "jsub (Fin u) (Fin l) \<noteq> NaN" by (simp add: jsub_def)
  with g assms(1,2) num show ?thesis
    by (auto simp: checkRebalanceRangeGate_def Let_def binOutside_def not_jlt_iff not_jle_iff
        is_finite_iff split: if_splits)
qed

text \<open>
  The stop-loss is monotone in the loss: if it blocks a HOLD or REBALANCE of a position at
  some value, it blocks it at every lower value, rounding included.
\<close>
theorem stop_loss_monotone:
  assumes "stopLossTarget d ctx = Some pos" "stopLossTarget d ctx' = Some pos'"
    and "pos_depositedUsd pos' = pos_depositedUsd pos"
    and "jlt (Fin 0) (pos_depositedUsd pos)" "is_finite (pos_depositedUsd pos)"
    and "jle (pos_currentValueUsd pos') (pos_currentValueUsd pos)"
    and "checkStopLossGate cfg d ctx = Some r"
  shows "\<exists>r'. checkStopLossGate cfg d ctx' = Some r' \<and> \<not> approved r'"
proof -
  let ?loss = "\<lambda>p. jdiv (jsub (pos_currentValueUsd p) (pos_depositedUsd pos)) (pos_depositedUsd pos)"
  have act: "dec_action d = HOLD \<or> dec_action d = REBALANCE"
    using assms(7) by (auto simp: checkStopLossGate_def split: if_splits)
  have dep: "\<not> jle (pos_depositedUsd pos) (Fin 0)" using assms(4) by (rule jlt_asym)
  have hit: "jlt (?loss pos) (jneg (rc_stopLossPct cfg))"
    using assms(7) by (auto simp: checkStopLossGate_def assms(1) Let_def split: if_splits)
  have "jle (jsub (pos_currentValueUsd pos') (pos_depositedUsd pos))
      (jsub (pos_currentValueUsd pos) (pos_depositedUsd pos))"
    using assms(5,6) by (intro jsub_mono_left jsub_finite_not_NaN) auto
  then have "jle (?loss pos') (?loss pos)" using assms(4,5) by (intro jdiv_mono_left)
  then have "jlt (?loss pos') (jneg (rc_stopLossPct cfg))" using hit by (rule jle_jlt_trans)
  then show ?thesis using act dep
    by (auto simp: checkStopLossGate_def assms(2,3) Let_def reject_def)
qed

lemma gas_gate_values:
  "gas_gasCostUsd (evaluateGasGate inp) = jmul (gas_rebalanceGasCostSol inp) (gas_solPriceUsd inp)"
  "gas_feesThresholdUsd (evaluateGasGate inp) =
     jmul (gas_positionDailyFeesUsd inp) (gas_minDaysOfFeesPaidAhead inp)"
  by (simp_all add: evaluateGasGate_def Let_def)

lemma gas_gate_iff_aux:
  assumes "is_finite (gas_minDaysOfFeesPaidAhead inp)"
  shows "gas_approved (evaluateGasGate inp) \<longleftrightarrow>
     is_finite (jmul (gas_positionDailyFeesUsd inp) (gas_minDaysOfFeesPaidAhead inp)) \<and>
     jlt (Fin 0) (jmul (gas_rebalanceGasCostSol inp) (gas_solPriceUsd inp)) \<and>
     jlt (Fin 0) (gas_positionDailyFeesUsd inp) \<and>
     jlt (Fin 0) (gas_minDaysOfFeesPaidAhead inp) \<and>
     jle (jmul (gas_rebalanceGasCostSol inp) (gas_solPriceUsd inp))
       (jmul (gas_positionDailyFeesUsd inp) (gas_minDaysOfFeesPaidAhead inp))"
proof -
  define cost thr where "cost = jmul (gas_rebalanceGasCostSol inp) (gas_solPriceUsd inp)"
    and "thr = jmul (gas_positionDailyFeesUsd inp) (gas_minDaysOfFeesPaidAhead inp)"
  have ap: "gas_approved (evaluateGasGate inp) \<longleftrightarrow> is_finite cost \<and> is_finite thr \<and>
      \<not> jle cost (Fin 0) \<and> \<not> jle (gas_positionDailyFeesUsd inp) (Fin 0) \<and> \<not> jlt thr cost"
    by (auto simp: evaluateGasGate_def Let_def cost_def thr_def)
  have fees: "is_finite thr \<Longrightarrow> gas_positionDailyFeesUsd inp \<noteq> NaN"
    by (auto simp: thr_def)
  have days: "jlt (Fin 0) thr \<Longrightarrow> jlt (Fin 0) (gas_positionDailyFeesUsd inp) \<Longrightarrow>
      jlt (Fin 0) (gas_minDaysOfFeesPaidAhead inp)"
    unfolding thr_def using assms by (blast intro: jmul_pos_imp)
  show ?thesis unfolding ap cost_def[symmetric] thr_def[symmetric]
    using fees days
    by (cases cost; cases thr)
      (auto simp: not_jle_iff not_jlt_iff jle_def jeq_def dest: jlt_jle_trans jlt_asym)
qed

text \<open>
  The gas gate approves a rebalance exactly when its gas cost is finite, positive and
  recovered by the configured days of positive fees; in particular the days are positive.
\<close>
theorem gas_gate_recovers_cost:
  assumes "is_finite (gas_minDaysOfFeesPaidAhead inp)"
  shows "gas_approved (evaluateGasGate inp) \<longleftrightarrow>
     is_finite (gas_feesThresholdUsd (evaluateGasGate inp)) \<and>
     jlt (Fin 0) (gas_gasCostUsd (evaluateGasGate inp)) \<and>
     jlt (Fin 0) (gas_positionDailyFeesUsd inp) \<and>
     jlt (Fin 0) (gas_minDaysOfFeesPaidAhead inp) \<and>
     jle (gas_gasCostUsd (evaluateGasGate inp)) (gas_feesThresholdUsd (evaluateGasGate inp))"
  using gas_gate_iff_aux[OF assms] by (simp only: gas_gate_values)

text \<open>
  More fees never turn the gas gate against a rebalance: an approval survives any larger
  daily fee income whose product with the days stays finite.
\<close>
theorem gas_gate_monotone_fees:
  assumes "is_finite (gas_minDaysOfFeesPaidAhead inp)" "gas_approved (evaluateGasGate inp)"
    and "jle (gas_positionDailyFeesUsd inp) f"
    and "is_finite (jmul f (gas_minDaysOfFeesPaidAhead inp))"
  shows "gas_approved (evaluateGasGate (inp\<lparr>gas_positionDailyFeesUsd := f\<rparr>))"
proof -
  let ?inp = "inp\<lparr>gas_positionDailyFeesUsd := f\<rparr>"
  note old = iffD1[OF gas_gate_iff_aux[OF assms(1)] assms(2)]
  show ?thesis
  proof (rule iffD2[OF gas_gate_iff_aux])
    show "is_finite (gas_minDaysOfFeesPaidAhead ?inp)" using assms(1) by simp
    have "jle (jmul (gas_positionDailyFeesUsd inp) (gas_minDaysOfFeesPaidAhead inp))
        (jmul f (gas_minDaysOfFeesPaidAhead inp))"
      using old assms(3,4) by (intro jmul_mono_right) (auto intro: jlt_imp_jle)
    then show "is_finite (jmul (gas_positionDailyFeesUsd ?inp) (gas_minDaysOfFeesPaidAhead ?inp)) \<and>
      jlt (Fin 0) (jmul (gas_rebalanceGasCostSol ?inp) (gas_solPriceUsd ?inp)) \<and>
      jlt (Fin 0) (gas_positionDailyFeesUsd ?inp) \<and>
      jlt (Fin 0) (gas_minDaysOfFeesPaidAhead ?inp) \<and>
      jle (jmul (gas_rebalanceGasCostSol ?inp) (gas_solPriceUsd ?inp))
        (jmul (gas_positionDailyFeesUsd ?inp) (gas_minDaysOfFeesPaidAhead ?inp))"
      using old assms(3,4) by (auto intro: jle_trans jlt_jle_trans)
  qed
qed

lemma allocation_bounds_aux:
  assumes "alloc_approved (evaluatePerPoolAllocation inp)"
  shows "let a = alloc_adjustedDepositUsd (evaluatePerPoolAllocation inp);
             cap = jmax (jmul (alloc_portfolioValueUsd inp) (alloc_maxPerPoolAllocationPct inp)) (Fin 0);
             pool = poolPositionsOf (alloc_poolAddress inp) (alloc_openPositions inp)
         in jlt (Fin 0) a \<and> jle a (alloc_proposedDepositUsd inp) \<and>
            jle a (jmax (jsub cap (exposureUsd pool)) (Fin 0)) \<and>
            \<not> jge (jnat (length pool)) (alloc_maxPositionsPerPool inp) \<and>
            \<not> jge (jnat (length (alloc_openPositions inp))) (alloc_maxOpenPositions inp)"
proof -
  define pool cap head a where "pool = poolPositionsOf (alloc_poolAddress inp) (alloc_openPositions inp)"
    and "cap = jmax (jmul (alloc_portfolioValueUsd inp) (alloc_maxPerPoolAllocationPct inp)) (Fin 0)"
    and "head = jmax (jsub cap (exposureUsd pool)) (Fin 0)"
    and "a = jmin (alloc_proposedDepositUsd inp) head"
  note ev = evaluatePerPoolAllocation_def Let_def pool_def[symmetric] cap_def[symmetric]
    head_def[symmetric] a_def[symmetric]
  have res: "alloc_adjustedDepositUsd (evaluatePerPoolAllocation inp) = a"
    "\<not> jle a (Fin 0)" "is_finite (alloc_proposedDepositUsd inp)" "is_finite (exposureUsd pool)"
    "is_finite (alloc_portfolioValueUsd inp)" "is_finite (alloc_maxPerPoolAllocationPct inp)"
    "\<not> jge (jnat (length pool)) (alloc_maxPositionsPerPool inp)"
    "\<not> jge (jnat (length (alloc_openPositions inp))) (alloc_maxOpenPositions inp)"
    using assms by (auto simp: ev split: if_splits)
  have "cap \<noteq> NaN" using res(5,6) by (simp add: cap_def jmul_finite_not_NaN)
  then have "head \<noteq> NaN" using res(4) by (simp add: head_def jsub_finite_not_NaN)
  moreover have "alloc_proposedDepositUsd inp \<noteq> NaN" using res(3) by auto
  ultimately have a: "a \<noteq> NaN" by (simp add: a_def)
  then have "jle a (alloc_proposedDepositUsd inp)" "jle a head"
    unfolding a_def by (auto intro: jmin_le1 jmin_le2)
  moreover have "jlt (Fin 0) a" using res(2) a by (auto simp: not_jle_iff)
  ultimately show ?thesis
    using res(7,8) by (simp add: res(1) Let_def pool_def[symmetric] cap_def[symmetric] head_def[symmetric])
qed

text \<open>
  An approved allocation is positive, no larger than the proposal, no larger than the pool's
  cap, and fits the headroom the pool's present positions leave; both position counts are below
  their limits.
\<close>
theorem allocation_approved_bounds:
  assumes "alloc_approved (evaluatePerPoolAllocation inp)"
  shows "let a = alloc_adjustedDepositUsd (evaluatePerPoolAllocation inp);
             cap = jmax (jmul (alloc_portfolioValueUsd inp) (alloc_maxPerPoolAllocationPct inp)) (Fin 0);
             pool = poolPositionsOf (alloc_poolAddress inp) (alloc_openPositions inp)
         in jlt (Fin 0) a \<and> jle a (alloc_proposedDepositUsd inp) \<and>
            jle a (jmax (jsub cap (exposureUsd pool)) (Fin 0)) \<and>
            \<not> jge (jnat (length pool)) (alloc_maxPositionsPerPool inp) \<and>
            \<not> jge (jnat (length (alloc_openPositions inp))) (alloc_maxOpenPositions inp)"
  using assms by (rule allocation_bounds_aux)

text \<open>
  Re-validating an allocation changes nothing: the deposit the gate returned, proposed
  again in the same state, is approved unchanged as within the cap.
\<close>
theorem allocation_idempotent:
  assumes "alloc_approved (evaluatePerPoolAllocation inp)"
  shows "evaluatePerPoolAllocation
           (inp\<lparr>alloc_proposedDepositUsd := alloc_adjustedDepositUsd (evaluatePerPoolAllocation inp)\<rparr>) =
         \<lparr>alloc_approved = True, alloc_reason = AllocWithinCap,
          alloc_adjustedDepositUsd = alloc_adjustedDepositUsd (evaluatePerPoolAllocation inp)\<rparr>"
proof -
  define pool cap head a where "pool = poolPositionsOf (alloc_poolAddress inp) (alloc_openPositions inp)"
    and "cap = jmax (jmul (alloc_portfolioValueUsd inp) (alloc_maxPerPoolAllocationPct inp)) (Fin 0)"
    and "head = jmax (jsub cap (exposureUsd pool)) (Fin 0)"
    and "a = jmin (alloc_proposedDepositUsd inp) head"
  note ev = evaluatePerPoolAllocation_def Let_def pool_def[symmetric] cap_def[symmetric]
    head_def[symmetric] a_def[symmetric]
  have res: "alloc_adjustedDepositUsd (evaluatePerPoolAllocation inp) = a"
    "\<not> jle a (Fin 0)" "is_finite (alloc_proposedDepositUsd inp)" "is_finite (exposureUsd pool)"
    "is_finite (alloc_portfolioValueUsd inp)" "is_finite (alloc_maxPerPoolAllocationPct inp)"
    "\<not> jge (jnat (length pool)) (alloc_maxPositionsPerPool inp)"
    "\<not> jge (jnat (length (alloc_openPositions inp))) (alloc_maxOpenPositions inp)"
    using assms by (auto simp: ev split: if_splits)
  have b: "jlt (Fin 0) a" "jle a (alloc_proposedDepositUsd inp)" "jle a head"
    using allocation_bounds_aux[OF assms] res(1)
    by (simp_all add: Let_def pool_def cap_def head_def)
  then have fin: "is_finite a" using res(3) by (cases a) (auto simp: is_finite_iff)
  have "jmin a head = a" using b(3) by (auto simp: jmin_def dest: jle_not_NaN)
  then show ?thesis unfolding res(1)
    using res(2-) fin by (simp add: ev)
qed

text \<open>
  A compounding claim the gate approves nets more than the whole compound cost, and, when
  the cost components are not negative, more than the rebalance gas and than the minimum alone.
\<close>
theorem compound_gate_profitable:
  assumes "cmp_approved (evaluateCompoundGate inp)"
    and "jle (Fin 0) (cmp_minCompoundFeesUsd inp)" "jle (Fin 0) (cmp_compoundGasBufferUsd inp)"
    and "jle (Fin 0) (cmp_rebalanceGasCostUsd inp)"
    and "is_double (cmp_minCompoundFeesUsd inp)" "is_double (cmp_rebalanceGasCostUsd inp)"
  shows "jlt (cmp_thresholdUsd (evaluateCompoundGate inp)) (cmp_netFeesUsd inp) \<and>
    jlt (cmp_rebalanceGasCostUsd inp) (cmp_netFeesUsd inp) \<and>
    jlt (cmp_minCompoundFeesUsd inp) (cmp_netFeesUsd inp)"
proof -
  define mb thr where "mb = jadd (cmp_minCompoundFeesUsd inp) (cmp_compoundGasBufferUsd inp)"
    and "thr = jadd mb (cmp_rebalanceGasCostUsd inp)"
  have ap: "\<not> jle (jsub (cmp_netFeesUsd inp) thr) (Fin 0)" "is_finite (cmp_netFeesUsd inp)"
    using assms(1) by (auto simp: evaluateCompoundGate_def Let_def mb_def thr_def split: if_splits)
  have mb: "jle (Fin 0) mb" "jle (cmp_minCompoundFeesUsd inp) mb"
    unfolding mb_def using assms by (auto intro: jadd_nonneg jadd_ge_left dest: jle_not_NaN)
  have thr: "jle (cmp_rebalanceGasCostUsd inp) thr" "jle mb thr"
    unfolding thr_def using assms mb
    by (auto intro!: jadd_ge_right jadd_ge_left simp: mb_def dest: jle_not_NaN)
  have "thr \<noteq> NaN" using thr by auto
  then have "jsub (cmp_netFeesUsd inp) thr \<noteq> NaN"
    using ap(2) by (cases thr) (auto simp: is_finite_iff jsub_def)
  then have "jlt thr (cmp_netFeesUsd inp)"
    using ap(1) by (auto simp: not_jle_iff intro: jsub_pos_imp_jlt)
  moreover have "cmp_thresholdUsd (evaluateCompoundGate inp) = thr"
    by (simp add: evaluateCompoundGate_def Let_def mb_def thr_def)
  ultimately show ?thesis using thr mb by (auto intro: jle_jlt_trans)
qed

section \<open>Witnesses\<close>

definition sampleRiskConfig :: RiskConfig where
  "sampleRiskConfig = \<lparr>rc_confidenceThreshold = Fin (1 / 2), rc_maxRebalanceRangeBins = Fin 70,
     rc_stopLossPct = Fin (1 / 4), rc_maxPerPoolAllocationPct = Fin (1 / 2),
     rc_maxPositionsPerPool = Fin 2\<rparr>"

definition samplePosition :: Position where
  "samplePosition = \<lparr>pos_id = ''p1'', pos_poolAddress = ''pool'', pos_poolName = ''SOL-USDC'',
     pos_lowerBinId = Fin (- 10), pos_upperBinId = Fin 10, pos_liquidityShares = 5,
     pos_depositedUsd = Fin 200, pos_currentValueUsd = Fin 100, pos_unrealizedPnlUsd = Fin (- 100),
     pos_feesEarnedUsd = Fin 0, pos_openedAt = Fin 0\<rparr>"

definition sampleContext :: RiskContext where
  "sampleContext = \<lparr>ctx_openPositions = [samplePosition], ctx_portfolioValueUsd = Fin 1000,
     ctx_recentPnlUsd = Fin 0, ctx_poolAddress = ''pool'', ctx_originalDecision = None,
     ctx_activeBinId = Some (Fin 3), ctx_positionId = None, ctx_maxOpenPositions = None,
     ctx_rollingRealizedPnlHalted = None\<rparr>"

definition sampleDecision :: "ActionType \<Rightarrow> AgentDecision" where
  "sampleDecision act = \<lparr>dec_action = act, dec_poolAddress = ''pool'',
     dec_confidence = Fin (3 / 4), dec_reasoning = [], dec_rebalanceParams = None,
     dec_positionSizeUsd = None, dec_positionId = None, dec_positionMode = None,
     dec_tpLadderJson = None, dec_invalidationStopPrice = None\<rparr>"

definition sampleEnter :: AgentDecision where
  "sampleEnter = (sampleDecision ENTER)\<lparr>dec_positionSizeUsd := Some (Fin 450)\<rparr>"

definition sampleRange :: RebalanceParams where
  "sampleRange = \<lparr>reb_newLowerBinId = Fin (- 5), reb_newUpperBinId = Fin 15,
     reb_slippageBps = Fin 50, reb_topUp = None, reb_topUpUsd = None\<rparr>"

definition sampleGas :: GasGateInput where
  "sampleGas = \<lparr>gas_rebalanceGasCostSol = Fin (1 / 128), gas_solPriceUsd = Fin 128,
     gas_positionDailyFeesUsd = Fin 2, gas_minDaysOfFeesPaidAhead = Fin 3\<rparr>"

definition sampleAllocation :: PerPoolAllocationInput where
  "sampleAllocation = \<lparr>alloc_proposedDepositUsd = Fin 450, alloc_portfolioValueUsd = Fin 1000,
     alloc_openPositions = [samplePosition], alloc_maxPerPoolAllocationPct = Fin (1 / 2),
     alloc_maxOpenPositions = Fin 5, alloc_poolAddress = ''pool'',
     alloc_maxPositionsPerPool = Fin 2\<rparr>"

definition sampleCompound :: CompoundGateInput where
  "sampleCompound = \<lparr>cmp_netFeesUsd = Fin 5, cmp_minCompoundFeesUsd = Fin 1,
     cmp_compoundGasBufferUsd = Fin 1, cmp_rebalanceGasCostUsd = Fin 1\<rparr>"

lemmas risk_samples = sampleRiskConfig_def samplePosition_def sampleContext_def
  sampleDecision_def sampleEnter_def sampleRange_def sampleGas_def sampleAllocation_def
  sampleCompound_def

lemma sample_enter_capped: "evaluateRisk sampleRiskConfig sampleEnter sampleContext =
  \<lparr>approved = True, reason = SizeCapped (Fin (1 / 2)) (Fin 400), adjustedSizeUsd = Some (Fin 400)\<rparr>"
  by (simp add: risk_samples evaluateRisk_def gate_defs poolPositionsOf_def exposureUsd_def
      jsum_def jnat_def num_simps jsub_def ENTRY_SIZE_FLOOR_USD_def Let_def)

theorem enter_approved_within_limits_witness:
  "let e = nullish (adjustedSizeUsd (evaluateRisk sampleRiskConfig sampleEnter sampleContext)) (Fin 450)
   in jle (Fin 10) e \<and> jle e (Fin 450) \<and> jle e (enterHeadroomUsd sampleRiskConfig ''pool'' sampleContext)"
  using enter_approved_within_limits[of sampleEnter sampleRiskConfig sampleContext "Fin 450"]
  by (simp add: sample_enter_capped) (simp add: risk_samples)

theorem nonfinite_confidence_only_exit_witness:
  "\<not> approved (evaluateRisk sampleRiskConfig
      ((sampleDecision HOLD)\<lparr>dec_confidence := NaN\<rparr>) sampleContext)"
  using nonfinite_confidence_only_exit[of "(sampleDecision HOLD)\<lparr>dec_confidence := NaN\<rparr>"
      sampleRiskConfig sampleContext]
  by (simp add: sampleDecision_def)

theorem management_free_witness:
  "evaluateRisk sampleRiskConfig (sampleDecision EXIT) (sampleContext
      \<lparr>ctx_rollingRealizedPnlHalted := Some True, ctx_portfolioValueUsd := NaN,
       ctx_recentPnlUsd := Fin (- 900)\<rparr>) =
   evaluateRisk sampleRiskConfig (sampleDecision EXIT) sampleContext"
  by (rule management_free_of_entry_breakers) (simp add: sampleDecision_def)

theorem risk_first_gate_witness:
  "evaluateRisk sampleRiskConfig ((sampleDecision HOLD)\<lparr>dec_confidence := Fin 0\<rparr>) sampleContext =
     reject (ConfidenceBelow (Fin 0) (Fin (1 / 2)))"
proof -
  let ?q = "(sampleRiskConfig, (sampleDecision HOLD)\<lparr>dec_confidence := Fin 0\<rparr>, sampleContext)"
  have "(riskGates ! 1) ?q = Some (reject (ConfidenceBelow (Fin 0) (Fin (1 / 2))))"
    by (simp add: riskGates_def checkConfidenceGate_def risk_samples)
  moreover have "\<forall>j < 1. (riskGates ! j) ?q = None"
    by (simp add: riskGates_def risk_samples)
  moreover have "1 < length riskGates" by (simp add: riskGates_def)
  ultimately show ?thesis
    using risk_first_gate_decides[of sampleRiskConfig
        "(sampleDecision HOLD)\<lparr>dec_confidence := Fin 0\<rparr>" sampleContext] by blast
qed

definition sampleRebalance :: AgentDecision where
  "sampleRebalance = (sampleDecision REBALANCE)\<lparr>dec_rebalanceParams := Some sampleRange\<rparr>"

lemma sample_rebalance_approved:
  "approved (evaluateRisk (sampleRiskConfig\<lparr>rc_stopLossPct := Fin 1\<rparr>) sampleRebalance sampleContext)"
  by (simp add: risk_samples sampleRebalance_def evaluateRisk_def gate_defs stopLossTarget_def
      jsub_def num_simps binOutside_def Let_def)

theorem rebalance_approved_range_witness:
  "jlt (reb_newLowerBinId sampleRange) (reb_newUpperBinId sampleRange) \<and> jle (Fin (- 5)) (Fin 3)"
  using rebalance_approved_range[OF _ _ sample_rebalance_approved, of sampleRange]
  by (simp add: risk_samples sampleRebalance_def)

theorem stop_loss_monotone_witness:
  "\<exists>r'. checkStopLossGate sampleRiskConfig (sampleDecision HOLD)
      (sampleContext\<lparr>ctx_openPositions := [samplePosition\<lparr>pos_currentValueUsd := Fin 10\<rparr>]\<rparr>) = Some r' \<and>
    \<not> approved r'"
proof (rule stop_loss_monotone[where pos = samplePosition and ctx = sampleContext
      and pos' = "samplePosition\<lparr>pos_currentValueUsd := Fin 10\<rparr>"])
  show "stopLossTarget (sampleDecision HOLD) sampleContext = Some samplePosition"
    by (simp add: stopLossTarget_def risk_samples)
  show "checkStopLossGate sampleRiskConfig (sampleDecision HOLD) sampleContext =
      Some (reject (StopLossTriggered (Fin (- 1 / 2)) (Fin (1 / 4))))"
    by (simp add: checkStopLossGate_def stopLossTarget_def risk_samples jsub_def num_simps Let_def)
qed (simp_all add: stopLossTarget_def risk_samples)

lemma sample_gas: "gas_approved (evaluateGasGate sampleGas)"
  by (simp add: sampleGas_def evaluateGasGate_def num_simps Let_def)

theorem gas_gate_witness: "jlt (Fin 0) (gas_gasCostUsd (evaluateGasGate sampleGas))"
  using gas_gate_recovers_cost[of sampleGas] sample_gas by (simp add: sampleGas_def)

theorem gas_gate_monotone_witness:
  "gas_approved (evaluateGasGate (sampleGas\<lparr>gas_positionDailyFeesUsd := Fin 40\<rparr>))"
  using gas_gate_monotone_fees[OF _ sample_gas, of "Fin 40"] by (simp add: sampleGas_def num_simps)

lemma sample_allocation: "evaluatePerPoolAllocation sampleAllocation =
  \<lparr>alloc_approved = True, alloc_reason = AllocCapped (Fin (1 / 2)) (Fin 400),
   alloc_adjustedDepositUsd = Fin 400\<rparr>"
  by (simp add: sampleAllocation_def samplePosition_def evaluatePerPoolAllocation_def
      poolPositionsOf_def exposureUsd_def jsum_def jnat_def jsub_def num_simps Let_def)

theorem allocation_bounds_witness:
  "jle (alloc_adjustedDepositUsd (evaluatePerPoolAllocation sampleAllocation))
     (alloc_proposedDepositUsd sampleAllocation)"
proof -
  have "alloc_approved (evaluatePerPoolAllocation sampleAllocation)" by (simp add: sample_allocation)
  from allocation_approved_bounds[OF this] show ?thesis by (simp only: Let_def)
qed

theorem allocation_idempotent_witness:
  "alloc_reason (evaluatePerPoolAllocation
      (sampleAllocation\<lparr>alloc_proposedDepositUsd := Fin 400\<rparr>)) = AllocWithinCap"
  using allocation_idempotent[of sampleAllocation] by (simp add: sample_allocation)

theorem compound_gate_witness: "jlt (Fin 1) (cmp_netFeesUsd sampleCompound)"
proof -
  have "cmp_approved (evaluateCompoundGate sampleCompound)"
    by (simp add: sampleCompound_def evaluateCompoundGate_def jsub_def num_simps Let_def)
  from compound_gate_profitable[OF this] show ?thesis by (simp add: sampleCompound_def num_simps)
qed

end
