(* ===== verification/ProposalGates.thy ===== *)
theory ProposalGates
  imports RiskGates
begin

text \<open>
  Validation of the decisions an external advisor proposes: \<open>evaluateAgentProposal\<close> with its
  structural, confidence, sizing, range and targeting gates, and the capital gates an
  agent-originated rebalance must still pass (\<^verbatim>\<open>engine/risk-service.ts\<close>).  The order of
  aggressiveness of the actions is their \<open>linorder\<close>.
\<close>

section \<open>Aggressiveness of actions\<close>

definition VALID_ACTIONS :: "ActionType list" where
  "VALID_ACTIONS = [HOLD, REBALANCE, EXIT, ENTER]"

fun ACTION_AGGRESSION :: "ActionType \<Rightarrow> nat" where
  "ACTION_AGGRESSION HOLD = 0"
| "ACTION_AGGRESSION EXIT = 1"
| "ACTION_AGGRESSION REBALANCE = 2"
| "ACTION_AGGRESSION ENTER = 3"

lemma ACTION_AGGRESSION_inj: "ACTION_AGGRESSION a = ACTION_AGGRESSION b \<Longrightarrow> a = b"
  by (cases a; cases b) auto

instantiation ActionType :: linorder
begin

definition less_eq_ActionType :: "ActionType \<Rightarrow> ActionType \<Rightarrow> bool" where
  "less_eq_ActionType a b \<longleftrightarrow> ACTION_AGGRESSION a \<le> ACTION_AGGRESSION b"

definition less_ActionType :: "ActionType \<Rightarrow> ActionType \<Rightarrow> bool" where
  "less_ActionType a b \<longleftrightarrow> ACTION_AGGRESSION a < ACTION_AGGRESSION b"

instance
  by standard (auto simp: less_eq_ActionType_def less_ActionType_def dest: ACTION_AGGRESSION_inj)

end

lemmas ActionType_order = less_eq_ActionType_def less_ActionType_def

definition isDefensiveProposalAction :: "ActionType \<Rightarrow> ActionType \<Rightarrow> bool" where
  "isDefensiveProposalAction originalAction proposedAction \<longleftrightarrow>
     ACTION_AGGRESSION proposedAction < ACTION_AGGRESSION originalAction"

lemma isDefensive_less: "isDefensiveProposalAction a b \<longleftrightarrow> b < a"
  by (simp add: isDefensiveProposalAction_def less_ActionType_def)

section \<open>Configuration and results\<close>

record ProposalConfig =
  pc_agentProposalMinConfidence :: jsnum
  pc_agentProposalMaxPositionSizePct :: jsnum
  pc_maxPerPoolAllocationPct :: jsnum
  pc_maxOpenPositions :: jsnum
  pc_maxPositionsPerPool :: jsnum
  pc_maxRebalanceRangeBins :: jsnum

datatype ProposalReason =
    InvalidAction ActionType
  | PoolMismatch string string
  | CannotDowngradeExit
  | CannotPromoteToEnter ActionType
  | ConfidenceOutOfRange jsnum jsnum
  | EnterNeedsSize
  | EnterSizeNotPositive
  | RebalanceNeedsParams
  | RebalanceNoPosition string
  | ExitNoPosition string
  | SizeNotNonNegative
  | AllocationRefused AllocationReason
  | BinIdsNotIntegers
  | ProposalRangeInvalid
  | ProposalRangeTooWide jsnum jsnum
  | ProposalRangeMisses jsnum jsnum jsnum
  | ForeignPosition string string
  | ProposalValidated

record ProposalValidationResult =
  pv_valid :: bool
  pv_reason :: ProposalReason
  pv_adjustedDecision :: "AgentDecision option"

section \<open>The gates\<close>

definition checkProposalStructuralGates ::
  "AgentProposal \<Rightarrow> RiskContext \<Rightarrow> ProposalReason option" where
  "checkProposalStructuralGates proposal ctx =
     (if dec_action proposal \<notin> set VALID_ACTIONS then Some (InvalidAction (dec_action proposal))
      else if dec_poolAddress proposal \<noteq> ctx_poolAddress ctx
        then Some (PoolMismatch (dec_poolAddress proposal) (ctx_poolAddress ctx))
      else if prop_originalAction proposal = Some EXIT \<and> dec_action proposal \<noteq> EXIT
        then Some CannotDowngradeExit
      else case prop_originalAction proposal of
        Some oa \<Rightarrow> if oa \<noteq> ENTER \<and> dec_action proposal = ENTER
                  then Some (CannotPromoteToEnter oa) else None
      | None \<Rightarrow> None)"

text \<open>Slippage is left out of the comparison, as in the source.\<close>

definition rebalanceParamsEqual :: "RebalanceParams \<Rightarrow> RebalanceParams \<Rightarrow> bool" where
  "rebalanceParamsEqual a b \<longleftrightarrow>
     jeq (reb_newLowerBinId a) (reb_newLowerBinId b) \<and> jeq (reb_newUpperBinId a) (reb_newUpperBinId b)"

definition preservesOriginalDecision :: "AgentProposal \<Rightarrow> AgentDecision option \<Rightarrow> bool" where
  "preservesOriginalDecision proposal original =
     (case original of None \<Rightarrow> False
      | Some orig \<Rightarrow>
          dec_action proposal = dec_action orig \<and>
          jlt (jabs (jsub (dec_confidence proposal) (dec_confidence orig))) (fl (1 / 200)) \<and>
          (case dec_positionSizeUsd proposal of None \<Rightarrow> True
           | Some s \<Rightarrow> (case dec_positionSizeUsd orig of None \<Rightarrow> False | Some t \<Rightarrow> jeq s t)) \<and>
          (case dec_rebalanceParams proposal of None \<Rightarrow> True
           | Some r \<Rightarrow> (case dec_rebalanceParams orig of None \<Rightarrow> False
                     | Some q \<Rightarrow> rebalanceParamsEqual r q)))"

definition isDefensiveDowngrade :: "AgentProposal \<Rightarrow> AgentDecision option \<Rightarrow> bool" where
  "isDefensiveDowngrade proposal original =
     (case original of None \<Rightarrow> False
      | Some orig \<Rightarrow>
          isDefensiveProposalAction (dec_action orig) (dec_action proposal) \<and>
          (prop_originalAction proposal = None \<or>
           prop_originalAction proposal = Some (dec_action orig)))"

definition checkProposalConfidenceGate ::
  "AgentProposal \<Rightarrow> RiskContext \<Rightarrow> ProposalConfig \<Rightarrow> ProposalReason option" where
  "checkProposalConfidenceGate proposal ctx cfg =
     (let original = ctx_originalDecision ctx;
          needsFloor = \<not> preservesOriginalDecision proposal original
                       \<and> \<not> isDefensiveDowngrade proposal original
      in if needsFloor \<and> (\<not> is_finite (dec_confidence proposal)
              \<or> jlt (dec_confidence proposal) (pc_agentProposalMinConfidence cfg)
              \<or> jgt (dec_confidence proposal) (Fin 1))
         then Some (ConfidenceOutOfRange (dec_confidence proposal)
                (pc_agentProposalMinConfidence cfg))
         else None)"

definition hasOpenPoolPosition :: "Position list \<Rightarrow> string \<Rightarrow> bool" where
  "hasOpenPoolPosition ps pool \<longleftrightarrow> list_ex (\<lambda>p. pos_poolAddress p = pool) ps"

definition checkEnterProposalSizeGate :: "AgentProposal \<Rightarrow> ProposalReason option" where
  "checkEnterProposalSizeGate proposal =
     (if dec_action proposal \<noteq> ENTER then None
      else case dec_positionSizeUsd proposal of
        None \<Rightarrow> Some EnterNeedsSize
      | Some s \<Rightarrow> if \<not> is_finite s \<or> jle s (Fin 0) then Some EnterSizeNotPositive else None)"

definition checkRebalanceProposalPositionGate ::
  "AgentProposal \<Rightarrow> RiskContext \<Rightarrow> ProposalReason option" where
  "checkRebalanceProposalPositionGate proposal ctx =
     (if dec_action proposal \<noteq> REBALANCE then None
      else if dec_rebalanceParams proposal = None then Some RebalanceNeedsParams
      else if \<not> hasOpenPoolPosition (ctx_openPositions ctx) (dec_poolAddress proposal)
        then Some (RebalanceNoPosition (dec_poolAddress proposal))
      else None)"

definition checkExitProposalPositionGate ::
  "AgentProposal \<Rightarrow> RiskContext \<Rightarrow> ProposalReason option" where
  "checkExitProposalPositionGate proposal ctx =
     (if dec_action proposal \<noteq> EXIT then None
      else if hasOpenPoolPosition (ctx_openPositions ctx) (dec_poolAddress proposal) then None
      else if prop_originalAction proposal = Some EXIT then None
      else Some (ExitNoPosition (dec_poolAddress proposal)))"

definition proposalAllocationInput ::
  "AgentProposal \<Rightarrow> RiskContext \<Rightarrow> ProposalConfig \<Rightarrow> jsnum \<Rightarrow> PerPoolAllocationInput" where
  "proposalAllocationInput proposal ctx cfg cappedSizeUsd =
     \<lparr>alloc_proposedDepositUsd = cappedSizeUsd,
      alloc_portfolioValueUsd = ctx_portfolioValueUsd ctx,
      alloc_openPositions = ctx_openPositions ctx,
      alloc_maxPerPoolAllocationPct = pc_maxPerPoolAllocationPct cfg,
      alloc_maxOpenPositions = nullish (ctx_maxOpenPositions ctx) (pc_maxOpenPositions cfg),
      alloc_poolAddress = dec_poolAddress proposal,
      alloc_maxPositionsPerPool = pc_maxPositionsPerPool cfg\<rparr>"

definition cappedProposalSize :: "jsnum \<Rightarrow> RiskContext \<Rightarrow> ProposalConfig \<Rightarrow> jsnum" where
  "cappedProposalSize s ctx cfg =
     jmin (jmin s (jmul (ctx_portfolioValueUsd ctx) (pc_agentProposalMaxPositionSizePct cfg)))
       (jmul (ctx_portfolioValueUsd ctx) (pc_maxPerPoolAllocationPct cfg))"

text \<open>The sizing verdict: a refusal, or the size, which stays undefined for unsized actions.\<close>

definition resolveProposalPositionSize ::
  "AgentProposal \<Rightarrow> RiskContext \<Rightarrow> ProposalConfig \<Rightarrow> ProposalReason + jsnum option" where
  "resolveProposalPositionSize proposal ctx cfg =
     (case checkEnterProposalSizeGate proposal of Some r \<Rightarrow> Inl r | None \<Rightarrow>
      (case checkRebalanceProposalPositionGate proposal ctx of Some r \<Rightarrow> Inl r | None \<Rightarrow>
      (case checkExitProposalPositionGate proposal ctx of Some r \<Rightarrow> Inl r | None \<Rightarrow>
      (case dec_positionSizeUsd proposal of None \<Rightarrow> Inr None
       | Some s \<Rightarrow>
          if \<not> is_finite s \<or> jlt s (Fin 0) then Inl SizeNotNonNegative
          else
            let capped = cappedProposalSize s ctx cfg
            in if dec_action proposal = ENTER
               then (let res = evaluatePerPoolAllocation (proposalAllocationInput proposal ctx cfg capped)
                     in if \<not> alloc_approved res then Inl (AllocationRefused (alloc_reason res))
                        else Inr (Some (alloc_adjustedDepositUsd res)))
               else Inr (Some capped)))))"

definition checkProposalRebalanceRangeGate ::
  "AgentProposal \<Rightarrow> RiskContext \<Rightarrow> ProposalConfig \<Rightarrow> ProposalReason option" where
  "checkProposalRebalanceRangeGate proposal ctx cfg =
     (case dec_rebalanceParams proposal of None \<Rightarrow> None
      | Some rp \<Rightarrow>
          let lower = reb_newLowerBinId rp; upper = reb_newUpperBinId rp;
              rangeWidth = jsub upper lower
          in if \<not> is_integer lower \<or> \<not> is_integer upper then Some BinIdsNotIntegers
             else if jle upper lower then Some ProposalRangeInvalid
             else if jgt rangeWidth (pc_maxRebalanceRangeBins cfg)
               then Some (ProposalRangeTooWide rangeWidth (pc_maxRebalanceRangeBins cfg))
             else if binOutside (ctx_activeBinId ctx) lower upper
               then Some (ProposalRangeMisses lower upper (nullish (ctx_activeBinId ctx) NaN))
             else None)"

definition resolveProposalPositionTarget ::
  "AgentProposal \<Rightarrow> RiskContext \<Rightarrow> ProposalReason + string option" where
  "resolveProposalPositionTarget proposal ctx =
     (let named = (case dec_positionId proposal of Some i \<Rightarrow> Some i
                   | None \<Rightarrow> Option.bind (ctx_originalDecision ctx) dec_positionId)
      in case named of
        Some i \<Rightarrow>
          (case find_first (\<lambda>p. pos_id p = i) (ctx_openPositions ctx) of
             None \<Rightarrow> Inl (ForeignPosition i (dec_poolAddress proposal))
           | Some target \<Rightarrow>
               if pos_poolAddress target \<noteq> dec_poolAddress proposal
               then Inl (ForeignPosition i (dec_poolAddress proposal)) else Inr (Some i))
      | None \<Rightarrow>
          if dec_action proposal = EXIT \<or> dec_action proposal = REBALANCE
          then (case poolPositionsOf (dec_poolAddress proposal) (ctx_openPositions ctx) of
                  [p] \<Rightarrow> Inr (Some (pos_id p))
                | _ \<Rightarrow> Inr None)
          else Inr None)"

definition buildAgentValidatedDecision ::
  "AgentProposal \<Rightarrow> RiskContext \<Rightarrow> jsnum option \<Rightarrow> string option \<Rightarrow> AgentDecision" where
  "buildAgentValidatedDecision proposal ctx sz positionId =
     \<lparr>dec_action = dec_action proposal,
      dec_poolAddress = dec_poolAddress proposal,
      dec_confidence =
        (case ctx_originalDecision ctx of
           None \<Rightarrow> dec_confidence proposal
         | Some orig \<Rightarrow> if preservesOriginalDecision proposal (ctx_originalDecision ctx)
                      then dec_confidence orig else dec_confidence proposal),
      dec_reasoning = dec_reasoning proposal,
      dec_rebalanceParams = dec_rebalanceParams proposal,
      dec_positionSizeUsd = sz,
      dec_positionId = positionId,
      dec_positionMode = None,
      dec_tpLadderJson = None,
      dec_invalidationStopPrice = None\<rparr>"

definition invalid :: "ProposalReason \<Rightarrow> ProposalValidationResult" where
  "invalid r = \<lparr>pv_valid = False, pv_reason = r, pv_adjustedDecision = None\<rparr>"

definition evaluateAgentProposal ::
  "AgentProposal \<Rightarrow> RiskContext \<Rightarrow> ProposalConfig \<Rightarrow> ProposalValidationResult" where
  "evaluateAgentProposal proposal ctx cfg =
     (case checkProposalStructuralGates proposal ctx of Some r \<Rightarrow> invalid r | None \<Rightarrow>
      (case checkProposalConfidenceGate proposal ctx cfg of Some r \<Rightarrow> invalid r | None \<Rightarrow>
      (case resolveProposalPositionSize proposal ctx cfg of Inl r \<Rightarrow> invalid r | Inr sz \<Rightarrow>
      (case checkProposalRebalanceRangeGate proposal ctx cfg of Some r \<Rightarrow> invalid r | None \<Rightarrow>
      (case resolveProposalPositionTarget proposal ctx of Inl r \<Rightarrow> invalid r | Inr target \<Rightarrow>
       \<lparr>pv_valid = True, pv_reason = ProposalValidated,
        pv_adjustedDecision = Some (buildAgentValidatedDecision proposal ctx sz target)\<rparr>)))))"

section \<open>Capital gates of an agent-originated rebalance\<close>

datatype AgentRebalanceReason =
    BlockedByMinInterval jsnum jsnum
  | BlockedByGas GasReason
  | BlockedByRecovery jsnum jsnum
  | CapitalGatesPassed

record AgentRebalanceCapitalGateInput =
  arc_now :: jsnum
  arc_lastRebalanceAt :: jsnum
  arc_minRebalanceIntervalMs :: jsnum
  arc_oorGraceExpired :: bool
  arc_rebalanceGasCostSol :: jsnum
  arc_solPriceUsd :: jsnum
  arc_positionDailyFeesUsd :: jsnum
  arc_minDaysOfFeesPaidAhead :: jsnum
  arc_recoveryProbability :: jsnum
  arc_oorRecoveryHoldThreshold :: jsnum

definition shouldHoldForRecovery :: "jsnum \<Rightarrow> jsnum \<Rightarrow> bool" where
  "shouldHoldForRecovery recoveryProbability holdThreshold \<longleftrightarrow> jge recoveryProbability holdThreshold"

definition capitalGasInput :: "AgentRebalanceCapitalGateInput \<Rightarrow> GasGateInput" where
  "capitalGasInput inp =
     \<lparr>gas_rebalanceGasCostSol = arc_rebalanceGasCostSol inp,
      gas_solPriceUsd = arc_solPriceUsd inp,
      gas_positionDailyFeesUsd = arc_positionDailyFeesUsd inp,
      gas_minDaysOfFeesPaidAhead = arc_minDaysOfFeesPaidAhead inp\<rparr>"

definition evaluateAgentRebalanceCapitalGates ::
  "AgentRebalanceCapitalGateInput \<Rightarrow> bool \<times> AgentRebalanceReason" where
  "evaluateAgentRebalanceCapitalGates inp =
     (let timeSinceRebal = jsub (arc_now inp) (arc_lastRebalanceAt inp);
          gasGate = evaluateGasGate (capitalGasInput inp)
      in if jlt timeSinceRebal (arc_minRebalanceIntervalMs inp) \<and> \<not> arc_oorGraceExpired inp
           then (False, BlockedByMinInterval timeSinceRebal (arc_minRebalanceIntervalMs inp))
         else if \<not> gas_approved gasGate then (False, BlockedByGas (gas_reason gasGate))
         else if shouldHoldForRecovery (arc_recoveryProbability inp)
                   (arc_oorRecoveryHoldThreshold inp)
           then (False, BlockedByRecovery (arc_recoveryProbability inp)
                  (arc_oorRecoveryHoldThreshold inp))
         else (True, CapitalGatesPassed))"

section \<open>What a validated proposal has passed\<close>

lemma valid_proposalD:
  assumes "pv_valid (evaluateAgentProposal proposal ctx cfg)"
  obtains sz target where
    "checkProposalStructuralGates proposal ctx = None"
    "checkProposalConfidenceGate proposal ctx cfg = None"
    "resolveProposalPositionSize proposal ctx cfg = Inr sz"
    "checkProposalRebalanceRangeGate proposal ctx cfg = None"
    "resolveProposalPositionTarget proposal ctx = Inr target"
    "pv_adjustedDecision (evaluateAgentProposal proposal ctx cfg) =
       Some (buildAgentValidatedDecision proposal ctx sz target)"
  using assms
  by (auto simp: evaluateAgentProposal_def invalid_def split: option.splits sum.splits)

lemma structural_None:
  "checkProposalStructuralGates proposal ctx = None \<longleftrightarrow>
     dec_poolAddress proposal = ctx_poolAddress ctx \<and>
     (prop_originalAction proposal = Some EXIT \<longrightarrow> dec_action proposal = EXIT) \<and>
     (\<forall>oa. prop_originalAction proposal = Some oa \<longrightarrow> oa \<noteq> ENTER \<longrightarrow> dec_action proposal \<noteq> ENTER)"
  by (cases "dec_action proposal")
    (auto simp: checkProposalStructuralGates_def VALID_ACTIONS_def split: option.splits)

lemma resolve_size_ENTER:
  assumes "dec_action proposal = ENTER" "resolveProposalPositionSize proposal ctx cfg = Inr sz"
  obtains s where "dec_positionSizeUsd proposal = Some s" "is_finite s" "jlt (Fin 0) s"
    "alloc_approved (evaluatePerPoolAllocation
       (proposalAllocationInput proposal ctx cfg (cappedProposalSize s ctx cfg)))"
    "sz = Some (alloc_adjustedDepositUsd (evaluatePerPoolAllocation
       (proposalAllocationInput proposal ctx cfg (cappedProposalSize s ctx cfg))))"
  using assms
  by (auto simp: resolveProposalPositionSize_def checkEnterProposalSizeGate_def Let_def
      not_jle_iff is_finite_iff split: option.splits if_splits)

lemma resolve_target_open:
  assumes "resolveProposalPositionTarget proposal ctx = Inr (Some i)"
  shows "\<exists>p \<in> set (ctx_openPositions ctx). pos_id p = i \<and> pos_poolAddress p = dec_poolAddress proposal"
proof -
  have single: "poolPositionsOf a ps = [p] \<Longrightarrow> p \<in> set ps \<and> pos_poolAddress p = a" for a ps p
    using filter_set[of "\<lambda>p. pos_poolAddress p = a" ps] by (auto simp: poolPositionsOf_def)
  show ?thesis using assms
    by (auto simp: resolveProposalPositionTarget_def Let_def
        split: option.splits if_splits list.splits dest!: find_first_SomeD single)
qed


lemma allocation_size_not_NaN:
  "alloc_approved (evaluatePerPoolAllocation inp) \<Longrightarrow> is_finite (alloc_proposedDepositUsd inp)"
  by (auto simp: evaluatePerPoolAllocation_def Let_def split: if_splits)

lemma capped_size_le:
  assumes "cappedProposalSize s ctx cfg \<noteq> NaN"
  shows "jle (cappedProposalSize s ctx cfg) s"
    "jle (cappedProposalSize s ctx cfg)
       (jmul (ctx_portfolioValueUsd ctx) (pc_agentProposalMaxPositionSizePct cfg))"
    "jle (cappedProposalSize s ctx cfg)
       (jmul (ctx_portfolioValueUsd ctx) (pc_maxPerPoolAllocationPct cfg))"
proof -
  have "jle (cappedProposalSize s ctx cfg) (cappedProposalSize s ctx cfg)" using assms by simp
  then have "jle (cappedProposalSize s ctx cfg)
      (jmin (jmin s (jmul (ctx_portfolioValueUsd ctx) (pc_agentProposalMaxPositionSizePct cfg)))
         (jmul (ctx_portfolioValueUsd ctx) (pc_maxPerPoolAllocationPct cfg)))"
    by (simp only: cappedProposalSize_def[of s ctx cfg, symmetric])
  then show "jle (cappedProposalSize s ctx cfg) s"
    "jle (cappedProposalSize s ctx cfg)
       (jmul (ctx_portfolioValueUsd ctx) (pc_agentProposalMaxPositionSizePct cfg))"
    "jle (cappedProposalSize s ctx cfg)
       (jmul (ctx_portfolioValueUsd ctx) (pc_maxPerPoolAllocationPct cfg))"
    unfolding jle_jmin_iff by blast+
qed

text \<open>The size of a validated ENTER, with the allocation verdict it comes from.\<close>

lemma validated_enter_size:
  assumes "dec_action proposal = ENTER"
    and "pv_adjustedDecision (evaluateAgentProposal proposal ctx cfg) = Some d"
  obtains s where "dec_positionSizeUsd proposal = Some s"
    "dec_action d = ENTER" "dec_poolAddress d = dec_poolAddress proposal"
    "alloc_approved (evaluatePerPoolAllocation
       (proposalAllocationInput proposal ctx cfg (cappedProposalSize s ctx cfg)))"
    "dec_positionSizeUsd d = Some (alloc_adjustedDepositUsd (evaluatePerPoolAllocation
       (proposalAllocationInput proposal ctx cfg (cappedProposalSize s ctx cfg))))"
    "is_finite (cappedProposalSize s ctx cfg)"
proof -
  have v: "pv_valid (evaluateAgentProposal proposal ctx cfg)"
    using assms(2) by (auto simp: evaluateAgentProposal_def invalid_def split: option.splits sum.splits)
  from valid_proposalD[OF v] obtain sz target where
    sz: "resolveProposalPositionSize proposal ctx cfg = Inr sz"
    and d: "d = buildAgentValidatedDecision proposal ctx sz target"
    using assms(2) by (metis option.inject)
  from resolve_size_ENTER[OF assms(1) sz] obtain s where s:
    "dec_positionSizeUsd proposal = Some s"
    "alloc_approved (evaluatePerPoolAllocation
       (proposalAllocationInput proposal ctx cfg (cappedProposalSize s ctx cfg)))"
    "sz = Some (alloc_adjustedDepositUsd (evaluatePerPoolAllocation
       (proposalAllocationInput proposal ctx cfg (cappedProposalSize s ctx cfg))))"
    by metis
  have "is_finite (cappedProposalSize s ctx cfg)"
    using allocation_size_not_NaN[OF s(2)] by (simp add: proposalAllocationInput_def)
  then show ?thesis
    using that s assms(1) by (simp add: d buildAgentValidatedDecision_def)
qed

section \<open>Properties of proposal validation\<close>

text \<open>
  What an external advisor can make the engine do is bounded in kind: a validated proposal
  yields a decision with the proposed action on the pool under review, an EXIT the engine had
  decided stays an EXIT, and no decision other than an ENTER is promoted to an ENTER.
\<close>
theorem validated_proposal_action:
  assumes "pv_valid (evaluateAgentProposal proposal ctx cfg)"
  shows "\<exists>d. pv_adjustedDecision (evaluateAgentProposal proposal ctx cfg) = Some d \<and>
    dec_action d = dec_action proposal \<and> dec_poolAddress d = ctx_poolAddress ctx \<and>
    (prop_originalAction proposal = Some EXIT \<longrightarrow> dec_action d = EXIT) \<and>
    (dec_action d = ENTER \<longrightarrow> prop_originalAction proposal \<in> {None, Some ENTER})"
proof -
  from valid_proposalD[OF assms] obtain sz target where
    "checkProposalStructuralGates proposal ctx = None"
    "pv_adjustedDecision (evaluateAgentProposal proposal ctx cfg) =
       Some (buildAgentValidatedDecision proposal ctx sz target)" by metis
  then show ?thesis
    by (cases "prop_originalAction proposal")
      (auto simp: structural_None buildAgentValidatedDecision_def)
qed

text \<open>
  C2. A validated ENTER carries a positive size no larger than the requested one, than the
  agent's own cap and than the per-pool cap of the portfolio.
\<close>
theorem validated_enter_bounded:
  assumes "dec_action proposal = ENTER"
    and "pv_adjustedDecision (evaluateAgentProposal proposal ctx cfg) = Some d"
  shows "\<exists>s a. dec_positionSizeUsd proposal = Some s \<and> dec_positionSizeUsd d = Some a \<and>
    jlt (Fin 0) a \<and> jle a s \<and>
    jle a (jmul (ctx_portfolioValueUsd ctx) (pc_agentProposalMaxPositionSizePct cfg)) \<and>
    jle a (jmul (ctx_portfolioValueUsd ctx) (pc_maxPerPoolAllocationPct cfg))"
proof -
  obtain s where s: "dec_positionSizeUsd proposal = Some s"
    "alloc_approved (evaluatePerPoolAllocation
       (proposalAllocationInput proposal ctx cfg (cappedProposalSize s ctx cfg)))"
    "dec_positionSizeUsd d = Some (alloc_adjustedDepositUsd (evaluatePerPoolAllocation
       (proposalAllocationInput proposal ctx cfg (cappedProposalSize s ctx cfg))))"
    "is_finite (cappedProposalSize s ctx cfg)"
    using validated_enter_size[OF assms] by metis
  note b = allocation_bounds_aux[OF s(2), unfolded Let_def]
  have "cappedProposalSize s ctx cfg \<noteq> NaN" using s(4) by auto
  note c = capped_size_le[OF this]
  from b have "jle (alloc_adjustedDepositUsd (evaluatePerPoolAllocation
       (proposalAllocationInput proposal ctx cfg (cappedProposalSize s ctx cfg))))
     (cappedProposalSize s ctx cfg)" by (simp add: proposalAllocationInput_def)
  with b c s show ?thesis by (auto intro: jle_trans)
qed

text \<open>
  The confidence floor has exactly two exemptions: a validated proposal has a finite
  confidence from the floor up to one, or restates the engine's own decision (then the decision
  built from it carries the engine's confidence), or is strictly less aggressive than it.
\<close>
theorem validated_confidence_floor:
  assumes "pv_adjustedDecision (evaluateAgentProposal proposal ctx cfg) = Some d"
  shows "(is_finite (dec_confidence d) \<and> \<not> jlt (dec_confidence d) (pc_agentProposalMinConfidence cfg) \<and>
      jle (dec_confidence d) (Fin 1)) \<or>
    (\<exists>orig. ctx_originalDecision ctx = Some orig \<and> dec_action d = dec_action orig \<and>
      dec_confidence d = dec_confidence orig \<and> preservesOriginalDecision proposal (Some orig)) \<or>
    (\<exists>orig. ctx_originalDecision ctx = Some orig \<and> dec_action d < dec_action orig)"
proof -
  have v: "pv_valid (evaluateAgentProposal proposal ctx cfg)"
    using assms by (auto simp: evaluateAgentProposal_def invalid_def split: option.splits sum.splits)
  from valid_proposalD[OF v] obtain sz target where
    c: "checkProposalConfidenceGate proposal ctx cfg = None"
    and d: "d = buildAgentValidatedDecision proposal ctx sz target"
    using assms by (metis option.inject)
  show ?thesis
  proof (cases "preservesOriginalDecision proposal (ctx_originalDecision ctx)")
    case True
    then show ?thesis
      by (auto simp: d buildAgentValidatedDecision_def preservesOriginalDecision_def
          split: option.splits)
  next
    case notpres: False
    then have dc: "dec_confidence d = dec_confidence proposal" "dec_action d = dec_action proposal"
      by (auto simp: d buildAgentValidatedDecision_def split: option.split)
    show ?thesis
    proof (cases "isDefensiveDowngrade proposal (ctx_originalDecision ctx)")
      case True
      then show ?thesis
        by (auto simp: dc isDefensiveDowngrade_def isDefensive_less split: option.splits)
    next
      case False
      with c notpres have f: "is_finite (dec_confidence proposal)"
        "\<not> jlt (dec_confidence proposal) (pc_agentProposalMinConfidence cfg)"
        "\<not> jgt (dec_confidence proposal) (Fin 1)"
        by (auto simp: checkProposalConfidenceGate_def Let_def split: if_splits)
      from f(1,3) have "jle (dec_confidence proposal) (Fin 1)"
        by (auto simp: not_jlt_iff is_finite_iff)
      with f show ?thesis unfolding dc by blast
    qed
  qed
qed

text \<open>
  C13. A validated decision never acts on a foreign position: the position it names is open and
  belongs to the pool under review, and a validated EXIT whose origin is not an EXIT finds at
  least one open position on the pool.
\<close>
theorem validated_target_open:
  assumes "pv_adjustedDecision (evaluateAgentProposal proposal ctx cfg) = Some d"
  shows "(\<forall>i. dec_positionId d = Some i \<longrightarrow> (\<exists>p \<in> set (ctx_openPositions ctx).
      pos_id p = i \<and> pos_poolAddress p = ctx_poolAddress ctx)) \<and>
    (dec_action d = EXIT \<and> prop_originalAction proposal \<noteq> Some EXIT \<longrightarrow>
      (\<exists>p \<in> set (ctx_openPositions ctx). pos_poolAddress p = ctx_poolAddress ctx))"
proof -
  have v: "pv_valid (evaluateAgentProposal proposal ctx cfg)"
    using assms by (auto simp: evaluateAgentProposal_def invalid_def split: option.splits sum.splits)
  from valid_proposalD[OF v] obtain sz target where g:
    "checkProposalStructuralGates proposal ctx = None"
    "resolveProposalPositionSize proposal ctx cfg = Inr sz"
    "resolveProposalPositionTarget proposal ctx = Inr target"
    and d: "d = buildAgentValidatedDecision proposal ctx sz target"
    using assms by (metis option.inject)
  have pool: "dec_poolAddress proposal = ctx_poolAddress ctx" using g(1) by (simp add: structural_None)
  have "dec_positionId d = Some i \<Longrightarrow> \<exists>p \<in> set (ctx_openPositions ctx).
      pos_id p = i \<and> pos_poolAddress p = ctx_poolAddress ctx" for i
    using resolve_target_open[of proposal ctx i] g(3) pool
    by (simp add: d buildAgentValidatedDecision_def)
  moreover have "dec_action proposal = EXIT \<Longrightarrow> prop_originalAction proposal \<noteq> Some EXIT \<Longrightarrow>
      hasOpenPoolPosition (ctx_openPositions ctx) (dec_poolAddress proposal)"
    using g(2) by (auto simp: resolveProposalPositionSize_def checkExitProposalPositionGate_def
        split: option.splits if_splits)
  ultimately show ?thesis
    by (auto simp: d buildAgentValidatedDecision_def hasOpenPoolPosition_def list_ex_iff pool)
qed

text \<open>
  C33. Proposal validation and the risk gates agree on sizing: under the same limits, and with
  no open position of negative value, the risk gates neither cap nor refuse the size of a
  validated ENTER, except that a size below the dust floor is refused; nor do they find the pool
  over its position count.
\<close>
theorem validated_enter_passes_risk_sizing:
  assumes "dec_action proposal = ENTER"
    and "pv_adjustedDecision (evaluateAgentProposal proposal ctx pcfg) = Some d"
    and "rc_maxPerPoolAllocationPct cfg = pc_maxPerPoolAllocationPct pcfg"
    and "rc_maxPositionsPerPool cfg = pc_maxPositionsPerPool pcfg"
    and "\<forall>p \<in> set (ctx_openPositions ctx). jle (Fin 0) (pos_currentValueUsd p)"
  shows "checkPerPoolPositionCapGate cfg d ctx = None \<and>
    (checkPositionSizeGate cfg d ctx = None \<or>
     (\<exists>a. dec_positionSizeUsd d = Some a \<and>
        checkPositionSizeGate cfg d ctx = Some (reject (EntryBelowFloor a ENTRY_SIZE_FLOOR_USD))))"
proof -
  obtain s where s: "dec_action d = ENTER" "dec_poolAddress d = dec_poolAddress proposal"
    "alloc_approved (evaluatePerPoolAllocation
       (proposalAllocationInput proposal ctx pcfg (cappedProposalSize s ctx pcfg)))"
    "dec_positionSizeUsd d = Some (alloc_adjustedDepositUsd (evaluatePerPoolAllocation
       (proposalAllocationInput proposal ctx pcfg (cappedProposalSize s ctx pcfg))))"
    "is_finite (cappedProposalSize s ctx pcfg)"
    using validated_enter_size[OF assms(1,2)] by metis
  define ex where "ex = exposureUsd (poolPositionsOf (dec_poolAddress d) (ctx_openPositions ctx))"
  define x where "x = jmul (ctx_portfolioValueUsd ctx) (rc_maxPerPoolAllocationPct cfg)"
  define a where "a = alloc_adjustedDepositUsd (evaluatePerPoolAllocation
       (proposalAllocationInput proposal ctx pcfg (cappedProposalSize s ctx pcfg)))"
  note b = allocation_bounds_aux[OF s(3), unfolded Let_def, folded a_def]
  have ex0: "jle (Fin 0) ex"
    unfolding ex_def using assms(5) by (auto intro!: exposure_nonneg simp: poolPositionsOf_def)
  have fin: "is_finite (ctx_portfolioValueUsd ctx)" "is_finite ex"
    using s(3) by (auto simp: evaluatePerPoolAllocation_def Let_def proposalAllocationInput_def
        ex_def s(2) split: if_splits)
  have ale: "jle a (jmax (jsub (jmax x (Fin 0)) ex) (Fin 0))" "jlt (Fin 0) a"
    and acap: "jle a (cappedProposalSize s ctx pcfg)"
    using b by (simp_all add: proposalAllocationInput_def x_def ex_def assms(3) s(2))
  have fina: "is_finite a" using acap ale(2) s(5) by (cases a) (auto simp: is_finite_iff)
  have head: "jle a (jmax (jsub x ex) (Fin 0))"
  proof (cases "jle (Fin 0) x")
    case True
    then have "jmax x (Fin 0) = x" by (auto simp: jmax_def dest: jle_not_NaN jle_antisym)
    then show ?thesis using ale by simp
  next
    case False
    then have "jmax x (Fin 0) = Fin 0 \<or> x = NaN" by (cases x) (auto simp: jmax_def)
    moreover have "jmax (jsub (Fin 0) ex) (Fin 0) = Fin 0"
      using ex0 fin(2) fl_nonpos by (auto simp: is_finite_iff jsub_def jmax_def dest: jle_antisym)
    moreover have "jsub NaN ex = NaN" by (simp add: jsub_def)
    ultimately have "jle a (Fin 0)" using ale(1) by auto
    then show ?thesis using ale(2) jlt_asym by blast
  qed
  have "checkPositionSizeGate cfg d ctx = None \<or>
     checkPositionSizeGate cfg d ctx = Some (reject (EntryBelowFloor a ENTRY_SIZE_FLOOR_USD))"
    using s(1) s(4)[folded a_def] head fina fin
    by (simp add: checkPositionSizeGate_def Let_def x_def[symmetric] ex_def[symmetric])
  moreover have "checkPerPoolPositionCapGate cfg d ctx = None"
    using b by (simp add: checkPerPoolPositionCapGate_def proposalAllocationInput_def s(2) assms(4))
  ultimately show ?thesis using s(4)[folded a_def] by blast
qed

text \<open>
  The veto always works: a bare HOLD against an ENTER the engine had decided for the pool
  is validated whatever its confidence is, NaN included, and yields a HOLD.
\<close>
theorem veto_always_valid:
  assumes "dec_action proposal = HOLD" "dec_poolAddress proposal = ctx_poolAddress ctx"
    and "ctx_originalDecision ctx = Some orig" "dec_action orig = ENTER" "dec_positionId orig = None"
    and "prop_originalAction proposal \<in> {None, Some ENTER}"
    and "dec_positionSizeUsd proposal = None" "dec_rebalanceParams proposal = None"
    and "dec_positionId proposal = None"
  shows "\<exists>d. pv_adjustedDecision (evaluateAgentProposal proposal ctx cfg) = Some d \<and>
    dec_action d = HOLD \<and> dec_positionSizeUsd d = None"
proof -
  have "isDefensiveDowngrade proposal (ctx_originalDecision ctx)"
    using assms by (auto simp: isDefensiveDowngrade_def isDefensiveProposalAction_def)
  then have "checkProposalConfidenceGate proposal ctx cfg = None"
    by (simp add: checkProposalConfidenceGate_def Let_def)
  moreover have "checkProposalStructuralGates proposal ctx = None"
    using assms by (auto simp: structural_None)
  moreover have "resolveProposalPositionSize proposal ctx cfg = Inr None"
    using assms by (simp add: resolveProposalPositionSize_def checkEnterProposalSizeGate_def
        checkRebalanceProposalPositionGate_def checkExitProposalPositionGate_def)
  moreover have "resolveProposalPositionTarget proposal ctx = Inr None"
    using assms by (simp add: resolveProposalPositionTarget_def)
  ultimately show ?thesis
    using assms by (simp add: evaluateAgentProposal_def checkProposalRebalanceRangeGate_def
        buildAgentValidatedDecision_def)
qed

section \<open>Proposal witnesses\<close>

definition sampleProposalConfig :: ProposalConfig where
  "sampleProposalConfig = \<lparr>pc_agentProposalMinConfidence = Fin (5 / 8),
     pc_agentProposalMaxPositionSizePct = Fin (1 / 4), pc_maxPerPoolAllocationPct = Fin (1 / 2),
     pc_maxOpenPositions = Fin 5, pc_maxPositionsPerPool = Fin 2, pc_maxRebalanceRangeBins = Fin 70\<rparr>"

definition sampleProposal :: "ActionType \<Rightarrow> jsnum \<Rightarrow> jsnum option \<Rightarrow> AgentProposal" where
  "sampleProposal act conf sz = \<lparr>dec_action = act, dec_poolAddress = ''pool'',
     dec_confidence = conf, dec_reasoning = [], dec_rebalanceParams = None,
     dec_positionSizeUsd = sz, dec_positionId = None, dec_positionMode = None,
     dec_tpLadderJson = None, dec_invalidationStopPrice = None,
     prop_proposalId = ''a'', prop_proposedAt = Fin 0, prop_expiresAt = Fin 60,
     prop_source = HttpQueue, prop_originalAction = None, prop_originalConfidence = None,
     prop_status = ProposalPending\<rparr>"

definition sampleDecided :: "AgentDecision option" where
  "sampleDecided = Some (sampleDecision ENTER)"

lemmas proposal_eval = sampleProposalConfig_def sampleProposal_def sampleDecided_def
  evaluateAgentProposal_def checkProposalStructuralGates_def VALID_ACTIONS_def
  checkProposalConfidenceGate_def preservesOriginalDecision_def isDefensiveDowngrade_def
  isDefensiveProposalAction_def resolveProposalPositionSize_def checkEnterProposalSizeGate_def
  checkRebalanceProposalPositionGate_def checkExitProposalPositionGate_def
  cappedProposalSize_def proposalAllocationInput_def evaluatePerPoolAllocation_def
  checkProposalRebalanceRangeGate_def resolveProposalPositionTarget_def
  buildAgentValidatedDecision_def poolPositionsOf_def exposureUsd_def jsum_def jnat_def jsub_def
  hasOpenPoolPosition_def

definition sampleEnterDecided :: AgentDecision where
  "sampleEnterDecided = (sampleDecision ENTER)\<lparr>dec_positionSizeUsd := Some (Fin 250)\<rparr>"

lemma sample_enter_proposal:
  "pv_adjustedDecision (evaluateAgentProposal (sampleProposal ENTER (Fin (3 / 4)) (Some (Fin 450)))
     sampleContext sampleProposalConfig) = Some sampleEnterDecided"
  by (simp add: proposal_eval risk_samples sampleEnterDecided_def num_simps Let_def)

lemma sample_enter_valid:
  "pv_valid (evaluateAgentProposal (sampleProposal ENTER (Fin (3 / 4)) (Some (Fin 450)))
     sampleContext sampleProposalConfig)"
  by (simp add: proposal_eval risk_samples num_simps Let_def)

theorem validated_proposal_action_witness:
  "\<exists>d. pv_adjustedDecision (evaluateAgentProposal
      (sampleProposal ENTER (Fin (3 / 4)) (Some (Fin 450))) sampleContext sampleProposalConfig) = Some d \<and>
    dec_action d = ENTER \<and> dec_poolAddress d = ''pool''"
  using validated_proposal_action[OF sample_enter_valid]
  by (auto simp: sampleProposal_def sampleContext_def)

theorem validated_enter_bounded_witness: "jle (Fin 250) (jmul (Fin 1000) (Fin (1 / 4)))"
proof -
  have "dec_action (sampleProposal ENTER (Fin (3 / 4)) (Some (Fin 450))) = ENTER"
    by (simp add: sampleProposal_def)
  from validated_enter_bounded[OF this sample_enter_proposal] show ?thesis
    by (auto simp: sampleEnterDecided_def sampleContext_def sampleProposalConfig_def)
qed

theorem validated_confidence_floor_witness: "\<not> jlt (Fin (3 / 4)) (Fin (5 / 8))"
  using validated_confidence_floor[OF sample_enter_proposal]
  by (simp add: sampleEnterDecided_def risk_samples sampleProposalConfig_def)

theorem validated_target_open_witness:
  "\<exists>p \<in> set (ctx_openPositions sampleContext). pos_id p = ''p1'' \<and> pos_poolAddress p = ''pool''"
proof -
  have "pv_adjustedDecision (evaluateAgentProposal (sampleProposal EXIT (Fin (3 / 4)) None)
      sampleContext sampleProposalConfig) =
      Some ((sampleDecision EXIT)\<lparr>dec_positionId := Some ''p1''\<rparr>)"
    by (simp add: proposal_eval risk_samples num_simps Let_def)
  from validated_target_open[OF this] show ?thesis by (simp add: sampleContext_def)
qed

theorem validated_enter_risk_sizing_witness:
  "checkPerPoolPositionCapGate sampleRiskConfig sampleEnterDecided sampleContext = None"
proof -
  have "dec_action (sampleProposal ENTER (Fin (3 / 4)) (Some (Fin 450))) = ENTER"
    by (simp add: sampleProposal_def)
  from validated_enter_passes_risk_sizing[OF this sample_enter_proposal, of sampleRiskConfig]
  show ?thesis by (simp add: risk_samples sampleProposalConfig_def)
qed

theorem veto_always_valid_witness:
  "\<exists>d. pv_adjustedDecision (evaluateAgentProposal (sampleProposal HOLD NaN None)
      (sampleContext\<lparr>ctx_originalDecision := sampleDecided\<rparr>) sampleProposalConfig) = Some d \<and>
    dec_action d = HOLD \<and> dec_positionSizeUsd d = None"
  by (rule veto_always_valid[where orig = "sampleDecision ENTER"])
    (simp_all add: sampleProposal_def sampleDecided_def risk_samples)

end
