(* ===== verification/EntrySizing.thy ===== *)
theory EntrySizing
  imports DomainTypes
begin

text \<open>
  How much capital one action may move: the entry, idle-redeploy, launch and scale-in sizes
  (\<^verbatim>\<open>engine/entry-sizing.ts\<close>, \<^verbatim>\<open>engine/launch-position.ts\<close>), the native SOL an entry can consume
  (\<^verbatim>\<open>engine/entry-sol-budget.ts\<close>), probe amounts (\<^verbatim>\<open>engine/route-probe.ts\<close>), the validation of
  limit orders (\<^verbatim>\<open>engine/limit-orders.ts\<close>) and the routing of claimed fees
  (\<^verbatim>\<open>engine/fee-destination.ts\<close>).  The four sizes are instances of \<open>capped_sizing\<close>.
\<close>

section \<open>The contract of a capped size\<close>

locale capped_sizing =
  fixes size_of :: "'i \<Rightarrow> jsnum"
    and bounds :: "'i \<Rightarrow> jsnum list"
    and bottom :: jsnum
  assumes size_capped: "size_of i = jmax (jmins (bounds i)) bottom"
    and bottom_number: "bottom \<noteq> NaN"
begin

lemma size_NaN_iff: "size_of i = NaN \<longleftrightarrow> NaN \<in> set (bounds i)"
  using bottom_number by (simp add: size_capped)

lemma size_ge_bottom: "NaN \<notin> set (bounds i) \<Longrightarrow> jle bottom (size_of i)"
  using size_NaN_iff[of i] jmax_ge2 by (simp add: size_capped)

lemma size_within:
  assumes "NaN \<notin> set (bounds i)" "b \<in> set (bounds i)"
  shows "size_of i = bottom \<or> jle (size_of i) b"
  using assms jmins_le[of "bounds i" b] jmax_choice[of "jmins (bounds i)" bottom]
    size_NaN_iff[of i]
  by (auto simp: size_capped)

lemma size_mono:
  assumes "list_all2 jle (bounds i) (bounds j)"
  shows "jle (size_of i) (size_of j)"
proof -
  have nn: "NaN \<notin> set (bounds i)" "NaN \<notin> set (bounds j)"
    using assms by (auto simp: list_all2_conv_all_nth in_set_conv_nth)
  have "jle (jmins (bounds i)) (jmins (bounds j))"
    unfolding jle_jmins_iff
  proof (intro conjI ballI)
    show "jmins (bounds i) \<noteq> NaN" using nn by simp
    fix y assume "y \<in> set (bounds j)"
    then obtain k where k: "k < length (bounds j)" "bounds j ! k = y" by (auto simp: in_set_conv_nth)
    then have "jle (bounds i ! k) y" "bounds i ! k \<in> set (bounds i)"
      using assms by (auto simp: list_all2_conv_all_nth)
    then show "jle (jmins (bounds i)) y" using nn by (metis jle_trans jmins_le jmins_eq_NaN_iff)
  qed
  also have "jle (jmins (bounds j)) (size_of j)" using nn bottom_number
    by (simp add: size_capped jmax_ge1)
  finally have "jle (jmins (bounds i)) (size_of j)" .
  moreover have "jle bottom (size_of j)" using nn by (simp add: size_ge_bottom)
  ultimately show ?thesis by (simp add: size_capped[of i] jmax_jle_iff)
qed

end

section \<open>Entry and idle-redeploy sizes\<close>

definition ENTRY_SIZE_WALLET_FRACTION :: jsnum where
  "ENTRY_SIZE_WALLET_FRACTION = Fin (1 / 2)"

definition ENTRY_SIZE_TVL_FRACTION :: jsnum where
  "ENTRY_SIZE_TVL_FRACTION = fl (5 / 1000)"

definition ENTRY_SIZE_CAP_USD :: jsnum where
  "ENTRY_SIZE_CAP_USD = Fin 500"

definition entrySizeFloorUsd :: jsnum where
  "entrySizeFloorUsd = Fin 10"

record EntrySizeInput =
  ens_walletBalanceUsd :: jsnum
  ens_tvlUsd :: jsnum
  ens_maxSizeUsd :: "jsnum option"

definition computeEntrySizeUsd :: "EntrySizeInput \<Rightarrow> jsnum" where
  "computeEntrySizeUsd inp =
     (let maxPositionSize = jmins
            [jmul (ens_walletBalanceUsd inp) ENTRY_SIZE_WALLET_FRACTION,
             jmul (ens_tvlUsd inp) ENTRY_SIZE_TVL_FRACTION,
             nullish (ens_maxSizeUsd inp) ENTRY_SIZE_CAP_USD]
      in jmax maxPositionSize entrySizeFloorUsd)"

record IdleRedeploySizeInput =
  idle_idleCapitalUsd :: jsnum
  idle_portfolioValueUsd :: jsnum
  idle_maxPerPoolAllocationPct :: jsnum
  idle_maxSizeUsd :: jsnum

definition computeIdleRedeploySizeUsd :: "IdleRedeploySizeInput \<Rightarrow> jsnum" where
  "computeIdleRedeploySizeUsd inp =
     jmax (jmins
       [jmul (idle_idleCapitalUsd inp) ENTRY_SIZE_WALLET_FRACTION,
        jmul (idle_portfolioValueUsd inp) (idle_maxPerPoolAllocationPct inp),
        idle_maxSizeUsd inp])
       (Fin 0)"

section \<open>Launch and scale-in sizes\<close>

record LaunchEntrySizeInput =
  les_walletUsd :: jsnum
  les_poolTvlUsd :: jsnum
  les_maxSizeUsd :: jsnum

definition launchEntrySizeUsd :: "LaunchEntrySizeInput \<Rightarrow> jsnum" where
  "launchEntrySizeUsd inp =
     jmax (Fin 0) (jmins
       [les_maxSizeUsd inp, jmul (fl (5 / 1000)) (les_poolTvlUsd inp),
        jmul (Fin (1 / 2)) (les_walletUsd inp)])"

datatype ScaleInReason =
    ScaleMaxSteps jsnum jsnum
  | ScaleAnchorUnknown
  | ScalePriceUnknown
  | ScaleDropBelowStep jsnum jsnum
  | ScaleReanchor jsnum jsnum jsnum

record ScaleInDecisionInput =
  si_anchorPrice :: jsnum
  si_currentPrice :: jsnum
  si_stepPct :: jsnum
  si_steps :: jsnum
  si_maxSteps :: jsnum

record ScaleInDecision =
  si_scale :: bool
  si_reason :: ScaleInReason

definition shouldScaleInRunner :: "ScaleInDecisionInput \<Rightarrow> ScaleInDecision" where
  "shouldScaleInRunner inp =
     (if jge (si_steps inp) (si_maxSteps inp)
        then \<lparr>si_scale = False, si_reason = ScaleMaxSteps (si_steps inp) (si_maxSteps inp)\<rparr>
      else if \<not> is_finite (si_anchorPrice inp) \<or> jle (si_anchorPrice inp) (Fin 0)
        then \<lparr>si_scale = False, si_reason = ScaleAnchorUnknown\<rparr>
      else if jle (si_currentPrice inp) (Fin 0) \<or> \<not> is_finite (si_currentPrice inp)
        then \<lparr>si_scale = False, si_reason = ScalePriceUnknown\<rparr>
      else
        let drop = jsub (Fin 1) (jdiv (si_currentPrice inp) (si_anchorPrice inp))
        in if jlt drop (si_stepPct inp)
             then \<lparr>si_scale = False, si_reason = ScaleDropBelowStep drop (si_stepPct inp)\<rparr>
           else \<lparr>si_scale = True,
             si_reason = ScaleReanchor drop (jadd (si_steps inp) (Fin 1)) (si_maxSteps inp)\<rparr>)"

record ScaleInTopUpInput =
  top_walletUsd :: jsnum
  top_sizePct :: jsnum
  top_poolCapUsd :: jsnum
  top_maxTopUpUsd :: jsnum

definition scaleInTopUpUsd :: "ScaleInTopUpInput \<Rightarrow> jsnum" where
  "scaleInTopUpUsd inp =
     jmax (Fin 0) (jmins
       [jmul (top_sizePct inp) (top_walletUsd inp), top_poolCapUsd inp, top_maxTopUpUsd inp])"

section \<open>The sizes meet their contract\<close>

lemma jmax_commute: "jmax a b = jmax b a"
  by (cases a; cases b) (auto simp: jmax_def max.commute)

interpretation entry: capped_sizing computeEntrySizeUsd
  "\<lambda>inp. [jmul (ens_walletBalanceUsd inp) ENTRY_SIZE_WALLET_FRACTION,
     jmul (ens_tvlUsd inp) ENTRY_SIZE_TVL_FRACTION, nullish (ens_maxSizeUsd inp) ENTRY_SIZE_CAP_USD]"
  entrySizeFloorUsd
  by unfold_locales (simp_all add: computeEntrySizeUsd_def entrySizeFloorUsd_def Let_def)

interpretation idle: capped_sizing computeIdleRedeploySizeUsd
  "\<lambda>inp. [jmul (idle_idleCapitalUsd inp) ENTRY_SIZE_WALLET_FRACTION,
     jmul (idle_portfolioValueUsd inp) (idle_maxPerPoolAllocationPct inp), idle_maxSizeUsd inp]"
  "Fin 0"
  by unfold_locales (simp_all add: computeIdleRedeploySizeUsd_def)

interpretation launch_size: capped_sizing launchEntrySizeUsd
  "\<lambda>inp. [les_maxSizeUsd inp, jmul (fl (5 / 1000)) (les_poolTvlUsd inp),
     jmul (Fin (1 / 2)) (les_walletUsd inp)]"
  "Fin 0"
  by unfold_locales (simp_all only: launchEntrySizeUsd_def jmax_commute[of "Fin 0"] jsnum.simps simp_thms)

interpretation top_up: capped_sizing scaleInTopUpUsd
  "\<lambda>inp. [jmul (top_sizePct inp) (top_walletUsd inp), top_poolCapUsd inp, top_maxTopUpUsd inp]"
  "Fin 0"
  by unfold_locales (simp_all only: scaleInTopUpUsd_def jmax_commute[of "Fin 0"] jsnum.simps simp_thms)

section \<open>Native SOL an entry consumes\<close>

definition SOL_MINT :: string where
  "SOL_MINT = ''So11111111111111111111111111111111111111112''"

definition GAS_RESERVE_LAMPORTS :: int where
  "GAS_RESERVE_LAMPORTS = 20000000"

definition SOL_ENTRY_TRANSACTION_BUFFER_LAMPORTS :: int where
  "SOL_ENTRY_TRANSACTION_BUFFER_LAMPORTS = 50000000"

definition MIN_SOL_FOR_ENTRY_LAMPORTS :: int where
  "MIN_SOL_FOR_ENTRY_LAMPORTS = 180000000"

definition SOL_PRICE_BUFFER_PCT :: jsnum where
  "SOL_PRICE_BUFFER_PCT = fl (101 / 100)"

definition hasNativeSolLeg :: "string option \<Rightarrow> string option \<Rightarrow> bool" where
  "hasNativeSolLeg tokenX tokenY \<longleftrightarrow> tokenX = Some SOL_MINT \<or> tokenY = Some SOL_MINT"

text \<open>None is the RangeError of \<^verbatim>\<open>BigInt\<close> on an infinite quotient.\<close>

definition usdToLamports :: "jsnum \<Rightarrow> jsnum \<Rightarrow> int option" where
  "usdToLamports usd solPriceUsd =
     (if \<not> is_finite usd \<or> jle usd (Fin 0) then Some 0
      else if \<not> is_finite solPriceUsd \<or> jle solPriceUsd (Fin 0) then Some 0
      else to_bigint (jceil (jmul (jdiv usd solPriceUsd) (Fin 1000000000))))"

record EntrySolInput =
  esol_positionSizeUsd :: jsnum
  esol_solPriceUsd :: jsnum
  esol_poolHasSolLeg :: bool
  esol_solFunded :: bool

definition estimateEntrySolLamports :: "EntrySolInput \<Rightarrow> int option" where
  "estimateEntrySolLamports inp =
     (let legFraction = (if esol_solFunded inp then Fin 1
                         else if esol_poolHasSolLeg inp then Fin (1 / 2) else Fin 0);
          wrapBuffer = (if esol_poolHasSolLeg inp then SOL_ENTRY_TRANSACTION_BUFFER_LAMPORTS else 0)
      in case usdToLamports (jmul (jmul (esol_positionSizeUsd inp) legFraction) SOL_PRICE_BUFFER_PCT)
                (esol_solPriceUsd inp) of
           None \<Rightarrow> None
         | Some legLamports \<Rightarrow> Some (MIN_SOL_FOR_ENTRY_LAMPORTS + legLamports + wrapBuffer))"

definition freeEntrySolLamports :: "int \<Rightarrow> int" where
  "freeEntrySolLamports nativeSolLamports =
     (if nativeSolLamports > GAS_RESERVE_LAMPORTS then nativeSolLamports - GAS_RESERVE_LAMPORTS else 0)"

section \<open>Route probes\<close>

definition ROUTE_PROBE_NOTIONAL_USD :: jsnum where
  "ROUTE_PROBE_NOTIONAL_USD = Fin 1"

definition isValidProbeInput :: "jsnum \<Rightarrow> jsnum \<Rightarrow> jsnum \<Rightarrow> bool" where
  "isValidProbeInput priceUsd decimals notionalUsd \<longleftrightarrow>
     is_finite priceUsd \<and> jgt priceUsd (Fin 0) \<and> is_integer decimals \<and> jge decimals (Fin 0) \<and>
     jle decimals (Fin 18) \<and> is_finite notionalUsd \<and> jgt notionalUsd (Fin 0)"

definition MAX_SAFE_INTEGER :: jsnum where
  "MAX_SAFE_INTEGER = Fin 9007199254740991"

definition probeAmountFromUnits :: "jsnum \<Rightarrow> jsnum \<Rightarrow> int option" where
  "probeAmountFromUnits units decimals =
     (if \<not> is_finite units \<or> jle units (Fin 0) then Some 0
      else
        let wholeUnits = jfloor units
        in if jgt wholeUnits MAX_SAFE_INTEGER then Some 0
           else case to_bigint decimals of None \<Rightarrow> None | Some d \<Rightarrow>
             let scale = 10 ^ nat d
             in case to_bigint (jfloor (jmul (jsub units wholeUnits) (of_bigint scale))) of
                  None \<Rightarrow> None
                | Some fractionalAtomic \<Rightarrow>
                   (case to_bigint wholeUnits of None \<Rightarrow> None
                    | Some w \<Rightarrow>
                        let amountAtomic = w * scale + fractionalAtomic
                        in Some (if 0 < amountAtomic then amountAtomic else 1)))"

definition routeProbeAmountAtomic :: "jsnum \<Rightarrow> jsnum \<Rightarrow> jsnum \<Rightarrow> int option" where
  "routeProbeAmountAtomic priceUsd decimals notionalUsd =
     (if \<not> isValidProbeInput priceUsd decimals notionalUsd then Some 0
      else probeAmountFromUnits (jdiv notionalUsd priceUsd) decimals)"

section \<open>Limit orders\<close>

datatype LimitOrderSide = Ask | Bid

datatype LimitOrderError =
  UnsupportedFunctionType | TargetBinNotInteger | AmountNotPositive | SlippageNotNonNegative

record LimitOrderRequest =
  lo_side :: LimitOrderSide
  lo_targetBinId :: jsnum
  lo_amountAtomic :: int
  lo_maxActiveBinSlippage :: "jsnum option"

record ValidatedLimitOrderRequest = LimitOrderRequest +
  lo_isAskSide :: bool

definition validateLimitOrderRequest ::
  "LimitOrderRequest \<Rightarrow> int \<Rightarrow> int \<Rightarrow> LimitOrderError + ValidatedLimitOrderRequest" where
  "validateLimitOrderRequest request concreteFunctionType limitOrderType =
     (if concreteFunctionType \<noteq> limitOrderType then Inl UnsupportedFunctionType
      else if \<not> is_safe_integer (lo_targetBinId request) then Inl TargetBinNotInteger
      else if lo_amountAtomic request \<le> 0 then Inl AmountNotPositive
      else if (case lo_maxActiveBinSlippage request of None \<Rightarrow> False
               | Some s \<Rightarrow> \<not> is_safe_integer s \<or> jlt s (Fin 0))
        then Inl SlippageNotNonNegative
      else Inr (LimitOrderRequest.extend request
        (ValidatedLimitOrderRequest.fields (lo_side request = Ask))))"

section \<open>Destination of claimed fees\<close>

datatype FeeDestination = Compound | AccumulateQuote | AccumulateSol

datatype FeeRouting = RouteCompound | RouteAccumulate FeeDestination

definition routeClaimedFees :: "FeeDestination option \<Rightarrow> FeeRouting" where
  "routeClaimedFees destination =
     (let resolved = nullish destination Compound
      in if resolved = Compound then RouteCompound else RouteAccumulate resolved)"

definition canConvertFeeAmounts :: "jsnum \<Rightarrow> jsnum \<Rightarrow> bool" where
  "canConvertFeeAmounts feeX feeY \<longleftrightarrow>
     is_finite feeX \<and> is_finite feeY \<and> (jgt feeX (Fin 0) \<or> jgt feeY (Fin 0))"

record FeeSwap =
  swap_inputMint :: string
  swap_amountAtomic :: int
  swap_outputAtomic :: int
  swap_signature :: "string option"

record AccumulationSummary =
  acc_destination :: FeeDestination
  acc_outputAtomic :: int
  acc_txSignatures :: "string list"

datatype AccumulationError = InvalidConversionOutput | NoConversionOutput

fun sumSwapOutputs :: "int \<Rightarrow> FeeSwap list \<Rightarrow> AccumulationError + int" where
  "sumSwapOutputs acc [] = Inr acc"
| "sumSwapOutputs acc (fs # swaps) =
     (if swap_outputAtomic fs \<le> 0 \<or> swap_inputMint fs = [] then Inl InvalidConversionOutput
      else sumSwapOutputs (acc + swap_outputAtomic fs) swaps)"

definition summarizeAccumulation ::
  "FeeDestination \<Rightarrow> FeeSwap list \<Rightarrow> string \<Rightarrow> AccumulationError + AccumulationSummary" where
  "summarizeAccumulation destination swaps targetMint =
     (case sumSwapOutputs 0 swaps of Inl e \<Rightarrow> Inl e
      | Inr outputAtomic \<Rightarrow>
          if outputAtomic = 0 \<or> targetMint = [] then Inl NoConversionOutput
          else Inr \<lparr>acc_destination = destination, acc_outputAtomic = outputAtomic,
            acc_txSignatures = concat (map (\<lambda>fs. case swap_signature fs of
               None \<Rightarrow> [] | Some sig \<Rightarrow> if sig = [] then [] else [sig]) swaps)\<rparr>)"

section \<open>Lemmas on lamports and probes\<close>

lemma usdToLamports_nonneg:
  assumes "usdToLamports usd price = Some n" shows "0 \<le> n"
proof (cases "is_finite usd \<and> \<not> jle usd (Fin 0) \<and> is_finite price \<and> \<not> jle price (Fin 0)")
  case True
  then have pos: "jle (Fin 0) usd" "jle (Fin 0) price" "jlt (Fin 0) price" "is_finite price" "usd \<noteq> NaN"
    by (auto simp: not_jle_iff is_finite_iff)
  then have "jle (Fin 0) (jdiv usd price)" by (intro jdiv_nonneg jdiv_finite_pos_not_NaN)
  then have "jle (Fin 0) (jmul (jdiv usd price) (Fin 1000000000))"
    by (cases "jdiv usd price") (auto simp: signed_inf_def intro: fl_nonneg)
  then show ?thesis using assms True
    by (cases "jmul (jdiv usd price) (Fin 1000000000)")
      (auto simp: usdToLamports_def to_bigint_jceil to_bigint_def)
qed (use assms in \<open>auto simp: usdToLamports_def split: if_splits\<close>)

lemma usdToLamports_mono:
  assumes "jle u v" "is_finite v" "usdToLamports u price = Some a" "usdToLamports v price = Some b"
  shows "a \<le> b"
proof (cases "is_finite u \<and> \<not> jle u (Fin 0) \<and> is_finite price \<and> \<not> jle price (Fin 0)")
  case True
  then have p: "jlt (Fin 0) price" "is_finite price" by (auto simp: not_jle_iff is_finite_iff)
  have v: "\<not> jle v (Fin 0)" using True assms(1) by (auto intro: jle_trans)
  let ?q = "\<lambda>x. jmul (jdiv x price) (Fin 1000000000)"
  have d: "jle (jdiv u price) (jdiv v price)" using assms(1) p by (rule jdiv_mono_left)
  then have "jle (?q u) (?q v)"
    by (cases "jdiv u price"; cases "jdiv v price") (auto simp: signed_inf_def intro!: fl_mono)
  then show ?thesis using assms(2-4) True v
    by (cases "?q u"; cases "?q v")
      (auto simp: usdToLamports_def to_bigint_jceil to_bigint_def intro: ceiling_mono)
next
  case False
  then have "a = 0" using assms(3) by (auto simp: usdToLamports_def split: if_splits)
  then show ?thesis using usdToLamports_nonneg[OF assms(4)] by simp
qed

lemma probe_fraction:
  assumes "0 < u" "d \<le> 18"
  obtains f where "jfloor (jmul (jsub (Fin u) (Fin (of_int \<lfloor>u\<rfloor>))) (of_bigint (10 ^ d))) = Fin (of_int f)"
    "0 \<le> f" "f \<le> 10 ^ d"
proof -
  have s: "of_bigint (10 ^ d) = Fin (10 ^ d)" using assms(2) by (simp add: of_bigint_def fl_power10)
  have fr: "0 \<le> u - of_int \<lfloor>u\<rfloor>" "u - of_int \<lfloor>u\<rfloor> \<le> 1" by linarith+
  have "jle (Fin 0) (fl (u - of_int \<lfloor>u\<rfloor>))" "jle (fl (u - of_int \<lfloor>u\<rfloor>)) (Fin 1)"
    using fr by (auto intro!: fl_nonneg fl_le simp: num_simps)
  then obtain y where y: "fl (u - of_int \<lfloor>u\<rfloor>) = Fin y" "0 \<le> y" "y \<le> 1"
    by (cases "fl (u - of_int \<lfloor>u\<rfloor>)") auto
  have "y * 10 ^ d \<le> 10 ^ d" using y by (simp add: mult_left_le_one_le)
  then have "jle (fl (y * 10 ^ d)) (Fin (10 ^ d))" using fl_power10[OF assms(2)] by (intro fl_le)
  moreover have "jle (Fin 0) (fl (y * 10 ^ d))" using y by (intro fl_nonneg) simp
  ultimately obtain z where z: "fl (y * 10 ^ d) = Fin z" "0 \<le> z" "z \<le> 10 ^ d"
    by (cases "fl (y * 10 ^ d)") auto
  have "\<lfloor>z\<rfloor> \<le> 10 ^ d" using z(3) by (metis floor_mono floor_of_int of_int_numeral of_int_power)
  moreover have "0 \<le> \<lfloor>z\<rfloor>" using z(2) by simp
  moreover have "jfloor (jmul (jsub (Fin u) (Fin (of_int \<lfloor>u\<rfloor>))) (of_bigint (10 ^ d))) = Fin (of_int \<lfloor>z\<rfloor>)"
    by (simp add: s jsub_def y(1) z(1))
  ultimately show ?thesis using that by blast
qed

lemma sumSwapOutputs_Inr_iff:
  "sumSwapOutputs acc swaps = Inr n \<longleftrightarrow>
     (\<forall>fs \<in> set swaps. 0 < swap_outputAtomic fs \<and> swap_inputMint fs \<noteq> []) \<and>
     n = acc + sum_list (map swap_outputAtomic swaps)"
  by (induction acc swaps rule: sumSwapOutputs.induct) auto

lemma sum_list_pos:
  "\<forall>x \<in> set xs. 0 < (x :: int) \<Longrightarrow> 0 \<le> sum_list xs \<and> (sum_list xs = 0 \<longleftrightarrow> xs = [])"
  by (induction xs) auto

section \<open>Properties of sizing\<close>

text \<open>
  C29. The conservative entry size is at least the ten dollar floor and, unless it is that
  floor, at most half the wallet, half a percent of the pool's TVL and the ceiling.
\<close>
theorem entry_size_bounds:
  assumes "ens_walletBalanceUsd inp \<noteq> NaN" "ens_tvlUsd inp \<noteq> NaN" "ens_maxSizeUsd inp \<noteq> Some NaN"
  shows "let s = computeEntrySizeUsd inp in jle (Fin 10) s \<and>
    (s = Fin 10 \<or> jle s (jmul (ens_walletBalanceUsd inp) (Fin (1 / 2))) \<and>
      jle s (jmul (ens_tvlUsd inp) (fl (5 / 1000))) \<and> jle s (nullish (ens_maxSizeUsd inp) (Fin 500)))"
proof -
  let ?bs = "[jmul (ens_walletBalanceUsd inp) ENTRY_SIZE_WALLET_FRACTION,
     jmul (ens_tvlUsd inp) ENTRY_SIZE_TVL_FRACTION, nullish (ens_maxSizeUsd inp) ENTRY_SIZE_CAP_USD]"
  have "jlt (Fin 0) (fl (5 / 1000))" "is_finite (fl (5 / 1000))" by code_simp+
  then have "jmul (ens_tvlUsd inp) ENTRY_SIZE_TVL_FRACTION \<noteq> NaN"
    "jmul (ens_walletBalanceUsd inp) ENTRY_SIZE_WALLET_FRACTION \<noteq> NaN"
    using jmul_pos_not_NaN[OF assms(1), of "Fin (1 / 2)"] jmul_pos_not_NaN[OF assms(2)]
    by (simp_all add: ENTRY_SIZE_TVL_FRACTION_def ENTRY_SIZE_WALLET_FRACTION_def)
  moreover have "nullish (ens_maxSizeUsd inp) ENTRY_SIZE_CAP_USD \<noteq> NaN"
    using assms(3) by (cases "ens_maxSizeUsd inp") (auto simp: ENTRY_SIZE_CAP_USD_def)
  ultimately have "NaN \<notin> set ?bs" by (metis insert_iff list.set empty_iff)
  then show ?thesis
    using entry.size_ge_bottom[of inp] entry.size_within[of inp]
    by (auto simp: Let_def entrySizeFloorUsd_def ENTRY_SIZE_WALLET_FRACTION_def
        ENTRY_SIZE_TVL_FRACTION_def ENTRY_SIZE_CAP_USD_def)
qed

text \<open>
  A scale-in top-up adds capital within every limit: it is never negative, and with
  non-negative limits it is at most the configured share of the wallet, the pool's remaining
  headroom and the hard ceiling.
\<close>
theorem scale_in_top_up_bounds:
  assumes "jle (Fin 0) (jmul (top_sizePct inp) (top_walletUsd inp))"
    and "jle (Fin 0) (top_poolCapUsd inp)" "jle (Fin 0) (top_maxTopUpUsd inp)"
  shows "jle (Fin 0) (scaleInTopUpUsd inp) \<and>
    jle (scaleInTopUpUsd inp) (jmul (top_sizePct inp) (top_walletUsd inp)) \<and>
    jle (scaleInTopUpUsd inp) (top_poolCapUsd inp) \<and> jle (scaleInTopUpUsd inp) (top_maxTopUpUsd inp)"
proof -
  have "NaN \<notin> set [jmul (top_sizePct inp) (top_walletUsd inp), top_poolCapUsd inp, top_maxTopUpUsd inp]"
    using assms by auto
  note b = top_up.size_ge_bottom[OF this] top_up.size_within[OF this]
  have "scaleInTopUpUsd inp = Fin 0 \<or> jle (scaleInTopUpUsd inp) (jmul (top_sizePct inp) (top_walletUsd inp))"
    "scaleInTopUpUsd inp = Fin 0 \<or> jle (scaleInTopUpUsd inp) (top_poolCapUsd inp)"
    "scaleInTopUpUsd inp = Fin 0 \<or> jle (scaleInTopUpUsd inp) (top_maxTopUpUsd inp)"
    by (rule b(2); simp)+
  then show ?thesis using b(1) assms by metis
qed

text \<open>
  The runner scales in only into a falling price and within its step budget: whenever it
  decides to, steps remain and, for a positive step, the price is below the anchor.
\<close>
theorem scale_in_only_below_anchor:
  assumes "si_scale (shouldScaleInRunner inp)" and "jlt (Fin 0) (si_stepPct inp)"
  shows "\<not> jge (si_steps inp) (si_maxSteps inp) \<and> jlt (Fin 0) (si_currentPrice inp) \<and>
    jlt (si_currentPrice inp) (si_anchorPrice inp)"
proof -
  let ?q = "jdiv (si_currentPrice inp) (si_anchorPrice inp)"
  have g: "\<not> jge (si_steps inp) (si_maxSteps inp)" "is_finite (si_anchorPrice inp)"
    "\<not> jle (si_anchorPrice inp) (Fin 0)" "\<not> jle (si_currentPrice inp) (Fin 0)"
    "is_finite (si_currentPrice inp)" "\<not> jlt (jsub (Fin 1) ?q) (si_stepPct inp)"
    using assms(1) by (auto simp: shouldScaleInRunner_def Let_def split: if_splits)
  then have a: "jlt (Fin 0) (si_anchorPrice inp)" "jlt (Fin 0) (si_currentPrice inp)"
    by (auto simp: not_jle_iff is_finite_iff)
  have "?q \<noteq> NaN" using a(1) g(2) a(2) by (intro jdiv_finite_pos_not_NaN) auto
  then have nn: "jsub (Fin 1) ?q \<noteq> NaN" by (cases ?q) (auto simp: jsub_def)
  then have "jlt (Fin 0) (jsub (Fin 1) ?q)"
    using g(6) assms(2) by (auto simp: not_jlt_iff intro: jlt_jle_trans)
  then have "jlt ?q (Fin 1)" by (rule jsub_pos_imp_jlt)
  with a g show ?thesis by (auto intro: jdiv_lt_1_imp)
qed

text \<open>
  C37. An entry the SOL budget affords leaves the gas reserve untouched: when the estimate fits
  the free balance, the balance after spending the whole estimate is at least the reserve; and
  the estimate is never below the fixed minimum of a live entry.
\<close>
theorem sol_budget_keeps_reserve:
  assumes "estimateEntrySolLamports inp = Some need" "need \<le> freeEntrySolLamports balance"
  shows "GAS_RESERVE_LAMPORTS \<le> balance - need \<and> MIN_SOL_FOR_ENTRY_LAMPORTS \<le> need"
proof -
  have "MIN_SOL_FOR_ENTRY_LAMPORTS \<le> need"
    using assms(1) by (auto simp: estimateEntrySolLamports_def Let_def
        SOL_ENTRY_TRANSACTION_BUFFER_LAMPORTS_def dest!: usdToLamports_nonneg
        split: option.splits if_splits)
  then show ?thesis using assms(2)
    by (auto simp: freeEntrySolLamports_def MIN_SOL_FOR_ENTRY_LAMPORTS_def
        GAS_RESERVE_LAMPORTS_def split: if_splits)
qed

text \<open>
  Funding both legs from SOL never needs less SOL than funding one: for a finite position
  size the estimate of a SOL-funded entry is at least that of the same entry funded otherwise.
\<close>
theorem sol_funded_needs_more:
  assumes "estimateEntrySolLamports (inp\<lparr>esol_solFunded := True\<rparr>) = Some a"
    and "estimateEntrySolLamports (inp\<lparr>esol_solFunded := False\<rparr>) = Some b"
    and "is_finite (jmul (jmul (esol_positionSizeUsd inp) (Fin 1)) SOL_PRICE_BUFFER_PCT)"
    and "jle (Fin 0) (esol_positionSizeUsd inp)"
  shows "b \<le> a"
proof -
  define frac where "frac = (if esol_poolHasSolLeg inp then Fin (1 / 2) else Fin 0)"
  define sz where "sz = esol_positionSizeUsd inp"
  have pos: "jlt (Fin 0) SOL_PRICE_BUFFER_PCT" "is_finite SOL_PRICE_BUFFER_PCT" by code_simp+
  have "is_finite sz"
    using assms(3) pos jmul_finite_left[of sz "Fin 1"] by (auto simp: sz_def dest: jmul_finite_left)
  then have "jle (jmul sz frac) (jmul sz (Fin 1))"
    using assms(4) by (auto simp: sz_def frac_def is_finite_iff intro!: fl_mono fl_nonneg)
  then have le: "jle (jmul (jmul sz frac) SOL_PRICE_BUFFER_PCT) (jmul (jmul sz (Fin 1)) SOL_PRICE_BUFFER_PCT)"
    using jle_not_NaN jmul_pos_not_NaN[OF _ pos] jlt_imp_jle[OF pos(1)]
    by (intro jmul_mono_right) blast+
  show ?thesis
    using assms(1,2) usdToLamports_mono[OF le assms(3)[folded sz_def]]
    by (auto simp: estimateEntrySolLamports_def Let_def sz_def frac_def split: option.splits if_splits)
qed

text \<open>
  C40. A route probe never throws: whatever the price and decimals are, the amount is a
  non-negative integer, which is positive exactly for a valid input whose unit count is a
  positive number with a safe integer part, and then exceeds that many whole units by at most
  one unit.
\<close>
theorem route_probe_total:
  shows "\<exists>n. routeProbeAmountAtomic priceUsd decimals notionalUsd = Some n \<and> 0 \<le> n \<and>
    (0 < n \<longleftrightarrow> isValidProbeInput priceUsd decimals notionalUsd \<and>
       (\<exists>u. jdiv notionalUsd priceUsd = Fin u \<and> 0 < u \<and> \<lfloor>u\<rfloor> \<le> 9007199254740991)) \<and>
    (\<forall>u d. 0 < n \<and> jdiv notionalUsd priceUsd = Fin u \<and> decimals = Fin (of_nat d) \<longrightarrow>
       n \<le> (\<lfloor>u\<rfloor> + 1) * 10 ^ d)"
proof (cases "isValidProbeInput priceUsd decimals notionalUsd \<and>
    (\<exists>u. jdiv notionalUsd priceUsd = Fin u \<and> 0 < u \<and> \<lfloor>u\<rfloor> \<le> 9007199254740991)")
  case True
  then obtain u where u: "jdiv notionalUsd priceUsd = Fin u" "0 < u" "\<lfloor>u\<rfloor> \<le> 9007199254740991"
    and v: "isValidProbeInput priceUsd decimals notionalUsd" by blast
  from v obtain x where x: "decimals = Fin x" "x = of_int \<lfloor>x\<rfloor>" "0 \<le> x" "x \<le> 18"
    by (cases decimals) (auto simp: isValidProbeInput_def)
  define d where "d = nat \<lfloor>x\<rfloor>"
  have "0 \<le> \<lfloor>x\<rfloor>" using x(3) by simp
  then have xd: "\<lfloor>x\<rfloor> = int d" by (simp add: d_def)
  then have d: "x = of_nat d" using x(2) by simp
  then have d18: "d \<le> 18" using x(4) by simp
  obtain f where f: "jfloor (jmul (jsub (Fin u) (Fin (of_int \<lfloor>u\<rfloor>))) (of_bigint (10 ^ d))) = Fin (of_int f)"
    "0 \<le> f" "f \<le> 10 ^ d" using probe_fraction[OF u(2) d18] by metis
  define n where "n = (let a = \<lfloor>u\<rfloor> * 10 ^ d + f in if 0 < a then a else 1)"
  have w: "\<not> 9007199254740991 < (of_int \<lfloor>u\<rfloor> :: rat)"
    using u(3) by (metis not_le of_int_le_numeral_iff)
  have "routeProbeAmountAtomic priceUsd decimals notionalUsd = Some n"
    using v u w f by (simp add: routeProbeAmountAtomic_def probeAmountFromUnits_def Let_def
        MAX_SAFE_INTEGER_def x(1) d n_def to_bigint_def xd)
  moreover have "0 < n" by (simp add: n_def Let_def)
  moreover have "n \<le> (\<lfloor>u\<rfloor> + 1) * 10 ^ d"
    using f(2,3) u(2) mult_mono[of 1 "\<lfloor>u\<rfloor> + 1" 1 "(10 :: int) ^ d"]
    by (auto simp: n_def Let_def distrib_right)
  ultimately show ?thesis using u v x(1) d by auto
next
  case False
  have "\<not> 9007199254740991 < (of_int \<lfloor>y\<rfloor> :: rat) \<Longrightarrow> \<lfloor>y\<rfloor> \<le> 9007199254740991" for y :: rat
    by (metis not_le of_int_le_numeral_iff)
  then have "routeProbeAmountAtomic priceUsd decimals notionalUsd = Some 0"
    using False by (cases "jdiv notionalUsd priceUsd")
      (auto simp: routeProbeAmountAtomic_def probeAmountFromUnits_def Let_def MAX_SAFE_INTEGER_def)
  with False show ?thesis by auto
qed

text \<open>
  The summary of a fee conversion accounts for every swap: it exists exactly when every swap
  produced output from a named mint and there is at least one swap and a target, and then its
  output is the sum of theirs and its signatures are theirs, in order.
\<close>
theorem accumulation_accounts_all:
  shows "summarizeAccumulation dest swaps target = Inr summary \<longleftrightarrow>
    (\<forall>fs \<in> set swaps. 0 < swap_outputAtomic fs \<and> swap_inputMint fs \<noteq> []) \<and> swaps \<noteq> [] \<and>
    target \<noteq> [] \<and> acc_destination summary = dest \<and>
    acc_outputAtomic summary = sum_list (map swap_outputAtomic swaps) \<and>
    acc_txSignatures summary =
      filter (\<lambda>sig. sig \<noteq> []) (List.map_filter swap_signature swaps)"
proof -
  have sigs: "concat (map (\<lambda>fs. case swap_signature fs of None \<Rightarrow> []
      | Some sig \<Rightarrow> if sig = [] then [] else [sig]) swaps) =
    filter (\<lambda>sig. sig \<noteq> []) (List.map_filter swap_signature swaps)" for swaps
    by (induction swaps) (auto simp: List.map_filter_simps split: option.split)
  show ?thesis
  proof (cases "\<forall>fs \<in> set swaps. 0 < swap_outputAtomic fs \<and> swap_inputMint fs \<noteq> []")
    case True
    then have s: "sumSwapOutputs 0 swaps = Inr (sum_list (map swap_outputAtomic swaps))"
      by (simp add: sumSwapOutputs_Inr_iff)
    moreover have "sum_list (map swap_outputAtomic swaps) = 0 \<longleftrightarrow> swaps = []"
      using sum_list_pos[of "map swap_outputAtomic swaps"] True by simp
    ultimately show ?thesis
      using True by (cases summary) (auto simp: summarizeAccumulation_def sigs)
  next
    case False
    then have "\<exists>e. sumSwapOutputs 0 swaps = Inl e"
      using sumSwapOutputs_Inr_iff[of 0 swaps] by (cases "sumSwapOutputs 0 swaps") auto
    then show ?thesis using False by (auto simp: summarizeAccumulation_def)
  qed
qed

section \<open>Sizing witnesses\<close>

definition sampleEntrySize :: EntrySizeInput where
  "sampleEntrySize = \<lparr>ens_walletBalanceUsd = Fin 4000, ens_tvlUsd = Fin 1000000, ens_maxSizeUsd = None\<rparr>"

theorem entry_size_bounds_witness: "jle (Fin 10) (computeEntrySizeUsd sampleEntrySize)"
  using entry_size_bounds[of sampleEntrySize] by (simp add: sampleEntrySize_def Let_def)

definition sampleTopUp :: ScaleInTopUpInput where
  "sampleTopUp = \<lparr>top_walletUsd = Fin 400, top_sizePct = Fin (1 / 4), top_poolCapUsd = Fin 80,
     top_maxTopUpUsd = Fin 150\<rparr>"

theorem scale_in_top_up_witness: "jle (scaleInTopUpUsd sampleTopUp) (Fin 80)"
  using scale_in_top_up_bounds[of sampleTopUp] by (simp add: sampleTopUp_def num_simps)

definition sampleScaleIn :: ScaleInDecisionInput where
  "sampleScaleIn = \<lparr>si_anchorPrice = Fin 8, si_currentPrice = Fin 6, si_stepPct = Fin (1 / 8),
     si_steps = Fin 1, si_maxSteps = Fin 3\<rparr>"

theorem scale_in_below_anchor_witness: "jlt (si_currentPrice sampleScaleIn) (si_anchorPrice sampleScaleIn)"
proof -
  have "si_scale (shouldScaleInRunner sampleScaleIn)"
    by (simp add: sampleScaleIn_def shouldScaleInRunner_def jsub_def num_simps)
  from scale_in_only_below_anchor[OF this] show ?thesis by (simp add: sampleScaleIn_def)
qed

definition sampleEntrySol :: EntrySolInput where
  "sampleEntrySol = \<lparr>esol_positionSizeUsd = Fin 100, esol_solPriceUsd = Fin 128,
     esol_poolHasSolLeg = True, esol_solFunded = False\<rparr>"

lemma sample_entry_sol:
  "estimateEntrySolLamports (sampleEntrySol\<lparr>esol_solFunded := True\<rparr>) = Some 1019062500"
  "estimateEntrySolLamports (sampleEntrySol\<lparr>esol_solFunded := False\<rparr>) = Some 624531250"
  by code_simp+

theorem sol_budget_witness: "GAS_RESERVE_LAMPORTS \<le> 700000000 - 624531250"
proof -
  have "624531250 \<le> freeEntrySolLamports 700000000" by code_simp
  from sol_budget_keeps_reserve[OF sample_entry_sol(2) this] show ?thesis by simp
qed

theorem sol_funded_witness:
  "the (estimateEntrySolLamports (sampleEntrySol\<lparr>esol_solFunded := False\<rparr>))
     \<le> the (estimateEntrySolLamports (sampleEntrySol\<lparr>esol_solFunded := True\<rparr>))"
proof -
  have "is_finite (jmul (jmul (esol_positionSizeUsd sampleEntrySol) (Fin 1)) SOL_PRICE_BUFFER_PCT)"
    by code_simp
  moreover have "jle (Fin 0) (esol_positionSizeUsd sampleEntrySol)" by (simp add: sampleEntrySol_def)
  ultimately show ?thesis
    using sol_funded_needs_more[OF sample_entry_sol] by (simp add: sample_entry_sol)
qed

theorem route_probe_witness: "\<exists>n. routeProbeAmountAtomic NaN (Fin 6) (Fin 1) = Some n \<and> 0 \<le> n"
  using route_probe_total[of NaN "Fin 6" "Fin 1"] by blast

theorem accumulation_witness:
  "summarizeAccumulation AccumulateSol [\<lparr>swap_inputMint = ''A'', swap_amountAtomic = 5,
      swap_outputAtomic = 3, swap_signature = Some ''s''\<rparr>] ''SOL'' =
    Inr \<lparr>acc_destination = AccumulateSol, acc_outputAtomic = 3, acc_txSignatures = [''s'']\<rparr>"
  by (subst accumulation_accounts_all) (simp add: List.map_filter_simps)

end
