(* ===== verification/PositionExits.thy ===== *)
theory PositionExits
  imports DomainTypes
begin

text \<open>
  When an open position must go: the launch lane's four exit rules
  (\<^verbatim>\<open>engine/launch-position.ts\<close>), the age backstop and fee starvation
  (\<^verbatim>\<open>engine/max-position-age.ts\<close>), the loss cap (\<^verbatim>\<open>engine/position-loss-cap.ts\<close>), the
  take-profit ladder with its invalidation stop (\<^verbatim>\<open>engine/tp-ladder.ts\<close>), the hot-window lane
  (\<^verbatim>\<open>engine/hot-window.ts\<close>), the tags of exit reasons (\<^verbatim>\<open>engine/exit-reason.ts\<close>) and the
  accounting of reward claims (\<^verbatim>\<open>engine/rewards.ts\<close>).
\<close>

section \<open>Launch lane\<close>

record LaunchPositionExitInput =
  lx_createdAtMs :: jsnum
  lx_now :: jsnum
  lx_timeboxHours :: jsnum
  lx_volumeDecayExitPct :: jsnum
  lx_drawdownPct :: jsnum
  lx_currentFees1hUsd :: "jsnum option"
  lx_peakFees1hUsd :: "jsnum option"
  lx_currentValueUsd :: jsnum
  lx_peakValueUsd :: "jsnum option"
  lx_feeIlRatio :: "jsnum option"

datatype LaunchExitReason = LaunchTimebox | LaunchVolumeDecay | LaunchDrawdown | LaunchFeeIl

record LaunchPositionExitResult =
  lx_exit :: bool
  lx_reason :: "LaunchExitReason option"

definition HOUR_MS :: jsnum where
  "HOUR_MS = Fin 3600000"

definition isTimeboxExpired :: "jsnum \<Rightarrow> jsnum \<Rightarrow> jsnum \<Rightarrow> bool" where
  "isTimeboxExpired now createdAtMs timeboxHours \<longleftrightarrow>
     jge (jdiv (jsub now createdAtMs) HOUR_MS) timeboxHours"

definition hasVolumeDecayed :: "jsnum option \<Rightarrow> jsnum option \<Rightarrow> jsnum \<Rightarrow> bool" where
  "hasVolumeDecayed peakFees1hUsd currentFees1hUsd volumeDecayExitPct =
     (case (peakFees1hUsd, currentFees1hUsd) of
        (Some peak, Some current) \<Rightarrow>
          if jle peak (Fin 0) then False else jlt current (jmul peak volumeDecayExitPct)
      | _ \<Rightarrow> False)"

definition hasDrawdownHit :: "jsnum \<Rightarrow> jsnum option \<Rightarrow> jsnum \<Rightarrow> bool" where
  "hasDrawdownHit drawdownPct peakValueUsd currentValueUsd =
     (if jle drawdownPct (Fin 0) then False
      else case peakValueUsd of None \<Rightarrow> False
        | Some peak \<Rightarrow> jle currentValueUsd (jmul peak (jsub (Fin 1) drawdownPct)))"

definition isFeeIlBreached :: "jsnum option \<Rightarrow> bool" where
  "isFeeIlBreached feeIlRatio =
     (case feeIlRatio of None \<Rightarrow> False | Some r \<Rightarrow> jlt r (Fin (1 / 2)))"

definition launchPositionExit :: "LaunchPositionExitInput \<Rightarrow> LaunchPositionExitResult" where
  "launchPositionExit inp =
     (if isTimeboxExpired (lx_now inp) (lx_createdAtMs inp) (lx_timeboxHours inp)
        then \<lparr>lx_exit = True, lx_reason = Some LaunchTimebox\<rparr>
      else if hasVolumeDecayed (lx_peakFees1hUsd inp) (lx_currentFees1hUsd inp)
                (lx_volumeDecayExitPct inp)
        then \<lparr>lx_exit = True, lx_reason = Some LaunchVolumeDecay\<rparr>
      else if hasDrawdownHit (lx_drawdownPct inp) (lx_peakValueUsd inp) (lx_currentValueUsd inp)
        then \<lparr>lx_exit = True, lx_reason = Some LaunchDrawdown\<rparr>
      else if isFeeIlBreached (lx_feeIlRatio inp)
        then \<lparr>lx_exit = True, lx_reason = Some LaunchFeeIl\<rparr>
      else \<lparr>lx_exit = False, lx_reason = None\<rparr>)"

section \<open>Age backstop and fee starvation\<close>

record MaxPositionAgeInput =
  age_positionMode :: "PositionMode option"
  age_ageMs :: jsnum
  age_maxAgeMs :: jsnum

definition isMaxPositionAgeBreached :: "MaxPositionAgeInput \<Rightarrow> bool" where
  "isMaxPositionAgeBreached inp =
     (if \<not> is_finite (age_maxAgeMs inp) \<or> jle (age_maxAgeMs inp) (Fin 0) then False
      else if age_positionMode inp = Some LaunchMode then False
      else if \<not> is_finite (age_ageMs inp) then False
      else jge (age_ageMs inp) (age_maxAgeMs inp))"

record FeeStarvationInput =
  fs_ageMs :: jsnum
  fs_cumulativeFeesUsd :: jsnum
  fs_cumulativeRewardsUsd :: jsnum
  fs_starveAgeMs :: jsnum
  fs_starveFeesUsd :: jsnum

definition isFeeStarved :: "FeeStarvationInput \<Rightarrow> bool" where
  "isFeeStarved inp =
     (if \<not> is_finite (fs_starveAgeMs inp) \<or> jle (fs_starveAgeMs inp) (Fin 0) then False
      else if \<not> is_finite (fs_ageMs inp) \<or> jlt (fs_ageMs inp) (fs_starveAgeMs inp) then False
      else
        let earned = jadd
              (if is_finite (fs_cumulativeFeesUsd inp) then fs_cumulativeFeesUsd inp else Fin 0)
              (if is_finite (fs_cumulativeRewardsUsd inp) then fs_cumulativeRewardsUsd inp else Fin 0)
        in jlt earned (fs_starveFeesUsd inp))"

section \<open>Loss cap\<close>

record PositionLossCapInput =
  plc_depositedUsd :: jsnum
  plc_currentValueUsd :: jsnum
  plc_cumulativeFeesClaimedUsd :: jsnum
  plc_cumulativeRewardsClaimedUsd :: jsnum
  plc_maxLossPct :: jsnum

definition finiteNonNeg :: "jsnum \<Rightarrow> bool" where
  "finiteNonNeg n \<longleftrightarrow> is_finite n \<and> jge n (Fin 0)"

definition positionMarkPnlUsd :: "PositionLossCapInput \<Rightarrow> jsnum option" where
  "positionMarkPnlUsd inp =
     (if \<not> finiteNonNeg (plc_depositedUsd inp) \<or> jle (plc_depositedUsd inp) (Fin 0)
         \<or> \<not> is_finite (plc_currentValueUsd inp)
         \<or> \<not> finiteNonNeg (plc_cumulativeFeesClaimedUsd inp)
         \<or> \<not> finiteNonNeg (plc_cumulativeRewardsClaimedUsd inp)
      then None
      else Some (jsub (jadd (jadd (plc_currentValueUsd inp) (plc_cumulativeFeesClaimedUsd inp))
             (plc_cumulativeRewardsClaimedUsd inp)) (plc_depositedUsd inp)))"

definition isPositionLossCapBreached :: "PositionLossCapInput \<Rightarrow> bool" where
  "isPositionLossCapBreached inp =
     (let pct = plc_maxLossPct inp
      in if \<not> is_finite pct \<or> jle pct (Fin 0) then False
         else
           let floorPct = jmin pct (Fin 1)
           in case positionMarkPnlUsd inp of None \<Rightarrow> False
              | Some pnl \<Rightarrow> jle pnl (jneg (jmul (plc_depositedUsd inp) floorPct)))"

section \<open>Take-profit ladder\<close>

record TpRung =
  rung_targetPrice :: jsnum
  rung_fraction :: jsnum

record TpLadder =
  ladder_rungs :: "TpRung list"
  ladder_totalFraction :: jsnum

record TpLadderConfig =
  tpc_rungs :: "jsnum list"
  tpc_fractions :: "jsnum list"
  tpc_invalidationStopPct :: jsnum

text \<open>The comparator \<^verbatim>\<open>(a, b) => a.pct - b.pct\<close> on pairs of a rung and its fraction.\<close>

definition pct_before :: "jsnum \<times> jsnum \<Rightarrow> jsnum \<times> jsnum \<Rightarrow> bool" where
  "pct_before a b \<longleftrightarrow> jlt (jsub (fst a) (fst b)) (Fin 0)"

definition buildTpLadder :: "jsnum \<Rightarrow> TpLadderConfig \<Rightarrow> (TpLadder \<times> jsnum) option" where
  "buildTpLadder entryPrice config =
     (if \<not> is_finite entryPrice \<or> jle entryPrice (Fin 0) then None
      else
        let rungCount = min (length (tpc_rungs config)) (length (tpc_fractions config))
        in if rungCount = 0 then None
           else
             let pairs = sort_before pct_before
                   (zip (take rungCount (tpc_rungs config)) (take rungCount (tpc_fractions config)));
                 rawRungs = map (\<lambda>(pct, fraction).
                   \<lparr>rung_targetPrice = jmul entryPrice (jadd (Fin 1) pct),
                    rung_fraction = fraction\<rparr>) pairs;
                 tot = jsum (map rung_fraction rawRungs);
                 scale = (if jgt tot (Fin 1) then jdiv (Fin 1) tot else Fin 1);
                 rungs = map (\<lambda>r. \<lparr>rung_targetPrice = rung_targetPrice r,
                   rung_fraction = jmul (rung_fraction r) scale\<rparr>) rawRungs;
                 invalidationPrice =
                   jmul entryPrice (jsub (Fin 1) (tpc_invalidationStopPct config));
                 totalFraction = jsum (map rung_fraction rungs)
             in Some (\<lparr>ladder_rungs = rungs, ladder_totalFraction = totalFraction\<rparr>,
                  invalidationPrice))"

datatype TpLadderEvaluation =
    TpNone
  | TpReached TpRung jsnum bool
  | TpInvalidation jsnum

definition evaluateTpLadder :: "jsnum \<Rightarrow> TpLadder \<Rightarrow> jsnum \<Rightarrow> TpLadderEvaluation" where
  "evaluateTpLadder currentPrice ladder invalidationPrice =
     (if \<not> is_finite currentPrice \<or> jle currentPrice (Fin 0) then TpNone
      else if jle currentPrice invalidationPrice then TpInvalidation invalidationPrice
      else case find_index (\<lambda>r. jge currentPrice (rung_targetPrice r)) (ladder_rungs ladder) of
        None \<Rightarrow> TpNone
      | Some reachedIndex \<Rightarrow>
          let rungReached = ladder_rungs ladder ! reachedIndex
          in TpReached rungReached (rung_fraction rungReached)
               (reachedIndex = length (ladder_rungs ladder) - 1))"

section \<open>Hot-window lane\<close>

record HotWindowVolumeSpikeConfig =
  spk_baselineWindow :: jsnum
  spk_spikeRatio :: jsnum
  spk_minPoints :: jsnum
  spk_minVolumeUsd :: jsnum

record HotWindowConfig =
  hot_enabled :: bool
  hot_entrySizeUsd :: jsnum
  hot_maxPoolTvlUsd :: jsnum
  hot_minPoolTvlUsd :: jsnum
  hot_printingRatio1h :: jsnum
  hot_minSharePct :: jsnum
  hot_maxSharePct :: jsnum
  hot_holdMaxMs :: jsnum
  hot_maxTripsPerDay :: jsnum
  hot_dailyLossHaltUsd :: jsnum
  hot_maxOpen :: jsnum
  hot_volumeSpike :: "HotWindowVolumeSpikeConfig option"

record VolumeSpikeResult =
  spike_isSpike :: bool
  spike_ratio :: jsnum

definition detectVolumeSpike ::
  "jsnum list \<Rightarrow> jsnum \<Rightarrow> jsnum \<Rightarrow> jsnum \<Rightarrow> VolumeSpikeResult" where
  "detectVolumeSpike volumes baselineWindow spikeRatio minPoints =
     (let finite = filter (\<lambda>v. is_finite v \<and> jge v (Fin 0)) volumes
      in if jlt (jnat (length finite)) (jadd minPoints (Fin 1))
           then \<lparr>spike_isSpike = False, spike_ratio = Fin 0\<rparr>
         else
           let current = last finite
           in case js_at finite (jsub (jsub (jnat (length finite)) (Fin 1)) baselineWindow) of
                None \<Rightarrow> \<lparr>spike_isSpike = False, spike_ratio = Fin 0\<rparr>
              | Some base \<Rightarrow>
                  if jle base (Fin 0)
                  then (if jgt current (Fin 0)
                        then \<lparr>spike_isSpike = True, spike_ratio = PosInf\<rparr>
                        else \<lparr>spike_isSpike = False, spike_ratio = Fin 0\<rparr>)
                  else let ratio = jdiv current base
                       in \<lparr>spike_isSpike = jge ratio spikeRatio, spike_ratio = ratio\<rparr>)"

record HotWindowEnterInput =
  he_config :: HotWindowConfig
  he_feeTvlRatio1h :: "jsnum option"
  he_tvlUsd :: jsnum
  he_volumeSpike :: "VolumeSpikeResult option"
  he_volume24hUsd :: "jsnum option"

datatype HotRejectReason =
    HotDisabled
  | HotNoMeasuredSignal
  | HotRatioBelowFloor jsnum jsnum
  | HotNonPositive
  | HotTvlBelowMin jsnum jsnum
  | HotTvlAboveCap jsnum jsnum jsnum
  | HotWouldDominate jsnum jsnum jsnum

record HotWindowEnterResult =
  he_qualify :: bool
  he_sizeUsd :: jsnum
  he_rejectReason :: "HotRejectReason option"

definition isKnownRatio :: "jsnum option \<Rightarrow> bool" where
  "isKnownRatio ratio = (case ratio of None \<Rightarrow> False | Some r \<Rightarrow> is_finite r \<and> jge r (Fin 0))"

definition isPrintingNow :: "jsnum option \<Rightarrow> jsnum \<Rightarrow> bool" where
  "isPrintingNow ratio printingRatio1h \<longleftrightarrow>
     isKnownRatio ratio \<and> jge (nullish ratio NaN) printingRatio1h"

definition isVolumeBursting :: "HotWindowEnterInput \<Rightarrow> bool" where
  "isVolumeBursting inp =
     (case hot_volumeSpike (he_config inp) of None \<Rightarrow> False | Some spikeConfig \<Rightarrow>
      (case he_volumeSpike inp of None \<Rightarrow> False | Some spike \<Rightarrow>
        if \<not> spike_isSpike spike then False
        else (case he_volume24hUsd inp of None \<Rightarrow> False | Some v \<Rightarrow>
          if \<not> is_finite v then False else jge v (spk_minVolumeUsd spikeConfig))))"

definition describeMissingSignal :: "HotWindowEnterInput \<Rightarrow> HotRejectReason" where
  "describeMissingSignal inp =
     (if \<not> isKnownRatio (he_feeTvlRatio1h inp) then HotNoMeasuredSignal
      else HotRatioBelowFloor (nullish (he_feeTvlRatio1h inp) NaN)
             (hot_printingRatio1h (he_config inp)))"

definition findDepthRejection :: "HotWindowConfig \<Rightarrow> jsnum \<Rightarrow> HotRejectReason option" where
  "findDepthRejection config tvl =
     (let minShareTvl = jdiv (hot_entrySizeUsd config) (hot_maxSharePct config);
          maxShareTvl = jdiv (hot_entrySizeUsd config) (hot_minSharePct config);
          depthCap = jmin (hot_maxPoolTvlUsd config) maxShareTvl
      in if jlt tvl (hot_minPoolTvlUsd config)
           then Some (HotTvlBelowMin tvl (hot_minPoolTvlUsd config))
         else if jgt tvl depthCap
           then Some (HotTvlAboveCap tvl depthCap (hot_minSharePct config))
         else if jlt tvl minShareTvl
           then Some (HotWouldDominate tvl minShareTvl (hot_maxSharePct config))
         else None)"

definition evaluateHotWindowEnter :: "HotWindowEnterInput \<Rightarrow> HotWindowEnterResult" where
  "evaluateHotWindowEnter inp =
     (let c = he_config inp;
          no = (\<lambda>r. \<lparr>he_qualify = False, he_sizeUsd = Fin 0, he_rejectReason = Some r\<rparr>)
      in if \<not> hot_enabled c then no HotDisabled
         else if \<not> isPrintingNow (he_feeTvlRatio1h inp) (hot_printingRatio1h c)
               \<and> \<not> isVolumeBursting inp
           then no (describeMissingSignal inp)
         else if jle (hot_entrySizeUsd c) (Fin 0) \<or> jle (he_tvlUsd inp) (Fin 0)
           then no HotNonPositive
         else case findDepthRejection c (he_tvlUsd inp) of
           Some r \<Rightarrow> no r
         | None \<Rightarrow> \<lparr>he_qualify = True, he_sizeUsd = hot_entrySizeUsd c, he_rejectReason = None\<rparr>)"

record HotWindowExitInput =
  hx_config :: HotWindowConfig
  hx_ageMs :: jsnum
  hx_outOfRangeSince :: "jsnum option"
  hx_halted :: bool

datatype HotExitReason = HotTimebox | HotOor | HotHalt

record HotWindowExitResult =
  hx_exit :: bool
  hx_reason :: "HotExitReason option"

definition evaluateHotWindowExit :: "HotWindowExitInput \<Rightarrow> HotWindowExitResult" where
  "evaluateHotWindowExit inp =
     (if hx_halted inp then \<lparr>hx_exit = True, hx_reason = Some HotHalt\<rparr>
      else if hx_outOfRangeSince inp \<noteq> None then \<lparr>hx_exit = True, hx_reason = Some HotOor\<rparr>
      else if \<not> is_finite (hx_ageMs inp) \<or> jge (hx_ageMs inp) (hot_holdMaxMs (hx_config inp))
        then \<lparr>hx_exit = True, hx_reason = Some HotTimebox\<rparr>
      else \<lparr>hx_exit = False, hx_reason = None\<rparr>)"

section \<open>Exit reasons\<close>

text \<open>\<^verbatim>\<open>s.trim()\<close> on ASCII text.\<close>

definition is_space :: "char \<Rightarrow> bool" where
  "is_space c = (let n = of_char c :: nat in 9 \<le> n \<and> n \<le> 13 \<or> n = 32)"

definition trim :: "string \<Rightarrow> string" where
  "trim s = rev (dropWhile is_space (rev (dropWhile is_space s)))"

definition strip_open :: "string \<Rightarrow> string" where
  "strip_open s = (case s of c # cs \<Rightarrow> if c = CHR ''['' then cs else s | [] \<Rightarrow> [])"

definition strip_close :: "string \<Rightarrow> string" where
  "strip_close s = (if s \<noteq> [] \<and> last s = CHR '']'' then butlast s else s)"

text \<open>The replacement of \<^verbatim>\<open>/^\[|\]$/g\<close> by nothing.\<close>

definition taggedExitReason :: "string \<Rightarrow> string \<Rightarrow> string" where
  "taggedExitReason tag detail =
     ''['' @ strip_close (strip_open (trim tag)) @ ''] '' @ trim detail"

definition UNTAGGED_EXIT_REASONS :: "(string \<times> string) list" where
  "UNTAGGED_EXIT_REASONS =
     [(''High volatility'', ''volatility''),
      (''Trailing stop'', ''trailing-stop''),
      (''IL dominance'', ''il-dominance''),
      (''TVL dropped'', ''tvl-drop''),
      (''Volume authenticity'', ''volume-authenticity''),
      (''Fee/IL ratio'', ''fee-il''),
      (''Rotation:'', ''rotation''),
      (''W15 fast EXIT'', ''w15'')]"

text \<open>The first match of \<^verbatim>\<open>/\[([^\]]+)\]/\<close>, its group.\<close>

fun bracket_match :: "string \<Rightarrow> string option" where
  "bracket_match [] = None"
| "bracket_match (c # cs) =
     (let inner = takeWhile (\<lambda>x. x \<noteq> CHR '']'') cs; rest = dropWhile (\<lambda>x. x \<noteq> CHR '']'') cs
      in if c = CHR ''['' \<and> inner \<noteq> [] \<and> rest \<noteq> [] then Some inner else bracket_match cs)"

definition starts_with :: "string \<Rightarrow> string \<Rightarrow> bool" where
  "starts_with s p \<longleftrightarrow> take (length p) s = p"

definition exitReasonTag :: "string option \<Rightarrow> string" where
  "exitReasonTag reason =
     (case reason of None \<Rightarrow> ''unknown''
      | Some r \<Rightarrow>
          (case bracket_match r of Some t \<Rightarrow> t
           | None \<Rightarrow>
              (case find_first (\<lambda>(prefix, tag). starts_with r prefix) UNTAGGED_EXIT_REASONS of
                 Some (prefix, tag) \<Rightarrow> tag
               | None \<Rightarrow> ''unknown'')))"

section \<open>Reward claims\<close>

record ClaimedReward =
  rew_mint :: string
  rew_amountAtomic :: jsnum
  rew_amountUsd :: "jsnum option"

record RewardClaimSummary =
  rew_totalUsd :: jsnum
  rew_unpricedCount :: nat
  rew_totalCount :: nat

fun summarizeRewards :: "jsnum \<Rightarrow> nat \<Rightarrow> ClaimedReward list \<Rightarrow> jsnum \<times> nat" where
  "summarizeRewards totalUsd unpriced [] = (totalUsd, unpriced)"
| "summarizeRewards totalUsd unpriced (r # rs) =
     (case rew_amountUsd r of
        Some usd \<Rightarrow> summarizeRewards (jadd totalUsd usd) unpriced rs
      | None \<Rightarrow> summarizeRewards totalUsd (unpriced + 1) rs)"

definition summarizeRewardClaim :: "ClaimedReward list \<Rightarrow> RewardClaimSummary" where
  "summarizeRewardClaim rewards =
     (let (totalUsd, unpriced) = summarizeRewards (Fin 0) 0 rewards
      in \<lparr>rew_totalUsd = totalUsd, rew_unpricedCount = unpriced,
          rew_totalCount = length rewards\<rparr>)"

record RewardClaimMetadata =
  rew_txSignatures :: "string list"
  rew_rewards :: "ClaimedReward list"

definition buildRewardClaimMetadata :: "string list \<Rightarrow> ClaimedReward list \<Rightarrow> RewardClaimMetadata" where
  "buildRewardClaimMetadata txSignatures rewards =
     \<lparr>rew_txSignatures = txSignatures,
      rew_rewards = map (\<lambda>r. \<lparr>rew_mint = rew_mint r, rew_amountAtomic = rew_amountAtomic r,
        rew_amountUsd = rew_amountUsd r\<rparr>) rewards\<rparr>"

section \<open>The launch rules as a chain\<close>

definition launchExitGates :: "(LaunchPositionExitInput \<Rightarrow> LaunchExitReason option) list" where
  "launchExitGates =
     [\<lambda>i. if isTimeboxExpired (lx_now i) (lx_createdAtMs i) (lx_timeboxHours i)
          then Some LaunchTimebox else None,
      \<lambda>i. if hasVolumeDecayed (lx_peakFees1hUsd i) (lx_currentFees1hUsd i) (lx_volumeDecayExitPct i)
          then Some LaunchVolumeDecay else None,
      \<lambda>i. if hasDrawdownHit (lx_drawdownPct i) (lx_peakValueUsd i) (lx_currentValueUsd i)
          then Some LaunchDrawdown else None,
      \<lambda>i. if isFeeIlBreached (lx_feeIlRatio i) then Some LaunchFeeIl else None]"

interpretation launch_exit: gate_chain launchExitGates
  "\<lambda>r. \<lparr>lx_exit = True, lx_reason = Some r\<rparr>" "\<lambda>_. \<lparr>lx_exit = False, lx_reason = None\<rparr>"
  launchPositionExit
  by unfold_locales (auto simp: launchExitGates_def launchPositionExit_def)

section \<open>Lemmas on ladders, tags and rewards\<close>

lemma ladder_rungs_sorted:
  assumes "buildTpLadder entryPrice config = Some (ladder, stop)"
    and "\<forall>p \<in> set (tpc_rungs config). is_finite p \<and> is_double p"
  shows "sorted_wrt jle (map rung_targetPrice (ladder_rungs ladder)) \<and> ladder_rungs ladder \<noteq> []"
proof -
  define n where "n = min (length (tpc_rungs config)) (length (tpc_fractions config))"
  define pairs where "pairs = zip (take n (tpc_rungs config)) (take n (tpc_fractions config))"
  define sp where "sp = sort_before pct_before pairs"
  let ?t = "\<lambda>p. jmul entryPrice (jadd (Fin 1) p)"
  have e: "is_finite entryPrice" "\<not> jle entryPrice (Fin 0)" "n \<noteq> 0"
    using assms(1) by (auto simp: buildTpLadder_def Let_def n_def split: if_splits)
  have targets: "map rung_targetPrice (ladder_rungs ladder) = map (\<lambda>x. ?t (fst x)) sp"
    using assms(1) e
    by (auto simp: buildTpLadder_def Let_def n_def[symmetric] pairs_def[symmetric] sp_def[symmetric]
        split: if_splits)
  have fin: "x \<in> set sp \<Longrightarrow> is_finite (fst x) \<and> is_double (fst x)" for x
  proof -
    assume "x \<in> set sp"
    then have "(fst x, snd x) \<in> set pairs" by (simp add: sp_def)
    then have "fst x \<in> set (tpc_rungs config)"
      unfolding pairs_def by (blast dest: set_zip_leftD in_set_takeD)
    then show ?thesis using assms(2) by blast
  qed
  define key where "key = (\<lambda>x :: jsnum \<times> jsnum. case fst x of Fin a \<Rightarrow> a | _ \<Rightarrow> 0)"
  have key: "fst x = Fin (key x) \<and> is_double (Fin (key x))" if "x \<in> set pairs" for x
    using fin[of x] that by (cases "fst x") (auto simp: key_def sp_def)
  have pb: "pct_before x y \<longleftrightarrow> key x < key y" if "x \<in> set pairs" "y \<in> set pairs" for x y
    using key[OF that(1)] key[OF that(2)] jsub_neg_iff[of "key x" "key y"] by (simp add: pct_before_def)
  have "sorted_wrt (\<lambda>x y. \<not> pct_before y x) sp"
    unfolding sp_def by (rule sorted_sort_before) (simp_all add: pb)
  then have "sorted_wrt (\<lambda>x y. jle (?t (fst x)) (?t (fst y))) sp"
  proof (rule sorted_wrt_mono_rel[rotated])
    fix x y assume xy: "x \<in> set sp" "y \<in> set sp" "\<not> pct_before y x"
    obtain a b z where f: "fst x = Fin a" "fst y = Fin b" "entryPrice = Fin z" "key x = a" "key y = b"
      using key[of x] key[of y] xy(1,2) e(1) by (auto simp: is_finite_iff sp_def)
    have "a \<le> b" using pb[of y x] xy by (simp add: f sp_def)
    then have "jle (fl (1 + a)) (fl (1 + b))" by (intro fl_mono) simp
    then show "jle (?t (fst x)) (?t (fst y))"
      using e(2) f by (cases "fl (1 + a)"; cases "fl (1 + b)")
        (auto simp: signed_inf_def intro!: fl_mono mult_left_mono)
  qed
  moreover have "sp \<noteq> []"
  proof -
    have "length sp = n" by (simp add: sp_def pairs_def n_def)
    then show ?thesis using e(3) by auto
  qed
  moreover have "ladder_rungs ladder \<noteq> []"
    using \<open>sp \<noteq> []\<close> targets by (metis map_is_Nil_conv)
  ultimately show ?thesis by (simp add: targets sorted_wrt_map)
qed

lemma bracket_match_tag:
  assumes "tag \<noteq> []" "CHR '']'' \<notin> set tag"
  shows "bracket_match (''['' @ tag @ CHR '']'' # rest) = Some tag"
proof -
  have "takeWhile (\<lambda>x. x \<noteq> CHR '']'') (tag @ CHR '']'' # rest) = tag"
    "dropWhile (\<lambda>x. x \<noteq> CHR '']'') (tag @ CHR '']'' # rest) = CHR '']'' # rest"
    using assms(2) by (induction tag) auto
  then show ?thesis using assms(1) by simp
qed

lemma trim_id:
  assumes "s = [] \<or> \<not> is_space (hd s) \<and> \<not> is_space (last s)"
  shows "trim s = s"
proof (cases s)
  case (Cons c cs)
  then have "s \<noteq> []" by simp
  then have "dropWhile is_space s = s" "dropWhile is_space (rev s) = rev s"
    using assms hd_rev[of s] by (auto simp: dropWhile_eq_self_iff)
  then show ?thesis by (simp add: trim_def)
qed (simp add: trim_def)

lemma summarizeRewards_eq:
  "summarizeRewards a n rs =
     (foldl jadd a (List.map_filter rew_amountUsd rs),
      n + length (filter (\<lambda>r. rew_amountUsd r = None) rs))"
  by (induction a n rs rule: summarizeRewards.induct)
    (auto simp: List.map_filter_simps split: option.splits)

lemma reward_claim_totals:
  "rew_totalUsd (summarizeRewardClaim rs) = jsum (List.map_filter rew_amountUsd rs)"
  "rew_unpricedCount (summarizeRewardClaim rs) = length (filter (\<lambda>r. rew_amountUsd r = None) rs)"
  by (simp_all add: summarizeRewardClaim_def summarizeRewards_eq jsum_def)

section \<open>Properties of exits\<close>

text \<open>
  C30. The loss cap is monotone: a position whose mark PnL breaches the cap still breaches it when
  its current value is any lower finite value.
\<close>
theorem loss_cap_monotone:
  assumes "isPositionLossCapBreached inp"
    and "is_finite v" "jle v (plc_currentValueUsd inp)"
  shows "isPositionLossCapBreached (inp\<lparr>plc_currentValueUsd := v\<rparr>)"
proof -
  obtain pnl where pnl: "positionMarkPnlUsd inp = Some pnl"
    "jle pnl (jneg (jmul (plc_depositedUsd inp) (jmin (plc_maxLossPct inp) (Fin 1))))"
    and pct: "is_finite (plc_maxLossPct inp)" "\<not> jle (plc_maxLossPct inp) (Fin 0)"
    using assms(1) by (auto simp: isPositionLossCapBreached_def Let_def split: if_splits option.splits)
  let ?pnl = "\<lambda>c. jsub (jadd (jadd c (plc_cumulativeFeesClaimedUsd inp))
      (plc_cumulativeRewardsClaimedUsd inp)) (plc_depositedUsd inp)"
  have h: "is_finite (plc_depositedUsd inp)" "is_finite (plc_currentValueUsd inp)"
    "is_finite (plc_cumulativeFeesClaimedUsd inp)" "is_finite (plc_cumulativeRewardsClaimedUsd inp)"
    "pnl = ?pnl (plc_currentValueUsd inp)"
    and v: "positionMarkPnlUsd (inp\<lparr>plc_currentValueUsd := v\<rparr>) = Some (?pnl v)"
    using pnl(1) assms(2)
    by (auto simp: positionMarkPnlUsd_def finiteNonNeg_def split: if_splits)
  have nn: "jadd c f \<noteq> NaN" if "c \<noteq> NaN" "is_finite f" for c f
    using that by (cases c; cases f) auto
  have "jle (?pnl v) (?pnl (plc_currentValueUsd inp))"
    using assms(3) h(1-4) by (intro jsub_mono_left jadd_mono_left jsub_finite_not_NaN nn) auto
  then have "jle (?pnl v) (jneg (jmul (plc_depositedUsd inp) (jmin (plc_maxLossPct inp) (Fin 1))))"
    using pnl(2) h(5) by (auto intro: jle_trans)
  then show ?thesis using v pct by (simp add: isPositionLossCapBreached_def Let_def)
qed

text \<open>
  The launch timebox is irrevocable: once a launch position is told to exit by its timebox,
  it is told so at every later time, whatever its fees, value or fee/IL data become.
\<close>
theorem launch_timebox_irrevocable:
  assumes "lx_reason (launchPositionExit inp) = Some LaunchTimebox"
    and "lx_createdAtMs later = lx_createdAtMs inp" "lx_timeboxHours later = lx_timeboxHours inp"
    and "jle (lx_now inp) (lx_now later)" "is_finite (lx_createdAtMs inp)"
  shows "launchPositionExit later = \<lparr>lx_exit = True, lx_reason = Some LaunchTimebox\<rparr>"
proof -
  have t: "jge (jdiv (jsub (lx_now inp) (lx_createdAtMs inp)) HOUR_MS) (lx_timeboxHours inp)"
    using assms(1) by (auto simp: launchPositionExit_def isTimeboxExpired_def split: if_splits)
  have "jle (jsub (lx_now inp) (lx_createdAtMs inp)) (jsub (lx_now later) (lx_createdAtMs inp))"
    using assms(4,5) jle_not_NaN by (intro jsub_mono_left jsub_finite_not_NaN) blast+
  then have "jle (jdiv (jsub (lx_now inp) (lx_createdAtMs inp)) HOUR_MS)
      (jdiv (jsub (lx_now later) (lx_createdAtMs inp)) HOUR_MS)"
    by (rule jdiv_mono_left) (simp_all add: HOUR_MS_def)
  then have "isTimeboxExpired (lx_now later) (lx_createdAtMs later) (lx_timeboxHours later)"
    using t assms(2,3) by (auto simp: isTimeboxExpired_def intro: jle_trans)
  then show ?thesis by (simp add: launchPositionExit_def)
qed

text \<open>
  A launch position stays open exactly when none of the four rules fires, and with unknown
  fees, peak value and fee/IL ratio the timebox alone decides.
\<close>
theorem launch_exit_rules:
  shows "(\<not> lx_exit (launchPositionExit inp) \<longleftrightarrow> (\<forall>g \<in> set launchExitGates. g inp = None)) \<and>
    lx_exit (launchPositionExit (inp\<lparr>lx_currentFees1hUsd := None, lx_peakValueUsd := None,
        lx_feeIlRatio := None\<rparr>)) =
      isTimeboxExpired (lx_now inp) (lx_createdAtMs inp) (lx_timeboxHours inp)"
proof -
  have "lx_exit (launchPositionExit i) \<longleftrightarrow> launchPositionExit i \<noteq> \<lparr>lx_exit = False, lx_reason = None\<rparr>" for i
    by (simp add: launchPositionExit_def)
  then have "\<not> lx_exit (launchPositionExit inp) \<longleftrightarrow> (\<forall>g \<in> set launchExitGates. g inp = None)"
    using launch_exit.decide_passed_iff[of inp] by simp
  then show ?thesis
    by (auto simp: launchPositionExit_def hasVolumeDecayed_def hasDrawdownHit_def
        isFeeIlBreached_def split: option.splits)
qed

text \<open>
  The take-profit ladder is climbed from below: its targets ascend, so a reached price always
  reports the lowest rung, above the invalidation stop; the ladder is reported complete only when
  that rung is its only one.
\<close>
theorem ladder_reaches_lowest_rung:
  assumes "buildTpLadder entryPrice config = Some (ladder, stop)"
    and "\<forall>p \<in> set (tpc_rungs config). is_finite p \<and> is_double p"
    and "evaluateTpLadder price ladder stop = TpReached r fraction last_rung"
  shows "r = hd (ladder_rungs ladder) \<and> fraction = rung_fraction r \<and>
    jle (rung_targetPrice r) price \<and> \<not> jle price stop \<and>
    (\<forall>q \<in> set (ladder_rungs ladder). jle (rung_targetPrice r) (rung_targetPrice q)) \<and>
    (last_rung \<longleftrightarrow> length (ladder_rungs ladder) = 1)"
proof -
  let ?rs = "ladder_rungs ladder"
  have sorted: "sorted_wrt jle (map rung_targetPrice ?rs)" and ne: "?rs \<noteq> []"
    using ladder_rungs_sorted[OF assms(1,2)] by auto
  obtain i where i: "find_index (\<lambda>r. jge price (rung_targetPrice r)) ?rs = Some i"
    and r: "r = ?rs ! i" "fraction = rung_fraction r" "last_rung = (i = length ?rs - 1)"
    and stop: "\<not> jle price stop"
    using assms(3) by (auto simp: evaluateTpLadder_def Let_def split: if_splits option.splits)
  from i have i': "i < length ?rs" "jge price (rung_targetPrice (?rs ! i))"
    "\<forall>j < i. \<not> jge price (rung_targetPrice (?rs ! j))" by (auto simp: find_index_Some_iff)
  have "i = 0"
  proof (rule ccontr)
    assume "i \<noteq> 0"
    then have "jle (rung_targetPrice (?rs ! 0)) (rung_targetPrice (?rs ! i))"
      using sorted_wrt_nth_less[OF sorted[unfolded sorted_wrt_map], of 0 i] i'(1) by simp
    then have "jge price (rung_targetPrice (?rs ! 0))" using i'(2) by (rule jle_trans)
    then show False using i'(3) \<open>i \<noteq> 0\<close> by simp
  qed
  moreover have "\<forall>q \<in> set ?rs. jle (rung_targetPrice (hd ?rs)) (rung_targetPrice q)"
    using sorted ne i'(2) \<open>i = 0\<close> by (cases ?rs) (auto dest: jle_not_NaN)
  moreover have "0 = length ?rs - 1 \<longleftrightarrow> length ?rs = 1" using ne by (cases ?rs) auto
  ultimately show ?thesis using r stop i'(2) ne by (simp add: hd_conv_nth)
qed

text \<open>
  A pool that qualifies for a hot-window entry prints fees or bursts in volume now, and its
  depth keeps the entry's share of the pool between the configured minimum and maximum.
\<close>
theorem hot_window_share_bounds:
  assumes "he_qualify (evaluateHotWindowEnter inp)"
    and "hot_minPoolTvlUsd (he_config inp) \<noteq> NaN" "hot_maxPoolTvlUsd (he_config inp) \<noteq> NaN"
    and "is_finite (hot_minSharePct (he_config inp))" "jlt (Fin 0) (hot_minSharePct (he_config inp))"
    and "is_finite (hot_maxSharePct (he_config inp))" "jlt (Fin 0) (hot_maxSharePct (he_config inp))"
    and "hot_entrySizeUsd (he_config inp) \<noteq> NaN" "he_tvlUsd inp \<noteq> NaN"
  shows "let c = he_config inp; size_usd = he_sizeUsd (evaluateHotWindowEnter inp) in
    hot_enabled c \<and> size_usd = hot_entrySizeUsd c \<and> jlt (Fin 0) size_usd \<and>
    (isPrintingNow (he_feeTvlRatio1h inp) (hot_printingRatio1h c) \<or> isVolumeBursting inp) \<and>
    jle (hot_minPoolTvlUsd c) (he_tvlUsd inp) \<and> jle (he_tvlUsd inp) (hot_maxPoolTvlUsd c) \<and>
    jle (jdiv size_usd (hot_maxSharePct c)) (he_tvlUsd inp) \<and>
    jle (he_tvlUsd inp) (jdiv size_usd (hot_minSharePct c))"
proof -
  let ?c = "he_config inp"
  have q: "hot_enabled ?c" "he_sizeUsd (evaluateHotWindowEnter inp) = hot_entrySizeUsd ?c"
    "\<not> jle (hot_entrySizeUsd ?c) (Fin 0)" "findDepthRejection ?c (he_tvlUsd inp) = None"
    "isPrintingNow (he_feeTvlRatio1h inp) (hot_printingRatio1h ?c) \<or> isVolumeBursting inp"
    using assms(1) by (auto simp: evaluateHotWindowEnter_def Let_def split: if_splits option.splits)
  have nn: "jdiv (hot_entrySizeUsd ?c) (hot_maxSharePct ?c) \<noteq> NaN"
    "jdiv (hot_entrySizeUsd ?c) (hot_minSharePct ?c) \<noteq> NaN"
    using assms(4-8) by (simp_all only: jdiv_finite_pos_not_NaN not_False_eq_True)
  have d: "\<not> jlt (he_tvlUsd inp) (hot_minPoolTvlUsd ?c)"
    "\<not> jlt (jmin (hot_maxPoolTvlUsd ?c) (jdiv (hot_entrySizeUsd ?c) (hot_minSharePct ?c))) (he_tvlUsd inp)"
    "\<not> jlt (he_tvlUsd inp) (jdiv (hot_entrySizeUsd ?c) (hot_maxSharePct ?c))"
    using q(4) by (auto simp: findDepthRejection_def Let_def split: if_splits)
  then have "jle (he_tvlUsd inp)
      (jmin (hot_maxPoolTvlUsd ?c) (jdiv (hot_entrySizeUsd ?c) (hot_minSharePct ?c)))"
    using assms(3,9) nn by (simp add: not_jlt_iff)
  then have "jle (he_tvlUsd inp) (hot_maxPoolTvlUsd ?c)"
    "jle (he_tvlUsd inp) (jdiv (hot_entrySizeUsd ?c) (hot_minSharePct ?c))"
    by (simp_all add: jle_jmin_iff)
  moreover have "jle (hot_minPoolTvlUsd ?c) (he_tvlUsd inp)"
    "jle (jdiv (hot_entrySizeUsd ?c) (hot_maxSharePct ?c)) (he_tvlUsd inp)"
    using d(1,3) assms(2,9) nn(1) by (simp_all add: not_jlt_iff)
  moreover have "jlt (Fin 0) (hot_entrySizeUsd ?c)" using q(3) assms(8) by (simp add: not_jle_iff)
  ultimately show ?thesis using q by (simp add: Let_def)
qed

text \<open>
  A hot-window position is held only while it is in range, not halted, and provably younger
  than the timebox: an age that is not a finite number forces the exit.
\<close>
theorem hot_window_hold_iff:
  assumes "hot_holdMaxMs (hx_config inp) \<noteq> NaN"
  shows "\<not> hx_exit (evaluateHotWindowExit inp) \<longleftrightarrow>
    \<not> hx_halted inp \<and> hx_outOfRangeSince inp = None \<and> is_finite (hx_ageMs inp) \<and>
    jlt (hx_ageMs inp) (hot_holdMaxMs (hx_config inp))"
  using assms not_jle_iff[of "hot_holdMaxMs (hx_config inp)" "hx_ageMs inp"]
  by (cases "hx_ageMs inp") (auto simp: evaluateHotWindowExit_def dest: jlt_asym)

text \<open>
  Tags survive the round trip through a reason text: the tag of a tagged exit reason is the
  tag it was built with, for every tag that is not empty, has no brackets and no outer spaces.
\<close>
theorem exit_tag_roundtrip:
  assumes "tag \<noteq> []" "CHR '']'' \<notin> set tag" "hd tag \<noteq> CHR ''[''"
    and "\<not> is_space (hd tag)" "\<not> is_space (last tag)"
  shows "exitReasonTag (Some (taggedExitReason tag detail)) = tag"
proof -
  have "last tag \<noteq> CHR '']''" using assms(1,2) last_in_set by metis
  then have "strip_close (strip_open (trim tag)) = tag"
    using assms by (cases tag) (simp_all add: trim_id strip_open_def strip_close_def)
  then have "taggedExitReason tag detail = ''['' @ tag @ CHR '']'' # CHR '' '' # trim detail"
    by (simp add: taggedExitReason_def)
  then show ?thesis
    using bracket_match_tag[OF assms(1,2), of "CHR '' '' # trim detail"]
    by (simp only: exitReasonTag_def option.case)
qed

text \<open>
  The fractions of a ladder may sum to more than one: renormalising three dyadic fractions by the
  rounded reciprocal of their sum gives a total one unit in the last place above one.
\<close>
lemma ladder_total_exceeds_one:
  "jlt (Fin 1) (ladder_totalFraction (fst (the (buildTpLadder (Fin 1)
     \<lparr>tpc_rungs = [Fin (1 / 8), Fin (1 / 4), Fin (1 / 2)],
      tpc_fractions = [Fin (1 / 4), Fin (7 / 8), Fin (1 / 8)], tpc_invalidationStopPct = Fin (1 / 4)\<rparr>))))"
proof -
  define s :: rat where "s = 3602879701896397 / 4503599627370496"
  have s: "fl (4 / 5) = Fin s" unfolding s_def by code_simp
  have f: "fl (s / 4) = Fin (s / 4)" "fl (7 * s / 8) = Fin (6305039478318695 / 9007199254740992)"
    "fl (s / 8) = Fin (s / 8)" unfolding s_def by code_simp+
  define u :: rat where "u = 4053239664633447 / 4503599627370496"
  have t: "fl (s / 4 + 6305039478318695 / 9007199254740992) = Fin u"
    "fl (u + s / 8) = Fin (4503599627370497 / 4503599627370496)" unfolding s_def u_def by code_simp+
  show ?thesis
    by (simp add: buildTpLadder_def pct_before_def jsub_def jsum_def num_simps Let_def s f t)
qed

section \<open>Exit witnesses\<close>

definition sampleLossCap :: PositionLossCapInput where
  "sampleLossCap = \<lparr>plc_depositedUsd = Fin 100, plc_currentValueUsd = Fin 70,
     plc_cumulativeFeesClaimedUsd = Fin 1, plc_cumulativeRewardsClaimedUsd = Fin 0,
     plc_maxLossPct = Fin (1 / 4)\<rparr>"

theorem loss_cap_witness: "isPositionLossCapBreached (sampleLossCap\<lparr>plc_currentValueUsd := Fin 60\<rparr>)"
proof (rule loss_cap_monotone)
  show "isPositionLossCapBreached sampleLossCap"
    by (simp add: sampleLossCap_def isPositionLossCapBreached_def positionMarkPnlUsd_def
        finiteNonNeg_def jsub_def num_simps Let_def)
qed (simp_all add: sampleLossCap_def)

definition sampleLaunch :: LaunchPositionExitInput where
  "sampleLaunch = \<lparr>lx_createdAtMs = Fin 0, lx_now = Fin 7200000, lx_timeboxHours = Fin 2,
     lx_volumeDecayExitPct = Fin (1 / 2), lx_drawdownPct = Fin (1 / 4), lx_currentFees1hUsd = None,
     lx_peakFees1hUsd = None, lx_currentValueUsd = Fin 10, lx_peakValueUsd = None,
     lx_feeIlRatio = None\<rparr>"

theorem launch_timebox_witness:
  "lx_exit (launchPositionExit (sampleLaunch\<lparr>lx_now := Fin 9000000, lx_feeIlRatio := Some (Fin 3)\<rparr>))"
proof -
  have "launchPositionExit (sampleLaunch\<lparr>lx_now := Fin 9000000, lx_feeIlRatio := Some (Fin 3)\<rparr>) =
      \<lparr>lx_exit = True, lx_reason = Some LaunchTimebox\<rparr>"
  proof (rule launch_timebox_irrevocable[where inp = sampleLaunch])
    show "lx_reason (launchPositionExit sampleLaunch) = Some LaunchTimebox" by code_simp
  qed (simp_all add: sampleLaunch_def)
  then show ?thesis by simp
qed

theorem launch_exit_rules_witness:
  "\<forall>g \<in> set launchExitGates. g (sampleLaunch\<lparr>lx_now := Fin 60000\<rparr>) = None"
proof -
  have "\<not> lx_exit (launchPositionExit (sampleLaunch\<lparr>lx_now := Fin 60000\<rparr>))" by code_simp
  then show ?thesis using launch_exit_rules[of "sampleLaunch\<lparr>lx_now := Fin 60000\<rparr>"] by blast
qed

definition sampleLadderConfig :: TpLadderConfig where
  "sampleLadderConfig = \<lparr>tpc_rungs = [Fin (1 / 2), Fin (1 / 4)],
     tpc_fractions = [Fin (1 / 4), Fin (1 / 2)], tpc_invalidationStopPct = Fin (1 / 4)\<rparr>"

definition sampleLadder :: TpLadder where
  "sampleLadder = \<lparr>ladder_rungs = [\<lparr>rung_targetPrice = Fin 5, rung_fraction = Fin (1 / 2)\<rparr>,
     \<lparr>rung_targetPrice = Fin 6, rung_fraction = Fin (1 / 4)\<rparr>], ladder_totalFraction = Fin (3 / 4)\<rparr>"

theorem ladder_lowest_rung_witness: "jle (Fin 5) (Fin 7) \<and> \<not> jle (Fin 7) (Fin 3)"
proof -
  have b: "buildTpLadder (Fin 4) sampleLadderConfig = Some (sampleLadder, Fin 3)" by code_simp
  have e: "evaluateTpLadder (Fin 7) sampleLadder (Fin 3) =
      TpReached \<lparr>rung_targetPrice = Fin 5, rung_fraction = Fin (1 / 2)\<rparr> (Fin (1 / 2)) False"
    by code_simp
  have "\<forall>p \<in> set (tpc_rungs sampleLadderConfig). is_finite p \<and> is_double p"
    by (simp add: sampleLadderConfig_def num_simps)
  from ladder_reaches_lowest_rung[OF b this e] show ?thesis by simp
qed

definition sampleHotConfig :: HotWindowConfig where
  "sampleHotConfig = \<lparr>hot_enabled = True, hot_entrySizeUsd = Fin 64, hot_maxPoolTvlUsd = Fin 10000,
     hot_minPoolTvlUsd = Fin 500, hot_printingRatio1h = Fin 1, hot_minSharePct = Fin (1 / 64),
     hot_maxSharePct = Fin (1 / 8), hot_holdMaxMs = Fin 600000, hot_maxTripsPerDay = Fin 5,
     hot_dailyLossHaltUsd = Fin (- 20), hot_maxOpen = Fin 2, hot_volumeSpike = None\<rparr>"

definition sampleHotEnter :: HotWindowEnterInput where
  "sampleHotEnter = \<lparr>he_config = sampleHotConfig, he_feeTvlRatio1h = Some (Fin 2),
     he_tvlUsd = Fin 2000, he_volumeSpike = None, he_volume24hUsd = None\<rparr>"

theorem hot_window_share_witness: "jle (jdiv (Fin 64) (Fin (1 / 8))) (Fin 2000)"
proof -
  have q: "he_qualify (evaluateHotWindowEnter sampleHotEnter)" by code_simp
  have "he_sizeUsd (evaluateHotWindowEnter sampleHotEnter) = Fin 64" by code_simp
  then show ?thesis
    using hot_window_share_bounds[OF q] by (simp add: sampleHotEnter_def sampleHotConfig_def Let_def)
qed

theorem hot_window_hold_witness:
  "hx_exit (evaluateHotWindowExit
     \<lparr>hx_config = sampleHotConfig, hx_ageMs = NaN, hx_outOfRangeSince = None, hx_halted = False\<rparr>)"
  using hot_window_hold_iff[of "\<lparr>hx_config = sampleHotConfig, hx_ageMs = NaN,
      hx_outOfRangeSince = None, hx_halted = False\<rparr>"]
  by (simp add: sampleHotConfig_def)

theorem exit_tag_witness: "exitReasonTag (Some (taggedExitReason ''w15'' '' fast '')) = ''w15''"
  by (rule exit_tag_roundtrip) (simp_all add: is_space_def)

end
