(* ===== verification/EntryBreakers.thy ===== *)
theory EntryBreakers
  imports DomainTypes
begin

text \<open>
  What pauses new capital without touching open positions: the rolling realized-loss halt
  (\<^verbatim>\<open>engine/pnl-halt.ts\<close>), the per-pool kill switch (\<^verbatim>\<open>engine/pool-pnl-kill-switch.ts\<close>), the daily
  churn cap (\<^verbatim>\<open>engine/churn-guard.ts\<close>) and the cooldown after an exit (\<^verbatim>\<open>engine/cooldown.ts\<close>).
\<close>

section \<open>Rolling realized-loss halt\<close>

text \<open>The known values: neither null nor undefined, and finite.\<close>

fun known_values :: "jsnum option list \<Rightarrow> jsnum list" where
  "known_values [] = []"
| "known_values (v # vs) =
     (case v of None \<Rightarrow> known_values vs
      | Some x \<Rightarrow> if is_finite x then x # known_values vs else known_values vs)"

definition rollingRealizedPnlHalted :: "jsnum option list \<Rightarrow> jsnum \<Rightarrow> jsnum \<Rightarrow> bool" where
  "rollingRealizedPnlHalted realizedValues window thresholdUsd =
     (let w = jmax (Fin 1) (jfloor window);
          recent = js_take w realizedValues;
          known = known_values recent
      in if known = [] then False else jlt (jsum known) thresholdUsd)"

section \<open>Pool kill switch\<close>

record PoolPnlObservation =
  obs_positionId :: string
  obs_poolAddress :: string
  obs_realizedPnlUsd :: "jsnum option"

record PoolPnlKillSwitchConfig =
  kill_minClosedPositions :: jsnum
  kill_thresholdUsd :: jsnum

record PoolPnlKillSwitchTrip =
  trip_poolAddress :: string
  trip_positionIds :: "string list"
  trip_realizedPnlUsd :: jsnum

text \<open>
  The \<^verbatim>\<open>Map\<close> from pools to their observations: entries in insertion order, an existing key keeps
  its place.
\<close>

fun group_push :: "PoolPnlObservation \<Rightarrow> (string \<times> PoolPnlObservation list) list
    \<Rightarrow> (string \<times> PoolPnlObservation list) list" where
  "group_push ob [] = [(obs_poolAddress ob, [ob])]"
| "group_push ob ((k, l) # m) =
     (if k = obs_poolAddress ob then (k, l @ [ob]) # m else (k, l) # group_push ob m)"

definition groupByPool :: "PoolPnlObservation list \<Rightarrow> (string \<times> PoolPnlObservation list) list" where
  "groupByPool observations = foldl (\<lambda>m ob. group_push ob m) [] observations"

definition is_known :: "PoolPnlObservation \<Rightarrow> bool" where
  "is_known ob = (case obs_realizedPnlUsd ob of None \<Rightarrow> False | Some x \<Rightarrow> is_finite x)"

definition poolTrip ::
  "PoolPnlKillSwitchConfig \<Rightarrow> string \<times> PoolPnlObservation list \<Rightarrow> PoolPnlKillSwitchTrip option" where
  "poolTrip config entry =
     (let (poolAddress, poolObservations) = entry;
          minClosedPositions = jmax (Fin 1) (jfloor (kill_minClosedPositions config));
          known = filter is_known poolObservations
      in if jlt (jnat (length known)) minClosedPositions then None
         else
           let trailing = js_take minClosedPositions known;
               realizedPnlUsd = jsum (map (\<lambda>ob. nullish (obs_realizedPnlUsd ob) NaN) trailing)
           in if jlt realizedPnlUsd (kill_thresholdUsd config)
              then Some \<lparr>trip_poolAddress = poolAddress,
                     trip_positionIds = map obs_positionId trailing,
                     trip_realizedPnlUsd = realizedPnlUsd\<rparr>
              else None)"

definition findPoolPnlKillSwitchTrips ::
  "PoolPnlObservation list \<Rightarrow> PoolPnlKillSwitchConfig \<Rightarrow> PoolPnlKillSwitchTrip list" where
  "findPoolPnlKillSwitchTrips observations config =
     List.map_filter (poolTrip config) (groupByPool observations)"

section \<open>Daily churn cap\<close>

definition DAY_MS :: jsnum where
  "DAY_MS = Fin 86400000"

record ChurnEntry =
  churn_openedAt :: jsnum
  churn_closed :: bool

definition countEntriesOnUtcDay :: "ChurnEntry list \<Rightarrow> jsnum \<Rightarrow> nat" where
  "countEntriesOnUtcDay entries dayStartUtcMs =
     (let dayEnd = jadd dayStartUtcMs DAY_MS
      in length (filter (\<lambda>e. jge (churn_openedAt e) dayStartUtcMs \<and> jlt (churn_openedAt e) dayEnd)
           entries))"

definition utcDayStart :: "jsnum \<Rightarrow> jsnum" where
  "utcDayStart nowMs = jmul (jfloor (jdiv nowMs DAY_MS)) DAY_MS"

record ChurnGuardVerdict =
  churn_blocked :: bool
  churn_todayCount :: nat

definition evaluateChurnGuard :: "ChurnEntry list \<Rightarrow> jsnum \<Rightarrow> jsnum \<Rightarrow> ChurnGuardVerdict" where
  "evaluateChurnGuard history maxEntriesPerPoolPerDay nowMs =
     (if jle maxEntriesPerPoolPerDay (Fin 0)
      then \<lparr>churn_blocked = False, churn_todayCount = 0\<rparr>
      else let todayCount = countEntriesOnUtcDay history (utcDayStart nowMs)
           in \<lparr>churn_blocked = jge (jnat todayCount) maxEntriesPerPoolPerDay,
               churn_todayCount = todayCount\<rparr>)"

section \<open>Cooldown after an exit\<close>

datatype ExitCooldownTrigger = CooldownOor | CooldownLowYield

record ExitCooldownConfig =
  cool_oorCooldownMs :: jsnum
  cool_repeatOorCooldownMs :: jsnum
  cool_maxOorCooldownExits :: jsnum
  cool_feeDensityCooldowns :: bool
  cool_feeDensityCooldownMinMs :: jsnum
  cool_feeDensityHighPct :: jsnum
  cool_feeDensityLowPct :: jsnum

record ExitCooldownRequest =
  cool_trigger :: ExitCooldownTrigger
  cool_consecutiveOorExits :: jsnum
  cool_config :: ExitCooldownConfig
  cool_feeDensityPerDay :: "jsnum option"

definition interpolatedCooldown :: "ExitCooldownConfig \<Rightarrow> jsnum \<Rightarrow> jsnum" where
  "interpolatedCooldown config density =
     (let highPct = cool_feeDensityHighPct config; lowPct = cool_feeDensityLowPct config;
          floorMs = cool_feeDensityCooldownMinMs config; ceilingMs = cool_oorCooldownMs config
      in if jge density highPct then floorMs
         else if jle density lowPct then ceilingMs
         else
           let t = jdiv (jsub density lowPct) (jsub highPct lowPct);
               interpolated = jsub ceilingMs (jmul t (jsub ceilingMs floorMs))
           in jmin ceilingMs (jmax floorMs interpolated))"

definition computeLowYieldCooldownMs :: "ExitCooldownConfig \<Rightarrow> jsnum option \<Rightarrow> jsnum" where
  "computeLowYieldCooldownMs config feeDensityPerDay =
     (let staticMs = cool_oorCooldownMs config
      in if \<not> cool_feeDensityCooldowns config then staticMs
         else case feeDensityPerDay of None \<Rightarrow> staticMs
         | Some density \<Rightarrow>
             if \<not> is_finite density then staticMs
             else if \<not> jgt (cool_feeDensityHighPct config) (cool_feeDensityLowPct config) then staticMs
             else if \<not> jlt (cool_feeDensityCooldownMinMs config) staticMs then staticMs
             else interpolatedCooldown config density)"

definition computeCooldownForExit :: "ExitCooldownRequest \<Rightarrow> jsnum" where
  "computeCooldownForExit request =
     (case cool_trigger request of
        CooldownOor \<Rightarrow>
          if jge (jadd (cool_consecutiveOorExits request) (Fin 1))
               (cool_maxOorCooldownExits (cool_config request))
          then cool_repeatOorCooldownMs (cool_config request)
          else cool_oorCooldownMs (cool_config request)
      | CooldownLowYield \<Rightarrow>
          computeLowYieldCooldownMs (cool_config request) (cool_feeDensityPerDay request))"

section \<open>Lemmas\<close>

text \<open>A history is at least as bad as another: the same values unknown, no known one better.\<close>

definition no_better :: "jsnum option \<Rightarrow> jsnum option \<Rightarrow> bool" where
  "no_better b a \<longleftrightarrow> b = a \<or>
     (\<exists>x y. a = Some x \<and> b = Some y \<and> is_finite x \<and> is_finite y \<and> jle y x)"

lemma js_take_list_all2: "list_all2 P xs ys \<Longrightarrow> list_all2 P (js_take n xs) (js_take n ys)"
  by (auto simp: js_take_def list_all2_lengthD split: jsnum.split)

lemma known_values_no_better:
  "list_all2 no_better bs as \<Longrightarrow>
     list_all2 (\<lambda>x y. jle x y \<and> is_finite x \<and> is_finite y) (known_values bs) (known_values as)"
proof (induction rule: list_all2_induct)
  case (Cons b bs a as)
  then show ?case
    by (cases a; cases b) (auto simp: no_better_def is_finite_iff)
qed simp

lemma known_values_finite: "x \<in> set (known_values vs) \<Longrightarrow> is_finite x"
  by (induction vs) (auto split: option.splits if_splits)

lemma group_push_keys:
  "map fst (group_push ob m) =
     (if obs_poolAddress ob \<in> set (map fst m) then map fst m else map fst m @ [obs_poolAddress ob])"
  by (induction ob m rule: group_push.induct) auto

lemma group_push_in:
  "distinct (map fst m) \<Longrightarrow> (k, l) \<in> set (group_push ob m) \<longleftrightarrow>
     (if k = obs_poolAddress ob
      then (\<exists>l'. (k, l') \<in> set m \<and> l = l' @ [ob]) \<or> (k \<notin> fst ` set m \<and> l = [ob])
      else (k, l) \<in> set m)"
  by (induction ob m rule: group_push.induct) (auto simp: image_iff, force+)

text \<open>Grouping collects, per pool and in their order, exactly the pool's observations.\<close>

lemma groupByPool_spec:
  "distinct (map fst (groupByPool obs)) \<and>
   (\<forall>k l. (k, l) \<in> set (groupByPool obs) \<longleftrightarrow>
      l = filter (\<lambda>ob. obs_poolAddress ob = k) obs \<and> l \<noteq> [])"
proof (induction obs rule: rev_induct)
  case (snoc ob obs)
  let ?m = "groupByPool obs"
  have g: "groupByPool (obs @ [ob]) = group_push ob ?m" by (simp add: groupByPool_def)
  have d: "distinct (map fst ?m)" and s: "\<And>k l. (k, l) \<in> set ?m \<longleftrightarrow>
      l = filter (\<lambda>ob. obs_poolAddress ob = k) obs \<and> l \<noteq> []" using snoc by auto
  have keys: "k \<in> fst ` set ?m \<longleftrightarrow> filter (\<lambda>ob. obs_poolAddress ob = k) obs \<noteq> []" for k
  proof -
    have "k \<in> fst ` set ?m \<longleftrightarrow> (\<exists>l. (k, l) \<in> set ?m)" by (simp add: image_iff Bex_def)
    then show ?thesis by (simp add: s)
  qed
  have "(k, l) \<in> set (group_push ob ?m) \<longleftrightarrow>
      l = filter (\<lambda>ob. obs_poolAddress ob = k) (obs @ [ob]) \<and> l \<noteq> []" for k l
  proof (cases "k = obs_poolAddress ob")
    case True
    show ?thesis
      unfolding group_push_in[OF d] keys s using True
      by (cases "filter (\<lambda>ob. obs_poolAddress ob = k) obs") auto
  next
    case False
    then show ?thesis unfolding group_push_in[OF d] s by simp
  qed
  moreover have "distinct (map fst (group_push ob ?m))" using d by (simp add: group_push_keys)
  ultimately show ?case unfolding g by blast
qed (simp add: groupByPool_def)

lemma poolTrip_address: "poolTrip config (k, l) = Some t \<Longrightarrow> trip_poolAddress t = k"
  by (auto simp: poolTrip_def Let_def split: if_splits)

lemma map_filter_in: "y \<in> set (List.map_filter f xs) \<longleftrightarrow> (\<exists>x \<in> set xs. f x = Some y)"
  by (induction xs) (auto simp: List.map_filter_simps split: option.splits)

text \<open>The UTC day of a timestamp is exact: neither the quotient nor the product rounds.\<close>

lemma utcDayStart_exact:
  assumes "n \<le> 5000000000000000"
  shows "utcDayStart (jnat n) = jnat (n div 86400000 * 86400000)"
proof -
  define q where "q = n div 86400000"
  have q: "q * 86400000 \<le> n" "n < (q + 1) * 86400000"
    by (simp_all add: q_def mult.commute)
  have qmax: "q + 1 \<le> 67108864" using q(1) assms by simp
  define y :: rat where "y = of_nat (q + 1) - pow2 (- 27)"
  have "y = of_int (int (q + 1) * 2 ^ 27 - 1) * pow2 (- 27)"
    by (simp add: y_def pow2_def field_simps)
  moreover have "\<bar>int (q + 1) * 2 ^ 27 - 1\<bar> \<le> 2 ^ 53" using qmax by simp
  ultimately have ry: "rnd64 y = y" using rnd64_exact[of "int (q + 1) * 2 ^ 27 - 1" "- 27"] by simp
  have rq: "rnd64 (of_nat q) = of_nat q"
    using rnd64_exact[of "int q" 0] qmax by (simp add: pow2_def)
  have "(of_nat (q * 86400000) :: rat) \<le> of_nat n" using q(1) by (simp only: of_nat_le_iff)
  then have "of_nat q * (86400000 :: rat) \<le> of_nat n" by simp
  then have lo: "of_nat q \<le> (of_nat n / 86400000 :: rat)" by (simp add: pos_le_divide_eq)
  have "n + 1 \<le> (q + 1) * 86400000" using q(2) by simp
  then have "(of_nat (n + 1) :: rat) \<le> of_nat ((q + 1) * 86400000)" by (simp only: of_nat_le_iff)
  then have "(of_nat n :: rat) \<le> (of_nat q + 1) * 86400000 - 1" by simp
  then have "(of_nat n / 86400000 :: rat) \<le> of_nat q + 1 - 1 / 86400000"
    by (simp add: pos_divide_le_eq left_diff_distrib)
  also have "\<dots> \<le> y" by (simp add: y_def pow2_def)
  finally have hi: "(of_nat n / 86400000 :: rat) \<le> y" .
  define r where "r = rnd64 (of_nat n / 86400000)"
  have r: "of_nat q \<le> r" "r \<le> y"
    using rnd64_mono[OF lo] rnd64_mono[OF hi] rq ry by (simp_all add: r_def)
  have "y < of_nat q + 1" by (simp add: y_def)
  then have fr: "\<lfloor>r\<rfloor> = int q" using r by (simp add: floor_eq_iff)
  have "r \<le> of_nat (q + 1)" using r \<open>y < of_nat q + 1\<close> by simp
  also have "\<dots> \<le> (67108864 :: rat)" using qmax by (simp only: of_nat_le_numeral_iff)
  also have "\<dots> < pow2 1024" using pow2_strict[of 26 1024] by (simp add: pow2_def)
  finally have "\<not> pow2 1024 \<le> r" by simp
  moreover have "\<not> r \<le> - pow2 1024"
    using r(1) pow2_pos[of 1024] of_nat_0_le_iff[of q, where 'a = rat] by linarith
  ultimately have "fl (of_nat n / 86400000) = Fin r" by (simp add: fl_cases r_def)
  moreover have "fl (of_nat q * 86400000) = Fin (of_nat q * 86400000)"
    using fl_of_nat[of "q * 86400000"] q(1) assms by simp
  ultimately show ?thesis by (simp add: utcDayStart_def jnat_def DAY_MS_def fr q_def[symmetric])
qed

section \<open>Properties of the breakers\<close>

text \<open>
  The rolling halt looks at the trailing window only, never halts on a history without known
  values, and is monotone: a history that halts still halts when known values in it get worse.
\<close>
theorem rolling_halt_monotone:
  shows "\<not> rollingRealizedPnlHalted (replicate k None) w thr \<and>
    (jmax (Fin 1) (jfloor w) = jnat n \<longrightarrow>
       rollingRealizedPnlHalted (take n vs @ rest) w thr \<longrightarrow> n \<le> length vs \<longrightarrow>
       rollingRealizedPnlHalted (take n vs @ rest') w thr) \<and>
    (list_all2 no_better worse vs \<longrightarrow> rollingRealizedPnlHalted vs w thr \<longrightarrow>
       rollingRealizedPnlHalted worse w thr)"
proof (intro conjI impI)
  have "known_values (replicate j None) = []" for j by (induction j) auto
  moreover have "\<exists>j. js_take m (replicate k None) = replicate j (None :: jsnum option)" for m
    by (auto simp: js_take_def split: jsnum.split intro: exI[of _ 0] exI[of _ k])
  ultimately show "\<not> rollingRealizedPnlHalted (replicate k None) w thr"
    unfolding rollingRealizedPnlHalted_def Let_def by (metis (full_types))
next
  assume n: "jmax (Fin 1) (jfloor w) = jnat n" "n \<le> length vs"
    and h: "rollingRealizedPnlHalted (take n vs @ rest) w thr"
  have "js_take (jnat n) (take n vs @ r) = take n vs" for r
    using n(2) by (simp add: js_take_def jnat_def)
  then have "rollingRealizedPnlHalted (take n vs @ r) w thr \<longleftrightarrow>
      known_values (take n vs) \<noteq> [] \<and> jlt (jsum (known_values (take n vs))) thr" for r
    by (simp only: rollingRealizedPnlHalted_def Let_def n(1) split: if_split) blast
  then show "rollingRealizedPnlHalted (take n vs @ rest') w thr" using h by blast
next
  assume l: "list_all2 no_better worse vs" and h: "rollingRealizedPnlHalted vs w thr"
  let ?k = "\<lambda>vs. known_values (js_take (jmax (Fin 1) (jfloor w)) vs)"
  have k: "list_all2 (\<lambda>x y. jle x y \<and> is_finite x \<and> is_finite y) (?k worse) (?k vs)"
    using l by (intro known_values_no_better js_take_list_all2)
  have "jle (jsum (?k worse)) (jsum (?k vs))" using k by (rule jsum_mono)
  moreover have "?k worse = [] \<longleftrightarrow> ?k vs = []" using list_all2_lengthD[OF k] by auto
  ultimately show "rollingRealizedPnlHalted worse w thr"
    using h by (auto simp: rollingRealizedPnlHalted_def Let_def split: if_splits intro: jle_jlt_trans)
qed

text \<open>The known results of a pool, in order: the position and its realized profit, when it is a number.\<close>

definition knownResults :: "string \<Rightarrow> PoolPnlObservation list \<Rightarrow> (string \<times> jsnum) list" where
  "knownResults pool obs = concat (map (\<lambda>ob.
     case obs_realizedPnlUsd ob of
       Some x \<Rightarrow> if obs_poolAddress ob = pool \<and> x \<noteq> NaN \<and> x \<noteq> PosInf \<and> x \<noteq> NegInf
                then [(obs_positionId ob, x)] else []
     | None \<Rightarrow> []) obs)"

lemma known_results:
  "map (\<lambda>ob. (obs_positionId ob, nullish (obs_realizedPnlUsd ob) NaN))
     (filter is_known (filter (\<lambda>ob. obs_poolAddress ob = pool) obs)) = knownResults pool obs"
proof (induction obs)
  case (Cons ob obs)
  have "is_finite x \<longleftrightarrow> x \<noteq> NaN \<and> x \<noteq> PosInf \<and> x \<noteq> NegInf" for x by (cases x) auto
  with Cons show ?case by (auto simp: knownResults_def is_known_def split: option.split)
qed (simp add: knownResults_def)

lemma judged_count:
  assumes "kill_minClosedPositions config = Fin q"
  shows "jmax (Fin 1) (jfloor (kill_minClosedPositions config)) = jnat (nat (max 1 \<lfloor>q\<rfloor>))"
  by (auto simp: assms jnat_def max_def)

lemma js_take_jnat: "js_take (jnat n) xs = take n xs"
  by (simp add: js_take_def jnat_def)

lemma poolTrip_spelled:
  assumes "kill_minClosedPositions config = Fin q" and n: "n = nat (max 1 \<lfloor>q\<rfloor>)"
    and own: "own = filter (\<lambda>ob. obs_poolAddress ob = pool) obs"
  shows "poolTrip config (pool, own) = Some t \<longleftrightarrow>
    (let known = knownResults pool obs; judged = take n known
     in n \<le> length known \<and> trip_poolAddress t = pool \<and> trip_positionIds t = map fst judged \<and>
        trip_realizedPnlUsd t = jsum (map snd judged) \<and>
        jlt (jsum (map snd judged)) (kill_thresholdUsd config))"
proof -
  note k = known_results [of pool obs, folded own, symmetric]
  show ?thesis
    unfolding poolTrip_def Let_def judged_count [OF assms(1)] n [symmetric] js_take_jnat
    by (auto simp: k take_map comp_def intro!: PoolPnlKillSwitchTrip.equality)
qed

lemma map_filter_distinct:
  assumes "\<And>k l t. f (k, l) = Some t \<Longrightarrow> g t = k" "distinct (map fst xs)"
  shows "distinct (map g (List.map_filter f xs)) \<and> set (map g (List.map_filter f xs)) \<subseteq> fst ` set xs"
  using assms(2)
proof (induction xs)
  case (Cons x xs)
  obtain k l where x: "x = (k, l)" by (cases x)
  show ?case
    using Cons assms(1) [of k l] by (cases "f x") (auto simp: x List.map_filter_simps)
qed (simp add: List.map_filter_simps)

text \<open>
  C38. The kill switch judges every pool by its own trades: a pool trips exactly when it has at least
  the minimum number of known results and the first that many of them, added in order, sum strictly
  below the threshold; the trip names the pool, exactly those positions and that sum.  Results of other
  pools and unknown ones play no part, and no pool trips twice.  The minimum is a number, rounded down
  and at least one.
\<close>
theorem kill_switch_per_pool:
  assumes "kill_minClosedPositions config = Fin q" and "n = nat (max 1 \<lfloor>q\<rfloor>)"
  shows "distinct (map trip_poolAddress (findPoolPnlKillSwitchTrips obs config)) \<and>
    (t \<in> set (findPoolPnlKillSwitchTrips obs config) \<longleftrightarrow>
      (let known = knownResults (trip_poolAddress t) obs; judged = take n known
       in n \<le> length known \<and> trip_positionIds t = map fst judged \<and>
          trip_realizedPnlUsd t = jsum (map snd judged) \<and>
          jlt (jsum (map snd judged)) (kill_thresholdUsd config)))"
proof
  show "distinct (map trip_poolAddress (findPoolPnlKillSwitchTrips obs config))"
    unfolding findPoolPnlKillSwitchTrips_def
    by (rule map_filter_distinct [THEN conjunct1]) (auto dest: poolTrip_address simp: groupByPool_spec)
  let ?own = "filter (\<lambda>ob. obs_poolAddress ob = trip_poolAddress t) obs"
  have no_trades: "poolTrip config (pool, []) \<noteq> Some t" for pool
    unfolding poolTrip_def Let_def judged_count [OF assms(1)] by (auto simp: less_max_iff_disj)
  have "t \<in> set (findPoolPnlKillSwitchTrips obs config) \<longleftrightarrow>
      (\<exists>k l. (k, l) \<in> set (groupByPool obs) \<and> poolTrip config (k, l) = Some t)"
    by (auto simp: findPoolPnlKillSwitchTrips_def map_filter_in)
  also have "\<dots> \<longleftrightarrow> (\<exists>l. (trip_poolAddress t, l) \<in> set (groupByPool obs) \<and>
      poolTrip config (trip_poolAddress t, l) = Some t)"
    by (metis poolTrip_address)
  also have "\<dots> \<longleftrightarrow> ?own \<noteq> [] \<and> poolTrip config (trip_poolAddress t, ?own) = Some t"
    using groupByPool_spec[of obs] by auto
  also have "\<dots> \<longleftrightarrow> poolTrip config (trip_poolAddress t, ?own) = Some t"
    using no_trades by auto
  also have "\<dots> \<longleftrightarrow> (let known = knownResults (trip_poolAddress t) obs; judged = take n known
       in n \<le> length known \<and> trip_positionIds t = map fst judged \<and>
          trip_realizedPnlUsd t = jsum (map snd judged) \<and>
          jlt (jsum (map snd judged)) (kill_thresholdUsd config))"
    unfolding poolTrip_spelled [OF assms refl] by (simp add: Let_def)
  finally show "t \<in> set (findPoolPnlKillSwitchTrips obs config) \<longleftrightarrow>
      (let known = knownResults (trip_poolAddress t) obs; judged = take n known
       in n \<le> length known \<and> trip_positionIds t = map fst judged \<and>
          trip_realizedPnlUsd t = jsum (map snd judged) \<and>
          jlt (jsum (map snd judged)) (kill_thresholdUsd config))" .
qed

text \<open>
  The churn cap counts by calendar day: for timestamps in whole milliseconds the entries
  counted are exactly those opened on the UTC day of now, and a positive cap blocks exactly when
  that many are reached; a cap that is not positive never blocks.
\<close>
theorem churn_guard_counts_utc_day:
  assumes "now \<le> 5000000000000000"
  shows "evaluateChurnGuard
      (map (\<lambda>(t, c). \<lparr>churn_openedAt = jnat t, churn_closed = c\<rparr>) es) (jnat limit) (jnat now) =
    (let n = length (filter (\<lambda>(t, c). t div 86400000 = now div 86400000) es)
     in \<lparr>churn_blocked = (0 < limit \<and> limit \<le> n), churn_todayCount = (if limit = 0 then 0 else n)\<rparr>)"
proof (cases "limit = 0")
  case False
  let ?d = "now div 86400000 * 86400000"
  have le: "?d \<le> now" by simp
  then have "fl (of_nat (?d + 86400000)) = Fin (of_nat (?d + 86400000))"
    using assms by (intro fl_of_nat) simp
  then have e: "jadd (jnat ?d) DAY_MS = jnat (?d + 86400000)"
    by (simp only: jnat_def DAY_MS_def jadd.simps of_nat_add of_nat_numeral)
  have day: "(?d \<le> t \<and> t < ?d + 86400000) \<longleftrightarrow> t div 86400000 = now div 86400000" for t :: nat
    by (auto simp: div_nat_eqI mult.commute dest: div_nat_eqI)
  have "length (filter (\<lambda>e. jge (churn_openedAt e) (jnat ?d) \<and> jlt (churn_openedAt e) (jnat (?d + 86400000)))
      (map (\<lambda>(t, c). \<lparr>churn_openedAt = jnat t, churn_closed = c\<rparr>) es)) =
    length (filter (\<lambda>(t, c). t div 86400000 = now div 86400000) es)"
    by (simp add: filter_map comp_def case_prod_unfold day del: of_nat_add)
  then show ?thesis using False
    by (simp add: evaluateChurnGuard_def countEntriesOnUtcDay_def utcDayStart_exact[OF assms] e Let_def)
      (simp add: jnat_def)
qed (simp add: evaluateChurnGuard_def jnat_def)

text \<open>The configuration the loader guarantees: a proper band, a floor below the static duration.\<close>

definition sane_cooldown :: "ExitCooldownConfig \<Rightarrow> bool" where
  "sane_cooldown config \<longleftrightarrow>
     (let hi = cool_feeDensityHighPct config; lo = cool_feeDensityLowPct config;
          fl_ms = cool_feeDensityCooldownMinMs config; st = cool_oorCooldownMs config
      in is_finite hi \<and> is_finite lo \<and> is_double hi \<and> is_double lo \<and> jlt lo hi \<and>
         is_finite (jsub hi lo) \<and> is_finite fl_ms \<and> is_finite st \<and> jlt fl_ms st \<and>
         is_finite (jsub st fl_ms))"

lemma interpolation_term:
  assumes "sane_cooldown config" "is_finite d" "\<not> jge d (cool_feeDensityHighPct config)"
    "\<not> jle d (cool_feeDensityLowPct config)"
  defines "t \<equiv> jdiv (jsub d (cool_feeDensityLowPct config))
      (jsub (cool_feeDensityHighPct config) (cool_feeDensityLowPct config))"
    and "g \<equiv> jsub (cool_oorCooldownMs config) (cool_feeDensityCooldownMinMs config)"
  shows "is_finite t \<and> jle (Fin 0) g \<and> is_finite g \<and> jmul t g \<noteq> NaN \<and>
    jsub (cool_oorCooldownMs config) (jmul t g) \<noteq> NaN"
proof -
  obtain hi lo st f x where c: "cool_feeDensityHighPct config = Fin hi"
    "cool_feeDensityLowPct config = Fin lo" "cool_oorCooldownMs config = Fin st"
    "cool_feeDensityCooldownMinMs config = Fin f" "d = Fin x"
    and s: "is_double (Fin hi)" "is_double (Fin lo)" "lo < hi" "f < st"
    "is_finite (jsub (Fin hi) (Fin lo))" "is_finite (jsub (Fin st) (Fin f))"
    using assms(1,2) by (auto simp: sane_cooldown_def Let_def is_finite_iff)
  have x: "lo < x" "x < hi" using assms(3,4) by (simp_all add: c)
  have den: "jlt (Fin 0) (jsub (Fin hi) (Fin lo))" using s(1-3) by (simp add: jsub_pos_iff)
  have num: "jle (Fin 0) (jsub (Fin x) (Fin lo))" "jle (jsub (Fin x) (Fin lo)) (jsub (Fin hi) (Fin lo))"
    using x by (auto simp: jsub_def intro: fl_nonneg fl_mono)
  have "jle t (Fin 1)" unfolding t_def c by (rule jdiv_le_1[OF num den s(5)])
  moreover have "t \<noteq> NaN"
    unfolding t_def c using num den s(5) by (intro jdiv_finite_pos_not_NaN) auto
  then have "jle (Fin 0) t"
    unfolding t_def c using num den by (intro jdiv_nonneg) (auto intro: jlt_imp_jle)
  ultimately have t: "is_finite t" using jle_finite_between by blast
  have g: "is_finite g" "jle (Fin 0) g" using s(4,6) by (auto simp: g_def c jsub_def intro: fl_nonneg)
  then have m: "jmul t g \<noteq> NaN" using t by (simp add: jmul_finite_not_NaN)
  then have "jsub (Fin st) (jmul t g) \<noteq> NaN" by (cases "jmul t g") (auto simp: jsub_def)
  with t g m show ?thesis by (simp add: c)
qed

lemma interpolated_bounds:
  assumes "sane_cooldown config" "is_finite d"
  shows "jle (cool_feeDensityCooldownMinMs config) (interpolatedCooldown config d) \<and>
    jle (interpolatedCooldown config d) (cool_oorCooldownMs config)"
proof -
  have s: "jle (cool_feeDensityCooldownMinMs config) (cool_oorCooldownMs config)"
    "cool_feeDensityCooldownMinMs config \<noteq> NaN" "cool_oorCooldownMs config \<noteq> NaN"
    using assms(1) by (auto simp: sane_cooldown_def Let_def intro: jlt_imp_jle)
  show ?thesis
    using s interpolation_term[OF assms]
    by (auto simp: interpolatedCooldown_def Let_def jle_jmin_iff intro!: jmax_ge1 jmin_le1)
qed

text \<open>
  Under a sane configuration the low-yield cooldown never leaves the configured interval from
  the floor to the static duration, and the denser a pool's measured fees are, the sooner it may
  be entered again.
\<close>
theorem low_yield_cooldown_antitone:
  assumes "sane_cooldown config" "cool_feeDensityCooldowns config"
    and "is_finite d" "is_finite d'" "jle d d'"
  shows "jle (cool_feeDensityCooldownMinMs config) (computeLowYieldCooldownMs config (Some d')) \<and>
    jle (computeLowYieldCooldownMs config (Some d')) (computeLowYieldCooldownMs config (Some d)) \<and>
    jle (computeLowYieldCooldownMs config (Some d)) (cool_oorCooldownMs config)"
proof -
  let ?hi = "cool_feeDensityHighPct config" and ?lo = "cool_feeDensityLowPct config"
  let ?fl = "cool_feeDensityCooldownMinMs config" and ?st = "cool_oorCooldownMs config"
  have s: "jlt ?lo ?hi" "jlt ?fl ?st" "is_finite ?hi" "is_finite ?lo" "is_finite ?fl" "is_finite ?st"
    using assms(1) by (auto simp: sane_cooldown_def Let_def)
  then have c: "computeLowYieldCooldownMs config (Some x) = interpolatedCooldown config x"
    if "is_finite x" for x using that assms(2) by (simp add: computeLowYieldCooldownMs_def Let_def)
  note b = interpolated_bounds[OF assms(1)]
  have "jle (interpolatedCooldown config d') (interpolatedCooldown config d)"
  proof (cases "jge d' ?hi \<or> jle d ?lo")
    case True
    then have "interpolatedCooldown config d' = ?fl \<or>
        (\<not> jge d ?hi \<and> interpolatedCooldown config d = ?st)"
      using s(1) assms(5) by (auto simp: interpolatedCooldown_def Let_def dest: jle_trans jlt_asym)
    then show ?thesis using b assms(3,4) by auto
  next
    case False
    then have m: "\<not> jge d ?hi" "\<not> jle d ?lo" "\<not> jge d' ?hi" "\<not> jle d' ?lo"
      using assms(5) by (auto intro: jle_trans)
    note t = interpolation_term[OF assms(1,3) m(1,2)] interpolation_term[OF assms(1,4) m(3,4)]
    have den: "jlt (Fin 0) (jsub ?hi ?lo)" "is_finite (jsub ?hi ?lo)"
    proof -
      obtain x y where xy: "?hi = Fin x" "?lo = Fin y" using s(3,4) by (auto simp: is_finite_iff)
      then show "jlt (Fin 0) (jsub ?hi ?lo)" "is_finite (jsub ?hi ?lo)"
        using assms(1) jsub_pos_iff[of x y] by (simp_all add: sane_cooldown_def Let_def)
    qed
    have "jle (jsub d ?lo) (jsub d' ?lo)"
      using assms(3-5) s(4) by (intro jsub_mono_left jsub_finite_not_NaN) auto
    then have "jle (jdiv (jsub d ?lo) (jsub ?hi ?lo)) (jdiv (jsub d' ?lo) (jsub ?hi ?lo))"
      using den by (rule jdiv_mono_left)
    then have "jle (jmul (jdiv (jsub d ?lo) (jsub ?hi ?lo)) (jsub ?st ?fl))
        (jmul (jdiv (jsub d' ?lo) (jsub ?hi ?lo)) (jsub ?st ?fl))"
      using t by (intro jmul_mono_right) auto
    then show ?thesis
      using m t s by (auto simp: interpolatedCooldown_def Let_def intro!: jmin_mono jmax_mono jsub_antimono_right)
  qed
  then show ?thesis using b c assms(3,4) by simp
qed

section \<open>Breaker witnesses\<close>

theorem rolling_halt_witness:
  "rollingRealizedPnlHalted [Some (Fin (- 8)), None, Some (Fin 1)] (Fin 3) (Fin (- 5))"
proof -
  have "list_all2 no_better [Some (Fin (- 8)), None, Some (Fin 1)] [Some (Fin (- 7)), None, Some (Fin 1)]"
    by (simp add: no_better_def)
  moreover have "rollingRealizedPnlHalted [Some (Fin (- 7)), None, Some (Fin 1)] (Fin 3) (Fin (- 5))"
    by code_simp
  ultimately show ?thesis
    by (rule rolling_halt_monotone[THEN conjunct2, THEN conjunct2, rule_format])
qed

definition sampleObs :: "string \<Rightarrow> jsnum \<Rightarrow> PoolPnlObservation" where
  "sampleObs pool pnl = \<lparr>obs_positionId = ''x'', obs_poolAddress = pool, obs_realizedPnlUsd = Some pnl\<rparr>"

theorem kill_switch_witness:
  "\<lparr>trip_poolAddress = ''A'', trip_positionIds = [''x''], trip_realizedPnlUsd = Fin (- 9)\<rparr> \<in> set
     (findPoolPnlKillSwitchTrips [sampleObs ''B'' (Fin 5), sampleObs ''A'' (Fin (- 9))]
        \<lparr>kill_minClosedPositions = Fin 1, kill_thresholdUsd = Fin (- 5)\<rparr>)"
proof -
  have c: "kill_minClosedPositions \<lparr>kill_minClosedPositions = Fin 1, kill_thresholdUsd = Fin (- 5)\<rparr> = Fin 1"
    by simp
  show ?thesis
    unfolding kill_switch_per_pool [OF c refl, THEN conjunct2] by code_simp
qed

theorem churn_guard_witness:
  "evaluateChurnGuard (map (\<lambda>(t, c). \<lparr>churn_openedAt = jnat t, churn_closed = c\<rparr>)
      [(86400000, True), (86399999, True)]) (jnat 1) (jnat 90000000) =
     \<lparr>churn_blocked = True, churn_todayCount = 1\<rparr>"
  by (subst churn_guard_counts_utc_day) simp_all

definition sampleCooldown :: ExitCooldownConfig where
  "sampleCooldown = \<lparr>cool_oorCooldownMs = Fin 1000, cool_repeatOorCooldownMs = Fin 9000,
     cool_maxOorCooldownExits = Fin 3, cool_feeDensityCooldowns = True,
     cool_feeDensityCooldownMinMs = Fin 200, cool_feeDensityHighPct = Fin (1 / 16),
     cool_feeDensityLowPct = Fin (1 / 64)\<rparr>"

theorem low_yield_cooldown_witness:
  "jle (computeLowYieldCooldownMs sampleCooldown (Some (Fin (1 / 20))))
     (computeLowYieldCooldownMs sampleCooldown (Some (Fin (1 / 32))))"
proof -
  have "sane_cooldown sampleCooldown"
    by (simp add: sane_cooldown_def sampleCooldown_def jsub_def num_simps)
  from low_yield_cooldown_antitone[OF this, of "Fin (1 / 32)" "Fin (1 / 20)"] show ?thesis
    by (simp add: sampleCooldown_def)
qed

end
