(* ===== verification/Backoff.thy ===== *)
theory Backoff
  imports DomainTypes "HOL-Library.AList"
begin

text \<open>
  Retry delays and circuit breakers: entry failures (\<^verbatim>\<open>engine/entry-backoff.ts\<close>), proposals and
  their circuit breaker (\<^verbatim>\<open>engine/proposal-backoff.ts\<close>), and the two API traffic gates with
  their pacing slots and escalating cooldown (\<^verbatim>\<open>engine/jev-gate.ts\<close>,
  \<^verbatim>\<open>engine/jupiter-client.ts\<close>), with the verdict cache.  Clock readings and the random draw are
  arguments.  An asynchronous request is split at its awaits into atomic steps.  The delays are
  instances of \<open>capped_backoff\<close>; the breaker and the cache are instances of \<open>machine\<close>.
\<close>

section \<open>The contract of a capped exponential delay\<close>

locale capped_backoff =
  fixes delay :: "nat \<Rightarrow> jsnum" and base cap :: jsnum
  assumes delay_capped: "delay n = jmin cap (jmul base (jpow2 (n - 1)))"
begin

lemma doubling_mono:
  assumes "m \<le> n" "jlt (Fin 0) base" "is_finite base"
  shows "jle (jmul base (jpow2 (m - 1))) (jmul base (jpow2 (n - 1)))"
proof -
  obtain b where b: "base = Fin b" "0 < b" using assms(2,3) by (auto simp: is_finite_iff)
  have "(2 :: rat) ^ (m - 1) \<le> 2 ^ (n - 1)" using assms(1) by (intro power_increasing) auto
  then have "jle (fl (b * 2 ^ (m - 1))) (fl (b * 2 ^ (n - 1)))"
    using b by (intro fl_mono mult_left_mono) auto
  then show ?thesis using b assms(1) by (auto simp: jpow2_def signed_inf_def)
qed

lemma delay_number: "jlt (Fin 0) base \<Longrightarrow> is_finite base \<Longrightarrow> cap \<noteq> NaN \<Longrightarrow> delay n \<noteq> NaN"
  using doubling_mono[of n n] by (simp add: delay_capped)

lemma delay_le_cap:
  assumes "jlt (Fin 0) base" "is_finite base" "cap \<noteq> NaN"
  shows "jle (delay n) cap"
  using delay_number[OF assms, of n] jmin_le1 by (simp add: delay_capped)

lemma delay_mono:
  assumes "m \<le> n" "jlt (Fin 0) base" "is_finite base" "cap \<noteq> NaN"
  shows "jle (delay m) (delay n)"
  unfolding delay_capped using doubling_mono[OF assms(1-3)] assms(4) by (intro jmin_mono) auto

lemma delay_saturates:
  assumes "k \<le> n" "jlt (Fin 0) base" "is_finite base" "delay k = cap" "cap \<noteq> NaN"
  shows "delay n = cap"
  using delay_mono[OF assms(1-3,5)] delay_le_cap[OF assms(2,3,5)] assms(4) by (metis jle_antisym)

end

lemma jmin_commute: "jmin a b = jmin b a"
  by (cases a; cases b) (auto simp: jmin_def min.commute)

section \<open>Entry failures\<close>

definition ENTRY_FAILURE_COOLDOWN_BASE_MS :: jsnum where
  "ENTRY_FAILURE_COOLDOWN_BASE_MS = Fin 1800000"

definition ENTRY_FAILURE_COOLDOWN_MAX_MS :: jsnum where
  "ENTRY_FAILURE_COOLDOWN_MAX_MS = Fin 21600000"

record EntryFailureBackoff =
  efb_failures :: nat
  efb_nextAttemptAt :: jsnum

definition to_lower :: "string \<Rightarrow> string" where
  "to_lower s = map (\<lambda>c. let n = of_char c :: nat
                       in if 65 \<le> n \<and> n \<le> 90 then char_of (n + 32) else c) s"

fun str_includes :: "string \<Rightarrow> string \<Rightarrow> bool" where
  "str_includes [] p \<longleftrightarrow> p = []"
| "str_includes (c # cs) p \<longleftrightarrow> take (length p) (c # cs) = p \<or> str_includes cs p"

definition isInsufficientTokenBalanceError :: "string option \<Rightarrow> bool" where
  "isInsufficientTokenBalanceError err =
     (case err of None \<Rightarrow> False
      | Some e \<Rightarrow>
          if e = [] then False
          else let normalized = to_lower e
            in str_includes normalized ''insufficient token balance'' \<or>
               str_includes normalized ''insufficient_usdc_balance'' \<or>
               str_includes normalized ''insufficient_balance_after_swap'' \<or>
               str_includes normalized ''insufficient sol for gas'' \<or>
               str_includes normalized ''insufficient sol for enter'')"

definition entryCooldownMs :: "nat \<Rightarrow> jsnum" where
  "entryCooldownMs failures = jmin ENTRY_FAILURE_COOLDOWN_MAX_MS
     (jmul ENTRY_FAILURE_COOLDOWN_BASE_MS (jpow2 (failures - 1)))"

definition nextEntryFailureBackoff ::
  "EntryFailureBackoff option \<Rightarrow> jsnum \<Rightarrow> EntryFailureBackoff" where
  "nextEntryFailureBackoff previous now =
     (let failures = (case previous of None \<Rightarrow> 0 | Some p \<Rightarrow> efb_failures p) + 1
      in \<lparr>efb_failures = failures, efb_nextAttemptAt = jadd now (entryCooldownMs failures)\<rparr>)"

interpretation entry_backoff: capped_backoff entryCooldownMs
  ENTRY_FAILURE_COOLDOWN_BASE_MS ENTRY_FAILURE_COOLDOWN_MAX_MS
  by unfold_locales (rule entryCooldownMs_def)

section \<open>Proposals\<close>

record ProposalBackoff =
  pb_failures :: nat
  pb_nextProposalAt :: jsnum

record ProposalBackoffOptions =
  pbo_baseMs :: jsnum
  pbo_maxMs :: jsnum
  pbo_jitter :: "jsnum option"

definition exponentialMs :: "ProposalBackoffOptions \<Rightarrow> nat \<Rightarrow> jsnum" where
  "exponentialMs opts failures =
     jmin (pbo_maxMs opts) (jmul (pbo_baseMs opts) (jpow2 (failures - 1)))"

definition nextProposalBackoff ::
  "ProposalBackoff option \<Rightarrow> jsnum \<Rightarrow> ProposalBackoffOptions \<Rightarrow> jsnum \<Rightarrow> ProposalBackoff" where
  "nextProposalBackoff previous now opts random =
     (let failures = (case previous of None \<Rightarrow> 0 | Some p \<Rightarrow> pb_failures p) + 1;
          exponential = exponentialMs opts failures;
          jitter = nullish (pbo_jitter opts) (Fin (1 / 2));
          jittered = jfloor (jmul exponential (jadd (Fin 1) (jmul random jitter)))
      in \<lparr>pb_failures = failures, pb_nextProposalAt = jadd now (jmin jittered (pbo_maxMs opts))\<rparr>)"

definition isProposalBackoffActive :: "ProposalBackoff option \<Rightarrow> jsnum \<Rightarrow> bool" where
  "isProposalBackoffActive backoff now =
     (case backoff of None \<Rightarrow> False | Some b \<Rightarrow> jgt (pb_nextProposalAt b) now)"

interpretation proposal_backoff: capped_backoff "exponentialMs opts" "pbo_baseMs opts" "pbo_maxMs opts"
  for opts
  by unfold_locales (rule exponentialMs_def)

section \<open>Proposal circuit breaker\<close>

record ProposalCircuitBreakerOptions =
  cbo_failureThreshold :: jsnum
  cbo_cooldownMs :: jsnum

record ProposalCircuitBreaker =
  cb_failures :: nat
  cb_openedAt :: "jsnum option"

definition newBreaker :: ProposalCircuitBreaker where
  "newBreaker = \<lparr>cb_failures = 0, cb_openedAt = None\<rparr>"

definition recordFailure ::
  "ProposalCircuitBreakerOptions \<Rightarrow> jsnum \<Rightarrow> ProposalCircuitBreaker \<Rightarrow> ProposalCircuitBreaker" where
  "recordFailure opts now cb =
     (let cb' = cb\<lparr>cb_failures := cb_failures cb + 1\<rparr>
      in if jge (jnat (cb_failures cb')) (cbo_failureThreshold opts) \<and> cb_openedAt cb' = None
         then cb'\<lparr>cb_openedAt := Some now\<rparr> else cb')"

definition recordSuccess :: "ProposalCircuitBreaker \<Rightarrow> ProposalCircuitBreaker" where
  "recordSuccess cb = \<lparr>cb_failures = 0, cb_openedAt = None\<rparr>"

text \<open>\<^verbatim>\<open>isOpen\<close> answers and, when the cooldown has elapsed, resets the breaker.\<close>

definition isOpen ::
  "ProposalCircuitBreakerOptions \<Rightarrow> jsnum \<Rightarrow> ProposalCircuitBreaker \<Rightarrow> bool \<times> ProposalCircuitBreaker" where
  "isOpen opts now cb =
     (case cb_openedAt cb of None \<Rightarrow> (False, cb)
      | Some t \<Rightarrow>
          if jge (jsub now t) (cbo_cooldownMs opts)
          then (False, \<lparr>cb_failures = 0, cb_openedAt = None\<rparr>) else (True, cb))"

definition canTry ::
  "ProposalCircuitBreakerOptions \<Rightarrow> jsnum \<Rightarrow> ProposalCircuitBreaker \<Rightarrow> bool \<times> ProposalCircuitBreaker" where
  "canTry opts now cb = (case isOpen opts now cb of (r, cb') \<Rightarrow> (\<not> r, cb'))"

definition getState ::
  "ProposalCircuitBreakerOptions \<Rightarrow> jsnum \<Rightarrow> ProposalCircuitBreaker
     \<Rightarrow> (nat \<times> bool) \<times> ProposalCircuitBreaker" where
  "getState opts now cb = (case isOpen opts now cb of (r, cb') \<Rightarrow> ((cb_failures cb', r), cb'))"

datatype BreakerEvent = Failure jsnum | Success | Ask jsnum

fun breakerStep ::
  "ProposalCircuitBreakerOptions \<Rightarrow> ProposalCircuitBreaker \<Rightarrow> BreakerEvent \<Rightarrow> ProposalCircuitBreaker" where
  "breakerStep opts cb (Failure now) = recordFailure opts now cb"
| "breakerStep opts cb Success = recordSuccess cb"
| "breakerStep opts cb (Ask now) = snd (isOpen opts now cb)"

text \<open>Open exactly when the consecutive failures have reached the threshold.\<close>

definition breaker_consistent ::
  "ProposalCircuitBreakerOptions \<Rightarrow> ProposalCircuitBreaker \<Rightarrow> bool" where
  "breaker_consistent opts cb \<longleftrightarrow> jlt (Fin 0) (cbo_failureThreshold opts) \<longrightarrow>
     (cb_openedAt cb \<noteq> None \<longleftrightarrow> jge (jnat (cb_failures cb)) (cbo_failureThreshold opts))"

interpretation breaker: machine "breakerStep opts" "breaker_consistent opts" "\<lambda>_. True" for opts
proof
  fix cb e assume inv: "breaker_consistent opts cb"
  have grow: "jge (jnat n) t \<Longrightarrow> jge (jnat (n + 1)) t" for n t
    using jle_trans[of t "jnat n" "jnat (n + 1)"] by simp
  have "jlt (Fin 0) t \<Longrightarrow> \<not> jge (jnat 0) t" for t
    using jlt_asym[of "Fin 0" t] by (auto simp: jnat_def)
  then show "breaker_consistent opts (breakerStep opts cb e)"
    using inv grow by (cases e)
      (auto simp: breaker_consistent_def recordFailure_def recordSuccess_def isOpen_def Let_def
        split: option.splits)
qed

section \<open>API traffic gates\<close>

text \<open>
  The module state of a gate, with its two test knobs.  A request is cut at its awaits: the
  synchronous prefix (fail fast or claim a slot), the wake-up after a wait, and the response.
\<close>

record RateGate =
  rg_nextSlotAt :: jsnum
  rg_breakerCooldownUntil :: jsnum
  rg_breakerFailures :: nat
  rg_testIntervalMs :: "jsnum option"
  rg_testBaseCooldownMs :: "jsnum option"

datatype GateOutcome = FailFast | SendNow | SleepFor jsnum jsnum | GateAborted

definition MIN_JEV_REQUEST_INTERVAL_MS :: jsnum where
  "MIN_JEV_REQUEST_INTERVAL_MS = Fin 2000"

definition MIN_JUPITER_REQUEST_INTERVAL_MS :: jsnum where
  "MIN_JUPITER_REQUEST_INTERVAL_MS = Fin 2500"

definition KEYED_JUPITER_REQUEST_INTERVAL_MS :: jsnum where
  "KEYED_JUPITER_REQUEST_INTERVAL_MS = Fin 2500"

definition MAX_SLOT_WAIT_MS :: jsnum where
  "MAX_SLOT_WAIT_MS = Fin 300000"

definition BREAKER_BASE_COOLDOWN_MS :: jsnum where
  "BREAKER_BASE_COOLDOWN_MS = Fin 60000"

definition BREAKER_MAX_COOLDOWN_MS :: jsnum where
  "BREAKER_MAX_COOLDOWN_MS = Fin 3600000"

definition setGateForTest :: "jsnum option \<Rightarrow> jsnum option \<Rightarrow> RateGate \<Rightarrow> RateGate" where
  "setGateForTest interval_opt base_opt g =
     g\<lparr>rg_testIntervalMs := (if interval_opt = None then rg_testIntervalMs g else interval_opt),
       rg_testBaseCooldownMs := (if base_opt = None then rg_testBaseCooldownMs g else base_opt)\<rparr>"

definition resetGateForTest :: "bool \<Rightarrow> RateGate" where
  "resetGateForTest testEnv =
     \<lparr>rg_nextSlotAt = Fin 0, rg_breakerCooldownUntil = Fin 0, rg_breakerFailures = 0,
      rg_testIntervalMs = (if testEnv then Some (Fin 0) else None), rg_testBaseCooldownMs = None\<rparr>"

definition baseCooldownMs :: "RateGate \<Rightarrow> jsnum" where
  "baseCooldownMs g = nullish (rg_testBaseCooldownMs g) BREAKER_BASE_COOLDOWN_MS"

definition breakerDelay :: "jsnum \<Rightarrow> nat \<Rightarrow> jsnum" where
  "breakerDelay base failures = jmin (jmul base (jpow2 (failures - 1))) BREAKER_MAX_COOLDOWN_MS"

interpretation breaker_delay: capped_backoff "breakerDelay base" base BREAKER_MAX_COOLDOWN_MS for base
  by unfold_locales (simp add: breakerDelay_def jmin_commute)

text \<open>\<^verbatim>\<open>response.ok\<close>.\<close>

definition status_ok :: "nat \<Rightarrow> bool" where
  "status_ok status \<longleftrightarrow> 200 \<le> status \<and> status \<le> 299"

subsection \<open>The Jev gate\<close>

definition jevIntervalMs :: "RateGate \<Rightarrow> jsnum" where
  "jevIntervalMs g = nullish (rg_testIntervalMs g) MIN_JEV_REQUEST_INTERVAL_MS"

definition recordJevResponse :: "jsnum \<Rightarrow> nat \<Rightarrow> RateGate \<Rightarrow> RateGate" where
  "recordJevResponse now status g =
     (if status = 429
        then let failures = rg_breakerFailures g + 1
             in g\<lparr>rg_breakerFailures := failures,
                  rg_breakerCooldownUntil := jadd now (breakerDelay (baseCooldownMs g) failures)\<rparr>
      else if status_ok status \<and> 0 < rg_breakerFailures g
        then g\<lparr>rg_breakerFailures := 0, rg_breakerCooldownUntil := Fin 0\<rparr>
      else g)"

text \<open>Claiming a slot; both gates share the code, with their own interval.\<close>

definition claimSlot :: "jsnum \<Rightarrow> jsnum \<Rightarrow> RateGate \<Rightarrow> (jsnum \<times> jsnum) \<times> RateGate" where
  "claimSlot interval now g =
     (let slotAt = jmax now (rg_nextSlotAt g)
      in if jgt (jsub slotAt now) MAX_SLOT_WAIT_MS
         then ((now, Fin 0), g\<lparr>rg_nextSlotAt := jadd now interval\<rparr>)
         else ((slotAt, jsub slotAt now), g\<lparr>rg_nextSlotAt := jadd slotAt interval\<rparr>))"

definition claimJevSlot :: "jsnum \<Rightarrow> RateGate \<Rightarrow> (jsnum \<times> jsnum) \<times> RateGate" where
  "claimJevSlot now g = claimSlot (jevIntervalMs g) now g"

definition jevRequest :: "jsnum \<Rightarrow> RateGate \<Rightarrow> GateOutcome \<times> RateGate" where
  "jevRequest now g =
     (if jlt now (rg_breakerCooldownUntil g) then (FailFast, g)
      else case claimJevSlot now g of ((slotAt, waitMs), g') \<Rightarrow>
        if jgt waitMs (Fin 0) then (SleepFor slotAt waitMs, g') else (SendNow, g'))"

definition jevWake :: "jsnum \<Rightarrow> RateGate \<Rightarrow> GateOutcome" where
  "jevWake now g = (if jlt now (rg_breakerCooldownUntil g) then FailFast else SendNow)"

subsection \<open>The Jupiter gate\<close>

definition jupiterIntervalMs :: "bool \<Rightarrow> RateGate \<Rightarrow> jsnum" where
  "jupiterIntervalMs keyed g =
     (case rg_testIntervalMs g of Some i \<Rightarrow> i
      | None \<Rightarrow> if keyed then KEYED_JUPITER_REQUEST_INTERVAL_MS else MIN_JUPITER_REQUEST_INTERVAL_MS)"

text \<open>The header's numeric value is an argument; None is a missing header.\<close>

definition clampedResetMs :: "jsnum \<Rightarrow> jsnum option \<Rightarrow> jsnum" where
  "clampedResetMs now resetHeader =
     (case resetHeader of None \<Rightarrow> Fin 0
      | Some r \<Rightarrow>
          let resetAtMs = jmul r (Fin 1000)
          in if \<not> is_finite resetAtMs \<or> jle resetAtMs (Fin 0) then Fin 0
             else jmin resetAtMs (jadd now BREAKER_MAX_COOLDOWN_MS))"

definition recordJupiterResponse :: "jsnum \<Rightarrow> nat \<Rightarrow> jsnum option \<Rightarrow> RateGate \<Rightarrow> RateGate" where
  "recordJupiterResponse now status resetHeader g =
     (if status = 429
        then let failures = rg_breakerFailures g + 1
             in g\<lparr>rg_breakerFailures := failures,
                  rg_breakerCooldownUntil :=
                    jmax (jadd now (breakerDelay (baseCooldownMs g) failures))
                      (clampedResetMs now resetHeader)\<rparr>
      else if status_ok status \<and> 0 < rg_breakerFailures g
        then g\<lparr>rg_breakerFailures := 0, rg_breakerCooldownUntil := Fin 0\<rparr>
      else g)"

definition claimJupiterSlot :: "bool \<Rightarrow> jsnum \<Rightarrow> RateGate \<Rightarrow> (jsnum \<times> jsnum) \<times> RateGate" where
  "claimJupiterSlot keyed now g = claimSlot (jupiterIntervalMs keyed g) now g"

definition releaseJupiterSlot :: "bool \<Rightarrow> jsnum \<Rightarrow> RateGate \<Rightarrow> RateGate" where
  "releaseJupiterSlot keyed slotAt g =
     (if jeq (rg_nextSlotAt g) (jadd slotAt (jupiterIntervalMs keyed g))
      then g\<lparr>rg_nextSlotAt := slotAt\<rparr> else g)"

definition waitJupiterSlot :: "bool \<Rightarrow> jsnum \<Rightarrow> jsnum \<Rightarrow> RateGate \<Rightarrow> GateOutcome" where
  "waitJupiterSlot keyed slotAt waitMs g =
     (if jle waitMs (Fin 0) then SendNow
      else SleepFor slotAt (jmin waitMs (jupiterIntervalMs keyed g)))"

definition jupiterRequest :: "bool \<Rightarrow> jsnum \<Rightarrow> RateGate \<Rightarrow> GateOutcome \<times> RateGate" where
  "jupiterRequest keyed now g =
     (if jlt now (rg_breakerCooldownUntil g) then (FailFast, g)
      else case claimJupiterSlot keyed now g of ((slotAt, waitMs), g') \<Rightarrow>
        (waitJupiterSlot keyed slotAt waitMs g', g'))"

text \<open>The wake-up after one sleep: fail fast, give the slot back, sleep again or send.\<close>

definition jupiterWake ::
  "bool \<Rightarrow> jsnum \<Rightarrow> jsnum \<Rightarrow> bool \<Rightarrow> RateGate \<Rightarrow> GateOutcome \<times> RateGate" where
  "jupiterWake keyed slotAt now aborted g =
     (if jlt now (rg_breakerCooldownUntil g) then (FailFast, g)
      else if aborted then (GateAborted, releaseJupiterSlot keyed slotAt g)
      else (waitJupiterSlot keyed slotAt (jsub slotAt now) g, g))"

subsection \<open>Runs of a gate\<close>

datatype GateEvent =
    JevAsk jsnum
  | JevAnswer jsnum nat
  | JupiterAsk bool jsnum
  | JupiterWake bool jsnum jsnum bool
  | JupiterAnswer jsnum nat "jsnum option"

fun gateStep :: "RateGate \<Rightarrow> GateEvent \<Rightarrow> RateGate" where
  "gateStep g (JevAsk now) = snd (jevRequest now g)"
| "gateStep g (JevAnswer now status) = recordJevResponse now status g"
| "gateStep g (JupiterAsk keyed now) = snd (jupiterRequest keyed now g)"
| "gateStep g (JupiterWake keyed slotAt now aborted) = snd (jupiterWake keyed slotAt now aborted g)"
| "gateStep g (JupiterAnswer now status header) = recordJupiterResponse now status header g"

text \<open>A breaker without failures on record holds no cooldown.\<close>

definition gate_consistent :: "RateGate \<Rightarrow> bool" where
  "gate_consistent g \<longleftrightarrow> rg_breakerFailures g = 0 \<longrightarrow> rg_breakerCooldownUntil g = Fin 0"

interpretation gate: machine gateStep gate_consistent "\<lambda>_. True"
proof
  fix g e assume "gate_consistent g"
  then show "gate_consistent (gateStep g e)"
    by (cases e) (auto simp: gate_consistent_def jevRequest_def claimJevSlot_def claimSlot_def
        recordJevResponse_def jupiterRequest_def claimJupiterSlot_def jupiterWake_def
        releaseJupiterSlot_def recordJupiterResponse_def Let_def)
qed

section \<open>Verdict cache\<close>

definition JEV_VERDICT_TTL_MS :: jsnum where
  "JEV_VERDICT_TTL_MS = Fin 2700000"

record 'j JevCacheRow =
  jcr_at :: jsnum
  jcr_judgments :: 'j

text \<open>The key, before it is printed: pool, statistics source, drift bucket and active bin.\<close>

datatype DriftBucket = DriftCold | DriftUp jsnum | DriftDown jsnum

definition jevCacheKey ::
  "string \<Rightarrow> string option \<Rightarrow> jsnum option \<Rightarrow> jsnum \<Rightarrow> string \<times> string \<times> DriftBucket \<times> jsnum" where
  "jevCacheKey poolAddress statsSource netDriftBins activeBinId =
     (poolAddress, nullish statsSource ''?'',
      (case netDriftBins of None \<Rightarrow> DriftCold
       | Some d \<Rightarrow> if jge d (Fin 0) then DriftUp (jfloor (jdiv d (Fin 5)))
                  else DriftDown (jfloor (jdiv (jneg d) (Fin 5)))),
      activeBinId)"

type_synonym ('k, 'j) cache = "('k \<times> 'j JevCacheRow) list"

definition jevCachedVerdict :: "'k \<Rightarrow> jsnum \<Rightarrow> ('k, 'j) cache \<Rightarrow> 'j option \<times> ('k, 'j) cache" where
  "jevCachedVerdict key nowMs cache =
     (case map_of cache key of None \<Rightarrow> (None, cache)
      | Some row \<Rightarrow>
          if jge (jsub nowMs (jcr_at row)) JEV_VERDICT_TTL_MS
          then (None, AList.delete key cache) else (Some (jcr_judgments row), cache))"

definition jevStoreVerdict :: "'k \<Rightarrow> 'j \<Rightarrow> jsnum \<Rightarrow> ('k, 'j) cache \<Rightarrow> ('k, 'j) cache" where
  "jevStoreVerdict key judgments nowMs cache =
     (let cache' = (if 1000 < length cache then [] else cache)
      in AList.update key \<lparr>jcr_at = nowMs, jcr_judgments = judgments\<rparr> cache')"

datatype ('k, 'j) CacheEvent = CacheRead 'k jsnum | CacheStore 'k 'j jsnum

fun cacheStep :: "('k, 'j) cache \<Rightarrow> ('k, 'j) CacheEvent \<Rightarrow> ('k, 'j) cache" where
  "cacheStep cache (CacheRead k now) = snd (jevCachedVerdict k now cache)"
| "cacheStep cache (CacheStore k j now) = jevStoreVerdict k j now cache"

definition cache_bounded :: "('k, 'j) cache \<Rightarrow> bool" where
  "cache_bounded cache \<longleftrightarrow> distinct (map fst cache) \<and> length cache \<le> 1001"

lemma length_update_le: "length (AList.update k v al) \<le> length al + 1"
  by (induction al) auto

interpretation cache: machine cacheStep cache_bounded "\<lambda>_. True"
proof
  fix c :: "('k, 'j) cache" and e assume inv: "cache_bounded c"
  have "length (AList.delete k c) \<le> length c" for k by (rule length_delete_le)
  then show "cache_bounded (cacheStep c e)"
    using inv length_update_le[of _ _ c]
    by (cases e)
      (auto simp: cache_bounded_def jevCachedVerdict_def jevStoreVerdict_def Let_def
        distinct_update distinct_delete split: option.splits
        intro: order_trans[OF length_delete_le] order_trans[OF length_update_le])
qed

section \<open>Properties of backoff and breakers\<close>

lemma entry_base: "jlt (Fin 0) ENTRY_FAILURE_COOLDOWN_BASE_MS" "is_finite ENTRY_FAILURE_COOLDOWN_BASE_MS"
  "ENTRY_FAILURE_COOLDOWN_MAX_MS \<noteq> NaN"
  by (simp_all add: ENTRY_FAILURE_COOLDOWN_BASE_MS_def ENTRY_FAILURE_COOLDOWN_MAX_MS_def)

text \<open>
  Repeated entry failures wait longer and longer, within fixed limits: after the n-th failure
  in a row the next attempt is at now plus a delay that is at least thirty minutes, at most six
  hours, never shorter than after fewer failures, and exactly six hours from the fifth on.
\<close>
theorem entry_backoff_escalates:
  shows "nextEntryFailureBackoff (Some \<lparr>efb_failures = n, efb_nextAttemptAt = t\<rparr>) now =
      \<lparr>efb_failures = n + 1, efb_nextAttemptAt = jadd now (entryCooldownMs (n + 1))\<rparr> \<and>
    jle (Fin 1800000) (entryCooldownMs (n + 1)) \<and> jle (entryCooldownMs (n + 1)) (Fin 21600000) \<and>
    jle (entryCooldownMs (n + 1)) (entryCooldownMs (n + 1 + k)) \<and>
    entryCooldownMs (n + 5) = Fin 21600000"
proof -
  have one: "entryCooldownMs 1 = Fin 1800000" "entryCooldownMs 5 = ENTRY_FAILURE_COOLDOWN_MAX_MS"
    by (simp_all add: entryCooldownMs_def jpow2_def ENTRY_FAILURE_COOLDOWN_BASE_MS_def
        ENTRY_FAILURE_COOLDOWN_MAX_MS_def num_simps)
  then show ?thesis
    using entry_backoff.delay_mono[OF _ entry_base, of 1 "n + 1"]
      entry_backoff.delay_mono[OF _ entry_base, of "n + 1" "n + 1 + k"]
      entry_backoff.delay_le_cap[OF entry_base, of "n + 1"]
      entry_backoff.delay_saturates[OF _ entry_base(1,2) one(2) entry_base(3), of "n + 5"]
    by (simp add: nextEntryFailureBackoff_def Let_def ENTRY_FAILURE_COOLDOWN_MAX_MS_def)
qed

text \<open>
  The failures in a row, as the history tells them: a success forgets them, and so does a question
  that finds the cooldown over, counted from the failure that made the row as long as the threshold.
\<close>

definition cooled :: "nat \<Rightarrow> jsnum \<Rightarrow> jsnum list \<Rightarrow> jsnum \<Rightarrow> bool" where
  "cooled n cooldown row now \<longleftrightarrow> jge (jsub now (row ! (n - 1))) cooldown"

fun failureRow :: "nat \<Rightarrow> jsnum \<Rightarrow> jsnum list \<Rightarrow> BreakerEvent \<Rightarrow> jsnum list" where
  "failureRow n cooldown row (Failure now) = row @ [now]"
| "failureRow n cooldown row Success = []"
| "failureRow n cooldown row (Ask now) =
     (if n \<le> length row \<and> cooled n cooldown row now then [] else row)"

definition records_row :: "nat \<Rightarrow> ProposalCircuitBreaker \<Rightarrow> jsnum list \<Rightarrow> bool" where
  "records_row n cb row \<longleftrightarrow>
     cb = \<lparr>cb_failures = length row, cb_openedAt = (if n \<le> length row then Some (row ! (n - 1)) else None)\<rparr>"

lemma run_machine_append: "run_machine f s (xs @ ys) = run_machine f (run_machine f s xs) ys"
  by (induction xs arbitrary: s) simp_all

lemma threshold_reached:
  assumes "cbo_failureThreshold opts = Fin q" "0 < q"
  shows "jge (jnat k) (cbo_failureThreshold opts) \<longleftrightarrow> nat \<lceil>q\<rceil> \<le> k"
  using assms by (simp add: jnat_def) (metis ceiling_le_iff int_ops(1) nat_le_iff of_int_of_nat_eq)

lemma failure_row_step:
  assumes "cbo_failureThreshold opts = Fin q" "0 < q" "n = nat \<lceil>q\<rceil>" "records_row n cb row"
  shows "records_row n (breakerStep opts cb e) (failureRow n (cbo_cooldownMs opts) row e)"
proof -
  have n: "0 < n" using assms(2,3) by simp
  have reached: "jge (jnat k) (cbo_failureThreshold opts) \<longleftrightarrow> n \<le> k" for k
    using threshold_reached [OF assms(1,2)] assms(3) by simp
  have cb: "cb_failures cb = length row" "cb_openedAt cb = (if n \<le> length row then Some (row ! (n - 1)) else None)"
    using assms(4) by (simp_all add: records_row_def)
  show ?thesis
  proof (cases e)
    case (Failure now)
    then show ?thesis
      using n cb reached [of "Suc (length row)"]
      by (auto simp: records_row_def recordFailure_def Let_def nth_append intro!: ProposalCircuitBreaker.equality)
  next
    case Success
    then show ?thesis using n by (simp add: records_row_def recordSuccess_def)
  next
    case (Ask now)
    then show ?thesis using n assms(4) by (auto simp: records_row_def isOpen_def cooled_def)
  qed
qed

lemma failure_row_run:
  assumes "cbo_failureThreshold opts = Fin q" "0 < q" "n = nat \<lceil>q\<rceil>" "records_row n cb row"
  shows "records_row n (run_machine (breakerStep opts) cb es)
    (run_machine (failureRow n (cbo_cooldownMs opts)) row es)"
  using assms(4) by (induction es arbitrary: cb row) (auto intro: failure_row_step [OF assms(1-3)])

lemma failures_only: "run_machine (failureRow n c) row (map Failure ts) = row @ ts"
  by (induction ts arbitrary: row) simp_all

text \<open>
  C35. The breaker refuses exactly while it should: after any history of failures, successes and
  questions, the answer at a time is \<open>open\<close> if and only if the failures in a row since the last
  success or reset are at least the threshold and the cooldown, counted from the failure that reached
  it, is not over; an attempt is allowed in all other cases; the answer after the cooldown leaves a new
  breaker, and the reported count is the length of the row.  In particular a success followed by
  failures opens it exactly from the threshold on.  The threshold is a positive number; a fraction
  counts as the next whole number.
\<close>
theorem breaker_open_iff_threshold:
  assumes "cbo_failureThreshold opts = Fin q" "0 < q" "n = nat \<lceil>q\<rceil>"
    and "cb = run_machine (breakerStep opts) newBreaker es"
    and "row = run_machine (failureRow n (cbo_cooldownMs opts)) [] es"
  shows "(fst (isOpen opts now cb) \<longleftrightarrow> n \<le> length row \<and> \<not> cooled n (cbo_cooldownMs opts) row now) \<and>
    (fst (canTry opts now cb) \<longleftrightarrow> length row < n \<or> cooled n (cbo_cooldownMs opts) row now) \<and>
    (snd (isOpen opts now cb) = (if n \<le> length row \<and> cooled n (cbo_cooldownMs opts) row now
       then newBreaker else cb)) \<and>
    (getState opts now cb = (if n \<le> length row \<and> cooled n (cbo_cooldownMs opts) row now
       then ((0, False), newBreaker) else ((length row, n \<le> length row), cb))) \<and>
    (fst (isOpen opts now (run_machine (breakerStep opts) cb (Success # map Failure ts))) \<longleftrightarrow>
       n \<le> length ts \<and> \<not> jge (jsub now (ts ! (n - 1))) (cbo_cooldownMs opts))"
proof -
  have "0 < n" using assms(2,3) by simp
  then have "records_row n newBreaker []" by (simp add: records_row_def newBreaker_def)
  then have cb: "records_row n cb row" unfolding assms(4,5) by (rule failure_row_run [OF assms(1-3)])
  from failure_row_run [OF assms(1-3) this, of "Success # map Failure ts"]
  have later: "records_row n (run_machine (breakerStep opts) cb (Success # map Failure ts)) ts"
    by (simp add: failures_only)
  show ?thesis
    using cb later
    by (auto simp: records_row_def isOpen_def canTry_def getState_def newBreaker_def cooled_def)
qed

text \<open>
  Two requests through a gate are never sent closer than its interval: a slot claimed after
  another one is at least the interval later, unless the queue was more than five minutes deep,
  when the slot is reset to now.
\<close>
theorem claimed_slots_spaced:
  assumes "claimSlot interval now g = ((slot, wait), g1)"
    and "claimSlot interval now' (g1\<lparr>rg_breakerCooldownUntil := u, rg_breakerFailures := f\<rparr>)
      = ((slot', wait'), g2)"
    and "is_finite now'" "jadd slot interval \<noteq> NaN"
  shows "jle (jadd slot interval) slot' \<or>
    (slot' = now' \<and> wait' = Fin 0 \<and> jgt (jsub (jadd slot interval) now') (Fin 300000))"
proof -
  have next_slot: "rg_nextSlotAt g1 = jadd slot interval"
    using assms(1) by (auto simp: claimSlot_def Let_def split: if_splits)
  have now': "now' \<noteq> NaN" using assms(3) by auto
  have ge: "jle (jadd slot interval) (jmax now' (jadd slot interval))"
    using now' assms(4) by (intro jmax_ge2) simp
  have ch: "jmax now' (jadd slot interval) = now' \<or> jmax now' (jadd slot interval) = jadd slot interval"
    using jmax_choice[of now' "jadd slot interval"] now' assms(4) by auto
  have self: "\<not> jgt (jsub now' now') MAX_SLOT_WAIT_MS"
    using assms(3) by (auto simp: is_finite_iff jsub_def MAX_SLOT_WAIT_MS_def)
  show ?thesis
    using assms(2) ge ch self
    by (auto simp: claimSlot_def Let_def next_slot MAX_SLOT_WAIT_MS_def split: if_splits)
qed

text \<open>Everything that can happen to a gate from a time on, except an answer that succeeds.\<close>

fun noSuccess :: "jsnum \<Rightarrow> GateEvent \<Rightarrow> bool" where
  "noSuccess now (JevAnswer t status) \<longleftrightarrow> \<not> status_ok status \<and> jle now t \<and> is_finite t"
| "noSuccess now (JupiterAnswer t status header) \<longleftrightarrow> \<not> status_ok status \<and> jle now t \<and> is_finite t"
| "noSuccess now _ \<longleftrightarrow> True"

definition silenced :: "jsnum \<Rightarrow> jsnum \<Rightarrow> nat \<Rightarrow> RateGate \<Rightarrow> bool" where
  "silenced now base n g \<longleftrightarrow> jlt (Fin 0) base \<and> is_finite base \<and> is_finite now \<and>
     baseCooldownMs g = base \<and> 0 < n \<and> n \<le> rg_breakerFailures g \<and>
     jle (jadd now (breakerDelay base n)) (rg_breakerCooldownUntil g)"

lemma finite_jadd_not_NaN: "is_finite a \<Longrightarrow> x \<noteq> NaN \<Longrightarrow> jadd a x \<noteq> NaN"
  by (cases a; cases x) auto

lemma breakerDelay_number:
  "jlt (Fin 0) base \<Longrightarrow> is_finite base \<Longrightarrow> breakerDelay base n \<noteq> NaN"
  by (rule breaker_delay.delay_number) (simp_all add: BREAKER_MAX_COOLDOWN_MS_def)

lemma later_cooldown:
  assumes "jlt (Fin 0) base" "is_finite base" "is_finite now" "is_finite t" "jle now t" "n \<le> m"
  shows "jle (jadd now (breakerDelay base n)) (jadd t (breakerDelay base m))"
proof -
  have d: "jle (breakerDelay base n) (breakerDelay base m)"
    by (rule breaker_delay.delay_mono [OF assms(6,1,2)]) (simp add: BREAKER_MAX_COOLDOWN_MS_def)
  have nn: "jadd now (breakerDelay base k) \<noteq> NaN" "jadd t (breakerDelay base k) \<noteq> NaN" for k
    by (rule finite_jadd_not_NaN [OF assms(3) breakerDelay_number [OF assms(1,2)]],
      rule finite_jadd_not_NaN [OF assms(4) breakerDelay_number [OF assms(1,2)]])
  have "jle (jadd now (breakerDelay base n)) (jadd now (breakerDelay base m))"
    using jadd_mono_left [OF d, of now] nn by (simp add: jadd_commute)
  moreover have "jle (jadd now (breakerDelay base m)) (jadd t (breakerDelay base m))"
    using jadd_mono_left [OF assms(5)] nn by simp
  ultimately show ?thesis by (rule jle_trans)
qed

lemma clamped_number: "is_finite t \<Longrightarrow> clampedResetMs t header \<noteq> NaN"
  using finite_jadd_not_NaN [of t BREAKER_MAX_COOLDOWN_MS]
  by (auto simp: clampedResetMs_def Let_def BREAKER_MAX_COOLDOWN_MS_def is_finite_iff split: option.split)

interpretation silence: machine gateStep "silenced now base n" "noSuccess now" for now base n
proof
  fix g e assume inv: "silenced now base n g" and ok: "noSuccess now e"
  then have base: "jlt (Fin 0) base" "is_finite base" "is_finite now" "baseCooldownMs g = base"
    by (auto simp: silenced_def)
  have more: "jle (jadd now (breakerDelay base n)) (jadd t (breakerDelay base (Suc (rg_breakerFailures g))))"
      "jadd t (breakerDelay base (Suc (rg_breakerFailures g))) \<noteq> NaN" if "jle now t" "is_finite t" for t
    using later_cooldown [OF base(1-3) that(2,1)] inv finite_jadd_not_NaN [OF that(2) breakerDelay_number [OF base(1,2)]]
    by (auto simp: silenced_def)
  have keyed: "jle (jadd now (breakerDelay base n))
      (jmax (jadd t (breakerDelay base (Suc (rg_breakerFailures g)))) (clampedResetMs t header))"
    if "jle now t" "is_finite t" for t header
    using more [OF that] clamped_number [OF that(2)]
    by (intro jle_trans [OF more(1) [OF that] jmax_ge1]) auto
  show "silenced now base n (gateStep g e)"
    using inv ok more keyed base(4)
    by (cases e) (auto simp: silenced_def baseCooldownMs_def jevRequest_def claimJevSlot_def claimSlot_def
        recordJevResponse_def jupiterRequest_def claimJupiterSlot_def jupiterWake_def
        releaseJupiterSlot_def recordJupiterResponse_def Let_def)
qed

lemma limited_silenced:
  assumes "jlt (Fin 0) (baseCooldownMs g)" "is_finite (baseCooldownMs g)" "is_finite now"
    and "g' \<in> {recordJevResponse now 429 g, recordJupiterResponse now 429 header g}"
  shows "silenced now (baseCooldownMs g) (Suc (rg_breakerFailures g)) g'"
proof -
  have n: "jadd now (breakerDelay (baseCooldownMs g) (Suc (rg_breakerFailures g))) \<noteq> NaN"
    by (rule finite_jadd_not_NaN [OF assms(3) breakerDelay_number [OF assms(1,2)]])
  have "baseCooldownMs g' = baseCooldownMs g"
    using assms(4) by (auto simp: baseCooldownMs_def recordJevResponse_def recordJupiterResponse_def Let_def)
  then show ?thesis
    using assms n clamped_number [OF assms(3), of header]
    by (auto simp: silenced_def recordJevResponse_def recordJupiterResponse_def Let_def intro!: jmax_ge1)
qed

lemma limited_until:
  assumes "jlt (Fin 0) (baseCooldownMs g)" "is_finite (baseCooldownMs g)" "is_finite now"
    and "jle (Fin 0) (jadd now BREAKER_MAX_COOLDOWN_MS)"
    and "g' \<in> {recordJevResponse now 429 g, recordJupiterResponse now 429 header g}"
  shows "jle (rg_breakerCooldownUntil g') (jadd now BREAKER_MAX_COOLDOWN_MS)"
proof -
  have mx: "BREAKER_MAX_COOLDOWN_MS \<noteq> NaN" by (simp add: BREAKER_MAX_COOLDOWN_MS_def)
  have n: "jadd now BREAKER_MAX_COOLDOWN_MS \<noteq> NaN" by (rule finite_jadd_not_NaN [OF assms(3) mx])
  let ?d = "breakerDelay (baseCooldownMs g) (Suc (rg_breakerFailures g))"
  have dn: "jadd now ?d \<noteq> NaN"
    by (rule finite_jadd_not_NaN [OF assms(3) breakerDelay_number [OF assms(1,2)]])
  have "jle (jadd now ?d) (jadd now BREAKER_MAX_COOLDOWN_MS)"
    using jadd_mono_left [OF breaker_delay.delay_le_cap [OF assms(1,2) mx], of "Suc (rg_breakerFailures g)" now] n dn
    by (simp add: jadd_commute)
  moreover have "jle (clampedResetMs now header) (jadd now BREAKER_MAX_COOLDOWN_MS)"
    using assms(4) n
    by (auto simp: clampedResetMs_def Let_def is_finite_iff split: option.split intro!: jmin_le2)
  ultimately show ?thesis
    using assms(5) by (auto simp: recordJevResponse_def recordJupiterResponse_def Let_def jmax_jle_iff)
qed

text \<open>
  C36. A 429 silences a gate and the gate heals by itself.  From a 429 on, whatever is asked, woken
  up, aborted or answered without success until then, no request of either gate is sent before the
  cooldown is over: neither a new one nor one that was already waiting for its slot.  The cooldown is
  the base doubled once for every 429 in a row before, an hour at most; the Jupiter gate also waits
  for the reset stamp of the server, but never longer than that hour.  Every success answer clears the
  count and the cooldown, and once the cooldown is over requests are let through.  The clock is finite
  and the base positive.
\<close>
theorem rate_limit_silences_and_heals:
  assumes "jlt (Fin 0) (baseCooldownMs g)" "is_finite (baseCooldownMs g)" "is_finite now"
    and "jle (Fin 0) (jadd now (Fin 3600000))"
    and limited: "g1 \<in> {recordJevResponse now 429 g, recordJupiterResponse now 429 header g}"
    and quiet: "\<forall>e \<in> set es. noSuccess now e" and run: "g2 = run_machine gateStep g1 es"
    and cooldown: "cooldown = jmin (jmul (baseCooldownMs g) (jpow2 (rg_breakerFailures g))) (Fin 3600000)"
  shows "(rg_breakerFailures g1 = rg_breakerFailures g + 1 \<and>
      rg_breakerCooldownUntil (recordJevResponse now 429 g) = jadd now cooldown \<and>
      jle (jadd now cooldown) (rg_breakerCooldownUntil g1) \<and>
      jle (rg_breakerCooldownUntil g1) (jadd now (Fin 3600000))) \<and>
    (\<forall>later. jlt later (jadd now cooldown) \<longrightarrow>
      jevRequest later g2 = (FailFast, g2) \<and> jevWake later g2 = FailFast \<and>
      jupiterRequest keyed later g2 = (FailFast, g2) \<and>
      jupiterWake keyed slotAt later aborted g2 = (FailFast, g2)) \<and>
    (\<forall>t status h. status_ok status \<longrightarrow>
      recordJevResponse t status g2 = g2\<lparr>rg_breakerFailures := 0, rg_breakerCooldownUntil := Fin 0\<rparr> \<and>
      recordJupiterResponse t status h g2 = g2\<lparr>rg_breakerFailures := 0, rg_breakerCooldownUntil := Fin 0\<rparr>) \<and>
    (\<forall>t. \<not> jlt t (rg_breakerCooldownUntil g2) \<longrightarrow>
      fst (jevRequest t g2) \<noteq> FailFast \<and> jevWake t g2 = SendNow \<and> fst (jupiterRequest keyed t g2) \<noteq> FailFast)"
proof -
  have cd: "breakerDelay (baseCooldownMs g) (Suc (rg_breakerFailures g)) = cooldown"
    by (simp add: breakerDelay_def cooldown BREAKER_MAX_COOLDOWN_MS_def)
  note first = limited_silenced [OF assms(1-3) limited]
  have "silenced now (baseCooldownMs g) (Suc (rg_breakerFailures g)) g2"
    unfolding run by (rule silence.run_inv [OF first quiet])
  then have silent: "jle (jadd now cooldown) (rg_breakerCooldownUntil g2)" "0 < rg_breakerFailures g2"
    by (auto simp: silenced_def cd)
  have early: "jlt later (rg_breakerCooldownUntil g2)" if "jlt later (jadd now cooldown)" for later
    by (rule jlt_jle_trans [OF that silent(1)])
  have heals: "jle (rg_breakerCooldownUntil g1) (jadd now (Fin 3600000))"
    using limited_until [OF assms(1-3) _ limited] assms(4) by (simp add: BREAKER_MAX_COOLDOWN_MS_def)
  have counted: "rg_breakerFailures g1 = rg_breakerFailures g + 1"
      "jle (jadd now cooldown) (rg_breakerCooldownUntil g1)"
      "rg_breakerCooldownUntil (recordJevResponse now 429 g) = jadd now cooldown"
    using first limited by (auto simp: silenced_def cd recordJevResponse_def recordJupiterResponse_def Let_def)
  show ?thesis
    using counted heals early silent(2)
    by (auto simp: jevRequest_def jevWake_def jupiterRequest_def jupiterWake_def recordJevResponse_def
        recordJupiterResponse_def waitJupiterSlot_def status_ok_def split: prod.splits)
qed

text \<open>A success that was in flight ends a cooldown at once, however much of it is left.\<close>

lemma success_ends_cooldown:
  assumes "0 < rg_breakerFailures g" "status_ok status"
  shows "rg_breakerCooldownUntil (recordJevResponse t status g) = Fin 0 \<and>
    rg_breakerCooldownUntil (recordJupiterResponse t status header g) = Fin 0"
  using assms by (auto simp: recordJevResponse_def recordJupiterResponse_def status_ok_def)

text \<open>
  The verdict cache returns what was stored for the key until its time to live is over and
  nothing after that, never mixes keys, and never holds more than 1001 verdicts, along any sequence
  of stores and reads.
\<close>
theorem verdict_cache_roundtrip:
  shows "fst (jevCachedVerdict k now (jevStoreVerdict k j t0 c)) =
      (if jge (jsub now t0) JEV_VERDICT_TTL_MS then None else Some j) \<and>
    (length c \<le> 1000 \<longrightarrow> k' \<noteq> k \<longrightarrow>
      fst (jevCachedVerdict k' now (jevStoreVerdict k j t0 c)) = fst (jevCachedVerdict k' now c)) \<and>
    length (run_machine cacheStep [] es) \<le> 1001"
proof -
  have "cache_bounded (run_machine cacheStep [] es)"
    by (rule cache.run_inv) (simp_all add: cache_bounded_def)
  then show ?thesis
    by (auto simp: jevCachedVerdict_def jevStoreVerdict_def Let_def update_conv' cache_bounded_def
        split: option.split)
qed

section \<open>Backoff witnesses\<close>

definition sampleBreaker :: ProposalCircuitBreakerOptions where
  "sampleBreaker = \<lparr>cbo_failureThreshold = Fin 2, cbo_cooldownMs = Fin 100\<rparr>"

theorem breaker_witness:
  "fst (isOpen sampleBreaker (Fin 50) (run_machine (breakerStep sampleBreaker) newBreaker
     [Failure (Fin 1), Failure (Fin 7)]))"
proof -
  have "cbo_failureThreshold sampleBreaker = Fin 2" "(0 :: rat) < 2" "2 = nat \<lceil>2 :: rat\<rceil>"
    by (simp_all add: sampleBreaker_def)
  note b = breaker_open_iff_threshold [OF this refl refl, of "Fin 50" "[Failure (Fin 1), Failure (Fin 7)]"]
  have "\<not> cooled 2 (cbo_cooldownMs sampleBreaker) [Fin 1, Fin 7] (Fin 50)" by code_simp
  then show ?thesis using b by simp
qed

definition sampleGate :: RateGate where
  "sampleGate = (resetGateForTest False)\<lparr>rg_breakerFailures := 2\<rparr>"

theorem claimed_slots_witness: "jle (Fin 3000) (Fin 3000)"
proof -
  have c1: "claimSlot (Fin 2000) (Fin 1000) sampleGate =
      ((Fin 1000, Fin 0), sampleGate\<lparr>rg_nextSlotAt := Fin 3000\<rparr>)"
    by (simp add: claimSlot_def sampleGate_def resetGateForTest_def MAX_SLOT_WAIT_MS_def jsub_def num_simps)
  have c2: "claimSlot (Fin 2000) (Fin 1500) (sampleGate\<lparr>rg_nextSlotAt := Fin 3000,
        rg_breakerCooldownUntil := Fin 0, rg_breakerFailures := 0\<rparr>) =
      ((Fin 3000, Fin 1500), resetGateForTest False\<lparr>rg_nextSlotAt := Fin 5000\<rparr>)"
    by (simp add: claimSlot_def sampleGate_def resetGateForTest_def MAX_SLOT_WAIT_MS_def jsub_def num_simps)
  from claimed_slots_spaced[OF c1 c2] show ?thesis by (simp add: num_simps)
qed

theorem rate_limit_witness:
  "fst (jevRequest (Fin 200000) (run_machine gateStep (recordJevResponse (Fin 0) 429 sampleGate)
     [JevAnswer (Fin 10) 500, JevAsk (Fin 20)])) = FailFast"
proof -
  have "jlt (Fin 0) (baseCooldownMs sampleGate)" "is_finite (baseCooldownMs sampleGate)"
    "is_finite (Fin 0)" "jle (Fin 0) (jadd (Fin 0) (Fin 3600000))"
    "recordJevResponse (Fin 0) 429 sampleGate \<in>
       {recordJevResponse (Fin 0) 429 sampleGate, recordJupiterResponse (Fin 0) 429 None sampleGate}"
    "\<forall>e \<in> set [JevAnswer (Fin 10) 500, JevAsk (Fin 20)]. noSuccess (Fin 0) e"
    by (simp_all add: sampleGate_def resetGateForTest_def baseCooldownMs_def BREAKER_BASE_COOLDOWN_MS_def
        status_ok_def num_simps)
  moreover have "jlt (Fin 200000) (jadd (Fin 0) (jmin (jmul (baseCooldownMs sampleGate)
      (jpow2 (rg_breakerFailures sampleGate))) (Fin 3600000)))"
    by (simp add: sampleGate_def resetGateForTest_def baseCooldownMs_def jpow2_def
        BREAKER_BASE_COOLDOWN_MS_def num_simps)
  ultimately show ?thesis
    using rate_limit_silences_and_heals [OF _ _ _ _ _ _ refl refl] by (metis fst_conv)
qed

theorem verdict_cache_witness:
  "fst (jevCachedVerdict ''q'' (Fin 5) (jevStoreVerdict ''k'' (1 :: nat) (Fin 3) [])) =
     fst (jevCachedVerdict ''q'' (Fin 5) [])"
proof -
  have "length ([] :: (string \<times> nat JevCacheRow) list) \<le> 1000" "''q'' \<noteq> ''k''" by simp_all
  from verdict_cache_roundtrip[THEN conjunct2, THEN conjunct1, rule_format, OF this]
  show ?thesis .
qed

end
