(* ===== verification/CandidateLifecycle.thy ===== *)
theory CandidateLifecycle
  imports EntrySizing
begin

text \<open>
  The lifecycle of a token candidate (\<^verbatim>\<open>engine/candidate-policy.ts\<close>): health classification,
  the state machine \<open>transitionCandidate\<close> with its events, and the sweep of one screening cycle
  over the screened pools (\<^verbatim>\<open>engine/candidate-discovery.ts\<close>).  The machine's invariant and its
  order (timestamps never go back, a rejection is final) are instances of \<open>machine\<close> and
  \<open>monotone_machine\<close>.  The scan counter, which only ever starts at zero and is incremented, is a
  natural number.
\<close>

section \<open>Records and events\<close>

datatype TokenCandidateState = Discovered | Observing | Eligible | Entered | CoolingDown | Rejected

record TokenCandidateRecord =
  cand_id :: string
  cand_walletAddress :: string
  cand_agentInstanceId :: string
  cand_poolAddress :: string
  cand_tokenMint :: string
  cand_state :: TokenCandidateState
  cand_healthyScanCount :: nat
  cand_firstSeenAt :: jsnum
  cand_lastSeenAt :: jsnum
  cand_eligibleAt :: "jsnum option"
  cand_enteredAt :: "jsnum option"
  cand_cooldownUntil :: "jsnum option"
  cand_rejectionReason :: "string option"
  cand_createdAt :: jsnum
  cand_updatedAt :: jsnum

record CandidatePolicy =
  pol_minHealthyScans :: jsnum
  pol_minObservationMs :: jsnum

record CandidateIdentity =
  ident_id :: string
  ident_walletAddress :: string
  ident_agentInstanceId :: string
  ident_poolAddress :: string
  ident_tokenMint :: string
  ident_firstSeenAt :: jsnum

datatype CandidateSafetyResult = Safe | HardSafety string

datatype TransientReason =
    MarketDataUnavailable
  | PriceEvidenceUnavailable
  | PriceEvidenceStale
  | RouteUnavailable
  | ScreenerRejected

datatype CandidateHealth = Healthy | TransientFailure TransientReason | HardSafetyFailure string

record TokenPriceEvidence =
  ev_mint :: string
  ev_priceUsd :: jsnum
  ev_observedAt :: jsnum
  ev_fallbackUsed :: bool

record CandidateHealthInput =
  hi_safety :: CandidateSafetyResult
  hi_priceEvidence :: "TokenPriceEvidence list"
  hi_requiredMints :: "string list"
  hi_now :: jsnum
  hi_maxMarketDataAgeMs :: jsnum
  hi_routeAvailable :: bool
  hi_screenerAccepted :: bool
  hi_marketDataAvailable :: bool

datatype CandidateLifecycleEvent =
    Scan jsnum CandidateHealth
  | EntryConfirmed jsnum
  | CooldownStarted jsnum jsnum
  | CooldownElapsed jsnum

section \<open>Health\<close>

definition isFreshPriceEvidence :: "TokenPriceEvidence \<Rightarrow> jsnum \<Rightarrow> jsnum \<Rightarrow> bool" where
  "isFreshPriceEvidence evidence now maxMarketDataAgeMs \<longleftrightarrow>
     \<not> ev_fallbackUsed evidence \<and> is_finite (ev_priceUsd evidence) \<and>
     jgt (ev_priceUsd evidence) (Fin 0) \<and> jle (ev_observedAt evidence) now \<and>
     jle (jsub now (ev_observedAt evidence)) maxMarketDataAgeMs"

definition hasFreshPriceEvidence :: "CandidateHealthInput \<Rightarrow> bool" where
  "hasFreshPriceEvidence inp \<longleftrightarrow>
     0 < length (hi_requiredMints inp) \<and>
     list_all (\<lambda>mint. list_ex (\<lambda>evidence. ev_mint evidence = mint \<and>
        isFreshPriceEvidence evidence (hi_now inp) (hi_maxMarketDataAgeMs inp))
        (hi_priceEvidence inp)) (hi_requiredMints inp)"

definition evaluateCandidateHealth :: "CandidateHealthInput \<Rightarrow> CandidateHealth" where
  "evaluateCandidateHealth inp =
     (case hi_safety inp of
        HardSafety r \<Rightarrow> HardSafetyFailure r
      | Safe \<Rightarrow>
          if \<not> hi_marketDataAvailable inp then TransientFailure MarketDataUnavailable
          else if \<not> hasFreshPriceEvidence inp then
            let hasEvidence = 0 < length (hi_requiredMints inp) \<and>
                  list_all (\<lambda>mint. list_ex (\<lambda>evidence. ev_mint evidence = mint)
                    (hi_priceEvidence inp)) (hi_requiredMints inp)
            in TransientFailure (if hasEvidence then PriceEvidenceStale else PriceEvidenceUnavailable)
          else if \<not> hi_routeAvailable inp then TransientFailure RouteUnavailable
          else if \<not> hi_screenerAccepted inp then TransientFailure ScreenerRejected
          else Healthy)"

section \<open>Transitions\<close>

definition atOrAfter :: "jsnum \<Rightarrow> jsnum \<Rightarrow> jsnum" where
  "atOrAfter previous observed = jmax previous observed"

text \<open>The updates of \<^verbatim>\<open>updateSeen\<close> are applied first, then both timestamps.\<close>

definition updateSeen ::
  "TokenCandidateRecord \<Rightarrow> jsnum \<Rightarrow> (TokenCandidateRecord \<Rightarrow> TokenCandidateRecord)
     \<Rightarrow> TokenCandidateRecord" where
  "updateSeen candidate occurredAt updates =
     (let updatedAt = atOrAfter (cand_updatedAt candidate) occurredAt
      in (updates candidate)
           \<lparr>cand_lastSeenAt := atOrAfter (cand_lastSeenAt candidate) occurredAt,
            cand_updatedAt := updatedAt\<rparr>)"

definition createTokenCandidate :: "CandidateIdentity \<Rightarrow> TokenCandidateRecord" where
  "createTokenCandidate identity =
     \<lparr>cand_id = ident_id identity,
      cand_walletAddress = ident_walletAddress identity,
      cand_agentInstanceId = ident_agentInstanceId identity,
      cand_poolAddress = ident_poolAddress identity,
      cand_tokenMint = ident_tokenMint identity,
      cand_state = Discovered,
      cand_healthyScanCount = 0,
      cand_firstSeenAt = ident_firstSeenAt identity,
      cand_lastSeenAt = ident_firstSeenAt identity,
      cand_eligibleAt = None,
      cand_enteredAt = None,
      cand_cooldownUntil = None,
      cand_rejectionReason = None,
      cand_createdAt = ident_firstSeenAt identity,
      cand_updatedAt = ident_firstSeenAt identity\<rparr>"

definition isCandidateEligible :: "TokenCandidateRecord \<Rightarrow> CandidatePolicy \<Rightarrow> bool" where
  "isCandidateEligible candidate policy \<longleftrightarrow>
     jge (jnat (cand_healthyScanCount candidate)) (pol_minHealthyScans policy) \<and>
     jge (jsub (cand_lastSeenAt candidate) (cand_firstSeenAt candidate)) (pol_minObservationMs policy)"

definition recordHealthyScan ::
  "TokenCandidateRecord \<Rightarrow> jsnum \<Rightarrow> CandidatePolicy \<Rightarrow> TokenCandidateRecord" where
  "recordHealthyScan candidate observedAt policy =
     (let healthyScanCount = cand_healthyScanCount candidate + 1;
          observed = updateSeen candidate observedAt
            (\<lambda>c. c\<lparr>cand_healthyScanCount := healthyScanCount\<rparr>)
      in if \<not> isCandidateEligible observed policy
         then observed\<lparr>cand_state := Observing, cand_eligibleAt := None, cand_rejectionReason := None\<rparr>
         else observed\<lparr>cand_state := Eligible, cand_eligibleAt := Some (cand_lastSeenAt observed),
           cand_rejectionReason := None\<rparr>)"

definition recordTransientFailure :: "TokenCandidateRecord \<Rightarrow> jsnum \<Rightarrow> TokenCandidateRecord" where
  "recordTransientFailure candidate observedAt =
     (if cand_state candidate \<in> {Discovered, Observing, Eligible}
      then updateSeen candidate observedAt
        (\<lambda>c. c\<lparr>cand_state := Observing, cand_healthyScanCount := 0, cand_eligibleAt := None,
           cand_rejectionReason := None\<rparr>)
      else updateSeen candidate observedAt (\<lambda>c. c))"

definition recordScan ::
  "TokenCandidateRecord \<Rightarrow> jsnum \<Rightarrow> CandidateHealth \<Rightarrow> CandidatePolicy \<Rightarrow> TokenCandidateRecord" where
  "recordScan candidate observedAt health policy =
     (case health of
        HardSafetyFailure r \<Rightarrow> updateSeen candidate observedAt
          (\<lambda>c. c\<lparr>cand_state := Rejected, cand_healthyScanCount := 0, cand_eligibleAt := None,
             cand_cooldownUntil := None, cand_rejectionReason := Some r\<rparr>)
      | TransientFailure _ \<Rightarrow> recordTransientFailure candidate observedAt
      | Healthy \<Rightarrow>
          if cand_state candidate \<in> {Discovered, Observing, Eligible}
          then recordHealthyScan candidate observedAt policy
          else updateSeen candidate observedAt (\<lambda>c. c))"

fun transitionCandidate ::
  "TokenCandidateRecord \<Rightarrow> CandidateLifecycleEvent \<Rightarrow> CandidatePolicy \<Rightarrow> TokenCandidateRecord" where
  "transitionCandidate candidate (Scan observedAt health) policy =
     recordScan candidate observedAt health policy"
| "transitionCandidate candidate (EntryConfirmed occurredAt) policy =
     (if cand_state candidate = Eligible
      then updateSeen candidate occurredAt
        (\<lambda>c. c\<lparr>cand_state := Entered, cand_enteredAt := Some occurredAt, cand_cooldownUntil := None\<rparr>)
      else candidate)"
| "transitionCandidate candidate (CooldownStarted occurredAt until) policy =
     (if cand_state candidate = Entered
      then updateSeen candidate occurredAt
        (\<lambda>c. c\<lparr>cand_state := CoolingDown, cand_cooldownUntil := Some until\<rparr>)
      else candidate)"
| "transitionCandidate candidate (CooldownElapsed occurredAt) policy =
     (if cand_state candidate = CoolingDown \<and>
         (case cand_cooldownUntil candidate of None \<Rightarrow> False | Some u \<Rightarrow> jge occurredAt u)
      then updateSeen candidate occurredAt
        (\<lambda>c. c\<lparr>cand_state := Discovered, cand_healthyScanCount := 0, cand_eligibleAt := None,
           cand_cooldownUntil := None, cand_rejectionReason := None\<rparr>)
      else candidate)"

section \<open>One screening cycle\<close>

record ScreenedPool =
  sp_address :: string
  sp_tvlUsd :: jsnum
  sp_volume24hUsd :: jsnum
  sp_fees24hUsd :: jsnum
  sp_apr :: jsnum
  sp_feeIlRatio :: jsnum
  sp_volumeAuth :: jsnum
  sp_binUtilization :: jsnum
  sp_tokenX :: string
  sp_tokenY :: string
  sp_createdAtMs :: "jsnum option"

record AdvanceScreenedCandidatesInput =
  adv_walletAddress :: string
  adv_agentInstanceId :: string
  adv_screenedPools :: "ScreenedPool list"
  adv_existingCandidates :: "TokenCandidateRecord list"
  adv_priceEvidence :: "TokenPriceEvidence list"
  adv_routeAvailableMints :: "string list"
  adv_now :: jsnum
  adv_policy :: CandidatePolicy
  adv_maxMarketDataAgeMs :: jsnum

record ScreenedCandidateAdvance =
  adv_updatedCandidates :: "TokenCandidateRecord list"
  adv_eligiblePoolAddresses :: "string list"

definition candidateMint :: "ScreenedPool \<Rightarrow> string" where
  "candidateMint pool = (if sp_tokenX pool = SOL_MINT then sp_tokenY pool else sp_tokenX pool)"

definition candidateId :: "string \<Rightarrow> string \<Rightarrow> string \<Rightarrow> string \<Rightarrow> string" where
  "candidateId walletAddress agentInstanceId poolAddress tokenMint =
     walletAddress @ '':'' @ agentInstanceId @ '':'' @ poolAddress @ '':'' @ tokenMint"

definition poolCandidateId :: "AdvanceScreenedCandidatesInput \<Rightarrow> ScreenedPool \<Rightarrow> string" where
  "poolCandidateId inp pool = candidateId (adv_walletAddress inp) (adv_agentInstanceId inp)
     (sp_address pool) (candidateMint pool)"

definition poolHealthInput ::
  "AdvanceScreenedCandidatesInput \<Rightarrow> ScreenedPool \<Rightarrow> CandidateHealthInput" where
  "poolHealthInput inp pool =
     \<lparr>hi_safety = Safe,
      hi_priceEvidence = adv_priceEvidence inp,
      hi_requiredMints = [sp_tokenX pool, sp_tokenY pool],
      hi_now = adv_now inp,
      hi_maxMarketDataAgeMs = adv_maxMarketDataAgeMs inp,
      hi_routeAvailable = list_all (\<lambda>mint. mint = SOL_MINT \<or> mint \<in> set (adv_routeAvailableMints inp))
        [sp_tokenX pool, sp_tokenY pool],
      hi_screenerAccepted = True,
      hi_marketDataAvailable = is_finite (sp_tvlUsd pool) \<and> jgt (sp_tvlUsd pool) (Fin 0) \<and>
        is_finite (sp_volume24hUsd pool) \<and> jge (sp_volume24hUsd pool) (Fin 0)\<rparr>"

definition advancePool ::
  "AdvanceScreenedCandidatesInput \<Rightarrow> ScreenedPool \<Rightarrow> TokenCandidateRecord" where
  "advancePool inp pool =
     (let tokenMint = candidateMint pool;
          cid = poolCandidateId inp pool;
          existingById = map_of (rev (map (\<lambda>c. (cand_id c, c)) (adv_existingCandidates inp)));
          candidate = nullish (existingById cid) (createTokenCandidate
            \<lparr>ident_id = cid, ident_walletAddress = adv_walletAddress inp,
             ident_agentInstanceId = adv_agentInstanceId inp, ident_poolAddress = sp_address pool,
             ident_tokenMint = tokenMint, ident_firstSeenAt = adv_now inp\<rparr>)
      in transitionCandidate candidate
           (Scan (adv_now inp) (evaluateCandidateHealth (poolHealthInput inp pool)))
           (adv_policy inp))"

definition advanceScreenedCandidates ::
  "AdvanceScreenedCandidatesInput \<Rightarrow> ScreenedCandidateAdvance" where
  "advanceScreenedCandidates inp =
     (let updatedCandidates = map (advancePool inp) (adv_screenedPools inp)
      in \<lparr>adv_updatedCandidates = updatedCandidates,
          adv_eligiblePoolAddresses = unique_list (map cand_poolAddress
            (filter (\<lambda>c. cand_state c = Eligible) updatedCandidates))\<rparr>)"

section \<open>Invariant and order of the machine\<close>

text \<open>What each state guarantees about the record.\<close>

fun state_ok :: "CandidatePolicy \<Rightarrow> TokenCandidateRecord \<Rightarrow> TokenCandidateState \<Rightarrow> bool" where
  "state_ok policy c Discovered \<longleftrightarrow>
     cand_healthyScanCount c = 0 \<and> cand_eligibleAt c = None \<and> cand_cooldownUntil c = None"
| "state_ok policy c Observing \<longleftrightarrow>
     cand_eligibleAt c = None \<and> cand_cooldownUntil c = None \<and> cand_rejectionReason c = None"
| "state_ok policy c Eligible \<longleftrightarrow>
     isCandidateEligible c policy \<and> cand_eligibleAt c = Some (cand_lastSeenAt c) \<and>
     cand_cooldownUntil c = None \<and> cand_rejectionReason c = None"
| "state_ok policy c Entered \<longleftrightarrow> cand_enteredAt c \<noteq> None \<and> cand_cooldownUntil c = None"
| "state_ok policy c CoolingDown \<longleftrightarrow> cand_enteredAt c \<noteq> None \<and> cand_cooldownUntil c \<noteq> None"
| "state_ok policy c Rejected \<longleftrightarrow>
     cand_rejectionReason c \<noteq> None \<and> cand_healthyScanCount c = 0 \<and> cand_eligibleAt c = None \<and>
     cand_cooldownUntil c = None"

definition candidate_ok :: "CandidatePolicy \<Rightarrow> TokenCandidateRecord \<Rightarrow> bool" where
  "candidate_ok policy c \<longleftrightarrow>
     jle (cand_firstSeenAt c) (cand_lastSeenAt c) \<and> jle (cand_createdAt c) (cand_updatedAt c) \<and>
     state_ok policy c (cand_state c)"

fun event_time :: "CandidateLifecycleEvent \<Rightarrow> jsnum" where
  "event_time (Scan t _) = t"
| "event_time (EntryConfirmed t) = t"
| "event_time (CooldownStarted t _) = t"
| "event_time (CooldownElapsed t) = t"

definition event_ok :: "CandidateLifecycleEvent \<Rightarrow> bool" where
  "event_ok e \<longleftrightarrow> event_time e \<noteq> NaN"

text \<open>The order: same identity, later timestamps, and a rejection stays.\<close>

definition candidate_le :: "TokenCandidateRecord \<Rightarrow> TokenCandidateRecord \<Rightarrow> bool" where
  "candidate_le c d \<longleftrightarrow>
     cand_id c = cand_id d \<and> cand_poolAddress c = cand_poolAddress d \<and>
     cand_tokenMint c = cand_tokenMint d \<and> cand_firstSeenAt c = cand_firstSeenAt d \<and>
     jle (cand_lastSeenAt c) (cand_lastSeenAt d) \<and> jle (cand_updatedAt c) (cand_updatedAt d) \<and>
     (cand_state c = Rejected \<longrightarrow> cand_state d = Rejected)"

lemma atOrAfter_ge: "jle a p \<Longrightarrow> t \<noteq> NaN \<Longrightarrow> jle a (atOrAfter p t) \<and> jle p (atOrAfter p t)"
  unfolding atOrAfter_def by (metis jle_not_NaN jle_trans jmax_eq_NaN_iff jmax_ge1)

lemmas transition_defs = recordScan_def recordHealthyScan_def recordTransientFailure_def
  updateSeen_def Let_def

lemma transition_times:
  assumes "candidate_ok policy c" "event_ok e"
  shows "jle (cand_lastSeenAt c) (cand_lastSeenAt (transitionCandidate c e policy))"
    "jle (cand_updatedAt c) (cand_updatedAt (transitionCandidate c e policy))"
    "cand_firstSeenAt (transitionCandidate c e policy) = cand_firstSeenAt c"
    "cand_createdAt (transitionCandidate c e policy) = cand_createdAt c"
    "cand_id (transitionCandidate c e policy) = cand_id c"
    "cand_poolAddress (transitionCandidate c e policy) = cand_poolAddress c"
    "cand_tokenMint (transitionCandidate c e policy) = cand_tokenMint c"
    "cand_state c = Rejected \<Longrightarrow> cand_state (transitionCandidate c e policy) = Rejected"
  using assms atOrAfter_ge[of "cand_firstSeenAt c" "cand_lastSeenAt c" "event_time e"]
    atOrAfter_ge[of "cand_createdAt c" "cand_updatedAt c" "event_time e"] jle_not_NaN
  by (cases e; auto simp: candidate_ok_def event_ok_def transition_defs split: CandidateHealth.split)+

lemma transition_state_ok:
  assumes "candidate_ok policy c"
  shows "state_ok policy (transitionCandidate c e policy) (cand_state (transitionCandidate c e policy))"
proof (cases e)
  case (Scan t h)
  then show ?thesis using assms
    by (cases "cand_state c"; cases h)
      (simp_all add: candidate_ok_def transition_defs isCandidateEligible_def)
qed (use assms in \<open>auto simp: candidate_ok_def transition_defs split: option.split\<close>)

interpretation candidate: monotone_machine "\<lambda>c e. transitionCandidate c e policy" "candidate_ok policy"
  event_ok candidate_le for policy
proof
  fix c e assume ok: "candidate_ok policy c" "event_ok e"
  note t = transition_times[OF ok]
  show "candidate_ok policy (transitionCandidate c e policy)"
    using ok(1) t(1-4) transition_state_ok[OF ok(1), of e]
    by (auto simp: candidate_ok_def intro: jle_trans)
  show "candidate_le c (transitionCandidate c e policy)"
    using t by (simp add: candidate_le_def)
next
  fix c assume "candidate_ok policy c"
  then show "candidate_le c c" by (auto simp: candidate_le_def candidate_ok_def dest: jle_not_NaN)
qed (auto simp: candidate_le_def intro: jle_trans)

lemma created_ok: "ident_firstSeenAt i \<noteq> NaN \<Longrightarrow> candidate_ok policy (createTokenCandidate i)"
  by (simp add: candidate_ok_def createTokenCandidate_def)

fun is_healthy_scan :: "CandidateLifecycleEvent \<Rightarrow> bool" where
  "is_healthy_scan (Scan _ Healthy) \<longleftrightarrow> True"
| "is_healthy_scan _ \<longleftrightarrow> False"

lemma scan_count_step:
  "cand_healthyScanCount (transitionCandidate c e policy) \<le>
     cand_healthyScanCount c + (if is_healthy_scan e then 1 else 0)"
proof (cases e)
  case (Scan t h)
  then show ?thesis by (cases h) (auto simp: transition_defs)
qed (auto simp: transition_defs split: option.split)

lemma scan_count_run:
  "cand_healthyScanCount (run_machine (\<lambda>c e. transitionCandidate c e policy) c es) \<le>
     cand_healthyScanCount c + length (filter is_healthy_scan es)"
proof (induction es arbitrary: c)
  case (Cons e es)
  show ?case
    using Cons[of "transitionCandidate c e policy"] scan_count_step[of c e policy] by auto
qed simp

text \<open>A scan makes a candidate eligible only when it is healthy.\<close>

lemma scan_eligible_healthy:
  assumes "cand_state (transitionCandidate c (Scan t h) policy) = Eligible"
  shows "h = Healthy"
  using assms by (cases h; cases "cand_state c") (auto simp: transition_defs)

lemma healthy_iff:
  "evaluateCandidateHealth inp = Healthy \<longleftrightarrow>
     hi_safety inp = Safe \<and> hi_marketDataAvailable inp \<and> hasFreshPriceEvidence inp \<and>
     hi_routeAvailable inp \<and> hi_screenerAccepted inp"
  by (auto simp: evaluateCandidateHealth_def Let_def split: CandidateSafetyResult.splits)

section \<open>Properties of the lifecycle\<close>

text \<open>
  C27. However the lifecycle events arrive, a candidate keeps what its state promises: an eligible
  one meets both the scan-count and the observation-age gate and dates its eligibility by its last
  sighting, an entered or cooling one records its entry, a cooling one its end, a rejected one its
  reason.
\<close>
theorem candidate_invariant:
  assumes "ident_firstSeenAt i \<noteq> NaN" "\<forall>e \<in> set es. event_ok e"
    and "c = run_machine (\<lambda>c e. transitionCandidate c e policy) (createTokenCandidate i) es"
  shows "state_ok policy c (cand_state c) \<and> jle (cand_firstSeenAt c) (cand_lastSeenAt c) \<and>
    cand_firstSeenAt c = ident_firstSeenAt i"
proof -
  have "candidate_ok policy c"
    unfolding assms(3) using assms(1,2) by (intro candidate.run_inv created_ok) auto
  moreover have "candidate_le (createTokenCandidate i) c"
    unfolding assms(3) using assms(1,2) by (intro candidate.run_le created_ok[where policy = policy]) auto
  ultimately show ?thesis
    by (auto simp: candidate_ok_def candidate_le_def createTokenCandidate_def)
qed

text \<open>
  Timestamps never go back and a rejection is final: along any events the last-seen and
  updated times of a candidate only grow, its identity never changes, and once rejected it stays
  rejected, whatever healthy scans follow.
\<close>
theorem candidate_monotone:
  assumes "candidate_ok policy c" "\<forall>e \<in> set es. event_ok e"
    and "d = run_machine (\<lambda>c e. transitionCandidate c e policy) c es"
  shows "cand_id d = cand_id c \<and> jle (cand_lastSeenAt c) (cand_lastSeenAt d) \<and>
    jle (cand_updatedAt c) (cand_updatedAt d) \<and> (cand_state c = Rejected \<longrightarrow> cand_state d = Rejected)"
  using candidate.run_le[OF assms(1,2)] assms(3) by (simp add: candidate_le_def)

text \<open>
  No candidate is eligible before it has earned it: a candidate that is eligible after some
  events has been healthy in at least the minimum number of scans among them and has been
  observed for the minimum time.
\<close>
theorem eligible_is_earned:
  assumes "ident_firstSeenAt i \<noteq> NaN" "\<forall>e \<in> set es. event_ok e"
    and "c = run_machine (\<lambda>c e. transitionCandidate c e policy) (createTokenCandidate i) es"
    and "cand_state c = Eligible"
  shows "jle (pol_minHealthyScans policy) (jnat (length (filter is_healthy_scan es))) \<and>
    jle (pol_minObservationMs policy) (jsub (cand_lastSeenAt c) (ident_firstSeenAt i))"
proof -
  have ok: "candidate_ok policy c"
    unfolding assms(3) using assms(1,2) by (intro candidate.run_inv created_ok) auto
  have "candidate_le (createTokenCandidate i) c"
    unfolding assms(3) using assms(1,2) by (intro candidate.run_le created_ok[where policy = policy]) auto
  then have first: "cand_firstSeenAt c = ident_firstSeenAt i"
    by (simp add: candidate_le_def createTokenCandidate_def)
  have "cand_healthyScanCount c \<le> length (filter is_healthy_scan es)"
    using scan_count_run[of policy "createTokenCandidate i" es] assms(3)
    by (simp add: createTokenCandidate_def)
  then have "jle (jnat (cand_healthyScanCount c)) (jnat (length (filter is_healthy_scan es)))" by simp
  moreover have "isCandidateEligible c policy" using ok assms(4) by (simp add: candidate_ok_def)
  ultimately show ?thesis using first by (auto simp: isCandidateEligible_def intro: jle_trans)
qed

text \<open>
  A screening cycle offers no pool on stale evidence: every pool it returns as eligible is the
  pool of a candidate advanced for some screened pool whose two tokens both have fresh, non-fallback
  price evidence, a route (or are SOL), and whose market data are usable; and none is returned twice.
\<close>
theorem eligible_pools_have_evidence:
  shows "distinct (adv_eligiblePoolAddresses (advanceScreenedCandidates inp)) \<and>
    (\<forall>a \<in> set (adv_eligiblePoolAddresses (advanceScreenedCandidates inp)).
      \<exists>pool \<in> set (adv_screenedPools inp). cand_poolAddress (advancePool inp pool) = a \<and>
        cand_state (advancePool inp pool) = Eligible \<and>
        (\<forall>mint \<in> {sp_tokenX pool, sp_tokenY pool}.
          (mint = SOL_MINT \<or> mint \<in> set (adv_routeAvailableMints inp)) \<and>
          (\<exists>ev \<in> set (adv_priceEvidence inp). ev_mint ev = mint \<and>
            isFreshPriceEvidence ev (adv_now inp) (adv_maxMarketDataAgeMs inp))) \<and>
        jlt (Fin 0) (sp_tvlUsd pool))"
proof -
  have fresh: "hasFreshPriceEvidence (poolHealthInput inp pool)" "hi_routeAvailable (poolHealthInput inp pool)"
    "hi_marketDataAvailable (poolHealthInput inp pool)"
    if "cand_state (advancePool inp pool) = Eligible" for pool
    using scan_eligible_healthy[OF that[unfolded advancePool_def Let_def]] by (simp_all add: healthy_iff)
  have "\<exists>ev \<in> set (adv_priceEvidence inp). ev_mint ev = mint \<and>
            isFreshPriceEvidence ev (adv_now inp) (adv_maxMarketDataAgeMs inp)"
    if "cand_state (advancePool inp pool) = Eligible" "mint \<in> {sp_tokenX pool, sp_tokenY pool}" for pool mint
    using fresh(1)[OF that(1)] that(2)
    by (auto simp: hasFreshPriceEvidence_def poolHealthInput_def list_ex_iff)
  moreover have "mint = SOL_MINT \<or> mint \<in> set (adv_routeAvailableMints inp)"
    if "cand_state (advancePool inp pool) = Eligible" "mint \<in> {sp_tokenX pool, sp_tokenY pool}" for pool mint
    using fresh(2)[OF that(1)] that(2) by (auto simp: poolHealthInput_def)
  moreover have "jlt (Fin 0) (sp_tvlUsd pool)"
    if "cand_state (advancePool inp pool) = Eligible" for pool
    using fresh(3)[OF that] by (simp add: poolHealthInput_def)
  moreover have "\<exists>pool \<in> set (adv_screenedPools inp). cand_poolAddress (advancePool inp pool) = a \<and>
      cand_state (advancePool inp pool) = Eligible"
    if "a \<in> set (adv_eligiblePoolAddresses (advanceScreenedCandidates inp))" for a
    using that by (auto simp: advanceScreenedCandidates_def Let_def)
  moreover have "distinct (adv_eligiblePoolAddresses (advanceScreenedCandidates inp))"
    by (simp add: advanceScreenedCandidates_def Let_def)
  ultimately show ?thesis by meson
qed

section \<open>Lifecycle witnesses\<close>

definition sampleIdentity :: CandidateIdentity where
  "sampleIdentity = \<lparr>ident_id = ''c'', ident_walletAddress = ''w'', ident_agentInstanceId = ''a'',
     ident_poolAddress = ''p'', ident_tokenMint = ''m'', ident_firstSeenAt = Fin 0\<rparr>"

definition samplePolicy :: CandidatePolicy where
  "samplePolicy = \<lparr>pol_minHealthyScans = Fin 2, pol_minObservationMs = Fin 10\<rparr>"

definition sampleScans :: "CandidateLifecycleEvent list" where
  "sampleScans = [Scan (Fin 5) Healthy, Scan (Fin 12) Healthy]"

lemma sample_scans_ok: "\<forall>e \<in> set sampleScans. event_ok e" "ident_firstSeenAt sampleIdentity \<noteq> NaN"
  by (simp_all add: sampleScans_def event_ok_def sampleIdentity_def)

theorem candidate_invariant_witness:
  "jle (Fin 0) (cand_lastSeenAt (run_machine (\<lambda>c e. transitionCandidate c e samplePolicy)
      (createTokenCandidate sampleIdentity) sampleScans))"
proof -
  have "ident_firstSeenAt sampleIdentity = Fin 0" by (simp add: sampleIdentity_def)
  then show ?thesis using candidate_invariant[OF sample_scans_ok(2,1) refl, of samplePolicy] by metis
qed

theorem candidate_monotone_witness:
  "cand_id (run_machine (\<lambda>c e. transitionCandidate c e samplePolicy)
      (createTokenCandidate sampleIdentity) sampleScans) = ''c''"
  using candidate_monotone[OF created_ok[OF sample_scans_ok(2)] sample_scans_ok(1) refl, of samplePolicy]
  by (simp add: createTokenCandidate_def sampleIdentity_def)

theorem eligible_is_earned_witness:
  "jle (pol_minHealthyScans samplePolicy) (jnat (length (filter is_healthy_scan sampleScans)))"
proof -
  have "cand_state (run_machine (\<lambda>c e. transitionCandidate c e samplePolicy)
      (createTokenCandidate sampleIdentity) sampleScans) = Eligible"
    by (simp add: sampleScans_def sampleIdentity_def samplePolicy_def createTokenCandidate_def
        transition_defs isCandidateEligible_def atOrAfter_def jsub_def jnat_def num_simps)
  from eligible_is_earned[OF sample_scans_ok(2,1) refl this] show ?thesis by blast
qed

theorem eligible_pools_witness:
  "distinct (adv_eligiblePoolAddresses (advanceScreenedCandidates
      \<lparr>adv_walletAddress = ''w'', adv_agentInstanceId = ''a'', adv_screenedPools = [],
       adv_existingCandidates = [], adv_priceEvidence = [], adv_routeAvailableMints = [],
       adv_now = Fin 5, adv_policy = samplePolicy, adv_maxMarketDataAgeMs = Fin 9\<rparr>))"
  by (rule eligible_pools_have_evidence[THEN conjunct1])

end
