(* ===== verification/MarketGate.thy ===== *)
theory MarketGate
  imports DomainTypes
begin

text \<open>
  The market-scan gate (\<^verbatim>\<open>engine/market-gate.ts\<close>) with the transfer-fee screen
  (\<^verbatim>\<open>engine/transfer-fee.ts\<close>) and the conservative daily fees (\<^verbatim>\<open>engine/fee-capture.ts\<close>):
  which pools of a universe snapshot are scanned, and in which order.  Sets of mints are lists;
  \<^verbatim>\<open>Math.log10\<close>, whose result the language leaves to the implementation, and the clock are
  arguments.  The ordered admission checks are an instance of \<open>gate_chain\<close>.
\<close>

section \<open>Discovered pools\<close>

record DiscoveredPool =
  dp_address :: string
  dp_tvlUsd :: jsnum
  dp_volume24hUsd :: jsnum
  dp_fees24hUsd :: jsnum
  dp_apr :: jsnum
  dp_binStep :: jsnum
  dp_volume1hUsd :: "jsnum option"
  dp_fees1hUsd :: "jsnum option"
  dp_feeYield1hPct :: "jsnum option"
  dp_feeYieldWindows :: "(string \<times> jsnum option) list option"
  dp_volumeWindows :: "(string \<times> jsnum option) list option"
  dp_baseFeePct :: "jsnum option"
  dp_tokenX :: string
  dp_tokenY :: string
  dp_createdAtMs :: "jsnum option"
  dp_tokenXSymbol :: "string option"
  dp_tokenYSymbol :: "string option"
  dp_tokenXVerified :: "bool option"
  dp_tokenYVerified :: "bool option"
  dp_tokenXFreezeDisabled :: "bool option"
  dp_tokenYFreezeDisabled :: "bool option"
  dp_tokenXHolders :: "jsnum option"
  dp_tokenYHolders :: "jsnum option"
  dp_tokenXTransferFeeEnabled :: "bool option"
  dp_tokenYTransferFeeEnabled :: "bool option"

section \<open>Transfer fees\<close>

definition legHasTransferFee :: "string \<Rightarrow> bool option \<Rightarrow> bool" where
  "legHasTransferFee mint transferFeeEnabled \<longleftrightarrow> transferFeeEnabled = Some True"

text \<open>The reason names the leg's symbol, or \<open>mint\<close>.\<close>

definition transferFeeRejectionReason ::
  "string option \<Rightarrow> bool option \<Rightarrow> bool option \<Rightarrow> string option" where
  "transferFeeRejectionReason symbol transferFeeEnabled allowTransferFeeTokens =
     (if transferFeeEnabled = Some True \<and> allowTransferFeeTokens \<noteq> Some True
      then Some (nullish symbol ''mint'') else None)"

section \<open>Conservative daily fees\<close>

definition FEE_WINDOW_DAY_FACTORS :: "(string \<times> jsnum) list" where
  "FEE_WINDOW_DAY_FACTORS =
     [(''30m'', Fin 48), (''1h'', Fin 24), (''2h'', Fin 12), (''4h'', Fin 6), (''12h'', Fin 2),
      (''24h'', Fin 1)]"

definition windowDaily ::
  "(string \<times> jsnum option) list \<Rightarrow> jsnum \<Rightarrow> string \<times> jsnum \<Rightarrow> jsnum option" where
  "windowDaily windows tvlUsd w =
     (case Option.bind (map_of windows (fst w)) (\<lambda>r. r) of
        None \<Rightarrow> None
      | Some ratio \<Rightarrow>
          if \<not> is_finite ratio \<or> jlt ratio (Fin 0) then None
          else let daily = jmul (jmul (jdiv ratio (Fin 100)) tvlUsd) (snd w)
               in if \<not> is_finite daily then None else Some daily)"

fun minDaily :: "jsnum option \<Rightarrow> jsnum option list \<Rightarrow> jsnum option" where
  "minDaily acc [] = acc"
| "minDaily acc (d # ds) =
     (case d of None \<Rightarrow> minDaily acc ds
      | Some daily \<Rightarrow>
          minDaily (Some (case acc of None \<Rightarrow> daily | Some s \<Rightarrow> jmin s daily)) ds)"

definition stableDailyFeesUsd :: "(string \<times> jsnum option) list option \<Rightarrow> jsnum \<Rightarrow> jsnum option" where
  "stableDailyFeesUsd windows tvlUsd =
     (case windows of None \<Rightarrow> None
      | Some ws \<Rightarrow>
          if \<not> jgt tvlUsd (Fin 0) then None
          else minDaily None (map (windowDaily ws tvlUsd) FEE_WINDOW_DAY_FACTORS))"

section \<open>Configuration and floors\<close>

record MarketGateConfig =
  mg_minTvlUsd :: jsnum
  mg_minFeeApr :: jsnum
  mg_majorMinFeeApr :: "jsnum option"
  mg_minFees24hUsd :: "jsnum option"
  mg_minVolumeTurnover :: jsnum
  mg_maxVolumeTurnover :: jsnum
  mg_minVolume24hUsd :: "jsnum option"
  mg_minHolders :: jsnum
  mg_minPoolAgeHours :: jsnum
  mg_minBinStep :: jsnum
  mg_maxBinStep :: jsnum
  mg_stablecoinMints :: "string list"
  mg_allowTransferFeeTokens :: "bool option"

definition MARKET_SOL_MINT :: string where
  "MARKET_SOL_MINT = ''So11111111111111111111111111111111111111112''"

definition isStableOrSol :: "string \<Rightarrow> string list \<Rightarrow> bool" where
  "isStableOrSol mint stablecoinMints \<longleftrightarrow> mint = MARKET_SOL_MINT \<or> mint \<in> set stablecoinMints"

definition isMajorPair :: "string \<Rightarrow> string \<Rightarrow> string list \<Rightarrow> bool" where
  "isMajorPair tokenX tokenY stablecoinMints \<longleftrightarrow>
     isStableOrSol tokenX stablecoinMints \<and> isStableOrSol tokenY stablecoinMints"

definition effectiveMarketMinFeeApr :: "DiscoveredPool \<Rightarrow> MarketGateConfig \<Rightarrow> jsnum" where
  "effectiveMarketMinFeeApr pool config =
     (let base = mg_minFeeApr config; majorFloor = nullish (mg_majorMinFeeApr config) (Fin 0)
      in if \<not> (is_finite majorFloor \<and> jgt majorFloor (Fin 0)) then base
         else if \<not> isMajorPair (dp_tokenX pool) (dp_tokenY pool) (mg_stablecoinMints config) then base
         else jmax base majorFloor)"

section \<open>Mint authorities\<close>

record MintLeg =
  ml_symbol :: string
  ml_mint :: string
  ml_mintAuthority :: "string option"
  ml_verified :: "bool option"

text \<open>The reason lists the symbols of the legs.\<close>

definition mintAuthorityRejectReason ::
  "MintLeg list \<Rightarrow> string list \<Rightarrow> bool option \<Rightarrow> jsnum option \<Rightarrow> jsnum option \<Rightarrow> string list option" where
  "mintAuthorityRejectReason legs stablecoinMints requireRenounced exemptMinTvlUsd poolTvlUsd =
     (if requireRenounced = Some False then None
      else
        let mintedLegs = filter (\<lambda>leg. ml_mintAuthority leg \<noteq> None \<and>
              \<not> isStableOrSol (ml_mint leg) stablecoinMints) legs
        in if length mintedLegs = 0 then None
           else
             let scaleOk = (case (exemptMinTvlUsd, poolTvlUsd) of
                     (Some e, Some t) \<Rightarrow> jgt e (Fin 0) \<and> jge t e | _ \<Rightarrow> False);
                 untrusted = (if scaleOk then filter (\<lambda>leg. ml_verified leg \<noteq> Some True) mintedLegs
                              else mintedLegs)
             in if length untrusted = 0 then None else Some (map ml_symbol untrusted))"

section \<open>Token legs\<close>

record MarketLeg =
  leg_isStableOrSol :: bool
  leg_verified :: "bool option"
  leg_freezeDisabled :: "bool option"
  leg_holders :: "jsnum option"
  leg_transferFeeEnabled :: "bool option"

definition holdersReal :: "jsnum option \<Rightarrow> jsnum \<Rightarrow> bool" where
  "holdersReal holders minHolders = (case holders of None \<Rightarrow> True | Some h \<Rightarrow> jge h minHolders)"

definition marketLegPasses :: "MarketLeg \<Rightarrow> jsnum \<Rightarrow> bool option \<Rightarrow> bool" where
  "marketLegPasses leg minHolders allowTransferFeeTokens =
     (if transferFeeRejectionReason None (leg_transferFeeEnabled leg) allowTransferFeeTokens \<noteq> None
        then False
      else if leg_isStableOrSol leg then True
      else if leg_verified leg = Some True
        then (if leg_freezeDisabled leg = Some False then holdersReal (leg_holders leg) minHolders
              else True)
      else if leg_freezeDisabled leg = Some False then False
      else holdersReal (leg_holders leg) minHolders)"

section \<open>Admission\<close>

datatype MarketReject =
    TvlBelow jsnum jsnum
  | PoolTooYoung jsnum jsnum
  | ThinHolders "(string \<times> jsnum) list" jsnum
  | NoFees24h
  | FeesBelowFloor jsnum jsnum
  | FeeAprBelow jsnum jsnum bool
  | StableAprBelow jsnum jsnum bool
  | NoVolume24h
  | VolumeBelowFloor jsnum jsnum
  | TurnoverBelow jsnum jsnum
  | TurnoverWash jsnum jsnum
  | BinStepUltraFine jsnum jsnum
  | BinStepAbove jsnum jsnum
  | LegTransferFee string
  | LegTokenSafety string "bool option" "bool option" "jsnum option"

definition isBelowMarketTvlFloor :: "DiscoveredPool \<Rightarrow> MarketGateConfig \<Rightarrow> bool" where
  "isBelowMarketTvlFloor pool config \<longleftrightarrow>
     \<not> is_finite (dp_tvlUsd pool) \<or> jlt (dp_tvlUsd pool) (mg_minTvlUsd config)"

definition hasNo24hFees :: "DiscoveredPool \<Rightarrow> bool" where
  "hasNo24hFees pool \<longleftrightarrow> \<not> is_finite (dp_fees24hUsd pool) \<or> jle (dp_fees24hUsd pool) (Fin 0)"

definition hasNo24hVolume :: "DiscoveredPool \<Rightarrow> bool" where
  "hasNo24hVolume pool \<longleftrightarrow> \<not> is_finite (dp_volume24hUsd pool) \<or> jle (dp_volume24hUsd pool) (Fin 0)"

definition isUltraFineBinStep :: "DiscoveredPool \<Rightarrow> MarketGateConfig \<Rightarrow> bool" where
  "isUltraFineBinStep pool config \<longleftrightarrow>
     \<not> is_integer (dp_binStep pool) \<or> jlt (dp_binStep pool) (mg_minBinStep config)"

definition usableFeeWindows :: "(string \<times> jsnum option) list option \<Rightarrow> nat" where
  "usableFeeWindows windows =
     (case windows of None \<Rightarrow> 0
      | Some ws \<Rightarrow> length (filter (\<lambda>(k, v). case v of None \<Rightarrow> False
                    | Some x \<Rightarrow> is_finite x \<and> jge x (Fin 0)) ws))"

definition feeAprPct :: "jsnum \<Rightarrow> jsnum \<Rightarrow> jsnum" where
  "feeAprPct fees tvl = jdiv (jmul (jmul fees (Fin 365)) (Fin 100)) tvl"

definition marketFeeRejectReason :: "DiscoveredPool \<Rightarrow> MarketGateConfig \<Rightarrow> MarketReject option" where
  "marketFeeRejectReason pool config =
     (if hasNo24hFees pool then Some NoFees24h
      else
        let minFees = nullish (mg_minFees24hUsd config) (Fin 0)
        in if jgt minFees (Fin 0) \<and> jlt (dp_fees24hUsd pool) minFees
             then Some (FeesBelowFloor (dp_fees24hUsd pool) minFees)
           else
             let apr = feeAprPct (dp_fees24hUsd pool) (dp_tvlUsd pool);
                 minApr = effectiveMarketMinFeeApr pool config;
                 majorUplift = jgt minApr (mg_minFeeApr config) \<and>
                   isMajorPair (dp_tokenX pool) (dp_tokenY pool) (mg_stablecoinMints config)
             in if jlt apr minApr then Some (FeeAprBelow apr minApr majorUplift)
                else case stableDailyFeesUsd (dp_feeYieldWindows pool) (dp_tvlUsd pool) of
                  None \<Rightarrow> None
                | Some stableFees \<Rightarrow>
                    if 2 \<le> usableFeeWindows (dp_feeYieldWindows pool)
                    then (let stableAprPct = feeAprPct stableFees (dp_tvlUsd pool)
                          in if jlt stableAprPct minApr
                             then Some (StableAprBelow stableAprPct minApr majorUplift) else None)
                    else None)"

definition marketVolumeRejectReason :: "DiscoveredPool \<Rightarrow> MarketGateConfig \<Rightarrow> MarketReject option" where
  "marketVolumeRejectReason pool config =
     (if hasNo24hVolume pool then Some NoVolume24h
      else
        let minVol = nullish (mg_minVolume24hUsd config) (Fin 0)
        in if jgt minVol (Fin 0) \<and> jlt (dp_volume24hUsd pool) minVol
             then Some (VolumeBelowFloor (dp_volume24hUsd pool) minVol)
           else
             let volumeTurnover = jdiv (dp_volume24hUsd pool) (dp_tvlUsd pool)
             in if jlt volumeTurnover (mg_minVolumeTurnover config)
                  then Some (TurnoverBelow volumeTurnover (mg_minVolumeTurnover config))
                else if jgt volumeTurnover (mg_maxVolumeTurnover config)
                  then Some (TurnoverWash volumeTurnover (mg_maxVolumeTurnover config))
                else None)"

definition marketBinStepRejectReason :: "DiscoveredPool \<Rightarrow> MarketGateConfig \<Rightarrow> MarketReject option" where
  "marketBinStepRejectReason pool config =
     (if isUltraFineBinStep pool config
        then Some (BinStepUltraFine (dp_binStep pool) (mg_minBinStep config))
      else if jgt (dp_binStep pool) (mg_maxBinStep config)
        then Some (BinStepAbove (dp_binStep pool) (mg_maxBinStep config))
      else None)"

definition marketAgeRejectReason ::
  "DiscoveredPool \<Rightarrow> MarketGateConfig \<Rightarrow> jsnum \<Rightarrow> MarketReject option" where
  "marketAgeRejectReason pool config now =
     (case dp_createdAtMs pool of None \<Rightarrow> None
      | Some created \<Rightarrow>
          if jgt (mg_minPoolAgeHours config) (Fin 0) \<and> jgt created (Fin 0)
          then (let ageHours = jdiv (jsub now created) (Fin 3600000)
                in if jlt ageHours (mg_minPoolAgeHours config)
                   then Some (PoolTooYoung ageHours (mg_minPoolAgeHours config)) else None)
          else None)"

definition marketThinHoldersRejectReason ::
  "DiscoveredPool \<Rightarrow> MarketGateConfig \<Rightarrow> MarketReject option" where
  "marketThinHoldersRejectReason pool config =
     (let legs = map (\<lambda>mint.
            (mint,
             if mint = dp_tokenX pool then dp_tokenXHolders pool else dp_tokenYHolders pool,
             if mint = dp_tokenX pool then dp_tokenXSymbol pool else dp_tokenYSymbol pool))
            [dp_tokenX pool, dp_tokenY pool];
          thinLegs = filter (\<lambda>(mint, holders, symbol).
            \<not> isStableOrSol mint (mg_stablecoinMints config) \<and> jgt (mg_minHolders config) (Fin 0) \<and>
            (case holders of None \<Rightarrow> False | Some h \<Rightarrow> jlt h (mg_minHolders config))) legs
      in if length thinLegs = 0 then None
         else Some (ThinHolders (map (\<lambda>(mint, holders, symbol).
                (nullish symbol mint, nullish holders NaN)) thinLegs) (mg_minHolders config)))"

definition marketLegX :: "DiscoveredPool \<Rightarrow> string list \<Rightarrow> MarketLeg" where
  "marketLegX pool stables =
     \<lparr>leg_isStableOrSol = isStableOrSol (dp_tokenX pool) stables,
      leg_verified = dp_tokenXVerified pool, leg_freezeDisabled = dp_tokenXFreezeDisabled pool,
      leg_holders = dp_tokenXHolders pool, leg_transferFeeEnabled = None\<rparr>"

definition marketLegY :: "DiscoveredPool \<Rightarrow> string list \<Rightarrow> MarketLeg" where
  "marketLegY pool stables =
     \<lparr>leg_isStableOrSol = isStableOrSol (dp_tokenY pool) stables,
      leg_verified = dp_tokenYVerified pool, leg_freezeDisabled = dp_tokenYFreezeDisabled pool,
      leg_holders = dp_tokenYHolders pool, leg_transferFeeEnabled = None\<rparr>"

definition marketLegRejectReason :: "DiscoveredPool \<Rightarrow> MarketGateConfig \<Rightarrow> MarketReject option" where
  "marketLegRejectReason pool config =
     (case transferFeeRejectionReason (dp_tokenXSymbol pool) (dp_tokenXTransferFeeEnabled pool)
             (mg_allowTransferFeeTokens config) of
        Some s \<Rightarrow> Some (LegTransferFee s)
      | None \<Rightarrow>
      if \<not> marketLegPasses (marketLegX pool (mg_stablecoinMints config)) (mg_minHolders config)
             (mg_allowTransferFeeTokens config)
      then Some (LegTokenSafety (nullish (dp_tokenXSymbol pool) (dp_tokenX pool))
             (dp_tokenXVerified pool) (dp_tokenXFreezeDisabled pool) (dp_tokenXHolders pool))
      else case transferFeeRejectionReason (dp_tokenYSymbol pool) (dp_tokenYTransferFeeEnabled pool)
             (mg_allowTransferFeeTokens config) of
        Some s \<Rightarrow> Some (LegTransferFee s)
      | None \<Rightarrow>
      if \<not> marketLegPasses (marketLegY pool (mg_stablecoinMints config)) (mg_minHolders config)
             (mg_allowTransferFeeTokens config)
      then Some (LegTokenSafety (nullish (dp_tokenYSymbol pool) (dp_tokenY pool))
             (dp_tokenYVerified pool) (dp_tokenYFreezeDisabled pool) (dp_tokenYHolders pool))
      else None)"

definition marketAdmissionReject ::
  "DiscoveredPool \<Rightarrow> MarketGateConfig \<Rightarrow> jsnum \<Rightarrow> MarketReject option" where
  "marketAdmissionReject pool config now =
     (if isBelowMarketTvlFloor pool config
      then Some (TvlBelow (dp_tvlUsd pool) (mg_minTvlUsd config))
      else case marketAgeRejectReason pool config now of Some r \<Rightarrow> Some r | None \<Rightarrow>
      (case marketThinHoldersRejectReason pool config of Some r \<Rightarrow> Some r | None \<Rightarrow>
      (case marketFeeRejectReason pool config of Some r \<Rightarrow> Some r | None \<Rightarrow>
      (case marketVolumeRejectReason pool config of Some r \<Rightarrow> Some r | None \<Rightarrow>
      (case marketBinStepRejectReason pool config of Some r \<Rightarrow> Some r | None \<Rightarrow>
      (case marketLegRejectReason pool config of Some r \<Rightarrow> Some r | None \<Rightarrow> None))))))"

section \<open>Ranking\<close>

record MarketPoolRank =
  mr_pool :: DiscoveredPool
  mr_feeAprPct :: jsnum
  mr_volumeTurnover :: jsnum
  mr_score :: jsnum

record MarketGateResult =
  mgr_ranked :: "MarketPoolRank list"
  mgr_rejected :: "(string \<times> MarketReject) list"

text \<open>\<^verbatim>\<open>xs.sort((a, b) => b.score - a.score)\<close>.\<close>

definition sortByScore :: "('a \<Rightarrow> jsnum) \<Rightarrow> 'a list \<Rightarrow> 'a list" where
  "sortByScore score xs = sort_before (\<lambda>a b. jlt (jsub (score b) (score a)) (Fin 0)) xs"

definition rankMarketPool :: "(jsnum \<Rightarrow> jsnum) \<Rightarrow> DiscoveredPool \<Rightarrow> MarketPoolRank" where
  "rankMarketPool log10 pool =
     (let apr = feeAprPct (dp_fees24hUsd pool) (dp_tvlUsd pool);
          liquidityFactor = jmin (jmax (jdiv (log10 (dp_tvlUsd pool)) (Fin 6)) (fl (6 / 10)))
            (fl (14 / 10))
      in \<lparr>mr_pool = pool, mr_feeAprPct = apr,
          mr_volumeTurnover = jdiv (dp_volume24hUsd pool) (dp_tvlUsd pool),
          mr_score = jmul apr liquidityFactor\<rparr>)"

definition gateAndRankMarketPools ::
  "(jsnum \<Rightarrow> jsnum) \<Rightarrow> DiscoveredPool list \<Rightarrow> MarketGateConfig \<Rightarrow> jsnum \<Rightarrow> MarketGateResult" where
  "gateAndRankMarketPools log10 pools config now =
     \<lparr>mgr_ranked = sortByScore mr_score
        (map (rankMarketPool log10)
          (filter (\<lambda>pool. marketAdmissionReject pool config now = None) pools)),
      mgr_rejected = List.map_filter (\<lambda>pool. map_option (Pair (dp_address pool))
        (marketAdmissionReject pool config now)) pools\<rparr>"

section \<open>The checks as a chain, and what ranking keeps\<close>

definition marketGates :: "(DiscoveredPool \<times> MarketGateConfig \<times> jsnum \<Rightarrow> MarketReject option) list" where
  "marketGates =
     [\<lambda>(p, c, t). if isBelowMarketTvlFloor p c then Some (TvlBelow (dp_tvlUsd p) (mg_minTvlUsd c)) else None,
      \<lambda>(p, c, t). marketAgeRejectReason p c t,
      \<lambda>(p, c, t). marketThinHoldersRejectReason p c,
      \<lambda>(p, c, t). marketFeeRejectReason p c,
      \<lambda>(p, c, t). marketVolumeRejectReason p c,
      \<lambda>(p, c, t). marketBinStepRejectReason p c,
      \<lambda>(p, c, t). marketLegRejectReason p c]"

interpretation market: gate_chain marketGates Some "\<lambda>_. None"
  "\<lambda>(p, c, t). marketAdmissionReject p c t"
  by unfold_locales (auto simp: marketGates_def marketAdmissionReject_def split: option.split if_splits)

lemma admitted_iff:
  "marketAdmissionReject p c t = None \<longleftrightarrow>
     \<not> isBelowMarketTvlFloor p c \<and> marketAgeRejectReason p c t = None \<and>
     marketThinHoldersRejectReason p c = None \<and> marketFeeRejectReason p c = None \<and>
     marketVolumeRejectReason p c = None \<and> marketBinStepRejectReason p c = None \<and>
     marketLegRejectReason p c = None"
  using market.decide_passed_iff[of "(p, c, t)"] by (simp add: marketGates_def)

lemma mset_sortByScore [simp]: "mset (sortByScore score xs) = mset xs"
  by (simp add: sortByScore_def)

lemma set_sortByScore [simp]: "set (sortByScore score xs) = set xs"
  by (simp add: sortByScore_def)

text \<open>A ranking by finite scores that are numbers is descending.\<close>

lemma sortByScore_descending:
  assumes "\<forall>x \<in> set xs. is_finite (score x) \<and> is_double (score x)"
  shows "sorted_wrt (\<lambda>a b. jge (score a) (score b)) (sortByScore score xs)"
proof -
  define key where "key = (\<lambda>x. case score x of Fin a \<Rightarrow> a | _ \<Rightarrow> 0)"
  have key: "score x = Fin (key x) \<and> is_double (Fin (key x))" if "x \<in> set xs" for x
    using assms that by (cases "score x") (auto simp: key_def)
  have b: "jlt (jsub (score y) (score x)) (Fin 0) \<longleftrightarrow> key y < key x"
    if "x \<in> set xs" "y \<in> set xs" for x y
    using key[OF that(1)] key[OF that(2)] jsub_neg_iff[of "key y" "key x"] by simp
  have "sorted_wrt (\<lambda>x y. \<not> jlt (jsub (score x) (score y)) (Fin 0)) (sortByScore score xs)"
    unfolding sortByScore_def by (rule sorted_sort_before) (simp_all add: b)
  then show ?thesis
  proof (rule sorted_wrt_mono_rel[rotated])
    fix x y assume xy: "x \<in> set (sortByScore score xs)" "y \<in> set (sortByScore score xs)"
      "\<not> jlt (jsub (score x) (score y)) (Fin 0)"
    then show "jge (score x) (score y)" using b[of y x] key[of x] key[of y] by simp
  qed
qed

lemma bin_step_None:
  assumes "marketBinStepRejectReason p c = None" "mg_minBinStep c \<noteq> NaN" "mg_maxBinStep c \<noteq> NaN"
  shows "is_integer (dp_binStep p) \<and> jle (mg_minBinStep c) (dp_binStep p) \<and>
    jle (dp_binStep p) (mg_maxBinStep c)"
  using assms
  by (cases "dp_binStep p") (auto simp: marketBinStepRejectReason_def isUltraFineBinStep_def not_jlt_iff
      split: if_splits)

lemma volume_None:
  assumes "marketVolumeRejectReason p c = None"
  shows "jlt (Fin 0) (dp_volume24hUsd p)"
    "\<not> jlt (jdiv (dp_volume24hUsd p) (dp_tvlUsd p)) (mg_minVolumeTurnover c)"
    "\<not> jlt (mg_maxVolumeTurnover c) (jdiv (dp_volume24hUsd p) (dp_tvlUsd p))"
  using assms
  by (auto simp: marketVolumeRejectReason_def hasNo24hVolume_def Let_def not_jle_iff is_finite_iff
      split: if_splits)

lemma fee_None:
  assumes "marketFeeRejectReason p c = None"
  shows "jlt (Fin 0) (dp_fees24hUsd p)"
    "\<not> jlt (feeAprPct (dp_fees24hUsd p) (dp_tvlUsd p)) (effectiveMarketMinFeeApr p c)"
    "\<And>s. stableDailyFeesUsd (dp_feeYieldWindows p) (dp_tvlUsd p) = Some s \<Longrightarrow>
       2 \<le> usableFeeWindows (dp_feeYieldWindows p) \<Longrightarrow>
       \<not> jlt (feeAprPct s (dp_tvlUsd p)) (effectiveMarketMinFeeApr p c)"
  using assms
  by (auto simp: marketFeeRejectReason_def hasNo24hFees_def Let_def not_jle_iff is_finite_iff
      split: if_splits option.splits)

lemma legs_None:
  assumes "marketLegRejectReason p c = None" "mg_allowTransferFeeTokens c \<noteq> Some True"
  shows "dp_tokenXTransferFeeEnabled p \<noteq> Some True \<and> dp_tokenYTransferFeeEnabled p \<noteq> Some True"
  using assms
  by (auto simp: marketLegRejectReason_def transferFeeRejectionReason_def split: if_splits)

section \<open>Properties of the market gate\<close>

text \<open>
  C32. What the market gate lets through is real: an admitted pool has finite depth at the floor,
  positive fees and volume, a fee APR not below the effective floor, also on the conservative
  estimate when two fee windows are usable, turnover inside the band and an integer bin step
  inside the band; and unless transfer-fee tokens are allowed no leg is known to charge one.
\<close>
theorem market_admitted_pool:
  assumes "marketAdmissionReject p c now = None"
    and "mg_minTvlUsd c \<noteq> NaN" "mg_minBinStep c \<noteq> NaN" "mg_maxBinStep c \<noteq> NaN"
  shows "is_finite (dp_tvlUsd p) \<and> jle (mg_minTvlUsd c) (dp_tvlUsd p) \<and>
    jlt (Fin 0) (dp_fees24hUsd p) \<and> jlt (Fin 0) (dp_volume24hUsd p) \<and>
    \<not> jlt (feeAprPct (dp_fees24hUsd p) (dp_tvlUsd p)) (effectiveMarketMinFeeApr p c) \<and>
    (\<forall>s. stableDailyFeesUsd (dp_feeYieldWindows p) (dp_tvlUsd p) = Some s \<longrightarrow>
       2 \<le> usableFeeWindows (dp_feeYieldWindows p) \<longrightarrow>
       \<not> jlt (feeAprPct s (dp_tvlUsd p)) (effectiveMarketMinFeeApr p c)) \<and>
    \<not> jlt (jdiv (dp_volume24hUsd p) (dp_tvlUsd p)) (mg_minVolumeTurnover c) \<and>
    \<not> jlt (mg_maxVolumeTurnover c) (jdiv (dp_volume24hUsd p) (dp_tvlUsd p)) \<and>
    is_integer (dp_binStep p) \<and> jle (mg_minBinStep c) (dp_binStep p) \<and>
    jle (dp_binStep p) (mg_maxBinStep c) \<and>
    (mg_allowTransferFeeTokens c \<noteq> Some True \<longrightarrow>
       dp_tokenXTransferFeeEnabled p \<noteq> Some True \<and> dp_tokenYTransferFeeEnabled p \<noteq> Some True)"
proof -
  have "is_finite (dp_tvlUsd p) \<and> jle (mg_minTvlUsd c) (dp_tvlUsd p)"
    using assms(1,2) by (auto simp: admitted_iff isBelowMarketTvlFloor_def not_jlt_iff is_finite_iff)
  moreover have "marketFeeRejectReason p c = None" "marketVolumeRejectReason p c = None"
    "marketBinStepRejectReason p c = None" "marketLegRejectReason p c = None"
    using assms(1) by (simp_all add: admitted_iff)
  ultimately show ?thesis
    using fee_None volume_None bin_step_None[OF _ assms(3,4)] legs_None by blast
qed

text \<open>
  No pool is lost or invented by the market gate: the ranked pools are, as a multiset, exactly
  the admitted ones, the others are rejected in order with their first objection, and with finite
  scores the ranking never puts a lower score before a higher one.
\<close>
theorem market_gate_partition:
  assumes "\<forall>p \<in> set pools. is_finite (mr_score (rankMarketPool log10 p))"
  shows "image_mset mr_pool (mset (mgr_ranked (gateAndRankMarketPools log10 pools c now))) =
      filter_mset (\<lambda>p. marketAdmissionReject p c now = None) (mset pools) \<and>
    map fst (mgr_rejected (gateAndRankMarketPools log10 pools c now)) =
      map dp_address (filter (\<lambda>p. marketAdmissionReject p c now \<noteq> None) pools) \<and>
    sorted_wrt (\<lambda>a b. jge (mr_score a) (mr_score b))
      (mgr_ranked (gateAndRankMarketPools log10 pools c now))"
proof -
  have d: "is_double (mr_score (rankMarketPool log10 p))" for p
    by (simp add: rankMarketPool_def Let_def)
  have pool: "mr_pool (rankMarketPool log10 p) = p" for p by (simp add: rankMarketPool_def Let_def)
  have "map fst (List.map_filter (\<lambda>p. map_option (Pair (dp_address p)) (f p)) ps) =
      map dp_address (filter (\<lambda>p. f p \<noteq> None) ps)" for f :: "DiscoveredPool \<Rightarrow> MarketReject option" and ps
    by (induction ps) (auto simp: List.map_filter_simps split: option.split)
  then show ?thesis
    using assms d by (auto simp: gateAndRankMarketPools_def pool image_mset.compositionality comp_def
        simp flip: mset_map intro!: sortByScore_descending)
qed

section \<open>Market witnesses\<close>

definition sampleDiscovered :: DiscoveredPool where
  "sampleDiscovered = \<lparr>dp_address = ''pool'', dp_tvlUsd = Fin 10000, dp_volume24hUsd = Fin 20000,
     dp_fees24hUsd = Fin 100, dp_apr = Fin 0, dp_binStep = Fin 25, dp_volume1hUsd = Some (Fin 900),
     dp_fees1hUsd = None, dp_feeYield1hPct = Some (Fin 2), dp_feeYieldWindows = None,
     dp_volumeWindows = None, dp_baseFeePct = Some (Fin 1), dp_tokenX = ''X'',
     dp_tokenY = MARKET_SOL_MINT, dp_createdAtMs = Some (Fin 1000), dp_tokenXSymbol = None,
     dp_tokenYSymbol = None, dp_tokenXVerified = Some True, dp_tokenYVerified = None,
     dp_tokenXFreezeDisabled = Some True, dp_tokenYFreezeDisabled = None,
     dp_tokenXHolders = Some (Fin 5000), dp_tokenYHolders = None,
     dp_tokenXTransferFeeEnabled = None, dp_tokenYTransferFeeEnabled = None\<rparr>"

definition sampleMarketConfig :: MarketGateConfig where
  "sampleMarketConfig = \<lparr>mg_minTvlUsd = Fin 1000, mg_minFeeApr = Fin 50, mg_majorMinFeeApr = None,
     mg_minFees24hUsd = None, mg_minVolumeTurnover = Fin 1, mg_maxVolumeTurnover = Fin 20,
     mg_minVolume24hUsd = None, mg_minHolders = Fin 100, mg_minPoolAgeHours = Fin 0,
     mg_minBinStep = Fin 10, mg_maxBinStep = Fin 100, mg_stablecoinMints = [],
     mg_allowTransferFeeTokens = None\<rparr>"

lemma sample_market_admitted: "marketAdmissionReject sampleDiscovered sampleMarketConfig (Fin 0) = None"
  by (simp add: admitted_iff sampleDiscovered_def sampleMarketConfig_def isBelowMarketTvlFloor_def
      marketAgeRejectReason_def marketThinHoldersRejectReason_def marketFeeRejectReason_def
      hasNo24hFees_def feeAprPct_def effectiveMarketMinFeeApr_def stableDailyFeesUsd_def
      marketVolumeRejectReason_def hasNo24hVolume_def marketBinStepRejectReason_def
      isUltraFineBinStep_def marketLegRejectReason_def transferFeeRejectionReason_def
      marketLegPasses_def marketLegX_def marketLegY_def isStableOrSol_def num_simps Let_def)

theorem market_admitted_witness: "is_integer (dp_binStep sampleDiscovered) \<and>
  jle (mg_minTvlUsd sampleMarketConfig) (dp_tvlUsd sampleDiscovered)"
  using market_admitted_pool[OF sample_market_admitted] by (simp add: sampleMarketConfig_def)

theorem market_partition_witness:
  "map fst (mgr_rejected (gateAndRankMarketPools (\<lambda>_. Fin 4)
      [sampleDiscovered, sampleDiscovered\<lparr>dp_address := ''dust'', dp_tvlUsd := Fin 5\<rparr>]
      sampleMarketConfig (Fin 0))) = [''dust'']"
proof -
  let ?ps = "[sampleDiscovered, sampleDiscovered\<lparr>dp_address := ''dust'', dp_tvlUsd := Fin 5\<rparr>]"
  have fin: "\<forall>p \<in> set ?ps. is_finite (mr_score (rankMarketPool (\<lambda>_. Fin 4) p))" by code_simp
  have "marketAdmissionReject (sampleDiscovered\<lparr>dp_address := ''dust'', dp_tvlUsd := Fin 5\<rparr>)
      sampleMarketConfig (Fin 0) \<noteq> None"
    by (simp add: admitted_iff isBelowMarketTvlFloor_def sampleMarketConfig_def)
  then show ?thesis using market_gate_partition[OF fin] sample_market_admitted by simp
qed

end
