(* ===== verification/LaunchGate.thy ===== *)
theory LaunchGate
  imports MarketGate
begin

text \<open>
  The launch radar (\<^verbatim>\<open>engine/launch-gate.ts\<close>): the staged admission of young pools, their
  ranking by hourly fee yield, and the histogram of rejections.  The admission chain is an
  instance of \<open>gate_chain\<close>; it shares the leg policy of the market gate.
\<close>

section \<open>Configuration and outcomes\<close>

record LaunchGateConfig =
  lg_minTvlUsd :: jsnum
  lg_maxTvlUsd :: jsnum
  lg_maxAgeHours :: jsnum
  lg_minVolume1hUsd :: jsnum
  lg_minBaseFeePct :: jsnum
  lg_minBinStep :: jsnum
  lg_maxBinStep :: jsnum
  lg_maxVolumeTurnover :: jsnum
  lg_minHolders :: jsnum
  lg_stablecoinMints :: "string list"
  lg_now :: jsnum

datatype LaunchRejectCategory =
    CatMissingData | CatCreatedAt | CatAge | CatTvl | CatVolume1h | CatBaseFee | CatBinStep
  | CatTurnover | CatTokenSafety

datatype LaunchReason =
    MissingFeeYield
  | MissingCreatedAt
  | CreatedInFuture jsnum
  | TooOld jsnum jsnum
  | LaunchTvlBelow jsnum jsnum
  | LaunchTvlAbove jsnum jsnum
  | ThinVolume1h "jsnum option" jsnum
  | ThinBaseFee "jsnum option" jsnum
  | BinStepOutside jsnum jsnum jsnum
  | LaunchNoVolume24h
  | LaunchWash jsnum jsnum
  | LaunchLegUnsafe string

definition LAUNCH_HOUR_MS :: jsnum where
  "LAUNCH_HOUR_MS = Fin 3600000"

definition CLOCK_SKEW_MS :: jsnum where
  "CLOCK_SKEW_MS = Fin 60000"

text \<open>An outcome: a rejection with its category, or the age and turnover the notes print.\<close>

datatype LaunchAdmissionOutcome =
    LaunchPassed jsnum jsnum
  | LaunchRejected LaunchReason LaunchRejectCategory

section \<open>Stages\<close>

definition opt_finite :: "jsnum option \<Rightarrow> bool" where
  "opt_finite v = (case v of None \<Rightarrow> False | Some x \<Rightarrow> is_finite x)"

definition isUnknownFeeYield :: "DiscoveredPool \<Rightarrow> bool" where
  "isUnknownFeeYield pool \<longleftrightarrow> \<not> opt_finite (dp_feeYield1hPct pool)"

definition isFutureCreatedAt :: "jsnum \<Rightarrow> jsnum \<Rightarrow> bool" where
  "isFutureCreatedAt createdAtMs now \<longleftrightarrow>
     \<not> is_finite createdAtMs \<or> jgt createdAtMs (jadd now CLOCK_SKEW_MS)"

definition isBelowLaunchTvlFloor :: "DiscoveredPool \<Rightarrow> LaunchGateConfig \<Rightarrow> bool" where
  "isBelowLaunchTvlFloor pool config \<longleftrightarrow>
     \<not> is_finite (dp_tvlUsd pool) \<or> jlt (dp_tvlUsd pool) (lg_minTvlUsd config)"

definition isThin1hVolume :: "DiscoveredPool \<Rightarrow> LaunchGateConfig \<Rightarrow> bool" where
  "isThin1hVolume pool config =
     (case dp_volume1hUsd pool of None \<Rightarrow> True
      | Some v \<Rightarrow> \<not> is_finite v \<or> jlt v (lg_minVolume1hUsd config))"

definition isThinBaseFee :: "DiscoveredPool \<Rightarrow> LaunchGateConfig \<Rightarrow> bool" where
  "isThinBaseFee pool config =
     (case dp_baseFeePct pool of None \<Rightarrow> True
      | Some v \<Rightarrow> \<not> is_finite v \<or> jlt v (lg_minBaseFeePct config))"

definition isBinStepOutsideLaunchBand :: "DiscoveredPool \<Rightarrow> LaunchGateConfig \<Rightarrow> bool" where
  "isBinStepOutsideLaunchBand pool config \<longleftrightarrow>
     \<not> is_integer (dp_binStep pool) \<or> jlt (dp_binStep pool) (lg_minBinStep config) \<or>
     jgt (dp_binStep pool) (lg_maxBinStep config)"

fun firstUnsafeLeg :: "jsnum \<Rightarrow> (MarketLeg \<times> string) list \<Rightarrow> LaunchReason option" where
  "firstUnsafeLeg minHolders [] = None"
| "firstUnsafeLeg minHolders ((leg, name) # legs) =
     (if \<not> marketLegPasses leg minHolders None then Some (LaunchLegUnsafe name)
      else firstUnsafeLeg minHolders legs)"

definition launchLegRejectReason :: "DiscoveredPool \<Rightarrow> LaunchGateConfig \<Rightarrow> LaunchReason option" where
  "launchLegRejectReason pool config =
     firstUnsafeLeg (lg_minHolders config)
       [(marketLegX pool (lg_stablecoinMints config), nullish (dp_tokenXSymbol pool) (dp_tokenX pool)),
        (marketLegY pool (lg_stablecoinMints config), nullish (dp_tokenYSymbol pool) (dp_tokenY pool))]"

definition poolAgeHours :: "jsnum option \<Rightarrow> jsnum \<Rightarrow> jsnum" where
  "poolAgeHours createdAtMs now =
     (case createdAtMs of None \<Rightarrow> Fin 0
      | Some c \<Rightarrow> jdiv (jmax (Fin 0) (jsub now c)) LAUNCH_HOUR_MS)"

definition rejectMissingData :: "DiscoveredPool \<Rightarrow> (LaunchReason \<times> LaunchRejectCategory) option" where
  "rejectMissingData pool =
     (if isUnknownFeeYield pool then Some (MissingFeeYield, CatMissingData)
      else if dp_createdAtMs pool = None then Some (MissingCreatedAt, CatMissingData)
      else None)"

definition rejectBadAge ::
  "DiscoveredPool \<Rightarrow> LaunchGateConfig \<Rightarrow> (LaunchReason \<times> LaunchRejectCategory) option" where
  "rejectBadAge pool config =
     (case dp_createdAtMs pool of None \<Rightarrow> None
      | Some created \<Rightarrow>
          if isFutureCreatedAt created (lg_now config) then Some (CreatedInFuture created, CatCreatedAt)
          else let ageHours = poolAgeHours (dp_createdAtMs pool) (lg_now config)
               in if jgt ageHours (lg_maxAgeHours config)
                  then Some (TooOld ageHours (lg_maxAgeHours config), CatAge) else None)"

definition rejectBadTvl ::
  "DiscoveredPool \<Rightarrow> LaunchGateConfig \<Rightarrow> (LaunchReason \<times> LaunchRejectCategory) option" where
  "rejectBadTvl pool config =
     (if isBelowLaunchTvlFloor pool config
        then Some (LaunchTvlBelow (dp_tvlUsd pool) (lg_minTvlUsd config), CatTvl)
      else if jgt (dp_tvlUsd pool) (lg_maxTvlUsd config)
        then Some (LaunchTvlAbove (dp_tvlUsd pool) (lg_maxTvlUsd config), CatTvl)
      else None)"

definition rejectThinFlow ::
  "DiscoveredPool \<Rightarrow> LaunchGateConfig \<Rightarrow> (LaunchReason \<times> LaunchRejectCategory) option" where
  "rejectThinFlow pool config =
     (if isThin1hVolume pool config
        then Some (ThinVolume1h (dp_volume1hUsd pool) (lg_minVolume1hUsd config), CatVolume1h)
      else if isThinBaseFee pool config
        then Some (ThinBaseFee (dp_baseFeePct pool) (lg_minBaseFeePct config), CatBaseFee)
      else if isBinStepOutsideLaunchBand pool config
        then Some (BinStepOutside (dp_binStep pool) (lg_minBinStep config) (lg_maxBinStep config),
          CatBinStep)
      else None)"

definition rejectWashTurnover ::
  "DiscoveredPool \<Rightarrow> LaunchGateConfig \<Rightarrow> (LaunchReason \<times> LaunchRejectCategory) option" where
  "rejectWashTurnover pool config =
     (if hasNo24hVolume pool then Some (LaunchNoVolume24h, CatTurnover)
      else let volumeTurnover = jdiv (dp_volume24hUsd pool) (dp_tvlUsd pool)
           in if jgt volumeTurnover (lg_maxVolumeTurnover config)
              then Some (LaunchWash volumeTurnover (lg_maxVolumeTurnover config), CatTurnover)
              else None)"

definition launchAdmission :: "DiscoveredPool \<Rightarrow> LaunchGateConfig \<Rightarrow> LaunchAdmissionOutcome" where
  "launchAdmission pool config =
     (case rejectMissingData pool of Some (r, c) \<Rightarrow> LaunchRejected r c | None \<Rightarrow>
      (case rejectBadAge pool config of Some (r, c) \<Rightarrow> LaunchRejected r c | None \<Rightarrow>
      (case rejectBadTvl pool config of Some (r, c) \<Rightarrow> LaunchRejected r c | None \<Rightarrow>
      (case rejectThinFlow pool config of Some (r, c) \<Rightarrow> LaunchRejected r c | None \<Rightarrow>
      (case rejectWashTurnover pool config of Some (r, c) \<Rightarrow> LaunchRejected r c | None \<Rightarrow>
      (case launchLegRejectReason pool config of
         Some r \<Rightarrow> LaunchRejected r CatTokenSafety
       | None \<Rightarrow> LaunchPassed (poolAgeHours (dp_createdAtMs pool) (lg_now config))
                (jdiv (dp_volume24hUsd pool) (dp_tvlUsd pool))))))))"

section \<open>Ranking and histogram\<close>

definition admissionSafe :: "jsnum option \<Rightarrow> jsnum" where
  "admissionSafe v = (case v of None \<Rightarrow> Fin 0 | Some x \<Rightarrow> if is_finite x then x else Fin 0)"

record LaunchPoolRank =
  lr_pool :: DiscoveredPool
  lr_feeYield1hPct :: jsnum
  lr_volume1hUsd :: jsnum
  lr_score :: jsnum
  lr_notes :: "jsnum \<times> jsnum"

record LaunchGateResult =
  lgr_ranked :: "LaunchPoolRank list"
  lgr_rejected :: "(string \<times> LaunchReason \<times> LaunchRejectCategory) list"

fun launchSplit ::
  "LaunchGateConfig \<Rightarrow> DiscoveredPool list
     \<Rightarrow> LaunchPoolRank list \<times> (string \<times> LaunchReason \<times> LaunchRejectCategory) list" where
  "launchSplit config [] = ([], [])"
| "launchSplit config (pool # pools) =
     (let (ranked, rejected) = launchSplit config pools
      in case launchAdmission pool config of
           LaunchRejected r c \<Rightarrow> (ranked, (dp_address pool, r, c) # rejected)
         | LaunchPassed ageHours volumeTurnover \<Rightarrow>
             (\<lparr>lr_pool = pool, lr_feeYield1hPct = admissionSafe (dp_feeYield1hPct pool),
               lr_volume1hUsd = admissionSafe (dp_volume1hUsd pool),
               lr_score = admissionSafe (dp_feeYield1hPct pool),
               lr_notes = (ageHours, volumeTurnover)\<rparr> # ranked, rejected))"

definition gateAndRankLaunchPools ::
  "DiscoveredPool list \<Rightarrow> LaunchGateConfig \<Rightarrow> LaunchGateResult" where
  "gateAndRankLaunchPools pools config =
     (let (ranked, rejected) = launchSplit config pools
      in \<lparr>lgr_ranked = sortByScore lr_score ranked, lgr_rejected = rejected\<rparr>)"

text \<open>The \<^verbatim>\<open>Map\<close> of counts, in insertion order, with the first reason as the example.\<close>

fun bumpCategory ::
  "LaunchRejectCategory \<times> 'r \<Rightarrow> (LaunchRejectCategory \<times> nat \<times> 'r) list
     \<Rightarrow> (LaunchRejectCategory \<times> nat \<times> 'r) list" where
  "bumpCategory (c, r) [] = [(c, 1, r)]"
| "bumpCategory (c, r) ((d, n, e) # m) =
     (if d = c then (d, n + 1, e) # m else (d, n, e) # bumpCategory (c, r) m)"

definition countCategories ::
  "(LaunchRejectCategory \<times> 'r) list \<Rightarrow> (LaunchRejectCategory \<times> nat \<times> 'r) list" where
  "countCategories rejected = foldl (\<lambda>m x. bumpCategory x m) [] rejected"

definition summarizeLaunchRejections ::
  "(LaunchRejectCategory \<times> 'r) list \<Rightarrow> jsnum \<Rightarrow> (LaunchRejectCategory \<times> nat \<times> 'r) list" where
  "summarizeLaunchRejections rejected topN =
     js_take (jmax topN (Fin 1))
       (sort_before (\<lambda>a b. jlt (jsub (jnat (fst (snd b))) (jnat (fst (snd a)))) (Fin 0))
          (countCategories rejected))"

section \<open>The stages as a chain\<close>

definition launchGates ::
  "(DiscoveredPool \<times> LaunchGateConfig \<Rightarrow> (LaunchReason \<times> LaunchRejectCategory) option) list" where
  "launchGates =
     [\<lambda>(p, c). rejectMissingData p, \<lambda>(p, c). rejectBadAge p c, \<lambda>(p, c). rejectBadTvl p c,
      \<lambda>(p, c). rejectThinFlow p c, \<lambda>(p, c). rejectWashTurnover p c,
      \<lambda>(p, c). map_option (\<lambda>r. (r, CatTokenSafety)) (launchLegRejectReason p c)]"

interpretation launch: gate_chain launchGates "\<lambda>(r, cat). LaunchRejected r cat"
  "\<lambda>(p, c). LaunchPassed (poolAgeHours (dp_createdAtMs p) (lg_now c))
     (jdiv (dp_volume24hUsd p) (dp_tvlUsd p))"
  "\<lambda>(p, c). launchAdmission p c"
  by unfold_locales (auto simp: launchGates_def launchAdmission_def split: option.split prod.splits)

lemma passed_iff:
  "(\<exists>h t. launchAdmission p c = LaunchPassed h t) \<longleftrightarrow>
     rejectMissingData p = None \<and> rejectBadAge p c = None \<and> rejectBadTvl p c = None \<and>
     rejectThinFlow p c = None \<and> rejectWashTurnover p c = None \<and> launchLegRejectReason p c = None"
  by (auto simp: launchAdmission_def split: option.splits prod.splits)

lemma bump_keys:
  "map fst (bumpCategory x m) = (if fst x \<in> set (map fst m) then map fst m else map fst m @ [fst x])"
  by (induction x m rule: bumpCategory.induct) auto

lemma bump_in:
  "distinct (map fst m) \<Longrightarrow> (d, n, e) \<in> set (bumpCategory (c, r) m) \<longleftrightarrow>
     (if d = c then (\<exists>k. n = k + 1 \<and> (c, k, e) \<in> set m) \<or> (c \<notin> fst ` set m \<and> n = 1 \<and> e = r)
      else (d, n, e) \<in> set m)"
proof (induction "(c, r)" m rule: bumpCategory.induct)
  case (2 d' n' e' m)
  have notin: "(d', k, e) \<notin> set m" for k e
    using "2.prems" by (auto simp: image_iff)
  show ?case
  proof (cases "d' = c")
    case True
    then show ?thesis using notin by auto
  next
    case False
    then show ?thesis using 2 by auto
  qed
qed auto

text \<open>Counting is exact: every category once, with its number and its first reason.\<close>

lemma countCategories_spec:
  "distinct (map fst (countCategories xs)) \<and>
   (\<forall>c n e. (c, n, e) \<in> set (countCategories xs) \<longleftrightarrow>
      (let own = filter (\<lambda>x. fst x = c) xs in own \<noteq> [] \<and> n = length own \<and> e = snd (hd own)))"
proof (induction xs rule: rev_induct)
  case (snoc x xs)
  obtain c r where x: "x = (c, r)" by (cases x)
  let ?m = "countCategories xs"
  have g: "countCategories (xs @ [x]) = bumpCategory x ?m" by (simp add: countCategories_def)
  have d: "distinct (map fst ?m)" using snoc by blast
  have s: "(b, n, e) \<in> set ?m \<longleftrightarrow> filter (\<lambda>x. fst x = b) xs \<noteq> [] \<and>
      n = length (filter (\<lambda>x. fst x = b) xs) \<and> e = snd (hd (filter (\<lambda>x. fst x = b) xs))" for b n e
    using snoc by (simp add: Let_def)
  have keys: "b \<in> fst ` set ?m \<longleftrightarrow> filter (\<lambda>x. fst x = b) xs \<noteq> []" for b
  proof -
    have "b \<in> fst ` set ?m \<longleftrightarrow> (\<exists>n e. (b, n, e) \<in> set ?m)" by (simp add: image_iff Bex_def)
    then show ?thesis by (simp add: s)
  qed
  have "(b, n, e) \<in> set (bumpCategory (c, r) ?m) \<longleftrightarrow>
      (let own = filter (\<lambda>x. fst x = b) (xs @ [x]) in own \<noteq> [] \<and> n = length own \<and> e = snd (hd own))"
    for b n e
  proof (cases "b = c")
    case True
    show ?thesis
      unfolding bump_in[OF d] keys s using True
      by (cases "filter (\<lambda>x. fst x = c) xs") (auto simp: x)
  next
    case False
    then show ?thesis unfolding bump_in[OF d] s by (simp add: x Let_def)
  qed
  moreover have "distinct (map fst (bumpCategory x ?m))" using d by (simp add: bump_keys)
  ultimately show ?case unfolding g unfolding x by (intro conjI allI)
qed (simp add: countCategories_def)

lemma launchSplit_eq:
  "map lr_pool (fst (launchSplit c ps)) =
     filter (\<lambda>p. \<exists>h t. launchAdmission p c = LaunchPassed h t) ps"
  "map fst (snd (launchSplit c ps)) =
     map dp_address (filter (\<lambda>p. \<nexists>h t. launchAdmission p c = LaunchPassed h t) ps)"
  "r \<in> set (fst (launchSplit c ps)) \<Longrightarrow> lr_score r = admissionSafe (dp_feeYield1hPct (lr_pool r))"
  by (induction ps)
    (auto simp: Let_def split: prod.splits LaunchAdmissionOutcome.splits)

section \<open>Properties of the launch gate\<close>

text \<open>
  C31. The launch gate fails closed: a pool it passes has a known creation time that is not in the
  future beyond the clock skew and within the age limit, a known hourly fee yield, hourly volume
  and base fee at their floors, depth inside the band, an integer bin step inside the band, and a
  positive daily volume whose turnover is not above the wash limit.
\<close>
theorem launch_fails_closed:
  assumes "launchAdmission p c = LaunchPassed h t"
    and "lg_minTvlUsd c \<noteq> NaN" "lg_maxTvlUsd c \<noteq> NaN" "lg_minVolume1hUsd c \<noteq> NaN"
    and "lg_minBaseFeePct c \<noteq> NaN" "lg_minBinStep c \<noteq> NaN" "lg_maxBinStep c \<noteq> NaN"
  shows "\<exists>y v b created. dp_feeYield1hPct p = Some y \<and> is_finite y \<and>
    dp_createdAtMs p = Some created \<and> \<not> jgt created (jadd (lg_now c) (Fin 60000)) \<and>
    \<not> jgt (poolAgeHours (Some created) (lg_now c)) (lg_maxAgeHours c) \<and>
    dp_volume1hUsd p = Some v \<and> jle (lg_minVolume1hUsd c) v \<and>
    dp_baseFeePct p = Some b \<and> jle (lg_minBaseFeePct c) b \<and>
    jle (lg_minTvlUsd c) (dp_tvlUsd p) \<and> jle (dp_tvlUsd p) (lg_maxTvlUsd c) \<and>
    is_integer (dp_binStep p) \<and> jle (lg_minBinStep c) (dp_binStep p) \<and>
    jle (dp_binStep p) (lg_maxBinStep c) \<and> jlt (Fin 0) (dp_volume24hUsd p) \<and>
    \<not> jgt (jdiv (dp_volume24hUsd p) (dp_tvlUsd p)) (lg_maxVolumeTurnover c)"
proof -
  have g: "rejectMissingData p = None" "rejectBadAge p c = None" "rejectBadTvl p c = None"
    "rejectThinFlow p c = None" "rejectWashTurnover p c = None"
    using assms(1) passed_iff[of p c] by blast+
  obtain y created where yc: "dp_feeYield1hPct p = Some y" "is_finite y" "dp_createdAtMs p = Some created"
    using g(1) by (auto simp: rejectMissingData_def isUnknownFeeYield_def opt_finite_def
        split: if_splits option.splits)
  have age: "\<not> jgt created (jadd (lg_now c) (Fin 60000))"
    "\<not> jgt (poolAgeHours (Some created) (lg_now c)) (lg_maxAgeHours c)"
    using g(2) yc(3) by (auto simp: rejectBadAge_def isFutureCreatedAt_def CLOCK_SKEW_MS_def Let_def
        split: if_splits)
  obtain v b where vb: "dp_volume1hUsd p = Some v" "jle (lg_minVolume1hUsd c) v"
    "dp_baseFeePct p = Some b" "jle (lg_minBaseFeePct c) b"
    using g(4) assms(4,5) by (auto simp: rejectThinFlow_def isThin1hVolume_def isThinBaseFee_def
        not_jlt_iff is_finite_iff split: if_splits option.splits)
  have bin: "is_integer (dp_binStep p)" "jle (lg_minBinStep c) (dp_binStep p)"
    "jle (dp_binStep p) (lg_maxBinStep c)"
    using g(4) assms(6,7) by (cases "dp_binStep p"; auto simp: rejectThinFlow_def
        isBinStepOutsideLaunchBand_def not_jlt_iff split: if_splits)+
  have tvl: "jle (lg_minTvlUsd c) (dp_tvlUsd p)" "jle (dp_tvlUsd p) (lg_maxTvlUsd c)"
    using g(3) assms(2,3) by (auto simp: rejectBadTvl_def isBelowLaunchTvlFloor_def not_jlt_iff
        is_finite_iff split: if_splits)
  have vol: "jlt (Fin 0) (dp_volume24hUsd p)"
    "\<not> jgt (jdiv (dp_volume24hUsd p) (dp_tvlUsd p)) (lg_maxVolumeTurnover c)"
    using g(5) by (auto simp: rejectWashTurnover_def hasNo24hVolume_def not_jle_iff is_finite_iff
        Let_def split: if_splits)
  show ?thesis using yc age vb bin tvl vol by blast
qed

text \<open>
  No pool is lost by the launch radar: the ranked pools are, as a multiset, the passed ones,
  the addresses of all others are rejected in order, and with fee yields that are numbers the
  ranking never puts a cooler pool before a hotter one.
\<close>
theorem launch_gate_partition:
  assumes "\<forall>p \<in> set ps. \<forall>y. dp_feeYield1hPct p = Some y \<longrightarrow> is_double y"
  shows "image_mset lr_pool (mset (lgr_ranked (gateAndRankLaunchPools ps c))) =
      filter_mset (\<lambda>p. \<exists>h t. launchAdmission p c = LaunchPassed h t) (mset ps) \<and>
    map fst (lgr_rejected (gateAndRankLaunchPools ps c)) =
      map dp_address (filter (\<lambda>p. \<nexists>h t. launchAdmission p c = LaunchPassed h t) ps) \<and>
    sorted_wrt (\<lambda>a b. jge (lr_score a) (lr_score b)) (lgr_ranked (gateAndRankLaunchPools ps c))"
proof -
  have "is_finite (lr_score r) \<and> is_double (lr_score r)" if "r \<in> set (fst (launchSplit c ps))" for r
  proof -
    have "lr_pool r \<in> set ps" using that launchSplit_eq(1)[of c ps] by (metis filter_is_subset imageI set_map subsetD)
    then show ?thesis
      using assms launchSplit_eq(3)[OF that]
      by (auto simp: admissionSafe_def num_simps split: option.split)
  qed
  then have "sorted_wrt (\<lambda>a b. jge (lr_score a) (lr_score b)) (sortByScore lr_score (fst (launchSplit c ps)))"
    by (intro sortByScore_descending) blast
  moreover have "image_mset lr_pool (mset (fst (launchSplit c ps))) =
      mset (filter (\<lambda>p. \<exists>h t. launchAdmission p c = LaunchPassed h t) ps)"
    by (simp only: launchSplit_eq(1)[symmetric] mset_map)
  ultimately show ?thesis
    using launchSplit_eq(2)[of c ps] by (simp add: gateAndRankLaunchPools_def case_prod_unfold Let_def)
qed

text \<open>
  The rejection histogram is exact: its rows come by falling count, no category has two rows,
  and every row counts all rejections of its category and quotes the first reason among them.
\<close>
theorem launch_histogram_exact:
  shows "distinct (map fst (summarizeLaunchRejections xs n)) \<and>
    (\<forall>row \<in> set (summarizeLaunchRejections xs n).
      (let own = filter (\<lambda>x. fst x = fst row) xs
       in own \<noteq> [] \<and> fst (snd row) = length own \<and> snd (snd row) = snd (hd own))) \<and>
    (length xs \<le> 2 ^ 53 \<longrightarrow>
      sorted_wrt (\<lambda>a b. fst (snd b) \<le> fst (snd a)) (summarizeLaunchRejections xs n))"
proof -
  define before where "before = (\<lambda>(a :: LaunchRejectCategory \<times> nat \<times> 'a) (b :: LaunchRejectCategory \<times> nat \<times> 'a).
    jlt (jsub (jnat (fst (snd b))) (jnat (fst (snd a)))) (Fin 0))"
  define sorted where "sorted = sort_before before (countCategories xs)"
  have sum: "summarizeLaunchRejections xs n = js_take (jmax n (Fin 1)) sorted"
    by (simp add: summarizeLaunchRejections_def sorted_def before_def)
  have jt: "\<exists>k. js_take m zs = take k zs" for m and zs :: "(LaunchRejectCategory \<times> nat \<times> 'a) list"
    by (auto simp: js_take_def split: jsnum.split intro: exI[of _ "length zs"] exI[of _ 0])
  then obtain k where k: "summarizeLaunchRejections xs n = take k sorted" unfolding sum by blast
  have "mset (map fst sorted) = mset (map fst (countCategories xs))" by (simp add: sorted_def)
  then have "distinct (map fst sorted)"
    using countCategories_spec[of xs] by (metis distinct_count_atmost_1 mset_eq_setD)
  then have 1: "distinct (map fst (summarizeLaunchRejections xs n))"
    by (simp add: k take_map[symmetric] distinct_take)
  have rows: "(let own = filter (\<lambda>x. fst x = fst row) xs
       in own \<noteq> [] \<and> fst (snd row) = length own \<and> snd (snd row) = snd (hd own))"
    if "row \<in> set sorted" for row
  proof -
    have "(fst row, fst (snd row), snd (snd row)) \<in> set (countCategories xs)"
      using that by (simp add: sorted_def)
    then show ?thesis using countCategories_spec[of xs] by blast
  qed
  then have 2: "\<forall>row \<in> set (summarizeLaunchRejections xs n).
      (let own = filter (\<lambda>x. fst x = fst row) xs
       in own \<noteq> [] \<and> fst (snd row) = length own \<and> snd (snd row) = snd (hd own))"
    using set_take_subset[of k sorted] unfolding k by blast
  have "sorted_wrt (\<lambda>a b. fst (snd b) \<le> fst (snd a)) sorted" if len: "length xs \<le> 2 ^ 53"
  proof -
    have small: "fst (snd row) \<le> 2 ^ 53" if "row \<in> set (countCategories xs)" for row
      using rows[of row] that order_trans[OF length_filter_le len, of "\<lambda>x. fst x = fst row"]
      by (simp add: sorted_def Let_def)
    have b: "before x y \<longleftrightarrow> fst (snd y) < fst (snd x)"
      if "x \<in> set (countCategories xs)" "y \<in> set (countCategories xs)" for x y
      using small[OF that(1)] small[OF that(2)]
        jsub_neg_iff[of "of_nat (fst (snd y))" "of_nat (fst (snd x))"]
      by (simp add: before_def jnat_def fl_of_nat)
    have "sorted_wrt (\<lambda>x y. \<not> before y x) sorted"
      unfolding sorted_def by (rule sorted_sort_before) (simp_all add: b)
    then show ?thesis
      by (rule sorted_wrt_mono_rel[rotated]) (use b in \<open>auto simp: sorted_def\<close>)
  qed
  then have 3: "length xs \<le> 2 ^ 53 \<longrightarrow>
      sorted_wrt (\<lambda>a b. fst (snd b) \<le> fst (snd a)) (summarizeLaunchRejections xs n)"
    unfolding k using sorted_wrt_take by blast
  from 1 2 3 show ?thesis by blast
qed

text \<open>
  The launch radar does not screen transfer fees: its verdict is the same whatever is known of
  the legs' transfer fees, although the market gate rejects such legs.
\<close>
theorem launch_ignores_transfer_fees:
  shows "launchAdmission (p\<lparr>dp_tokenXTransferFeeEnabled := x, dp_tokenYTransferFeeEnabled := y\<rparr>) c =
    launchAdmission p c"
proof -
  let ?p = "p\<lparr>dp_tokenXTransferFeeEnabled := x, dp_tokenYTransferFeeEnabled := y\<rparr>"
  have "rejectMissingData ?p = rejectMissingData p"
    by (simp add: rejectMissingData_def isUnknownFeeYield_def)
  moreover have "rejectBadAge ?p c = rejectBadAge p c"
    by (cases "dp_createdAtMs p") (simp_all add: rejectBadAge_def)
  moreover have "rejectBadTvl ?p c = rejectBadTvl p c"
    by (simp add: rejectBadTvl_def isBelowLaunchTvlFloor_def)
  moreover have "rejectThinFlow ?p c = rejectThinFlow p c"
    by (simp add: rejectThinFlow_def isThin1hVolume_def isThinBaseFee_def isBinStepOutsideLaunchBand_def)
  moreover have "rejectWashTurnover ?p c = rejectWashTurnover p c"
    by (simp add: rejectWashTurnover_def hasNo24hVolume_def)
  moreover have "launchLegRejectReason ?p c = launchLegRejectReason p c"
    by (simp add: launchLegRejectReason_def marketLegX_def marketLegY_def)
  moreover have "dp_createdAtMs ?p = dp_createdAtMs p" "dp_volume24hUsd ?p = dp_volume24hUsd p"
    "dp_tvlUsd ?p = dp_tvlUsd p" by simp_all
  ultimately show ?thesis by (simp only: launchAdmission_def)
qed

section \<open>Launch witnesses\<close>

definition sampleLaunchConfig :: LaunchGateConfig where
  "sampleLaunchConfig = \<lparr>lg_minTvlUsd = Fin 1000, lg_maxTvlUsd = Fin 50000, lg_maxAgeHours = Fin 6,
     lg_minVolume1hUsd = Fin 500, lg_minBaseFeePct = Fin 1, lg_minBinStep = Fin 20,
     lg_maxBinStep = Fin 400, lg_maxVolumeTurnover = Fin 20, lg_minHolders = Fin 100,
     lg_stablecoinMints = [], lg_now = Fin 3601000\<rparr>"

lemma sample_launch_passed:
  "launchAdmission sampleDiscovered sampleLaunchConfig = LaunchPassed (Fin 1) (Fin 2)"
  by (simp add: launchAdmission_def rejectMissingData_def isUnknownFeeYield_def opt_finite_def
      rejectBadAge_def isFutureCreatedAt_def CLOCK_SKEW_MS_def poolAgeHours_def LAUNCH_HOUR_MS_def
      rejectBadTvl_def isBelowLaunchTvlFloor_def rejectThinFlow_def isThin1hVolume_def
      isThinBaseFee_def isBinStepOutsideLaunchBand_def rejectWashTurnover_def hasNo24hVolume_def
      launchLegRejectReason_def marketLegX_def marketLegY_def marketLegPasses_def isStableOrSol_def
      transferFeeRejectionReason_def sampleDiscovered_def sampleLaunchConfig_def jsub_def num_simps Let_def)

theorem launch_fails_closed_witness:
  "jle (lg_minTvlUsd sampleLaunchConfig) (dp_tvlUsd sampleDiscovered)"
  using launch_fails_closed[OF sample_launch_passed] by (auto simp: sampleLaunchConfig_def)

theorem launch_partition_witness:
  "image_mset lr_pool (mset (lgr_ranked (gateAndRankLaunchPools [sampleDiscovered] sampleLaunchConfig))) =
     {#sampleDiscovered#}"
proof -
  have "\<forall>p \<in> set [sampleDiscovered]. \<forall>y. dp_feeYield1hPct p = Some y \<longrightarrow> is_double y"
    by (simp add: sampleDiscovered_def num_simps)
  from launch_gate_partition[OF this, of sampleLaunchConfig] show ?thesis
    by (simp add: sample_launch_passed)
qed

theorem launch_histogram_witness:
  "sorted_wrt (\<lambda>a b. fst (snd b) \<le> fst (snd a))
     (summarizeLaunchRejections [(CatAge, ''x''), (CatTvl, ''y''), (CatTvl, ''z'')] (Fin 6))"
  using launch_histogram_exact[of "[(CatAge, ''x''), (CatTvl, ''y''), (CatTvl, ''z'')]" "Fin 6"] by simp

end
