(* ===== verification/Strategy.thy ===== *)
theory Strategy
  imports DomainTypes
begin

text \<open>
  The strategy engine (\<^verbatim>\<open>engine/strategy-service.ts\<close>): pool metrics, the entry pre-filter, the
  width of a range, the evolution of the entry thresholds and of the signal weights from closed
  positions, the recovery estimate of an out-of-range position, and the entry score.
  \<^verbatim>\<open>Math.sqrt\<close> and \<^verbatim>\<open>Math.log\<close>, whose results the language leaves to the
  implementation, are the parameters \<open>sqrtf\<close> and \<open>logf\<close>; the clock is the parameter \<open>now\<close>.  Flags and
  rejection reasons are the template with the numbers it prints.
\<close>

section \<open>Impermanent loss\<close>

definition MAX_FEE_IL_RATIO :: jsnum where
  "MAX_FEE_IL_RATIO = Fin 20"

definition MS_PER_DAY :: jsnum where
  "MS_PER_DAY = Fin 86400000"

definition CONCENTRATION_REFERENCE_HALF_WIDTH :: jsnum where
  "CONCENTRATION_REFERENCE_HALF_WIDTH = Fin 20"

definition MAX_CONCENTRATION_MULTIPLIER :: jsnum where
  "MAX_CONCENTRATION_MULTIPLIER = Fin 10"

definition BIN_STEP_DRIFT_PROXY_PER_DAY :: jsnum where
  "BIN_STEP_DRIFT_PROXY_PER_DAY = Fin 10"

definition impermanentLossFraction :: "(jsnum \<Rightarrow> jsnum) \<Rightarrow> jsnum \<Rightarrow> jsnum" where
  "impermanentLossFraction sqrtf priceRatio =
     jabs (jsub (jdiv (jmul (Fin 2) (sqrtf priceRatio)) (jadd (Fin 1) priceRatio)) (Fin 1))"

text \<open>The loop over the bins, with the two running sums.\<close>

fun concentration_sums :: "jsnum \<Rightarrow> BinData list \<Rightarrow> jsnum \<times> jsnum \<Rightarrow> jsnum \<times> jsnum" where
  "concentration_sums activeBinId [] acc = acc"
| "concentration_sums activeBinId (b # bs) (weightSum, distanceSum) =
     (let weight = of_bigint (bin_liquiditySupply b)
      in if \<not> is_finite weight \<or> jle weight (Fin 0)
         then concentration_sums activeBinId bs (weightSum, distanceSum)
         else concentration_sums activeBinId bs
           (jadd weightSum weight,
            jadd distanceSum (jmul weight (jabs (jsub (bin_binId b) activeBinId)))))"

definition computeConcentrationMultiplier :: "BinArray \<Rightarrow> jsnum" where
  "computeConcentrationMultiplier binArray =
     (if ba_reservesKnown binArray = Some False then Fin 1
      else
        let (weightSum, distanceSum) =
          concentration_sums (ba_activeBinId binArray) (ba_bins binArray) (Fin 0, Fin 0)
        in if jle weightSum (Fin 0) then Fin 1
           else
             let effectiveHalfWidth = jmax (jdiv distanceSum weightSum) (Fin 1)
             in jmin (jmax (jdiv CONCENTRATION_REFERENCE_HALF_WIDTH effectiveHalfWidth) (Fin 1))
                  MAX_CONCENTRATION_MULTIPLIER)"

text \<open>The previous price and its time, when both are known and the drift can be measured.\<close>

definition usable_drift :: "PoolState \<Rightarrow> PriceDriftContext option \<Rightarrow> (jsnum \<times> jsnum) option" where
  "usable_drift pool priceDrift =
     (case priceDrift of None \<Rightarrow> None
      | Some d \<Rightarrow>
          (case drift_previousPrice d of None \<Rightarrow> None
           | Some p \<Rightarrow>
               (case drift_previousTimestamp d of None \<Rightarrow> None
                | Some t \<Rightarrow>
                    if jgt p (Fin 0) \<and> jgt (ps_timestamp pool) t \<and> jgt (ps_currentPrice pool) (Fin 0)
                    then Some (p, t) else None)))"

definition estimateDailyIlUsd ::
  "(jsnum \<Rightarrow> jsnum) \<Rightarrow> PoolState \<Rightarrow> BinArray \<Rightarrow> PriceDriftContext option \<Rightarrow> jsnum" where
  "estimateDailyIlUsd sqrtf pool binArray priceDrift =
     (let concentration = computeConcentrationMultiplier binArray
      in case usable_drift pool priceDrift of
           Some (previousPrice, previousTimestamp) \<Rightarrow>
             let ratio = jmin (jmax (jdiv (ps_currentPrice pool) previousPrice) (Fin (1 / 2))) (Fin 2);
                 elapsedMs = jsub (ps_timestamp pool) previousTimestamp;
                 cyclesPerDay = jdiv MS_PER_DAY elapsedMs;
                 ilDailyFraction =
                   jmul (jmul (impermanentLossFraction sqrtf ratio) cyclesPerDay) concentration
             in jmul (ps_tvlUsd pool) ilDailyFraction
         | None \<Rightarrow>
             let binStepBps = nullish (ba_binStep binArray) (ps_binStep pool);
                 assumedDailyDrift = jmul (jdiv binStepBps (Fin 10000)) BIN_STEP_DRIFT_PROXY_PER_DAY;
                 ilDailyFraction =
                   jmul (impermanentLossFraction sqrtf (jadd (Fin 1) assumedDailyDrift)) concentration
             in jmul (ps_tvlUsd pool) ilDailyFraction)"

definition dipOffsetBinsForPct :: "(jsnum \<Rightarrow> jsnum) \<Rightarrow> jsnum \<Rightarrow> jsnum \<Rightarrow> jsnum" where
  "dipOffsetBinsForPct logf binStep dipPct =
     (if jle dipPct (Fin 0) \<or> jge dipPct (Fin 1) \<or> \<not> is_finite dipPct \<or> \<not> is_finite binStep
         \<or> jle binStep (Fin 0)
      then Fin 0
      else
        let step = jadd (Fin 1) (jdiv binStep (Fin 10000))
        in jround (jdiv (logf (jsub (Fin 1) dipPct)) (logf step)))"

section \<open>Pool metrics\<close>

definition computeFeeIlRatio ::
  "(jsnum \<Rightarrow> jsnum) \<Rightarrow> PoolState \<Rightarrow> BinArray \<Rightarrow> PriceDriftContext option \<Rightarrow> jsnum" where
  "computeFeeIlRatio sqrtf pool binArray priceDrift =
     (if jeq (ps_tvlUsd pool) (Fin 0) then Fin 0
      else
        let estimatedIlDailyUsd = estimateDailyIlUsd sqrtf pool binArray priceDrift
        in if jle estimatedIlDailyUsd (Fin 0)
           then (if jgt (ps_fees24hUsd pool) (Fin 0) then MAX_FEE_IL_RATIO else Fin 0)
           else jmin (jdiv (ps_fees24hUsd pool) estimatedIlDailyUsd) MAX_FEE_IL_RATIO)"

datatype VolumeAuthFlag = ZeroTvl | VolTvlSuspicious jsnum | VolTvlElevated jsnum
  | FeeRateOutlier jsnum | LowTvlHighVolume

record VolumeAuthResult =
  va_score :: jsnum
  va_flags :: "VolumeAuthFlag list"

definition checkVolumeAuthenticity :: "PoolState \<Rightarrow> bool \<Rightarrow> VolumeAuthResult" where
  "checkVolumeAuthenticity pool feesMeasured =
     (if jeq (ps_tvlUsd pool) (Fin 0) then \<lparr>va_score = Fin 0, va_flags = [ZeroTvl]\<rparr>
      else
        let volTvlRatio = jdiv (ps_volume24hUsd pool) (ps_tvlUsd pool);
            (score, flags) =
              (if jgt volTvlRatio (Fin 10)
               then (jsub (Fin 1) (fl (3 / 10)), [VolTvlSuspicious volTvlRatio])
               else if jgt volTvlRatio (Fin 5)
               then (jsub (Fin 1) (fl (15 / 100)), [VolTvlElevated volTvlRatio])
               else (Fin 1, []));
            feeRate = jdiv (ps_fees24hUsd pool) (ps_volume24hUsd pool);
            (score, flags) =
              (if feesMeasured \<and> jgt (ps_volume24hUsd pool) (Fin 0)
                  \<and> (jlt feeRate (fl (2 / 10000)) \<or> jgt feeRate (fl (2 / 100)))
               then (jsub score (fl (2 / 10)), flags @ [FeeRateOutlier (jmul feeRate (Fin 100))])
               else (score, flags));
            (score, flags) =
              (if jlt (ps_tvlUsd pool) (Fin 5000) \<and> jgt (ps_volume24hUsd pool) (Fin 100000)
               then (jsub score (Fin (1 / 2)), flags @ [LowTvlHighVolume])
               else (score, flags))
        in \<lparr>va_score = jmax (Fin 0) score, va_flags = flags\<rparr>)"

definition computeBinUtilization :: "BinArray \<Rightarrow> jsnum" where
  "computeBinUtilization binArray =
     (if ba_reservesKnown binArray = Some False then Fin 0
      else
        let total_bins = length (ba_bins binArray)
        in if total_bins = 0 then Fin 0
           else
             let active = length (filter
               (\<lambda>b. 0 < bin_reserveX b \<or> 0 < bin_reserveY b \<or> 0 < bin_liquiditySupply b)
               (ba_bins binArray))
             in jdiv (jnat active) (jnat total_bins))"

definition computeMetrics ::
  "(jsnum \<Rightarrow> jsnum) \<Rightarrow> PoolState \<Rightarrow> BinArray \<Rightarrow> jsnum \<Rightarrow> PriceDriftContext option \<Rightarrow> PoolMetrics" where
  "computeMetrics sqrtf pool binArray previousTvlUsd priceDrift =
     \<lparr>pm_pool = pool,
      pm_binArray = binArray,
      pm_tvlVelocity =
        (if jgt previousTvlUsd (Fin 0)
         then jdiv (jsub (ps_tvlUsd pool) previousTvlUsd) previousTvlUsd else Fin 0),
      pm_feeIlRatio = computeFeeIlRatio sqrtf pool binArray priceDrift,
      pm_volumeAuthenticity =
        va_score (checkVolumeAuthenticity pool (ps_statsSource pool = Some Datapi)),
      pm_binUtilization = computeBinUtilization binArray,
      pm_volumeAuthenticityKnown = isMeasuredStatsSource (ps_statsSource pool),
      pm_feeIlRatioKnown = (ps_statsSource pool = Some Datapi),
      pm_binUtilizationKnown = (ba_reservesKnown binArray \<noteq> Some False),
      pm_farmAprPct =
        (if ps_hasFarm pool = Some True then Some (nullish (ps_farmAprPct pool) (Fin 0)) else None),
      pm_netDriftBins = None\<rparr>"

section \<open>Entry pre-filter\<close>

record PreFilterInput =
  pf_tvlUsd :: jsnum
  pf_authScore :: jsnum
  pf_binUtilization :: jsnum
  pf_minTvlUsd :: jsnum
  pf_minAuthScore :: jsnum
  pf_minBinUtilization :: jsnum
  pf_authKnown :: "bool option"
  pf_binUtilizationKnown :: "bool option"

datatype PreFilterFailure = TvlNotMeasurable | TvlBelowMin jsnum jsnum
  | VolumeAuthBelowMin jsnum jsnum | BinUtilizationBelowMin jsnum jsnum

definition preFilterFailures :: "PreFilterInput \<Rightarrow> PreFilterFailure list" where
  "preFilterFailures inp =
     (if \<not> jgt (pf_tvlUsd inp) (Fin 0) then [TvlNotMeasurable]
      else if jlt (pf_tvlUsd inp) (pf_minTvlUsd inp)
      then [TvlBelowMin (pf_tvlUsd inp) (pf_minTvlUsd inp)] else [])
     @ (if pf_authKnown inp \<noteq> Some False \<and> jlt (pf_authScore inp) (pf_minAuthScore inp)
        then [VolumeAuthBelowMin (pf_authScore inp) (pf_minAuthScore inp)] else [])
     @ (if pf_binUtilizationKnown inp \<noteq> Some False
           \<and> jlt (pf_binUtilization inp) (pf_minBinUtilization inp)
        then [BinUtilizationBelowMin (pf_binUtilization inp) (pf_minBinUtilization inp)] else [])"

definition passesPreFilter ::
  "PoolState \<Rightarrow> jsnum \<Rightarrow> jsnum \<Rightarrow> jsnum \<Rightarrow> jsnum \<Rightarrow> jsnum \<Rightarrow> bool \<Rightarrow> bool \<Rightarrow> bool" where
  "passesPreFilter pool authScore binUtilization minTvlUsd minAuthScore minBinUtilization
       authKnown binUtilizationKnown \<longleftrightarrow>
     length (preFilterFailures
       \<lparr>pf_tvlUsd = ps_tvlUsd pool, pf_authScore = authScore, pf_binUtilization = binUtilization,
        pf_minTvlUsd = minTvlUsd, pf_minAuthScore = minAuthScore,
        pf_minBinUtilization = minBinUtilization, pf_authKnown = Some authKnown,
        pf_binUtilizationKnown = Some binUtilizationKnown\<rparr>) = 0"

section \<open>Width of a range\<close>

record BinRange =
  range_lowerBinId :: jsnum
  range_upperBinId :: jsnum

record VolatilityBinRange = BinRange +
  range_halfWidth :: jsnum

text \<open>\<^verbatim>\<open>reduce\<close> from 0, then the sample variance: both are left folds rounding at each step.\<close>

definition computeBinVolatilityStddev :: "(jsnum \<Rightarrow> jsnum) \<Rightarrow> jsnum list \<Rightarrow> jsnum" where
  "computeBinVolatilityStddev sqrtf activeBins =
     (if length activeBins < 2 then Fin 0
      else
        let mean = jdiv (jsum activeBins) (jnat (length activeBins));
            variance = jdiv (jsum (map (\<lambda>v. jmul (jsub v mean) (jsub v mean)) activeBins))
              (jnat (length activeBins - 1))
        in sqrtf variance)"

definition isHighVolatility :: "jsnum \<Rightarrow> jsnum \<Rightarrow> bool" where
  "isHighVolatility stddev threshold \<longleftrightarrow> jge stddev threshold"

definition baselineHalfWidthForBinStep :: "jsnum \<Rightarrow> jsnum" where
  "baselineHalfWidthForBinStep binStep =
     (if jle binStep (Fin 10) then Fin 25 else if jle binStep (Fin 25) then Fin 20 else Fin 15)"

definition recommendBinRange :: "jsnum \<Rightarrow> jsnum \<Rightarrow> jsnum option \<Rightarrow> jsnum \<Rightarrow> BinRange" where
  "recommendBinRange activeBinId binStep halfWidthOverride dipOffsetBins =
     (let halfWidth = nullish halfWidthOverride (baselineHalfWidthForBinStep binStep)
      in \<lparr>range_lowerBinId = jadd (jsub activeBinId halfWidth) dipOffsetBins,
          range_upperBinId = jadd (jadd activeBinId halfWidth) dipOffsetBins\<rparr>)"

definition recommendBinRangeForVolatility ::
  "jsnum \<Rightarrow> jsnum \<Rightarrow> bool \<Rightarrow> jsnum \<Rightarrow> jsnum option \<Rightarrow> VolatilityBinRange" where
  "recommendBinRangeForVolatility activeBinId binStep highVolatility wideHalfWidth
       baseHalfWidthOverride =
     (let baseHalfWidth = nullish baseHalfWidthOverride (baselineHalfWidthForBinStep binStep);
          halfWidth =
            (if highVolatility then jmax (jmul baseHalfWidth (Fin 2)) wideHalfWidth else baseHalfWidth)
      in \<lparr>range_lowerBinId = jsub activeBinId halfWidth,
          range_upperBinId = jadd activeBinId halfWidth,
          range_halfWidth = halfWidth\<rparr>)"

definition ADAPTIVE_RANGE_REFERENCE_STDDEV :: jsnum where
  "ADAPTIVE_RANGE_REFERENCE_STDDEV = Fin 2"

definition ADAPTIVE_RANGE_MIN_MULTIPLIER :: jsnum where
  "ADAPTIVE_RANGE_MIN_MULTIPLIER = Fin (1 / 2)"

definition ADAPTIVE_RANGE_MAX_MULTIPLIER :: jsnum where
  "ADAPTIVE_RANGE_MAX_MULTIPLIER = Fin 2"

definition MIN_ADAPTIVE_HALF_WIDTH_BINS :: jsnum where
  "MIN_ADAPTIVE_HALF_WIDTH_BINS = Fin 5"

definition MAX_SINGLE_POSITION_WIDTH_BINS :: jsnum where
  "MAX_SINGLE_POSITION_WIDTH_BINS = Fin 70"

definition halfWidthForPriceCoveragePct :: "(jsnum \<Rightarrow> jsnum) \<Rightarrow> jsnum \<Rightarrow> jsnum \<Rightarrow> jsnum" where
  "halfWidthForPriceCoveragePct logf binStep pct =
     (if \<not> jgt pct (Fin 0) \<or> \<not> is_finite pct \<or> \<not> is_finite binStep \<or> jle binStep (Fin 0)
      then Fin 0
      else
        let step = jadd (Fin 1) (jdiv binStep (Fin 10000))
        in jmax (Fin 0)
             (jceil (jdiv (logf (jadd (Fin 1) (jdiv pct (Fin 100)))) (logf step))))"

record RangeHalfWidthInput =
  rhw_binStep :: jsnum
  rhw_configuredBaseHalfWidth :: jsnum
  rhw_adaptiveEnabled :: bool
  rhw_volatilityStddev :: jsnum
  rhw_maxFullRangeBins :: jsnum
  rhw_minPriceCoveragePct :: "jsnum option"

definition half_cap :: "RangeHalfWidthInput \<Rightarrow> jsnum" where
  "half_cap args =
     jmin (jmax (Fin 1) (jfloor (jdiv (rhw_maxFullRangeBins args) (Fin 2))))
       (jfloor (jdiv (jsub MAX_SINGLE_POSITION_WIDTH_BINS (Fin 1)) (Fin 2)))"

definition effective_base :: "(jsnum \<Rightarrow> jsnum) \<Rightarrow> RangeHalfWidthInput \<Rightarrow> jsnum" where
  "effective_base logf args =
     (let base =
            (if jgt (rhw_configuredBaseHalfWidth args) (Fin 0) then rhw_configuredBaseHalfWidth args
             else baselineHalfWidthForBinStep (rhw_binStep args));
          coverageWidth = halfWidthForPriceCoveragePct logf (rhw_binStep args)
            (nullish (rhw_minPriceCoveragePct args) (Fin 0));
          coverageFloor =
            (if jgt coverageWidth (Fin 0) then jmin (half_cap args) coverageWidth else Fin 0)
      in jmax base coverageFloor)"

definition resolveRangeHalfWidth :: "(jsnum \<Rightarrow> jsnum) \<Rightarrow> RangeHalfWidthInput \<Rightarrow> jsnum" where
  "resolveRangeHalfWidth logf args =
     (let halfCap = half_cap args;
          effectiveMin = jmin MIN_ADAPTIVE_HALF_WIDTH_BINS halfCap;
          effectiveBase = effective_base logf args
      in if \<not> rhw_adaptiveEnabled args \<or> \<not> is_finite (rhw_volatilityStddev args)
            \<or> jle (rhw_volatilityStddev args) (Fin 0)
         then jmin halfCap (jmax effectiveMin effectiveBase)
         else
           let rawMultiplier = jdiv (rhw_volatilityStddev args) ADAPTIVE_RANGE_REFERENCE_STDDEV;
               multiplier = jmin ADAPTIVE_RANGE_MAX_MULTIPLIER
                 (jmax ADAPTIVE_RANGE_MIN_MULTIPLIER rawMultiplier);
               scaled = jround (jmul effectiveBase multiplier)
           in jmin halfCap (jmax effectiveMin scaled))"

datatype EntryStrategySpec = Spot | Curve | BidAsk

definition recommendStrategy :: "jsnum \<Rightarrow> jsnum \<Rightarrow> jsnum \<Rightarrow> EntryStrategySpec" where
  "recommendStrategy volatilityStddev highVolThreshold netDriftBins =
     (let trendDominates =
            jge (jabs netDriftBins) (jmax (Fin 3) (jmul (Fin 2) volatilityStddev))
      in if trendDominates then BidAsk
         else if isHighVolatility volatilityStddev highVolThreshold then Spot
         else Curve)"

section \<open>Evolution of the entry thresholds\<close>

record EvolvableThresholds =
  evo_minFeeIlRatio :: jsnum
  evo_volumeAuthThreshold :: jsnum
  evo_minBinUtilization :: jsnum

record OutcomeRecord =
  out_feeIlRatio :: jsnum
  out_volumeAuthenticity :: jsnum
  out_binUtilization :: jsnum
  out_pnlUsd :: jsnum
  out_outcomeRecordedAt :: jsnum

record ThresholdEvolutionResult =
  evo_thresholds :: EvolvableThresholds
  evo_changed :: bool

datatype SignalKey = FeeIlSignal | VolumeAuthSignal | BinUtilSignal

text \<open>\<^verbatim>\<open>o[signalKey]\<close>.\<close>

fun signal_of :: "SignalKey \<Rightarrow> OutcomeRecord \<Rightarrow> jsnum" where
  "signal_of FeeIlSignal ob = out_feeIlRatio ob"
| "signal_of VolumeAuthSignal ob = out_volumeAuthenticity ob"
| "signal_of BinUtilSignal ob = out_binUtilization ob"

definition MIN_FEE_IL_EVOLVED_MIN :: jsnum where "MIN_FEE_IL_EVOLVED_MIN = fl (3 / 10)"
definition MIN_FEE_IL_EVOLVED_MAX :: jsnum where "MIN_FEE_IL_EVOLVED_MAX = Fin 3"
definition VOLUME_AUTH_EVOLVED_MIN :: jsnum where "VOLUME_AUTH_EVOLVED_MIN = fl (1 / 10)"
definition VOLUME_AUTH_EVOLVED_MAX :: jsnum where "VOLUME_AUTH_EVOLVED_MAX = fl (9 / 10)"
definition MIN_BIN_UTIL_EVOLVED_MIN :: jsnum where "MIN_BIN_UTIL_EVOLVED_MIN = fl (5 / 100)"
definition MIN_BIN_UTIL_EVOLVED_MAX :: jsnum where "MIN_BIN_UTIL_EVOLVED_MAX = fl (8 / 10)"

definition clampThreshold :: "jsnum \<Rightarrow> jsnum \<Rightarrow> jsnum \<Rightarrow> jsnum" where
  "clampThreshold value min_value max_value =
     (if \<not> is_finite value then min_value else jmin (jmax value min_value) max_value)"

definition clampEvolvedThresholds :: "EvolvableThresholds \<Rightarrow> EvolvableThresholds" where
  "clampEvolvedThresholds thresholds =
     \<lparr>evo_minFeeIlRatio = clampThreshold (evo_minFeeIlRatio thresholds)
        MIN_FEE_IL_EVOLVED_MIN MIN_FEE_IL_EVOLVED_MAX,
      evo_volumeAuthThreshold = clampThreshold (evo_volumeAuthThreshold thresholds)
        VOLUME_AUTH_EVOLVED_MIN VOLUME_AUTH_EVOLVED_MAX,
      evo_minBinUtilization = clampThreshold (evo_minBinUtilization thresholds)
        MIN_BIN_UTIL_EVOLVED_MIN MIN_BIN_UTIL_EVOLVED_MAX\<rparr>"

definition nudgeThreshold :: "jsnum \<Rightarrow> jsnum \<Rightarrow> jsnum \<Rightarrow> jsnum" where
  "nudgeThreshold current target maxChangePct =
     (if jeq current (Fin 0) then target
      else
        let maxDelta = jmul (jabs current) maxChangePct;
            rawDelta = jsub target current;
            clampedDelta = jmax (jneg maxDelta) (jmin maxDelta rawDelta)
        in jadd current clampedDelta)"

definition computeSignalLift :: "OutcomeRecord list \<Rightarrow> SignalKey \<Rightarrow> jsnum" where
  "computeSignalLift outcomes signalKey =
     (let winners = map (signal_of signalKey) (filter (\<lambda>ob. jgt (out_pnlUsd ob) (Fin 0)) outcomes);
          losers = map (signal_of signalKey) (filter (\<lambda>ob. \<not> jgt (out_pnlUsd ob) (Fin 0)) outcomes)
      in if length winners = 0 \<or> length losers = 0 then Fin 0
         else
           let winMean = jdiv (jsum winners) (jnat (length winners));
               loseMean = jdiv (jsum losers) (jnat (length losers));
               range = jmax (jabs winMean) (jmax (jabs loseMean) (fl (1 / 10 ^ 9)))
           in jdiv (jsub winMean loseMean) range)"

record EvolutionOptions =
  evo_maxChangePct :: "jsnum option"
  evo_minOutcomes :: "jsnum option"

definition evolveThresholds ::
  "OutcomeRecord list \<Rightarrow> EvolvableThresholds \<Rightarrow> EvolutionOptions option \<Rightarrow> ThresholdEvolutionResult" where
  "evolveThresholds outcomes current options =
     (let minOutcomes = nullish (Option.bind options evo_minOutcomes) (Fin 5)
      in if jlt (jnat (length outcomes)) minOutcomes
         then \<lparr>evo_thresholds = current, evo_changed = False\<rparr>
         else
           let maxChangePct = nullish (Option.bind options evo_maxChangePct) (fl (2 / 10));
               feeLift = computeSignalLift outcomes FeeIlSignal;
               authLift = computeSignalLift outcomes VolumeAuthSignal;
               utilLift = computeSignalLift outcomes BinUtilSignal;
               feeTarget = jmul (evo_minFeeIlRatio current) (jadd (Fin 1) feeLift);
               authTarget = jmul (evo_volumeAuthThreshold current) (jadd (Fin 1) authLift);
               utilTarget = jmul (evo_minBinUtilization current) (jadd (Fin 1) utilLift);
               newFeeIl = clampThreshold
                 (nudgeThreshold (evo_minFeeIlRatio current) feeTarget maxChangePct)
                 MIN_FEE_IL_EVOLVED_MIN MIN_FEE_IL_EVOLVED_MAX;
               newAuth = clampThreshold
                 (nudgeThreshold (evo_volumeAuthThreshold current) authTarget maxChangePct)
                 VOLUME_AUTH_EVOLVED_MIN VOLUME_AUTH_EVOLVED_MAX;
               newUtil = clampThreshold
                 (nudgeThreshold (evo_minBinUtilization current) utilTarget maxChangePct)
                 MIN_BIN_UTIL_EVOLVED_MIN MIN_BIN_UTIL_EVOLVED_MAX
           in \<lparr>evo_thresholds =
                 \<lparr>evo_minFeeIlRatio = newFeeIl, evo_volumeAuthThreshold = newAuth,
                  evo_minBinUtilization = newUtil\<rparr>,
               evo_changed =
                 (\<not> jeq newFeeIl (evo_minFeeIlRatio current)
                  \<or> \<not> jeq newAuth (evo_volumeAuthThreshold current)
                  \<or> \<not> jeq newUtil (evo_minBinUtilization current))\<rparr>)"

section \<open>Recovery of an out-of-range position\<close>

text \<open>The loop over consecutive bins.\<close>

fun sum_abs_deltas :: "jsnum \<Rightarrow> jsnum list \<Rightarrow> jsnum" where
  "sum_abs_deltas acc (x # y # bins) = sum_abs_deltas (jadd acc (jabs (jsub y x))) (y # bins)"
| "sum_abs_deltas acc _ = acc"

definition estimateRecoveryProbability :: "jsnum list \<Rightarrow> jsnum \<Rightarrow> jsnum" where
  "estimateRecoveryProbability recentBins currentDriftBins =
     (if length recentBins < 2 then Fin (1 / 2)
      else
        let meanAbsDelta =
              jdiv (sum_abs_deltas (Fin 0) recentBins) (jnat (length recentBins - 1))
        in if jle meanAbsDelta (Fin 0)
           then (if jle currentDriftBins (Fin 0) then Fin 1 else Fin 0)
           else
             let ratio = jdiv meanAbsDelta (jadd meanAbsDelta currentDriftBins)
             in jmax (Fin 0) (jmin (Fin 1) ratio))"

section \<open>Signal weights\<close>

record SignalWeights =
  sw_feeIlRatio :: jsnum
  sw_volumeAuthenticity :: jsnum
  sw_binUtilization :: jsnum
  sw_tvlUsd :: jsnum
  sw_tvlVelocity :: jsnum
  sw_updatedAt :: jsnum

record SignalWeightOptions =
  swo_windowDays :: "jsnum option"
  swo_minOutcomes :: "jsnum option"
  swo_boostFactor :: "jsnum option"
  swo_decayFactor :: "jsnum option"
  swo_weightFloor :: "jsnum option"
  swo_weightCeiling :: "jsnum option"

record ResolvedSignalWeightOptions =
  rswo_windowDays :: jsnum
  rswo_minOutcomes :: jsnum
  rswo_boostFactor :: jsnum
  rswo_decayFactor :: jsnum
  rswo_weightFloor :: jsnum
  rswo_weightCeiling :: jsnum

definition resolveSignalWeightOptions ::
  "SignalWeightOptions option \<Rightarrow> ResolvedSignalWeightOptions" where
  "resolveSignalWeightOptions options =
     \<lparr>rswo_windowDays = nullish (Option.bind options swo_windowDays) (Fin 60),
      rswo_minOutcomes = nullish (Option.bind options swo_minOutcomes) (Fin 10),
      rswo_boostFactor = nullish (Option.bind options swo_boostFactor) (fl (105 / 100)),
      rswo_decayFactor = nullish (Option.bind options swo_decayFactor) (fl (95 / 100)),
      rswo_weightFloor = nullish (Option.bind options swo_weightFloor) (fl (3 / 10)),
      rswo_weightCeiling = nullish (Option.bind options swo_weightCeiling) (Fin (5 / 2))\<rparr>"

definition recentOutcomesInWindow :: "OutcomeRecord list \<Rightarrow> jsnum \<Rightarrow> OutcomeRecord list" where
  "recentOutcomesInWindow outcomes cutoff =
     filter (\<lambda>ob. jgt (out_outcomeRecordedAt ob) cutoff) outcomes"

definition signalWeightNudge :: "nat \<Rightarrow> jsnum \<Rightarrow> jsnum \<Rightarrow> jsnum \<Rightarrow> jsnum" where
  "signalWeightNudge quartile lift boostFactor decayFactor =
     (if quartile = 0 then decayFactor
      else if quartile = 3 then boostFactor
      else jadd (Fin 1) (jmul lift (fl (5 / 100))))"

definition computeQuartile :: "OutcomeRecord list \<Rightarrow> SignalKey \<Rightarrow> nat" where
  "computeQuartile outcomes signalKey =
     (let values = sort_before (\<lambda>a b. jlt (jsub a b) (Fin 0)) (map (signal_of signalKey) outcomes);
          lastValue = nullish (js_at values (jsub (jnat (length values)) (Fin 1))) (Fin 0);
          q3Threshold =
            nullish (js_at values (jfloor (jmul (jnat (length values)) (Fin (3 / 4))))) lastValue;
          q0Threshold =
            nullish (js_at values (jfloor (jmul (jnat (length values)) (Fin (1 / 4))))) (Fin 0);
          latest = (case outcomes of [] \<Rightarrow> Fin 0 | ob # _ \<Rightarrow> signal_of signalKey ob)
      in if jge latest q3Threshold then 3
         else if jle latest q0Threshold then 0
         else if jge latest (jdiv (jadd q0Threshold q3Threshold) (Fin 2)) then 2
         else 1)"

definition clampWeight :: "jsnum \<Rightarrow> jsnum \<Rightarrow> jsnum \<Rightarrow> jsnum" where
  "clampWeight value floor_value ceiling_value = jmax floor_value (jmin ceiling_value value)"

text \<open>\<^verbatim>\<open>updated[signal]\<close> and \<^verbatim>\<open>{ ...updated, [signal]: w }\<close>.\<close>

fun weight_of :: "SignalKey \<Rightarrow> SignalWeights \<Rightarrow> jsnum" where
  "weight_of FeeIlSignal w = sw_feeIlRatio w"
| "weight_of VolumeAuthSignal w = sw_volumeAuthenticity w"
| "weight_of BinUtilSignal w = sw_binUtilization w"

fun set_weight :: "SignalKey \<Rightarrow> jsnum \<Rightarrow> SignalWeights \<Rightarrow> SignalWeights" where
  "set_weight FeeIlSignal x w = w\<lparr>sw_feeIlRatio := x\<rparr>"
| "set_weight VolumeAuthSignal x w = w\<lparr>sw_volumeAuthenticity := x\<rparr>"
| "set_weight BinUtilSignal x w = w\<lparr>sw_binUtilization := x\<rparr>"

definition WEIGHTED_SIGNALS :: "SignalKey list" where
  "WEIGHTED_SIGNALS = [FeeIlSignal, VolumeAuthSignal, BinUtilSignal]"

definition applySignalWeightNudges ::
  "jsnum \<Rightarrow> SignalWeights \<Rightarrow> OutcomeRecord list \<Rightarrow> jsnum \<Rightarrow> jsnum \<Rightarrow> jsnum \<Rightarrow> jsnum \<Rightarrow> SignalWeights"
where
  "applySignalWeightNudges now current recent boostFactor decayFactor weightFloor weightCeiling =
     foldl
       (\<lambda>updated signal.
          let lift = computeSignalLift recent signal;
              quartile = computeQuartile recent signal;
              nudge = signalWeightNudge quartile lift boostFactor decayFactor;
              newWeight = clampWeight (jmul (weight_of signal updated) nudge) weightFloor weightCeiling
          in set_weight signal newWeight updated)
       (current\<lparr>sw_updatedAt := now\<rparr>) WEIGHTED_SIGNALS"

definition computeSignalWeights ::
  "jsnum \<Rightarrow> OutcomeRecord list \<Rightarrow> SignalWeights \<Rightarrow> SignalWeightOptions option \<Rightarrow> SignalWeights" where
  "computeSignalWeights now outcomes current options =
     (let resolved = resolveSignalWeightOptions options;
          cutoff = jsub now (jmul (jmul (jmul (jmul (rswo_windowDays resolved) (Fin 24)) (Fin 60))
            (Fin 60)) (Fin 1000));
          recent = recentOutcomesInWindow outcomes cutoff
      in if jlt (jnat (length recent)) (rswo_minOutcomes resolved) then current
         else applySignalWeightNudges now current recent (rswo_boostFactor resolved)
           (rswo_decayFactor resolved) (rswo_weightFloor resolved) (rswo_weightCeiling resolved))"

section \<open>Entry confidence and score\<close>

definition FARM_APR_SCORE_REFERENCE_PCT :: jsnum where "FARM_APR_SCORE_REFERENCE_PCT = Fin 100"
definition FARM_SCORE_WEIGHT :: jsnum where "FARM_SCORE_WEIGHT = Fin 1"
definition DEFAULT_MOMENTUM_REFERENCE_BINS :: jsnum where "DEFAULT_MOMENTUM_REFERENCE_BINS = Fin 20"
definition DEFAULT_MOMENTUM_SCORE_WEIGHT :: jsnum where
  "DEFAULT_MOMENTUM_SCORE_WEIGHT = fl (15 / 100)"
definition DEFAULT_MOMENTUM_CONF_BOOST :: jsnum where "DEFAULT_MOMENTUM_CONF_BOOST = fl (5 / 100)"
definition DEFAULT_MAX_NEGATIVE_DRIFT_BINS :: jsnum where
  "DEFAULT_MAX_NEGATIVE_DRIFT_BINS = Fin (- 8)"

definition entryMomentumBoost :: "jsnum \<Rightarrow> jsnum \<Rightarrow> jsnum \<Rightarrow> jsnum" where
  "entryMomentumBoost netDriftBins referenceBins weight =
     (if \<not> is_finite netDriftBins \<or> jle referenceBins (Fin 0) then Fin 0
      else
        let fraction = jmin (jdiv (jmax netDriftBins (Fin 0)) referenceBins) (Fin 1)
        in jmul fraction weight)"

definition driftGateRejected :: "jsnum \<Rightarrow> jsnum \<Rightarrow> bool" where
  "driftGateRejected netDriftBins maxNegativeDriftBins \<longleftrightarrow> jlt netDriftBins maxNegativeDriftBins"

record MomentumOptions =
  mom_referenceBins :: jsnum
  mom_weight :: jsnum

definition normalEntryConfidence :: "jsnum \<Rightarrow> jsnum \<Rightarrow> MomentumOptions option \<Rightarrow> jsnum" where
  "normalEntryConfidence feeIlRatio netDriftBins opts =
     (let boost = entryMomentumBoost netDriftBins
        (nullish (map_option mom_referenceBins opts) DEFAULT_MOMENTUM_REFERENCE_BINS)
        (nullish (map_option mom_weight opts) DEFAULT_MOMENTUM_CONF_BOOST)
      in jmin (jadd (jadd (Fin (1 / 2)) (jmul feeIlRatio (fl (5 / 100)))) boost) (fl (85 / 100)))"

definition feeScoreTerm :: "PoolMetrics \<Rightarrow> SignalWeights \<Rightarrow> jsnum" where
  "feeScoreTerm metrics weights =
     (if \<not> pm_feeIlRatioKnown metrics then Fin 0
      else jmul (jmin (pm_feeIlRatio metrics) MAX_FEE_IL_RATIO) (sw_feeIlRatio weights))"

definition authenticityScoreTerm :: "PoolMetrics \<Rightarrow> SignalWeights \<Rightarrow> jsnum" where
  "authenticityScoreTerm metrics weights =
     (if \<not> pm_volumeAuthenticityKnown metrics then Fin 0
      else jmul (pm_volumeAuthenticity metrics) (sw_volumeAuthenticity weights))"

definition binUtilizationScoreTerm :: "PoolMetrics \<Rightarrow> SignalWeights \<Rightarrow> jsnum" where
  "binUtilizationScoreTerm metrics weights =
     (if \<not> pm_binUtilizationKnown metrics then Fin 0
      else jmul (pm_binUtilization metrics) (sw_binUtilization weights))"

definition farmScoreTerm :: "PoolMetrics \<Rightarrow> jsnum" where
  "farmScoreTerm metrics =
     jmul (jmin (jdiv (jmax (nullish (pm_farmAprPct metrics) (Fin 0)) (Fin 0))
       FARM_APR_SCORE_REFERENCE_PCT) (Fin 1)) FARM_SCORE_WEIGHT"

definition momentumScoreTerm :: "PoolMetrics \<Rightarrow> MomentumOptions option \<Rightarrow> jsnum" where
  "momentumScoreTerm metrics momentum =
     entryMomentumBoost (nullish (pm_netDriftBins metrics) (Fin 0))
       (nullish (map_option mom_referenceBins momentum) DEFAULT_MOMENTUM_REFERENCE_BINS)
       (nullish (map_option mom_weight momentum) DEFAULT_MOMENTUM_SCORE_WEIGHT)"

definition weightedEntryScore ::
  "PoolMetrics \<Rightarrow> SignalWeights \<Rightarrow> MomentumOptions option \<Rightarrow> jsnum" where
  "weightedEntryScore metrics weights momentum =
     (let tvlContrib = jmul (jmin (jdiv (ps_tvlUsd (pm_pool metrics)) (Fin 1000000)) (Fin 1))
            (sw_tvlUsd weights);
          velContrib = jmul (jmul (jdiv (Fin 1) (jadd (Fin 1) (jabs (pm_tvlVelocity metrics))))
            (sw_tvlVelocity weights)) (fl (1 / 10))
      in foldl jadd (feeScoreTerm metrics weights)
           [authenticityScoreTerm metrics weights, binUtilizationScoreTerm metrics weights,
            tvlContrib, velContrib, farmScoreTerm metrics, momentumScoreTerm metrics momentum])"

section \<open>Metrics\<close>

lemma va_score_cases:
  obtains "va_score (checkVolumeAuthenticity pool m) = Fin 0"
  | a b s where "a \<in> {Fin 1, jsub (Fin 1) (fl (3 / 10)), jsub (Fin 1) (fl (15 / 100))}"
    "b \<in> {a, jsub a (fl (2 / 10))}" "s \<in> {b, jsub b (Fin (1 / 2))}"
    "va_score (checkVolumeAuthenticity pool m) = jmax (Fin 0) s"
proof (cases "jeq (ps_tvlUsd pool) (Fin 0)")
  case False
  define r where "r = jdiv (ps_volume24hUsd pool) (ps_tvlUsd pool)"
  define fr where "fr = jdiv (ps_fees24hUsd pool) (ps_volume24hUsd pool)"
  define a where "a = (if jgt r (Fin 10) then jsub (Fin 1) (fl (3 / 10))
    else if jgt r (Fin 5) then jsub (Fin 1) (fl (15 / 100)) else Fin 1)"
  define b where "b = (if m \<and> jgt (ps_volume24hUsd pool) (Fin 0)
    \<and> (jlt fr (fl (2 / 10000)) \<or> jgt fr (fl (2 / 100))) then jsub a (fl (2 / 10)) else a)"
  define s where "s = (if jlt (ps_tvlUsd pool) (Fin 5000) \<and> jgt (ps_volume24hUsd pool) (Fin 100000)
    then jsub b (Fin (1 / 2)) else b)"
  have "va_score (checkVolumeAuthenticity pool m) = jmax (Fin 0) s"
    using False by (simp add: checkVolumeAuthenticity_def Let_def a_def b_def s_def
      flip: r_def fr_def) blast
  moreover have "s \<in> {b, jsub b (Fin (1 / 2))}" by (simp add: s_def)
  moreover have "b \<in> {a, jsub a (fl (2 / 10))}" by (simp add: b_def)
  moreover have "a \<in> {Fin 1, jsub (Fin 1) (fl (3 / 10)), jsub (Fin 1) (fl (15 / 100))}"
    by (simp add: a_def)
  ultimately show thesis using that(2) by blast
qed (use that(1) in \<open>simp add: checkVolumeAuthenticity_def\<close>)

lemma penalties_le_1:
  assumes "jle a (Fin 1) \<and> is_double a" "jle (Fin 0) p \<and> is_finite p"
  shows "jle (jsub a p) (Fin 1) \<and> is_double (jsub a p)"
proof -
  have "a \<noteq> NaN" using assms by auto
  then have "jsub a p \<noteq> NaN" using assms jsub_finite_not_NaN by blast
  then have "jle (jsub a p) a" using assms jsub_le_left by blast
  then show ?thesis using assms jle_trans by blast
qed

lemma penalty_numbers:
  "jle (Fin 0) (fl (3 / 10)) \<and> is_finite (fl (3 / 10))"
  "jle (Fin 0) (fl (15 / 100)) \<and> is_finite (fl (15 / 100))"
  "jle (Fin 0) (fl (2 / 10)) \<and> is_finite (fl (2 / 10))"
  "jle (Fin 0) (Fin (1 / 2)) \<and> is_finite (Fin (1 / 2))"
  by code_simp+

lemma va_score_range:
  "jle (Fin 0) (va_score (checkVolumeAuthenticity pool m)) \<and>
   jle (va_score (checkVolumeAuthenticity pool m)) (Fin 1)"
proof -
  let ?v = "va_score (checkVolumeAuthenticity pool m)"
  have one: "jle (Fin 1) (Fin 1) \<and> is_double (Fin 1)" by (simp add: num_simps)
  note pen = penalties_le_1[OF _ penalty_numbers(1)] penalties_le_1[OF _ penalty_numbers(2)]
    penalties_le_1[OF _ penalty_numbers(3)] penalties_le_1[OF _ penalty_numbers(4)]
  show ?thesis
  proof (cases rule: va_score_cases[of pool m])
    case (2 a b s)
    have a: "jle a (Fin 1) \<and> is_double a" using 2(1) one pen(1,2)[OF one]
      by (elim insertE emptyE) (simp_all only:)
    have b: "jle b (Fin 1) \<and> is_double b" using 2(2) a pen(3)[OF a]
      by (elim insertE emptyE) (simp_all only:)
    have "jle s (Fin 1)" using 2(3) b pen(4)[OF b] by (elim insertE emptyE) (simp_all only:)
    then show ?thesis unfolding 2(4) jmax_jle_iff by (cases s) (simp_all add: jmax_def)
  qed simp
qed

lemma binUtilization_range:
  "jle (Fin 0) (computeBinUtilization ba) \<and> jle (computeBinUtilization ba) (Fin 1)"
proof -
  let ?P = "\<lambda>b. 0 < bin_reserveX b \<or> 0 < bin_reserveY b \<or> 0 < bin_liquiditySupply b"
  have "length (filter ?P (ba_bins ba)) \<le> length (ba_bins ba)" by simp
  moreover have "ba_bins ba \<noteq> [] \<Longrightarrow> 0 < length (ba_bins ba)" by simp
  ultimately have "ba_bins ba \<noteq> [] \<Longrightarrow>
      jle (Fin 0) (jdiv (jnat (length (filter ?P (ba_bins ba)))) (jnat (length (ba_bins ba)))) \<and>
      jle (jdiv (jnat (length (filter ?P (ba_bins ba)))) (jnat (length (ba_bins ba)))) (Fin 1)"
    by (intro conjI jdiv_nonneg jdiv_le_1) (auto simp: jnat_def)
  then show ?thesis by (auto simp: computeBinUtilization_def Let_def)
qed

lemma MAX_FEE_IL_RATIO_simps [simp]: "MAX_FEE_IL_RATIO = Fin 20"
  by (simp add: MAX_FEE_IL_RATIO_def)

lemma feeIlRatio_range:
  assumes "jle (Fin 0) (ps_fees24hUsd pool)" "is_finite (ps_fees24hUsd pool)"
    and "estimateDailyIlUsd sq pool ba d \<noteq> NaN"
  shows "jle (Fin 0) (computeFeeIlRatio sq pool ba d) \<and> jle (computeFeeIlRatio sq pool ba d) (Fin 20)"
proof -
  define il where "il = estimateDailyIlUsd sq pool ba d"
  have pos: "jlt (Fin 0) il" if "\<not> jle il (Fin 0)"
    using that assms(3) by (simp add: not_jle_iff il_def)
  have "jdiv (ps_fees24hUsd pool) il \<noteq> NaN" if "jlt (Fin 0) il"
    using that assms(2) by (cases il; cases "ps_fees24hUsd pool") auto
  then have "jle (Fin 0) (jmin (jdiv (ps_fees24hUsd pool) il) (Fin 20))
      \<and> jle (jmin (jdiv (ps_fees24hUsd pool) il) (Fin 20)) (Fin 20)" if "jlt (Fin 0) il"
    using that assms(1) jdiv_nonneg[of "ps_fees24hUsd pool" il] jlt_imp_jle[OF that]
      jmin_le2[of "jdiv (ps_fees24hUsd pool) il" "Fin 20"]
    by (simp add: jle_jmin_iff)
  then show ?thesis using pos
    by (auto simp: computeFeeIlRatio_def Let_def simp flip: il_def)
qed

text \<open>
  C39. The measured quality of a pool stays on its scale: whatever the pool's numbers are (absent
  volume, zero or undefined TVL, NaN, infinities), the volume-authenticity score and the bin
  utilization are in \<open>[0, 1]\<close>, and the fee/IL ratio counts as known only when the volume is; if
  moreover the fees are finite and not negative and the impermanent-loss estimate is not NaN, the
  fee/IL ratio is in \<open>[0, 20]\<close>.  So no threshold above those ranges can be met.\<close>
theorem pool_metrics_ranges:
  assumes "m = computeMetrics sq pool ba prevTvl drift"
  shows "jle (Fin 0) (pm_volumeAuthenticity m) \<and> jle (pm_volumeAuthenticity m) (Fin 1)
    \<and> jle (Fin 0) (pm_binUtilization m) \<and> jle (pm_binUtilization m) (Fin 1)
    \<and> (pm_feeIlRatioKnown m \<longrightarrow> pm_volumeAuthenticityKnown m)
    \<and> (jle (Fin 0) (ps_fees24hUsd pool) \<and> is_finite (ps_fees24hUsd pool) \<and>
         estimateDailyIlUsd sq pool ba drift \<noteq> NaN \<longrightarrow>
       jle (Fin 0) (pm_feeIlRatio m) \<and> jle (pm_feeIlRatio m) (Fin 20))"
  using feeIlRatio_range [of pool sq ba drift] va_score_range binUtilization_range
  by (simp add: assms computeMetrics_def isMeasuredStatsSource_def)

section \<open>Range widths\<close>

lemma single_position_cap: "jfloor (jdiv (jsub MAX_SINGLE_POSITION_WIDTH_BINS (Fin 1)) (Fin 2)) = Fin 34"
  by code_simp

lemma half_cap_range:
  assumes "rhw_maxFullRangeBins args \<noteq> NaN"
  shows "jle (Fin 1) (half_cap args) \<and> jle (half_cap args) (Fin 34)"
proof -
  let ?f = "jfloor (jdiv (rhw_maxFullRangeBins args) (Fin 2))"
  have "?f \<noteq> NaN" using assms by (cases "rhw_maxFullRangeBins args") (auto simp: signed_inf_def fl_cases)
  then have "jle (Fin 1) (jmax (Fin 1) ?f)" using jmax_ge1[of "Fin 1" ?f] by simp
  then show ?thesis using jmin_le2[of "jmax (Fin 1) ?f" "Fin 34"] \<open>?f \<noteq> NaN\<close>
    by (simp add: half_cap_def single_position_cap jle_jmin_iff)
qed

lemma baseline_integer: "\<exists>n. baselineHalfWidthForBinStep b = Fin (of_nat n) \<and> 15 \<le> n"
proof -
  have "(25 :: rat) = of_nat 25" "(20 :: rat) = of_nat 20" "(15 :: rat) = of_nat 15" by simp_all
  then show ?thesis unfolding baselineHalfWidthForBinStep_def by (auto intro: exI[of _ 25] exI[of _ 20])
qed

lemma effective_base_not_NaN:
  assumes "rhw_maxFullRangeBins args \<noteq> NaN"
  shows "jle (Fin 0) (effective_base logf args)"
proof -
  obtain n where "baselineHalfWidthForBinStep (rhw_binStep args) = Fin (of_nat n)"
    using baseline_integer by blast
  then have b: "jle (Fin 0) (if jgt (rhw_configuredBaseHalfWidth args) (Fin 0)
      then rhw_configuredBaseHalfWidth args else baselineHalfWidthForBinStep (rhw_binStep args))"
    by (simp add: jlt_imp_jle)
  let ?w = "halfWidthForPriceCoveragePct logf (rhw_binStep args)
    (nullish (rhw_minPriceCoveragePct args) (Fin 0))"
  have "jmin (half_cap args) ?w \<noteq> NaN" if "jgt ?w (Fin 0)"
    using that half_cap_range[OF assms] by auto
  then have c: "(if jgt ?w (Fin 0) then jmin (half_cap args) ?w else Fin 0) \<noteq> NaN" by simp
  have mx: "jle (Fin 0) x \<Longrightarrow> y \<noteq> NaN \<Longrightarrow> jle (Fin 0) (jmax x y)" for x y
    by (rule jle_trans[OF _ jmax_ge1]) auto
  show ?thesis unfolding effective_base_def Let_def by (rule mx[OF b c])
qed

text \<open>The clamp at the end of every branch.\<close>

lemma clamped_width:
  assumes "rhw_maxFullRangeBins args \<noteq> NaN" "x \<noteq> NaN"
  shows "jle (Fin 1) (jmin (half_cap args) (jmax (jmin MIN_ADAPTIVE_HALF_WIDTH_BINS (half_cap args)) x))
    \<and> jle (jmin (half_cap args) (jmax (jmin MIN_ADAPTIVE_HALF_WIDTH_BINS (half_cap args)) x)) (half_cap args)"
proof -
  note c = half_cap_range[OF assms(1)]
  let ?m = "jmin MIN_ADAPTIVE_HALF_WIDTH_BINS (half_cap args)"
  have "jle (Fin 1) ?m" using c by (simp add: jle_jmin_iff MIN_ADAPTIVE_HALF_WIDTH_BINS_def)
  moreover have "jle ?m (jmax ?m x)" using assms(2) c by (intro jmax_ge1) (auto simp: MIN_ADAPTIVE_HALF_WIDTH_BINS_def)
  ultimately have "jle (Fin 1) (jmax ?m x)" by (rule jle_trans)
  moreover have "jmin (half_cap args) (jmax ?m x) \<noteq> NaN"
    using c assms(2) by (auto simp: MIN_ADAPTIVE_HALF_WIDTH_BINS_def)
  ultimately show ?thesis using c jmin_le1[of "half_cap args" "jmax ?m x"]
    by (simp only: jle_jmin_iff not_False_eq_True)
qed

lemma multiplier_positive:
  assumes "is_finite s"
  defines "m \<equiv> jmin ADAPTIVE_RANGE_MAX_MULTIPLIER (jmax ADAPTIVE_RANGE_MIN_MULTIPLIER
    (jdiv s ADAPTIVE_RANGE_REFERENCE_STDDEV))"
  shows "jle (Fin (1 / 2)) m \<and> jle m (Fin 2)"
proof -
  have n: "jdiv s (Fin 2) \<noteq> NaN" using assms(1) by (cases s) auto
  then have "jle (Fin (1 / 2)) (jmax (Fin (1 / 2)) (jdiv s (Fin 2)))" by (intro jmax_ge1) simp
  then show ?thesis using jmin_le1[of "Fin 2" "jmax (Fin (1 / 2)) (jdiv s (Fin 2))"] n
    by (simp add: m_def jle_jmin_iff ADAPTIVE_RANGE_MAX_MULTIPLIER_def
        ADAPTIVE_RANGE_MIN_MULTIPLIER_def ADAPTIVE_RANGE_REFERENCE_STDDEV_def)
qed

lemma jround_not_NaN: "a \<noteq> NaN \<Longrightarrow> jround a \<noteq> NaN"
  by (cases a) auto

lemma resolve_clamped:
  assumes "rhw_maxFullRangeBins args \<noteq> NaN"
  shows "\<exists>x. x \<noteq> NaN \<and> (x = effective_base logf args \<or>
      (\<exists>m. jle (Fin (1 / 2)) m \<and> jle m (Fin 2) \<and> x = jround (jmul (effective_base logf args) m))) \<and>
    resolveRangeHalfWidth logf args =
      jmin (half_cap args) (jmax (jmin MIN_ADAPTIVE_HALF_WIDTH_BINS (half_cap args)) x)"
proof -
  define e where "e = effective_base logf args"
  have e: "jle (Fin 0) e" using effective_base_not_NaN[OF assms] by (simp add: e_def)
  have "jround (jmul e m) \<noteq> NaN" if m: "jle (Fin (1 / 2)) m" "jle m (Fin 2)" for m
    using e m by (intro jround_not_NaN) (cases e; cases m; auto simp: signed_inf_def)
  moreover have "e \<noteq> NaN" using e by auto
  ultimately show ?thesis
    unfolding resolveRangeHalfWidth_def Let_def e_def[symmetric]
    using multiplier_positive[of "rhw_volatilityStddev args"] by (auto split: if_splits)
qed

text \<open>
  A resolved half-width always fits one position account: whatever the configured base, the
  measured volatility, the price-coverage floor and the logarithm give, it is between 1 and 34
  bins (full width 69, under the account's 70), and within half of the risk cap when that cap is
  at least 2.\<close>
theorem resolved_half_width_fits:
  assumes "rhw_maxFullRangeBins args \<noteq> NaN"
  shows "jle (Fin 1) (resolveRangeHalfWidth logf args)
    \<and> jle (resolveRangeHalfWidth logf args) (Fin 34)
    \<and> (jle (Fin 1) (jfloor (jdiv (rhw_maxFullRangeBins args) (Fin 2))) \<longrightarrow>
        jle (resolveRangeHalfWidth logf args) (jfloor (jdiv (rhw_maxFullRangeBins args) (Fin 2))))"
proof -
  let ?f = "jfloor (jdiv (rhw_maxFullRangeBins args) (Fin 2))"
  obtain x where x: "x \<noteq> NaN" and r: "resolveRangeHalfWidth logf args =
      jmin (half_cap args) (jmax (jmin MIN_ADAPTIVE_HALF_WIDTH_BINS (half_cap args)) x)"
    using resolve_clamped[OF assms] by blast
  have w: "jle (Fin 1) (resolveRangeHalfWidth logf args)"
    "jle (resolveRangeHalfWidth logf args) (half_cap args)"
    using clamped_width[OF assms x] unfolding r by blast+
  have "jle (half_cap args) ?f" if "jle (Fin 1) ?f"
  proof -
    have "jmax (Fin 1) ?f = ?f" using that by (auto simp: jmax_def)
    then have "half_cap args = jmin ?f (Fin 34)" by (simp add: half_cap_def single_position_cap)
    moreover have "jmin ?f (Fin 34) \<noteq> NaN" using jle_not_NaN[OF that] by simp
    ultimately show ?thesis using jmin_le1[of ?f "Fin 34"] by simp
  qed
  then show ?thesis using w half_cap_range[OF assms] jle_trans by blast
qed

text \<open>Integer inputs give an integer half-width.\<close>

lemma is_integer_min_max:
  "is_integer a \<Longrightarrow> is_integer b \<Longrightarrow> is_integer (jmin a b)"
  "is_integer a \<Longrightarrow> is_integer b \<Longrightarrow> is_integer (jmax a b)"
  "is_integer a \<Longrightarrow> is_integer (jmin a PosInf)" "jmax a PosInf = (if a = NaN then NaN else PosInf)"
  by (auto simp: jmin_def jmax_def)

lemma half_cap_integer:
  assumes "rhw_maxFullRangeBins args = Fin x"
  shows "is_integer (half_cap args)"
proof -
  have i: "a \<noteq> NaN \<Longrightarrow> is_integer (jmin (jmax (Fin 1) (jfloor a)) (Fin 34))" for a
    by (cases a) (auto intro!: is_integer_min_max simp del: jmin_Fin jmax_Fin simp: jmin_def jmax_def)
  show ?thesis using i[of "jdiv (Fin x) (Fin 2)"] by (simp add: assms half_cap_def single_position_cap)
qed

lemma ceil_positive: "jgt (jmax (Fin 0) (jceil a)) (Fin 0) \<Longrightarrow>
    is_integer (jmax (Fin 0) (jceil a)) \<or> jmax (Fin 0) (jceil a) = PosInf"
  by (cases a) (auto simp: jmax_def)

lemma effective_base_integer:
  assumes "rhw_maxFullRangeBins args = Fin x" "is_integer (rhw_configuredBaseHalfWidth args)"
  shows "is_integer (effective_base logf args)"
proof -
  let ?w = "halfWidthForPriceCoveragePct logf (rhw_binStep args)
    (nullish (rhw_minPriceCoveragePct args) (Fin 0))"
  have "jgt ?w (Fin 0) \<Longrightarrow> is_integer ?w \<or> ?w = PosInf"
    unfolding halfWidthForPriceCoveragePct_def Let_def using ceil_positive
    by (simp split: if_splits)
  then have "jgt ?w (Fin 0) \<Longrightarrow> is_integer (jmin (half_cap args) ?w)"
    using half_cap_integer[OF assms(1)] is_integer_min_max by auto
  then have c: "is_integer (if jgt ?w (Fin 0) then jmin (half_cap args) ?w else Fin 0)" by simp
  obtain n where "baselineHalfWidthForBinStep (rhw_binStep args) = Fin (of_nat n)"
    using baseline_integer by blast
  then have "is_integer (if jgt (rhw_configuredBaseHalfWidth args) (Fin 0)
      then rhw_configuredBaseHalfWidth args else baselineHalfWidthForBinStep (rhw_binStep args))"
    using assms(2) by simp
  then show ?thesis using c unfolding effective_base_def Let_def by (rule is_integer_min_max(2))
qed

lemma resolve_integer:
  assumes "rhw_maxFullRangeBins args = Fin x" "is_integer (rhw_configuredBaseHalfWidth args)"
  shows "is_integer (resolveRangeHalfWidth logf args)"
proof -
  have mx: "rhw_maxFullRangeBins args \<noteq> NaN" using assms(1) by simp
  note h = half_cap_integer[OF assms(1)] and e = effective_base_integer[OF assms, of logf]
  let ?m = "jmin MIN_ADAPTIVE_HALF_WIDTH_BINS (half_cap args)"
  have m: "is_integer ?m"
    using h by (intro is_integer_min_max) (simp_all add: MIN_ADAPTIVE_HALF_WIDTH_BINS_def)
  obtain y where y: "y \<noteq> NaN" and c: "y = effective_base logf args \<or>
      (\<exists>m. jle (Fin (1 / 2)) m \<and> jle m (Fin 2) \<and> y = jround (jmul (effective_base logf args) m))"
    and r: "resolveRangeHalfWidth logf args = jmin (half_cap args) (jmax ?m y)"
    using resolve_clamped[OF mx] by blast
  have "is_integer y \<or> y = PosInf \<or> y = NegInf"
  proof (cases "y = effective_base logf args")
    case False
    then obtain a where "y = jround a" using c by blast
    then show ?thesis using y by (cases a) simp_all
  qed (use e in simp)
  then have "is_integer (jmax ?m y) \<or> jmax ?m y = PosInf"
    using m is_integer_min_max(2)[OF m, of y] by (cases ?m) (auto simp: jmax_def jle_def jeq_def)
  then show ?thesis unfolding r using h is_integer_min_max by metis
qed

text \<open>
  C34. The ranges the strategy recommends are ones the chain and the position account accept: for
  an integer active bin, an integer configured base and an integer risk cap of at least 2, the
  range around the active bin with the resolved half-width contains the active bin strictly
  inside, spans an even number of bins not above the risk cap, and is at most 69 bins wide.\<close>
theorem recommended_range_fits:
  assumes "\<bar>a\<bar> \<le> 2 ^ 31" "rhw_maxFullRangeBins args = Fin (of_nat n)" "2 \<le> n" "n \<le> 2 ^ 31"
    and "is_integer (rhw_configuredBaseHalfWidth args)"
    and "r = recommendBinRange (Fin (of_int a)) (rhw_binStep args)
      (Some (resolveRangeHalfWidth logf args)) (Fin 0)"
  shows "\<exists>k. 1 \<le> k \<and> 2 * k \<le> int n \<and> 2 * k + 1 \<le> 69
    \<and> range_lowerBinId r = Fin (of_int (a - k)) \<and> range_upperBinId r = Fin (of_int (a + k))"
proof -
  have mx: "rhw_maxFullRangeBins args \<noteq> NaN" using assms(2) by simp
  obtain k where k: "resolveRangeHalfWidth logf args = Fin (of_int k)"
    using resolve_integer[OF assms(2,5), of logf] by (cases "resolveRangeHalfWidth logf args") auto
  have half: "fl (of_nat n / 2) = Fin (of_nat n / 2)"
  proof (rule fl_exact)
    have i: "of_nat n / 2 * 1048576 = (of_int (int n * 524288) :: rat)" by simp
    then show "of_nat n / 2 * 1048576 = (of_int \<lfloor>(of_nat n / 2 * 1048576 :: rat)\<rfloor> :: rat)"
      by (simp only: floor_of_int)
    have "(of_nat n :: rat) \<le> of_nat (2 ^ 31)" using assms(4) by (simp only: of_nat_le_iff)
    then show "\<bar>of_nat n / 2 * 1048576\<bar> \<le> (9007199254740992 :: rat)" by simp
  qed
  have fl_ge: "1 \<le> \<lfloor>of_nat n / (2 :: rat)\<rfloor>" using assms(3) by (simp add: le_floor_iff)
  have b: "1 \<le> k" "k \<le> 34" "k \<le> \<lfloor>of_nat n / (2 :: rat)\<rfloor>"
    using resolved_half_width_fits[OF mx, of logf] fl_ge by (simp_all add: k assms(2) half)
  then have "of_int k \<le> (of_nat n / 2 :: rat)" by (simp add: le_floor_iff)
  then have "of_int (2 * k) \<le> (of_int (int n) :: rat)" by simp
  then have "2 * k \<le> int n" by (simp only: of_int_le_iff)
  moreover have "fl (of_int (a - k)) = Fin (of_int (a - k))" "fl (of_int (a + k)) = Fin (of_int (a + k))"
    using assms(1) b by (intro fl_of_int; simp)+
  then have "range_lowerBinId r = Fin (of_int (a - k))" "range_upperBinId r = Fin (of_int (a + k))"
    by (simp_all add: assms(6) recommendBinRange_def k jsub_def)
  ultimately show ?thesis using b by (intro exI[of _ k]) simp
qed

section \<open>Threshold evolution\<close>

text \<open>The bands are intervals of positive numbers.\<close>

lemma bands [simp]:
  "jle MIN_FEE_IL_EVOLVED_MIN MIN_FEE_IL_EVOLVED_MAX" "jlt (Fin 0) MIN_FEE_IL_EVOLVED_MIN"
  "jle VOLUME_AUTH_EVOLVED_MIN VOLUME_AUTH_EVOLVED_MAX" "jlt (Fin 0) VOLUME_AUTH_EVOLVED_MIN"
  "jle MIN_BIN_UTIL_EVOLVED_MIN MIN_BIN_UTIL_EVOLVED_MAX" "jlt (Fin 0) MIN_BIN_UTIL_EVOLVED_MIN"
  "is_finite MIN_FEE_IL_EVOLVED_MAX" "is_finite VOLUME_AUTH_EVOLVED_MAX"
  "is_finite MIN_BIN_UTIL_EVOLVED_MAX"
  by code_simp+

lemma clampThreshold_bounds:
  assumes "jle lo hi"
  shows "jle lo (clampThreshold v lo hi) \<and> jle (clampThreshold v lo hi) hi"
proof (cases "is_finite v")
  case True
  then have n: "v \<noteq> NaN" "lo \<noteq> NaN" "hi \<noteq> NaN" using assms by auto
  then show ?thesis using True assms jmax_ge2[of v lo] jmin_le2[of "jmax v lo" hi]
    by (simp add: clampThreshold_def jle_jmin_iff)
qed (use assms in \<open>auto simp: clampThreshold_def\<close>)

lemma clampThreshold_fixed:
  assumes "jle lo v" "jle v hi" "is_finite hi"
  shows "clampThreshold v lo hi = v"
proof (cases v)
  case (Fin x)
  then show ?thesis using assms by (cases lo; cases hi) (auto simp: clampThreshold_def jmin_def jmax_def)
qed (use assms in \<open>auto simp: clampThreshold_def\<close>)

definition in_bands :: "EvolvableThresholds \<Rightarrow> bool" where
  "in_bands t \<longleftrightarrow>
     jle MIN_FEE_IL_EVOLVED_MIN (evo_minFeeIlRatio t) \<and>
     jle (evo_minFeeIlRatio t) MIN_FEE_IL_EVOLVED_MAX \<and>
     jle VOLUME_AUTH_EVOLVED_MIN (evo_volumeAuthThreshold t) \<and>
     jle (evo_volumeAuthThreshold t) VOLUME_AUTH_EVOLVED_MAX \<and>
     jle MIN_BIN_UTIL_EVOLVED_MIN (evo_minBinUtilization t) \<and>
     jle (evo_minBinUtilization t) MIN_BIN_UTIL_EVOLVED_MAX"

lemma clampEvolved_in_bands: "in_bands (clampEvolvedThresholds t)"
  by (simp add: in_bands_def clampEvolvedThresholds_def clampThreshold_bounds)

lemma clampEvolved_fixed: "in_bands t \<Longrightarrow> clampEvolvedThresholds t = t"
  by (simp add: in_bands_def clampEvolvedThresholds_def clampThreshold_fixed)

definition evolves :: "OutcomeRecord list \<Rightarrow> EvolutionOptions option \<Rightarrow> bool" where
  "evolves outcomes options \<longleftrightarrow>
     \<not> jlt (jnat (length outcomes)) (nullish (Option.bind options evo_minOutcomes) (Fin 5))"

lemma evolve_warmup:
  "\<not> evolves outcomes options \<Longrightarrow> evolveThresholds outcomes current options =
     \<lparr>evo_thresholds = current, evo_changed = False\<rparr>"
  by (simp add: evolveThresholds_def evolves_def)

lemma evolve_in_bands:
  "evolves outcomes options \<Longrightarrow> in_bands (evo_thresholds (evolveThresholds outcomes current options))"
  by (simp add: evolveThresholds_def evolves_def Let_def in_bands_def clampThreshold_bounds)

text \<open>
  C28. Evolution never leaves the operating bands: from any current thresholds and any recorded
  outcomes (absent signals, infinities and NaN included) a round that evolves ends inside the
  absolute bands, a round without enough outcomes changes nothing, and what is written is what a
  later start reads: the clamp on read leaves it unchanged and in the bands, while anything else
  found in the store is brought into the bands.\<close>
theorem evolved_thresholds_banded:
  "(evolves outcomes options \<longrightarrow> in_bands (evo_thresholds (evolveThresholds outcomes current options))
      \<and> clampEvolvedThresholds (evo_thresholds (evolveThresholds outcomes current options))
          = evo_thresholds (evolveThresholds outcomes current options))
   \<and> (\<not> evolves outcomes options \<longrightarrow> evolveThresholds outcomes current options =
        \<lparr>evo_thresholds = current, evo_changed = False\<rparr>)
   \<and> in_bands (clampEvolvedThresholds current)"
  by (simp add: evolve_in_bands clampEvolved_fixed evolve_warmup clampEvolved_in_bands)

subsection \<open>The step of one round\<close>

definition moved_at_most :: "jsnum \<Rightarrow> jsnum \<Rightarrow> jsnum \<Rightarrow> jsnum \<Rightarrow> bool" where
  "moved_at_most pct lo cur new \<longleftrightarrow>
     jle new (jadd cur (jmul (jabs cur) pct)) \<and> (new = lo \<or> jle (jsub cur (jmul (jabs cur) pct)) new)"

lemma nudge_step:
  assumes "jlt (Fin 0) lo" "jle lo cur" "jle cur hi" "is_finite hi" "is_double cur"
    and "jle (Fin 0) pct" "is_finite pct"
  shows "moved_at_most pct lo cur (clampThreshold (nudgeThreshold cur target pct) lo hi)"
proof -
  have pos: "jlt (Fin 0) cur" using jlt_jle_trans assms(1,2) .
  then have cf: "is_finite cur" using assms(3,4) by (cases cur; cases hi) auto
  define M where "M = jmul (jabs cur) pct"
  have "M \<noteq> NaN" using cf assms(7) unfolding M_def by (cases cur; cases pct) auto
  then have M: "jle (Fin 0) M" using jmul_nonneg[of "jabs cur" pct] cf assms(6)
    by (cases cur) (auto simp: M_def)
  have neg: "jle (jneg M) (Fin 0)" using M by (cases M) auto
  have nn: "jadd cur x \<noteq> NaN" if "x \<noteq> NaN" for x using that cf by (cases cur; cases x) auto
  have up: "jle cur (jadd cur M)"
    using jadd_ge_left[OF assms(5) _ _ M] cf by (cases cur) auto
  have down: "jle (jsub cur M) cur"
    using jsub_le_left[OF assms(5) M] nn[of "jneg M"] M by (cases M) (auto simp: jsub_def)
  have lo_up: "jle lo (jadd cur M)" using assms(2) up by (rule jle_trans)
  define D where "D = jmax (jneg M) (jmin M (jsub target cur))"
  have nud: "nudgeThreshold cur target pct = jadd cur D"
    using pos by (auto simp: nudgeThreshold_def Let_def M_def D_def jeq_def)
  show ?thesis
  proof (cases "is_finite (nudgeThreshold cur target pct)")
    case False
    then show ?thesis using lo_up by (simp add: moved_at_most_def clampThreshold_def M_def)
  next
    case True
    then have Dn: "D \<noteq> NaN" unfolding nud by (cases cur; cases D) auto
    have "jmin M (jsub target cur) \<noteq> NaN" using Dn unfolding D_def by simp
    then have "jle (jmin M (jsub target cur)) M" by (rule jmin_le1)
    then have "jle D M" unfolding D_def jmax_jle_iff using jle_trans[OF neg M] by simp
    moreover have "jle (jneg M) D" using Dn unfolding D_def by (intro jmax_ge1)
    ultimately have b: "jle (jadd cur D) (jadd cur M)" "jle (jsub cur M) (jadd cur D)"
      using jadd_mono_left[of D M cur] jadd_mono_left[of "jneg M" D cur] nn[OF Dn] nn[of M]
        nn[of "jneg M"] jle_not_NaN[OF M] jle_not_NaN[OF neg]
      by (simp_all add: jadd_commute[of _ cur] jsub_def)
    let ?v = "jadd cur D"
    have c: "clampThreshold (nudgeThreshold cur target pct) lo hi = jmin (jmax ?v lo) hi"
      using True by (simp add: clampThreshold_def nud)
    have n: "jmin (jmax ?v lo) hi \<noteq> NaN"
      using nn[OF Dn] jle_not_NaN[OF assms(2)] jle_not_NaN[OF assms(3)] by simp
    have "jle (jmax ?v lo) (jadd cur M)" using b(1) lo_up by (simp add: jmax_jle_iff)
    then have "jle (jmin (jmax ?v lo) hi) (jadd cur M)" using jmin_le1[OF n] jle_trans by blast
    moreover have "jle ?v (jmax ?v lo)" using n by (intro jmax_ge1) simp
    then have "jle (jsub cur M) (jmax ?v lo)" using b(2) jle_trans by blast
    moreover have "jle (jsub cur M) hi" using down assms(3) jle_trans by blast
    ultimately show ?thesis by (simp add: moved_at_most_def c jle_jmin_iff flip: M_def)
  qed
qed

definition maxChange :: "EvolutionOptions option \<Rightarrow> jsnum" where
  "maxChange options = nullish (Option.bind options evo_maxChangePct) (fl (2 / 10))"

text \<open>
  One round moves a threshold by at most the configured share of its value: from thresholds
  inside the bands, each new threshold is at most \<open>current + current * maxChangePct\<close>, and at least
  \<open>current - current * maxChangePct\<close> unless it is the bottom of its band (where a signal that is
  not a finite number sends it).\<close>
theorem evolution_step_limited:
  assumes "in_bands current" "evolves outcomes options"
    and "is_double (evo_minFeeIlRatio current)" "is_double (evo_volumeAuthThreshold current)"
    "is_double (evo_minBinUtilization current)"
    and "jle (Fin 0) (maxChange options)" "is_finite (maxChange options)"
    and "t = evo_thresholds (evolveThresholds outcomes current options)"
  shows "moved_at_most (maxChange options) MIN_FEE_IL_EVOLVED_MIN
      (evo_minFeeIlRatio current) (evo_minFeeIlRatio t)
    \<and> moved_at_most (maxChange options) VOLUME_AUTH_EVOLVED_MIN
      (evo_volumeAuthThreshold current) (evo_volumeAuthThreshold t)
    \<and> moved_at_most (maxChange options) MIN_BIN_UTIL_EVOLVED_MIN
      (evo_minBinUtilization current) (evo_minBinUtilization t)"
  using assms(1-7) unfolding assms(8) in_bands_def evolves_def maxChange_def
  by (simp add: evolveThresholds_def Let_def nudge_step)

subsection \<open>Signal lift\<close>

lemma foldl_jadd_bounded:
  assumes "\<forall>x \<in> set xs. jle (Fin 0) x \<and> jle x (Fin (of_nat c))"
    and "jle (Fin 0) a" "jle a (Fin (of_nat m))" "m + c * length xs \<le> 2 ^ 53"
  shows "jle (foldl jadd a xs) (Fin (of_nat (m + c * length xs)))"
  using assms
proof (induction xs arbitrary: a m)
  case (Cons x xs)
  obtain y z where yz: "a = Fin y" "x = Fin z" "0 \<le> y" "0 \<le> z" "y \<le> of_nat m" "z \<le> of_nat c"
    using Cons.prems by (cases a; cases x) auto
  have "y + z \<le> of_nat (m + c)" using yz by simp
  moreover have "fl (of_nat (m + c)) = Fin (of_nat (m + c))"
    using Cons.prems(4) by (intro fl_of_nat) simp
  ultimately have "jle (jadd a x) (Fin (of_nat (m + c)))" unfolding yz jadd.simps by (rule fl_le)
  moreover have "jle (Fin 0) (jadd a x)" using yz by (simp add: fl_nonneg)
  ultimately have "jle (foldl jadd (jadd a x) xs) (Fin (of_nat ((m + c) + c * length xs)))"
    using Cons.prems by (intro Cons.IH) simp_all
  then show ?case by (simp add: algebra_simps)
qed simp

text \<open>The mean of bounded non-negative signals is a finite non-negative number.\<close>

lemma mean_bounded:
  assumes "\<forall>x \<in> set xs. jle (Fin 0) x \<and> jle x (Fin 20)" "length xs \<le> 2 ^ 32" "xs \<noteq> []"
  shows "\<exists>m. jdiv (jsum xs) (jnat (length xs)) = Fin m \<and> 0 \<le> m \<and> fl m = Fin m"
proof -
  have c: "(Fin 20 :: jsnum) = Fin (of_nat 20)" by simp
  have "jle (jsum xs) (Fin (of_nat (0 + 20 * length xs)))" unfolding jsum_def
    using assms(1,2) by (intro foldl_jadd_bounded) (simp_all only: c, simp_all)
  moreover have "jle (Fin 0) (jsum xs)" using assms(1) by (intro jsum_nonneg) blast
  ultimately obtain s where s: "jsum xs = Fin s" "0 \<le> s" "s \<le> of_nat (20 * length xs)"
    by (cases "jsum xs") auto
  have "(0 :: rat) < of_nat (length xs)" using assms(3) by simp
  then have q: "0 \<le> s / of_nat (length xs)" "s / of_nat (length xs) \<le> 20"
    using s(2,3) by (simp_all add: divide_le_eq)
  have "jle (fl (s / of_nat (length xs))) (Fin 20)" using q(2) by (rule fl_le) (simp add: num_simps)
  moreover have "jle (Fin 0) (fl (s / of_nat (length xs)))" using q(1) by (rule fl_nonneg)
  ultimately obtain m where m: "fl (s / of_nat (length xs)) = Fin m" "0 \<le> m"
    by (cases "fl (s / of_nat (length xs))") auto
  have "is_double (Fin m)" using is_double_fl[of "s / of_nat (length xs)"] by (simp only: m)
  then show ?thesis using m s(1) \<open>0 < of_nat (length xs)\<close> by (auto simp: jnat_def)
qed

lemma normalized_difference:
  assumes "0 \<le> w" "0 \<le> l" "fl w = Fin w" "fl l = Fin l"
  defines "rg \<equiv> jmax (jabs (Fin w)) (jmax (jabs (Fin l)) (fl (1 / 10 ^ 9)))"
  shows "jle (Fin (- 1)) (jdiv (jsub (Fin w) (Fin l)) rg)
    \<and> jle (jdiv (jsub (Fin w) (Fin l)) rg) (Fin 1)"
proof -
  have e: "jlt (Fin 0) (fl (1 / 10 ^ 9))" "is_finite (fl (1 / 10 ^ 9))" by code_simp+
  then obtain e where e: "fl (1 / 10 ^ 9) = Fin e" "0 < e" by (auto simp: is_finite_iff)
  have de: "fl e = Fin e" using is_double_fl[of "1 / 10 ^ 9"] by (simp only: e(1) is_double.simps)
  define r where "r = max w (max l e)"
  have r: "rg = Fin r" "0 < r" "w \<le> r" "l \<le> r" "fl r = Fin r"
    using assms(1-4) e(2) de unfolding rg_def e(1) by (auto simp: r_def max_def)
  have "w - l \<le> r" "- r \<le> w - l" using r assms(1,2) by auto
  moreover have "fl (- r) = Fin (- r)" using fl_minus[of r] r(5) by simp
  ultimately have "jle (fl (w - l)) (Fin r)" "jle (Fin (- r)) (fl (w - l))"
    using r(5) fl_le fl_ge by blast+
  then obtain d where d: "fl (w - l) = Fin d" "d \<le> r" "- r \<le> d" by (cases "fl (w - l)") auto
  have "d / r \<le> 1" "- 1 \<le> d / r" using d r(2) by (simp_all add: field_simps)
  moreover have "fl 1 = Fin 1" "fl (- 1) = Fin (- 1)" by (simp_all add: num_simps)
  ultimately have "jle (fl (d / r)) (Fin 1)" "jle (Fin (- 1)) (fl (d / r))" using fl_le fl_ge by blast+
  then show ?thesis using r(1,2) d(1) by (simp add: jsub_def)
qed

text \<open>
  The lift of a signal is a normalized difference: for recorded signals on their scale (0 to
  20) and any profits, it is a number between -1 and 1, 0 when there are no winners or no
  losers.\<close>
theorem signal_lift_normalized:
  assumes "\<forall>ob \<in> set outcomes. jle (Fin 0) (signal_of k ob) \<and> jle (signal_of k ob) (Fin 20)"
    and "length outcomes \<le> 2 ^ 32"
  shows "jle (Fin (- 1)) (computeSignalLift outcomes k) \<and> jle (computeSignalLift outcomes k) (Fin 1)"
proof -
  let ?win = "filter (\<lambda>ob. jgt (out_pnlUsd ob) (Fin 0)) outcomes"
  let ?lose = "filter (\<lambda>ob. \<not> jgt (out_pnlUsd ob) (Fin 0)) outcomes"
  let ?w = "map (signal_of k) ?win" and ?l = "map (signal_of k) ?lose"
  have len: "length ?w \<le> 2 ^ 32" "length ?l \<le> 2 ^ 32"
    using assms(2) length_filter_le le_trans unfolding length_map by blast+
  show ?thesis
  proof (cases "?w = [] \<or> ?l = []")
    case True
    then have "computeSignalLift outcomes k = Fin 0"
      unfolding computeSignalLift_def Let_def by (simp only: length_0_conv if_True)
    then show ?thesis by simp
  next
    case False
    have "\<exists>m. jdiv (jsum ?w) (jnat (length ?w)) = Fin m \<and> 0 \<le> m \<and> fl m = Fin m"
      using assms(1) False by (intro mean_bounded len) auto
    moreover have "\<exists>m. jdiv (jsum ?l) (jnat (length ?l)) = Fin m \<and> 0 \<le> m \<and> fl m = Fin m"
      using assms(1) False by (intro mean_bounded len) auto
    ultimately obtain w l where
      "jdiv (jsum ?w) (jnat (length ?w)) = Fin w" "jdiv (jsum ?l) (jnat (length ?l)) = Fin l"
      "0 \<le> w" "0 \<le> l" "fl w = Fin w" "fl l = Fin l" by blast
    then show ?thesis using False normalized_difference[of w l]
      unfolding computeSignalLift_def Let_def by (simp only: length_0_conv if_False)
  qed
qed

section \<open>Recovery estimate\<close>

lemma sum_abs_deltas_nonneg:
  "jle (Fin 0) acc \<Longrightarrow> sum_abs_deltas acc bins \<noteq> NaN \<Longrightarrow> jle (Fin 0) (sum_abs_deltas acc bins)"
proof (induction acc bins rule: sum_abs_deltas.induct)
  case (1 acc x y bins)
  have nan: "sum_abs_deltas NaN zs = NaN" for zs
    by (induction NaN zs rule: sum_abs_deltas.induct) auto
  let ?d = "jabs (jsub y x)"
  have "?d \<noteq> NaN" using 1(3) nan by (cases acc; cases ?d) auto
  then have "jle (Fin 0) ?d" by (cases "jsub y x") auto
  then show ?case using 1 by (simp add: jadd_nonneg)
qed auto

lemma clamp01:
  assumes "r \<noteq> NaN"
  shows "jle (Fin 0) (jmax (Fin 0) (jmin (Fin 1) r)) \<and> jle (jmax (Fin 0) (jmin (Fin 1) r)) (Fin 1)"
  using assms by (cases r) (auto simp: jmax_def jmin_def)

lemma clamp01_mono: "jle r s \<Longrightarrow> jle (jmax (Fin 0) (jmin (Fin 1) r)) (jmax (Fin 0) (jmin (Fin 1) s))"
  by (intro jmax_mono jmin_mono) simp_all

definition meanAbsDelta :: "jsnum list \<Rightarrow> jsnum" where
  "meanAbsDelta bins = jdiv (sum_abs_deltas (Fin 0) bins) (jnat (length bins - 1))"

lemma meanAbsDelta_number:
  assumes "2 \<le> length bins" "is_finite (sum_abs_deltas (Fin 0) bins)"
  shows "jle (Fin 0) (meanAbsDelta bins) \<and> is_finite (meanAbsDelta bins)"
proof -
  obtain s where s: "sum_abs_deltas (Fin 0) bins = Fin s" using assms(2) by (auto simp: is_finite_iff)
  have pos: "0 \<le> s" using sum_abs_deltas_nonneg[of "Fin 0" bins] s by simp
  define k where "k = (of_nat (length bins - 1) :: rat)"
  have k: "1 \<le> k" using assms(1) by (simp add: k_def)
  have d: "fl s = Fin s"
  proof -
    have "is_double acc \<Longrightarrow> is_double (sum_abs_deltas acc xs)" for acc xs
      by (induction acc xs rule: sum_abs_deltas.induct) auto
    from this[of "Fin 0" bins] show ?thesis by (simp add: s)
  qed
  have "s / k \<le> s" using k pos by (simp add: divide_le_eq mult_le_cancel_left1)
  then have "jle (fl (s / k)) (Fin s)" using d by (rule fl_le)
  moreover have "jle (Fin 0) (fl (s / k))" using k pos by (intro fl_nonneg) simp
  moreover have "meanAbsDelta bins = fl (s / k)"
    unfolding meanAbsDelta_def s jnat_def k_def[symmetric] using k by simp
  ultimately show ?thesis using jle_finite_between by auto
qed

text \<open>
  The recovery estimate is a probability that falls with the drift: when the swings of the
  recent bins add up to a finite number and the drift is a finite non-negative one, the estimate
  is in \<open>[0, 1]\<close>, and a larger drift never has a larger estimate.\<close>
theorem recovery_probability:
  assumes "is_finite (sum_abs_deltas (Fin 0) bins)"
    and "jle (Fin 0) d" "jle d d'" "is_finite d'"
  shows "jle (Fin 0) (estimateRecoveryProbability bins d)
    \<and> jle (estimateRecoveryProbability bins d) (Fin 1)
    \<and> jle (estimateRecoveryProbability bins d') (estimateRecoveryProbability bins d)"
proof (cases "length bins < 2")
  case False
  have fd: "is_finite d" using assms(2-4) by (cases d; cases d') auto
  define M where "M = meanAbsDelta bins"
  have M: "jle (Fin 0) M" "is_finite M"
    using meanAbsDelta_number[OF _ assms(1)] False by (auto simp: M_def)
  have est: "estimateRecoveryProbability bins x =
      (if jle M (Fin 0) then (if jle x (Fin 0) then Fin 1 else Fin 0)
       else jmax (Fin 0) (jmin (Fin 1) (jdiv M (jadd M x))))" for x
    using False by (simp add: estimateRecoveryProbability_def Let_def M_def meanAbsDelta_def)
  show ?thesis
  proof (cases "jle M (Fin 0)")
    case True
    then show ?thesis using assms(2,3) by (auto simp: est intro: jle_trans)
  next
    case F: False
    then have pos: "jlt (Fin 0) M" using M by (cases M) auto
    have s: "jlt (Fin 0) (jadd M d)" "jle (jadd M d) (jadd M d')"
    proof -
      have "is_double M" by (simp add: M_def meanAbsDelta_def is_double_div)
      then have "jle M (jadd M d)" using M assms(2) by (intro jadd_ge_left) auto
      then show "jlt (Fin 0) (jadd M d)" using pos jlt_jle_trans by blast
      have "jadd d M \<noteq> NaN" "jadd d' M \<noteq> NaN"
        using M(2) fd assms(4) by (auto simp: is_finite_iff)
      then show "jle (jadd M d) (jadd M d')"
        using jadd_mono_left[OF assms(3)] by (simp add: jadd_commute)
    qed
    have le: "jle (jdiv M (jadd M d')) (jdiv M (jadd M d))"
      using jdiv_antimono_right[OF M s] .
    then have "jdiv M (jadd M d) \<noteq> NaN" by auto
    from clamp01[OF this] clamp01_mono[OF le] show ?thesis using F by (simp add: est)
  qed
qed (simp add: estimateRecoveryProbability_def)

section \<open>Signal weights\<close>

lemma lift_nudge_finite:
  assumes "jle (Fin (- 1)) lift" "jle lift (Fin 1)" "is_finite b" "is_finite d"
  shows "is_finite (signalWeightNudge q lift b d)"
proof -
  obtain x where x: "lift = Fin x" "- 1 \<le> x" "x \<le> 1" using assms(1,2) by (cases lift) auto
  have "jle (Fin 0) (fl (5 / 100))" "jle (fl (5 / 100)) (Fin 1)" by code_simp+
  then obtain c where c: "fl (5 / 100) = Fin c" "0 \<le> c" "c \<le> 1" by (cases "fl (5 / 100)") auto
  have "\<bar>x * c\<bar> \<le> 1 * 1" using x c unfolding abs_mult by (intro mult_mono) auto
  then have "x * c \<le> 1" "- 1 \<le> x * c" by auto
  then have "jle (fl (x * c)) (Fin 1)" "jle (Fin (- 1)) (fl (x * c))"
    by (auto intro!: fl_le fl_ge simp: num_simps)
  then obtain y where y: "fl (x * c) = Fin y" "- 1 \<le> y" "y \<le> 1" by (cases "fl (x * c)") auto
  have "pow2 1 \<le> pow2 1023" by (rule pow2_mono) simp
  then have "(2 :: rat) \<le> pow2 1023" by (simp add: pow2_def[of 1])
  then have "is_finite (fl (1 + y))" using y by (intro fl_bounded) simp
  moreover have "jmul lift (fl (5 / 100)) = Fin y" unfolding c(1) x(1) by (simp add: y(1))
  ultimately show ?thesis using assms(3,4) by (simp only: signalWeightNudge_def) simp
qed

lemma clampWeight_bounds:
  assumes "is_finite w" "is_finite n" "jle lo hi"
  shows "jle lo (clampWeight (jmul w n) lo hi) \<and> jle (clampWeight (jmul w n) lo hi) hi"
proof -
  have n: "jmul w n \<noteq> NaN" "lo \<noteq> NaN" "hi \<noteq> NaN"
    using jmul_finite_not_NaN[OF assms(1,2)] assms(3) by auto
  then show ?thesis using assms(3) jmax_ge1[of lo "jmin hi (jmul w n)"] jmin_le1[of hi "jmul w n"]
    by (simp add: clampWeight_def jmax_jle_iff)
qed

text \<open>
  Evolved signal weights stay between the floor and the ceiling: for recorded signals on
  their scale and finite factors and weights, either the window has too few outcomes and the
  weights are unchanged, or each of the three weighted signals is between floor and ceiling, the
  TVL weights are untouched and the time is stamped.\<close>
theorem signal_weights_bounded:
  assumes "\<forall>ob \<in> set outcomes. \<forall>k. jle (Fin 0) (signal_of k ob) \<and> jle (signal_of k ob) (Fin 20)"
    and "length outcomes \<le> 2 ^ 32"
    and "opt = resolveSignalWeightOptions options"
    and "jle (rswo_weightFloor opt) (rswo_weightCeiling opt)"
    and "is_finite (rswo_boostFactor opt)" "is_finite (rswo_decayFactor opt)"
    and "\<forall>k. is_finite (weight_of k current)"
    and "w = computeSignalWeights now outcomes current options"
  shows "w = current \<or>
    ((\<forall>k. jle (rswo_weightFloor opt) (weight_of k w) \<and> jle (weight_of k w) (rswo_weightCeiling opt))
     \<and> sw_tvlUsd w = sw_tvlUsd current \<and> sw_tvlVelocity w = sw_tvlVelocity current
     \<and> sw_updatedAt w = now)"
proof -
  define cutoff where "cutoff = jsub now (jmul (jmul (jmul (jmul (rswo_windowDays opt) (Fin 24))
    (Fin 60)) (Fin 60)) (Fin 1000))"
  define recent where "recent = recentOutcomesInWindow outcomes cutoff"
  define nudge where "nudge k = signalWeightNudge (computeQuartile recent k)
    (computeSignalLift recent k) (rswo_boostFactor opt) (rswo_decayFactor opt)" for k
  have "length recent \<le> 2 ^ 32" unfolding recent_def recentOutcomesInWindow_def
    using assms(2) length_filter_le le_trans by blast
  moreover have "set recent \<subseteq> set outcomes" by (auto simp: recent_def recentOutcomesInWindow_def)
  ultimately have "jle (Fin (- 1)) (computeSignalLift recent k) \<and> jle (computeSignalLift recent k) (Fin 1)" for k
    using assms(1) by (intro signal_lift_normalized) auto
  then have nf: "is_finite (nudge k)" for k unfolding nudge_def
    using assms(5,6) lift_nudge_finite by blast
  define cl where "cl k = clampWeight (jmul (weight_of k current) (nudge k)) (rswo_weightFloor opt)
    (rswo_weightCeiling opt)" for k
  have cl: "jle (rswo_weightFloor opt) (cl k) \<and> jle (cl k) (rswo_weightCeiling opt)" for k
    unfolding cl_def using assms(4,7) nf by (intro clampWeight_bounds) auto
  show ?thesis
  proof (cases "jlt (jnat (length recent)) (rswo_minOutcomes opt)")
    case True
    then show ?thesis using assms(3,8)
      by (simp add: computeSignalWeights_def Let_def recent_def cutoff_def)
  next
    case False
    then have w: "w = current\<lparr>sw_feeIlRatio := cl FeeIlSignal, sw_volumeAuthenticity := cl VolumeAuthSignal,
        sw_binUtilization := cl BinUtilSignal, sw_updatedAt := now\<rparr>"
      by (simp add: assms(8) computeSignalWeights_def Let_def recent_def cutoff_def assms(3)
          applySignalWeightNudges_def WEIGHTED_SIGNALS_def cl_def nudge_def)
    have "weight_of k w = cl k" for k by (cases k) (simp_all add: w)
    then show ?thesis using cl by (simp add: w)
  qed
qed

section \<open>Entry confidence and score\<close>

lemma momentum_range:
  assumes "jle (Fin 0) b" "is_finite b" "is_double b" "ref \<noteq> NaN"
  shows "jle (Fin 0) (entryMomentumBoost drift ref b) \<and> jle (entryMomentumBoost drift ref b) b
    \<and> (jle drift (Fin 0) \<longrightarrow> entryMomentumBoost drift ref b = Fin 0)"
proof (cases "\<not> is_finite drift \<or> jle ref (Fin 0)")
  case False
  obtain x where x: "drift = Fin x" using False by (auto simp: is_finite_iff)
  obtain y where y: "b = Fin y" "0 \<le> y" "fl y = Fin y" using assms(1-3) by (auto simp: is_finite_iff)
  have pos: "jlt (Fin 0) ref" using False assms(4) by (simp add: not_jle_iff)
  define q where "q = jdiv (Fin (max x 0)) ref"
  have "q \<noteq> NaN" using pos unfolding q_def by (cases ref) auto
  then have q: "jle (Fin 0) q" unfolding q_def using pos by (intro jdiv_nonneg) (auto intro: jlt_imp_jle)
  then have "jle (Fin 0) (jmin q (Fin 1))" "jle (jmin q (Fin 1)) (Fin 1)"
    using jmin_le2[of q "Fin 1"] jle_not_NaN[OF q] by (simp_all add: jle_jmin_iff)
  then obtain f where f: "jmin q (Fin 1) = Fin f" "0 \<le> f" "f \<le> 1"
    by (cases "jmin q (Fin 1)") auto
  have e: "entryMomentumBoost drift ref b = fl (f * y)"
    using False by (simp add: entryMomentumBoost_def x y(1) f(1) flip: q_def)
  have "f * y \<le> y" using f y(2) by (simp add: mult_left_le_one_le)
  then have "jle (fl (f * y)) b" using y fl_le by blast
  moreover have "jle (Fin 0) (fl (f * y))" using f y by (intro fl_nonneg) simp
  moreover have "f = 0" if "x \<le> 0"
  proof -
    have "q = Fin 0" unfolding q_def using that pos by (cases ref) (auto simp: max_def)
    then show ?thesis using f(1) by simp
  qed
  ultimately show ?thesis using x e by auto
qed (use assms(1) in \<open>auto simp: entryMomentumBoost_def\<close>)

text \<open>
  Momentum only ever adds bounded confidence: the confidence of a normal entry is at most
  0.85, at least the capped fee/IL base \<open>min(0.5 + 0.05 * ratio, 0.85)\<close>, at most that sum plus the configured
  boost, and equal to the capped base when the pool drifts sideways or down.\<close>
theorem entry_confidence_bounds:
  assumes "feeIlRatio \<noteq> NaN"
    and "ref = nullish (map_option mom_referenceBins opts) DEFAULT_MOMENTUM_REFERENCE_BINS"
    and "boost = nullish (map_option mom_weight opts) DEFAULT_MOMENTUM_CONF_BOOST"
    and "ref \<noteq> NaN" "jle (Fin 0) boost" "is_finite boost" "is_double boost"
    and "base = jadd (Fin (1 / 2)) (jmul feeIlRatio (fl (5 / 100)))"
    and "conf = normalEntryConfidence feeIlRatio drift opts"
  shows "jle conf (fl (85 / 100)) \<and> jle (jmin base (fl (85 / 100))) conf
    \<and> jle conf (jadd base boost) \<and> (jle drift (Fin 0) \<longrightarrow> conf = jmin base (fl (85 / 100)))"
proof -
  have c: "jlt (Fin 0) (fl (5 / 100))" "is_finite (fl (5 / 100))" "is_finite (fl (85 / 100))" by code_simp+
  then have cap: "fl (85 / 100) \<noteq> NaN" by simp
  have "jmul feeIlRatio (fl (5 / 100)) \<noteq> NaN" using assms(1) c by (intro jmul_pos_not_NaN)
  then have base: "base \<noteq> NaN" "is_double base"
    unfolding assms(8) by (cases "jmul feeIlRatio (fl (5 / 100))"; simp)+
  define m where "m = entryMomentumBoost drift ref boost"
  note r = momentum_range[OF assms(5,6,7,4), of drift, folded m_def]
  have conf: "conf = jmin (jadd base m) (fl (85 / 100))"
    by (simp only: assms(9) normalEntryConfidence_def Let_def assms(8) m_def assms(2,3))
  have mf: "is_finite m" using r assms(6) by (cases m; cases boost) auto
  have nn: "jadd base m \<noteq> NaN" "jadd base boost \<noteq> NaN"
    using base(1) mf assms(6) by (cases base; cases m; cases boost; simp)+
  have up: "jle (jadd base m) (jadd base boost)"
    using jadd_mono_left[of m boost base] r nn
    unfolding jadd_commute[of m base] jadd_commute[of boost base] by blast
  have z: "jadd base (Fin 0) = base" using base by (cases base) auto
  have lo: "jle base (jadd base m)"
  proof -
    have c: "jadd (Fin 0) base = base" "jadd m base = jadd base m"
      using z jadd_commute[of "Fin 0" base] jadd_commute[of m base] by simp_all
    show ?thesis using jadd_mono_left[of "Fin 0" m base] r nn(1) base(1) unfolding c by blast
  qed
  have "jle conf (jadd base m)" "jle conf (fl (85 / 100))"
    using nn cap unfolding conf
    by (intro jmin_le1 jmin_le2; simp only: jmin_eq_NaN_iff simp_thms)+
  moreover have "jle (jmin base (fl (85 / 100))) conf"
    unfolding conf using lo cap by (intro jmin_mono) simp_all
  moreover have "conf = jmin base (fl (85 / 100))" if "jle drift (Fin 0)"
    using r that z by (simp add: conf)
  ultimately show ?thesis using up jle_trans by blast
qed

text \<open>
  Unmeasured values decide nothing: replacing a fee/IL ratio, a volume authenticity or a bin
  utilization that is not known by any other value changes neither the entry score nor the
  verdict of the entry pre-filter.\<close>
theorem unmeasured_values_ignored:
  "weightedEntryScore
      (m\<lparr>pm_feeIlRatio := (if pm_feeIlRatioKnown m then pm_feeIlRatio m else a),
         pm_volumeAuthenticity := (if pm_volumeAuthenticityKnown m then pm_volumeAuthenticity m else b),
         pm_binUtilization := (if pm_binUtilizationKnown m then pm_binUtilization m else c)\<rparr>) w mom
     = weightedEntryScore m w mom
   \<and> passesPreFilter pool (if ka then s else b) (if kb then u else c) t minAuth minUtil ka kb
     = passesPreFilter pool s u t minAuth minUtil ka kb"
  by (simp add: weightedEntryScore_def Let_def feeScoreTerm_def authenticityScoreTerm_def
      binUtilizationScoreTerm_def farmScoreTerm_def momentumScoreTerm_def passesPreFilter_def
      preFilterFailures_def)

section \<open>Concrete instances\<close>

text \<open>A square root for the ratio the sample meets, and constants elsewhere.\<close>

definition sampleSqrt :: "jsnum \<Rightarrow> jsnum" where
  "sampleSqrt x = (if x = Fin (9 / 4) then Fin (3 / 2) else Fin 1)"

definition samplePool :: PoolState where
  "samplePool = \<lparr>ps_address = ''pool'', ps_tokenX = ''X'', ps_tokenY = ''Y'', ps_tokenXSymbol = ''X'',
     ps_tokenYSymbol = ''Y'', ps_tvlUsd = Fin 4096, ps_volume24hUsd = Fin 131072,
     ps_fees24hUsd = Fin 64, ps_apr = Fin 0, ps_activeBinId = Fin 0, ps_binStep = Fin 1250,
     ps_currentPrice = Fin 1, ps_timestamp = Fin 1000, ps_statsSource = Some Datapi,
     ps_hasFarm = None, ps_farmAprPct = None\<rparr>"

definition sampleBins :: BinArray where
  "sampleBins = \<lparr>ba_lowerBinId = Fin 0, ba_upperBinId = Fin 1,
     ba_bins = [\<lparr>bin_binId = Fin 0, bin_price = Fin 1, bin_reserveX = 5, bin_reserveY = 0,
                  bin_liquiditySupply = 8\<rparr>],
     ba_activeBinId = Fin 0, ba_binStep = None, ba_reservesKnown = None\<rparr>"

theorem pool_metrics_ranges_witness:
  "jle (pm_feeIlRatio (computeMetrics sampleSqrt samplePool sampleBins (Fin 0) None)) (Fin 20) \<and>
   jle (pm_volumeAuthenticity (computeMetrics sampleSqrt samplePool sampleBins (Fin 0) None)) (Fin 1)"
proof -
  have "estimateDailyIlUsd sampleSqrt samplePool sampleBins None \<noteq> NaN" by code_simp
  then show ?thesis
    using pool_metrics_ranges [OF refl, of sampleSqrt samplePool sampleBins "Fin 0" None]
    by (simp add: samplePool_def)
qed

definition sampleWidthArgs :: RangeHalfWidthInput where
  "sampleWidthArgs = \<lparr>rhw_binStep = Fin 200, rhw_configuredBaseHalfWidth = Fin 50,
     rhw_adaptiveEnabled = True, rhw_volatilityStddev = Fin 8, rhw_maxFullRangeBins = Fin 160,
     rhw_minPriceCoveragePct = Some (Fin 40)\<rparr>"

theorem resolved_half_width_witness:
  "jle (resolveRangeHalfWidth (\<lambda>_. Fin 1) sampleWidthArgs) (Fin 34)"
  using resolved_half_width_fits[of sampleWidthArgs "\<lambda>_. Fin 1"] by (simp add: sampleWidthArgs_def)

theorem recommended_range_witness:
  "\<exists>k. 1 \<le> k \<and> 2 * k \<le> 160 \<and> range_lowerBinId (recommendBinRange (Fin (of_int 7)) (Fin 200)
      (Some (resolveRangeHalfWidth (\<lambda>_. Fin 1) sampleWidthArgs)) (Fin 0)) = Fin (of_int (7 - k))"
proof -
  have "is_integer (rhw_configuredBaseHalfWidth sampleWidthArgs)"
    "rhw_maxFullRangeBins sampleWidthArgs = Fin (of_nat 160)" by (simp_all add: sampleWidthArgs_def)
  then have "\<exists>k. 1 \<le> k \<and> 2 * k \<le> int 160 \<and> 2 * k + 1 \<le> 69 \<and>
      range_lowerBinId (recommendBinRange (Fin (of_int 7)) (rhw_binStep sampleWidthArgs)
        (Some (resolveRangeHalfWidth (\<lambda>_. Fin 1) sampleWidthArgs)) (Fin 0)) = Fin (of_int (7 - k)) \<and>
      range_upperBinId (recommendBinRange (Fin (of_int 7)) (rhw_binStep sampleWidthArgs)
        (Some (resolveRangeHalfWidth (\<lambda>_. Fin 1) sampleWidthArgs)) (Fin 0)) = Fin (of_int (7 + k))"
    by (intro recommended_range_fits[where args = sampleWidthArgs and n = 160, OF _ _ _ _ _ refl]) simp_all
  moreover have "rhw_binStep sampleWidthArgs = Fin 200" by (simp add: sampleWidthArgs_def)
  ultimately show ?thesis by auto
qed

definition sampleThresholds :: EvolvableThresholds where
  "sampleThresholds = \<lparr>evo_minFeeIlRatio = Fin 1, evo_volumeAuthThreshold = Fin (1 / 2),
     evo_minBinUtilization = Fin (1 / 4)\<rparr>"

definition sampleOutcome :: "rat \<Rightarrow> rat \<Rightarrow> OutcomeRecord" where
  "sampleOutcome x pnl = \<lparr>out_feeIlRatio = Fin x, out_volumeAuthenticity = Fin (1 / 2),
     out_binUtilization = Fin (1 / 2), out_pnlUsd = Fin pnl, out_outcomeRecordedAt = Fin 1000\<rparr>"

definition sampleEvolution :: "EvolutionOptions option" where
  "sampleEvolution = Some \<lparr>evo_maxChangePct = Some (Fin (1 / 4)), evo_minOutcomes = Some (Fin 2)\<rparr>"

lemma sampleThresholds_in_bands: "in_bands sampleThresholds"
  by code_simp

theorem evolved_thresholds_banded_witness:
  "in_bands (evo_thresholds (evolveThresholds [sampleOutcome 4 1, sampleOutcome 1 (- 1)]
      sampleThresholds sampleEvolution))"
proof -
  have "evolves [sampleOutcome 4 1, sampleOutcome 1 (- 1)] sampleEvolution"
    by (simp add: evolves_def sampleEvolution_def jnat_def)
  then show ?thesis
    using evolved_thresholds_banded[of "[sampleOutcome 4 1, sampleOutcome 1 (- 1)]" sampleEvolution
        sampleThresholds] by blast
qed

theorem evolution_step_witness:
  "moved_at_most (Fin (1 / 4)) MIN_FEE_IL_EVOLVED_MIN (Fin 1)
     (evo_minFeeIlRatio (evo_thresholds (evolveThresholds [sampleOutcome 4 1, sampleOutcome 1 (- 1)]
        sampleThresholds sampleEvolution)))"
proof -
  have "evolves [sampleOutcome 4 1, sampleOutcome 1 (- 1)] sampleEvolution"
    "maxChange sampleEvolution = Fin (1 / 4)"
    by (simp_all add: evolves_def sampleEvolution_def maxChange_def jnat_def)
  then show ?thesis
    using evolution_step_limited[OF sampleThresholds_in_bands _ _ _ _ _ _ refl,
        of "[sampleOutcome 4 1, sampleOutcome 1 (- 1)]" sampleEvolution]
    by (simp add: sampleThresholds_def num_simps)
qed

theorem signal_lift_witness:
  "jle (computeSignalLift [sampleOutcome 4 1, sampleOutcome 1 (- 1)] FeeIlSignal) (Fin 1)"
  using signal_lift_normalized[of "[sampleOutcome 4 1, sampleOutcome 1 (- 1)]" FeeIlSignal]
  by (simp add: sampleOutcome_def)

theorem recovery_probability_witness:
  "jle (estimateRecoveryProbability [Fin 0, Fin 4, Fin 1] (Fin 9))
     (estimateRecoveryProbability [Fin 0, Fin 4, Fin 1] (Fin 2))"
  using recovery_probability[of "[Fin 0, Fin 4, Fin 1]" "Fin 2" "Fin 9"]
  by (simp add: jsub_def num_simps)

definition sampleWeights :: SignalWeights where
  "sampleWeights = \<lparr>sw_feeIlRatio = Fin 1, sw_volumeAuthenticity = Fin 1, sw_binUtilization = Fin 1,
     sw_tvlUsd = Fin 1, sw_tvlVelocity = Fin 1, sw_updatedAt = Fin 0\<rparr>"

definition sampleWeightOptions :: SignalWeightOptions where
  "sampleWeightOptions = \<lparr>swo_windowDays = None, swo_minOutcomes = Some (Fin 1),
     swo_boostFactor = Some (Fin 2), swo_decayFactor = Some (Fin (1 / 2)),
     swo_weightFloor = Some (Fin (1 / 4)), swo_weightCeiling = Some (Fin 4)\<rparr>"

lemma sample_signals: "jle (Fin 0) (signal_of k (sampleOutcome 4 1)) \<and>
    jle (signal_of k (sampleOutcome 4 1)) (Fin 20)"
  "is_finite (weight_of k sampleWeights)"
  by (cases k; simp add: sampleOutcome_def sampleWeights_def)+

theorem signal_weights_witness:
  "computeSignalWeights (Fin 2000) [sampleOutcome 4 1] sampleWeights (Some sampleWeightOptions)
      = sampleWeights \<or>
   jle (weight_of FeeIlSignal (computeSignalWeights (Fin 2000) [sampleOutcome 4 1] sampleWeights
      (Some sampleWeightOptions))) (Fin 4)"
proof -
  let ?w = "computeSignalWeights (Fin 2000) [sampleOutcome 4 1] sampleWeights
    (Some sampleWeightOptions)"
  let ?o = "resolveSignalWeightOptions (Some sampleWeightOptions)"
  have o: "rswo_weightCeiling ?o = Fin 4" "rswo_weightFloor ?o = Fin (1 / 4)"
    "rswo_boostFactor ?o = Fin 2" "rswo_decayFactor ?o = Fin (1 / 2)"
    by (simp_all add: resolveSignalWeightOptions_def sampleWeightOptions_def)
  have "?w = sampleWeights \<or> ((\<forall>k. jle (rswo_weightFloor ?o) (weight_of k ?w) \<and>
      jle (weight_of k ?w) (rswo_weightCeiling ?o)) \<and> sw_tvlUsd ?w = sw_tvlUsd sampleWeights \<and>
      sw_tvlVelocity ?w = sw_tvlVelocity sampleWeights \<and> sw_updatedAt ?w = Fin 2000)"
    by (rule signal_weights_bounded[OF _ _ refl _ _ _ _ refl]) (simp_all add: o sample_signals)
  then show ?thesis unfolding o by blast
qed

theorem entry_confidence_witness:
  "normalEntryConfidence (Fin 4) (Fin (- 3)) (Some \<lparr>mom_referenceBins = Fin 20, mom_weight = Fin (1 / 16)\<rparr>)
     = jmin (jadd (Fin (1 / 2)) (jmul (Fin 4) (fl (5 / 100)))) (fl (85 / 100))"
  using entry_confidence_bounds[OF _ refl refl _ _ _ _ refl refl, of "Fin 4"
      "Some \<lparr>mom_referenceBins = Fin 20, mom_weight = Fin (1 / 16)\<rparr>" "Fin (- 3)"]
  by (simp add: num_simps)

end
