(* ===== verification/FeeCapture.thy ===== *)
theory FeeCapture
  imports MarketGate
begin

text \<open>
  The net fee-capture model (\<^verbatim>\<open>engine/fee-capture.ts\<close>): the share of a pool's fees a position
  captures, the net fee velocity without and with churn costs, the expected profit of an entry
  over its holding period and the costs debited when a position is closed.  The stable daily fee
  estimate of the same file is in \<open>MarketGate\<close>.  \<^verbatim>\<open>Math.sqrt\<close> is the parameter \<open>sqrtf\<close>.
\<close>

section \<open>Share and velocity\<close>

record ActiveShareParams =
  as_positionSizeUsd :: jsnum
  as_poolTvlUsd :: jsnum
  as_rangeHalfWidthBins :: jsnum
  as_binStep :: jsnum

definition FEE_CAPTURE_REFERENCE_SPAN_PCT :: jsnum where
  "FEE_CAPTURE_REFERENCE_SPAN_PCT = Fin 2"

definition BIN_STEP_BPS_TO_PCT :: jsnum where
  "BIN_STEP_BPS_TO_PCT = fl (1 / 10000)"

definition finitePositive :: "jsnum \<Rightarrow> bool" where
  "finitePositive n \<longleftrightarrow> is_finite n \<and> jgt n (Fin 0)"

definition allFinite :: "jsnum option list \<Rightarrow> bool" where
  "allFinite vs \<longleftrightarrow> list_all (\<lambda>v. case v of None \<Rightarrow> True | Some x \<Rightarrow> is_finite x) vs"

definition clamp01 :: "jsnum \<Rightarrow> jsnum" where
  "clamp01 n = jmin (jmax n (Fin 0)) (Fin 1)"

definition activeShareEstimate :: "ActiveShareParams \<Rightarrow> jsnum" where
  "activeShareEstimate params =
     (if \<not> finitePositive (as_positionSizeUsd params) \<or> \<not> finitePositive (as_poolTvlUsd params)
         \<or> \<not> finitePositive (as_rangeHalfWidthBins params) \<or> \<not> finitePositive (as_binStep params)
      then Fin 0
      else
        let spanPct = jmul (jmul (jmul (Fin 2) (as_rangeHalfWidthBins params)) (as_binStep params))
              BIN_STEP_BPS_TO_PCT;
            concentration = jmax (jdiv FEE_CAPTURE_REFERENCE_SPAN_PCT spanPct) (Fin 1)
        in jmin (jmul (jdiv (as_positionSizeUsd params) (as_poolTvlUsd params)) concentration) (Fin 1))"

record NetFeeVelocityParams =
  nfv_fees24hUsd :: jsnum
  nfv_shareEstimate :: jsnum
  nfv_harvestCostUsd :: jsnum
  nfv_conversionCostPct :: jsnum
  nfv_positionSizeUsd :: jsnum
  nfv_timeInRangePct :: jsnum

definition netFeeVelocityUsd :: "NetFeeVelocityParams \<Rightarrow> jsnum" where
  "netFeeVelocityUsd params =
     (if \<not> finitePositive (nfv_fees24hUsd params) \<or> \<not> finitePositive (nfv_positionSizeUsd params)
         \<or> \<not> finitePositive (nfv_timeInRangePct params)
      then Fin 0
      else if \<not> is_finite (nfv_shareEstimate params) \<or> \<not> is_finite (nfv_harvestCostUsd params)
         \<or> \<not> is_finite (nfv_conversionCostPct params)
      then Fin 0
      else
        let gross = jmul (jmul (nfv_fees24hUsd params) (clamp01 (nfv_shareEstimate params)))
              (clamp01 (nfv_timeInRangePct params));
            capturedAfterConversion =
              jmul gross (jsub (Fin 1) (clamp01 (nfv_conversionCostPct params)));
            net = jsub capturedAfterConversion (jmax (nfv_harvestCostUsd params) (Fin 0))
        in jmax (jdiv net (nfv_positionSizeUsd params)) (Fin 0))"

record RunnerNetAprParams =
  rna_grossAprPct :: jsnum
  rna_poolTvlUsd :: jsnum
  rna_shareEstimate :: jsnum
  rna_harvestCostUsd :: jsnum
  rna_conversionCostPct :: jsnum
  rna_positionSizeUsd :: jsnum
  rna_timeInRangePct :: jsnum

definition runnerNetAprPct :: "RunnerNetAprParams \<Rightarrow> jsnum" where
  "runnerNetAprPct params =
     (if \<not> finitePositive (rna_poolTvlUsd params) then Fin 0
      else
        let dailyGrossUsd = jdiv (jmul (rna_poolTvlUsd params) (jdiv (rna_grossAprPct params) (Fin 100)))
              (Fin 365)
        in jmul (jmul (netFeeVelocityUsd
             \<lparr>nfv_fees24hUsd = dailyGrossUsd, nfv_shareEstimate = rna_shareEstimate params,
              nfv_harvestCostUsd = rna_harvestCostUsd params,
              nfv_conversionCostPct = rna_conversionCostPct params,
              nfv_positionSizeUsd = rna_positionSizeUsd params,
              nfv_timeInRangePct = rna_timeInRangePct params\<rparr>) (Fin 365)) (Fin 100))"

section \<open>Churn costs\<close>

definition OOR_EXITS_MIN :: jsnum where
  "OOR_EXITS_MIN = Fin (1 / 2)"

definition bandWidthPctFromBins :: "jsnum \<Rightarrow> jsnum \<Rightarrow> jsnum" where
  "bandWidthPctFromBins rangeHalfWidthBins binStep =
     (if \<not> finitePositive rangeHalfWidthBins \<or> \<not> finitePositive binStep then Fin 0
      else jmul (jmul (jmul (Fin 2) rangeHalfWidthBins) binStep) BIN_STEP_BPS_TO_PCT)"

record OorExitsParams =
  oor_rangeHalfWidthBins :: jsnum
  oor_binStep :: jsnum
  oor_volatilityStddev :: jsnum
  oor_maxExitsPerDay :: jsnum

definition expectedOorExitsPerDay :: "('a OorExitsParams_scheme) \<Rightarrow> jsnum" where
  "expectedOorExitsPerDay params =
     (let band = bandWidthPctFromBins (oor_rangeHalfWidthBins params) (oor_binStep params)
      in if jle band (Fin 0) \<or> \<not> is_finite (oor_volatilityStddev params)
            \<or> jle (oor_volatilityStddev params) (Fin 0) \<or> \<not> is_finite (oor_maxExitsPerDay params)
            \<or> jle (oor_maxExitsPerDay params) (Fin 0)
         then Fin 0
         else
           let volPct = jmul (oor_volatilityStddev params) (jmul (oor_binStep params) BIN_STEP_BPS_TO_PCT);
               density = jmul (jdiv volPct band) (jdiv volPct band)
           in jmin (jmax density OOR_EXITS_MIN) (oor_maxExitsPerDay params))"

definition expectedIlCapturedPerExitUsd ::
  "(jsnum \<Rightarrow> jsnum) \<Rightarrow> jsnum \<Rightarrow> jsnum \<Rightarrow> jsnum \<Rightarrow> jsnum" where
  "expectedIlCapturedPerExitUsd sqrtf positionSizeUsd rangeHalfWidthBins binStep =
     (let band = bandWidthPctFromBins rangeHalfWidthBins binStep
      in if \<not> finitePositive positionSizeUsd \<or> jle band (Fin 0) then Fin 0
         else
           let move = jdiv band (Fin 2);
               r = jadd (Fin 1) move;
               ilPct = jsub (Fin 1) (jdiv (jmul (Fin 2) (sqrtf r)) (jadd (Fin 1) r))
           in jmul (jmax ilPct (Fin 0)) positionSizeUsd)"

record ChurnCostParams = OorExitsParams +
  churn_positionSizeUsd :: jsnum
  churn_swapCostPct :: jsnum

definition churnCostDailyUsd :: "(jsnum \<Rightarrow> jsnum) \<Rightarrow> ChurnCostParams \<Rightarrow> jsnum" where
  "churnCostDailyUsd sqrtf params =
     (let exits = expectedOorExitsPerDay params
      in if jle exits (Fin 0) \<or> \<not> finitePositive (churn_positionSizeUsd params) then Fin 0
         else
           let swapPerExit = jmul (jmul (Fin 2) (clamp01 (churn_swapCostPct params)))
                 (churn_positionSizeUsd params);
               ilPerExit = expectedIlCapturedPerExitUsd sqrtf (churn_positionSizeUsd params)
                 (oor_rangeHalfWidthBins params) (oor_binStep params)
           in jmul exits (jadd swapPerExit ilPerExit))"

record NetFeeWithCostsParams =
  nfc_fees24hUsd :: jsnum
  nfc_poolTvlUsd :: jsnum
  nfc_positionSizeUsd :: jsnum
  nfc_rangeHalfWidthBins :: jsnum
  nfc_binStep :: jsnum
  nfc_volatilityStddev :: jsnum
  nfc_swapCostPct :: jsnum
  nfc_harvestCostUsd :: jsnum
  nfc_conversionCostPct :: "jsnum option"
  nfc_timeInRangePct :: jsnum
  nfc_maxExitsPerDay :: jsnum

definition nfc_captured :: "NetFeeWithCostsParams \<Rightarrow> jsnum" where
  "nfc_captured params =
     (let share = activeShareEstimate
            \<lparr>as_positionSizeUsd = nfc_positionSizeUsd params, as_poolTvlUsd = nfc_poolTvlUsd params,
             as_rangeHalfWidthBins = nfc_rangeHalfWidthBins params, as_binStep = nfc_binStep params\<rparr>;
          gross = jmul (jmul (nfc_fees24hUsd params) share) (clamp01 (nfc_timeInRangePct params))
      in jmul gross (jsub (Fin 1) (clamp01 (nullish (nfc_conversionCostPct params) (Fin 0)))))"

definition nfc_churn :: "(jsnum \<Rightarrow> jsnum) \<Rightarrow> NetFeeWithCostsParams \<Rightarrow> jsnum" where
  "nfc_churn sqrtf params = churnCostDailyUsd sqrtf
     \<lparr>oor_rangeHalfWidthBins = nfc_rangeHalfWidthBins params, oor_binStep = nfc_binStep params,
      oor_volatilityStddev = nfc_volatilityStddev params,
      oor_maxExitsPerDay = nfc_maxExitsPerDay params,
      churn_positionSizeUsd = nfc_positionSizeUsd params,
      churn_swapCostPct = nfc_swapCostPct params\<rparr>"

definition netFeeVelocityUsdWithCosts :: "(jsnum \<Rightarrow> jsnum) \<Rightarrow> NetFeeWithCostsParams \<Rightarrow> jsnum" where
  "netFeeVelocityUsdWithCosts sqrtf params =
     (if \<not> finitePositive (nfc_fees24hUsd params) \<or> \<not> finitePositive (nfc_positionSizeUsd params)
         \<or> \<not> finitePositive (nfc_timeInRangePct params)
         \<or> \<not> allFinite [Some (nfc_harvestCostUsd params), Some (nfc_swapCostPct params),
              Some (nfc_volatilityStddev params), Some (nfc_maxExitsPerDay params),
              nfc_conversionCostPct params]
      then Fin 0
      else
        let harvest = jmax (nfc_harvestCostUsd params) (Fin 0);
            net = jsub (jsub (nfc_captured params) harvest) (nfc_churn sqrtf params)
        in if is_finite net then jmax (jdiv net (nfc_positionSizeUsd params)) (Fin 0) else Fin 0)"

definition runnerNetDailyPctAfterCosts :: "(jsnum \<Rightarrow> jsnum) \<Rightarrow> NetFeeWithCostsParams \<Rightarrow> jsnum" where
  "runnerNetDailyPctAfterCosts sqrtf params = jmul (netFeeVelocityUsdWithCosts sqrtf params) (Fin 100)"

definition profitableRunner :: "(jsnum \<Rightarrow> jsnum) \<Rightarrow> NetFeeWithCostsParams \<Rightarrow> jsnum \<Rightarrow> bool" where
  "profitableRunner sqrtf params minNetDailyPct \<longleftrightarrow>
     (let floor_pct = (if is_finite minNetDailyPct then jmax (Fin 0) minNetDailyPct else Fin 0)
      in jge (runnerNetDailyPctAfterCosts sqrtf params) floor_pct)"

section \<open>Expected profit of an entry\<close>

record ExpectedProfitParams =
  ep_dailyFeesUsd :: jsnum
  ep_positionSizeUsd :: jsnum
  ep_poolTvlUsd :: jsnum
  ep_rangeHalfWidthBins :: jsnum
  ep_binStep :: jsnum
  ep_volatilityStddev :: jsnum
  ep_swapCostPct :: jsnum
  ep_harvestCostUsd :: jsnum
  ep_conversionCostPct :: jsnum
  ep_holdingDays :: jsnum
  ep_txCostUsd :: jsnum
  ep_timeInRangePct :: "jsnum option"
  ep_maxExitsPerDay :: "jsnum option"

definition validExpectedProfitInputs :: "ExpectedProfitParams \<Rightarrow> bool" where
  "validExpectedProfitInputs params \<longleftrightarrow>
     is_finite (ep_dailyFeesUsd params) \<and> jge (ep_dailyFeesUsd params) (Fin 0) \<and>
     finitePositive (ep_positionSizeUsd params) \<and> finitePositive (ep_holdingDays params) \<and>
     allFinite [Some (ep_swapCostPct params), Some (ep_txCostUsd params),
       Some (ep_harvestCostUsd params), Some (ep_conversionCostPct params),
       ep_timeInRangePct params, ep_maxExitsPerDay params]"

definition ep_roundTrip :: "ExpectedProfitParams \<Rightarrow> jsnum" where
  "ep_roundTrip params =
     jadd (jmul (jmul (Fin 2) (clamp01 (ep_swapCostPct params))) (ep_positionSizeUsd params))
       (jmul (Fin 2) (jmax (ep_txCostUsd params) (Fin 0)))"

definition expectedNetProfitUsd :: "(jsnum \<Rightarrow> jsnum) \<Rightarrow> ExpectedProfitParams \<Rightarrow> jsnum option" where
  "expectedNetProfitUsd sqrtf params =
     (if \<not> validExpectedProfitInputs params then None
      else
        let velocity = netFeeVelocityUsdWithCosts sqrtf
              \<lparr>nfc_fees24hUsd = ep_dailyFeesUsd params, nfc_poolTvlUsd = ep_poolTvlUsd params,
               nfc_positionSizeUsd = ep_positionSizeUsd params,
               nfc_rangeHalfWidthBins = ep_rangeHalfWidthBins params,
               nfc_binStep = ep_binStep params, nfc_volatilityStddev = ep_volatilityStddev params,
               nfc_swapCostPct = ep_swapCostPct params, nfc_harvestCostUsd = ep_harvestCostUsd params,
               nfc_conversionCostPct = Some (ep_conversionCostPct params),
               nfc_timeInRangePct = nullish (ep_timeInRangePct params) (Fin 1),
               nfc_maxExitsPerDay = nullish (ep_maxExitsPerDay params)
                 (jdiv (Fin 86400000) (Fin 600000))\<rparr>
        in Some (jsub (jmul (jmul velocity (ep_positionSizeUsd params)) (ep_holdingDays params))
             (ep_roundTrip params)))"

section \<open>Costs at close\<close>

record LiveCloseCostsParams =
  lcc_positionSizeUsd :: jsnum
  lcc_ageDays :: jsnum
  lcc_swapCostPct :: jsnum
  lcc_harvestCostUsd :: jsnum
  lcc_txCostUsd :: jsnum

record PaperCloseCostsParams = LiveCloseCostsParams +
  pcc_cumulativeGrossFeesUsd :: jsnum
  pcc_conversionCostPct :: jsnum

text \<open>\<^verbatim>\<open>Number.isFinite(x) ? f(x) : 0\<close> with \<open>f\<close> the floor at 0 or the clamp to \<open>[0, 1]\<close>.\<close>

definition cost_amount :: "jsnum \<Rightarrow> jsnum" where
  "cost_amount x = (if is_finite x then jmax x (Fin 0) else Fin 0)"

definition cost_fraction :: "jsnum \<Rightarrow> jsnum" where
  "cost_fraction x = (if is_finite x then clamp01 x else Fin 0)"

definition paperCloseCostsUsd :: "PaperCloseCostsParams \<Rightarrow> jsnum" where
  "paperCloseCostsUsd params =
     (if \<not> finitePositive (lcc_positionSizeUsd params) then Fin 0
      else
        let roundTrip = jadd (jmul (jmul (Fin 2) (cost_fraction (lcc_swapCostPct params)))
                          (lcc_positionSizeUsd params))
              (jmul (Fin 2) (cost_amount (lcc_txCostUsd params)))
        in jmax (jadd (jadd roundTrip
             (jmul (cost_amount (lcc_harvestCostUsd params)) (cost_amount (lcc_ageDays params))))
             (jmul (cost_fraction (pcc_conversionCostPct params))
               (cost_amount (pcc_cumulativeGrossFeesUsd params)))) (Fin 0))"

definition liveCloseCostsUsd :: "'a LiveCloseCostsParams_scheme \<Rightarrow> jsnum" where
  "liveCloseCostsUsd params =
     (if \<not> finitePositive (lcc_positionSizeUsd params) then Fin 0
      else jmax (jadd (jadd (jmul (cost_fraction (lcc_swapCostPct params)) (lcc_positionSizeUsd params))
             (jmul (Fin 2) (cost_amount (lcc_txCostUsd params))))
             (jmul (cost_amount (lcc_harvestCostUsd params)) (cost_amount (lcc_ageDays params))))
             (Fin 0))"

section \<open>Bounds of the costs\<close>

lemma clamp01_range [simp]: "is_finite x \<Longrightarrow> jle (Fin 0) (clamp01 x) \<and> jle (clamp01 x) (Fin 1)"
  by (cases x) (auto simp: clamp01_def)

lemma clamp01_finite [simp]: "is_finite x \<Longrightarrow> is_finite (clamp01 x)"
  by (cases x) (auto simp: clamp01_def)

lemma cost_amount_range [simp]: "jle (Fin 0) (cost_amount x)" "is_finite (cost_amount x)"
  by (cases x; simp add: cost_amount_def)+

lemma cost_fraction_range [simp]: "jle (Fin 0) (cost_fraction x)" "is_finite (cost_fraction x)"
  by (simp_all add: cost_fraction_def)

lemma finitePositiveD: "finitePositive x \<Longrightarrow> is_finite x \<and> jlt (Fin 0) x \<and> jle (Fin 0) x"
  by (auto simp: finitePositive_def jlt_imp_jle)

text \<open>Products and sums of costs.\<close>

lemma cost_product:
  "jle (Fin 0) a \<Longrightarrow> is_finite a \<Longrightarrow> jle (Fin 0) b \<Longrightarrow> is_finite b \<Longrightarrow> jle (Fin 0) (jmul a b)"
  by (intro jmul_nonneg jmul_finite_not_NaN)

lemma cost_sum_mono:
  assumes "jle (Fin 0) a" "jle a b" "jle (Fin 0) c" "jle c d"
  shows "jle (jadd a c) (jadd b d)"
proof -
  have n: "jadd a c \<noteq> NaN" "jadd b c \<noteq> NaN" "jadd b d \<noteq> NaN"
    using assms jadd_nonneg[of a c] jadd_nonneg[of b c] jadd_nonneg[of b d] jle_trans[of "Fin 0" a b]
      jle_trans[of "Fin 0" c d] jle_not_NaN by blast+
  have "jle (jadd a c) (jadd b c)" using assms(2) n by (intro jadd_mono_left)
  also have "jle (jadd b c) (jadd b d)"
    using jadd_mono_left[OF assms(4), of b] n by (simp add: jadd_commute)
  finally show ?thesis .
qed

lemma double_share:
  assumes "jle (Fin 0) a" "jle a (Fin 1)" "is_double a" "is_finite s" "jle (Fin 0) s"
  shows "jle (Fin 0) (jmul (Fin 2) a) \<and> is_finite (jmul (Fin 2) a)
    \<and> jle (jmul a s) (jmul (jmul (Fin 2) a) s)"
proof -
  obtain x y where xy: "a = Fin x" "s = Fin y" "0 \<le> x" "x \<le> 1" "0 \<le> y"
    using assms by (cases a; cases s) auto
  have "jle (Fin x) (fl (2 * x))" using xy assms(3) by (intro fl_ge) auto
  moreover have "jle (fl (2 * x)) (Fin 2)" using xy by (intro fl_le) (auto simp: num_simps)
  ultimately obtain w where w: "fl (2 * x) = Fin w" "x \<le> w" by (cases "fl (2 * x)") auto
  then have "x * y \<le> w * y" using xy by (simp add: mult_right_mono)
  then show ?thesis using xy w by (simp add: fl_mono)
qed

lemma twice_fraction:
  assumes "jle (Fin 0) a" "jle a (Fin 1)"
  shows "jle (Fin 0) (jmul (Fin 2) a) \<and> is_finite (jmul (Fin 2) a)"
proof -
  obtain x where x: "a = Fin x" "0 \<le> x" "x \<le> 1" using assms by (cases a) auto
  have "jle (fl (2 * x)) (Fin 2)" using x by (intro fl_le) (auto simp: num_simps)
  moreover have "jle (Fin 0) (fl (2 * x))" using x by (intro fl_nonneg) simp
  ultimately show ?thesis using x jle_finite_between by auto
qed

lemma cost_fraction_le_1: "jle (cost_fraction x) (Fin 1)"
  by (simp add: cost_fraction_def)

lemma cost_fraction_double: "is_double x \<Longrightarrow> is_double (cost_fraction x)"
  by (auto simp: cost_fraction_def clamp01_def num_simps)

text \<open>
  Paper trading never looks cheaper than live trading: for the same position, age and cost
  rates the costs debited from a live close are non-negative and at most those debited from a
  paper close, rounding included, whatever rates are missing, negative or out of range.\<close>
theorem live_costs_below_paper:
  assumes "is_double (lcc_swapCostPct params)"
  shows "jle (Fin 0) (liveCloseCostsUsd params) \<and>
    jle (liveCloseCostsUsd params) (paperCloseCostsUsd params)"
proof (cases "finitePositive (lcc_positionSizeUsd params)")
  case True
  let ?s = "lcc_positionSizeUsd params" and ?f = "cost_fraction (lcc_swapCostPct params)"
  let ?tx = "jmul (Fin 2) (cost_amount (lcc_txCostUsd params))"
  let ?h = "jmul (cost_amount (lcc_harvestCostUsd params)) (cost_amount (lcc_ageDays params))"
  let ?c = "jmul (cost_fraction (pcc_conversionCostPct params))
    (cost_amount (pcc_cumulativeGrossFeesUsd params))"
  have s: "is_finite ?s" "jle (Fin 0) ?s" using finitePositiveD[OF True] by auto
  have d: "jle (Fin 0) (jmul ?f ?s)" "jle (jmul ?f ?s) (jmul (jmul (Fin 2) ?f) ?s)"
    using double_share[OF cost_fraction_range(1) cost_fraction_le_1 cost_fraction_double[OF assms] s]
      cost_product[OF cost_fraction_range s(2,1)] by auto
  have n: "jle (Fin 0) ?tx" "jle (Fin 0) ?h" "jle (Fin 0) ?c" by (simp_all add: cost_product)
  have m: "jle (jadd (jmul ?f ?s) ?tx) (jadd (jmul (jmul (Fin 2) ?f) ?s) ?tx)"
    using cost_sum_mono[OF d n(1), of ?tx] jle_not_NaN[OF n(1)] by simp
  have p: "jle (Fin 0) (jadd (jmul ?f ?s) ?tx)" using d(1) n(1) by (rule jadd_nonneg)
  have m2: "jle (jadd (jadd (jmul ?f ?s) ?tx) ?h) (jadd (jadd (jmul (jmul (Fin 2) ?f) ?s) ?tx) ?h)"
    using cost_sum_mono[OF p m n(2), of ?h] jle_not_NaN[OF n(2)] by simp
  let ?P = "jadd (jadd (jmul (jmul (Fin 2) ?f) ?s) ?tx) ?h"
  have "jle (Fin 0) ?P" using jle_trans[OF jadd_nonneg[OF p n(2)] m2] .
  then have "jle ?P (jadd ?P ?c)" using n(3) by (intro jadd_ge_left) auto
  with m2 have le: "jle (jadd (jadd (jmul ?f ?s) ?tx) ?h) (jadd ?P ?c)" by (rule jle_trans)
  have "jle (Fin 0) (jadd (jadd (jmul ?f ?s) ?tx) ?h)" using jadd_nonneg[OF p n(2)] .
  moreover have "jmax x (Fin 0) = x" if "jle (Fin 0) x" for x
    using that jle_antisym by (auto simp: jmax_def)
  ultimately show ?thesis using True le jle_trans[OF _ le]
    by (simp add: liveCloseCostsUsd_def paperCloseCostsUsd_def Let_def)
qed (simp add: liveCloseCostsUsd_def paperCloseCostsUsd_def)

section \<open>Share, velocity and profit\<close>

lemma bps_number [simp]:
  "jlt (Fin 0) BIN_STEP_BPS_TO_PCT" "jle (Fin 0) BIN_STEP_BPS_TO_PCT"
  "is_finite BIN_STEP_BPS_TO_PCT" "is_double BIN_STEP_BPS_TO_PCT"
  "is_finite (jdiv (Fin 2) BIN_STEP_BPS_TO_PCT)"
  by code_simp+

lemma span_bound:
  assumes "jle (Fin 1) a" "jle (Fin 1) b"
  shows "jle BIN_STEP_BPS_TO_PCT (jmul (jmul (jmul (Fin 2) a) b) BIN_STEP_BPS_TO_PCT)"
proof -
  have "jle (Fin 1) (jmul (Fin 2) a)" using assms(1) by (intro jmul_ge_1) simp_all
  then have p: "jle (Fin 1) (jmul (jmul (Fin 2) a) b)" using assms(2) by (rule jmul_ge_1)
  obtain c where c1: "BIN_STEP_BPS_TO_PCT = Fin c" using bps_number(3) unfolding is_finite_iff by blast
  have c: "BIN_STEP_BPS_TO_PCT = Fin c" "0 < c" "fl c = Fin c"
    using c1 bps_number(1,4) unfolding c1 by simp_all
  show ?thesis
  proof (cases "jmul (jmul (Fin 2) a) b")
    case (Fin y)
    then have "c \<le> y * c" using p c(2) by (simp add: mult_le_cancel_right1)
    then show ?thesis unfolding Fin c1 using c(3) by (simp add: fl_ge)
  next
    case PosInf
    show ?thesis unfolding PosInf c1 using c(2) by (simp add: signed_inf_def)
  qed (use p in auto)
qed

text \<open>
  The captured share is a fraction: for every position size, pool size and range of at least
  one bin of at least one basis point, however large, the share of the pool's fees is between 0
  and 1, and it is 0 when an input is missing or not positive.\<close>
theorem active_share_fraction:
  assumes "jle (Fin 1) (as_rangeHalfWidthBins params)" "jle (Fin 1) (as_binStep params)"
  shows "jle (Fin 0) (activeShareEstimate params) \<and> jle (activeShareEstimate params) (Fin 1)
    \<and> (\<not> finitePositive (as_positionSizeUsd params) \<or> \<not> finitePositive (as_poolTvlUsd params) \<longrightarrow>
        activeShareEstimate params = Fin 0)"
proof (cases "finitePositive (as_positionSizeUsd params) \<and> finitePositive (as_poolTvlUsd params)
    \<and> finitePositive (as_rangeHalfWidthBins params) \<and> finitePositive (as_binStep params)")
  case True
  let ?span = "jmul (jmul (jmul (Fin 2) (as_rangeHalfWidthBins params)) (as_binStep params))
    BIN_STEP_BPS_TO_PCT"
  have span: "jle BIN_STEP_BPS_TO_PCT ?span" using assms by (rule span_bound)
  then have pos: "jlt (Fin 0) ?span" using jlt_jle_trans bps_number(1) by blast
  let ?d = "jdiv (Fin 2) ?span" and ?q = "jdiv (as_positionSizeUsd params) (as_poolTvlUsd params)"
  have d: "jle ?d (jdiv (Fin 2) BIN_STEP_BPS_TO_PCT)"
    by (rule jdiv_antimono_right[OF _ _ bps_number(1) span]) simp_all
  then have "is_finite ?d \<or> ?d = NegInf" using bps_number(5)
    by (cases ?d; cases "jdiv (Fin 2) BIN_STEP_BPS_TO_PCT") auto
  then have c: "jle (Fin 1) (jmax ?d (Fin 1))" "is_finite (jmax ?d (Fin 1))"
    using jmax_ge2[of ?d "Fin 1"] d by (auto simp: jmax_def)
  have "?q \<noteq> NaN" using True
    by (intro jdiv_finite_pos_not_NaN) (auto simp: finitePositive_def)
  then have q: "jle (Fin 0) ?q" using True by (intro jdiv_nonneg) (auto simp: finitePositive_def jlt_imp_jle)
  have "jlt (Fin 0) (jmax ?d (Fin 1))" using c(1) jlt_jle_trans[of "Fin 0" "Fin 1"] by simp
  then have n: "jmul ?q (jmax ?d (Fin 1)) \<noteq> NaN" using c(2) \<open>?q \<noteq> NaN\<close> by (intro jmul_pos_not_NaN)
  moreover have "jle (Fin 0) (jmax ?d (Fin 1))" using c(1) jle_trans[of "Fin 0" "Fin 1"] by simp
  ultimately have "jle (Fin 0) (jmul ?q (jmax ?d (Fin 1)))" using q by (intro jmul_nonneg)
  then show ?thesis using True n jmin_le2[of "jmul ?q (jmax ?d (Fin 1))" "Fin 1"]
    by (simp add: activeShareEstimate_def Let_def FEE_CAPTURE_REFERENCE_SPAN_PCT_def jle_jmin_iff)
qed (auto simp: activeShareEstimate_def)

lemma velocity_pos_net:
  assumes "jlt (Fin 0) (netFeeVelocityUsdWithCosts sqrtf params)"
  shows "finitePositive (nfc_fees24hUsd params) \<and> finitePositive (nfc_positionSizeUsd params)
    \<and> jlt (nfc_churn sqrtf params)
        (jsub (nfc_captured params) (jmax (nfc_harvestCostUsd params) (Fin 0)))"
proof -
  let ?net = "jsub (jsub (nfc_captured params) (jmax (nfc_harvestCostUsd params) (Fin 0)))
    (nfc_churn sqrtf params)"
  have guards: "finitePositive (nfc_fees24hUsd params)" "finitePositive (nfc_positionSizeUsd params)"
    and net: "netFeeVelocityUsdWithCosts sqrtf params
      = jmax (jdiv ?net (nfc_positionSizeUsd params)) (Fin 0)"
    using assms by (auto simp: netFeeVelocityUsdWithCosts_def Let_def split: if_splits)
  have "jlt (Fin 0) (jdiv ?net (nfc_positionSizeUsd params))"
    using assms jmax_choice[of "jdiv ?net (nfc_positionSizeUsd params)" "Fin 0"] unfolding net by force
  then have "jlt (Fin 0) ?net" using guards(2) by (auto intro: jdiv_pos_imp dest: finitePositiveD)
  then show ?thesis using guards jsub_pos_imp_jlt by blast
qed

text \<open>
  No bleeding runner is called profitable: against a positive floor, a runner is profitable
  only when what it captures after conversion exceeds the harvest and churn costs together, so
  its net income is a positive finite number, and an unmeasured or worthless pool never is.\<close>
theorem profitable_runner_no_bleed:
  assumes "profitableRunner sqrtf params minNetDailyPct"
    and "is_finite minNetDailyPct" "jlt (Fin 0) minNetDailyPct"
  shows "finitePositive (nfc_fees24hUsd params) \<and> finitePositive (nfc_positionSizeUsd params)
    \<and> jlt (nfc_churn sqrtf params)
        (jsub (nfc_captured params) (jmax (nfc_harvestCostUsd params) (Fin 0)))"
proof -
  define v where "v = netFeeVelocityUsdWithCosts sqrtf params"
  have "jle minNetDailyPct (jmul v (Fin 100))" using assms
    by (cases minNetDailyPct)
      (auto simp: profitableRunner_def runnerNetDailyPctAfterCosts_def v_def max_def)
  then have "jlt (Fin 0) (jmul v (Fin 100))" using assms(3) jlt_jle_trans by blast
  then have "jlt (Fin 0) (jmul (Fin 100) v)" by (simp add: jmul_commute)
  then have "jlt (Fin 0) v"
    using jmul_pos_imp[of "Fin 100" v] by (cases "is_finite v") (auto simp: signed_inf_def elim: is_finite.elims)
  then show ?thesis unfolding v_def by (rule velocity_pos_net)
qed

text \<open>The daily velocity question an expected profit asks: the entry's own numbers, with the whole
  time in range and at most one exit every ten minutes where they are not given.\<close>

definition entryVelocityParams :: "ExpectedProfitParams \<Rightarrow> NetFeeWithCostsParams" where
  "entryVelocityParams params =
     \<lparr>nfc_fees24hUsd = ep_dailyFeesUsd params, nfc_poolTvlUsd = ep_poolTvlUsd params,
      nfc_positionSizeUsd = ep_positionSizeUsd params,
      nfc_rangeHalfWidthBins = ep_rangeHalfWidthBins params,
      nfc_binStep = ep_binStep params, nfc_volatilityStddev = ep_volatilityStddev params,
      nfc_swapCostPct = ep_swapCostPct params, nfc_harvestCostUsd = ep_harvestCostUsd params,
      nfc_conversionCostPct = Some (ep_conversionCostPct params),
      nfc_timeInRangePct = (case ep_timeInRangePct params of None \<Rightarrow> Fin 1 | Some t \<Rightarrow> t),
      nfc_maxExitsPerDay = (case ep_maxExitsPerDay params of None \<Rightarrow> Fin 144 | Some n \<Rightarrow> n)\<rparr>"

lemma expected_profit_value:
  "expectedNetProfitUsd sqrtf params =
     (if \<not> validExpectedProfitInputs params then None
      else Some (jsub (jmul (jmul (netFeeVelocityUsdWithCosts sqrtf (entryVelocityParams params))
         (ep_positionSizeUsd params)) (ep_holdingDays params)) (ep_roundTrip params)))"
proof -
  have "jdiv (Fin 86400000) (Fin 600000) = Fin 144" by code_simp
  then show ?thesis
    by (simp add: expectedNetProfitUsd_def entryVelocityParams_def nullish_def Let_def)
qed

lemma velocity_nonneg: "jle (Fin 0) (netFeeVelocityUsdWithCosts sqrtf params)"
proof -
  have "jle (Fin 0) (jmax (jdiv n z) (Fin 0))" if "is_finite n" "finitePositive z" for n z
    using that jdiv_finite_pos_not_NaN [of z n] jmax_ge2 [of "jdiv n z" "Fin 0"]
    by (cases "jdiv n z = NaN") (auto simp: finitePositive_def is_finite_iff)
  then show ?thesis by (simp add: netFeeVelocityUsdWithCosts_def Let_def)
qed

lemma round_trip_nonneg:
  assumes "validExpectedProfitInputs params"
  shows "jle (Fin 0) (ep_roundTrip params)"
proof -
  have fin: "is_finite (ep_swapCostPct params)" "is_finite (ep_txCostUsd params)"
    "finitePositive (ep_positionSizeUsd params)"
    using assms by (simp_all add: validExpectedProfitInputs_def allFinite_def)
  have two: "jle (Fin 0) (jmul (Fin 2) (clamp01 (ep_swapCostPct params)))
      \<and> is_finite (jmul (Fin 2) (clamp01 (ep_swapCostPct params)))"
    using fin(1) by (intro twice_fraction) simp_all
  have "jle (Fin 0) (jmax (ep_txCostUsd params) (Fin 0))" "is_finite (jmax (ep_txCostUsd params) (Fin 0))"
    using fin(2) by (auto simp: is_finite_iff)
  then have tx: "jle (Fin 0) (jmul (Fin 2) (jmax (ep_txCostUsd params) (Fin 0)))"
    by (intro cost_product) simp_all
  have "jle (Fin 0) (jmul (jmul (Fin 2) (clamp01 (ep_swapCostPct params))) (ep_positionSizeUsd params))"
    using cost_product[OF two[THEN conjunct1] two[THEN conjunct2]] finitePositiveD[OF fin(3)] by blast
  then show ?thesis unfolding ep_roundTrip_def using tx by (rule jadd_nonneg)
qed

text \<open>
  C26. An entry is worth its round trip.  The expected profit is unknown exactly when the daily fees
  are not a finite non-negative number, the size or the holding period is not a positive finite
  number, or a given cost, share of time or number of exits is not finite.  Otherwise it is the
  income (the daily net velocity of the entry's own numbers times its size times the holding days)
  less the round trip (two swaps of the position, their rate cut to [0, 1], and two transactions),
  which is never negative.  So a profit that is positive pays for it: the pool has fees, what the
  position captures a day exceeds its harvest and churn costs, and the income of the holding period
  exceeds the whole round trip.\<close>
theorem profit_covers_round_trip:
  assumes "velocity = netFeeVelocityUsdWithCosts sqrtf (entryVelocityParams params)"
    "income = jmul (jmul velocity (ep_positionSizeUsd params)) (ep_holdingDays params)"
    "roundTrip = jadd (jmul (jmul (Fin 2) (jmin (jmax (ep_swapCostPct params) (Fin 0)) (Fin 1)))
        (ep_positionSizeUsd params)) (jmul (Fin 2) (jmax (ep_txCostUsd params) (Fin 0)))"
  shows "(expectedNetProfitUsd sqrtf params = None \<longleftrightarrow>
      \<not> (is_finite (ep_dailyFeesUsd params) \<and> jle (Fin 0) (ep_dailyFeesUsd params) \<and>
         finitePositive (ep_positionSizeUsd params) \<and> finitePositive (ep_holdingDays params) \<and>
         is_finite (ep_swapCostPct params) \<and> is_finite (ep_txCostUsd params) \<and>
         is_finite (ep_harvestCostUsd params) \<and> is_finite (ep_conversionCostPct params) \<and>
         (\<forall>t. ep_timeInRangePct params = Some t \<longrightarrow> is_finite t) \<and>
         (\<forall>n. ep_maxExitsPerDay params = Some n \<longrightarrow> is_finite n))) \<and>
    (\<forall>p. expectedNetProfitUsd sqrtf params = Some p \<longrightarrow>
       p = jsub income roundTrip \<and> jle (Fin 0) roundTrip \<and> jle (Fin 0) velocity \<and>
       (jlt (Fin 0) p \<longrightarrow> jlt roundTrip income \<and> jlt (Fin 0) (ep_dailyFeesUsd params) \<and>
          jlt (nfc_churn sqrtf (entryVelocityParams params))
            (jsub (nfc_captured (entryVelocityParams params)) (jmax (ep_harvestCostUsd params) (Fin 0)))))"
proof (intro conjI allI impI)
  show "expectedNetProfitUsd sqrtf params = None \<longleftrightarrow>
      \<not> (is_finite (ep_dailyFeesUsd params) \<and> jle (Fin 0) (ep_dailyFeesUsd params) \<and>
         finitePositive (ep_positionSizeUsd params) \<and> finitePositive (ep_holdingDays params) \<and>
         is_finite (ep_swapCostPct params) \<and> is_finite (ep_txCostUsd params) \<and>
         is_finite (ep_harvestCostUsd params) \<and> is_finite (ep_conversionCostPct params) \<and>
         (\<forall>t. ep_timeInRangePct params = Some t \<longrightarrow> is_finite t) \<and>
         (\<forall>n. ep_maxExitsPerDay params = Some n \<longrightarrow> is_finite n))"
    by (auto simp: expected_profit_value validExpectedProfitInputs_def allFinite_def split: option.splits)
next
  fix p assume e: "expectedNetProfitUsd sqrtf params = Some p"
  have rt: "ep_roundTrip params = roundTrip" using assms(3) by (simp add: ep_roundTrip_def clamp01_def)
  from e have valid: "validExpectedProfitInputs params" and p: "p = jsub income roundTrip"
    using assms(1,2) rt by (auto simp: expected_profit_value split: if_splits)
  show "p = jsub income roundTrip" by (rule p)
  show rt0: "jle (Fin 0) roundTrip" using round_trip_nonneg [OF valid] rt by simp
  show v0: "jle (Fin 0) velocity" using assms(1) velocity_nonneg by simp
  assume pos: "jlt (Fin 0) p"
  show inc: "jlt roundTrip income" using pos p jsub_pos_imp_jlt by blast
  have "velocity \<noteq> Fin 0"
  proof
    assume "velocity = Fin 0"
    then have "income = Fin 0" using assms(2) valid
      by (auto simp: validExpectedProfitInputs_def finitePositive_def is_finite_iff)
    then show False using inc rt0 jlt_asym by blast
  qed
  then have "jlt (Fin 0) velocity" using v0 jle_antisym not_jlt_iff [of "Fin 0" velocity] by auto
  from velocity_pos_net [OF this [unfolded assms(1)]]
  show "jlt (Fin 0) (ep_dailyFeesUsd params)"
    "jlt (nfc_churn sqrtf (entryVelocityParams params))
      (jsub (nfc_captured (entryVelocityParams params)) (jmax (ep_harvestCostUsd params) (Fin 0)))"
    by (auto simp: entryVelocityParams_def finitePositive_def)
qed

section \<open>Concrete instances\<close>

definition sampleCloseCosts :: PaperCloseCostsParams where
  "sampleCloseCosts = \<lparr>lcc_positionSizeUsd = Fin 100, lcc_ageDays = Fin 2, lcc_swapCostPct = Fin (1 / 128),
     lcc_harvestCostUsd = Fin 1, lcc_txCostUsd = Fin 1, pcc_cumulativeGrossFeesUsd = Fin 8,
     pcc_conversionCostPct = Fin (1 / 16)\<rparr>"

theorem live_costs_witness: "jle (liveCloseCostsUsd sampleCloseCosts) (paperCloseCostsUsd sampleCloseCosts)"
proof -
  have "is_double (lcc_swapCostPct sampleCloseCosts)" by (simp add: sampleCloseCosts_def num_simps)
  then show ?thesis using live_costs_below_paper[of sampleCloseCosts] by blast
qed

theorem active_share_witness:
  "jle (activeShareEstimate \<lparr>as_positionSizeUsd = Fin 100, as_poolTvlUsd = Fin 1000,
     as_rangeHalfWidthBins = Fin 20, as_binStep = Fin 100\<rparr>) (Fin 1)"
  using active_share_fraction[of "\<lparr>as_positionSizeUsd = Fin 100, as_poolTvlUsd = Fin 1000,
     as_rangeHalfWidthBins = Fin 20, as_binStep = Fin 100\<rparr>"] by simp

lemma sample_concentration: "jmax (jdiv (Fin 2) (jmul (Fin 40000) BIN_STEP_BPS_TO_PCT)) (Fin 1) = Fin 1"
  by code_simp

lemma sample_share: "activeShareEstimate \<lparr>as_positionSizeUsd = Fin 256, as_poolTvlUsd = Fin 1024,
    as_rangeHalfWidthBins = Fin 20000, as_binStep = Fin 1\<rparr> = Fin (1 / 4)"
  by (simp add: activeShareEstimate_def Let_def finitePositive_def num_simps
      FEE_CAPTURE_REFERENCE_SPAN_PCT_def sample_concentration)

definition sampleRunner :: NetFeeWithCostsParams where
  "sampleRunner = \<lparr>nfc_fees24hUsd = Fin 1024, nfc_poolTvlUsd = Fin 1024, nfc_positionSizeUsd = Fin 256,
     nfc_rangeHalfWidthBins = Fin 20000, nfc_binStep = Fin 1, nfc_volatilityStddev = Fin 0,
     nfc_swapCostPct = Fin 0, nfc_harvestCostUsd = Fin 1, nfc_conversionCostPct = Some (Fin 0),
     nfc_timeInRangePct = Fin 1, nfc_maxExitsPerDay = Fin 144\<rparr>"

lemma sampleRunner_velocity: "netFeeVelocityUsdWithCosts sqrtf sampleRunner = Fin (255 / 256)"
  by (simp add: netFeeVelocityUsdWithCosts_def nfc_captured_def nfc_churn_def churnCostDailyUsd_def
      expectedOorExitsPerDay_def sampleRunner_def sample_share Let_def finitePositive_def allFinite_def
      clamp01_def jsub_def num_simps)

lemma sampleRunner_profitable: "profitableRunner sqrtf sampleRunner (Fin (1 / 2))"
  by (simp add: profitableRunner_def runnerNetDailyPctAfterCosts_def sampleRunner_velocity num_simps)

theorem profitable_runner_witness:
  "jlt (nfc_churn (\<lambda>_. Fin 1) sampleRunner)
     (jsub (nfc_captured sampleRunner) (jmax (nfc_harvestCostUsd sampleRunner) (Fin 0)))"
  using profitable_runner_no_bleed[OF sampleRunner_profitable] by simp

definition sampleEntry :: ExpectedProfitParams where
  "sampleEntry = \<lparr>ep_dailyFeesUsd = Fin 1024, ep_positionSizeUsd = Fin 256, ep_poolTvlUsd = Fin 1024,
     ep_rangeHalfWidthBins = Fin 20000, ep_binStep = Fin 1, ep_volatilityStddev = Fin 0,
     ep_swapCostPct = Fin 0, ep_harvestCostUsd = Fin 1, ep_conversionCostPct = Fin 0,
     ep_holdingDays = Fin 3, ep_txCostUsd = Fin 1, ep_timeInRangePct = None,
     ep_maxExitsPerDay = Some (Fin 144)\<rparr>"

lemma sampleEntry_profit: "expectedNetProfitUsd sqrtf sampleEntry = Some (Fin 763)"
  using sampleRunner_velocity[of sqrtf]
  by (simp add: expectedNetProfitUsd_def validExpectedProfitInputs_def sampleEntry_def
      sampleRunner_def ep_roundTrip_def Let_def finitePositive_def allFinite_def clamp01_def
      jsub_def num_simps)

theorem profit_covers_witness: "jlt (Fin 0) (ep_dailyFeesUsd sampleEntry)"
  using profit_covers_round_trip [OF refl refl refl, THEN conjunct2, rule_format,
      OF sampleEntry_profit [of "\<lambda>x. x"]] by simp

end
