(* ===== verification/PnlAccounting.thy ===== *)
theory PnlAccounting
  imports FeeCapture
begin

text \<open>
  Profit and loss (\<^verbatim>\<open>engine/pnl.ts\<close>): the analytics of a position, realized profit at close, the
  cost basis after compounding, the equity of the portfolio and the mark of a paper position as
  concentrated liquidity.  \<^verbatim>\<open>Math.sqrt\<close> and \<^verbatim>\<open>Math.pow\<close> are the parameters \<open>sqrtf\<close> and \<open>powf\<close>.
\<close>

section \<open>Position analytics\<close>

definition YEAR_MS :: jsnum where
  "YEAR_MS = Fin 31536000000"

record PositionAnalyticsInput =
  pai_depositedUsd :: jsnum
  pai_currentValueUsd :: jsnum
  pai_cumulativeFeesClaimedUsd :: jsnum
  pai_cumulativeRewardsClaimedUsd :: "jsnum option"
  pai_entryPriceUsd :: "jsnum option"
  pai_entryAmountXUsd :: "jsnum option"
  pai_entryAmountYUsd :: "jsnum option"
  pai_openedAtMs :: jsnum
  pai_outOfRangeSinceMs :: "jsnum option"

record PositionAnalytics =
  pa_costBasisUsd :: jsnum
  pa_unrealizedPnlUsd :: jsnum
  pa_unrealizedPnlPct :: jsnum
  pa_feesClaimedUsd :: jsnum
  pa_rewardsClaimedUsd :: jsnum
  pa_hodlValueUsd :: "jsnum option"
  pa_ilVsHodlUsd :: "jsnum option"
  pa_timeInRangePct :: "jsnum option"
  pa_feeAprPct :: "jsnum option"
  pa_ageMs :: jsnum

definition computeHodlValueUsd :: "jsnum \<Rightarrow> jsnum \<Rightarrow> jsnum \<Rightarrow> jsnum \<Rightarrow> jsnum option" where
  "computeHodlValueUsd entryAmountXUsd entryAmountYUsd entryPriceUsd currentPriceUsd =
     (if \<not> jgt entryPriceUsd (Fin 0) then None
      else Some (jadd (jmul entryAmountXUsd (jdiv currentPriceUsd entryPriceUsd)) entryAmountYUsd))"

definition computeFeeAprPct :: "jsnum \<Rightarrow> jsnum \<Rightarrow> jsnum \<Rightarrow> jsnum option" where
  "computeFeeAprPct feesClaimedUsd costBasisUsd ageMs =
     (if jle costBasisUsd (Fin 0) \<or> jle ageMs (Fin 0) then None
      else Some (jmul (jmul (jdiv feesClaimedUsd costBasisUsd) (jdiv YEAR_MS ageMs)) (Fin 100)))"

definition computeTimeInRangePct :: "jsnum \<Rightarrow> jsnum option \<Rightarrow> jsnum \<Rightarrow> jsnum option" where
  "computeTimeInRangePct ageMs outOfRangeSinceMs nowMs =
     (if jle ageMs (Fin 0) then None
      else
        let oorMs = (case outOfRangeSinceMs of Some since \<Rightarrow> jmax (Fin 0) (jsub nowMs since)
                     | None \<Rightarrow> Fin 0);
            ratio = jmax (Fin 0) (jsub (Fin 1) (jdiv oorMs ageMs))
        in Some (jmul ratio (Fin 100)))"

definition computePositionAnalytics ::
  "PositionAnalyticsInput \<Rightarrow> jsnum option \<Rightarrow> jsnum \<Rightarrow> PositionAnalytics" where
  "computePositionAnalytics inp currentPriceUsd nowMs =
     (let ageMs = jmax (Fin 0) (jsub nowMs (pai_openedAtMs inp));
          rewardsUsd = nullish (pai_cumulativeRewardsClaimedUsd inp) (Fin 0);
          unrealizedPnlUsd =
            jsub (jadd (jadd (pai_currentValueUsd inp) (pai_cumulativeFeesClaimedUsd inp)) rewardsUsd)
              (pai_depositedUsd inp);
          unrealizedPnlPct =
            (if jgt (pai_depositedUsd inp) (Fin 0)
             then jmul (jdiv unrealizedPnlUsd (pai_depositedUsd inp)) (Fin 100) else Fin 0);
          hodlValueUsd =
            (case (pai_entryPriceUsd inp, pai_entryAmountXUsd inp, pai_entryAmountYUsd inp,
                currentPriceUsd) of
               (Some p, Some x, Some y, Some c) \<Rightarrow> computeHodlValueUsd x y p c
             | _ \<Rightarrow> None)
      in \<lparr>pa_costBasisUsd = pai_depositedUsd inp,
          pa_unrealizedPnlUsd = unrealizedPnlUsd,
          pa_unrealizedPnlPct = unrealizedPnlPct,
          pa_feesClaimedUsd = pai_cumulativeFeesClaimedUsd inp,
          pa_rewardsClaimedUsd = rewardsUsd,
          pa_hodlValueUsd = hodlValueUsd,
          pa_ilVsHodlUsd = map_option (jsub (pai_currentValueUsd inp)) hodlValueUsd,
          pa_timeInRangePct = computeTimeInRangePct ageMs (pai_outOfRangeSinceMs inp) nowMs,
          pa_feeAprPct = computeFeeAprPct (pai_cumulativeFeesClaimedUsd inp) (pai_depositedUsd inp) ageMs,
          pa_ageMs = ageMs\<rparr>)"

section \<open>Realized profit and cost basis\<close>

definition computeRealizedPnlUsd :: "jsnum \<Rightarrow> jsnum \<Rightarrow> jsnum \<Rightarrow> jsnum \<Rightarrow> jsnum" where
  "computeRealizedPnlUsd finalValueUsd cumulativeFeesClaimedUsd costBasisUsd cumulativeRewardsClaimedUsd =
     jsub (jadd (jadd finalValueUsd cumulativeFeesClaimedUsd) cumulativeRewardsClaimedUsd) costBasisUsd"

record NetRealizedPnlInput =
  nrp_finalValueUsd :: jsnum
  nrp_cumulativeFeesClaimedUsd :: jsnum
  nrp_cumulativeRewardsClaimedUsd :: jsnum
  nrp_costBasisUsd :: jsnum
  nrp_settlementCostUsd :: jsnum
  nrp_executionCostUsd :: jsnum

definition computeNetRealizedPnlUsd :: "NetRealizedPnlInput \<Rightarrow> jsnum" where
  "computeNetRealizedPnlUsd inp =
     jsub (jsub (computeRealizedPnlUsd (nrp_finalValueUsd inp) (nrp_cumulativeFeesClaimedUsd inp)
             (nrp_costBasisUsd inp) (nrp_cumulativeRewardsClaimedUsd inp))
           (nrp_settlementCostUsd inp)) (nrp_executionCostUsd inp)"

record CompoundCostBasisResult =
  ccb_depositedUsd :: jsnum
  ccb_currentValueUsd :: jsnum
  ccb_highestValueUsd :: jsnum

record CompoundCostBasisInput =
  cci_depositedUsd :: jsnum
  cci_currentValueUsd :: jsnum
  cci_highestValueUsd :: "jsnum option"
  cci_compoundedFeesUsd :: jsnum

definition applyCompoundToCostBasis :: "CompoundCostBasisInput \<Rightarrow> CompoundCostBasisResult" where
  "applyCompoundToCostBasis inp =
     (let depositedUsd = jadd (cci_depositedUsd inp) (cci_compoundedFeesUsd inp);
          currentValueUsd = jadd (cci_currentValueUsd inp) (cci_compoundedFeesUsd inp);
          highest = jmax (nullish (cci_highestValueUsd inp) (cci_depositedUsd inp)) currentValueUsd
      in \<lparr>ccb_depositedUsd = depositedUsd, ccb_currentValueUsd = currentValueUsd,
          ccb_highestValueUsd = highest\<rparr>)"

section \<open>Portfolio equity\<close>

record EquityPosition =
  eqp_currentValueUsd :: jsnum
  eqp_depositedUsd :: jsnum
  eqp_cumulativeFeesClaimedUsd :: jsnum
  eqp_cumulativeRewardsClaimedUsd :: "jsnum option"

record PortfolioEquityInput =
  pei_walletBalanceUsd :: "jsnum option"
  pei_positions :: "EquityPosition list"

record PortfolioEquity =
  peq_positionsValueUsd :: jsnum
  peq_walletBalanceUsd :: jsnum
  peq_totalEquityUsd :: jsnum
  peq_totalDepositedUsd :: jsnum
  peq_totalFeesClaimedUsd :: jsnum
  peq_totalRewardsClaimedUsd :: jsnum
  peq_unrealizedPnlUsd :: jsnum
  peq_unrealizedPnlPct :: jsnum
  peq_walletKnown :: bool

text \<open>\<^verbatim>\<open>xs.reduce((s, x) => Number.isFinite(f x) ? s + f x : s, 0)\<close>.\<close>

definition sum_finite :: "('a \<Rightarrow> jsnum) \<Rightarrow> 'a list \<Rightarrow> jsnum" where
  "sum_finite f xs = foldl (\<lambda>s x. if is_finite (f x) then jadd s (f x) else s) (Fin 0) xs"

definition computePortfolioEquity :: "PortfolioEquityInput \<Rightarrow> PortfolioEquity" where
  "computePortfolioEquity inp =
     (let positionsValueUsd = sum_finite eqp_currentValueUsd (pei_positions inp);
          totalDepositedUsd = sum_finite eqp_depositedUsd (pei_positions inp);
          totalFeesClaimedUsd = sum_finite eqp_cumulativeFeesClaimedUsd (pei_positions inp);
          totalRewardsClaimedUsd =
            sum_finite (\<lambda>p. nullish (eqp_cumulativeRewardsClaimedUsd p) (Fin 0)) (pei_positions inp);
          walletKnown = (case pei_walletBalanceUsd inp of None \<Rightarrow> False | Some b \<Rightarrow> is_finite b);
          walletBalanceUsd = (if walletKnown then nullish (pei_walletBalanceUsd inp) (Fin 0) else Fin 0);
          unrealizedPnlUsd =
            jsub (jadd (jadd positionsValueUsd totalFeesClaimedUsd) totalRewardsClaimedUsd)
              totalDepositedUsd
      in \<lparr>peq_positionsValueUsd = positionsValueUsd,
          peq_walletBalanceUsd = walletBalanceUsd,
          peq_totalEquityUsd = jadd positionsValueUsd walletBalanceUsd,
          peq_totalDepositedUsd = totalDepositedUsd,
          peq_totalFeesClaimedUsd = totalFeesClaimedUsd,
          peq_totalRewardsClaimedUsd = totalRewardsClaimedUsd,
          peq_unrealizedPnlUsd = unrealizedPnlUsd,
          peq_unrealizedPnlPct =
            (if jgt totalDepositedUsd (Fin 0)
             then jmul (jdiv unrealizedPnlUsd totalDepositedUsd) (Fin 100) else Fin 0),
          peq_walletKnown = walletKnown\<rparr>)"

section \<open>Concentrated-liquidity valuation\<close>

record BinRangePrices =
  brp_pa :: jsnum
  brp_pb :: jsnum

record ClmmPositionValue =
  clmm_lpValueUsd :: jsnum
  clmm_hodlValueUsd :: jsnum

record ClmmArgs =
  cl_sizeUsd :: jsnum
  cl_anchorPrice :: jsnum
  cl_anchorBinId :: jsnum
  cl_currentPrice :: jsnum
  cl_lowerBinId :: jsnum
  cl_upperBinId :: jsnum
  cl_binStep :: jsnum
  cl_entryAmountXUsd :: "jsnum option"
  cl_entryAmountYUsd :: "jsnum option"

definition binRangePrices :: "(jsnum \<Rightarrow> jsnum \<Rightarrow> jsnum) \<Rightarrow> ClmmArgs \<Rightarrow> BinRangePrices" where
  "binRangePrices powf args =
     (let s = jadd (Fin 1) (jdiv (cl_binStep args) (Fin 10000));
          pa = jmul (cl_anchorPrice args) (powf s (jsub (cl_lowerBinId args) (cl_anchorBinId args)));
          pb = jmul (cl_anchorPrice args) (powf s (jsub (cl_upperBinId args) (cl_anchorBinId args)))
      in \<lparr>brp_pa = (if jgt pa (Fin 0) then pa else Fin 1),
          brp_pb = (if jgt pb (Fin 0) then pb else Fin 1)\<rparr>)"

definition markPerLiquidity :: "jsnum \<Rightarrow> jsnum \<Rightarrow> jsnum \<Rightarrow> jsnum \<Rightarrow> jsnum" where
  "markPerLiquidity s a b p1 =
     (if \<not> jgt b a then Fin 0
      else if jle s a then jmul (jsub (jdiv (Fin 1) a) (jdiv (Fin 1) b)) p1
      else if jge s b then jsub b a
      else jadd (jmul (jsub (jdiv (Fin 1) s) (jdiv (Fin 1) b)) p1) (jsub s a))"

definition resolveClmmFundedLegs :: "ClmmArgs \<Rightarrow> jsnum \<times> jsnum" where
  "resolveClmmFundedLegs args =
     (case (cl_entryAmountXUsd args, cl_entryAmountYUsd args) of
        (Some x, Some y) \<Rightarrow>
          if is_finite x \<and> is_finite y \<and> jge x (Fin 0) \<and> jge y (Fin 0) \<and> jgt (jadd x y) (Fin 0)
          then (x, y)
          else (jdiv (cl_sizeUsd args) (Fin 2), jdiv (cl_sizeUsd args) (Fin 2))
      | _ \<Rightarrow> (jdiv (cl_sizeUsd args) (Fin 2), jdiv (cl_sizeUsd args) (Fin 2)))"

definition clmmPositionValue ::
  "(jsnum \<Rightarrow> jsnum) \<Rightarrow> (jsnum \<Rightarrow> jsnum \<Rightarrow> jsnum) \<Rightarrow> ClmmArgs \<Rightarrow> ClmmPositionValue" where
  "clmmPositionValue sqrtf powf args =
     (let r = binRangePrices powf args; pa = brp_pa r; pb = brp_pb r;
          p0 = cl_anchorPrice args; p1 = cl_currentPrice args
      in if \<not> jgt p0 (Fin 0) \<or> \<not> jgt p1 (Fin 0) \<or> \<not> jgt pb pa
         then \<lparr>clmm_lpValueUsd = cl_sizeUsd args, clmm_hodlValueUsd = cl_sizeUsd args\<rparr>
         else
           let (xUsd, yUsd) = resolveClmmFundedLegs args;
               x0 = jdiv xUsd p0; y0 = yUsd; a = sqrtf pa; b = sqrtf pb; s0 = sqrtf p0;
               fundedUsd = jadd xUsd yUsd;
               anchorPerL = markPerLiquidity s0 a b p0;
               L = (if jgt anchorPerL (Fin 0) \<and> jgt fundedUsd (Fin 0) then jdiv fundedUsd anchorPerL
                    else Fin 0);
               hodlValueUsd = jadd (jmul x0 p1) y0
           in if \<not> jgt L (Fin 0)
              then \<lparr>clmm_lpValueUsd = cl_sizeUsd args, clmm_hodlValueUsd = hodlValueUsd\<rparr>
              else
                let sp = sqrtf p1;
                    (x, y) =
                      (if jle p1 pa then (jmul L (jsub (jdiv (Fin 1) a) (jdiv (Fin 1) b)), Fin 0)
                       else if jge p1 pb then (Fin 0, jmul L (jsub b a))
                       else (jmul L (jsub (jdiv (Fin 1) sp) (jdiv (Fin 1) b)), jmul L (jsub sp a)));
                    lpValueUsd = jadd (jmul x p1) y
                in \<lparr>clmm_lpValueUsd = jmax (Fin 0) (jmin lpValueUsd hodlValueUsd),
                    clmm_hodlValueUsd = hodlValueUsd\<rparr>)"

record PaperClmmMarkInput =
  pcm_depositedUsd :: jsnum
  pcm_entryPriceUsd :: "jsnum option"
  pcm_anchorBinId :: "jsnum option"
  pcm_currentPrice :: jsnum
  pcm_lowerBinId :: jsnum
  pcm_upperBinId :: jsnum
  pcm_binStep :: jsnum
  pcm_entryAmountXUsd :: "jsnum option"
  pcm_entryAmountYUsd :: "jsnum option"
  pcm_valuationAnchorPriceUsd :: "jsnum option"
  pcm_valuationAnchorBinId :: "jsnum option"
  pcm_valuationAnchorValueUsd :: "jsnum option"

definition originalEntryLegsForMark ::
  "PaperClmmMarkInput \<Rightarrow> jsnum \<Rightarrow> (jsnum \<times> jsnum) option" where
  "originalEntryLegsForMark args anchorValueUsd =
     (case (pcm_entryAmountXUsd args, pcm_entryAmountYUsd args) of
        (Some x, Some y) \<Rightarrow>
          if \<not> is_finite x \<or> \<not> is_finite y \<or> jlt x (Fin 0) \<or> jlt y (Fin 0)
             \<or> \<not> is_finite anchorValueUsd
             \<or> jgt (jabs (jsub (jadd x y) anchorValueUsd))
                 (jmax (fl (1 / 10 ^ 9)) (jmul (jabs anchorValueUsd) (fl (1 / 10 ^ 9))))
          then None else Some (x, y)
      | _ \<Rightarrow> None)"

definition hasClmmEntryAnchor :: "jsnum option \<Rightarrow> jsnum option \<Rightarrow> jsnum \<Rightarrow> jsnum \<Rightarrow> bool" where
  "hasClmmEntryAnchor entryPriceUsd anchorBinId lowerBinId upperBinId =
     (case (entryPriceUsd, anchorBinId) of
        (Some p, Some b) \<Rightarrow> jgt p (Fin 0) \<and> is_finite b \<and> jge b lowerBinId \<and> jle b upperBinId
      | _ \<Rightarrow> False)"

definition isClmmMarketPriced :: "jsnum \<Rightarrow> PaperClmmMarkInput \<Rightarrow> bool" where
  "isClmmMarketPriced depositedUsd args \<longleftrightarrow>
     jgt depositedUsd (Fin 0) \<and> jgt (pcm_currentPrice args) (Fin 0) \<and>
     is_finite (pcm_currentPrice args) \<and> jgt (pcm_binStep args) (Fin 0) \<and>
     jgt (pcm_upperBinId args) (pcm_lowerBinId args)"

definition first_known :: "'a option \<Rightarrow> 'a option \<Rightarrow> 'a option" where
  "first_known a b = (case a of None \<Rightarrow> b | Some x \<Rightarrow> Some x)"

definition paper_clmm_args :: "PaperClmmMarkInput \<Rightarrow> jsnum \<Rightarrow> jsnum \<Rightarrow> ClmmArgs" where
  "paper_clmm_args args p b =
     (let anchorValueUsd = nullish (pcm_valuationAnchorValueUsd args) (pcm_depositedUsd args);
          legs = originalEntryLegsForMark args anchorValueUsd
      in \<lparr>cl_sizeUsd = anchorValueUsd, cl_anchorPrice = p, cl_anchorBinId = b,
          cl_currentPrice = pcm_currentPrice args,
          cl_lowerBinId = pcm_lowerBinId args, cl_upperBinId = pcm_upperBinId args,
          cl_binStep = pcm_binStep args,
          cl_entryAmountXUsd = map_option fst legs,
          cl_entryAmountYUsd = map_option snd legs\<rparr>)"

definition paperClmmMarkUsd ::
  "(jsnum \<Rightarrow> jsnum) \<Rightarrow> (jsnum \<Rightarrow> jsnum \<Rightarrow> jsnum) \<Rightarrow> PaperClmmMarkInput \<Rightarrow> jsnum option" where
  "paperClmmMarkUsd sqrtf powf args =
     (let anchorPriceUsd = first_known (pcm_valuationAnchorPriceUsd args) (pcm_entryPriceUsd args);
          anchorBinId = first_known (pcm_valuationAnchorBinId args) (pcm_anchorBinId args);
          anchorValueUsd = nullish (pcm_valuationAnchorValueUsd args) (pcm_depositedUsd args)
      in case (anchorPriceUsd, anchorBinId) of
           (Some p, Some b) \<Rightarrow>
             if \<not> hasClmmEntryAnchor (Some p) (Some b) (pcm_lowerBinId args) (pcm_upperBinId args)
                \<or> \<not> isClmmMarketPriced anchorValueUsd args
             then None
             else
               let lpValueUsd =
                     clmm_lpValueUsd (clmmPositionValue sqrtf powf (paper_clmm_args args p b))
               in if is_finite lpValueUsd \<and> jge lpValueUsd (Fin 0) then Some lpValueUsd else None
         | _ \<Rightarrow> None)"

section \<open>Time in range\<close>

lemma pct_of_ratio:
  assumes "jle (Fin 0) r" "jle r (Fin 1)"
  shows "jle (Fin 0) (jmul r (Fin 100)) \<and> jle (jmul r (Fin 100)) (Fin 100)"
proof -
  obtain x where x: "r = Fin x" using assms by (metis is_finite_iff jle_finite_between)
  have "0 \<le> x" "x \<le> 1" using assms x by auto
  then show ?thesis using fl_ge [of 0 "x * 100"] fl_le [of "x * 100" 100] x
    by (simp add: num_simps)
qed

lemma time_ratio_bounds:
  assumes "0 < a" "jle (Fin 0) d"
  shows "jle (Fin 0) (jmax (Fin 0) (jsub (Fin 1) (jdiv d (Fin a)))) \<and>
    jle (jmax (Fin 0) (jsub (Fin 1) (jdiv d (Fin a)))) (Fin 1)"
proof -
  have "jdiv d (Fin a) \<noteq> NaN"
    using assms jle_not_NaN by (intro jdiv_finite_pos_not_NaN) auto
  then have q: "jle (Fin 0) (jdiv d (Fin a))" using assms by (intro jdiv_nonneg) auto
  have n: "jsub (Fin 1) (jdiv d (Fin a)) \<noteq> NaN"
    using jle_not_NaN [OF q] by (cases "jdiv d (Fin a)") (auto simp: jsub_def)
  have "jle (jsub (Fin 1) (jdiv d (Fin a))) (Fin 1)"
    by (rule jsub_le_left [OF _ q n]) (simp add: num_simps)
  then show ?thesis using jmax_ge1 n by (simp add: jmax_jle_iff)
qed

text \<open>
  The analytics of a position with finite timestamps never report a negative age, and the time in
  range they report, which is there exactly when the age is positive, lies between 0 and 100
  percent; a position that was never out of range has been in range for all of its life.
\<close>
theorem analytics_time_in_range:
  assumes "pai_openedAtMs inp = Fin t" "\<And>s. pai_outOfRangeSinceMs inp = Some s \<Longrightarrow> is_finite s"
  shows "jle (Fin 0) (pa_ageMs (computePositionAnalytics inp price (Fin now))) \<and>
    (case pa_timeInRangePct (computePositionAnalytics inp price (Fin now)) of
       None \<Rightarrow> pa_ageMs (computePositionAnalytics inp price (Fin now)) = Fin 0
     | Some r \<Rightarrow> is_finite (pa_ageMs (computePositionAnalytics inp price (Fin now))) \<longrightarrow>
         jle (Fin 0) r \<and> jle r (Fin 100) \<and>
         (pai_outOfRangeSinceMs inp = None \<longrightarrow> r = Fin 100))"
proof -
  define age where "age = jmax (Fin 0) (jsub (Fin now) (Fin t))"
  define d where "d = (case pai_outOfRangeSinceMs inp of Some since \<Rightarrow> jmax (Fin 0) (jsub (Fin now) since)
                     | None \<Rightarrow> Fin 0)"
  have n: "jsub (Fin now) (Fin t) \<noteq> NaN" by (rule jsub_finite_not_NaN) auto
  have age: "jle (Fin 0) age" using jmax_ge1 n by (simp add: age_def)
  have d: "jle (Fin 0) d"
  proof (cases "pai_outOfRangeSinceMs inp")
    case (Some s)
    then have "jsub (Fin now) s \<noteq> NaN" using assms(2) by (intro jsub_finite_not_NaN) auto
    then show ?thesis using jmax_ge1 Some by (simp add: d_def)
  qed (simp add: d_def)
  have A: "pa_ageMs (computePositionAnalytics inp price (Fin now)) = age"
    using assms(1) by (simp add: computePositionAnalytics_def Let_def age_def)
  have T: "pa_timeInRangePct (computePositionAnalytics inp price (Fin now)) =
      (if jle age (Fin 0) then None
       else Some (jmul (jmax (Fin 0) (jsub (Fin 1) (jdiv d age))) (Fin 100)))"
    using assms(1) by (simp add: computePositionAnalytics_def computeTimeInRangePct_def Let_def
        age_def d_def)
  show ?thesis
  proof (cases "jle age (Fin 0)")
    case True
    then have "age = Fin 0" using age jle_antisym by blast
    then show ?thesis by (simp add: A T)
  next
    case False
    have "jle (Fin 0) (jmul (jmax (Fin 0) (jsub (Fin 1) (jdiv d age))) (Fin 100)) \<and>
        jle (jmul (jmax (Fin 0) (jsub (Fin 1) (jdiv d age))) (Fin 100)) (Fin 100) \<and>
        (pai_outOfRangeSinceMs inp = None \<longrightarrow>
          jmul (jmax (Fin 0) (jsub (Fin 1) (jdiv d age))) (Fin 100) = Fin 100)"
      if fin: "is_finite age"
    proof -
      obtain a where a: "age = Fin a" using fin is_finite_iff [of age] by blast
      with False age have "0 < a" by simp
      note ratio = time_ratio_bounds [OF this d]
      note pct = pct_of_ratio [OF ratio [THEN conjunct1] ratio [THEN conjunct2]]
      have "jmul (jmax (Fin 0) (jsub (Fin 1) (jdiv d (Fin a)))) (Fin 100) = Fin 100"
        if "pai_outOfRangeSinceMs inp = None"
      proof -
        have "jdiv d (Fin a) = Fin 0" using \<open>0 < a\<close> that by (simp add: d_def)
        moreover have "jmul (jmax (Fin 0) (jsub (Fin 1) (Fin 0))) (Fin 100) = Fin 100" by code_simp
        ultimately show ?thesis by simp
      qed
      with pct show ?thesis by (simp add: a)
    qed
    then show ?thesis using False age by (simp add: A T)
  qed
qed

lemma analytics_time_in_range_witness:
  "case pa_timeInRangePct (computePositionAnalytics
      \<lparr>pai_depositedUsd = Fin 100, pai_currentValueUsd = Fin 110,
       pai_cumulativeFeesClaimedUsd = Fin 2, pai_cumulativeRewardsClaimedUsd = None,
       pai_entryPriceUsd = None, pai_entryAmountXUsd = None, pai_entryAmountYUsd = None,
       pai_openedAtMs = Fin 1000, pai_outOfRangeSinceMs = Some (Fin 4000)\<rparr> None (Fin 5000)) of
     None \<Rightarrow> False | Some r \<Rightarrow> jle (Fin 0) r \<and> jle r (Fin 100)"
proof -
  let ?i = "\<lparr>pai_depositedUsd = Fin 100, pai_currentValueUsd = Fin 110,
       pai_cumulativeFeesClaimedUsd = Fin 2, pai_cumulativeRewardsClaimedUsd = None,
       pai_entryPriceUsd = None, pai_entryAmountXUsd = None, pai_entryAmountYUsd = None,
       pai_openedAtMs = Fin 1000, pai_outOfRangeSinceMs = Some (Fin 4000)\<rparr>"
  have a: "pa_ageMs (computePositionAnalytics ?i None (Fin 5000)) = Fin 4000"
    by (simp add: computePositionAnalytics_def Let_def jsub_def num_simps)
  show ?thesis
    using analytics_time_in_range [of ?i 1000 None 5000] unfolding a
    by (simp split: option.splits)
qed

section \<open>Cost basis after compounding\<close>

text \<open>
  Folding compounded fees into a position moves its cost basis and its value by the same amount:
  when the additions are exact in doubles, its unrealized profit is unchanged, and the recorded
  peak becomes a value not below the old peak (the old deposit when none was kept) nor the new
  current value.
\<close>
theorem compounding_keeps_profit:
  assumes "cci_depositedUsd inp = Fin d" "cci_currentValueUsd inp = Fin v"
    "cci_compoundedFeesUsd inp = Fin c"
    "rnd64 (d + c) = d + c" "rnd64 (v + c) = v + c"
    "is_finite (fl (d + c))" "is_finite (fl (v + c))"
    "cci_highestValueUsd inp \<noteq> Some NaN"
  shows "jsub (ccb_currentValueUsd (applyCompoundToCostBasis inp))
      (ccb_depositedUsd (applyCompoundToCostBasis inp)) = jsub (Fin v) (Fin d) \<and>
    jle (nullish (cci_highestValueUsd inp) (Fin d)) (ccb_highestValueUsd (applyCompoundToCostBasis inp)) \<and>
    jle (ccb_currentValueUsd (applyCompoundToCostBasis inp))
      (ccb_highestValueUsd (applyCompoundToCostBasis inp))"
proof -
  have e: "fl (d + c) = Fin (d + c)" "fl (v + c) = Fin (v + c)"
    using assms(4-7) fl_FinD by (metis is_finite_iff)+
  have n: "jmax (nullish (cci_highestValueUsd inp) (Fin d)) (Fin (v + c)) \<noteq> NaN"
    using assms(8) by (cases "cci_highestValueUsd inp") (auto simp: nullish_def)
  show ?thesis using n jmax_ge1 [OF n] jmax_ge2 [OF n]
    by (simp add: applyCompoundToCostBasis_def assms(1-3) e jsub_def Let_def)
qed

lemma compounding_keeps_profit_witness:
  "jsub (ccb_currentValueUsd (applyCompoundToCostBasis
      \<lparr>cci_depositedUsd = Fin 100, cci_currentValueUsd = Fin 120, cci_highestValueUsd = None,
       cci_compoundedFeesUsd = Fin (1 / 2)\<rparr>))
    (ccb_depositedUsd (applyCompoundToCostBasis
      \<lparr>cci_depositedUsd = Fin 100, cci_currentValueUsd = Fin 120, cci_highestValueUsd = None,
       cci_compoundedFeesUsd = Fin (1 / 2)\<rparr>)) = jsub (Fin 120) (Fin 100)"
proof -
  have "rnd64 (100 + 1 / 2) = 100 + 1 / 2" "rnd64 (120 + 1 / 2) = 120 + 1 / 2"
    "is_finite (fl (100 + 1 / 2))" "is_finite (fl (120 + 1 / 2))" by code_simp+
  then show ?thesis
    using compounding_keeps_profit
      [of "\<lparr>cci_depositedUsd = Fin 100, cci_currentValueUsd = Fin 120, cci_highestValueUsd = None,
       cci_compoundedFeesUsd = Fin (1 / 2)\<rparr>" 100 120 "1 / 2"] by simp
qed

section \<open>Portfolio equity ignores unreadable marks\<close>

lemma sum_finite_jsum: "sum_finite f xs = jsum (filter is_finite (map f xs))"
proof -
  have "foldl (\<lambda>s x. if is_finite (f x) then jadd s (f x) else s) a xs
      = foldl jadd a (filter is_finite (map f xs))" for a
    by (induction xs arbitrary: a) simp_all
  then show ?thesis by (simp add: sum_finite_def jsum_def)
qed

lemma sum_finite_not_NaN: "sum_finite f xs \<noteq> NaN"
  by (simp add: sum_finite_jsum jsum_finite_not_NaN)

lemma jadd_finite_not_NaN: "is_finite b \<Longrightarrow> a \<noteq> NaN \<Longrightarrow> jadd a b \<noteq> NaN"
  by (cases a; cases b) auto

text \<open>
  The reported equity of the portfolio is a number whatever marks the positions carry: a mark
  that is not finite counts for nothing, the wallet enters the total only when its balance was read
  as a finite number and is otherwise reported as unknown, and the unrealized profit does not depend
  on the wallet at all.
\<close>
theorem equity_readable:
  "peq_totalEquityUsd (computePortfolioEquity \<lparr>pei_walletBalanceUsd = w, pei_positions = ps\<rparr>) \<noteq> NaN \<and>
   peq_positionsValueUsd (computePortfolioEquity \<lparr>pei_walletBalanceUsd = w, pei_positions = ps\<rparr>) =
     jsum (filter is_finite (map eqp_currentValueUsd ps)) \<and>
   (peq_walletKnown (computePortfolioEquity \<lparr>pei_walletBalanceUsd = w, pei_positions = ps\<rparr>) \<longleftrightarrow>
     (\<exists>b. w = Some (Fin b))) \<and>
   (\<not> peq_walletKnown (computePortfolioEquity \<lparr>pei_walletBalanceUsd = w, pei_positions = ps\<rparr>) \<longrightarrow>
     peq_walletBalanceUsd (computePortfolioEquity \<lparr>pei_walletBalanceUsd = w, pei_positions = ps\<rparr>) = Fin 0) \<and>
   peq_unrealizedPnlUsd (computePortfolioEquity \<lparr>pei_walletBalanceUsd = w, pei_positions = ps\<rparr>) =
     peq_unrealizedPnlUsd (computePortfolioEquity \<lparr>pei_walletBalanceUsd = w', pei_positions = ps\<rparr>)"
proof (cases "\<exists>b. w = Some (Fin b)")
  case True
  then show ?thesis
    by (auto simp: computePortfolioEquity_def Let_def nullish_def sum_finite_jsum [symmetric]
        jadd_finite_not_NaN sum_finite_not_NaN)
next
  case False
  then have "(case w of None \<Rightarrow> False | Some b \<Rightarrow> is_finite b) = False"
    by (auto simp: is_finite_iff split: option.splits)
  with False show ?thesis
    by (auto simp: computePortfolioEquity_def Let_def sum_finite_jsum [symmetric]
        jadd_finite_not_NaN sum_finite_not_NaN)
qed

lemma equity_readable_witness:
  "peq_totalEquityUsd (computePortfolioEquity \<lparr>pei_walletBalanceUsd = Some NaN, pei_positions =
     [\<lparr>eqp_currentValueUsd = NaN, eqp_depositedUsd = Fin 10, eqp_cumulativeFeesClaimedUsd = Fin 0,
       eqp_cumulativeRewardsClaimedUsd = None\<rparr>]\<rparr>) \<noteq> NaN \<and>
   \<not> peq_walletKnown (computePortfolioEquity \<lparr>pei_walletBalanceUsd = Some NaN, pei_positions = []\<rparr>)"
  using equity_readable [of "Some NaN" "[\<lparr>eqp_currentValueUsd = NaN, eqp_depositedUsd = Fin 10,
      eqp_cumulativeFeesClaimedUsd = Fin 0, eqp_cumulativeRewardsClaimedUsd = None\<rparr>]"]
    equity_readable [of "Some NaN" "[]"] by simp

section \<open>The paper mark never beats holding the funds\<close>

lemma clmm_cases:
  "clmm_lpValueUsd (clmmPositionValue sqrtf powf args) = cl_sizeUsd args \<or>
   (jgt (cl_anchorPrice args) (Fin 0) \<and> jgt (cl_currentPrice args) (Fin 0) \<and>
    (\<exists>m. clmm_lpValueUsd (clmmPositionValue sqrtf powf args) =
        jmax (Fin 0) (jmin m (clmm_hodlValueUsd (clmmPositionValue sqrtf powf args)))) \<and>
    clmm_hodlValueUsd (clmmPositionValue sqrtf powf args) =
      jadd (jmul (jdiv (fst (resolveClmmFundedLegs args)) (cl_anchorPrice args)) (cl_currentPrice args))
        (snd (resolveClmmFundedLegs args)))"
  by (cases "resolveClmmFundedLegs args") (auto simp: clmmPositionValue_def Let_def)

lemma funded_legs_nonneg:
  assumes "jle (Fin 0) (cl_sizeUsd args)"
  shows "jle (Fin 0) (fst (resolveClmmFundedLegs args)) \<and> jle (Fin 0) (snd (resolveClmmFundedLegs args))"
proof -
  have "jle (Fin 0) (jdiv (cl_sizeUsd args) (Fin 2))"
    using assms by (cases "cl_sizeUsd args") (auto simp: fl_nonneg signed_inf_def)
  then show ?thesis by (auto simp: resolveClmmFundedLegs_def split: option.splits)
qed

lemma clmm_mark_bounded:
  assumes "jle (Fin 0) (cl_sizeUsd args)"
    "clmm_lpValueUsd (clmmPositionValue sqrtf powf args) \<noteq> NaN"
  shows "clmm_lpValueUsd (clmmPositionValue sqrtf powf args) = cl_sizeUsd args \<or>
    jle (clmm_lpValueUsd (clmmPositionValue sqrtf powf args))
      (jadd (jmul (jdiv (fst (resolveClmmFundedLegs args)) (cl_anchorPrice args)) (cl_currentPrice args))
        (snd (resolveClmmFundedLegs args)))"
proof (rule disjCI [THEN disj_commute [THEN iffD1]])
  let ?v = "clmmPositionValue sqrtf powf args"
  let ?h = "clmm_hodlValueUsd ?v"
  let ?q = "jmul (jdiv (fst (resolveClmmFundedLegs args)) (cl_anchorPrice args)) (cl_currentPrice args)"
  assume "clmm_lpValueUsd ?v \<noteq> cl_sizeUsd args"
  then obtain m where m: "clmm_lpValueUsd ?v = jmax (Fin 0) (jmin m ?h)"
    and pos: "jgt (cl_anchorPrice args) (Fin 0)" "jgt (cl_currentPrice args) (Fin 0)"
    and h: "?h = jadd ?q (snd (resolveClmmFundedLegs args))"
    using clmm_cases [of sqrtf powf args] by blast
  from assms(2) m have mn: "jmin m ?h \<noteq> NaN" and hn: "?h \<noteq> NaN" by auto
  from hn h have qn: "?q \<noteq> NaN" by auto
  from qn have dn: "jdiv (fst (resolveClmmFundedLegs args)) (cl_anchorPrice args) \<noteq> NaN" by auto
  note legs = funded_legs_nonneg [OF assms(1)]
  have "jle (Fin 0) (jdiv (fst (resolveClmmFundedLegs args)) (cl_anchorPrice args))"
    using legs pos dn by (intro jdiv_nonneg) (auto simp: jlt_imp_jle)
  then have "jle (Fin 0) ?q" using pos qn by (intro jmul_nonneg) (auto simp: jlt_imp_jle)
  then have "jle (Fin 0) ?h" using legs h jadd_nonneg by simp
  moreover have "jle (jmin m ?h) ?h" using mn by (rule jmin_le2)
  ultimately have "jle (jmax (Fin 0) (jmin m ?h)) ?h" by (simp add: jmax_jle_iff)
  then show "jle (clmm_lpValueUsd ?v) (jadd ?q (snd (resolveClmmFundedLegs args)))"
    using m h by simp
qed

text \<open>
  The reference for the mark.  A band from \<open>lo\<close> to \<open>hi\<close> holds, at a price inside it, the token
  amounts of the concentrated-liquidity formula; outside it, those of its nearer edge.  The
  liquidity is the one whose value at the anchor price is what was put in.
\<close>

definition holdLegs :: "PaperClmmMarkInput \<Rightarrow> jsnum \<Rightarrow> jsnum \<times> jsnum" where
  "holdLegs args w =
     (case (pcm_entryAmountXUsd args, pcm_entryAmountYUsd args) of
        (Some x, Some y) \<Rightarrow>
          if is_finite x \<and> is_finite y \<and> jle (Fin 0) x \<and> jle (Fin 0) y \<and> is_finite w \<and>
             jlt (Fin 0) (jadd x y) \<and>
             \<not> jlt (jmax (fl (1 / 10 ^ 9)) (jmul (jabs w) (fl (1 / 10 ^ 9)))) (jabs (jsub (jadd x y) w))
          then (x, y) else (jdiv w (Fin 2), jdiv w (Fin 2))
      | _ \<Rightarrow> (jdiv w (Fin 2), jdiv w (Fin 2)))"

definition holdValue :: "PaperClmmMarkInput \<Rightarrow> jsnum \<Rightarrow> jsnum \<Rightarrow> jsnum" where
  "holdValue args w p =
     jadd (jmul (jdiv (fst (holdLegs args w)) p) (pcm_currentPrice args)) (snd (holdLegs args w))"

definition edgePrice :: "(jsnum \<Rightarrow> jsnum \<Rightarrow> jsnum) \<Rightarrow> jsnum \<Rightarrow> jsnum \<Rightarrow> jsnum \<Rightarrow> jsnum" where
  "edgePrice powf p binStep bins =
     (let q = jmul p (powf (jadd (Fin 1) (jdiv binStep (Fin 10000))) bins)
      in if jlt (Fin 0) q then q else Fin 1)"

definition clampBand :: "jsnum \<Rightarrow> jsnum \<Rightarrow> jsnum \<Rightarrow> jsnum" where
  "clampBand lo hi x = (if jle x lo then lo else if jle hi x then hi else x)"

definition bandLiquidity ::
  "(jsnum \<Rightarrow> jsnum) \<Rightarrow> jsnum \<Rightarrow> jsnum \<Rightarrow> jsnum \<Rightarrow> jsnum \<Rightarrow> jsnum" where
  "bandLiquidity sqrtf lo hi p funded =
     (let a = sqrtf lo; b = sqrtf hi; c = clampBand a b (sqrtf p);
          u = jadd (jmul (jsub (jdiv (Fin 1) c) (jdiv (Fin 1) b)) p) (jsub c a)
      in if jlt a b \<and> jlt (Fin 0) u \<and> jlt (Fin 0) funded then jdiv funded u else Fin 0)"

definition bandValue ::
  "(jsnum \<Rightarrow> jsnum) \<Rightarrow> jsnum \<Rightarrow> jsnum \<Rightarrow> jsnum \<Rightarrow> jsnum \<Rightarrow> jsnum" where
  "bandValue sqrtf lo hi cur L =
     (let c = sqrtf (clampBand lo hi cur)
      in jadd (jmul (jmul L (jsub (jdiv (Fin 1) c) (jdiv (Fin 1) (sqrtf hi)))) cur)
           (jmul L (jsub c (sqrtf lo))))"

definition markable :: "PaperClmmMarkInput \<Rightarrow> jsnum \<Rightarrow> jsnum option \<Rightarrow> jsnum option \<Rightarrow> bool" where
  "markable args w anchorPrice anchorBin \<longleftrightarrow>
     (\<exists>p b. anchorPrice = Some p \<and> anchorBin = Some b \<and> jlt (Fin 0) p \<and> is_finite b \<and>
        jle (pcm_lowerBinId args) b \<and> jle b (pcm_upperBinId args)) \<and>
     jlt (pcm_lowerBinId args) (pcm_upperBinId args) \<and> jlt (Fin 0) w \<and>
     jlt (Fin 0) (pcm_currentPrice args) \<and> is_finite (pcm_currentPrice args) \<and>
     jlt (Fin 0) (pcm_binStep args)"

lemma funded_legs_hold:
  "resolveClmmFundedLegs (paper_clmm_args args p b) =
     holdLegs args (nullish (pcm_valuationAnchorValueUsd args) (pcm_depositedUsd args))"
  by (auto simp: resolveClmmFundedLegs_def paper_clmm_args_def holdLegs_def originalEntryLegsForMark_def
      Let_def is_finite_iff split: option.splits if_splits)

lemma jadd_0_double: "is_double a \<Longrightarrow> jadd a (Fin 0) = a"
  by (cases a) (auto simp: fl_exact)

lemma jadd_0_double_left: "is_double a \<Longrightarrow> jadd (Fin 0) a = a"
  using jadd_0_double by (simp add: jadd_commute)

lemma jsub_self: "is_finite a \<Longrightarrow> jsub a a = Fin 0"
  by (auto simp: is_finite_iff jsub_def)

lemma jmul_0: "is_finite a \<Longrightarrow> jmul a (Fin 0) = Fin 0" "is_finite a \<Longrightarrow> jmul (Fin 0) a = Fin 0"
  by (auto simp: is_finite_iff)

lemma unit_value_clamped:
  assumes "jlt a b" "is_finite a" "is_finite p"
    "jle b s \<Longrightarrow> is_finite (jdiv (Fin 1) b)"
  shows "markPerLiquidity s a b p =
    jadd (jmul (jsub (jdiv (Fin 1) (clampBand a b s)) (jdiv (Fin 1) b)) p) (jsub (clampBand a b s) a)"
  using assms by (auto simp: markPerLiquidity_def clampBand_def jadd_0_double jadd_0_double_left
      jsub_self jmul_0)


text \<open>What the source uses of \<^verbatim>\<open>Math.sqrt\<close>: on a positive number the root and its reciprocal are finite.\<close>

definition root_like :: "(jsnum \<Rightarrow> jsnum) \<Rightarrow> bool" where
  "root_like sqrtf \<longleftrightarrow> sqrtf PosInf = PosInf \<and>
     (\<forall>x. 0 < x \<longrightarrow> is_finite (sqrtf (Fin x)) \<and> is_finite (jdiv (Fin 1) (sqrtf (Fin x))))"

lemma root_likeD:
  assumes "root_like sqrtf" "jlt (Fin 0) x"
  shows "x = PosInf \<and> sqrtf x = PosInf \<or>
    is_finite x \<and> is_finite (sqrtf x) \<and> is_finite (jdiv (Fin 1) (sqrtf x))"
  using assms by (cases x) (auto simp: root_like_def)

lemma edgePrice_pos: "jlt (Fin 0) (edgePrice powf p st n)"
  by (simp add: edgePrice_def Let_def)

lemma bin_prices_edges:
  "brp_pa (binRangePrices powf args) =
     edgePrice powf (cl_anchorPrice args) (cl_binStep args) (jsub (cl_lowerBinId args) (cl_anchorBinId args))"
  "brp_pb (binRangePrices powf args) =
     edgePrice powf (cl_anchorPrice args) (cl_binStep args) (jsub (cl_upperBinId args) (cl_anchorBinId args))"
  by (simp_all add: binRangePrices_def edgePrice_def Let_def)

lemma anchor_liquidity_ref:
  assumes "root_like sqrtf" "jlt (Fin 0) lo" "jlt lo hi" "jlt (Fin 0) p" "is_finite p"
  shows "(let u = markPerLiquidity (sqrtf p) (sqrtf lo) (sqrtf hi) p
      in if jlt (Fin 0) u \<and> jlt (Fin 0) f then jdiv f u else Fin 0) = bandLiquidity sqrtf lo hi p f"
proof -
  have "jlt (Fin 0) hi" using assms(2,3) by (meson jlt_imp_jle jle_jlt_trans)
  note R = root_likeD [OF assms(1)]
  have lo: "is_finite (sqrtf lo)" using R [OF assms(2)] assms(3) by (cases hi) auto
  have s: "is_finite (sqrtf p)" using R [OF assms(4)] assms(5) by auto
  have b: "is_finite (jdiv (Fin 1) (sqrtf hi))" if "jle (sqrtf hi) (sqrtf p)"
    using R [OF \<open>jlt (Fin 0) hi\<close>] that s by auto
  show ?thesis
  proof (cases "jlt (sqrtf lo) (sqrtf hi)")
    case True
    then show ?thesis using unit_value_clamped [OF True lo assms(5) b] by (simp add: bandLiquidity_def Let_def)
  next
    case False
    then show ?thesis by (simp add: markPerLiquidity_def bandLiquidity_def Let_def)
  qed
qed

lemma band_value_ref:
  assumes "root_like sqrtf" "jlt (Fin 0) lo" "jlt lo hi" "jlt (Fin 0) cur" "is_finite cur" "is_finite L"
  shows "(let (x, y) =
      (if jle cur lo then (jmul L (jsub (jdiv (Fin 1) (sqrtf lo)) (jdiv (Fin 1) (sqrtf hi))), Fin 0)
       else if jge cur hi then (Fin 0, jmul L (jsub (sqrtf hi) (sqrtf lo)))
       else (jmul L (jsub (jdiv (Fin 1) (sqrtf cur)) (jdiv (Fin 1) (sqrtf hi))),
             jmul L (jsub (sqrtf cur) (sqrtf lo))))
      in jadd (jmul x cur) y) = bandValue sqrtf lo hi cur L"
proof -
  have "jlt (Fin 0) hi" using assms(2,3) by (meson jlt_imp_jle jle_jlt_trans)
  note R = root_likeD [OF assms(1)]
  have lo: "is_finite (sqrtf lo)" using R [OF assms(2)] assms(3) by (cases hi) auto
  have b: "is_finite (jdiv (Fin 1) (sqrtf hi))" if "jle hi cur"
    using R [OF \<open>jlt (Fin 0) hi\<close>] that assms(5) by auto
  show ?thesis using lo b assms(5,6)
    by (auto simp: bandValue_def clampBand_def Let_def jsub_self jmul_0 jadd_0_double jadd_0_double_left)
qed


lemma paper_mark_capped:
  assumes "paperClmmMarkUsd sqrtf powf args = Some v"
    "first_known (pcm_valuationAnchorPriceUsd args) (pcm_entryPriceUsd args) = Some p"
    "w = nullish (pcm_valuationAnchorValueUsd args) (pcm_depositedUsd args)"
  shows "is_finite v \<and> jle (Fin 0) v \<and> (v = w \<or> jle v (holdValue args w p))"
proof -
  from assms obtain b where
    B: "first_known (pcm_valuationAnchorBinId args) (pcm_anchorBinId args) = Some b"
    by (auto simp: paperClmmMarkUsd_def Let_def split: option.splits)
  let ?a = "paper_clmm_args args p b"
  let ?lp = "clmm_lpValueUsd (clmmPositionValue sqrtf powf ?a)"
  from assms B have v: "v = ?lp" "is_finite v" "jle (Fin 0) v"
    and size: "jlt (Fin 0) (cl_sizeUsd ?a)"
    by (auto simp: paperClmmMarkUsd_def Let_def isClmmMarketPriced_def paper_clmm_args_def
        split: if_splits)
  have "?lp \<noteq> NaN" using v by auto
  from clmm_mark_bounded [OF jlt_imp_jle [OF size] this] v(1)
  have "v = cl_sizeUsd ?a \<or> jle v (jadd (jmul (jdiv (fst (resolveClmmFundedLegs ?a)) (cl_anchorPrice ?a))
      (cl_currentPrice ?a)) (snd (resolveClmmFundedLegs ?a)))" by simp
  moreover have "cl_sizeUsd ?a = w" "cl_anchorPrice ?a = p" "cl_currentPrice ?a = pcm_currentPrice args"
    using assms(3) by (simp_all add: paper_clmm_args_def Let_def)
  ultimately show ?thesis using v assms(3) by (simp add: funded_legs_hold holdValue_def)
qed

lemma paper_mark_unfold:
  assumes "P = first_known (pcm_valuationAnchorPriceUsd args) (pcm_entryPriceUsd args)"
    "B = first_known (pcm_valuationAnchorBinId args) (pcm_anchorBinId args)"
    "w = nullish (pcm_valuationAnchorValueUsd args) (pcm_depositedUsd args)"
    "markable args w P B" "P = Some p" "B = Some b"
  shows "paperClmmMarkUsd sqrtf powf args =
    (let v = clmm_lpValueUsd (clmmPositionValue sqrtf powf (paper_clmm_args args p b))
     in if is_finite v \<and> jle (Fin 0) v then Some v else None)"
proof -
  have "hasClmmEntryAnchor (Some p) (Some b) (pcm_lowerBinId args) (pcm_upperBinId args)"
    "isClmmMarketPriced w args"
    using assms(4-6) by (auto simp: markable_def hasClmmEntryAnchor_def isClmmMarketPriced_def)
  moreover have "first_known (pcm_valuationAnchorPriceUsd args) (pcm_entryPriceUsd args) = Some p"
    "first_known (pcm_valuationAnchorBinId args) (pcm_anchorBinId args) = Some b"
    using assms(1,2,5,6) by simp_all
  ultimately show ?thesis using assms(3) by (simp add: paperClmmMarkUsd_def Let_def)
qed

lemma max0_finite:
  assumes "markable args w P B" "is_finite (if c then jmax (Fin 0) m else w)"
  shows "jle (Fin 0) (if c then jmax (Fin 0) m else w)"
proof (cases c)
  case True
  then show ?thesis using assms(2) jmax_ge1 [of "Fin 0" m] by (cases "jmax (Fin 0) m") auto
next
  case False
  then show ?thesis using assms(1) by (auto simp: markable_def jlt_imp_jle)
qed

lemma clmm_value_ref:
  assumes "root_like sqrtf" "jlt (Fin 0) p" "is_finite p"
    "jlt (Fin 0) (pcm_currentPrice args)" "is_finite (pcm_currentPrice args)"
    "w = nullish (pcm_valuationAnchorValueUsd args) (pcm_depositedUsd args)"
    "lo = edgePrice powf p (pcm_binStep args) (jsub (pcm_lowerBinId args) b)"
    "hi = edgePrice powf p (pcm_binStep args) (jsub (pcm_upperBinId args) b)"
    "L = bandLiquidity sqrtf lo hi p (jadd (fst (holdLegs args w)) (snd (holdLegs args w)))"
    "is_finite L"
  shows "clmm_lpValueUsd (clmmPositionValue sqrtf powf (paper_clmm_args args p b)) =
    (if jlt lo hi \<and> jlt (Fin 0) L
     then jmax (Fin 0) (jmin (bandValue sqrtf lo hi (pcm_currentPrice args) L) (holdValue args w p))
     else w)"
proof -
  let ?a = "paper_clmm_args args p b"
  have f: "cl_sizeUsd ?a = w" "cl_anchorPrice ?a = p" "cl_anchorBinId ?a = b"
    "cl_currentPrice ?a = pcm_currentPrice args" "cl_lowerBinId ?a = pcm_lowerBinId args"
    "cl_upperBinId ?a = pcm_upperBinId args" "cl_binStep ?a = pcm_binStep args"
    using assms(6) by (simp_all add: paper_clmm_args_def Let_def)
  have e: "brp_pa (binRangePrices powf ?a) = lo" "brp_pb (binRangePrices powf ?a) = hi"
    using assms(7,8) by (simp_all add: bin_prices_edges f)
  have legs: "resolveClmmFundedLegs ?a = holdLegs args w" using assms(6) by (simp add: funded_legs_hold)
  obtain x y where xy: "holdLegs args w = (x, y)" by fastforce
  have pos: "jlt (Fin 0) lo" using assms(7) edgePrice_pos by simp
  show ?thesis
  proof (cases "jlt lo hi")
    case False
    then show ?thesis by (simp add: clmmPositionValue_def Let_def f e)
  next
    case True
    note LR = anchor_liquidity_ref [OF assms(1) pos True assms(2,3), of "jadd x y"]
    note VR = band_value_ref [OF assms(1) pos True assms(4,5,10)]
    have L: "(let u = markPerLiquidity (sqrtf p) (sqrtf lo) (sqrtf hi) p
      in if jlt (Fin 0) u \<and> jlt (Fin 0) (jadd x y) then jdiv (jadd x y) u else Fin 0) = L"
      using LR assms(9) xy by simp
    show ?thesis using True assms(2,4) L VR
      by (auto simp: clmmPositionValue_def Let_def f e legs xy holdValue_def split: prod.splits)
  qed
qed

text \<open>
  C23. A paper position is marked as concentrated liquidity only when it has a usable anchor (a
  positive anchor price and a finite anchor bin inside its range), a positive anchor value and a
  market price (a positive finite price, a positive bin step and an ordered range); without one it
  gets no mark.  A mark is finite and never negative, and it is the anchor value or at most what the
  two funded legs would be worth had they simply been held from the anchor price.  When the anchor
  price and the liquidity are finite the mark is determined: the anchor value with an empty band or
  no liquidity, otherwise the value at the current price of the band whose value at the anchor price
  is what was funded, cut to the value of holding and to zero; it is given whenever that value is
  a finite number.  Powers are arbitrary here; square roots of positive numbers are only taken to be
  finite with a finite reciprocal, and that of infinity to be infinite.
\<close>
theorem paper_mark_bounded:
  assumes "root_like sqrtf"
    "w = nullish (pcm_valuationAnchorValueUsd args) (pcm_depositedUsd args)"
    "P = first_known (pcm_valuationAnchorPriceUsd args) (pcm_entryPriceUsd args)"
    "B = first_known (pcm_valuationAnchorBinId args) (pcm_anchorBinId args)"
  shows "(\<not> markable args w P B \<longrightarrow> paperClmmMarkUsd sqrtf powf args = None) \<and>
    (\<forall>v p. paperClmmMarkUsd sqrtf powf args = Some v \<and> P = Some p \<longrightarrow>
       is_finite v \<and> jle (Fin 0) v \<and> (v = w \<or> jle v (holdValue args w p))) \<and>
    (\<forall>p b lo hi L. markable args w P B \<and> P = Some p \<and> B = Some b \<and> is_finite p \<and>
       lo = edgePrice powf p (pcm_binStep args) (jsub (pcm_lowerBinId args) b) \<and>
       hi = edgePrice powf p (pcm_binStep args) (jsub (pcm_upperBinId args) b) \<and>
       L = bandLiquidity sqrtf lo hi p (jadd (fst (holdLegs args w)) (snd (holdLegs args w))) \<and>
       is_finite L \<longrightarrow>
       paperClmmMarkUsd sqrtf powf args =
         (let v = (if jlt lo hi \<and> jlt (Fin 0) L
               then jmax (Fin 0) (jmin (bandValue sqrtf lo hi (pcm_currentPrice args) L) (holdValue args w p))
               else w)
          in if is_finite v then Some v else None))"
proof (intro conjI)
  show "\<not> markable args w P B \<longrightarrow> paperClmmMarkUsd sqrtf powf args = None"
    using assms by (auto simp: paperClmmMarkUsd_def Let_def markable_def hasClmmEntryAnchor_def
        isClmmMarketPriced_def split: option.splits)
next
  show "\<forall>v p. paperClmmMarkUsd sqrtf powf args = Some v \<and> P = Some p \<longrightarrow>
       is_finite v \<and> jle (Fin 0) v \<and> (v = w \<or> jle v (holdValue args w p))"
    using assms(3) by (intro allI impI paper_mark_capped [OF _ _ assms(2)]) auto
next
  show "\<forall>p b lo hi L. markable args w P B \<and> P = Some p \<and> B = Some b \<and> is_finite p \<and>
       lo = edgePrice powf p (pcm_binStep args) (jsub (pcm_lowerBinId args) b) \<and>
       hi = edgePrice powf p (pcm_binStep args) (jsub (pcm_upperBinId args) b) \<and>
       L = bandLiquidity sqrtf lo hi p (jadd (fst (holdLegs args w)) (snd (holdLegs args w))) \<and>
       is_finite L \<longrightarrow>
       paperClmmMarkUsd sqrtf powf args =
         (let v = (if jlt lo hi \<and> jlt (Fin 0) L
               then jmax (Fin 0) (jmin (bandValue sqrtf lo hi (pcm_currentPrice args) L) (holdValue args w p))
               else w)
          in if is_finite v then Some v else None)"
  proof (intro allI impI, elim conjE)
    fix p b lo hi L
    assume m: "markable args w P B" and k: "P = Some p" "B = Some b" "is_finite p"
      and lo: "lo = edgePrice powf p (pcm_binStep args) (jsub (pcm_lowerBinId args) b)"
      and hi: "hi = edgePrice powf p (pcm_binStep args) (jsub (pcm_upperBinId args) b)"
      and L: "L = bandLiquidity sqrtf lo hi p (jadd (fst (holdLegs args w)) (snd (holdLegs args w)))"
        "is_finite L"
    from m k have "jlt (Fin 0) p" "jlt (Fin 0) (pcm_currentPrice args)"
      "is_finite (pcm_currentPrice args)" by (auto simp: markable_def)
    note R = clmm_value_ref [OF assms(1) this(1) k(3) this(2,3) assms(2) lo hi L]
    show "paperClmmMarkUsd sqrtf powf args =
         (let v = (if jlt lo hi \<and> jlt (Fin 0) L
               then jmax (Fin 0) (jmin (bandValue sqrtf lo hi (pcm_currentPrice args) L) (holdValue args w p))
               else w)
          in if is_finite v then Some v else None)"
      using m k paper_mark_unfold [OF assms(3,4,2) m k(1,2), of sqrtf powf] R
      by (simp add: Let_def max0_finite)
  qed
qed


definition sample_mark :: PaperClmmMarkInput where
  "sample_mark = \<lparr>pcm_depositedUsd = Fin 100, pcm_entryPriceUsd = Some (Fin 4),
     pcm_anchorBinId = Some (Fin 0), pcm_currentPrice = Fin 4, pcm_lowerBinId = Fin (- 1),
     pcm_upperBinId = Fin 1, pcm_binStep = Fin 10000, pcm_entryAmountXUsd = None,
     pcm_entryAmountYUsd = None, pcm_valuationAnchorPriceUsd = None,
     pcm_valuationAnchorBinId = None, pcm_valuationAnchorValueUsd = None\<rparr>"

text \<open>Sample square root and powers of two: exact at the prices 2, 4 and 8 up to a factor.\<close>

definition sample_sqrt :: "jsnum \<Rightarrow> jsnum" where
  "sample_sqrt p = (if p = PosInf then PosInf else if p = Fin 2 then Fin 1 else if p = Fin 4 then Fin 2 else Fin 4)"

definition sample_pow :: "jsnum \<Rightarrow> jsnum \<Rightarrow> jsnum" where
  "sample_pow s k = (if k = Fin 1 then Fin 2 else if k = Fin 0 then Fin 1 else Fin (1 / 2))"

lemma sample_root_like: "root_like sample_sqrt"
  by (auto simp: root_like_def sample_sqrt_def num_simps)

lemma paper_mark_bounded_witness:
  "paperClmmMarkUsd sample_sqrt sample_pow sample_mark = Some (Fin 100) \<and>
   paperClmmMarkUsd sample_sqrt sample_pow (sample_mark\<lparr>pcm_anchorBinId := Some (Fin 2)\<rparr>) = None"
proof (rule conjI)
  note T = paper_mark_bounded [OF sample_root_like refl refl refl]
  have m: "markable sample_mark (Fin 100) (Some (Fin 4)) (Some (Fin 0))"
    by (simp add: markable_def sample_mark_def)
  have e: "edgePrice sample_pow (Fin 4) (Fin 10000) (jsub (Fin (- 1)) (Fin 0)) = Fin 2"
    "edgePrice sample_pow (Fin 4) (Fin 10000) (jsub (Fin 1) (Fin 0)) = Fin 8"
    "holdLegs sample_mark (Fin 100) = (Fin 50, Fin 50)"
    "holdValue sample_mark (Fin 100) (Fin 4) = Fin 100"
    "bandLiquidity sample_sqrt (Fin 2) (Fin 8) (Fin 4) (jadd (Fin 50) (Fin 50)) = Fin 50"
    "bandValue sample_sqrt (Fin 2) (Fin 8) (Fin 4) (Fin 50) = Fin 100"
    by code_simp+
  have g: "nullish (pcm_valuationAnchorValueUsd sample_mark) (pcm_depositedUsd sample_mark) = Fin 100"
    "first_known (pcm_valuationAnchorPriceUsd sample_mark) (pcm_entryPriceUsd sample_mark) = Some (Fin 4)"
    "first_known (pcm_valuationAnchorBinId sample_mark) (pcm_anchorBinId sample_mark) = Some (Fin 0)"
    "pcm_binStep sample_mark = Fin 10000" "pcm_lowerBinId sample_mark = Fin (- 1)"
    "pcm_upperBinId sample_mark = Fin 1" "pcm_currentPrice sample_mark = Fin 4"
    by (simp_all add: sample_mark_def first_known_def nullish_def)
  show "paperClmmMarkUsd sample_sqrt sample_pow sample_mark = Some (Fin 100)"
    using T [of sample_mark sample_pow, THEN conjunct2, THEN conjunct2, rule_format,
        of "Fin 4" "Fin 0" "Fin 2" "Fin 8" "Fin 50"] m e by (simp add: g)
  show "paperClmmMarkUsd sample_sqrt sample_pow (sample_mark\<lparr>pcm_anchorBinId := Some (Fin 2)\<rparr>) = None"
    using T [of "sample_mark\<lparr>pcm_anchorBinId := Some (Fin 2)\<rparr>" sample_pow, THEN conjunct1]
    by (simp add: markable_def sample_mark_def first_known_def)
qed

end
