(* ===== verification/UriText.thy ===== *)
theory UriText
  imports Prelude "HOL-Library.Word"
begin

text \<open>
  Texts of the source language where their code units matter: a string is its list of UTF-16 code
  units (16-bit words).  \<open>encodeURIComponent\<close>, as the language defines it, reads the units as
  scalar values (a surrogate pair is one value, a lone surrogate raises a \<^verbatim>\<open>URIError\<close>, here
  \<open>None\<close>), keeps letters, digits and \<^verbatim>\<open>-_.!~*'()\<close> and writes every other value as the
  percent-encoded bytes of its UTF-8 form (one to four).  The theorems say which texts encode, that
  the encoding is injective and that it never contains a colon.
\<close>

type_synonym js_text = "16 word list"

definition high_surrogate :: "16 word \<Rightarrow> bool" where
  "high_surrogate u \<longleftrightarrow> 0xD800 \<le> u \<and> u \<le> 0xDBFF"

definition low_surrogate :: "16 word \<Rightarrow> bool" where
  "low_surrogate u \<longleftrightarrow> 0xDC00 \<le> u \<and> u \<le> 0xDFFF"

definition pair_scalar :: "16 word \<Rightarrow> 16 word \<Rightarrow> nat" where
  "pair_scalar u v = 65536 + (unat u - 55296) * 1024 + (unat v - 56320)"

fun utf16_scalars :: "js_text \<Rightarrow> nat list option" where
  "utf16_scalars [] = Some []"
| "utf16_scalars (u # us) =
     (if low_surrogate u then None
      else if high_surrogate u then
        (case us of
           [] \<Rightarrow> None
         | v # vs \<Rightarrow>
             if low_surrogate v then map_option ((#) (pair_scalar u v)) (utf16_scalars vs) else None)
      else map_option ((#) (unat u)) (utf16_scalars us))"

definition utf8_bytes :: "nat \<Rightarrow> nat list" where
  "utf8_bytes n =
     (if n < 128 then [n]
      else if n < 2048 then [192 + n div 64, 128 + n mod 64]
      else if n < 65536 then [224 + n div 4096, 128 + n div 64 mod 64, 128 + n mod 64]
      else [240 + n div 262144, 128 + n div 4096 mod 64, 128 + n div 64 mod 64, 128 + n mod 64])"

definition uri_unreserved :: "nat \<Rightarrow> bool" where
  "uri_unreserved n \<longleftrightarrow>
     48 \<le> n \<and> n \<le> 57 \<or> 65 \<le> n \<and> n \<le> 90 \<or> 97 \<le> n \<and> n \<le> 122 \<or>
     n \<in> {33, 39, 40, 41, 42, 45, 46, 95, 126}"

definition hex_digit :: "nat \<Rightarrow> char" where
  "hex_digit n = (char_of (if n < 10 then 48 + n else 55 + n) :: char)"

definition percent_byte :: "nat \<Rightarrow> string" where
  "percent_byte n = [CHR ''%'', hex_digit (n div 16), hex_digit (n mod 16)]"

definition uri_scalar :: "nat \<Rightarrow> string" where
  "uri_scalar n =
     (if uri_unreserved n then [char_of n] else concat (map percent_byte (utf8_bytes n)))"

definition encodeURIComponent :: "js_text \<Rightarrow> string option" where
  "encodeURIComponent s = map_option (\<lambda>ns. concat (map uri_scalar ns)) (utf16_scalars s)"

section \<open>Which texts encode\<close>

text \<open>Every high surrogate is followed by a low one and every low one preceded by a high one.\<close>

definition well_paired :: "js_text \<Rightarrow> bool" where
  "well_paired s \<longleftrightarrow> (\<forall>i < length s.
     (high_surrogate (s ! i) \<longrightarrow> Suc i < length s \<and> low_surrogate (s ! Suc i)) \<and>
     (low_surrogate (s ! i) \<longrightarrow> 0 < i \<and> high_surrogate (s ! (i - 1))))"

lemma surrogates_disjoint: "high_surrogate u \<Longrightarrow> \<not> low_surrogate u"
  by (auto simp: high_surrogate_def low_surrogate_def word_le_nat_alt)

lemma well_paired_Nil [simp]: "well_paired []"
  by (simp add: well_paired_def)

lemma well_paired_plain:
  assumes "\<not> high_surrogate u" "\<not> low_surrogate u"
  shows "well_paired (u # s) \<longleftrightarrow> well_paired s"
proof
  assume w: "well_paired (u # s)"
  show "well_paired s" unfolding well_paired_def
  proof (intro allI impI)
    fix i assume "i < length s"
    then have "Suc i < length (u # s)" by simp
    with w assms show "(high_surrogate (s ! i) \<longrightarrow> Suc i < length s \<and> low_surrogate (s ! Suc i)) \<and>
     (low_surrogate (s ! i) \<longrightarrow> 0 < i \<and> high_surrogate (s ! (i - 1)))"
      unfolding well_paired_def by (cases i) fastforce+
  qed
next
  assume w: "well_paired s"
  show "well_paired (u # s)" unfolding well_paired_def
  proof (intro allI impI)
    fix i assume "i < length (u # s)"
    then show "(high_surrogate ((u # s) ! i) \<longrightarrow> Suc i < length (u # s) \<and> low_surrogate ((u # s) ! Suc i)) \<and>
     (low_surrogate ((u # s) ! i) \<longrightarrow> 0 < i \<and> high_surrogate ((u # s) ! (i - 1)))"
      using w assms unfolding well_paired_def by (cases i; cases "i - 1") (auto simp: nth_Cons')
  qed
qed

lemma well_paired_pair:
  assumes "high_surrogate u" "low_surrogate v"
  shows "well_paired (u # v # s) \<longleftrightarrow> well_paired s"
proof
  assume w: "well_paired (u # v # s)"
  show "well_paired s" unfolding well_paired_def
  proof (intro allI impI)
    fix i assume "i < length s"
    then have "Suc (Suc i) < length (u # v # s)" by simp
    moreover have "\<not> high_surrogate v" using assms(2) surrogates_disjoint by blast
    ultimately show "(high_surrogate (s ! i) \<longrightarrow> Suc i < length s \<and> low_surrogate (s ! Suc i)) \<and>
     (low_surrogate (s ! i) \<longrightarrow> 0 < i \<and> high_surrogate (s ! (i - 1)))"
      using w unfolding well_paired_def by (cases i) fastforce+
  qed
next
  assume w: "well_paired s"
  have n: "\<not> low_surrogate u" "\<not> high_surrogate v" using assms surrogates_disjoint by blast+
  show "well_paired (u # v # s)" unfolding well_paired_def
  proof (intro allI impI)
    fix i assume i: "i < length (u # v # s)"
    consider "i = 0" | "i = 1" | j where "i = Suc (Suc j)" "j < length s"
      using i by (cases i; cases "i - 1") auto
    then show "(high_surrogate ((u # v # s) ! i) \<longrightarrow>
        Suc i < length (u # v # s) \<and> low_surrogate ((u # v # s) ! Suc i)) \<and>
     (low_surrogate ((u # v # s) ! i) \<longrightarrow> 0 < i \<and> high_surrogate ((u # v # s) ! (i - 1)))"
    proof cases
      case 3
      with w show ?thesis unfolding well_paired_def by (cases j) fastforce+
    qed (use assms n in auto)
  qed
qed

lemma utf16_scalars_iff: "utf16_scalars s \<noteq> None \<longleftrightarrow> well_paired s"
proof (induction s rule: utf16_scalars.induct)
  case (2 u us)
  consider "low_surrogate u" | "high_surrogate u" "us = [] \<or> \<not> low_surrogate (hd us)"
    | v vs where "high_surrogate u" "us = v # vs" "low_surrogate v"
    | "\<not> low_surrogate u" "\<not> high_surrogate u"
    by (cases us) auto
  then show ?case
  proof cases
    case 1
    then have "\<not> well_paired (u # us)" by (auto simp: well_paired_def)
    with 1 show ?thesis by simp
  next
    case 2
    then have "\<not> well_paired (u # us)" by (cases us) (auto simp: well_paired_def)
    with 2 surrogates_disjoint show ?thesis by (auto split: list.splits)
  next
    case 3
    then show ?thesis using "2.IH"(1) surrogates_disjoint well_paired_pair by auto
  next
    case 4
    then show ?thesis using "2.IH"(2) well_paired_plain by auto
  qed
qed simp

section \<open>The encoding is injective\<close>

subsection \<open>Code units and scalar values\<close>

definition utf16_units :: "nat \<Rightarrow> js_text" where
  "utf16_units n =
     (if n < 65536 then [of_nat n]
      else [of_nat (55296 + (n - 65536) div 1024), of_nat (56320 + (n - 65536) mod 1024)])"

lemma high_surrogate_nat: "high_surrogate u \<longleftrightarrow> 55296 \<le> unat u \<and> unat u \<le> 56319"
  by (simp add: high_surrogate_def word_le_nat_alt)

lemma low_surrogate_nat: "low_surrogate u \<longleftrightarrow> 56320 \<le> unat u \<and> unat u \<le> 57343"
  by (simp add: low_surrogate_def word_le_nat_alt)

lemma units_of_unit: "utf16_units (unat u) = [u]"
  using unsigned_less [of u] by (simp add: utf16_units_def)

lemma units_of_pair:
  assumes "high_surrogate u" "low_surrogate v"
  shows "utf16_units (pair_scalar u v) = [u, v]"
proof -
  let ?a = "unat u - 55296" and ?b = "unat v - 56320"
  have b: "?b < 1024" "55296 + ?a = unat u" "56320 + ?b = unat v"
    using assms by (auto simp: high_surrogate_nat low_surrogate_nat)
  have "(pair_scalar u v - 65536) div 1024 = ?a" "(pair_scalar u v - 65536) mod 1024 = ?b"
    using b(1) by (simp_all add: pair_scalar_def)
  then show ?thesis using b by (simp add: utf16_units_def pair_scalar_def)
qed

lemma scalars_units: "utf16_scalars s = Some ns \<Longrightarrow> concat (map utf16_units ns) = s"
proof (induction s arbitrary: ns rule: utf16_scalars.induct)
  case (2 u us)
  show ?case
  proof (cases "high_surrogate u")
    case True
    with "2.prems" obtain v vs ms where v: "us = v # vs" "low_surrogate v" "\<not> low_surrogate u"
      "utf16_scalars vs = Some ms" "ns = pair_scalar u v # ms"
      by (auto split: if_splits list.splits)
    with True "2.IH"(1) show ?thesis by (simp add: units_of_pair)
  next
    case False
    with "2.prems" "2.IH"(2) show ?thesis by (auto simp: units_of_unit split: if_splits)
  qed
qed simp

lemma scalars_inj: "utf16_scalars s = Some ns \<Longrightarrow> utf16_scalars t = Some ns \<Longrightarrow> s = t"
  using scalars_units by metis

lemma scalars_bounded: "utf16_scalars s = Some ns \<Longrightarrow> \<forall>n \<in> set ns. n < 1114112"
proof (induction s arbitrary: ns rule: utf16_scalars.induct)
  case (2 u us)
  have "pair_scalar u v < 1114112" if "high_surrogate u" "low_surrogate v" for v
    using that by (auto simp: pair_scalar_def high_surrogate_nat low_surrogate_nat)
  moreover have "(unat u :: nat) < 2 ^ LENGTH(16)" by (rule unsigned_less)
  then have "unat u < 1114112" by simp
  ultimately show ?case using "2.prems" "2.IH" by (auto split: if_splits list.splits)
qed simp

subsection \<open>Scalar values and percent-encoded bytes\<close>

fun utf8_value :: "nat list \<Rightarrow> nat" where
  "utf8_value [a] = a"
| "utf8_value [a, b] = (a - 192) * 64 + (b - 128)"
| "utf8_value [a, b, c] = ((a - 224) * 64 + (b - 128)) * 64 + (c - 128)"
| "utf8_value [a, b, c, d] = (((a - 240) * 64 + (b - 128)) * 64 + (c - 128)) * 64 + (d - 128)"
| "utf8_value _ = 0"

lemma join64: "n div (k * 64) * 64 + n div k mod 64 = n div (k :: nat)"
  by (simp add: div_mult2_eq)

lemma utf8_value_bytes: "utf8_value (utf8_bytes n) = n"
  using join64 [of n 1] join64 [of n 64] join64 [of n 4096] by (simp add: utf8_bytes_def)

lemma utf8_bytes_less:
  assumes "n < 1114112"
  shows "\<forall>b \<in> set (utf8_bytes n). b < 256"
proof -
  have m: "128 + k mod 64 < 256" for k :: nat using mod_less_divisor [of 64 k] by linarith
  have "192 + n div 64 < 256" if "n < 2048" using that by (simp add: less_mult_imp_div_less)
  moreover have "224 + n div 4096 < 256" if "n < 65536" using that by (simp add: less_mult_imp_div_less)
  moreover have "240 + n div 262144 < 256"
    using assms by (simp add: less_mult_imp_div_less)
  ultimately show ?thesis using m by (auto simp: utf8_bytes_def)
qed

lemma hex_code: "n < 16 \<Longrightarrow> (of_char (hex_digit n) :: nat) = (if n < 10 then 48 + n else 55 + n)"
  by (simp add: hex_digit_def)

lemma hex_digit_inj: "m < 16 \<Longrightarrow> n < 16 \<Longrightarrow> hex_digit m = hex_digit n \<Longrightarrow> m = n"
proof -
  assume a: "m < 16" "n < 16" "hex_digit m = hex_digit n"
  from arg_cong [OF a(3)] have "(of_char (hex_digit m) :: nat) = of_char (hex_digit n)" .
  then show "m = n" unfolding hex_code [OF a(1)] hex_code [OF a(2)] by (simp split: if_splits)
qed

lemma percent_byte_inj: "m < 256 \<Longrightarrow> n < 256 \<Longrightarrow> percent_byte m = percent_byte n \<Longrightarrow> m = n"
proof -
  assume a: "m < 256" "n < 256" "percent_byte m = percent_byte n"
  have d: "m div 16 < 16" "n div 16 < 16" using a(1,2) by (simp_all add: less_mult_imp_div_less)
  have r: "m mod 16 < 16" "n mod 16 < 16" by simp_all
  have h: "hex_digit (m div 16) = hex_digit (n div 16)" "hex_digit (m mod 16) = hex_digit (n mod 16)"
    using a(3) unfolding percent_byte_def by (metis list.inject)+
  have "m div 16 = n div 16" by (rule hex_digit_inj [OF d h(1)])
  moreover have "m mod 16 = n mod 16" by (rule hex_digit_inj [OF r h(2)])
  ultimately show "m = n" using div_mult_mod_eq [of m 16] div_mult_mod_eq [of n 16] by metis
qed

lemma percent_bytes_inj:
  assumes "concat (map percent_byte bs) = concat (map percent_byte cs)"
    "\<forall>b \<in> set bs. b < 256" "\<forall>c \<in> set cs. c < 256"
  shows "bs = cs"
  using assms
proof (induction bs arbitrary: cs)
  case Nil
  then show ?case by (cases cs) (auto simp: percent_byte_def)
next
  case (Cons b bs)
  from Cons.prems(1) obtain c cs' where c: "cs = c # cs'"
    by (cases cs) (auto simp: percent_byte_def)
  have "length (percent_byte b) = length (percent_byte c)" by (simp add: percent_byte_def)
  with Cons.prems(1) c have "percent_byte b = percent_byte c"
    "concat (map percent_byte bs) = concat (map percent_byte cs')" by simp_all
  moreover from this(1) have "b = c" using percent_byte_inj [of b c] Cons.prems(2,3) c by simp
  moreover have "bs = cs'" using Cons.IH [OF calculation(2)] Cons.prems(2,3) c by simp
  ultimately show ?case using c by simp
qed

lemma unreserved_code: "uri_unreserved n \<Longrightarrow> n < 128 \<and> n \<noteq> 37 \<and> n \<noteq> 58"
  by (auto simp: uri_unreserved_def)

lemma percent_code: "(of_char (CHR ''%'') :: nat) = 37"
  by code_simp

lemma unreserved_char: "uri_unreserved n \<Longrightarrow> (of_char (char_of n :: char) :: nat) = n"
  using unreserved_code [of n] by simp

lemma unreserved_not_percent: "uri_unreserved n \<Longrightarrow> char_of n \<noteq> CHR ''%''"
  using unreserved_code unreserved_char percent_code by metis

lemma scalar_code_percent:
  "\<not> uri_unreserved n \<Longrightarrow> \<exists>rest. uri_scalar n = CHR ''%'' # hex_digit (hd (utf8_bytes n) div 16) # rest"
  by (auto simp: uri_scalar_def utf8_bytes_def percent_byte_def)

lemma scalar_inj:
  assumes "uri_scalar m = uri_scalar n" "m < 1114112" "n < 1114112"
  shows "m = n"
proof (cases "uri_unreserved m = uri_unreserved n")
  case True
  then show ?thesis
  proof (cases "uri_unreserved m")
    case u: True
    then have "(char_of m :: char) = char_of n" using True assms(1) by (simp add: uri_scalar_def)
    then show ?thesis using unreserved_char u True by metis
  next
    case False
    then have "utf8_bytes m = utf8_bytes n" using True assms percent_bytes_inj utf8_bytes_less
      by (simp add: uri_scalar_def)
    then show ?thesis using utf8_value_bytes by metis
  qed
next
  case False
  then show ?thesis using assms(1) scalar_code_percent [of m] scalar_code_percent [of n]
      unreserved_not_percent [of m] unreserved_not_percent [of n]
    by (cases "uri_unreserved m") (auto simp: uri_scalar_def)
qed

text \<open>The first code of an encoded text: one character, or three for each of its bytes.\<close>

definition first_code_len :: "string \<Rightarrow> nat" where
  "first_code_len s =
     (if hd s \<noteq> CHR ''%'' then 1
      else let h = (of_char (s ! 1) :: nat)
        in if h < 56 then 3 else if h < 69 then 6 else if h = 69 then 9 else 12)"

lemma first_code_len_scalar:
  assumes "n < 1114112"
  shows "first_code_len (uri_scalar n @ x) = length (uri_scalar n)"
proof (cases "uri_unreserved n")
  case True
  then show ?thesis using unreserved_not_percent by (simp add: uri_scalar_def first_code_len_def)
next
  case False
  have h: "hd (utf8_bytes n) < 256" using utf8_bytes_less [OF assms] by (auto simp: utf8_bytes_def)
  then have "hd (utf8_bytes n) div 16 < 16" by (simp add: less_mult_imp_div_less)
  note code = hex_code [OF this]
  obtain rest where rest: "uri_scalar n = CHR ''%'' # hex_digit (hd (utf8_bytes n) div 16) # rest"
    using scalar_code_percent [OF False] by blast
  have len: "length (uri_scalar n) = 3 * length (utf8_bytes n)"
    using False by (simp add: uri_scalar_def utf8_bytes_def percent_byte_def)
  have first: "hd (uri_scalar n @ x) = CHR ''%''" "(uri_scalar n @ x) ! 1 = hex_digit (hd (utf8_bytes n) div 16)"
    using rest by simp_all
  consider "n < 128" | "128 \<le> n" "n < 2048" | "2048 \<le> n" "n < 65536" | "65536 \<le> n" by linarith
  then show ?thesis
  proof cases
    case 1
    then have "n div 16 < 8" by (simp add: less_mult_imp_div_less)
    then show ?thesis using 1 first code len by (simp add: first_code_len_def utf8_bytes_def)
  next
    case 2
    then have "n div 64 < 32" by (simp add: less_mult_imp_div_less)
    then have "(192 + n div 64) div 16 = 12 \<or> (192 + n div 64) div 16 = 13" by linarith
    then show ?thesis using 2 first code len by (auto simp: first_code_len_def utf8_bytes_def)
  next
    case 3
    then have "n div 4096 < 16" by (simp add: less_mult_imp_div_less)
    then have "(224 + n div 4096) div 16 = 14" by linarith
    then show ?thesis using 3 first code len by (simp add: first_code_len_def utf8_bytes_def)
  next
    case 4
    have "n div 262144 < 16" using assms by (simp add: less_mult_imp_div_less)
    then have "(240 + n div 262144) div 16 = 15" by linarith
    then show ?thesis using 4 first code len by (simp add: first_code_len_def utf8_bytes_def)
  qed
qed

lemma scalars_code_inj:
  assumes "concat (map uri_scalar ms) = concat (map uri_scalar ns)"
    "\<forall>m \<in> set ms. m < 1114112" "\<forall>n \<in> set ns. n < 1114112"
  shows "ms = ns"
  using assms
proof (induction ms arbitrary: ns)
  case Nil
  have "uri_scalar n \<noteq> []" for n by (simp add: uri_scalar_def utf8_bytes_def percent_byte_def)
  with Nil show ?case by (cases ns) auto
next
  case (Cons m ms)
  have "uri_scalar m \<noteq> []" by (simp add: uri_scalar_def utf8_bytes_def percent_byte_def)
  with Cons.prems(1) obtain n ns' where n: "ns = n # ns'" by (cases ns) auto
  have "length (uri_scalar m) = length (uri_scalar n)"
    using Cons.prems n first_code_len_scalar by (metis list.set_intros(1) concat.simps(2) list.simps(9))
  with Cons.prems(1) n have "uri_scalar m = uri_scalar n"
    "concat (map uri_scalar ms) = concat (map uri_scalar ns')" by simp_all
  moreover from this(1) have "m = n" using scalar_inj [of m n] Cons.prems(2,3) n by simp
  moreover have "ms = ns'" using Cons.IH [OF calculation(2)] Cons.prems(2,3) n by simp
  ultimately show ?case using n by simp
qed

theorem encode_inj:
  "encodeURIComponent s = Some e \<Longrightarrow> encodeURIComponent t = Some e \<Longrightarrow> s = t"
  using scalars_code_inj scalars_bounded scalars_inj by (fastforce simp: encodeURIComponent_def)

theorem encode_defined: "encodeURIComponent s \<noteq> None \<longleftrightarrow> well_paired s"
  using utf16_scalars_iff by (simp add: encodeURIComponent_def)

subsection \<open>No colon in an encoded text\<close>

lemma percent_byte_colon: "n < 256 \<Longrightarrow> CHR '':'' \<notin> set (percent_byte n)"
proof -
  have c: "(of_char (CHR '':'') :: nat) = 58" by code_simp
  have "CHR '':'' \<noteq> hex_digit k" if "k < 16" for k
  proof
    assume "CHR '':'' = hex_digit k"
    then have "(of_char (hex_digit k) :: nat) = 58" using c by simp
    then show False using hex_code [OF that] by (simp split: if_splits)
  qed
  then show "n < 256 \<Longrightarrow> CHR '':'' \<notin> set (percent_byte n)"
    by (simp add: percent_byte_def less_mult_imp_div_less)
qed

lemma scalar_no_colon: "n < 1114112 \<Longrightarrow> CHR '':'' \<notin> set (uri_scalar n)"
proof -
  have c: "(of_char (CHR '':'') :: nat) = 58" by code_simp
  have "char_of n \<noteq> CHR '':''" if "uri_unreserved n"
    using that unreserved_code unreserved_char c by metis
  then show "n < 1114112 \<Longrightarrow> CHR '':'' \<notin> set (uri_scalar n)"
    using utf8_bytes_less [of n] percent_byte_colon by (auto simp: uri_scalar_def)
qed

lemma encoded_no_colon: "encodeURIComponent s = Some e \<Longrightarrow> CHR '':'' \<notin> set e"
  using scalars_bounded scalar_no_colon by (fastforce simp: encodeURIComponent_def)

end
