(* ===== verification/SafetyPause.thy ===== *)
theory SafetyPause
  imports DomainTypes UriText
begin

text \<open>
  The wallet safety pause and the retry schedule of settlements
  (\<^verbatim>\<open>engine/autonomous-runtime.ts\<close>, first part): what a pause blocks, what arms and what clears
  it, the settlement jobs that count as stuck, and the daily equity baseline kept in the metadata
  table, under keys made of the percent-encoded names of its wallet and agent (\<open>UriText\<close>).  Timestamps and counters are integers (milliseconds since the epoch and counts, far below
  \<open>2 ^ 53\<close>); the error branch of the mode switches is unreachable for the four modes.
\<close>

section \<open>Actions under a pause\<close>

datatype AutonomousTokenMode = ModeOff | ModeShadow | ModeCanary | ModeLive

record SafetyPauseRecord =
  spr_walletAddress :: string
  spr_agentInstanceId :: string
  spr_reason :: string
  spr_triggeredAt :: int
  spr_resolvedAt :: "int option"

definition isActionAllowedDuringSafetyPause :: "ActionType \<Rightarrow> bool" where
  "isActionAllowedDuringSafetyPause action \<longleftrightarrow> action = EXIT \<or> action = HOLD"

definition safetyPauseBlockReason ::
  "AutonomousTokenMode option \<Rightarrow> SafetyPauseRecord option \<Rightarrow> ActionType \<Rightarrow> string option" where
  "safetyPauseBlockReason autonomousMode activeSafetyPause action =
     (if autonomousMode = Some ModeShadow then None
      else case activeSafetyPause of
        None \<Rightarrow> None
      | Some pause \<Rightarrow>
          if spr_resolvedAt pause \<noteq> None then None
          else if isActionAllowedDuringSafetyPause action then None
          else Some (''Wallet safety pause active: '' @ spr_reason pause))"

section \<open>Arming\<close>

record SafetyPauseThresholdInput =
  spt_dailyDrawdownPct :: jsnum
  spt_maxDailyDrawdownPct :: jsnum
  spt_consecutiveCoreDataFailures :: int
  spt_consecutiveExecutionFailures :: int
  spt_maxConsecutiveExecutionFailures :: int
  spt_oldestSettlementAgeMs :: int
  spt_settlementMaxPendingMs :: int

datatype SafetyPauseReason = DailyDrawdown | CoreDataUnavailable | ExecutionFailures | SettlementOverdue

definition shouldTriggerSafetyPause :: "SafetyPauseThresholdInput \<Rightarrow> SafetyPauseReason option" where
  "shouldTriggerSafetyPause inp =
     (if jgt (spt_maxDailyDrawdownPct inp) (Fin 0)
         \<and> jge (spt_dailyDrawdownPct inp) (spt_maxDailyDrawdownPct inp)
      then Some DailyDrawdown
      else if spt_consecutiveCoreDataFailures inp \<ge> 2 then Some CoreDataUnavailable
      else if spt_maxConsecutiveExecutionFailures inp > 0
         \<and> spt_consecutiveExecutionFailures inp \<ge> spt_maxConsecutiveExecutionFailures inp
      then Some ExecutionFailures
      else if spt_oldestSettlementAgeMs inp > spt_settlementMaxPendingMs inp
      then Some SettlementOverdue
      else None)"

section \<open>Clearing\<close>

record DailyDrawdownAutoResolveInput =
  dar_mode :: AutonomousTokenMode
  dar_dailyDrawdownPct :: jsnum
  dar_maxDailyDrawdownPct :: jsnum
  dar_dayRolledOver :: bool

record ExecutionFailuresAutoResolveInput =
  ear_mode :: AutonomousTokenMode
  ear_consecutiveExecutionFailures :: int
  ear_maxConsecutiveExecutionFailures :: int

definition decayExecutionFailureCounter :: "int \<Rightarrow> int \<Rightarrow> int" where
  "decayExecutionFailureCounter consecutiveExecutionFailures executionFailuresThisCycle =
     (if executionFailuresThisCycle = 0 then 0 else consecutiveExecutionFailures)"

definition shouldAutoResolveExecutionFailuresPause :: "ExecutionFailuresAutoResolveInput \<Rightarrow> bool" where
  "shouldAutoResolveExecutionFailuresPause inp =
     (if ear_maxConsecutiveExecutionFailures inp \<le> 0 then True
      else case ear_mode inp of
        ModeShadow \<Rightarrow> True
      | _ \<Rightarrow> ear_consecutiveExecutionFailures inp < ear_maxConsecutiveExecutionFailures inp)"

definition shouldAutoResolveDailyDrawdownPause :: "DailyDrawdownAutoResolveInput \<Rightarrow> bool" where
  "shouldAutoResolveDailyDrawdownPause inp =
     (if jle (dar_maxDailyDrawdownPct inp) (Fin 0) then True
      else case dar_mode inp of
        ModeShadow \<Rightarrow> True
      | ModeCanary \<Rightarrow> dar_dayRolledOver inp
          \<or> jlt (dar_dailyDrawdownPct inp) (dar_maxDailyDrawdownPct inp)
      | _ \<Rightarrow> jlt (dar_dailyDrawdownPct inp) (dar_maxDailyDrawdownPct inp))"

section \<open>Settlement jobs: retry schedule and age\<close>

datatype SettlementAsset = SolAsset

datatype SettlementJobStatus =
  Pending | Prepared | Submitted | Confirmed | Retryable | Terminal

record SettlementJobRecord =
  sj_id :: string
  sj_walletAddress :: string
  sj_agentInstanceId :: string
  sj_positionId :: string
  sj_poolAddress :: string
  sj_tokenMint :: string
  sj_amountAtomic :: int
  sj_destinationAsset :: SettlementAsset
  sj_status :: SettlementJobStatus
  sj_attempts :: int
  sj_nextRetryAt :: "int option"
  sj_txSignature :: "string option"
  sj_confirmedOutputAtomic :: "int option"
  sj_outputUsd :: "jsnum option"
  sj_executionCostUsd :: "jsnum option"
  sj_finalizedAt :: "int option"
  sj_realizedPnlUsd :: "jsnum option"
  sj_expiresAt :: int
  sj_error :: "string option"
  sj_createdAt :: int
  sj_updatedAt :: int

definition nextSettlementRetryAt :: "int \<Rightarrow> int \<Rightarrow> int" where
  "nextSettlementRetryAt now attempts =
     (let exponent = max 0 (min (attempts - 1) 30)
      in now + min (2 ^ nat exponent * 1000) 1800000)"

definition stuckJob :: "int \<Rightarrow> SettlementJobRecord \<Rightarrow> bool" where
  "stuckJob now job \<longleftrightarrow> sj_status job \<noteq> Confirmed \<and> sj_status job \<noteq> Terminal \<and>
     (case sj_nextRetryAt job of None \<Rightarrow> True | Some t \<Rightarrow> t \<le> now)"

definition oldestActiveSettlementAgeMs :: "SettlementJobRecord list \<Rightarrow> int \<Rightarrow> int" where
  "oldestActiveSettlementAgeMs jobs now =
     foldl (\<lambda>oldest job. max oldest (now - sj_createdAt job)) 0 (filter (stuckJob now) jobs)"

datatype SettlementOverduePauseAction = ArmPause | ResolvePause | NoPauseAction

record SettlementOverduePauseInput =
  sop_oldestStuckAgeMs :: int
  sop_settlementMaxPendingMs :: int
  sop_activePauseReason :: "string option"
  sop_activePauseResolved :: bool

definition settlementOverduePauseAction ::
  "SettlementOverduePauseInput \<Rightarrow> SettlementOverduePauseAction" where
  "settlementOverduePauseAction inp =
     (if sop_oldestStuckAgeMs inp > sop_settlementMaxPendingMs inp \<and> sop_activePauseResolved inp
      then ArmPause
      else if sop_activePauseReason inp = Some ''settlement_overdue''
         \<and> \<not> sop_activePauseResolved inp
         \<and> sop_oldestStuckAgeMs inp \<le> sop_settlementMaxPendingMs inp
      then ResolvePause
      else NoPauseAction)"

section \<open>The daily equity baseline\<close>

record DailyEquityBaselineScope =
  des_walletAddress :: js_text
  des_agentInstanceId :: js_text

record DailyEquityBaseline =
  deb_day :: string
  deb_equityUsd :: jsnum

text \<open>
  The names of a scope are texts of UTF-16 code units; a name with a lone surrogate makes
  \<^verbatim>\<open>encodeURIComponent\<close> raise a \<^verbatim>\<open>URIError\<close>, a defect no handler catches, and the keys, the load
  and the store are \<open>None\<close>.
\<close>

definition dailyBaselineKeys :: "DailyEquityBaselineScope \<Rightarrow> (string \<times> string) option" where
  "dailyBaselineKeys scope =
     (case (encodeURIComponent (des_walletAddress scope), encodeURIComponent (des_agentInstanceId scope)) of
        (Some w, Some a) \<Rightarrow>
          let prefix = ''dailyBaseline:'' @ w @ '':'' @ a
          in Some (prefix @ '':day'', prefix @ '':equityUsd'')
      | _ \<Rightarrow> None)"

text \<open>
  The metadata table is a map; a read that fails gives \<^verbatim>\<open>null\<close>, which is \<open>None\<close> as for a missing
  key, and a batch that fails (\<open>\<not> written\<close>) leaves the table as it is.  The conversions
  \<^verbatim>\<open>Number(text)\<close> and \<^verbatim>\<open>String(number)\<close> are parameters.
\<close>

definition loadDailyEquityBaseline ::
  "(string \<Rightarrow> jsnum) \<Rightarrow> (string \<Rightarrow> string option) \<Rightarrow> DailyEquityBaselineScope
   \<Rightarrow> DailyEquityBaseline option" where
  "loadDailyEquityBaseline to_number metadata scope =
     (case dailyBaselineKeys scope of
        None \<Rightarrow> None
      | Some (dayKey, equityKey) \<Rightarrow>
          let equityUsd = (case metadata equityKey of None \<Rightarrow> Fin 0 | Some equity \<Rightarrow> to_number equity)
          in Some \<lparr>deb_day = nullish (metadata dayKey) '''',
               deb_equityUsd = (if is_finite equityUsd \<and> jge equityUsd (Fin 0) then equityUsd else Fin 0)\<rparr>)"

definition persistDailyEquityBaseline ::
  "(jsnum \<Rightarrow> string) \<Rightarrow> bool \<Rightarrow> (string \<Rightarrow> string option) \<Rightarrow> DailyEquityBaselineScope
   \<Rightarrow> DailyEquityBaseline \<Rightarrow> (string \<Rightarrow> string option) option" where
  "persistDailyEquityBaseline to_string written metadata scope baseline =
     (case dailyBaselineKeys scope of
        None \<Rightarrow> None
      | Some (dayKey, equityKey) \<Rightarrow>
          Some (if \<not> written then metadata
            else metadata(dayKey \<mapsto> deb_day baseline, equityKey \<mapsto> to_string (deb_equityUsd baseline))))"

section \<open>Blocking, arming and clearing agree\<close>

lemma pause_blocks_iff:
  "safetyPauseBlockReason mode pause action \<noteq> None \<longleftrightarrow>
     mode \<noteq> Some ModeShadow \<and> (\<exists>p. pause = Some p \<and> spr_resolvedAt p = None) \<and>
     (action = ENTER \<or> action = REBALANCE)"
  by (cases action) (auto simp: safetyPauseBlockReason_def isActionAllowedDuringSafetyPause_def
      split: option.splits)

text \<open>
  C15. A pause is never cleared and armed again for the same reason in one pass: outside shadow mode
  (and outside the day rollover of a canary, which starts a new baseline) the conditions that clear
  a drawdown pause or an execution-failure pause exclude the ones that arm it, a settlement pause is
  only cleared when no job is overdue, and a quiet cycle, whose failure count is reset, always
  clears an execution-failure pause and cannot arm one.
\<close>
theorem pause_never_toggles:
  assumes "mode \<noteq> ModeShadow" "\<not> (mode = ModeCanary \<and> rolled)"
  shows "(shouldAutoResolveDailyDrawdownPause \<lparr>dar_mode = mode,
        dar_dailyDrawdownPct = spt_dailyDrawdownPct inp,
        dar_maxDailyDrawdownPct = spt_maxDailyDrawdownPct inp, dar_dayRolledOver = rolled\<rparr> \<longrightarrow>
      shouldTriggerSafetyPause inp \<noteq> Some DailyDrawdown) \<and>
    (shouldAutoResolveExecutionFailuresPause \<lparr>ear_mode = mode,
        ear_consecutiveExecutionFailures = spt_consecutiveExecutionFailures inp,
        ear_maxConsecutiveExecutionFailures = spt_maxConsecutiveExecutionFailures inp\<rparr> \<longrightarrow>
      shouldTriggerSafetyPause inp \<noteq> Some ExecutionFailures) \<and>
    (settlementOverduePauseAction \<lparr>sop_oldestStuckAgeMs = spt_oldestSettlementAgeMs inp,
        sop_settlementMaxPendingMs = spt_settlementMaxPendingMs inp,
        sop_activePauseReason = reason, sop_activePauseResolved = resolved\<rparr> = ResolvePause \<longrightarrow>
      shouldTriggerSafetyPause inp \<noteq> Some SettlementOverdue) \<and>
    shouldAutoResolveExecutionFailuresPause \<lparr>ear_mode = mode,
      ear_consecutiveExecutionFailures = decayExecutionFailureCounter n 0,
      ear_maxConsecutiveExecutionFailures = spt_maxConsecutiveExecutionFailures inp\<rparr> \<and>
    shouldTriggerSafetyPause (inp\<lparr>spt_consecutiveExecutionFailures :=
      decayExecutionFailureCounter n 0\<rparr>) \<noteq> Some ExecutionFailures"
proof -
  have d: "\<not> (jgt m (Fin 0) \<and> jle m (Fin 0))" "\<not> (jlt x m \<and> jge x m)" for x m
    using jlt_asym by blast+
  have "shouldTriggerSafetyPause inp \<noteq> Some DailyDrawdown" if
    "shouldAutoResolveDailyDrawdownPause \<lparr>dar_mode = mode,
        dar_dailyDrawdownPct = spt_dailyDrawdownPct inp,
        dar_maxDailyDrawdownPct = spt_maxDailyDrawdownPct inp, dar_dayRolledOver = rolled\<rparr>"
  proof -
    from that assms have "jle (spt_maxDailyDrawdownPct inp) (Fin 0) \<or>
        jlt (spt_dailyDrawdownPct inp) (spt_maxDailyDrawdownPct inp)"
      by (cases mode) (auto simp: shouldAutoResolveDailyDrawdownPause_def split: if_splits)
    then show ?thesis using d by (auto simp: shouldTriggerSafetyPause_def)
  qed
  moreover have "shouldTriggerSafetyPause inp \<noteq> Some ExecutionFailures" if
    "shouldAutoResolveExecutionFailuresPause \<lparr>ear_mode = mode,
        ear_consecutiveExecutionFailures = spt_consecutiveExecutionFailures inp,
        ear_maxConsecutiveExecutionFailures = spt_maxConsecutiveExecutionFailures inp\<rparr>"
    using that assms(1) by (cases mode)
      (auto simp: shouldAutoResolveExecutionFailuresPause_def shouldTriggerSafetyPause_def
        split: if_splits)
  moreover have "shouldTriggerSafetyPause inp \<noteq> Some SettlementOverdue" if
    "settlementOverduePauseAction \<lparr>sop_oldestStuckAgeMs = spt_oldestSettlementAgeMs inp,
        sop_settlementMaxPendingMs = spt_settlementMaxPendingMs inp,
        sop_activePauseReason = reason, sop_activePauseResolved = resolved\<rparr> = ResolvePause"
    using that by (auto simp: settlementOverduePauseAction_def shouldTriggerSafetyPause_def
        split: if_splits)
  moreover have "shouldAutoResolveExecutionFailuresPause \<lparr>ear_mode = mode,
      ear_consecutiveExecutionFailures = decayExecutionFailureCounter n 0,
      ear_maxConsecutiveExecutionFailures = spt_maxConsecutiveExecutionFailures inp\<rparr>"
    by (cases mode) (auto simp: shouldAutoResolveExecutionFailuresPause_def
        decayExecutionFailureCounter_def)
  moreover have "shouldTriggerSafetyPause (inp\<lparr>spt_consecutiveExecutionFailures :=
      decayExecutionFailureCounter n 0\<rparr>) \<noteq> Some ExecutionFailures"
    by (auto simp: shouldTriggerSafetyPause_def decayExecutionFailureCounter_def split: if_splits)
  ultimately show ?thesis by blast
qed

lemma pause_never_toggles_witness:
  "shouldTriggerSafetyPause \<lparr>spt_dailyDrawdownPct = Fin 3, spt_maxDailyDrawdownPct = Fin 5,
     spt_consecutiveCoreDataFailures = 0, spt_consecutiveExecutionFailures = 4,
     spt_maxConsecutiveExecutionFailures = 3, spt_oldestSettlementAgeMs = 0,
     spt_settlementMaxPendingMs = 60000\<rparr> \<noteq> Some DailyDrawdown"
proof -
  let ?i = "\<lparr>spt_dailyDrawdownPct = Fin 3, spt_maxDailyDrawdownPct = Fin 5,
     spt_consecutiveCoreDataFailures = 0, spt_consecutiveExecutionFailures = 4,
     spt_maxConsecutiveExecutionFailures = 3, spt_oldestSettlementAgeMs = 0,
     spt_settlementMaxPendingMs = 60000\<rparr>"
  have "shouldAutoResolveDailyDrawdownPause \<lparr>dar_mode = ModeLive,
        dar_dailyDrawdownPct = spt_dailyDrawdownPct ?i,
        dar_maxDailyDrawdownPct = spt_maxDailyDrawdownPct ?i, dar_dayRolledOver = False\<rparr>"
    by (simp add: shouldAutoResolveDailyDrawdownPause_def)
  then show ?thesis using pause_never_toggles [of ModeLive False ?i None True 0] by blast
qed

section \<open>Retries are bounded and stuck jobs are found\<close>

lemma retry_delay_bounds:
  "now + 1000 \<le> nextSettlementRetryAt now attempts \<and>
   nextSettlementRetryAt now attempts \<le> now + 1800000"
proof -
  have "(1::int) \<le> 2 ^ nat (max 0 (min (attempts - 1) 30))" by simp
  then show ?thesis by (simp add: nextSettlementRetryAt_def)
qed

lemma retry_delay_mono:
  assumes "a \<le> b"
  shows "nextSettlementRetryAt now a \<le> nextSettlementRetryAt now b"
proof -
  have "nat (max 0 (min (a - 1) 30)) \<le> nat (max 0 (min (b - 1) 30))" using assms by auto
  then have "(2::int) ^ nat (max 0 (min (a - 1) 30)) \<le> 2 ^ nat (max 0 (min (b - 1) 30))"
    by (rule power_increasing) simp
  then show ?thesis
    by (simp only: nextSettlementRetryAt_def Let_def add_le_cancel_left) (rule min.mono; simp)
qed

lemma foldl_max_gt_iff:
  fixes f :: "'a \<Rightarrow> int"
  shows "m < foldl (\<lambda>a x. max a (f x)) a xs \<longleftrightarrow> m < a \<or> (\<exists>x \<in> set xs. m < f x)"
  by (induction xs arbitrary: a) auto

lemma oldest_age_gt_iff:
  "0 \<le> m \<Longrightarrow> m < oldestActiveSettlementAgeMs jobs now \<longleftrightarrow>
     (\<exists>job \<in> set jobs. stuckJob now job \<and> m < now - sj_createdAt job)"
  by (auto simp: oldestActiveSettlementAgeMs_def foldl_max_gt_iff)

text \<open>
  C24. A settlement pause is armed exactly when no pause is active and some job that is neither
  final nor waiting for a scheduled retry is older than the window; and a job whose retry was just
  scheduled is never such a job, for every attempt count, because the retry lies between one second
  and thirty minutes ahead, further ahead the more attempts were made.
\<close>
theorem overdue_pause_exact:
  assumes "0 \<le> maxPending"
  shows "(settlementOverduePauseAction
        \<lparr>sop_oldestStuckAgeMs = oldestActiveSettlementAgeMs jobs now,
         sop_settlementMaxPendingMs = maxPending, sop_activePauseReason = reason,
         sop_activePauseResolved = resolved\<rparr> = ArmPause \<longleftrightarrow>
      resolved \<and> (\<exists>job \<in> set jobs. stuckJob now job \<and> maxPending < now - sj_createdAt job)) \<and>
    \<not> stuckJob now (job\<lparr>sj_nextRetryAt := Some (nextSettlementRetryAt now attempts)\<rparr>) \<and>
    now + 1000 \<le> nextSettlementRetryAt now attempts \<and>
    nextSettlementRetryAt now attempts \<le> now + 1800000 \<and>
    nextSettlementRetryAt now attempts \<le> nextSettlementRetryAt now (attempts + 1)"
  using oldest_age_gt_iff [OF assms, of jobs now] retry_delay_bounds [of now attempts]
    retry_delay_mono [of attempts "attempts + 1" now]
  by (auto simp: settlementOverduePauseAction_def stuckJob_def)

lemma overdue_pause_exact_witness:
  "settlementOverduePauseAction \<lparr>sop_oldestStuckAgeMs = oldestActiveSettlementAgeMs [] 7,
     sop_settlementMaxPendingMs = 1000, sop_activePauseReason = None,
     sop_activePauseResolved = True\<rparr> \<noteq> ArmPause \<and> nextSettlementRetryAt 7 3 \<le> 1800007"
  using overdue_pause_exact [of 1000 "[]" 7 None True 3] by simp

section \<open>Baselines of different scopes never mix\<close>

lemma split_at_colon:
  assumes "a @ '':'' @ x = b @ '':'' @ y" "CHR '':'' \<notin> set a" "CHR '':'' \<notin> set b"
  shows "a = b \<and> x = y"
proof -
  have "takeWhile (\<lambda>c. c \<noteq> CHR '':'') (z @ '':'' @ w) = z" if "CHR '':'' \<notin> set z" for z w
    using that by (induction z) auto
  then have "a = b" using assms by metis
  then show ?thesis using assms(1) by simp
qed

lemma baseline_keys_iff:
  "dailyBaselineKeys scope \<noteq> None \<longleftrightarrow>
     well_paired (des_walletAddress scope) \<and> well_paired (des_agentInstanceId scope)"
  by (auto simp: dailyBaselineKeys_def Let_def encode_defined [symmetric] split: option.splits)

lemma baseline_keys_inj:
  assumes "dailyBaselineKeys scope = Some (d, e)" "dailyBaselineKeys scope' = Some (d', e')"
    "scope \<noteq> (scope' :: DailyEquityBaselineScope)"
  shows "d \<noteq> d' \<and> e \<noteq> e'"
proof -
  obtain w a where wa: "encodeURIComponent (des_walletAddress scope) = Some w"
    "encodeURIComponent (des_agentInstanceId scope) = Some a"
    "d = ''dailyBaseline:'' @ w @ '':'' @ a @ '':day''" "e = ''dailyBaseline:'' @ w @ '':'' @ a @ '':equityUsd''"
    using assms(1) by (auto simp: dailyBaselineKeys_def Let_def split: option.splits)
  obtain w' a' where wa': "encodeURIComponent (des_walletAddress scope') = Some w'"
    "encodeURIComponent (des_agentInstanceId scope') = Some a'"
    "d' = ''dailyBaseline:'' @ w' @ '':'' @ a' @ '':day''" "e' = ''dailyBaseline:'' @ w' @ '':'' @ a' @ '':equityUsd''"
    using assms(2) by (auto simp: dailyBaselineKeys_def Let_def split: option.splits)
  have "scope = scope'" if "w @ '':'' @ a = w' @ '':'' @ a'"
    using split_at_colon [OF that] wa(1,2) wa'(1,2) encoded_no_colon encode_inj by fastforce
  then have ne: "w @ '':'' @ a \<noteq> w' @ '':'' @ a'" using assms(3) by blast
  have "d = d' \<longleftrightarrow> w @ '':'' @ a = w' @ '':'' @ a'"
  proof
    assume "d = d'"
    then have "(w @ '':'' @ a) @ '':day'' = (w' @ '':'' @ a') @ '':day''" using wa(3) wa'(3) by simp
    then show "w @ '':'' @ a = w' @ '':'' @ a'" by (rule append_same_eq [THEN iffD1])
  qed (use wa(3) wa'(3) in simp)
  moreover have "e = e' \<longleftrightarrow> w @ '':'' @ a = w' @ '':'' @ a'"
  proof
    assume "e = e'"
    then have "(w @ '':'' @ a) @ '':equityUsd'' = (w' @ '':'' @ a') @ '':equityUsd''" using wa(4) wa'(4) by simp
    then show "w @ '':'' @ a = w' @ '':'' @ a'" by (rule append_same_eq [THEN iffD1])
  qed (use wa(4) wa'(4) in simp)
  ultimately show ?thesis using ne by blast
qed

lemma baseline_keys_differ:
  assumes "dailyBaselineKeys scope = Some (d, e)" "dailyBaselineKeys scope' = Some (d', e')"
  shows "d \<noteq> e'"
proof
  assume "d = e'"
  then have "last d = last e'" by simp
  then show False using assms by (auto simp: dailyBaselineKeys_def Let_def split: option.splits)
qed

text \<open>
  C25. Storing a daily equity baseline fails exactly when the wallet or agent name has an unpaired
  surrogate.  After a store that is written, the load for the same wallet and agent gives the stored
  day and the number the stored text reads back as, or zero when that is negative or not finite; so
  a finite non-negative equity whose text reads back as itself comes back unchanged.  The baseline of
  every other wallet or agent is left as it was, whatever code units their names consist of, and a
  store that is not written changes nothing.
\<close>
theorem baseline_roundtrip:
  shows "(persistDailyEquityBaseline to_string written metadata scope baseline = None \<longleftrightarrow>
      \<not> (well_paired (des_walletAddress scope) \<and> well_paired (des_agentInstanceId scope))) \<and>
    (\<forall>stored. persistDailyEquityBaseline to_string written metadata scope baseline = Some stored \<longrightarrow>
      (\<not> written \<longrightarrow> stored = metadata) \<and>
      (written \<longrightarrow> loadDailyEquityBaseline to_number stored scope =
        Some \<lparr>deb_day = deb_day baseline,
          deb_equityUsd = (let e = to_number (to_string (deb_equityUsd baseline))
             in if is_finite e \<and> jle (Fin 0) e then e else Fin 0)\<rparr>) \<and>
      (\<forall>scope'. scope' \<noteq> scope \<longrightarrow>
        loadDailyEquityBaseline to_number stored scope' = loadDailyEquityBaseline to_number metadata scope'))"
proof (intro conjI allI impI)
  show "persistDailyEquityBaseline to_string written metadata scope baseline = None \<longleftrightarrow>
      \<not> (well_paired (des_walletAddress scope) \<and> well_paired (des_agentInstanceId scope))"
    unfolding baseline_keys_iff [symmetric]
    by (auto simp: persistDailyEquityBaseline_def split: option.splits)
next
  fix stored assume p: "persistDailyEquityBaseline to_string written metadata scope baseline = Some stored"
  then obtain d e where k: "dailyBaselineKeys scope = Some (d, e)"
    by (auto simp: persistDailyEquityBaseline_def split: option.splits)
  have st: "stored = (if \<not> written then metadata
      else metadata(d \<mapsto> deb_day baseline, e \<mapsto> to_string (deb_equityUsd baseline)))"
    using p k by (simp add: persistDailyEquityBaseline_def)
  show "\<not> written \<Longrightarrow> stored = metadata" using st by simp
  show "written \<Longrightarrow> loadDailyEquityBaseline to_number stored scope =
        Some \<lparr>deb_day = deb_day baseline,
          deb_equityUsd = (let e = to_number (to_string (deb_equityUsd baseline))
             in if is_finite e \<and> jle (Fin 0) e then e else Fin 0)\<rparr>"
    using st k baseline_keys_differ [OF k k] by (simp add: loadDailyEquityBaseline_def Let_def)
  fix scope' assume ne: "scope' \<noteq> scope"
  show "loadDailyEquityBaseline to_number stored scope' = loadDailyEquityBaseline to_number metadata scope'"
  proof (cases "dailyBaselineKeys scope'")
    case None
    then show ?thesis by (simp add: loadDailyEquityBaseline_def)
  next
    case (Some q)
    then obtain d' e' where k': "dailyBaselineKeys scope' = Some (d', e')" by (cases q) simp
    show ?thesis using st k' baseline_keys_inj [OF k' k ne] baseline_keys_differ [OF k' k]
        baseline_keys_differ [OF k k'] by (simp add: loadDailyEquityBaseline_def)
  qed
qed

text \<open>The agent named by a grinning face (one surrogate pair) and the wallet \<^verbatim>\<open>a:b\<close>.\<close>

definition sampleScope :: DailyEquityBaselineScope where
  "sampleScope = \<lparr>des_walletAddress = [97, 58, 98], des_agentInstanceId = [0xD83D, 0xDE00]\<rparr>"

lemma sample_scalars:
  "utf16_scalars [97, 58, 98] = Some [97, 58, 98]" "utf16_scalars [0xD83D, 0xDE00] = Some [128512]"
  by (simp_all add: high_surrogate_nat low_surrogate_nat pair_scalar_def)

lemma sample_codes:
  "uri_scalar 97 = ''a''" "uri_scalar 58 = ''%3A''" "uri_scalar 98 = ''b''"
  "uri_scalar 128512 = ''%F0%9F%98%80''"
  by (simp_all add: uri_scalar_def uri_unreserved_def utf8_bytes_def percent_byte_def hex_digit_def
      char_of_def bit_iff_odd)

lemma sample_keys:
  "dailyBaselineKeys sampleScope =
     Some (''dailyBaseline:a%3Ab:%F0%9F%98%80:day'', ''dailyBaseline:a%3Ab:%F0%9F%98%80:equityUsd'')"
  by (simp add: dailyBaselineKeys_def sampleScope_def encodeURIComponent_def sample_scalars
      sample_codes del: utf16_scalars.simps)

lemma baseline_roundtrip_witness:
  "loadDailyEquityBaseline (\<lambda>_. Fin 250)
     (Map.empty(''dailyBaseline:a%3Ab:%F0%9F%98%80:day'' \<mapsto> ''2026-01-01'',
        ''dailyBaseline:a%3Ab:%F0%9F%98%80:equityUsd'' \<mapsto> ''250'')) sampleScope
     = Some \<lparr>deb_day = ''2026-01-01'', deb_equityUsd = Fin 250\<rparr>"
proof -
  have p: "persistDailyEquityBaseline (\<lambda>_. ''250'') True Map.empty sampleScope
      \<lparr>deb_day = ''2026-01-01'', deb_equityUsd = Fin 250\<rparr>
    = Some (Map.empty(''dailyBaseline:a%3Ab:%F0%9F%98%80:day'' \<mapsto> ''2026-01-01'',
        ''dailyBaseline:a%3Ab:%F0%9F%98%80:equityUsd'' \<mapsto> ''250''))"
    by (simp add: persistDailyEquityBaseline_def sample_keys)
  show ?thesis
    using baseline_roundtrip [of "\<lambda>_. ''250''" True Map.empty sampleScope
        "\<lparr>deb_day = ''2026-01-01'', deb_equityUsd = Fin 250\<rparr>" "\<lambda>_. Fin 250",
        THEN conjunct2, rule_format, OF p] by simp
qed

end
