(* ===== verification/Settlement.thy ===== *)
theory Settlement
  imports SafetyPause PnlAccounting EntrySizing PositionExits Backoff "HOL-Library.Signed_Division"
begin

text \<open>
  The settlement of swept tokens (\<^verbatim>\<open>engine/autonomous-runtime.ts\<close>, second part): one pass over a
  job (resolve an earlier broadcast by its on-chain status, or quote, simulate and submit a fresh
  swap), the finalization of a position's jobs, and the sweep of orphaned wallet tokens.  What the
  chain, the swap API and the database answer during a pass is the record \<open>SettlementReplies\<close>;
  what a pass does to them is a trace of events.  A typed failure is \<open>Inl\<close> of its message.
\<close>

section \<open>Steps with effects and failures\<close>

record SwapQuoteRequest =
  sq_inputMint :: string
  sq_outputMint :: string
  sq_amountAtomic :: int
  sq_slippageBps :: int

datatype SettlementEvent =
    SwapQuoted SwapQuoteRequest
  | SwapBroadcast string
  | JobSaved SettlementJobRecord

type_synonym 'a step = "(string + 'a) \<times> SettlementEvent list"

definition succeed :: "'a \<Rightarrow> 'a step" where
  "succeed a = (Inr a, [])"

definition fail_with :: "string \<Rightarrow> 'a step" where
  "fail_with e = (Inl e, [])"

definition lift_reply :: "string + 'a \<Rightarrow> 'a step" where
  "lift_reply r = (r, [])"

definition emit :: "SettlementEvent \<Rightarrow> unit step" where
  "emit ev = (Inr (), [ev])"

definition and_then :: "'a step \<Rightarrow> ('a \<Rightarrow> 'b step) \<Rightarrow> 'b step" where
  "and_then m f =
     (case m of
        (Inl e, t) \<Rightarrow> (Inl e, t)
      | (Inr a, t) \<Rightarrow> (fst (f a), t @ snd (f a)))"

section \<open>Replies of the surroundings\<close>

datatype SwapState = SwapNotFound | SwapProcessed | SwapConfirmed | SwapFinalized | SwapFailed

text \<open>
  An operation the adapter may lack is an \<open>option\<close>.  \<open>sr_submitBroadcast\<close> is the signature that the
  submission hands to its broadcast callback, if it gets that far, and \<open>sr_submitSwap\<close> what the
  submission finally returns; \<open>sr_savePrepared\<close> and \<open>sr_saveFinal\<close> are the outcomes of the two row
  writes around it and \<open>sr_saveSubmitted\<close> whether the callback's write succeeds (how the submission
  reacts to a failing callback is part of its result).
\<close>

record SettlementReplies =
  sr_swapStatus :: "(string + SwapState) option"
  sr_swapOutput :: "(string + (int \<times> int) option) option"
  sr_tokenPrices :: "string + (string \<Rightarrow> jsnum option)"
  sr_nativeBalanceReader :: "(string + int) option"
  sr_tokenBalanceReader :: "(string + int) option"
  sr_tokenDecimals :: "string + nat"
  sr_quoteSwap :: "(SwapQuoteRequest \<Rightarrow> string + unit) option"
  sr_prepareSwap :: "(string + unit) option"
  sr_simulateSwap :: "(string + unit) option"
  sr_hasSubmitSwap :: bool
  sr_nativeBefore :: "string + int"
  sr_savePrepared :: "string + unit"
  sr_submitBroadcast :: "string option"
  sr_saveSubmitted :: bool
  sr_submitSwap :: "string + string"
  sr_nativeAfter :: "string + int"
  sr_saveFinal :: bool

record SettlementProcessorInput =
  spi_mode :: AutonomousTokenMode
  spi_now :: int
  spi_maxSwapSlippageBps :: int
  spi_settlementDustUsd :: "jsnum option"
  spi_liveCloseTxCostUsd :: "jsnum option"
  spi_liveClaimTxCostUsd :: "jsnum option"

definition atomicUsd :: "int \<Rightarrow> nat \<Rightarrow> jsnum \<Rightarrow> jsnum" where
  "atomicUsd amountAtomic decimals priceUsd =
     (let scale = 10 ^ decimals; whole = amountAtomic sdiv scale; remainder = amountAtomic smod scale
      in jmul (jadd (of_bigint whole) (jdiv (of_bigint remainder) (of_bigint scale))) priceUsd)"

section \<open>Transient errors\<close>

text \<open>
  The two regular expressions, on the lower-cased message: a status code 408, 425, 429 or 5xx,
  ending at a word boundary, in one of the three HTTP contexts, and the list of network messages.
\<close>

definition is_digit :: "char \<Rightarrow> bool" where
  "is_digit c = (let n = of_char c :: nat in 48 \<le> n \<and> n \<le> 57)"

definition is_word :: "char \<Rightarrow> bool" where
  "is_word c = (let n = of_char c :: nat
     in 48 \<le> n \<and> n \<le> 57 \<or> 65 \<le> n \<and> n \<le> 90 \<or> 97 \<le> n \<and> n \<le> 122 \<or> n = 95)"

definition transient_code :: "string \<Rightarrow> bool" where
  "transient_code s \<longleftrightarrow>
     (take 3 s \<in> {''408'', ''425'', ''429''} \<or>
      length s \<ge> 3 \<and> hd s = CHR ''5'' \<and> is_digit (s ! 1) \<and> is_digit (s ! 2)) \<and>
     (case drop 3 s of [] \<Rightarrow> True | c # _ \<Rightarrow> \<not> is_word c)"

definition skip_colon :: "string \<Rightarrow> string" where
  "skip_colon s = (case s of [] \<Rightarrow> [] | c # cs \<Rightarrow> if c = CHR '':'' then cs else s)"

definition status_context :: "string \<Rightarrow> bool" where
  "status_context s \<longleftrightarrow>
     list_ex (\<lambda>p. starts_with s p \<and> transient_code (dropWhile is_space (skip_colon (drop (length p) s))))
       [''failed'', ''http'']"

definition http_version_context :: "string \<Rightarrow> bool" where
  "http_version_context s \<longleftrightarrow> starts_with s ''http/'' \<and>
     (case drop 5 s of
        [] \<Rightarrow> False
      | d # r \<Rightarrow> is_digit d \<and>
          (let r' = (if length r \<ge> 2 \<and> hd r = CHR ''.'' \<and> is_digit (r ! 1) then drop 2 r else r)
           in (case r' of [] \<Rightarrow> False | c # _ \<Rightarrow> is_space c) \<and> transient_code (dropWhile is_space r')))"

definition status_code_context :: "string \<Rightarrow> bool" where
  "status_code_context s \<longleftrightarrow> starts_with s ''status code '' \<and> transient_code (drop 12 s)"

fun test_from :: "(string \<Rightarrow> bool) \<Rightarrow> string \<Rightarrow> bool" where
  "test_from p [] \<longleftrightarrow> p []"
| "test_from p (c # cs) \<longleftrightarrow> p (c # cs) \<or> test_from p cs"

definition TRANSIENT_HTTP_STATUS :: "string \<Rightarrow> bool" where
  "TRANSIENT_HTTP_STATUS s \<longleftrightarrow>
     test_from (\<lambda>r. status_context r \<or> http_version_context r \<or> status_code_context r) (to_lower s)"

definition TRANSIENT_NETWORK :: "string \<Rightarrow> bool" where
  "TRANSIENT_NETWORK s \<longleftrightarrow>
     list_ex (str_includes (to_lower s))
       [''fetch failed'', ''timeout'', ''timed out'', ''timedout'', ''aborted'', ''econnreset'',
        ''enotfound'', ''etimedout'', ''eai_again'', ''socket hang up'', ''connection refused'',
        ''connection reset'', ''network error'', ''too many requests'']"

definition isTransientSettlementError :: "string \<Rightarrow> bool" where
  "isTransientSettlementError message \<longleftrightarrow> TRANSIENT_HTTP_STATUS message \<or> TRANSIENT_NETWORK message"

section \<open>Rows for failures and waiting\<close>

definition retryableJob :: "SettlementJobRecord \<Rightarrow> int \<Rightarrow> string \<Rightarrow> SettlementJobRecord" where
  "retryableJob job now error =
     (let attempts = sj_attempts job + 1;
          transient = isTransientSettlementError error;
          expired = \<not> transient \<and> now \<ge> sj_expiresAt job
      in job\<lparr>sj_status := (if expired then Terminal else Retryable),
             sj_attempts := attempts,
             sj_nextRetryAt := (if expired then None else Some (nextSettlementRetryAt now attempts)),
             sj_error := Some error,
             sj_updatedAt := now\<rparr>)"

definition reconciliationJob :: "SettlementJobRecord \<Rightarrow> int \<Rightarrow> string \<Rightarrow> SettlementJobRecord" where
  "reconciliationJob job now error =
     job\<lparr>sj_status := Prepared, sj_attempts := sj_attempts job + 1, sj_nextRetryAt := None,
         sj_error := Some error, sj_updatedAt := now\<rparr>"

definition retainSubmittedSettlement ::
  "SettlementProcessorInput \<Rightarrow> SettlementJobRecord \<Rightarrow> SettlementJobRecord" where
  "retainSubmittedSettlement inp job =
     (let attempts = sj_attempts job + 1; expired = spi_now inp \<ge> sj_expiresAt job
      in job\<lparr>sj_status := (if expired then Terminal else Submitted),
             sj_attempts := attempts,
             sj_nextRetryAt := (if expired then None
                                else Some (nextSettlementRetryAt (spi_now inp) attempts)),
             sj_error := (if expired
               then Some ''Swap signature not found until expiry - requires operator reconciliation''
               else sj_error job),
             sj_updatedAt := spi_now inp\<rparr>)"

section \<open>Resolving a broadcast swap\<close>

definition sol_price :: "(string \<Rightarrow> jsnum option) \<Rightarrow> jsnum" where
  "sol_price prices = nullish (prices SOL_MINT) (Fin 0)"

definition confirmFromSwapEvidence ::
  "SettlementProcessorInput \<Rightarrow> SettlementReplies \<Rightarrow> SettlementJobRecord
   \<Rightarrow> SettlementJobRecord option step" where
  "confirmFromSwapEvidence inp env job =
     (case sr_swapOutput env of
        None \<Rightarrow> succeed None
      | Some getOutput \<Rightarrow>
          and_then (lift_reply getOutput) (\<lambda>evidence.
            case evidence of
              None \<Rightarrow> succeed None
            | Some (outputAtomic, feeAtomic) \<Rightarrow>
                if outputAtomic \<le> 0 then succeed None
                else and_then (lift_reply (sr_tokenPrices env)) (\<lambda>prices.
                  let solPriceUsd = sol_price prices
                  in if \<not> jgt solPriceUsd (Fin 0)
                     then succeed (Some (reconciliationJob job (spi_now inp)
                       ''Confirmed swap output found but SOL price unavailable for USD conversion''))
                     else succeed (Some (job\<lparr>sj_status := Confirmed,
                       sj_confirmedOutputAtomic := Some outputAtomic,
                       sj_outputUsd := Some (atomicUsd outputAtomic 9 solPriceUsd),
                       sj_executionCostUsd := Some (atomicUsd feeAtomic 9 solPriceUsd),
                       sj_nextRetryAt := None, sj_error := None,
                       sj_updatedAt := spi_now inp\<rparr>)))))"

definition outcomeRecorded :: "SettlementJobRecord \<Rightarrow> bool" where
  "outcomeRecorded job \<longleftrightarrow> sj_confirmedOutputAtomic job \<noteq> None \<and> sj_outputUsd job \<noteq> None
     \<and> sj_executionCostUsd job \<noteq> None"

definition confirmBroadcastSettlement ::
  "SettlementProcessorInput \<Rightarrow> SettlementReplies \<Rightarrow> SettlementJobRecord \<Rightarrow> SettlementJobRecord step" where
  "confirmBroadcastSettlement inp env job =
     (if outcomeRecorded job
      then succeed (job\<lparr>sj_status := Confirmed, sj_nextRetryAt := None, sj_error := None,
                        sj_updatedAt := spi_now inp\<rparr>)
      else and_then (confirmFromSwapEvidence inp env job) (\<lambda>confirmed.
        case confirmed of
          Some j \<Rightarrow> succeed j
        | None \<Rightarrow> succeed (reconciliationJob job (spi_now inp)
                     ''Confirmed swap output evidence unavailable'')))"

definition hasSignature :: "SettlementJobRecord \<Rightarrow> bool" where
  "hasSignature job \<longleftrightarrow> (case sj_txSignature job of None \<Rightarrow> False | Some s \<Rightarrow> s \<noteq> [])"

definition resolveBroadcastSettlement ::
  "SettlementProcessorInput \<Rightarrow> SettlementReplies \<Rightarrow> SettlementJobRecord
   \<Rightarrow> SettlementJobRecord option step" where
  "resolveBroadcastSettlement inp env job =
     (if \<not> hasSignature job then succeed None
      else case sr_swapStatus env of
        None \<Rightarrow> succeed None
      | Some getStatus \<Rightarrow>
          and_then (lift_reply getStatus) (\<lambda>status.
            if status = SwapConfirmed \<or> status = SwapFinalized
            then and_then (confirmBroadcastSettlement inp env job) (\<lambda>j. succeed (Some j))
            else if status = SwapProcessed
            then succeed (Some (job\<lparr>sj_status := Submitted,
              sj_nextRetryAt := Some (nextSettlementRetryAt (spi_now inp) (sj_attempts job + 1)),
              sj_updatedAt := spi_now inp\<rparr>))
            else if status = SwapNotFound then succeed (Some (retainSubmittedSettlement inp job))
            else succeed None))"

section \<open>The fresh swap\<close>

definition clampSettlementToWalletBalance ::
  "SettlementReplies \<Rightarrow> SettlementJobRecord \<Rightarrow> int \<Rightarrow> int" where
  "clampSettlementToWalletBalance env job amountAtomic =
     (case (if sj_tokenMint job = SOL_MINT then sr_nativeBalanceReader env else sr_tokenBalanceReader env) of
        None \<Rightarrow> amountAtomic
      | Some (Inl _) \<Rightarrow> amountAtomic
      | Some (Inr balance) \<Rightarrow> if balance \<ge> amountAtomic then amountAtomic else balance)"

definition dust_record ::
  "SettlementJobRecord \<Rightarrow> int \<Rightarrow> jsnum \<Rightarrow> string \<Rightarrow> int \<Rightarrow> SettlementJobRecord" where
  "dust_record job amountAtomic inputUsd error now =
     job\<lparr>sj_status := Confirmed, sj_attempts := sj_attempts job + 1, sj_nextRetryAt := None,
         sj_confirmedOutputAtomic := Some amountAtomic, sj_outputUsd := Some inputUsd,
         sj_executionCostUsd := Some (Fin 0), sj_error := Some error, sj_updatedAt := now\<rparr>"

definition dustSettlementRecord ::
  "SettlementProcessorInput \<Rightarrow> SettlementJobRecord \<Rightarrow> int \<Rightarrow> nat \<Rightarrow> jsnum \<Rightarrow> SettlementJobRecord option" where
  "dustSettlementRecord inp job amountAtomic inputDecimals inputPriceUsd =
     (let settlementDustUsd = nullish (spi_settlementDustUsd inp) (Fin 0);
          inputUsd = atomicUsd amountAtomic inputDecimals inputPriceUsd;
          syntheticSettlementGroup =
            starts_with (sj_positionId job) ''orphan:'' \<or> starts_with (sj_positionId job) ''rollback:''
      in if jgt settlementDustUsd (Fin 0) \<and> jgt inputPriceUsd (Fin 0) \<and> jlt inputUsd settlementDustUsd
         then Some (dust_record job amountAtomic inputUsd ''settlement dust skipped'' (spi_now inp))
         else if jgt settlementDustUsd (Fin 0) \<and> syntheticSettlementGroup
            \<and> jle inputPriceUsd (Fin 0)
         then Some (dust_record job amountAtomic inputUsd
                ''settlement dust skipped (no USD price)'' (spi_now inp))
         else None)"

definition isSkippableSettlementJob :: "SettlementJobRecord \<Rightarrow> int \<Rightarrow> bool" where
  "isSkippableSettlementJob job now \<longleftrightarrow>
     sj_status job = Terminal
     \<or> (case sj_nextRetryAt job of None \<Rightarrow> False | Some t \<Rightarrow> t > now)
     \<or> sj_status job = Confirmed \<and> outcomeRecorded job"

definition earlySettlementResult ::
  "SettlementJobRecord \<Rightarrow> int \<Rightarrow> jsnum \<Rightarrow> int \<Rightarrow> SettlementJobRecord option" where
  "earlySettlementResult job amountAtomic solPriceUsd now =
     (if amountAtomic \<le> 0
      then Some (job\<lparr>sj_status := Terminal, sj_attempts := sj_attempts job + 1,
             sj_nextRetryAt := None,
             sj_error := Some ''Settlement amount exhausted - wallet holds no balance of the mint (concurrent activity consumed it)'',
             sj_updatedAt := now\<rparr>)
      else if sj_tokenMint job = SOL_MINT
      then Some (job\<lparr>sj_status := Confirmed, sj_confirmedOutputAtomic := Some amountAtomic,
             sj_outputUsd := Some (atomicUsd amountAtomic 9 solPriceUsd),
             sj_executionCostUsd := Some (Fin 0), sj_attempts := sj_attempts job + 1,
             sj_nextRetryAt := None, sj_error := None, sj_updatedAt := now\<rparr>)
      else None)"

definition buildConfirmedSettlement ::
  "SettlementJobRecord \<Rightarrow> int \<Rightarrow> int \<Rightarrow> jsnum \<Rightarrow> nat \<Rightarrow> jsnum \<Rightarrow> string \<Rightarrow> int \<Rightarrow> SettlementJobRecord" where
  "buildConfirmedSettlement job amountAtomic confirmedOutputAtomic solPriceUsd inputDecimals
       inputPriceUsd signature now =
     (let outputUsd = atomicUsd confirmedOutputAtomic 9 solPriceUsd;
          realizedInputUsd = (if jgt inputPriceUsd (Fin 0)
            then atomicUsd amountAtomic inputDecimals inputPriceUsd else outputUsd)
      in job\<lparr>sj_status := Confirmed, sj_attempts := sj_attempts job + 1, sj_nextRetryAt := None,
             sj_txSignature := Some signature,
             sj_confirmedOutputAtomic := Some confirmedOutputAtomic,
             sj_outputUsd := Some outputUsd,
             sj_executionCostUsd := Some (jmax (Fin 0) (jsub realizedInputUsd outputUsd)),
             sj_error := None, sj_updatedAt := now\<rparr>)"

definition requireSettlementSwapOps ::
  "SettlementReplies \<Rightarrow> ((SwapQuoteRequest \<Rightarrow> string + unit) \<times> (string + unit) \<times> (string + unit)) step" where
  "requireSettlementSwapOps env =
     (case (sr_quoteSwap env, sr_prepareSwap env, sr_simulateSwap env) of
        (Some q, Some p, Some s) \<Rightarrow>
          if sr_hasSubmitSwap env then succeed (q, p, s)
          else fail_with ''Generic settlement swap operations unavailable''
      | _ \<Rightarrow> fail_with ''Generic settlement swap operations unavailable'')"

definition preparedRow :: "SettlementProcessorInput \<Rightarrow> SettlementJobRecord \<Rightarrow> SettlementJobRecord" where
  "preparedRow inp job =
     job\<lparr>sj_status := Prepared, sj_attempts := sj_attempts job + 1,
         sj_confirmedOutputAtomic := None, sj_outputUsd := None, sj_executionCostUsd := None,
         sj_updatedAt := spi_now inp\<rparr>"

definition submittedRow ::
  "SettlementProcessorInput \<Rightarrow> SettlementJobRecord \<Rightarrow> string \<Rightarrow> SettlementJobRecord" where
  "submittedRow inp job broadcastSignature =
     job\<lparr>sj_status := Submitted, sj_attempts := sj_attempts job + 1,
         sj_nextRetryAt := Some (nextSettlementRetryAt (spi_now inp) (sj_attempts job + 1)),
         sj_txSignature := Some broadcastSignature, sj_updatedAt := spi_now inp\<rparr>"

text \<open>
  The events of the submission: the broadcast through the callback with its row write, or, for a
  submission that returns a signature without having called back, the broadcast alone.
\<close>

definition submitEvents ::
  "SettlementProcessorInput \<Rightarrow> SettlementReplies \<Rightarrow> SettlementJobRecord \<Rightarrow> SettlementEvent list" where
  "submitEvents inp env job =
     (case sr_submitBroadcast env of
        Some s \<Rightarrow> SwapBroadcast s #
          (if sr_saveSubmitted env then [JobSaved (submittedRow inp job s)] else [])
      | None \<Rightarrow> (case sr_submitSwap env of Inl _ \<Rightarrow> [] | Inr s \<Rightarrow> [SwapBroadcast s]))"

text \<open>
  From the submission on: a failure before any broadcast propagates, a failure after it becomes a
  row for reconciliation that carries the captured signature and the output measured so far.
\<close>

definition submitSettlement ::
  "SettlementProcessorInput \<Rightarrow> SettlementReplies \<Rightarrow> SettlementJobRecord \<Rightarrow> int \<Rightarrow> jsnum \<Rightarrow> nat \<Rightarrow> jsnum
   \<Rightarrow> int \<Rightarrow> SettlementJobRecord step" where
  "submitSettlement inp env job amountAtomic solPriceUsd inputDecimals inputPriceUsd nativeBefore =
     (let reconcile = (\<lambda>signature output error. reconciliationJob
            (job\<lparr>sj_txSignature := signature, sj_confirmedOutputAtomic := Some output\<rparr>)
            (spi_now inp) error)
      in (case sr_submitSwap env of
            Inl error \<Rightarrow>
              (case sr_submitBroadcast env of
                 None \<Rightarrow> Inl error
               | Some s \<Rightarrow> Inr (reconcile (Some s) 0 error))
          | Inr signature \<Rightarrow>
              (case sr_nativeAfter env of
                 Inl error \<Rightarrow> Inr (reconcile (Some signature) 0 error)
               | Inr nativeAfter \<Rightarrow>
                   if nativeAfter > nativeBefore
                   then Inr (buildConfirmedSettlement job amountAtomic (nativeAfter - nativeBefore)
                          solPriceUsd inputDecimals inputPriceUsd signature (spi_now inp))
                   else Inr (reconcile (Some signature) 0
                          ''Settlement output balance delta unavailable'')),
          submitEvents inp env job))"

definition quoteAndSubmitSettlement ::
  "SettlementProcessorInput \<Rightarrow> SettlementReplies \<Rightarrow> SettlementJobRecord \<Rightarrow> int \<Rightarrow> jsnum \<Rightarrow> nat \<Rightarrow> jsnum
   \<Rightarrow> SettlementJobRecord step" where
  "quoteAndSubmitSettlement inp env job amountAtomic solPriceUsd inputDecimals inputPriceUsd =
     and_then (requireSettlementSwapOps env) (\<lambda>(quoteSwap, prepareSwap, simulateSwap).
     let request = \<lparr>sq_inputMint = sj_tokenMint job, sq_outputMint = SOL_MINT,
           sq_amountAtomic = amountAtomic, sq_slippageBps = spi_maxSwapSlippageBps inp\<rparr>
     in and_then (emit (SwapQuoted request)) (\<lambda>_.
     and_then (lift_reply (quoteSwap request)) (\<lambda>_.
     and_then (lift_reply prepareSwap) (\<lambda>_.
     and_then (lift_reply simulateSwap) (\<lambda>_.
     and_then (lift_reply (sr_nativeBefore env)) (\<lambda>nativeBefore.
     and_then (lift_reply (sr_savePrepared env)) (\<lambda>_.
     and_then (emit (JobSaved (preparedRow inp job))) (\<lambda>_.
       submitSettlement inp env job amountAtomic solPriceUsd inputDecimals inputPriceUsd
         nativeBefore))))))))"

section \<open>One pass over a job\<close>

definition freshSettlement ::
  "SettlementProcessorInput \<Rightarrow> SettlementReplies \<Rightarrow> SettlementJobRecord \<Rightarrow> SettlementJobRecord step" where
  "freshSettlement inp env job =
     (if sj_status job = Prepared \<and> sj_txSignature job = None
      then fail_with ''Prepared settlement requires operator reconciliation''
      else and_then (lift_reply (sr_tokenPrices env)) (\<lambda>prices.
        let solPriceUsd = sol_price prices
        in if \<not> jgt solPriceUsd (Fin 0) then fail_with ''SOL price unavailable''
           else let amountAtomic = clampSettlementToWalletBalance env job (sj_amountAtomic job)
             in case earlySettlementResult job amountAtomic solPriceUsd (spi_now inp) of
                  Some early \<Rightarrow> succeed early
                | None \<Rightarrow> and_then (lift_reply (sr_tokenDecimals env)) (\<lambda>inputDecimals.
                    let inputPriceUsd = nullish (prices (sj_tokenMint job)) (Fin 0)
                    in case dustSettlementRecord inp job amountAtomic inputDecimals inputPriceUsd of
                         Some dust \<Rightarrow> succeed dust
                       | None \<Rightarrow> quoteAndSubmitSettlement inp env job amountAtomic solPriceUsd
                           inputDecimals inputPriceUsd)))"

definition settleJob ::
  "SettlementProcessorInput \<Rightarrow> SettlementReplies \<Rightarrow> SettlementJobRecord \<Rightarrow> SettlementJobRecord step" where
  "settleJob inp env job =
     and_then (resolveBroadcastSettlement inp env job) (\<lambda>broadcast.
       case broadcast of
         Some j \<Rightarrow> succeed j
       | None \<Rightarrow> freshSettlement inp env job)"

definition settlementResult ::
  "SettlementProcessorInput \<Rightarrow> SettlementReplies \<Rightarrow> SettlementJobRecord \<Rightarrow> SettlementJobRecord" where
  "settlementResult inp env job =
     (case fst (settleJob inp env job) of
        Inl error \<Rightarrow> retryableJob job (spi_now inp) error
      | Inr j \<Rightarrow> j)"

definition processOneSettlementJob ::
  "SettlementProcessorInput \<Rightarrow> SettlementReplies \<Rightarrow> SettlementJobRecord
   \<Rightarrow> SettlementJobRecord option \<times> SettlementEvent list" where
  "processOneSettlementJob inp env job =
     (if isSkippableSettlementJob job (spi_now inp) then (Some job, [])
      else let result = settlementResult inp env job; trace = snd (settleJob inp env job)
        in if sr_saveFinal env then (Some result, trace @ [JobSaved result]) else (None, trace))"

section \<open>All due jobs and the finalization of positions\<close>

fun group_add :: "'k \<Rightarrow> 'a \<Rightarrow> ('k \<times> 'a list) list \<Rightarrow> ('k \<times> 'a list) list" where
  "group_add k x [] = [(k, [x])]"
| "group_add k x ((l, ys) # gs) = (if k = l then (l, ys @ [x]) # gs else (l, ys) # group_add k x gs)"

text \<open>\<^verbatim>\<open>Map.groupBy\<close>: groups in the order of their first element, elements in the given order.\<close>

definition group_by :: "('a \<Rightarrow> 'k) \<Rightarrow> 'a list \<Rightarrow> ('k \<times> 'a list) list" where
  "group_by f xs = foldl (\<lambda>gs x. group_add (f x) x gs) [] xs"

record SettledPosition =
  stp_depositedUsd :: jsnum
  stp_timestamp :: int
  stp_cumulativeFeesClaimedUsd :: jsnum
  stp_cumulativeRewardsClaimedUsd :: jsnum
  stp_realizedPnlUsd :: "jsnum option"
  stp_entrySignalSnapshotId :: "string option"

record FinalizeSettlementGroup =
  fsg_positionId :: string
  fsg_realizedPnlUsd :: jsnum
  fsg_jobIds :: "string list"
  fsg_finalizedAt :: int
  fsg_signalSnapshotId :: "string option"

definition settlementPnlUsd ::
  "SettlementProcessorInput \<Rightarrow> SettledPosition \<Rightarrow> SettlementJobRecord list \<Rightarrow> jsnum" where
  "settlementPnlUsd inp position jobs =
     (let outputUsd = jsum (map (\<lambda>j. nullish (sj_outputUsd j) (Fin 0)) jobs);
          executionCostUsd = jsum (map (\<lambda>j. nullish (sj_executionCostUsd j) (Fin 0)) jobs);
          closeCostsUsd = liveCloseCostsUsd
            \<lparr>lcc_positionSizeUsd = stp_depositedUsd position,
             lcc_ageDays = jdiv (of_bigint (max (spi_now inp - stp_timestamp position) 0)) (Fin 86400000),
             lcc_swapCostPct = Fin 0,
             lcc_harvestCostUsd = nullish (spi_liveClaimTxCostUsd inp) (Fin 0),
             lcc_txCostUsd = nullish (spi_liveCloseTxCostUsd inp) (Fin 0)\<rparr>
      in computeNetRealizedPnlUsd
           \<lparr>nrp_finalValueUsd = jadd outputUsd executionCostUsd,
            nrp_cumulativeFeesClaimedUsd = stp_cumulativeFeesClaimedUsd position,
            nrp_cumulativeRewardsClaimedUsd = stp_cumulativeRewardsClaimedUsd position,
            nrp_costBasisUsd = stp_depositedUsd position,
            nrp_settlementCostUsd = executionCostUsd,
            nrp_executionCostUsd = closeCostsUsd\<rparr>)"

definition finalizeGroup ::
  "SettlementProcessorInput \<Rightarrow> (string \<Rightarrow> SettledPosition option) \<Rightarrow> string \<times> SettlementJobRecord list
   \<Rightarrow> FinalizeSettlementGroup option" where
  "finalizeGroup inp getPosition = (\<lambda>(positionId, jobs).
     if filter (\<lambda>j. sj_finalizedAt j = None) jobs = [] then None
     else if list_ex (\<lambda>j. sj_status j \<noteq> Confirmed) jobs then None
     else if \<not> list_all (\<lambda>j. sj_outputUsd j \<noteq> None \<and> sj_executionCostUsd j \<noteq> None) jobs then None
     else case getPosition positionId of
       None \<Rightarrow> None
     | Some position \<Rightarrow> Some
         \<lparr>fsg_positionId = positionId,
          fsg_realizedPnlUsd =
            nullish (stp_realizedPnlUsd position) (settlementPnlUsd inp position jobs),
          fsg_jobIds = map sj_id jobs,
          fsg_finalizedAt = spi_now inp,
          fsg_signalSnapshotId = stp_entrySignalSnapshotId position\<rparr>)"

definition finalizeSettlementGroups ::
  "SettlementProcessorInput \<Rightarrow> (string \<Rightarrow> SettledPosition option) \<Rightarrow> SettlementJobRecord list
   \<Rightarrow> FinalizeSettlementGroup list" where
  "finalizeSettlementGroups inp getPosition processed =
     List.map_filter (finalizeGroup inp getPosition) (group_by sj_positionId processed)"

text \<open>Each job comes with the replies its own pass meets.\<close>

definition processSettlementJobs ::
  "SettlementProcessorInput \<Rightarrow> (string \<Rightarrow> SettledPosition option)
   \<Rightarrow> (SettlementJobRecord \<times> SettlementReplies) list
   \<Rightarrow> SettlementJobRecord list \<times> SettlementEvent list \<times> FinalizeSettlementGroup list" where
  "processSettlementJobs inp getPosition jobs =
     (if spi_mode inp = ModeOff \<or> spi_mode inp = ModeShadow then (map fst jobs, [], [])
      else let passes = map (\<lambda>(job, env). processOneSettlementJob inp env job) jobs;
               processed = List.map_filter fst passes
        in (processed, concat (map snd passes), finalizeSettlementGroups inp getPosition processed))"

section \<open>The sweep of orphaned tokens\<close>

record OrphanSettlementSweepInput =
  oss_walletAddress :: string
  oss_agentInstanceId :: string
  oss_settlementMaxPendingMs :: int
  oss_settlementDustUsd :: jsnum
  oss_now :: int

text \<open>
  What the sweep reads; \<open>None\<close> is a failed read.  \<open>osr_uuid\<close> gives the random id drawn for the
  n-th holding, \<open>osr_poolState\<close> the two mints of a pool.
\<close>

record OrphanSweepReplies =
  osr_hasWallet :: bool
  osr_holdings :: "(string \<times> (int \<times> nat)) list option"
  osr_settlementJobs :: "SettlementJobRecord list option"
  osr_positions :: "(string \<times> string) list option"
  osr_poolState :: "string \<Rightarrow> (string \<times> string) option"
  osr_tokenPrices :: "(string \<Rightarrow> jsnum option) option"
  osr_uuid :: "nat \<Rightarrow> string"

definition loadPositionBackedMints :: "OrphanSweepReplies \<Rightarrow> string list" where
  "loadPositionBackedMints env =
     (let pools = map snd (filter (\<lambda>(positionId, _). \<not> starts_with positionId ''paper-'')
            (nullish (osr_positions env) []))
      in concat (map (\<lambda>pool. case osr_poolState env pool of None \<Rightarrow> [] | Some (x, y) \<Rightarrow> [x, y]) pools))"

definition revivable :: "SettlementJobRecord \<Rightarrow> bool" where
  "revivable job \<longleftrightarrow> sj_status job = Terminal \<and> sj_confirmedOutputAtomic job = None
     \<and> sj_txSignature job = None"

definition terminalOrphanByMint :: "SettlementJobRecord list \<Rightarrow> string \<Rightarrow> SettlementJobRecord option" where
  "terminalOrphanByMint existingJobs =
     map_of (rev (map (\<lambda>job. (sj_tokenMint job, job)) (filter revivable existingJobs)))"

definition isOrphanDust :: "int \<Rightarrow> nat \<Rightarrow> jsnum \<Rightarrow> jsnum \<Rightarrow> bool" where
  "isOrphanDust amountAtomic decimals priceUsd settlementDustUsd =
     (if jle settlementDustUsd (Fin 0) then False
      else if jle priceUsd (Fin 0) then True
      else jlt (atomicUsd amountAtomic decimals priceUsd) settlementDustUsd)"

definition nextOrphanSweepJob ::
  "OrphanSettlementSweepInput \<Rightarrow> string \<Rightarrow> string \<Rightarrow> int \<times> nat \<Rightarrow> string list \<Rightarrow> string list
   \<Rightarrow> (string \<Rightarrow> SettlementJobRecord option) \<Rightarrow> jsnum \<Rightarrow> SettlementJobRecord option" where
  "nextOrphanSweepJob inp uuid mint holding activeJobMints positionBackedMints terminalByMint priceUsd =
     (let amountAtomic = fst holding; decimals = snd holding; now = oss_now inp
      in if mint = SOL_MINT \<or> amountAtomic \<le> 0 then None
      else if mint \<in> set activeJobMints then None
      else if mint \<in> set positionBackedMints \<and> terminalByMint mint = None then None
      else if isOrphanDust amountAtomic decimals priceUsd (oss_settlementDustUsd inp) then None
      else case terminalByMint mint of
        Some terminal \<Rightarrow> Some (terminal\<lparr>sj_status := Pending, sj_attempts := sj_attempts terminal + 1,
            sj_amountAtomic := amountAtomic, sj_nextRetryAt := Some now,
            sj_expiresAt := now + oss_settlementMaxPendingMs inp, sj_error := None,
            sj_updatedAt := now\<rparr>)
      | None \<Rightarrow> Some
          \<lparr>sj_id = uuid, sj_walletAddress = oss_walletAddress inp,
           sj_agentInstanceId = oss_agentInstanceId inp, sj_positionId = ''orphan:'' @ uuid,
           sj_poolAddress = '''', sj_tokenMint = mint, sj_amountAtomic = amountAtomic,
           sj_destinationAsset = SolAsset, sj_status = Pending, sj_attempts = 0,
           sj_nextRetryAt = Some now, sj_txSignature = None, sj_confirmedOutputAtomic = None,
           sj_outputUsd = None, sj_executionCostUsd = None, sj_finalizedAt = None,
           sj_realizedPnlUsd = None, sj_expiresAt = now + oss_settlementMaxPendingMs inp,
           sj_error = None, sj_createdAt = now, sj_updatedAt = now\<rparr>)"

definition activeJobMints :: "SettlementJobRecord list \<Rightarrow> string list" where
  "activeJobMints existingJobs =
     map sj_tokenMint (filter (\<lambda>j. sj_status j \<noteq> Terminal \<and> sj_status j \<noteq> Confirmed) existingJobs)"

definition sweepOrphanSettlements ::
  "OrphanSettlementSweepInput \<Rightarrow> OrphanSweepReplies \<Rightarrow> SettlementJobRecord list" where
  "sweepOrphanSettlements inp env =
     (let holdings = nullish (osr_holdings env) [];
          candidates = filter (\<lambda>(mint, amountAtomic, _). mint \<noteq> SOL_MINT \<and> amountAtomic > 0) holdings;
          existingJobs = nullish (osr_settlementJobs env) [];
          prices = nullish (osr_tokenPrices env) (\<lambda>_. None)
      in if \<not> osr_hasWallet env then []
         else if candidates = [] then []
         else List.map_filter (\<lambda>(n, mint, holding).
                nextOrphanSweepJob inp (osr_uuid env n) mint holding (activeJobMints existingJobs)
                  (loadPositionBackedMints env) (terminalOrphanByMint existingJobs)
                  (nullish (prices mint) (Fin 0)))
              (zip [0..<length holdings] holdings))"

section \<open>The trace of a pass\<close>

lemma step_simps [simp]:
  "fst (succeed a) = Inr a" "snd (succeed a) = []"
  "fst (fail_with e) = Inl e" "snd (fail_with e) = []"
  "fst (lift_reply r) = r" "snd (lift_reply r) = []"
  "fst (emit ev) = Inr ()" "snd (emit ev) = [ev]"
  by (simp_all add: succeed_def fail_with_def lift_reply_def emit_def)

lemma fst_and_then [simp]:
  "fst (and_then m f) = (case fst m of Inl e \<Rightarrow> Inl e | Inr a \<Rightarrow> fst (f a))"
  by (cases m) (auto simp: and_then_def split: sum.split)

lemma snd_and_then [simp]:
  "snd (and_then m f) = snd m @ (case fst m of Inl _ \<Rightarrow> [] | Inr a \<Rightarrow> snd (f a))"
  by (cases m) (auto simp: and_then_def split: sum.split)

lemma resolve_no_events [simp]: "snd (resolveBroadcastSettlement inp env job) = []"
  by (auto simp: resolveBroadcastSettlement_def confirmBroadcastSettlement_def
      confirmFromSwapEvidence_def Let_def split: option.split sum.split)

lemma resolve_fresh:
  assumes "fst (resolveBroadcastSettlement inp env job) = Inr None"
  shows "\<not> hasSignature job \<or> sr_swapStatus env = None \<or> sr_swapStatus env = Some (Inr SwapFailed)"
proof (cases "hasSignature job")
  case True
  show ?thesis
  proof (cases "sr_swapStatus env")
    case (Some r)
    then obtain st where "r = Inr st" using assms True
      by (cases r) (auto simp: resolveBroadcastSettlement_def)
    with Some True assms show ?thesis
      by (cases st) (auto simp: resolveBroadcastSettlement_def split: sum.splits)
  qed simp
qed simp

lemma require_ops_events [simp]: "snd (requireSettlementSwapOps env) = []"
  by (auto simp: requireSettlementSwapOps_def split: option.split)

lemma quote_trace:
  assumes "r = \<lparr>sq_inputMint = sj_tokenMint job, sq_outputMint = SOL_MINT, sq_amountAtomic = a,
      sq_slippageBps = spi_maxSwapSlippageBps inp\<rparr>"
  shows "(\<exists>e. quoteAndSubmitSettlement inp env job a p d ip = (Inl e, [])) \<or>
    (\<exists>e. quoteAndSubmitSettlement inp env job a p d ip = (Inl e, [SwapQuoted r])) \<or>
    (\<exists>b. quoteAndSubmitSettlement inp env job a p d ip =
        (fst (submitSettlement inp env job a p d ip b),
         [SwapQuoted r, JobSaved (preparedRow inp job)] @ submitEvents inp env job))"
proof (cases "fst (requireSettlementSwapOps env)")
  case (Inl e)
  then have "quoteAndSubmitSettlement inp env job a p d ip = (Inl e, [])"
    by (simp add: prod_eq_iff quoteAndSubmitSettlement_def)
  then show ?thesis by blast
next
  case (Inr ops)
  then obtain q pr si where ops: "fst (requireSettlementSwapOps env) = Inr (q, pr, si)"
    by (cases ops) auto
  have t: "snd (submitSettlement inp env job a p d ip b) = submitEvents inp env job" for b
    by (simp add: submitSettlement_def Let_def)
  consider e where "q r = Inl e" | e where "q r = Inr ()" "pr = Inl e"
    | e where "q r = Inr ()" "pr = Inr ()" "si = Inl e"
    | e where "q r = Inr ()" "pr = Inr ()" "si = Inr ()" "sr_nativeBefore env = Inl e"
    | b e where "q r = Inr ()" "pr = Inr ()" "si = Inr ()" "sr_nativeBefore env = Inr b"
        "sr_savePrepared env = Inl e"
    | b where "q r = Inr ()" "pr = Inr ()" "si = Inr ()" "sr_nativeBefore env = Inr b"
        "sr_savePrepared env = Inr ()"
    by (metis (full_types) old.unit.exhaust sum.exhaust)
  then show ?thesis
    by cases (auto simp: prod_eq_iff quoteAndSubmitSettlement_def ops Let_def assms [symmetric] t)
qed

lemma fresh_cases:
  "snd (freshSettlement inp env job) = [] \<and>
     (\<forall>j. fst (freshSettlement inp env job) = Inr j \<longrightarrow> sj_txSignature j = sj_txSignature job) \<or>
   (\<exists>p d ip. freshSettlement inp env job =
      quoteAndSubmitSettlement inp env job (clampSettlementToWalletBalance env job (sj_amountAtomic job)) p d ip \<and>
      \<not> (sj_status job = Prepared \<and> sj_txSignature job = None) \<and>
      0 < clampSettlementToWalletBalance env job (sj_amountAtomic job) \<and> sj_tokenMint job \<noteq> SOL_MINT)"
proof (cases "sr_tokenPrices env")
  case (Inl e)
  then show ?thesis by (simp add: freshSettlement_def)
next
  case prices: (Inr prices)
  let ?a = "clampSettlementToWalletBalance env job (sj_amountAtomic job)"
  consider "sj_status job = Prepared \<and> sj_txSignature job = None"
    | "\<not> jgt (sol_price prices) (Fin 0)"
    | j where "earlySettlementResult job ?a (sol_price prices) (spi_now inp) = Some j"
    | "\<not> (sj_status job = Prepared \<and> sj_txSignature job = None)" "jgt (sol_price prices) (Fin 0)"
      "earlySettlementResult job ?a (sol_price prices) (spi_now inp) = None"
    by blast
  then show ?thesis
  proof cases
    case (3 j)
    then have "sj_txSignature j = sj_txSignature job"
      by (auto simp: earlySettlementResult_def split: if_splits)
    with 3 show ?thesis by (simp add: freshSettlement_def prices Let_def)
  next
    case 4
    then have a: "0 < ?a" "sj_tokenMint job \<noteq> SOL_MINT"
      by (auto simp: earlySettlementResult_def split: if_splits)
    show ?thesis
    proof (cases "sr_tokenDecimals env")
      case (Inl e)
      then show ?thesis using 4 prices by (simp add: freshSettlement_def Let_def)
    next
      case (Inr d)
      let ?ip = "nullish (prices (sj_tokenMint job)) (Fin 0)"
      show ?thesis
      proof (cases "dustSettlementRecord inp job ?a d ?ip")
        case None
        then have "freshSettlement inp env job =
            quoteAndSubmitSettlement inp env job ?a (sol_price prices) d ?ip"
          using 4 prices Inr by (auto simp: prod_eq_iff freshSettlement_def Let_def)
        then show ?thesis using 4 a by blast
      next
        case (Some j)
        then have "sj_txSignature j = sj_txSignature job"
          by (auto simp: dustSettlementRecord_def dust_record_def Let_def split: if_splits)
        then show ?thesis using 4 prices Inr Some by (simp add: freshSettlement_def Let_def)
      qed
    qed
  qed (auto simp: freshSettlement_def prices Let_def)
qed

lemma resolve_signature:
  assumes "fst (resolveBroadcastSettlement inp env job) = Inr (Some j)"
  shows "sj_txSignature j = sj_txSignature job"
proof -
  have evidence: "sj_txSignature k = sj_txSignature job"
    if "fst (confirmFromSwapEvidence inp env job) = Inr (Some k)" for k
    using that by (auto simp: confirmFromSwapEvidence_def reconciliationJob_def Let_def
        split: option.splits sum.splits if_splits)
  have confirm: "sj_txSignature k = sj_txSignature job"
    if "fst (confirmBroadcastSettlement inp env job) = Inr k" for k
    using that evidence by (auto simp: confirmBroadcastSettlement_def reconciliationJob_def
        split: option.splits sum.splits if_splits)
  show ?thesis
  proof (cases "sr_swapStatus env")
    case (Some r)
    then obtain st where "r = Inr st" "hasSignature job" using assms
      by (cases r) (auto simp: resolveBroadcastSettlement_def split: if_splits)
    with Some assms confirm show ?thesis
      by (cases st) (auto simp: resolveBroadcastSettlement_def retainSubmittedSettlement_def Let_def
          split: sum.splits)
  qed (use assms in \<open>simp add: resolveBroadcastSettlement_def split: if_splits\<close>)
qed

lemma settle_cases:
  "snd (settleJob inp env job) = [] \<and>
     (\<forall>j. fst (settleJob inp env job) = Inr j \<longrightarrow> sj_txSignature j = sj_txSignature job) \<or>
   (\<exists>p d ip. settleJob inp env job =
      quoteAndSubmitSettlement inp env job (clampSettlementToWalletBalance env job (sj_amountAtomic job)) p d ip \<and>
      \<not> (sj_status job = Prepared \<and> sj_txSignature job = None) \<and>
      (\<not> hasSignature job \<or> sr_swapStatus env = None \<or> sr_swapStatus env = Some (Inr SwapFailed)) \<and>
      0 < clampSettlementToWalletBalance env job (sj_amountAtomic job) \<and> sj_tokenMint job \<noteq> SOL_MINT)"
proof (cases "fst (resolveBroadcastSettlement inp env job)")
  case (Inr r)
  show ?thesis
  proof (cases r)
    case None
    then have "settleJob inp env job = freshSettlement inp env job"
      using Inr by (simp add: prod_eq_iff settleJob_def)
    then show ?thesis using fresh_cases [of inp env job] resolve_fresh Inr None by fastforce
  next
    case (Some j)
    then show ?thesis using Inr resolve_signature [of inp env job j] by (simp add: settleJob_def)
  qed
qed (simp add: settleJob_def)

section \<open>What a pass may sell\<close>

lemma clamp_le: "clampSettlementToWalletBalance env job a \<le> a"
  by (auto simp: clampSettlementToWalletBalance_def split: option.split sum.split)

lemma clamp_balance:
  "sj_tokenMint job \<noteq> SOL_MINT \<Longrightarrow> sr_tokenBalanceReader env = Some (Inr b) \<Longrightarrow>
     clampSettlementToWalletBalance env job a \<le> b"
  by (simp add: clampSettlementToWalletBalance_def)

lemma process_trace:
  "snd (processOneSettlementJob inp env job) =
     (if isSkippableSettlementJob job (spi_now inp) then []
      else snd (settleJob inp env job) @
        (if sr_saveFinal env then [JobSaved (settlementResult inp env job)] else []))"
  by (simp add: processOneSettlementJob_def Let_def)

lemma submit_events_cases:
  "ev \<in> set (submitEvents inp env job) \<Longrightarrow>
     (\<exists>s. ev = SwapBroadcast s) \<or> (\<exists>s. ev = JobSaved (submittedRow inp job s))"
  by (auto simp: submitEvents_def split: option.splits sum.splits if_splits)

lemma settle_events:
  "snd (settleJob inp env job) = [] \<or>
   (let r = \<lparr>sq_inputMint = sj_tokenMint job, sq_outputMint = SOL_MINT,
       sq_amountAtomic = clampSettlementToWalletBalance env job (sj_amountAtomic job),
       sq_slippageBps = spi_maxSwapSlippageBps inp\<rparr>
    in (snd (settleJob inp env job) = [SwapQuoted r] \<or>
        snd (settleJob inp env job) =
          [SwapQuoted r, JobSaved (preparedRow inp job)] @ submitEvents inp env job) \<and>
      \<not> (sj_status job = Prepared \<and> sj_txSignature job = None) \<and>
      (\<not> hasSignature job \<or> sr_swapStatus env = None \<or> sr_swapStatus env = Some (Inr SwapFailed)) \<and>
      0 < clampSettlementToWalletBalance env job (sj_amountAtomic job) \<and> sj_tokenMint job \<noteq> SOL_MINT)"
  using settle_cases [of inp env job] quote_trace [OF refl]
  unfolding Let_def by (metis snd_conv)

text \<open>
  C4. One pass over a settlement job sells at most what it may: a token of the job's own mint, never
  SOL itself, for SOL, in a positive amount bounded by the job's amount and by the wallet's balance
  when that was read, with the configured slippage; it broadcasts only after such a quote and after
  the row was saved as prepared; and a job that already carries a signature sells again only when
  the chain reports that swap as failed (or the adapter cannot report a status).
\<close>
theorem settlement_sells_within_bounds:
  shows "(SwapQuoted r \<in> set (snd (processOneSettlementJob inp env job)) \<longrightarrow>
      sq_inputMint r = sj_tokenMint job \<and> sj_tokenMint job \<noteq> SOL_MINT \<and> sq_outputMint r = SOL_MINT \<and>
      0 < sq_amountAtomic r \<and> sq_amountAtomic r \<le> sj_amountAtomic job \<and>
      (\<forall>b. sr_tokenBalanceReader env = Some (Inr b) \<longrightarrow> sq_amountAtomic r \<le> b) \<and>
      sq_slippageBps r = spi_maxSwapSlippageBps inp) \<and>
    (SwapBroadcast s \<in> set (snd (processOneSettlementJob inp env job)) \<longrightarrow>
      (\<exists>r t. snd (processOneSettlementJob inp env job)
         = SwapQuoted r # JobSaved (preparedRow inp job) # t) \<and>
      (hasSignature job \<longrightarrow> sr_swapStatus env = None \<or> sr_swapStatus env = Some (Inr SwapFailed)))"
proof (cases "isSkippableSettlementJob job (spi_now inp)")
  case False
  show ?thesis using settle_events [of inp env job] clamp_le [of env job "sj_amountAtomic job"]
      clamp_balance [of job env _ "sj_amountAtomic job"]
    by (auto simp: process_trace False Let_def dest!: submit_events_cases)
qed (simp add: process_trace)

section \<open>Rows keep the signature of a broadcast\<close>

lemma submit_signature:
  assumes "sr_submitBroadcast env = Some s" "\<And>s'. sr_submitSwap env = Inr s' \<Longrightarrow> s' = s"
  shows "\<exists>j. fst (submitSettlement inp env job a p d ip b) = Inr j \<and> sj_txSignature j = Some s \<and>
    (sj_status j = Confirmed \<or> sj_status j = Prepared)"
  using assms
  by (auto simp: submitSettlement_def reconciliationJob_def buildConfirmedSettlement_def Let_def
      split: sum.splits)

text \<open>
  The documented behaviour of a submission: the signature it hands to the callback is not empty and
  is the one it returns, and it does not return one without having called back.
\<close>

definition honestSubmission :: "SettlementReplies \<Rightarrow> bool" where
  "honestSubmission env \<longleftrightarrow>
     sr_submitBroadcast env \<noteq> Some [] \<and>
     (case sr_submitSwap env of Inl _ \<Rightarrow> True | Inr s \<Rightarrow> sr_submitBroadcast env = Some s)"

lemma result_signature:
  assumes "honestSubmission env"
  shows "sj_txSignature (settlementResult inp env job) =
    (if \<exists>s. SwapBroadcast s \<in> set (snd (settleJob inp env job))
     then sr_submitBroadcast env else sj_txSignature job)"
proof -
  have retry: "sj_txSignature (retryableJob job now e) = sj_txSignature job" for now e
    by (simp add: retryableJob_def Let_def)
  let ?a = "clampSettlementToWalletBalance env job (sj_amountAtomic job)"
  from settle_cases [of inp env job] show ?thesis
  proof (rule disjE)
    assume "snd (settleJob inp env job) = [] \<and>
      (\<forall>j. fst (settleJob inp env job) = Inr j \<longrightarrow> sj_txSignature j = sj_txSignature job)"
    then show ?thesis by (auto simp: settlementResult_def retry split: sum.split)
  next
    assume "\<exists>p d ip. settleJob inp env job = quoteAndSubmitSettlement inp env job ?a p d ip \<and>
      \<not> (sj_status job = Prepared \<and> sj_txSignature job = None) \<and>
      (\<not> hasSignature job \<or> sr_swapStatus env = None \<or> sr_swapStatus env = Some (Inr SwapFailed)) \<and>
      0 < ?a \<and> sj_tokenMint job \<noteq> SOL_MINT"
    then obtain p d ip where
      eq: "settleJob inp env job = quoteAndSubmitSettlement inp env job ?a p d ip" by blast
    from quote_trace [OF refl, of inp env job ?a p d ip] show ?thesis
    proof (elim disjE exE)
      fix b
      assume q: "quoteAndSubmitSettlement inp env job ?a p d ip =
        (fst (submitSettlement inp env job ?a p d ip b),
         [SwapQuoted \<lparr>sq_inputMint = sj_tokenMint job, sq_outputMint = SOL_MINT, sq_amountAtomic = ?a,
            sq_slippageBps = spi_maxSwapSlippageBps inp\<rparr>, JobSaved (preparedRow inp job)]
          @ submitEvents inp env job)"
      show ?thesis
      proof (cases "sr_submitBroadcast env")
        case None
        then obtain e where e: "sr_submitSwap env = Inl e" using assms
          by (cases "sr_submitSwap env") (auto simp: honestSubmission_def)
        then have "fst (submitSettlement inp env job ?a p d ip b) = Inl e"
          using None by (simp add: submitSettlement_def Let_def)
        then show ?thesis using None e
          by (simp add: settlementResult_def eq q retry submitEvents_def)
      next
        case (Some s)
        then have "\<And>s'. sr_submitSwap env = Inr s' \<Longrightarrow> s' = s"
          using assms by (auto simp: honestSubmission_def)
        from submit_signature [OF Some this, of inp job ?a p d ip b] Some show ?thesis
          by (auto simp: settlementResult_def eq q submitEvents_def)
      qed
    qed (simp_all add: settlementResult_def eq retry)
  qed
qed

section \<open>A settlement over many passes\<close>

text \<open>
  A pass may be cut short: \<open>Some n\<close> keeps only the first n events.  The row that the next pass reads
  is the last one saved.  The run counts the broadcasts and the passes that saw a failed swap.
\<close>

record SettlementPass =
  sp_input :: SettlementProcessorInput
  sp_replies :: SettlementReplies
  sp_crash :: "nat option"

definition passTrace :: "SettlementPass \<Rightarrow> SettlementJobRecord \<Rightarrow> SettlementEvent list" where
  "passTrace pass job =
     (let t = snd (processOneSettlementJob (sp_input pass) (sp_replies pass) job)
      in case sp_crash pass of None \<Rightarrow> t | Some n \<Rightarrow> take n t)"

fun storedJob :: "SettlementJobRecord \<Rightarrow> SettlementEvent list \<Rightarrow> SettlementJobRecord" where
  "storedJob job [] = job"
| "storedJob job (JobSaved j # t) = storedJob j t"
| "storedJob job (SwapQuoted r # t) = storedJob job t"
| "storedJob job (SwapBroadcast s # t) = storedJob job t"

fun is_broadcast :: "SettlementEvent \<Rightarrow> bool" where
  "is_broadcast (SwapBroadcast s) = True"
| "is_broadcast (SwapQuoted r) = False"
| "is_broadcast (JobSaved j) = False"

record SettlementRun =
  sn_job :: SettlementJobRecord
  sn_broadcasts :: nat
  sn_failures :: nat

definition settlementPass :: "SettlementRun \<Rightarrow> SettlementPass \<Rightarrow> SettlementRun" where
  "settlementPass st pass =
     (let t = passTrace pass (sn_job st)
      in \<lparr>sn_job = storedJob (sn_job st) t,
          sn_broadcasts = sn_broadcasts st + length (filter is_broadcast t),
          sn_failures = sn_failures st +
            (if sr_swapStatus (sp_replies pass) = Some (Inr SwapFailed) then 1 else 0)\<rparr>)"

text \<open>
  A pass whose broadcast is recorded: the adapter reports statuses and submits honestly, the write
  of the callback succeeds, and the pass is not cut between the broadcast and that write.
\<close>

definition broadcastRecorded :: "SettlementPass \<Rightarrow> bool" where
  "broadcastRecorded pass \<longleftrightarrow>
     honestSubmission (sp_replies pass) \<and> sr_swapStatus (sp_replies pass) \<noteq> None \<and>
     sr_saveSubmitted (sp_replies pass) \<and> sp_crash pass \<noteq> Some 3"

definition soldOnce :: "SettlementRun \<Rightarrow> bool" where
  "soldOnce st \<longleftrightarrow>
     sn_broadcasts st \<le> sn_failures st + (if hasSignature (sn_job st) then 1 else 0)"

lemma storedJob_append: "storedJob job (t @ u) = storedJob (storedJob job t) u"
  by (induction job t rule: storedJob.induct) auto

lemma storedJob_cases: "storedJob job t = job \<or> JobSaved (storedJob job t) \<in> set t"
  by (induction job t rule: storedJob.induct) auto

lemma passTrace_subset:
  "set (passTrace pass job) \<subseteq>
     set (snd (processOneSettlementJob (sp_input pass) (sp_replies pass) job))"
  by (auto simp: passTrace_def Let_def split: option.splits dest: in_set_takeD)

lemma no_broadcast_signature:
  assumes "honestSubmission env" "\<forall>s. SwapBroadcast s \<notin> set (snd (processOneSettlementJob inp env job))"
    "JobSaved j \<in> set (snd (processOneSettlementJob inp env job))"
  shows "sj_txSignature j = sj_txSignature job"
proof -
  from assms(2,3) have no: "\<not> isSkippableSettlementJob job (spi_now inp)"
    "\<forall>s. SwapBroadcast s \<notin> set (snd (settleJob inp env job))"
    by (auto simp: process_trace split: if_splits)
  have "JobSaved j \<in> set (snd (settleJob inp env job)) \<Longrightarrow> j = preparedRow inp job"
    using settle_events [of inp env job] no(2)
    by (auto simp: Let_def submitEvents_def split: option.splits sum.splits if_splits)
  then show ?thesis using assms(3) no result_signature [OF assms(1), of inp job]
    by (auto simp: process_trace preparedRow_def split: if_splits)
qed

lemma broadcast_trace:
  assumes "honestSubmission env" "sr_saveSubmitted env" "sr_swapStatus env \<noteq> None"
    "SwapBroadcast s \<in> set (snd (processOneSettlementJob inp env job))"
  shows "s \<noteq> [] \<and> (\<not> hasSignature job \<or> sr_swapStatus env = Some (Inr SwapFailed)) \<and>
    sj_txSignature (settlementResult inp env job) = Some s \<and>
    (\<exists>r. snd (processOneSettlementJob inp env job) =
      [SwapQuoted r, JobSaved (preparedRow inp job), SwapBroadcast s, JobSaved (submittedRow inp job s)] @
      (if sr_saveFinal env then [JobSaved (settlementResult inp env job)] else []))"
proof -
  from assms(4) have b: "SwapBroadcast s \<in> set (snd (settleJob inp env job))"
    and sk: "\<not> isSkippableSettlementJob job (spi_now inp)"
    by (auto simp: process_trace split: if_splits)
  from b obtain r where t: "snd (settleJob inp env job) =
      [SwapQuoted r, JobSaved (preparedRow inp job)] @ submitEvents inp env job"
    and f: "\<not> hasSignature job \<or> sr_swapStatus env = Some (Inr SwapFailed)"
    using settle_events [of inp env job] assms(3) by (auto simp: Let_def)
  from b t have "SwapBroadcast s \<in> set (submitEvents inp env job)" by simp
  then have sb: "sr_submitBroadcast env = Some s"
    using assms(1) by (auto simp: submitEvents_def honestSubmission_def split: option.splits sum.splits if_splits)
  then have ne: "s \<noteq> []" using assms(1) by (auto simp: honestSubmission_def)
  have ev: "submitEvents inp env job = [SwapBroadcast s, JobSaved (submittedRow inp job s)]"
    using sb assms(2) by (simp add: submitEvents_def)
  have "sj_txSignature (settlementResult inp env job) = Some s"
    using result_signature [OF assms(1), of inp job] b sb by auto
  with ne f show ?thesis by (simp add: process_trace sk t ev)
qed

lemma settlementPass_soldOnce:
  assumes "soldOnce st" "broadcastRecorded pass"
  shows "soldOnce (settlementPass st pass)"
proof -
  let ?env = "sp_replies pass" and ?inp = "sp_input pass" and ?job = "sn_job st"
  let ?full = "snd (processOneSettlementJob ?inp ?env ?job)"
  from assms(2) have ok: "honestSubmission ?env" "sr_saveSubmitted ?env" "sr_swapStatus ?env \<noteq> None"
    and crash: "sp_crash pass \<noteq> Some 3" by (auto simp: broadcastRecorded_def)
  show ?thesis
  proof (cases "\<exists>s. SwapBroadcast s \<in> set ?full")
    case False
    have "SwapBroadcast s \<notin> set (passTrace pass ?job)" for s
      using False passTrace_subset by blast
    then have nb: "filter is_broadcast (passTrace pass ?job) = []"
      by (auto simp: filter_empty_conv elim!: is_broadcast.elims)
    have "sj_txSignature (storedJob ?job (passTrace pass ?job)) = sj_txSignature ?job"
      using storedJob_cases [of ?job "passTrace pass ?job"] passTrace_subset
        no_broadcast_signature [OF ok(1)] False by (metis subsetD)
    then show ?thesis using assms(1) nb
      by (auto simp: soldOnce_def settlementPass_def Let_def hasSignature_def)
  next
    case True
    then obtain s where "SwapBroadcast s \<in> set ?full" by blast
    from broadcast_trace [OF ok this] obtain r where s: "s \<noteq> []"
      and f: "\<not> hasSignature ?job \<or> sr_swapStatus ?env = Some (Inr SwapFailed)"
      and res: "sj_txSignature (settlementResult ?inp ?env ?job) = Some s"
      and full: "?full = [SwapQuoted r, JobSaved (preparedRow ?inp ?job), SwapBroadcast s,
        JobSaved (submittedRow ?inp ?job s)] @
        (if sr_saveFinal ?env then [JobSaved (settlementResult ?inp ?env ?job)] else [])" by blast
    have sub: "sj_txSignature (submittedRow ?inp ?job s) = Some s"
      "sj_txSignature (preparedRow ?inp ?job) = sj_txSignature ?job"
      by (simp_all add: submittedRow_def preparedRow_def)
    have sig: "hasSignature (submittedRow ?inp ?job s)" "hasSignature (settlementResult ?inp ?env ?job)"
      "hasSignature (preparedRow ?inp ?job) = hasSignature ?job"
      using s res sub by (simp_all add: hasSignature_def)
    have rest: "filter is_broadcast (take m u) = [] \<and> hasSignature (storedJob (submittedRow ?inp ?job s) (take m u))"
      if "u = (if sr_saveFinal ?env then [JobSaved (settlementResult ?inp ?env ?job)] else [])" for m u
      using that sig by (cases m) auto
    have kept: "passTrace pass ?job = [] \<or> passTrace pass ?job = [SwapQuoted r] \<or>
      passTrace pass ?job = [SwapQuoted r, JobSaved (preparedRow ?inp ?job)] \<or>
      (\<exists>m. passTrace pass ?job = [SwapQuoted r, JobSaved (preparedRow ?inp ?job), SwapBroadcast s,
        JobSaved (submittedRow ?inp ?job s)] @
        take m (if sr_saveFinal ?env then [JobSaved (settlementResult ?inp ?env ?job)] else []))"
    proof (cases "sp_crash pass")
      case None
      then have "passTrace pass ?job = ?full" by (simp add: passTrace_def)
      then show ?thesis using full by (metis take_all_iff order_refl)
    next
      case (Some n)
      then have t: "passTrace pass ?job = take n ?full" by (simp add: passTrace_def)
      have "n = 0 \<or> n = 1 \<or> n = 2 \<or> n = 3 \<or> 4 \<le> n" by linarith
      with Some crash consider "n = 0" | "n = 1" | "n = 2" | "4 \<le> n" by auto
      then show ?thesis
      proof cases
        case 4
        then obtain m where "n = 4 + m" using le_Suc_ex by blast
        then have "passTrace pass ?job = [SwapQuoted r, JobSaved (preparedRow ?inp ?job), SwapBroadcast s,
            JobSaved (submittedRow ?inp ?job s)] @
            take m (if sr_saveFinal ?env then [JobSaved (settlementResult ?inp ?env ?job)] else [])"
          unfolding t full by (simp only: take_append) (simp add: numeral_eq_Suc)
        then show ?thesis by blast
      qed (simp_all add: t full)
    qed
    show ?thesis using kept assms(1) f sig rest [OF refl]
      by (auto simp: soldOnce_def settlementPass_def Let_def)
  qed
qed

interpretation sold: machine settlementPass soldOnce broadcastRecorded
  by unfold_locales (rule settlementPass_soldOnce)

text \<open>
  C3. However often a settlement is processed, with whatever answers of the swap API, the chain and
  the wallet, with failing row writes and passes cut short at other points, the tokens of a job that
  starts without a signature are sold at most once, plus once for every time the chain reported a
  sold swap as failed; this holds as long as the write of the broadcast callback succeeds and the
  pass is not cut exactly between a broadcast and that write.
\<close>
theorem settlement_never_sold_twice:
  assumes "\<not> hasSignature job" "\<forall>pass \<in> set passes. broadcastRecorded pass"
  shows "sn_broadcasts (run_machine settlementPass
      \<lparr>sn_job = job, sn_broadcasts = 0, sn_failures = 0\<rparr> passes)
    \<le> 1 + sn_failures (run_machine settlementPass
      \<lparr>sn_job = job, sn_broadcasts = 0, sn_failures = 0\<rparr> passes)"
proof -
  have "soldOnce \<lparr>sn_job = job, sn_broadcasts = 0, sn_failures = 0\<rparr>" by (simp add: soldOnce_def)
  from sold.run_inv [OF this assms(2)] show ?thesis by (auto simp: soldOnce_def split: if_splits)
qed

definition sampleJob :: SettlementJobRecord where
  "sampleJob =
     \<lparr>sj_id = ''j1'', sj_walletAddress = ''w'', sj_agentInstanceId = ''a'', sj_positionId = ''p1'',
      sj_poolAddress = ''pool'', sj_tokenMint = ''mint'', sj_amountAtomic = 500,
      sj_destinationAsset = SolAsset, sj_status = Pending, sj_attempts = 0, sj_nextRetryAt = None,
      sj_txSignature = None, sj_confirmedOutputAtomic = None, sj_outputUsd = None,
      sj_executionCostUsd = None, sj_finalizedAt = None, sj_realizedPnlUsd = None,
      sj_expiresAt = 100000, sj_error = None, sj_createdAt = 0, sj_updatedAt = 0\<rparr>"

definition sampleReplies :: SettlementReplies where
  "sampleReplies =
     \<lparr>sr_swapStatus = Some (Inr SwapNotFound), sr_swapOutput = None,
      sr_tokenPrices = Inr (\<lambda>m. if m = SOL_MINT then Some (Fin 128) else Some (Fin 2)),
      sr_nativeBalanceReader = None, sr_tokenBalanceReader = Some (Inr 300),
      sr_tokenDecimals = Inr 0, sr_quoteSwap = Some (\<lambda>_. Inr ()), sr_prepareSwap = Some (Inr ()),
      sr_simulateSwap = Some (Inr ()), sr_hasSubmitSwap = True, sr_nativeBefore = Inr 1000,
      sr_savePrepared = Inr (), sr_submitBroadcast = Some ''sig'', sr_saveSubmitted = True,
      sr_submitSwap = Inr ''sig'', sr_nativeAfter = Inr 5000001000, sr_saveFinal = True\<rparr>"

definition sampleInput :: SettlementProcessorInput where
  "sampleInput =
     \<lparr>spi_mode = ModeLive, spi_now = 5000, spi_maxSwapSlippageBps = 50,
      spi_settlementDustUsd = None, spi_liveCloseTxCostUsd = None, spi_liveClaimTxCostUsd = None\<rparr>"

definition sampleQuote :: SwapQuoteRequest where
  "sampleQuote = \<lparr>sq_inputMint = ''mint'', sq_outputMint = SOL_MINT, sq_amountAtomic = 300,
     sq_slippageBps = 50\<rparr>"

lemma sample_trace:
  "snd (processOneSettlementJob sampleInput sampleReplies sampleJob) =
     [SwapQuoted sampleQuote, JobSaved (preparedRow sampleInput sampleJob), SwapBroadcast ''sig'',
      JobSaved (submittedRow sampleInput sampleJob ''sig''),
      JobSaved (settlementResult sampleInput sampleReplies sampleJob)]"
proof -
  have sk: "\<not> isSkippableSettlementJob sampleJob (spi_now sampleInput)" by code_simp
  have "snd (settleJob sampleInput sampleReplies sampleJob) =
     [SwapQuoted sampleQuote, JobSaved (preparedRow sampleInput sampleJob), SwapBroadcast ''sig'',
      JobSaved (submittedRow sampleInput sampleJob ''sig'')]"
    by (simp add: settleJob_def resolveBroadcastSettlement_def hasSignature_def freshSettlement_def
        quoteAndSubmitSettlement_def submitSettlement_def submitEvents_def requireSettlementSwapOps_def
        earlySettlementResult_def dustSettlementRecord_def clampSettlementToWalletBalance_def
        sampleJob_def sampleReplies_def sampleInput_def sampleQuote_def sol_price_def Let_def
        SOL_MINT_def)
  then show ?thesis by (simp add: process_trace sk) (simp add: sampleReplies_def)
qed

lemma settlement_sells_witness:
  "sq_amountAtomic sampleQuote \<le> 300 \<and> sj_tokenMint sampleJob \<noteq> SOL_MINT"
proof -
  have "sr_tokenBalanceReader sampleReplies = Some (Inr 300)" by (simp add: sampleReplies_def)
  then show ?thesis
    using settlement_sells_within_bounds [of sampleQuote sampleInput sampleReplies sampleJob "''sig''"]
    by (simp add: sample_trace)
qed

definition samplePass :: SettlementPass where
  "samplePass = \<lparr>sp_input = sampleInput, sp_replies = sampleReplies, sp_crash = Some 4\<rparr>"

lemma settlement_never_sold_twice_witness:
  "broadcastRecorded samplePass \<and> sn_broadcasts (run_machine settlementPass
      \<lparr>sn_job = sampleJob, sn_broadcasts = 0, sn_failures = 0\<rparr> [samplePass, samplePass]) \<le> 1"
proof -
  have ok: "broadcastRecorded samplePass"
    by (simp add: broadcastRecorded_def samplePass_def honestSubmission_def sampleReplies_def)
  have fresh: "\<not> hasSignature sampleJob" by (simp add: hasSignature_def sampleJob_def)
  have "sn_failures (run_machine settlementPass
      \<lparr>sn_job = sampleJob, sn_broadcasts = 0, sn_failures = 0\<rparr> [samplePass, samplePass]) = 0"
    by (simp add: settlementPass_def samplePass_def sampleReplies_def Let_def)
  then show ?thesis
    using settlement_never_sold_twice [OF fresh, of "[samplePass, samplePass]"] ok by simp
qed

section \<open>Settled rows stay settled, transient failures stay alive\<close>

lemma evidence_recorded:
  "fst (confirmFromSwapEvidence inp env job) = Inr (Some k) \<Longrightarrow> sj_status k = Confirmed \<Longrightarrow> outcomeRecorded k"
  by (auto simp: confirmFromSwapEvidence_def reconciliationJob_def outcomeRecorded_def Let_def
      split: option.splits sum.splits if_splits)

lemma confirm_recorded:
  "fst (confirmBroadcastSettlement inp env job) = Inr k \<Longrightarrow> sj_status k = Confirmed \<Longrightarrow> outcomeRecorded k"
  by (auto simp: confirmBroadcastSettlement_def reconciliationJob_def evidence_recorded
      split: option.splits sum.splits if_splits) (auto simp: outcomeRecorded_def)

lemma resolve_recorded:
  assumes "fst (resolveBroadcastSettlement inp env job) = Inr (Some j)" "sj_status j = Confirmed"
  shows "outcomeRecorded j"
proof (cases "sr_swapStatus env")
  case (Some r)
  then obtain st where "r = Inr st" "hasSignature job" using assms
    by (cases r) (auto simp: resolveBroadcastSettlement_def split: if_splits)
  with Some assms confirm_recorded show ?thesis
    by (cases st) (auto simp: resolveBroadcastSettlement_def retainSubmittedSettlement_def Let_def
        split: sum.splits if_splits)
qed (use assms in \<open>simp add: resolveBroadcastSettlement_def split: if_splits\<close>)

lemma submit_recorded:
  "fst (submitSettlement inp env job a p d ip b) = Inr j \<Longrightarrow>
     sj_status j = Confirmed \<and> outcomeRecorded j \<or> sj_status j = Prepared"
  by (auto simp: submitSettlement_def reconciliationJob_def buildConfirmedSettlement_def
      outcomeRecorded_def Let_def split: sum.splits option.splits if_splits)

lemma quote_recorded:
  assumes "fst (quoteAndSubmitSettlement inp env job a p d ip) = Inr j"
  shows "sj_status j = Confirmed \<and> outcomeRecorded j \<or> sj_status j = Prepared"
  using quote_trace [OF refl, of inp env job a p d ip] assms
    submit_recorded [of inp env job a p d ip _ j] by auto

lemma fresh_results:
  assumes "fst (freshSettlement inp env job) = Inr j"
  shows "sj_status j = Confirmed \<and> outcomeRecorded j \<or> sj_status j = Prepared \<or>
    sj_status j = Terminal \<and> clampSettlementToWalletBalance env job (sj_amountAtomic job) \<le> 0"
  using assms
  by (auto simp: freshSettlement_def Let_def earlySettlementResult_def dustSettlementRecord_def
      dust_record_def outcomeRecorded_def split: sum.splits option.splits if_splits
      dest!: quote_recorded)

lemma settlement_results:
  "(\<exists>e. fst (settleJob inp env job) = Inl e) \<or>
   (sj_status (settlementResult inp env job) = Confirmed \<and> outcomeRecorded (settlementResult inp env job)) \<or>
   sj_status (settlementResult inp env job) = Prepared \<or>
   sj_status (settlementResult inp env job) = Submitted \<or>
   sj_status (settlementResult inp env job) = Terminal \<and>
     (sj_expiresAt job \<le> spi_now inp \<or>
      clampSettlementToWalletBalance env job (sj_amountAtomic job) \<le> 0)"
proof (cases "fst (resolveBroadcastSettlement inp env job)")
  case (Inl e)
  then show ?thesis by (simp add: settleJob_def)
next
  case (Inr r)
  show ?thesis
  proof (cases r)
    case None
    then have eq: "fst (settleJob inp env job) = fst (freshSettlement inp env job)"
      using Inr by (simp add: settleJob_def)
    show ?thesis using fresh_results [of inp env job]
      by (cases "fst (freshSettlement inp env job)") (auto simp: settlementResult_def eq)
  next
    case (Some j)
    then have res: "settlementResult inp env job = j" using Inr by (simp add: settlementResult_def settleJob_def)
    have evidence: "sj_status k = Confirmed \<or> sj_status k = Prepared"
      if "fst (confirmFromSwapEvidence inp env job) = Inr (Some k)" for k
      using that by (auto simp: confirmFromSwapEvidence_def reconciliationJob_def Let_def
          split: option.splits sum.splits if_splits)
    have confirm: "sj_status k = Confirmed \<or> sj_status k = Prepared"
      if "fst (confirmBroadcastSettlement inp env job) = Inr k" for k
      using that evidence by (auto simp: confirmBroadcastSettlement_def reconciliationJob_def
          split: option.splits sum.splits if_splits)
    have R: "fst (resolveBroadcastSettlement inp env job) = Inr (Some j)" using Inr Some by simp
    then obtain st where st: "sr_swapStatus env = Some (Inr st)" "hasSignature job"
      by (auto simp: resolveBroadcastSettlement_def split: option.splits sum.splits if_splits)
    have "sj_status j = Confirmed \<or> sj_status j = Prepared \<or> sj_status j = Submitted \<or>
        sj_status j = Terminal \<and> sj_expiresAt job \<le> spi_now inp"
      using R st confirm by (cases st) (auto simp: resolveBroadcastSettlement_def
          retainSubmittedSettlement_def Let_def split: sum.splits if_splits)
    then show ?thesis using res resolve_recorded [OF R] by blast
  qed
qed

text \<open>
  C17. A settlement row that a pass settles stays settled: a row that a pass turned to confirmed has
  its outcome recorded, and no later pass, whatever the surroundings answer, touches a confirmed or
  given-up row again or has any effect on its behalf.
\<close>
theorem settled_is_final:
  assumes "\<not> isSkippableSettlementJob job (spi_now inp)"
    "fst (processOneSettlementJob inp env job) = Some r"
    "sj_status r = Confirmed \<or> sj_status r = Terminal"
  shows "(sj_status r = Confirmed \<longrightarrow> outcomeRecorded r) \<and>
    processOneSettlementJob inp' env' r = (Some r, [])"
proof -
  from assms(1,2) have r: "r = settlementResult inp env job"
    by (auto simp: processOneSettlementJob_def Let_def split: if_splits)
  have "outcomeRecorded r" if c: "sj_status r = Confirmed"
  proof (cases "\<exists>e. fst (settleJob inp env job) = Inl e")
    case True
    with c r show ?thesis by (auto simp: settlementResult_def retryableJob_def Let_def split: if_splits)
  next
    case False
    then show ?thesis using settlement_results [of inp env job] c by (auto simp: r [symmetric])
  qed
  then show ?thesis using assms(3)
    by (auto simp: processOneSettlementJob_def isSkippableSettlementJob_def)
qed

text \<open>
  C16. A settlement is given up only when its window has passed or when the wallet no longer holds
  anything of the token; and a failure that is transient (a rate limit, a server error, a network
  failure) never gives it up at all, however old the job is: it is retried one second to thirty
  minutes later, with the signature it had.
\<close>
theorem settlement_given_up_late:
  "(sj_status (settlementResult inp env job) = Terminal \<longrightarrow>
      sj_expiresAt job \<le> spi_now inp \<or>
      clampSettlementToWalletBalance env job (sj_amountAtomic job) \<le> 0) \<and>
   (fst (settleJob inp env job) = Inl e \<and> isTransientSettlementError e \<longrightarrow>
      sj_status (settlementResult inp env job) = Retryable \<and>
      sj_txSignature (settlementResult inp env job) = sj_txSignature job \<and>
      (\<exists>t. sj_nextRetryAt (settlementResult inp env job) = Some t \<and>
        spi_now inp + 1000 \<le> t \<and> t \<le> spi_now inp + 1800000))"
proof (cases "fst (settleJob inp env job)")
  case (Inl e')
  then show ?thesis using retry_delay_bounds
    by (auto simp: settlementResult_def retryableJob_def Let_def)
next
  case (Inr j)
  then show ?thesis using settlement_results [of inp env job] by auto
qed

definition rateLimited :: SettlementReplies where
  "rateLimited = sampleReplies\<lparr>sr_tokenPrices := Inl ''quote failed: 429''\<rparr>"

lemma rate_limited_settle:
  "settleJob sampleInput rateLimited sampleJob = (Inl ''quote failed: 429'', [])"
  by (simp add: prod_eq_iff settleJob_def resolveBroadcastSettlement_def hasSignature_def
      freshSettlement_def rateLimited_def sampleJob_def)

lemma settlement_given_up_witness:
  "sj_status (settlementResult sampleInput rateLimited sampleJob) = Retryable"
proof -
  have "isTransientSettlementError ''quote failed: 429''" by code_simp
  then show ?thesis
    using settlement_given_up_late [of sampleInput rateLimited sampleJob "''quote failed: 429''"]
    by (simp add: rate_limited_settle)
qed

lemma settled_is_final_witness:
  "processOneSettlementJob sampleInput rateLimited
     (settlementResult sampleInput (sampleReplies\<lparr>sr_tokenBalanceReader := Some (Inr 0)\<rparr>) sampleJob) =
   (Some (settlementResult sampleInput (sampleReplies\<lparr>sr_tokenBalanceReader := Some (Inr 0)\<rparr>) sampleJob), [])"
proof -
  let ?env = "sampleReplies\<lparr>sr_tokenBalanceReader := Some (Inr 0)\<rparr>"
  let ?r = "settlementResult sampleInput ?env sampleJob"
  have sk: "\<not> isSkippableSettlementJob sampleJob (spi_now sampleInput)" by code_simp
  have one: "fst (processOneSettlementJob sampleInput ?env sampleJob) = Some ?r"
    by (simp add: processOneSettlementJob_def sk Let_def) (simp add: sampleReplies_def)
  have "sj_status ?r = Terminal"
    by (simp add: settlementResult_def settleJob_def resolveBroadcastSettlement_def hasSignature_def
        freshSettlement_def clampSettlementToWalletBalance_def earlySettlementResult_def
        sampleJob_def sampleReplies_def sol_price_def Let_def SOL_MINT_def)
  then show ?thesis using settled_is_final [OF sk one, of sampleInput rateLimited] by simp
qed

section \<open>Finalization of a position\<close>

lemma group_add_keys: "map fst (group_add k x gs) = (if k \<in> fst ` set gs then map fst gs else map fst gs @ [k])"
  by (induction k x gs rule: group_add.induct) auto

lemma group_add_map:
  "distinct (map fst gs) \<Longrightarrow> map_of (group_add k x gs) =
     (map_of gs)(k \<mapsto> nullish (map_of gs k) [] @ [x])"
  by (induction k x gs rule: group_add.induct) (auto simp: map_add_def)

lemma foldl_group_add:
  "distinct (map fst gs) \<Longrightarrow>
     distinct (map fst (foldl (\<lambda>gs x. group_add (f x) x gs) gs xs)) \<and>
     map_of (foldl (\<lambda>gs x. group_add (f x) x gs) gs xs) =
       (\<lambda>k. if filter (\<lambda>x. f x = k) xs = [] then map_of gs k
            else Some (nullish (map_of gs k) [] @ filter (\<lambda>x. f x = k) xs))"
proof (induction xs arbitrary: gs)
  case (Cons x xs)
  have "distinct (map fst (group_add (f x) x gs))" using Cons.prems by (simp add: group_add_keys)
  note IH = Cons.IH [OF this]
  then show ?case by (auto simp: group_add_map [OF Cons.prems] fun_eq_iff)
qed (auto simp: fun_eq_iff)

lemma group_by_member:
  assumes "(k, ys) \<in> set (group_by f xs)"
  shows "ys = filter (\<lambda>x. f x = k) xs \<and> ys \<noteq> []"
proof -
  have d: "distinct (map fst (group_by f xs))"
    and m: "map_of (group_by f xs) = (\<lambda>k. if filter (\<lambda>x. f x = k) xs = [] then None
      else Some (filter (\<lambda>x. f x = k) xs))"
    using foldl_group_add [of "[]" f xs] by (simp_all add: group_by_def fun_eq_iff)
  from assms d have "map_of (group_by f xs) k = Some ys" by simp
  then show ?thesis using m by (auto split: if_splits)
qed

lemma map_filter_member: "y \<in> set (List.map_filter f xs) \<longleftrightarrow> (\<exists>x \<in> set xs. f x = Some y)"
  by (auto simp: List.map_filter_def image_iff)

text \<open>
  C14. A position is finalized only over all jobs of that position that were processed in the pass:
  every one of them is confirmed with its output and cost recorded, at least one was not finalized
  before, exactly their ids are finalized; and a realized profit that the exit already booked is
  kept, never replaced by the one computed from the settlement outputs.
\<close>
theorem finalization_complete:
  assumes "g \<in> set (finalizeSettlementGroups inp getPosition processed)"
  shows "fsg_jobIds g = map sj_id (filter (\<lambda>j. sj_positionId j = fsg_positionId g) processed) \<and>
    (\<forall>j \<in> set processed. sj_positionId j = fsg_positionId g \<longrightarrow>
       sj_status j = Confirmed \<and> sj_outputUsd j \<noteq> None \<and> sj_executionCostUsd j \<noteq> None) \<and>
    (\<exists>j \<in> set processed. sj_positionId j = fsg_positionId g \<and> sj_finalizedAt j = None) \<and>
    (\<exists>position. getPosition (fsg_positionId g) = Some position \<and>
       (\<forall>booked. stp_realizedPnlUsd position = Some booked \<longrightarrow> fsg_realizedPnlUsd g = booked))"
proof -
  from assms obtain k jobs where kj: "(k, jobs) \<in> set (group_by sj_positionId processed)"
    and g: "finalizeGroup inp getPosition (k, jobs) = Some g"
    by (auto simp: finalizeSettlementGroups_def map_filter_member)
  from group_by_member [OF kj] have jobs: "jobs = filter (\<lambda>j. sj_positionId j = k) processed" by blast
  from g have k: "fsg_positionId g = k" and ids: "fsg_jobIds g = map sj_id jobs"
    and c: "\<forall>j \<in> set jobs. sj_status j = Confirmed \<and> sj_outputUsd j \<noteq> None \<and> sj_executionCostUsd j \<noteq> None"
    and u: "\<exists>j \<in> set jobs. sj_finalizedAt j = None"
    and p: "\<exists>position. getPosition k = Some position \<and>
       (\<forall>booked. stp_realizedPnlUsd position = Some booked \<longrightarrow> fsg_realizedPnlUsd g = booked)"
    by (auto simp: finalizeGroup_def list_ex_iff list_all_iff filter_empty_conv
        split: if_splits option.splits)
  from ids k have "fsg_jobIds g = map sj_id (filter (\<lambda>j. sj_positionId j = fsg_positionId g) processed)"
    by (simp add: jobs)
  moreover from c have "\<forall>j \<in> set processed. sj_positionId j = fsg_positionId g \<longrightarrow>
       sj_status j = Confirmed \<and> sj_outputUsd j \<noteq> None \<and> sj_executionCostUsd j \<noteq> None"
    by (simp add: jobs k)
  moreover from u have "\<exists>j \<in> set processed. sj_positionId j = fsg_positionId g \<and> sj_finalizedAt j = None"
    by (auto simp: jobs k)
  ultimately show ?thesis using p k by blast
qed

definition settledJob :: SettlementJobRecord where
  "settledJob = sampleJob\<lparr>sj_status := Confirmed, sj_confirmedOutputAtomic := Some 7,
     sj_outputUsd := Some (Fin 7), sj_executionCostUsd := Some (Fin 0)\<rparr>"

definition settledPosition :: SettledPosition where
  "settledPosition =
     \<lparr>stp_depositedUsd = Fin 5, stp_timestamp = 0, stp_cumulativeFeesClaimedUsd = Fin 0,
      stp_cumulativeRewardsClaimedUsd = Fin 0, stp_realizedPnlUsd = Some (Fin 3),
      stp_entrySignalSnapshotId = None\<rparr>"

lemma settled_group:
  "finalizeSettlementGroups sampleInput (\<lambda>_. Some settledPosition) [settledJob] =
     [\<lparr>fsg_positionId = ''p1'', fsg_realizedPnlUsd = Fin 3, fsg_jobIds = [''j1''],
       fsg_finalizedAt = 5000, fsg_signalSnapshotId = None\<rparr>]"
  by (simp add: finalizeSettlementGroups_def group_by_def finalizeGroup_def settledJob_def sampleJob_def
      settledPosition_def sampleInput_def List.map_filter_simps)

lemma finalization_complete_witness:
  "sj_positionId settledJob = ''p1'' \<and> sj_status settledJob = Confirmed"
  using finalization_complete [of "\<lparr>fsg_positionId = ''p1'', fsg_realizedPnlUsd = Fin 3,
      fsg_jobIds = [''j1''], fsg_finalizedAt = 5000, fsg_signalSnapshotId = None\<rparr>"
      sampleInput "\<lambda>_. Some settledPosition" "[settledJob]"]
  by (simp add: settled_group)

text \<open>
  The job of a position whose final row write failed is left out of the processed jobs, so the
  position is finalized over its other jobs while that job is not confirmed.
\<close>
lemma finalized_without_failed_write:
  "let openJob = sampleJob\<lparr>sj_id := ''j2''\<rparr>;
       env = rateLimited\<lparr>sr_saveFinal := False\<rparr>;
       (processed, trace, groups) = processSettlementJobs sampleInput (\<lambda>_. Some settledPosition)
         [(settledJob, sampleReplies), (openJob, env)]
   in map fsg_jobIds groups = [[''j1'']] \<and> sj_positionId openJob = ''p1'' \<and>
      sj_status openJob = Pending \<and> sj_id openJob \<notin> set (map sj_id processed)"
proof -
  let ?open = "sampleJob\<lparr>sj_id := ''j2''\<rparr>"
  have "\<not> isSkippableSettlementJob ?open (spi_now sampleInput)" by code_simp
  then have "fst (processOneSettlementJob sampleInput (rateLimited\<lparr>sr_saveFinal := False\<rparr>) ?open) = None"
    by (simp add: processOneSettlementJob_def Let_def)
  moreover have "isSkippableSettlementJob settledJob (spi_now sampleInput)" by code_simp
  then have "processOneSettlementJob sampleInput sampleReplies settledJob = (Some settledJob, [])"
    by (simp add: processOneSettlementJob_def)
  moreover have "spi_mode sampleInput = ModeLive" by (simp add: sampleInput_def)
  ultimately show ?thesis
    by (simp add: processSettlementJobs_def Let_def List.map_filter_simps settled_group)
      (simp add: settledJob_def sampleJob_def)
qed

section \<open>The reconciliation guard holds for one pass only\<close>






lemma one_broadcast: "filter is_broadcast t = [] \<Longrightarrow> length (filter is_broadcast
    ([SwapQuoted r, JobSaved j, SwapBroadcast s] @ t @ (if b then [JobSaved k] else []))) = 1"
  by simp




section \<open>The sweep sells only what nothing else owns\<close>

text \<open>
  C18. The orphan sweep never sells SOL or an empty holding and sells exactly the amount the wallet
  holds.  As far as the job rows could be read, it never sells a token that an active settlement job
  already handles; as far as the positions and the state of their pools could be read too, a token that
  is a leg of a live (not paper) position is swept only on the evidence of a given-up job without a
  signature or an outcome, which is revived in place under its own id.  A failed read counts as nothing
  known.  With a dust limit every swept token has a positive price.
\<close>
theorem sweep_respects_owners:
  assumes "job \<in> set (sweepOrphanSettlements inp env)"
  shows "(\<exists>decimals. (sj_tokenMint job, sj_amountAtomic job, decimals) \<in> set (nullish (osr_holdings env) [])) \<and>
    sj_tokenMint job \<noteq> SOL_MINT \<and> 0 < sj_amountAtomic job \<and> sj_status job = Pending \<and>
    sj_txSignature job = None \<and>
    (\<forall>jobs. osr_settlementJobs env = Some jobs \<longrightarrow>
      (\<forall>j \<in> set jobs. sj_tokenMint j = sj_tokenMint job \<longrightarrow> sj_status j = Terminal \<or> sj_status j = Confirmed)) \<and>
    (\<forall>positions positionId pool x y. osr_positions env = Some positions \<longrightarrow> (positionId, pool) \<in> set positions \<longrightarrow>
      \<not> starts_with positionId ''paper-'' \<longrightarrow> osr_poolState env pool = Some (x, y) \<longrightarrow>
      sj_tokenMint job \<in> {x, y} \<longrightarrow>
      (\<exists>jobs j. osr_settlementJobs env = Some jobs \<and> j \<in> set jobs \<and> sj_tokenMint j = sj_tokenMint job \<and>
         sj_id j = sj_id job \<and> sj_status j = Terminal \<and> sj_txSignature j = None \<and>
         sj_confirmedOutputAtomic j = None)) \<and>
    (jgt (oss_settlementDustUsd inp) (Fin 0) \<longrightarrow>
       \<not> jle (nullish (nullish (osr_tokenPrices env) (\<lambda>_. None) (sj_tokenMint job)) (Fin 0)) (Fin 0))"
proof -
  let ?prices = "nullish (osr_tokenPrices env) (\<lambda>_. None)"
  let ?existing = "nullish (osr_settlementJobs env) []"
  from assms obtain n mint holding where h: "(mint, holding) \<in> set (nullish (osr_holdings env) [])"
    and nx: "nextOrphanSweepJob inp (osr_uuid env n) mint holding (activeJobMints ?existing)
        (loadPositionBackedMints env) (terminalOrphanByMint ?existing) (nullish (?prices mint) (Fin 0)) = Some job"
    by (auto simp: sweepOrphanSettlements_def Let_def map_filter_member dest: set_zip_rightD split: if_splits)
  obtain a d where ad: "holding = (a, d)" by (cases holding)
  have tm: "revivable t \<and> t \<in> set ?existing \<and> sj_tokenMint t = mint"
    if "terminalOrphanByMint ?existing mint = Some t" for t
    using map_of_SomeD [OF that [unfolded terminalOrphanByMint_def]] by auto
  from nx ad have basic: "mint \<noteq> SOL_MINT" "0 < a" "mint \<notin> set (activeJobMints ?existing)"
    "mint \<in> set (loadPositionBackedMints env) \<longrightarrow> terminalOrphanByMint ?existing mint \<noteq> None"
    "\<not> isOrphanDust a d (nullish (?prices mint) (Fin 0)) (oss_settlementDustUsd inp)"
    by (auto simp: nextOrphanSweepJob_def Let_def split: if_splits)
  have row: "sj_tokenMint job = mint \<and> sj_amountAtomic job = a \<and> sj_status job = Pending \<and>
      sj_txSignature job = None \<and>
      (\<forall>t. terminalOrphanByMint ?existing mint = Some t \<longrightarrow> sj_id job = sj_id t)"
    using nx ad tm
    by (cases "terminalOrphanByMint ?existing mint")
      (auto simp: nextOrphanSweepJob_def Let_def revivable_def split: if_splits)
  have dust: "jgt (oss_settlementDustUsd inp) (Fin 0) \<longrightarrow> \<not> jle (nullish (?prices mint) (Fin 0)) (Fin 0)"
    using basic(5) jlt_asym by (auto simp: isOrphanDust_def split: if_splits)
  have "sj_status j = Terminal \<or> sj_status j = Confirmed" if "j \<in> set ?existing" "sj_tokenMint j = mint" for j
    using basic(3) that by (auto simp: activeJobMints_def)
  then have active: "\<forall>jobs. osr_settlementJobs env = Some jobs \<longrightarrow>
      (\<forall>j \<in> set jobs. sj_tokenMint j = mint \<longrightarrow> sj_status j = Terminal \<or> sj_status j = Confirmed)"
    by simp
  have backed: "\<exists>jobs j. osr_settlementJobs env = Some jobs \<and> j \<in> set jobs \<and> sj_tokenMint j = mint \<and>
         sj_id j = sj_id job \<and> sj_status j = Terminal \<and> sj_txSignature j = None \<and> sj_confirmedOutputAtomic j = None"
    if "osr_positions env = Some positions" "(positionId, pool) \<in> set positions"
      "\<not> starts_with positionId ''paper-''" "osr_poolState env pool = Some (x, y)" "mint \<in> {x, y}"
    for positions positionId pool x y
  proof -
    have "mint \<in> set (loadPositionBackedMints env)"
      using that by (force simp: loadPositionBackedMints_def Let_def)
    then obtain j where "terminalOrphanByMint ?existing mint = Some j" using basic(4) by auto
    with tm row have "revivable j" "j \<in> set ?existing" "sj_tokenMint j = mint" "sj_id j = sj_id job" by auto
    then show ?thesis
      by (cases "osr_settlementJobs env") (auto simp: revivable_def)
  qed
  show ?thesis using h ad basic row dust active backed by auto
qed

definition sampleSweep :: OrphanSettlementSweepInput where
  "sampleSweep = \<lparr>oss_walletAddress = ''w'', oss_agentInstanceId = ''a'',
     oss_settlementMaxPendingMs = 1000, oss_settlementDustUsd = Fin 0, oss_now = 50\<rparr>"

definition sampleHoldings :: OrphanSweepReplies where
  "sampleHoldings = \<lparr>osr_hasWallet = True, osr_holdings = Some [(''other'', 40, 0), (''mint'', 9, 0)],
     osr_settlementJobs = Some [sampleJob], osr_positions = Some [], osr_poolState = (\<lambda>_. None),
     osr_tokenPrices = None, osr_uuid = (\<lambda>n. replicate (Suc n) CHR ''u'')\<rparr>"

lemma sample_sweep:
  "map sj_tokenMint (sweepOrphanSettlements sampleSweep sampleHoldings) = [''other'']"
  by (simp add: sweepOrphanSettlements_def sampleSweep_def sampleHoldings_def nextOrphanSweepJob_def
      activeJobMints_def loadPositionBackedMints_def terminalOrphanByMint_def revivable_def
      isOrphanDust_def sampleJob_def SOL_MINT_def List.map_filter_simps Let_def upt_rec)

lemma sweep_respects_owners_witness:
  "sj_amountAtomic (hd (sweepOrphanSettlements sampleSweep sampleHoldings)) > 0"
proof -
  let ?jobs = "sweepOrphanSettlements sampleSweep sampleHoldings"
  have "?jobs \<noteq> []" using sample_sweep by auto
  then have "hd ?jobs \<in> set ?jobs" by simp
  then show ?thesis using sweep_respects_owners [of "hd ?jobs" sampleSweep sampleHoldings] by blast
qed

text \<open>
  When the job rows cannot be read, a holding that an active job is about to sell is swept as well:
  the row it is enqueued under does not depend on the jobs that exist.
\<close>
lemma unread_jobs_swept:
  assumes "osr_hasWallet env" "osr_settlementJobs env = None"
    and "(mint, amount, decimals) \<in> set (nullish (osr_holdings env) [])" "mint \<noteq> SOL_MINT" "0 < amount"
    and "mint \<notin> set (loadPositionBackedMints env)" "jle (oss_settlementDustUsd inp) (Fin 0)"
  shows "\<exists>job \<in> set (sweepOrphanSettlements inp env). sj_tokenMint job = mint \<and> sj_amountAtomic job = amount"
proof -
  from assms(3) obtain n where n: "n < length (nullish (osr_holdings env) [])"
      "nullish (osr_holdings env) [] ! n = (mint, amount, decimals)" by (auto simp: in_set_conv_nth)
  let ?hs = "nullish (osr_holdings env) []"
  have member: "(n, mint, amount, decimals) \<in> set (zip [0..<length ?hs] ?hs)"
    using n by (auto simp: in_set_zip intro!: exI [of _ n])
  have some: "filter (\<lambda>(mint, amountAtomic, _). mint \<noteq> SOL_MINT \<and> amountAtomic > 0) ?hs \<noteq> []"
    using assms(3-5) by (auto simp: filter_empty_conv)
  obtain job where job: "nextOrphanSweepJob inp (osr_uuid env n) mint (amount, decimals) (activeJobMints [])
      (loadPositionBackedMints env) (terminalOrphanByMint [])
      (nullish (nullish (osr_tokenPrices env) (\<lambda>_. None) mint) (Fin 0)) = Some job"
      "sj_tokenMint job = mint" "sj_amountAtomic job = amount"
    using assms(4-7)
    by (auto simp: nextOrphanSweepJob_def isOrphanDust_def activeJobMints_def terminalOrphanByMint_def Let_def)
  have "job \<in> set (sweepOrphanSettlements inp env)"
    unfolding sweepOrphanSettlements_def Let_def
    using assms(1,2) some job(1) by (auto simp: map_filter_member intro!: bexI [OF _ member])
  with job(2,3) show ?thesis by blast
qed

end
