(* ===== verification/JsError.thy ===== *)
theory JsError
  imports JsArith
begin

text \<open>
  The error of sums.  \<open>near e a q\<close> says that the number \<open>a\<close> is finite and differs from the exact
  value \<open>q\<close> by at most \<open>e\<close> roundings of a sum below \<open>2 ^ 30\<close>, each of at most \<open>2 ^ -23\<close>.
\<close>

definition unit_error :: rat where
  "unit_error = 1 / 2 ^ 23"

definition sum_limit :: rat where
  "sum_limit = 2 ^ 30"

definition near :: "nat \<Rightarrow> jsnum \<Rightarrow> rat \<Rightarrow> bool" where
  "near e a q \<longleftrightarrow> (\<exists>y. a = Fin y \<and> \<bar>y - q\<bar> \<le> of_nat e * unit_error)"

lemma unit_error_pos [simp]: "0 < unit_error" "0 \<le> unit_error"
  by (simp_all add: unit_error_def)

lemma units_mono: "m \<le> n \<Longrightarrow> of_nat m * unit_error \<le> of_nat n * unit_error"
  by (rule mult_right_mono) (simp_all only: of_nat_le_iff unit_error_pos)

lemma nearI: "\<bar>y - q\<bar> \<le> of_nat e * unit_error \<Longrightarrow> near e (Fin y) q"
  by (simp add: near_def)

lemma near_exact [simp]: "near e (Fin q) q"
  by (simp add: near_def)

lemma near_mono: "near d a q \<Longrightarrow> d \<le> e \<Longrightarrow> near e a q"
proof -
  assume d: "near d a q" "d \<le> e"
  then have le: "of_nat d * unit_error \<le> of_nat e * unit_error" by (intro mult_right_mono) auto
  obtain y where "a = Fin y" "\<bar>y - q\<bar> \<le> of_nat d * unit_error" using d(1) by (auto simp: near_def)
  then show ?thesis using le by (auto simp: near_def intro: order_trans)
qed

lemma near_finite: "near e a q \<Longrightarrow> is_finite a"
  by (auto simp: near_def)

lemma near_bound: "near e (Fin y) q \<Longrightarrow> \<bar>y\<bar> \<le> \<bar>q\<bar> + of_nat e * unit_error"
  by (auto simp: near_def)

lemma round_even_error: "\<bar>of_int (round_even x) - x\<bar> \<le> 1 / 2"
proof -
  have "of_int \<lfloor>x\<rfloor> \<le> x" "x < of_int \<lfloor>x\<rfloor> + 1" by linarith+
  then show ?thesis by (auto simp: round_even_def Let_def)
qed

lemma rnd64_error:
  assumes "\<bar>x\<bar> \<le> sum_limit"
  shows "\<bar>rnd64 x - x\<bar> \<le> unit_error"
proof (cases "x = 0")
  case False
  have "ilog2 \<bar>x\<bar> \<le> 30"
  proof (rule ccontr)
    assume "\<not> ilog2 \<bar>x\<bar> \<le> 30"
    then have "pow2 31 \<le> \<bar>x\<bar>" using False ilog2_ge_iff [of "\<bar>x\<bar>" 31] by simp
    with assms show False by (simp add: pow2_def sum_limit_def)
  qed
  then have u: "ulp64 x \<le> pow2 (- 22)" unfolding ulp64_def by (intro pow2_mono) simp
  have "rnd64 x - x = (of_int (round_even (x / ulp64 x)) - x / ulp64 x) * ulp64 x"
    using False by (simp add: rnd64_ulp left_diff_distrib less_imp_neq [OF ulp64_pos, symmetric])
  then have "\<bar>rnd64 x - x\<bar> = \<bar>of_int (round_even (x / ulp64 x)) - x / ulp64 x\<bar> * ulp64 x"
    by (simp only: abs_mult abs_of_pos [OF ulp64_pos])
  also have "\<dots> \<le> 1 / 2 * ulp64 x"
    using round_even_error by (rule mult_right_mono) (simp add: less_imp_le)
  also have "\<dots> \<le> unit_error" using u by (simp add: unit_error_def pow2_def)
  finally show ?thesis .
qed simp

lemma fl_near:
  assumes "\<bar>x\<bar> \<le> sum_limit"
  shows "\<exists>y. fl x = Fin y \<and> \<bar>y - x\<bar> \<le> unit_error"
proof -
  have "sum_limit \<le> pow2 1023" using pow2_mono [of 30 1023] by (simp add: sum_limit_def pow2_def)
  then have "is_finite (fl x)" using assms by (intro fl_bounded) simp
  then obtain y where "fl x = Fin y" by (auto simp: is_finite_iff)
  then show ?thesis using rnd64_error [OF assms] by (auto dest: fl_FinD)
qed

lemma near_add:
  assumes "near d a p" "near e b q" "\<bar>p + q\<bar> + of_nat (d + e) * unit_error \<le> sum_limit"
  shows "near (d + e + 1) (jadd a b) (p + q)"
proof -
  obtain x y where xy: "a = Fin x" "b = Fin y" "\<bar>x - p\<bar> \<le> of_nat d * unit_error"
    "\<bar>y - q\<bar> \<le> of_nat e * unit_error" using assms(1,2) by (auto simp: near_def)
  have s: "\<bar>(x + y) - (p + q)\<bar> \<le> of_nat (d + e) * unit_error"
    using xy(3,4) by (simp add: distrib_right)
  then have "\<bar>x + y\<bar> \<le> sum_limit" using assms(3) by linarith
  from fl_near [OF this] obtain z where z: "fl (x + y) = Fin z" "\<bar>z - (x + y)\<bar> \<le> unit_error" by blast
  have "\<bar>z - (p + q)\<bar> \<le> of_nat (d + e + 1) * unit_error"
    using s z(2) by (simp add: distrib_right)
  then show ?thesis using z(1) by (simp add: near_def xy(1,2))
qed

lemma near_neg: "near e a q \<Longrightarrow> near e (jneg a) (- q)"
  by (auto simp: near_def abs_minus_commute)

lemma near_sub:
  assumes "near d a p" "near e b q" "\<bar>p - q\<bar> + of_nat (d + e) * unit_error \<le> sum_limit"
  shows "near (d + e + 1) (jsub a b) (p - q)"
  using near_add [OF assms(1) near_neg [OF assms(2)]] assms(3) by (simp add: jsub_def)

lemma near_max0: "near e a q \<Longrightarrow> near e (jmax a (Fin 0)) (max q 0)"
  by (auto simp: near_def max_def)

text \<open>A fold that adds a finite number, or nothing, per element.\<close>

lemma near_fold:
  assumes "\<forall>x \<in> set xs. (\<forall>a. F a x = a) \<and> g x = 0 \<or>
      (\<exists>e y. near e y (g x) \<and> e + 1 \<le> c x \<and> (\<forall>a. F a x = jadd a y))"
    and "near e0 a0 q0"
    and "\<bar>q0\<bar> + sum_list (map (\<lambda>x. \<bar>g x\<bar>) xs) +
      of_nat (e0 + sum_list (map c xs)) * unit_error \<le> sum_limit"
  shows "near (e0 + sum_list (map c xs)) (foldl F a0 xs) (q0 + sum_list (map g xs))"
  using assms
proof (induction xs arbitrary: e0 a0 q0)
  case (Cons x xs)
  let ?T = "sum_list (map (\<lambda>x. \<bar>g x\<bar>) xs)" and ?n = "sum_list (map c xs)"
  have T: "0 \<le> ?T" by (rule sum_list_nonneg) auto
  have n: "0 \<le> of_nat ?n * unit_error" "0 \<le> of_nat (c x) * unit_error" by simp_all
  have lim: "\<bar>q0\<bar> + \<bar>g x\<bar> + ?T + of_nat e0 * unit_error + of_nat (c x) * unit_error +
      of_nat ?n * unit_error \<le> sum_limit"
    using Cons.prems(3) by (simp add: add.assoc distrib_right)
  have rest: "\<forall>x \<in> set xs. (\<forall>a. F a x = a) \<and> g x = 0 \<or>
      (\<exists>e y. near e y (g x) \<and> e + 1 \<le> c x \<and> (\<forall>a. F a x = jadd a y))" using Cons.prems(1) by simp
  from Cons.prems(1) consider "\<forall>a. F a x = a" "g x = 0"
    | e y where "near e y (g x)" "e + 1 \<le> c x" "\<forall>a. F a x = jadd a y" by auto
  then show ?case
  proof cases
    case 1
    have "near (e0 + ?n) (foldl F a0 xs) (q0 + sum_list (map g xs))"
    proof (rule Cons.IH [OF rest Cons.prems(2)])
      show "\<bar>q0\<bar> + ?T + of_nat (e0 + ?n) * unit_error \<le> sum_limit"
        using lim n 1(2) unfolding of_nat_add distrib_right by linarith
    qed
    then show ?thesis using 1 by (auto intro: near_mono)
  next
    case 2
    have le: "of_nat (e0 + e + 1) * unit_error \<le> of_nat (e0 + c x) * unit_error"
      using 2(2) by (intro mult_right_mono) (simp_all only: of_nat_le_iff, auto)
    have "near (e0 + e + 1) (jadd a0 y) (q0 + g x)"
    proof (rule near_add [OF Cons.prems(2) 2(1)])
      have "\<bar>q0 + g x\<bar> \<le> \<bar>q0\<bar> + \<bar>g x\<bar>" by (rule abs_triangle_ineq)
      then show "\<bar>q0 + g x\<bar> + of_nat (e0 + e) * unit_error \<le> sum_limit"
        using lim le T n(1) unit_error_pos(2) unfolding of_nat_add distrib_right of_nat_1 by linarith
    qed
    then have step: "near (e0 + c x) (jadd a0 y) (q0 + g x)" by (rule near_mono) (use 2(2) in simp)
    have "near (e0 + c x + ?n) (foldl F (jadd a0 y) xs) (q0 + g x + sum_list (map g xs))"
    proof (rule Cons.IH [OF rest step])
      have "\<bar>q0 + g x\<bar> \<le> \<bar>q0\<bar> + \<bar>g x\<bar>" by (rule abs_triangle_ineq)
      then show "\<bar>q0 + g x\<bar> + ?T + of_nat (e0 + c x + ?n) * unit_error \<le> sum_limit"
        using lim unfolding of_nat_add distrib_right by linarith
    qed
    then show ?thesis using 2 by (simp add: add_ac)
  qed
qed simp

end
