(* ===== verification/PaperTrading.thy ===== *)
theory PaperTrading
  imports PnlAccounting Strategy EntrySizing PositionExits "HOL-Library.AList"
begin

text \<open>
  Paper trading (\<^verbatim>\<open>engine/program.ts\<close>): the mark and the fee accrual of a paper position, the
  benefit of a paper rebalance, the harvest gate, the paper executor (enter, exit, rebalance) as a
  transition of one state (tracked positions, the tables of positions and events, paper cash, the
  rug blocks), and the cash ledger that a restart rebuilds from the tables.  A \<^verbatim>\<open>Map\<close> keyed by
  position is an association list in insertion order.  Timestamps are integers, the metadata of an
  event is kept as a record, writes to the database succeed, and the random ids are arguments.
\<close>

section \<open>Positions and pools\<close>

record PositionRecord =
  pr_positionId :: string
  pr_poolAddress :: string
  pr_positionPubKey :: "string option"
  pr_depositedUsd :: jsnum
  pr_currentValueUsd :: jsnum
  pr_tokenXSymbol :: string
  pr_tokenYSymbol :: string
  pr_activeBinId :: jsnum
  pr_lowerBinId :: jsnum
  pr_upperBinId :: jsnum
  pr_timestamp :: int
  pr_outOfRangeSince :: "int option"
  pr_oorCycleCount :: int
  pr_lastFeeClaimAt :: int
  pr_trailingStopThreshold :: "jsnum option"
  pr_highestValueUsd :: "jsnum option"
  pr_lastRebalanceAt :: int
  pr_paperExitedAt :: "int option"
  pr_entrySignalTimestamp :: "int option"
  pr_entrySignalSnapshotId :: "int option"
  pr_entryPriceUsd :: "jsnum option"
  pr_entryAmountXUsd :: "jsnum option"
  pr_entryAmountYUsd :: "jsnum option"
  pr_cumulativeFeesClaimedUsd :: jsnum
  pr_cumulativeRewardsClaimedUsd :: jsnum
  pr_closedAt :: "int option"
  pr_realizedPnlUsd :: "jsnum option"
  pr_positionMode :: "PositionMode option"
  pr_tpLadderJson :: "string option"
  pr_invalidationStopPrice :: "jsnum option"
  pr_launchRunner :: "bool option"
  pr_launchRunnerSteps :: "jsnum option"
  pr_launchRunnerAnchorPrice :: "jsnum option"
  pr_valuationAnchorPriceUsd :: "jsnum option"
  pr_valuationAnchorBinId :: "jsnum option"
  pr_valuationAnchorValueUsd :: "jsnum option"

record PaperExecPool =
  pep_activeBinId :: jsnum
  pep_binStep :: jsnum
  pep_tokenXSymbol :: string
  pep_tokenYSymbol :: string
  pep_tokenX :: "string option"
  pep_tokenY :: "string option"
  pep_currentPrice :: jsnum

type_synonym tracked = "(string \<times> PositionRecord) list"

definition positionsForPool :: "tracked \<Rightarrow> string \<Rightarrow> PositionRecord list" where
  "positionsForPool trackedPositions poolAddress =
     filter (\<lambda>pos. pr_poolAddress pos = poolAddress) (map snd trackedPositions)"

definition isSafetyBinsSkippable :: "tracked \<Rightarrow> string \<Rightarrow> bool \<Rightarrow> bool" where
  "isSafetyBinsSkippable trackedPositions poolAddress safetyRejected \<longleftrightarrow>
     safetyRejected \<and> positionsForPool trackedPositions poolAddress = []"

definition resolveTargetPosition :: "tracked \<Rightarrow> AgentDecision \<Rightarrow> PositionRecord option" where
  "resolveTargetPosition trackedPositions decision =
     (case dec_positionId decision of
        Some positionId \<Rightarrow>
          (case map_of trackedPositions positionId of
             None \<Rightarrow> None
           | Some position \<Rightarrow>
               if pr_poolAddress position = dec_poolAddress decision then Some position else None)
      | None \<Rightarrow>
          (case positionsForPool trackedPositions (dec_poolAddress decision) of
             [position] \<Rightarrow> Some position
           | _ \<Rightarrow> None))"

section \<open>Mark and fee accrual\<close>

definition hasKnownEntryLegs :: "PositionRecord \<Rightarrow> jsnum \<Rightarrow> bool" where
  "hasKnownEntryLegs pos currentPrice \<longleftrightarrow>
     (case (pr_entryPriceUsd pos, pr_entryAmountXUsd pos, pr_entryAmountYUsd pos) of
        (Some p, Some x, Some y) \<Rightarrow>
          jgt p (Fin 0) \<and> is_finite x \<and> is_finite y \<and> is_finite currentPrice
          \<and> jgt currentPrice (Fin 0)
      | _ \<Rightarrow> False)"

definition estimatePositionValue :: "PositionRecord \<Rightarrow> jsnum \<Rightarrow> jsnum" where
  "estimatePositionValue pos currentPrice =
     (if \<not> hasKnownEntryLegs pos currentPrice then pr_depositedUsd pos
      else case computeHodlValueUsd (nullish (pr_entryAmountXUsd pos) (Fin 0))
             (nullish (pr_entryAmountYUsd pos) (Fin 0)) (nullish (pr_entryPriceUsd pos) (Fin 0))
             currentPrice of
        Some hodl \<Rightarrow> if is_finite hodl \<and> jgt hodl (Fin 0) then hodl else pr_depositedUsd pos
      | None \<Rightarrow> pr_depositedUsd pos)"

definition PAPER_DAY_MS :: jsnum where
  "PAPER_DAY_MS = Fin 86400000"

record PaperFeeShareInput =
  pfs_tvlUsd :: jsnum
  pfs_depositedUsd :: jsnum
  pfs_activeBinId :: jsnum
  pfs_lowerBinId :: jsnum
  pfs_upperBinId :: jsnum
  pfs_rangeHalfWidthBins :: "jsnum option"
  pfs_binStep :: "jsnum option"

record PaperFeeAccrualInput = PaperFeeShareInput +
  pfa_fees24hUsd :: "jsnum option"
  pfa_firstCycle :: bool
  pfa_elapsedMs :: jsnum
  pfa_scanIntervalMs :: jsnum

definition resolvePaperAccrualWindowMs :: "bool \<Rightarrow> jsnum \<Rightarrow> jsnum \<Rightarrow> jsnum" where
  "resolvePaperAccrualWindowMs firstCycle elapsedMs scanIntervalMs =
     (let dtMs = (if firstCycle then scanIntervalMs
                  else jmin (jmax elapsedMs (Fin 0)) (jmul (Fin 2) scanIntervalMs))
      in if jgt dtMs (Fin 0) then dtMs else Fin 0)"

definition resolvePaperFeeShare :: "'a PaperFeeShareInput_scheme \<Rightarrow> jsnum" where
  "resolvePaperFeeShare inp =
     (if jlt (pfs_activeBinId inp) (pfs_lowerBinId inp)
         \<or> jgt (pfs_activeBinId inp) (pfs_upperBinId inp)
      then Fin 0
      else case (pfs_rangeHalfWidthBins inp, pfs_binStep inp) of
        (Some w, Some b) \<Rightarrow>
          activeShareEstimate \<lparr>as_positionSizeUsd = pfs_depositedUsd inp,
            as_poolTvlUsd = pfs_tvlUsd inp, as_rangeHalfWidthBins = w, as_binStep = b\<rparr>
      | _ \<Rightarrow> jmin (jdiv (pfs_depositedUsd inp) (pfs_tvlUsd inp)) (Fin 1))"

definition computePaperFeeAccrualUsd :: "PaperFeeAccrualInput \<Rightarrow> jsnum" where
  "computePaperFeeAccrualUsd inp =
     (case pfa_fees24hUsd inp of
        None \<Rightarrow> Fin 0
      | Some fees24hUsd \<Rightarrow>
          if \<not> is_finite fees24hUsd \<or> jle fees24hUsd (Fin 0) \<or> \<not> jgt (pfs_tvlUsd inp) (Fin 0)
             \<or> \<not> jgt (pfs_depositedUsd inp) (Fin 0)
          then Fin 0
          else
            let windowMs = resolvePaperAccrualWindowMs (pfa_firstCycle inp) (pfa_elapsedMs inp)
                  (pfa_scanIntervalMs inp)
            in if \<not> jgt windowMs (Fin 0) then Fin 0
               else
                 let share = resolvePaperFeeShare inp
                 in if \<not> jgt share (Fin 0) then Fin 0
                    else jmul (jmul fees24hUsd share) (jdiv windowMs PAPER_DAY_MS))"

section \<open>Benefit of a paper rebalance\<close>

datatype BenefitSource = SdkSimulation | PoolHeuristic

record RebalanceBenefitEstimate =
  rbe_estimatedFeesUsd :: jsnum
  rbe_currentEstimatedFeesUsd :: jsnum
  rbe_estimatedCostUsd :: jsnum
  rbe_netBenefitUsd :: jsnum
  rbe_source :: BenefitSource
  rbe_holdingDays :: jsnum

definition finiteNonNegativeNumber :: "jsnum \<Rightarrow> bool" where
  "finiteNonNegativeNumber value \<longleftrightarrow> is_finite value \<and> jge value (Fin 0)"

definition finitePositiveNumber :: "jsnum \<Rightarrow> bool" where
  "finitePositiveNumber value \<longleftrightarrow> is_finite value \<and> jgt value (Fin 0)"

definition resolvePaperRebalanceCostUsd :: "jsnum option \<Rightarrow> jsnum" where
  "resolvePaperRebalanceCostUsd value =
     (let costUsd = nullish value (Fin 0)
      in if finiteNonNegativeNumber costUsd then costUsd else Fin 0)"

record PaperRebalanceBenefitInput =
  prb_fees24hUsd :: jsnum
  prb_poolTvlUsd :: jsnum
  prb_positionSizeUsd :: jsnum
  prb_activeBinId :: jsnum
  prb_currentLowerBinId :: jsnum
  prb_currentUpperBinId :: jsnum
  prb_newLowerBinId :: jsnum
  prb_newUpperBinId :: jsnum
  prb_binStep :: jsnum
  prb_holdingDays :: jsnum
  prb_rebalanceCostUsd :: jsnum

definition validPaperRebalanceInput :: "PaperRebalanceBenefitInput \<Rightarrow> bool" where
  "validPaperRebalanceInput args \<longleftrightarrow>
     finiteNonNegativeNumber (prb_fees24hUsd args) \<and> finitePositiveNumber (prb_poolTvlUsd args) \<and>
     finitePositiveNumber (prb_positionSizeUsd args) \<and> is_finite (prb_activeBinId args) \<and>
     finitePositiveNumber (prb_binStep args) \<and> finitePositiveNumber (prb_holdingDays args)"

definition feeShareForRange :: "PaperRebalanceBenefitInput \<Rightarrow> jsnum \<Rightarrow> jsnum \<Rightarrow> jsnum" where
  "feeShareForRange args lowerBinId upperBinId =
     resolvePaperFeeShare
       \<lparr>pfs_tvlUsd = prb_poolTvlUsd args, pfs_depositedUsd = prb_positionSizeUsd args,
        pfs_activeBinId = prb_activeBinId args, pfs_lowerBinId = lowerBinId,
        pfs_upperBinId = upperBinId,
        pfs_rangeHalfWidthBins = Some (jdiv (jsub upperBinId lowerBinId) (Fin 2)),
        pfs_binStep = Some (prb_binStep args)\<rparr>"

definition noBenefit :: "jsnum \<Rightarrow> jsnum \<Rightarrow> RebalanceBenefitEstimate" where
  "noBenefit estimatedCostUsd holdingDays =
     \<lparr>rbe_estimatedFeesUsd = Fin 0, rbe_currentEstimatedFeesUsd = Fin 0,
      rbe_estimatedCostUsd = estimatedCostUsd, rbe_netBenefitUsd = jneg estimatedCostUsd,
      rbe_source = PoolHeuristic, rbe_holdingDays = holdingDays\<rparr>"

definition estimatePaperRebalanceBenefit ::
  "PaperRebalanceBenefitInput \<Rightarrow> RebalanceBenefitEstimate" where
  "estimatePaperRebalanceBenefit args =
     (let estimatedCostUsd = (if finiteNonNegativeNumber (prb_rebalanceCostUsd args)
            then prb_rebalanceCostUsd args else MAX_SAFE_INTEGER)
      in if \<not> validPaperRebalanceInput args
         then noBenefit estimatedCostUsd
                (if finitePositiveNumber (prb_holdingDays args) then prb_holdingDays args else Fin 0)
         else
           let estimatedFeesUsd = jmul (jmul (prb_fees24hUsd args)
                 (feeShareForRange args (prb_newLowerBinId args) (prb_newUpperBinId args)))
                 (prb_holdingDays args);
               currentEstimatedFeesUsd = jmul (jmul (prb_fees24hUsd args)
                 (feeShareForRange args (prb_currentLowerBinId args) (prb_currentUpperBinId args)))
                 (prb_holdingDays args)
           in if \<not> is_finite estimatedFeesUsd \<or> \<not> is_finite currentEstimatedFeesUsd
              then noBenefit estimatedCostUsd (prb_holdingDays args)
              else \<lparr>rbe_estimatedFeesUsd = estimatedFeesUsd,
                    rbe_currentEstimatedFeesUsd = currentEstimatedFeesUsd,
                    rbe_estimatedCostUsd = estimatedCostUsd,
                    rbe_netBenefitUsd =
                      jsub (jsub estimatedFeesUsd currentEstimatedFeesUsd) estimatedCostUsd,
                    rbe_source = PoolHeuristic, rbe_holdingDays = prb_holdingDays args\<rparr>)"

section \<open>The harvest gate\<close>

record HarvestGateConfig =
  hgc_harvestMinNetUsd :: "jsnum option"
  hgc_harvestMaxCostPct :: "jsnum option"
  hgc_harvestTxCostUsdEst :: "jsnum option"

datatype HarvestReason =
    PendingUnavailable
  | NetBelowFloor jsnum jsnum
  | CostAboveShare jsnum jsnum jsnum
  | HarvestClears jsnum jsnum jsnum jsnum

definition evaluateHarvestGate :: "jsnum option \<Rightarrow> HarvestGateConfig \<Rightarrow> bool \<times> HarvestReason" where
  "evaluateHarvestGate netUsd config =
     (let minNetUsd = nullish (hgc_harvestMinNetUsd config) (Fin 1);
          maxCostPct = nullish (hgc_harvestMaxCostPct config) (fl (15 / 100));
          costUsd = nullish (hgc_harvestTxCostUsdEst config) (fl (5 / 1000))
      in case netUsd of
           None \<Rightarrow> (True, PendingUnavailable)
         | Some net \<Rightarrow>
             if jlt net minNetUsd then (False, NetBelowFloor net minNetUsd)
             else if jgt costUsd (jmul maxCostPct net)
             then (False, CostAboveShare costUsd (jmul maxCostPct (Fin 100)) net)
             else (True, HarvestClears net minNetUsd costUsd (jmul maxCostPct (Fin 100))))"

section \<open>State of the paper executor\<close>

record PaperRebalanceMetadata =
  prm_modeledCostUsd :: "jsnum option"
  prm_topUpUsd :: "jsnum option"
  prm_compounded :: "bool option"
  prm_scaleIn :: "bool option"

datatype PositionEventType = EnterEvent | ExitEvent | RebalanceEvent | ClaimEvent | CompoundEvent

text \<open>
  An event row; \<open>ppe_metadata\<close> is the parsed metadata of a rebalance, \<open>None\<close> when it is missing or
  does not parse.
\<close>

record PaperPositionEvent =
  ppe_poolAddress :: string
  ppe_positionId :: "string option"
  ppe_event :: PositionEventType
  ppe_valueUsd :: "jsnum option"
  ppe_feesUsd :: "jsnum option"
  ppe_metadata :: "PaperRebalanceMetadata option"
  ppe_createdAt :: int

record RotationArmMetadata =
  rot_runner :: string
  rot_at :: int

text \<open>
  The state: positions in memory, the table of positions, the table of events in the order of its
  rows, the paper cash, the time of the last fee accrual of a position, and three families of metadata keys (rotation arms, yield baselines, rug
  blocks) with the recorded signal outcomes.
\<close>

record PaperState =
  pst_tracked :: tracked
  pst_positions :: tracked
  pst_events :: "PaperPositionEvent list"
  pst_cash :: jsnum
  pst_feeAccrualAt :: "string \<Rightarrow> int option"
  pst_rotationArms :: "string \<Rightarrow> RotationArmMetadata option"
  pst_yieldBase :: "string \<Rightarrow> (jsnum \<times> int) option"
  pst_rugBlocks :: "string \<Rightarrow> int option"
  pst_signalOutcomes :: "(int \<times> jsnum) list"

record PaperExecDeps =
  ped_entryRangeHalfWidth :: "jsnum option"
  ped_ladderEnabled :: bool
  ped_ladderTightMult :: "jsnum option"
  ped_ladderWideMult :: "jsnum option"
  ped_maxOpenPositions :: "jsnum option"
  ped_maxPositionsPerPool :: "jsnum option"
  ped_entryDipOffsetBins :: "jsnum option"
  ped_rotationArmMs :: "int option"
  ped_runnerMinFeeApr :: "jsnum option"
  ped_entryAprPct :: "jsnum option"
  ped_poolAprByAddress :: "string \<Rightarrow> (jsnum \<times> bool option) option"
  ped_harvestTxCostUsdEst :: "jsnum option"
  ped_runnerSwapCostPct :: "jsnum option"
  ped_feeCaptureHarvestCostUsd :: "jsnum option"
  ped_feeCaptureConversionCostPct :: "jsnum option"
  ped_rebalanceCostUsd :: "jsnum option"
  ped_hasLedger :: bool
  ped_rugExitLossPct :: "jsnum option"
  ped_rugTokenBlockMs :: "int option"
  ped_stablecoinMints :: "string list option"

definition debitPaperCash :: "PaperExecDeps \<Rightarrow> jsnum \<Rightarrow> PaperState \<Rightarrow> PaperState" where
  "debitPaperCash deps sizeUsd st =
     (if ped_hasLedger deps \<and> finiteNonNegativeNumber sizeUsd
      then st\<lparr>pst_cash := jsub (pst_cash st) sizeUsd\<rparr> else st)"

definition creditPaperCash :: "PaperExecDeps \<Rightarrow> jsnum \<Rightarrow> PaperState \<Rightarrow> PaperState" where
  "creditPaperCash deps netCreditUsd st =
     (if ped_hasLedger deps \<and> is_finite netCreditUsd
      then st\<lparr>pst_cash := jadd (pst_cash st) netCreditUsd\<rparr> else st)"

text \<open>
  The upsert of \<^verbatim>\<open>savePosition\<close>: an update keeps the old value of the columns that are \<^verbatim>\<open>COALESCE\<close>d
  when the new one is null.
\<close>

definition coalesce_row :: "PositionRecord option \<Rightarrow> PositionRecord \<Rightarrow> PositionRecord" where
  "coalesce_row old pos =
     (case old of
        None \<Rightarrow> pos
      | Some row \<Rightarrow> pos\<lparr>
          pr_positionPubKey := first_known (pr_positionPubKey pos) (pr_positionPubKey row),
          pr_entryPriceUsd := first_known (pr_entryPriceUsd pos) (pr_entryPriceUsd row),
          pr_entryAmountXUsd := first_known (pr_entryAmountXUsd pos) (pr_entryAmountXUsd row),
          pr_entryAmountYUsd := first_known (pr_entryAmountYUsd pos) (pr_entryAmountYUsd row),
          pr_positionMode := first_known (pr_positionMode pos) (pr_positionMode row),
          pr_tpLadderJson := first_known (pr_tpLadderJson pos) (pr_tpLadderJson row),
          pr_invalidationStopPrice :=
            first_known (pr_invalidationStopPrice pos) (pr_invalidationStopPrice row),
          pr_launchRunner := first_known (pr_launchRunner pos) (pr_launchRunner row),
          pr_launchRunnerSteps := first_known (pr_launchRunnerSteps pos) (pr_launchRunnerSteps row),
          pr_launchRunnerAnchorPrice :=
            first_known (pr_launchRunnerAnchorPrice pos) (pr_launchRunnerAnchorPrice row),
          pr_valuationAnchorPriceUsd :=
            first_known (pr_valuationAnchorPriceUsd pos) (pr_valuationAnchorPriceUsd row),
          pr_valuationAnchorBinId :=
            first_known (pr_valuationAnchorBinId pos) (pr_valuationAnchorBinId row),
          pr_valuationAnchorValueUsd :=
            first_known (pr_valuationAnchorValueUsd pos) (pr_valuationAnchorValueUsd row)\<rparr>)"

definition savePosition :: "PositionRecord \<Rightarrow> PaperState \<Rightarrow> PaperState" where
  "savePosition pos st =
     st\<lparr>pst_positions := AList.update (pr_positionId pos)
          (coalesce_row (map_of (pst_positions st) (pr_positionId pos)) pos) (pst_positions st)\<rparr>"

definition trackPosition :: "PositionRecord \<Rightarrow> PaperState \<Rightarrow> PaperState" where
  "trackPosition pos st = st\<lparr>pst_tracked := AList.update (pr_positionId pos) pos (pst_tracked st)\<rparr>"

definition savePositionEvent :: "PaperPositionEvent \<Rightarrow> PaperState \<Rightarrow> PaperState" where
  "savePositionEvent event st = st\<lparr>pst_events := pst_events st @ [event]\<rparr>"

definition getPositionEvents :: "PaperState \<Rightarrow> string \<Rightarrow> PaperPositionEvent list" where
  "getPositionEvents st poolAddress =
     sort_before (\<lambda>a b. ppe_createdAt a < ppe_createdAt b)
       (filter (\<lambda>e. ppe_poolAddress e = poolAddress) (pst_events st))"

definition closePosition :: "int \<Rightarrow> string \<Rightarrow> jsnum \<Rightarrow> PaperState \<Rightarrow> PaperState" where
  "closePosition now positionId realizedPnlUsd st =
     st\<lparr>pst_positions := AList.map_entry positionId
          (\<lambda>pos. pos\<lparr>pr_closedAt := Some now, pr_realizedPnlUsd := Some realizedPnlUsd\<rparr>)
          (pst_positions st)\<rparr>"

definition markPaperExited :: "int \<Rightarrow> string \<Rightarrow> PaperState \<Rightarrow> PaperState" where
  "markPaperExited now positionId st =
     st\<lparr>pst_positions := AList.map_entry positionId
          (\<lambda>pos. pos\<lparr>pr_paperExitedAt := Some now\<rparr>) (pst_positions st)\<rparr>"

definition getAllPositions :: "PaperState \<Rightarrow> PositionRecord list" where
  "getAllPositions st =
     filter (\<lambda>pos. pr_paperExitedAt pos = None \<and> pr_closedAt pos = None) (map snd (pst_positions st))"

definition closed_time :: "PositionRecord \<Rightarrow> int" where
  "closed_time pos = nullish (pr_closedAt pos) (nullish (pr_paperExitedAt pos) 0)"

definition getClosedPositions :: "PaperState \<Rightarrow> PositionRecord list" where
  "getClosedPositions st =
     sort_before (\<lambda>a b. closed_time b < closed_time a)
       (filter (\<lambda>pos. pr_closedAt pos \<noteq> None \<or> pr_paperExitedAt pos \<noteq> None)
         (map snd (pst_positions st)))"

section \<open>Paper entry\<close>

definition paperEntryLegSplit :: "jsnum \<Rightarrow> bool \<Rightarrow> jsnum \<times> jsnum" where
  "paperEntryLegSplit fullSizeUsd dipEntry =
     (if dipEntry then (fullSizeUsd, Fin 0)
      else (jdiv fullSizeUsd (Fin 2), jdiv fullSizeUsd (Fin 2)))"

definition paperLaunchRunnerSeed :: "bool \<Rightarrow> jsnum \<Rightarrow> bool option \<times> jsnum option \<times> jsnum option" where
  "paperLaunchRunnerSeed dipEntry anchorPrice =
     (if \<not> dipEntry then (None, None, None) else (Some True, Some (Fin 0), Some anchorPrice))"

record PaperPositionInput =
  ppi_decision :: AgentDecision
  ppi_pool :: PaperExecPool
  ppi_positionId :: string
  ppi_positionPubKey :: "string option"
  ppi_depositedUsd :: jsnum
  ppi_fullSizeUsd :: jsnum
  ppi_activeBinId :: jsnum
  ppi_lowerBinId :: jsnum
  ppi_upperBinId :: jsnum
  ppi_entryDipOffsetBins :: "jsnum option"
  ppi_signalTimestamp :: "int option"
  ppi_signalSnapshotId :: "int option"
  ppi_paperExitedAt :: "int option"

definition makePaperPositionRecord :: "int \<Rightarrow> PaperPositionInput \<Rightarrow> PositionRecord" where
  "makePaperPositionRecord now inp =
     (let decision = ppi_decision inp; pool = ppi_pool inp;
          dipEntry = (nullish (ppi_entryDipOffsetBins inp) (Fin 0) \<noteq> Fin 0);
          legs = paperEntryLegSplit (ppi_fullSizeUsd inp) dipEntry;
          (runner, steps, anchor) = paperLaunchRunnerSeed dipEntry (pep_currentPrice pool)
      in \<lparr>pr_positionId = ppi_positionId inp, pr_poolAddress = dec_poolAddress decision,
          pr_positionPubKey = ppi_positionPubKey inp, pr_depositedUsd = ppi_depositedUsd inp,
          pr_currentValueUsd = ppi_depositedUsd inp, pr_tokenXSymbol = pep_tokenXSymbol pool,
          pr_tokenYSymbol = pep_tokenYSymbol pool, pr_activeBinId = ppi_activeBinId inp,
          pr_lowerBinId = ppi_lowerBinId inp, pr_upperBinId = ppi_upperBinId inp,
          pr_timestamp = now, pr_outOfRangeSince = None, pr_oorCycleCount = 0,
          pr_lastFeeClaimAt = now, pr_trailingStopThreshold = None, pr_highestValueUsd = None,
          pr_lastRebalanceAt = 0, pr_paperExitedAt = ppi_paperExitedAt inp,
          pr_entrySignalTimestamp = ppi_signalTimestamp inp,
          pr_entrySignalSnapshotId = ppi_signalSnapshotId inp,
          pr_entryPriceUsd = Some (pep_currentPrice pool),
          pr_entryAmountXUsd = Some (fst legs), pr_entryAmountYUsd = Some (snd legs),
          pr_cumulativeFeesClaimedUsd = Fin 0, pr_cumulativeRewardsClaimedUsd = Fin 0,
          pr_closedAt = None, pr_realizedPnlUsd = None,
          pr_positionMode = dec_positionMode decision, pr_tpLadderJson = dec_tpLadderJson decision,
          pr_invalidationStopPrice = dec_invalidationStopPrice decision,
          pr_launchRunner = runner, pr_launchRunnerSteps = steps,
          pr_launchRunnerAnchorPrice = anchor,
          pr_valuationAnchorPriceUsd = Some (pep_currentPrice pool),
          pr_valuationAnchorBinId = Some (ppi_activeBinId inp),
          pr_valuationAnchorValueUsd = Some (ppi_depositedUsd inp)\<rparr>)"

definition ladderRangeHalves :: "jsnum option \<Rightarrow> jsnum option \<Rightarrow> jsnum option \<Rightarrow> jsnum \<times> jsnum" where
  "ladderRangeHalves halfWidth tightMult wideMult =
     (jmax (Fin 5) (jround (jmul (nullish halfWidth (Fin 20)) (nullish tightMult (fl (6 / 10))))),
      jround (jmul (nullish halfWidth (Fin 20)) (nullish wideMult (fl (16 / 10)))))"

definition ladderCapacityOk :: "PaperExecDeps \<Rightarrow> tracked \<Rightarrow> nat \<Rightarrow> bool" where
  "ladderCapacityOk deps trackedPositions poolCount \<longleftrightarrow>
     jle (jnat (length trackedPositions + 2)) (nullish (ped_maxOpenPositions deps) (Fin 3)) \<and>
     jle (jnat (poolCount + 2)) (nullish (ped_maxPositionsPerPool deps) (Fin 2))"

record PaperLadderPlan =
  plp_halfSize :: jsnum
  plp_tightHalf :: jsnum
  plp_wideHalf :: jsnum

definition paperLadderPlan ::
  "PaperExecDeps \<Rightarrow> tracked \<Rightarrow> AgentDecision \<Rightarrow> PositionRecord option \<Rightarrow> PaperLadderPlan option" where
  "paperLadderPlan deps trackedPositions decision liveExited =
     (let sizeUsd = nullish (dec_positionSizeUsd decision) (Fin 0);
          poolCount = length (positionsForPool trackedPositions (dec_poolAddress decision))
      in if \<not> ped_ladderEnabled deps \<or> liveExited \<noteq> None \<or> jlt sizeUsd (Fin 20)
            \<or> \<not> ladderCapacityOk deps trackedPositions poolCount
         then None
         else
           let (tightHalf, wideHalf) = ladderRangeHalves (ped_entryRangeHalfWidth deps)
                 (ped_ladderTightMult deps) (ped_ladderWideMult deps)
           in Some \<lparr>plp_halfSize = jdiv sizeUsd (Fin 2), plp_tightHalf = tightHalf,
                    plp_wideHalf = wideHalf\<rparr>)"

text \<open>Booking a new paper position: track, save, debit, yield baseline, ENTER event.\<close>

definition bookPaperEntry ::
  "PaperExecDeps \<Rightarrow> int \<Rightarrow> PositionRecord \<Rightarrow> jsnum \<Rightarrow> PaperState \<Rightarrow> PaperState" where
  "bookPaperEntry deps now pos sizeUsd st =
     (let st1 = debitPaperCash deps sizeUsd (savePosition pos (trackPosition pos st));
          st2 = (if pr_positionMode pos \<noteq> Some LaunchMode
                 then st1\<lparr>pst_yieldBase := (pst_yieldBase st1)
                        (pr_positionId pos \<mapsto> (nullish (ped_entryAprPct deps) (Fin 0), now))\<rparr>
                 else st1)
      in savePositionEvent
           \<lparr>ppe_poolAddress = pr_poolAddress pos, ppe_positionId = Some (pr_positionId pos),
            ppe_event = EnterEvent, ppe_valueUsd = Some sizeUsd, ppe_feesUsd = None,
            ppe_metadata = None, ppe_createdAt = now\<rparr> st2)"

definition paperId :: "string \<Rightarrow> string \<Rightarrow> string" where
  "paperId poolAddress uuid = ''paper-'' @ poolAddress @ ''-'' @ uuid"

definition savePaperLadderLeg ::
  "PaperExecDeps \<Rightarrow> int \<Rightarrow> string \<Rightarrow> AgentDecision \<Rightarrow> PaperExecPool \<Rightarrow> int option \<Rightarrow> int option
   \<Rightarrow> BinRange \<Rightarrow> jsnum \<Rightarrow> PaperState \<Rightarrow> PaperState" where
  "savePaperLadderLeg deps now uuid decision pool signalTimestamp signalSnapshotId binRange halfSize st =
     bookPaperEntry deps now
       (makePaperPositionRecord now
         \<lparr>ppi_decision = decision, ppi_pool = pool,
          ppi_positionId = paperId (dec_poolAddress decision) uuid, ppi_positionPubKey = None,
          ppi_depositedUsd = halfSize, ppi_fullSizeUsd = halfSize,
          ppi_activeBinId = pep_activeBinId pool, ppi_lowerBinId = range_lowerBinId binRange,
          ppi_upperBinId = range_upperBinId binRange,
          ppi_entryDipOffsetBins = ped_entryDipOffsetBins deps,
          ppi_signalTimestamp = signalTimestamp, ppi_signalSnapshotId = signalSnapshotId,
          ppi_paperExitedAt = None\<rparr>) halfSize st"

type_synonym exec_result = "bool \<times> string option"

definition executePaperEnter ::
  "PaperExecDeps \<Rightarrow> int \<Rightarrow> (nat \<Rightarrow> string) \<Rightarrow> AgentDecision \<Rightarrow> PaperExecPool \<Rightarrow> int option \<Rightarrow> int option
   \<Rightarrow> PaperState \<Rightarrow> exec_result \<times> PaperState" where
  "executePaperEnter deps now uuid decision pool signalTimestamp signalSnapshotId st =
     (let liveExited = find_first (\<lambda>p. pr_paperExitedAt p \<noteq> None \<and> pr_positionPubKey p \<noteq> None)
            (positionsForPool (pst_tracked st) (dec_poolAddress decision));
          dipOffset = nullish (ped_entryDipOffsetBins deps) (Fin 0)
      in case paperLadderPlan deps (pst_tracked st) decision liveExited of
           Some plan \<Rightarrow>
             let tightRange = recommendBinRange (pep_activeBinId pool) (pep_binStep pool)
                   (Some (plp_tightHalf plan)) dipOffset;
                 wideRange = recommendBinRange (pep_activeBinId pool) (pep_binStep pool)
                   (Some (plp_wideHalf plan)) dipOffset
             in ((True, None),
                 savePaperLadderLeg deps now (uuid 1) decision pool signalTimestamp signalSnapshotId
                   wideRange (plp_halfSize plan)
                   (savePaperLadderLeg deps now (uuid 0) decision pool signalTimestamp
                     signalSnapshotId tightRange (plp_halfSize plan) st))
         | None \<Rightarrow>
             let recommended = recommendBinRange (pep_activeBinId pool) (pep_binStep pool)
                   (ped_entryRangeHalfWidth deps) dipOffset;
                 positionSizeUsd = nullish (dec_positionSizeUsd decision) (Fin 0);
                 pos = makePaperPositionRecord now
                   \<lparr>ppi_decision = decision, ppi_pool = pool,
                    ppi_positionId = (case liveExited of
                        Some l \<Rightarrow> nullish (pr_positionPubKey l) ''''
                      | None \<Rightarrow> paperId (dec_poolAddress decision) (uuid 0)),
                    ppi_positionPubKey = (case liveExited of Some l \<Rightarrow> pr_positionPubKey l | None \<Rightarrow> None),
                    ppi_depositedUsd = positionSizeUsd, ppi_fullSizeUsd = positionSizeUsd,
                    ppi_activeBinId = pep_activeBinId pool,
                    ppi_lowerBinId = range_lowerBinId recommended,
                    ppi_upperBinId = range_upperBinId recommended,
                    ppi_entryDipOffsetBins = ped_entryDipOffsetBins deps,
                    ppi_signalTimestamp = signalTimestamp, ppi_signalSnapshotId = signalSnapshotId,
                    ppi_paperExitedAt = (case liveExited of Some l \<Rightarrow> pr_paperExitedAt l | None \<Rightarrow> None)\<rparr>
             in ((True, None), bookPaperEntry deps now pos positionSizeUsd st))"

section \<open>Paper exit\<close>

record RotationArmDeps =
  rad_rotationArmMs :: "int option"
  rad_poolAprByAddress :: "string \<Rightarrow> (jsnum \<times> bool option) option"
  rad_runnerMinFeeApr :: "jsnum option"

definition rotationArmIsValid :: "RotationArmDeps \<Rightarrow> int \<Rightarrow> RotationArmMetadata \<Rightarrow> bool" where
  "rotationArmIsValid deps now arm \<longleftrightarrow>
     (let armFresh = now - rot_at arm < nullish (rad_rotationArmMs deps) 1800000;
          runnerStats = rad_poolAprByAddress deps (rot_runner arm);
          runnerApr = (case runnerStats of None \<Rightarrow> Fin 0 | Some (apr, _) \<Rightarrow> apr);
          unmeasured = (case runnerStats of None \<Rightarrow> False | Some (_, measured) \<Rightarrow> measured = Some False)
      in armFresh \<and> \<not> unmeasured \<and> jge runnerApr (nullish (rad_runnerMinFeeApr deps) (Fin 500)))"

definition paperArmDeps :: "PaperExecDeps \<Rightarrow> RotationArmDeps" where
  "paperArmDeps deps = \<lparr>rad_rotationArmMs = ped_rotationArmMs deps,
     rad_poolAprByAddress = ped_poolAprByAddress deps, rad_runnerMinFeeApr = ped_runnerMinFeeApr deps\<rparr>"

definition checkRotationArm :: "PaperExecDeps \<Rightarrow> int \<Rightarrow> AgentDecision \<Rightarrow> PaperState \<Rightarrow> bool \<times> PaperState" where
  "checkRotationArm deps now decision st =
     ((case pst_rotationArms st (dec_poolAddress decision) of
         None \<Rightarrow> False
       | Some arm \<Rightarrow> rotationArmIsValid (paperArmDeps deps) now arm),
      st\<lparr>pst_rotationArms := (pst_rotationArms st)(dec_poolAddress decision := None)\<rparr>)"

definition isExitRotationBlocked ::
  "PaperExecDeps \<Rightarrow> int \<Rightarrow> AgentDecision \<Rightarrow> PaperState \<Rightarrow> bool \<times> PaperState" where
  "isExitRotationBlocked deps now decision st =
     (if \<not> starts_with (dec_reasoning decision) ''Rotation:'' then (False, st)
      else let (armValid, st') = checkRotationArm deps now decision st in (\<not> armValid, st'))"

definition rugBlockMints ::
  "jsnum option \<Rightarrow> jsnum \<Rightarrow> jsnum \<Rightarrow> string list option \<Rightarrow> string option \<Rightarrow> string option \<Rightarrow> string list" where
  "rugBlockMints realizedPnlUsd depositedUsd rugExitLossPct stablecoinMints tokenX tokenY =
     (case realizedPnlUsd of
        None \<Rightarrow> []
      | Some pnl \<Rightarrow>
          if jle depositedUsd (Fin 0) then []
          else if jlt (jdiv (jneg pnl) depositedUsd) rugExitLossPct then []
          else filter (\<lambda>mint. mint \<noteq> '''' \<and> mint \<noteq> SOL_MINT \<and> mint \<notin> set (nullish stablecoinMints []))
                 (List.map_filter id [tokenX, tokenY]))"

definition persistPaperExitRugBlocks ::
  "int \<Rightarrow> string list \<Rightarrow> int option \<Rightarrow> PaperState \<Rightarrow> PaperState" where
  "persistPaperExitRugBlocks now rugMints rugTokenBlockMs st =
     st\<lparr>pst_rugBlocks := foldl (\<lambda>m mint. m(mint \<mapsto> now + nullish rugTokenBlockMs 604800000))
          (pst_rugBlocks st) rugMints\<rparr>"

definition paperRebalanceMetadataFor ::
  "PaperPositionEvent \<Rightarrow> string \<Rightarrow> PaperRebalanceMetadata option" where
  "paperRebalanceMetadataFor event positionId =
     (if ppe_event event \<noteq> RebalanceEvent \<or> ppe_positionId event \<noteq> Some positionId then None
      else ppe_metadata event)"

definition add_amount :: "jsnum \<Rightarrow> jsnum option \<Rightarrow> jsnum" where
  "add_amount acc amount =
     (case amount of
        None \<Rightarrow> acc
      | Some a \<Rightarrow> if finiteNonNegativeNumber a then jadd acc a else acc)"

definition paperRebalanceCostsUsd :: "PaperPositionEvent list \<Rightarrow> string \<Rightarrow> jsnum" where
  "paperRebalanceCostsUsd events positionId =
     foldl (\<lambda>acc event.
         case paperRebalanceMetadataFor event positionId of
           None \<Rightarrow> acc
         | Some metadata \<Rightarrow> add_amount acc (prm_modeledCostUsd metadata)) (Fin 0) events"

definition paperCompoundedFeesUsd :: "PaperPositionEvent list \<Rightarrow> string \<Rightarrow> bool \<Rightarrow> jsnum" where
  "paperCompoundedFeesUsd events positionId launchRunner =
     foldl (\<lambda>acc event.
         case paperRebalanceMetadataFor event positionId of
           None \<Rightarrow> acc
         | Some metadata \<Rightarrow>
             if prm_compounded metadata = Some True
                \<or> prm_scaleIn metadata = Some True \<and> \<not> launchRunner
             then add_amount acc (prm_topUpUsd metadata) else acc) (Fin 0) events"

definition paperLiquidFeesUsd :: "PositionRecord \<Rightarrow> PaperPositionEvent list \<Rightarrow> jsnum" where
  "paperLiquidFeesUsd position events =
     (let claimed = (if finiteNonNegativeNumber (pr_cumulativeFeesClaimedUsd position)
            then pr_cumulativeFeesClaimedUsd position else Fin 0)
      in jmax (jsub claimed (paperCompoundedFeesUsd events (pr_positionId position)
            (pr_launchRunner position = Some True))) (Fin 0))"

record PaperExitSettlement =
  pxs_realizedPnlUsd :: jsnum
  pxs_modeledCostsUsd :: jsnum
  pxs_closeCostsUsd :: jsnum

definition paperExitCosts :: "int \<Rightarrow> PositionRecord \<Rightarrow> PaperExecDeps \<Rightarrow> jsnum" where
  "paperExitCosts now pos deps =
     paperCloseCostsUsd
       \<lparr>lcc_positionSizeUsd = pr_depositedUsd pos,
        lcc_ageDays = jdiv (of_bigint (max (now - pr_timestamp pos) 0)) PAPER_DAY_MS,
        lcc_swapCostPct = nullish (ped_runnerSwapCostPct deps) (fl (5 / 1000)),
        lcc_harvestCostUsd = nullish (ped_feeCaptureHarvestCostUsd deps) (fl (1 / 100)),
        lcc_txCostUsd = nullish (ped_harvestTxCostUsdEst deps) (fl (5 / 1000)),
        pcc_cumulativeGrossFeesUsd = pr_cumulativeFeesClaimedUsd pos,
        pcc_conversionCostPct = nullish (ped_feeCaptureConversionCostPct deps) (fl (5 / 100))\<rparr>"

definition resolvePaperExitSettlement ::
  "int \<Rightarrow> PositionRecord \<Rightarrow> PaperExecDeps \<Rightarrow> jsnum \<Rightarrow> PaperExitSettlement" where
  "resolvePaperExitSettlement now pos deps rebalanceCostsUsd =
     (let grossRealizedPnlUsd = computeRealizedPnlUsd (pr_currentValueUsd pos)
            (pr_cumulativeFeesClaimedUsd pos) (pr_depositedUsd pos)
            (pr_cumulativeRewardsClaimedUsd pos);
          closeCostsUsd = paperExitCosts now pos deps;
          modeledCostsUsd = jadd closeCostsUsd (jmax rebalanceCostsUsd (Fin 0))
      in \<lparr>pxs_realizedPnlUsd = jsub grossRealizedPnlUsd modeledCostsUsd,
          pxs_modeledCostsUsd = modeledCostsUsd, pxs_closeCostsUsd = closeCostsUsd\<rparr>)"

definition untrackPosition :: "string \<Rightarrow> PaperState \<Rightarrow> PaperState" where
  "untrackPosition positionId st = st\<lparr>pst_tracked := AList.delete positionId (pst_tracked st)\<rparr>"

text \<open>Closing a paper position: EXIT event, row, rug blocks, signal outcome, untracking, credit.\<close>

definition closePaperPosition ::
  "PaperExecDeps \<Rightarrow> int \<Rightarrow> PaperExecPool \<Rightarrow> PositionRecord \<Rightarrow> PaperState \<Rightarrow> PaperState" where
  "closePaperPosition deps now pool pos st =
     (let positionEvents = getPositionEvents st (pr_poolAddress pos);
          positionId = pr_positionId pos;
          rebalanceCostsUsd = paperRebalanceCostsUsd positionEvents positionId;
          settlement = resolvePaperExitSettlement now pos deps rebalanceCostsUsd;
          realizedPnlUsd = pxs_realizedPnlUsd settlement;
          liquidFeesUsd = paperLiquidFeesUsd pos positionEvents;
          cashCostsUsd = jadd (pxs_closeCostsUsd settlement)
            (if ped_hasLedger deps then Fin 0 else rebalanceCostsUsd);
          st1 = savePositionEvent
            \<lparr>ppe_poolAddress = pr_poolAddress pos, ppe_positionId = Some positionId,
             ppe_event = ExitEvent, ppe_valueUsd = Some (pr_currentValueUsd pos),
             ppe_feesUsd = Some (pr_cumulativeFeesClaimedUsd pos), ppe_metadata = None,
             ppe_createdAt = now\<rparr> st;
          st2 = closePosition now positionId realizedPnlUsd st1;
          rugMints = rugBlockMints (Some realizedPnlUsd) (pr_depositedUsd pos)
            (nullish (ped_rugExitLossPct deps) (Fin (1 / 2))) (ped_stablecoinMints deps)
            (pep_tokenX pool) (pep_tokenY pool);
          st3 = persistPaperExitRugBlocks now rugMints (ped_rugTokenBlockMs deps) st2;
          st4 = (case pr_entrySignalSnapshotId pos of
              None \<Rightarrow> st3
            | Some i \<Rightarrow> st3\<lparr>pst_signalOutcomes := pst_signalOutcomes st3 @ [(i, realizedPnlUsd)]\<rparr>);
          st5 = untrackPosition positionId (markPaperExited now positionId st4)
      in creditPaperCash deps
           (jsub (jadd (jadd (pr_currentValueUsd pos) liquidFeesUsd)
                    (if finiteNonNegativeNumber (pr_cumulativeRewardsClaimedUsd pos)
                     then pr_cumulativeRewardsClaimedUsd pos else Fin 0))
              cashCostsUsd) st5)"

definition executePaperExit ::
  "PaperExecDeps \<Rightarrow> int \<Rightarrow> AgentDecision \<Rightarrow> PaperExecPool \<Rightarrow> PaperState \<Rightarrow> exec_result \<times> PaperState" where
  "executePaperExit deps now decision pool st =
     (case resolveTargetPosition (pst_tracked st) decision of
        None \<Rightarrow> ((False, Some (''Skipping EXIT with no tracked position for '' @ dec_poolAddress decision)), st)
      | Some pos \<Rightarrow>
          let (rotationBlocked, st1) = isExitRotationBlocked deps now decision st
          in if rotationBlocked
             then ((False, Some ''rotation canceled - incumbent preserved''), st1)
             else if nullish (pr_positionPubKey pos) '''' \<noteq> ''''
             then ((False, Some (''Skipping EXIT for live position in paper mode: '' @ pr_positionId pos)), st1)
             else ((True, None), closePaperPosition deps now pool pos st1))"

section \<open>Paper rebalance\<close>

definition isPaperRunnerScaleIn :: "PositionRecord \<Rightarrow> RebalanceParams \<Rightarrow> jsnum \<Rightarrow> bool" where
  "isPaperRunnerScaleIn position params topUpUsd \<longleftrightarrow>
     pr_launchRunner position = Some True \<and> reb_topUp params \<noteq> None \<and> jgt topUpUsd (Fin 0)"

definition buildPaperRebalancedPosition ::
  "int \<Rightarrow> PositionRecord \<Rightarrow> CompoundCostBasisResult \<Rightarrow> RebalanceParams \<Rightarrow> PaperExecPool \<Rightarrow> jsnum
   \<Rightarrow> PositionRecord" where
  "buildPaperRebalancedPosition now current scaled params pool topUpUsd =
     (let base = current\<lparr>
            pr_depositedUsd := ccb_depositedUsd scaled,
            pr_currentValueUsd := ccb_currentValueUsd scaled,
            pr_highestValueUsd := Some (ccb_highestValueUsd scaled),
            pr_entryAmountXUsd := (if pr_launchRunner current = Some True
              then Some (jadd (nullish (pr_entryAmountXUsd current) (Fin 0)) topUpUsd)
              else pr_entryAmountXUsd current),
            pr_lowerBinId := reb_newLowerBinId params,
            pr_upperBinId := reb_newUpperBinId params\<rparr>;
          stepped = (if pr_launchRunner current = Some True \<and> reb_topUp params \<noteq> None
            then base\<lparr>pr_launchRunnerAnchorPrice := Some (pep_currentPrice pool),
                  pr_launchRunnerSteps := Some (jadd (nullish (pr_launchRunnerSteps current) (Fin 0)) (Fin 1))\<rparr>
            else base)
      in stepped\<lparr>pr_valuationAnchorPriceUsd := Some (pep_currentPrice pool),
           pr_valuationAnchorBinId := Some (pep_activeBinId pool),
           pr_valuationAnchorValueUsd := Some (ccb_currentValueUsd scaled),
           pr_lastRebalanceAt := now\<rparr>)"

definition rebalancePaperPosition ::
  "PaperExecDeps \<Rightarrow> int \<Rightarrow> PaperExecPool \<Rightarrow> RebalanceParams \<Rightarrow> PositionRecord \<Rightarrow> PaperState \<Rightarrow> PaperState" where
  "rebalancePaperPosition deps now pool params current st =
     (let topUpUsd = nullish (reb_topUpUsd params) (Fin 0);
          scaled = applyCompoundToCostBasis
            \<lparr>cci_depositedUsd = pr_depositedUsd current, cci_currentValueUsd = pr_currentValueUsd current,
             cci_highestValueUsd = pr_highestValueUsd current, cci_compoundedFeesUsd = topUpUsd\<rparr>;
          updated = buildPaperRebalancedPosition now current scaled params pool topUpUsd;
          scaleIn = isPaperRunnerScaleIn current params topUpUsd;
          st1 = savePosition updated (trackPosition updated st);
          st2 = (if scaleIn then debitPaperCash deps topUpUsd st1 else st1);
          modeledCostUsd = resolvePaperRebalanceCostUsd (ped_rebalanceCostUsd deps);
          st3 = (if jgt modeledCostUsd (Fin 0) then debitPaperCash deps modeledCostUsd st2 else st2)
      in savePositionEvent
           \<lparr>ppe_poolAddress = pr_poolAddress updated, ppe_positionId = Some (pr_positionId updated),
            ppe_event = RebalanceEvent, ppe_valueUsd = Some (pr_currentValueUsd updated),
            ppe_feesUsd = None,
            ppe_metadata = Some
              \<lparr>prm_modeledCostUsd = Some modeledCostUsd,
               prm_topUpUsd = (if reb_topUp params \<noteq> None then Some topUpUsd else None),
               prm_compounded = (if reb_topUp params \<noteq> None \<and> \<not> scaleIn then Some True else None),
               prm_scaleIn = (if reb_topUp params \<noteq> None \<and> scaleIn then Some True else None)\<rparr>,
            ppe_createdAt = now\<rparr> st3)"

definition executePaperRebalance ::
  "PaperExecDeps \<Rightarrow> int \<Rightarrow> AgentDecision \<Rightarrow> PaperExecPool \<Rightarrow> PaperState \<Rightarrow> exec_result \<times> PaperState" where
  "executePaperRebalance deps now decision pool st =
     (case dec_rebalanceParams decision of
        None \<Rightarrow> ((False, Some (''Skipping REBALANCE without rebalance params for '' @ dec_poolAddress decision)), st)
      | Some params \<Rightarrow>
          (case resolveTargetPosition (pst_tracked st) decision of
             None \<Rightarrow> ((False, Some (''Skipping REBALANCE with no tracked position for '' @ dec_poolAddress decision)), st)
           | Some current \<Rightarrow> ((True, None), rebalancePaperPosition deps now pool params current st)))"

definition executePaper ::
  "PaperExecDeps \<Rightarrow> int \<Rightarrow> (nat \<Rightarrow> string) \<Rightarrow> AgentDecision \<Rightarrow> PaperExecPool \<Rightarrow> int option \<Rightarrow> int option
   \<Rightarrow> PaperState \<Rightarrow> exec_result \<times> PaperState" where
  "executePaper deps now uuid decision pool signalTimestamp signalSnapshotId st =
     (if dec_action decision = ENTER
         \<and> (case dec_positionSizeUsd decision of None \<Rightarrow> False | Some s \<Rightarrow> s \<noteq> Fin 0 \<and> s \<noteq> NaN)
      then executePaperEnter deps now uuid decision pool signalTimestamp signalSnapshotId st
      else if dec_action decision = EXIT then executePaperExit deps now decision pool st
      else if dec_action decision = REBALANCE then executePaperRebalance deps now decision pool st
      else ((False, Some ''No paper execution path for action''), st))"

section \<open>The mark of a cycle\<close>

definition accruePaperPositionFees ::
  "bool \<Rightarrow> jsnum \<Rightarrow> int \<Rightarrow> PoolState \<Rightarrow> PositionRecord \<Rightarrow> PaperState \<Rightarrow> PositionRecord \<times> PaperState" where
  "accruePaperPositionFees paperTrading scanIntervalMs now pool pos st =
     (if \<not> (paperTrading \<and> pr_positionPubKey pos = None \<and> ps_statsSource pool = Some Datapi) then (pos, st)
      else
        let lastAccrualAt = pst_feeAccrualAt st (pr_positionId pos);
            st1 = st\<lparr>pst_feeAccrualAt := (pst_feeAccrualAt st)(pr_positionId pos \<mapsto> now)\<rparr>;
            deltaFeesUsd = computePaperFeeAccrualUsd
              \<lparr>pfs_tvlUsd = ps_tvlUsd pool, pfs_depositedUsd = pr_depositedUsd pos,
               pfs_activeBinId = ps_activeBinId pool, pfs_lowerBinId = pr_lowerBinId pos,
               pfs_upperBinId = pr_upperBinId pos,
               pfs_rangeHalfWidthBins =
                 Some (jmax (jdiv (jsub (pr_upperBinId pos) (pr_lowerBinId pos)) (Fin 2)) (Fin 0)),
               pfs_binStep = Some (ps_binStep pool),
               pfa_fees24hUsd = Some (ps_fees24hUsd pool),
               pfa_firstCycle = (lastAccrualAt = None),
               pfa_elapsedMs = (case lastAccrualAt of None \<Rightarrow> Fin 0 | Some t \<Rightarrow> of_bigint (now - t)),
               pfa_scanIntervalMs = scanIntervalMs\<rparr>
        in if jle deltaFeesUsd (Fin 0) then (pos, st1)
           else
             (pos\<lparr>pr_cumulativeFeesClaimedUsd := jadd (pr_cumulativeFeesClaimedUsd pos) deltaFeesUsd\<rparr>,
              savePositionEvent
                \<lparr>ppe_poolAddress = ps_address pool, ppe_positionId = Some (pr_positionId pos),
                 ppe_event = ClaimEvent, ppe_valueUsd = Some deltaFeesUsd,
                 ppe_feesUsd = Some deltaFeesUsd, ppe_metadata = None, ppe_createdAt = now\<rparr> st1))"

definition positionMark ::
  "(jsnum \<Rightarrow> jsnum) \<Rightarrow> (jsnum \<Rightarrow> jsnum \<Rightarrow> jsnum) \<Rightarrow> jsnum option \<Rightarrow> PoolState \<Rightarrow> PositionRecord \<Rightarrow> jsnum" where
  "positionMark sqrtf powf onChainValue pool pos =
     (let realMark = (if pr_positionPubKey pos \<noteq> None then onChainValue else None);
          paperMark = (if pr_positionPubKey pos = None
            then paperClmmMarkUsd sqrtf powf
              \<lparr>pcm_depositedUsd = pr_depositedUsd pos, pcm_entryPriceUsd = pr_entryPriceUsd pos,
               pcm_anchorBinId = Some (pr_activeBinId pos), pcm_currentPrice = ps_currentPrice pool,
               pcm_lowerBinId = pr_lowerBinId pos, pcm_upperBinId = pr_upperBinId pos,
               pcm_binStep = ps_binStep pool, pcm_entryAmountXUsd = pr_entryAmountXUsd pos,
               pcm_entryAmountYUsd = pr_entryAmountYUsd pos,
               pcm_valuationAnchorPriceUsd = pr_valuationAnchorPriceUsd pos,
               pcm_valuationAnchorBinId = pr_valuationAnchorBinId pos,
               pcm_valuationAnchorValueUsd = pr_valuationAnchorValueUsd pos\<rparr>
            else None);
          fallbackMark = nullish paperMark (estimatePositionValue pos (ps_currentPrice pool))
      in nullish realMark fallbackMark)"

definition refreshPositionValue ::
  "(jsnum \<Rightarrow> jsnum) \<Rightarrow> (jsnum \<Rightarrow> jsnum \<Rightarrow> jsnum) \<Rightarrow> bool \<Rightarrow> jsnum \<Rightarrow> int \<Rightarrow> jsnum option \<Rightarrow> PoolState
   \<Rightarrow> PositionRecord \<Rightarrow> PaperState \<Rightarrow> PaperState" where
  "refreshPositionValue sqrtf powf paperTrading scanIntervalMs now onChainValue pool pos st =
     (let estimatedValue = positionMark sqrtf powf onChainValue pool pos;
          highest = nullish (pr_highestValueUsd pos) (pr_depositedUsd pos);
          marked = pos\<lparr>pr_currentValueUsd := estimatedValue,
            pr_highestValueUsd := (if jgt estimatedValue highest then Some estimatedValue
                                   else pr_highestValueUsd pos)\<rparr>;
          (accrued, st1) = accruePaperPositionFees paperTrading scanIntervalMs now pool marked st
      in savePosition accrued (trackPosition accrued st1))"

section \<open>The cash ledger after a restart\<close>

record PaperLedgerCapital =
  plc_entryUsd :: jsnum
  plc_scaleInUsd :: jsnum
  plc_rebalanceCostUsd :: jsnum
  plc_hasEntry :: bool

definition finiteValue :: "jsnum option \<Rightarrow> jsnum option" where
  "finiteValue value = (case value of None \<Rightarrow> None | Some v \<Rightarrow> if is_finite v then Some v else None)"

definition finiteNonNegativeValue :: "jsnum option \<Rightarrow> jsnum option" where
  "finiteNonNegativeValue value =
     (case value of None \<Rightarrow> None | Some v \<Rightarrow> if finiteNonNegativeNumber v then Some v else None)"

definition paperClosedRealizedUsd :: "PositionRecord list \<Rightarrow> jsnum" where
  "paperClosedRealizedUsd positions =
     foldl (\<lambda>s pos. if pr_positionPubKey pos = None
         then jadd s (nullish (finiteValue (pr_realizedPnlUsd pos)) (Fin 0)) else s) (Fin 0) positions"

definition paperFreshScaleInUsd :: "PaperRebalanceMetadata \<Rightarrow> PositionRecord option \<Rightarrow> jsnum" where
  "paperFreshScaleInUsd metadata position =
     (if prm_scaleIn metadata = Some True \<and> prm_compounded metadata \<noteq> Some True
         \<and> (case position of None \<Rightarrow> False | Some p \<Rightarrow> pr_launchRunner p = Some True)
      then nullish (finiteNonNegativeValue (prm_topUpUsd metadata)) (Fin 0) else Fin 0)"

definition applyPaperCapitalEvent ::
  "PaperLedgerCapital \<Rightarrow> PaperPositionEvent \<Rightarrow> PositionRecord option \<Rightarrow> PaperLedgerCapital" where
  "applyPaperCapitalEvent capital event position =
     (if ppe_event event = EnterEvent
      then (case finiteNonNegativeValue (ppe_valueUsd event) of
          None \<Rightarrow> capital
        | Some entryUsd \<Rightarrow> capital\<lparr>plc_entryUsd := jadd (plc_entryUsd capital) entryUsd,
            plc_hasEntry := True\<rparr>)
      else if ppe_event event \<noteq> RebalanceEvent then capital
      else (case ppe_metadata event of
          None \<Rightarrow> capital
        | Some metadata \<Rightarrow>
            (let charged = (case finiteNonNegativeValue (prm_modeledCostUsd metadata) of
                 None \<Rightarrow> capital
               | Some c \<Rightarrow> capital\<lparr>plc_rebalanceCostUsd := jadd (plc_rebalanceCostUsd capital) c\<rparr>)
             in charged\<lparr>plc_scaleInUsd := jadd (plc_scaleInUsd charged)
                  (paperFreshScaleInUsd metadata position)\<rparr>)))"

definition noCapital :: PaperLedgerCapital where
  "noCapital = \<lparr>plc_entryUsd = Fin 0, plc_scaleInUsd = Fin 0, plc_rebalanceCostUsd = Fin 0,
     plc_hasEntry = False\<rparr>"

definition replayPaperCapitalEvents ::
  "PaperPositionEvent list \<Rightarrow> (string \<Rightarrow> PositionRecord option)
   \<Rightarrow> (string \<Rightarrow> PaperLedgerCapital option) \<Rightarrow> string \<Rightarrow> PaperLedgerCapital option" where
  "replayPaperCapitalEvents events openPaperById capitalByPosition =
     foldl (\<lambda>m event.
         case ppe_positionId event of
           None \<Rightarrow> m
         | Some positionId \<Rightarrow>
             if openPaperById positionId = None then m
             else m(positionId \<mapsto> applyPaperCapitalEvent (nullish (m positionId) noCapital) event
                      (openPaperById positionId))) capitalByPosition events"

definition committedPaperCapitalUsd :: "PositionRecord \<Rightarrow> PaperLedgerCapital option \<Rightarrow> jsnum" where
  "committedPaperCapitalUsd position capital =
     (if \<not> is_finite (pr_depositedUsd position) then Fin 0
      else
        let committedUsd = (case capital of
              Some c \<Rightarrow> if plc_hasEntry c then jadd (plc_entryUsd c) (plc_scaleInUsd c)
                        else pr_depositedUsd position
            | None \<Rightarrow> pr_depositedUsd position)
        in if is_finite committedUsd then committedUsd else pr_depositedUsd position)"

definition paperRebalanceCostForPosition :: "PaperLedgerCapital option \<Rightarrow> jsnum" where
  "paperRebalanceCostForPosition capital =
     (let costUsd = (case capital of None \<Rightarrow> Fin 0 | Some c \<Rightarrow> plc_rebalanceCostUsd c)
      in if finiteNonNegativeNumber costUsd then costUsd else Fin 0)"

definition loadPaperCashLedger :: "jsnum \<Rightarrow> PaperState \<Rightarrow> jsnum" where
  "loadPaperCashLedger seedUsd st =
     (let openPaperPositions = filter (\<lambda>pos. pr_positionPubKey pos = None) (getAllPositions st);
          openPaperById = map_of (rev (map (\<lambda>pos. (pr_positionId pos, pos)) openPaperPositions));
          capitalByPosition = foldl (\<lambda>m poolAddress.
              replayPaperCapitalEvents (getPositionEvents st poolAddress) openPaperById m)
            (\<lambda>_. None) (remdups (map pr_poolAddress openPaperPositions));
          openPaperCapitalUsd = foldl (\<lambda>s pos. jadd s
              (committedPaperCapitalUsd pos (capitalByPosition (pr_positionId pos))))
            (Fin 0) openPaperPositions;
          openPaperRebalanceCostsUsd = foldl (\<lambda>s pos. jadd s
              (paperRebalanceCostForPosition (capitalByPosition (pr_positionId pos))))
            (Fin 0) openPaperPositions
      in jmax (jsub (jsub (jadd seedUsd (paperClosedRealizedUsd (getClosedPositions st)))
                 openPaperCapitalUsd) openPaperRebalanceCostsUsd) (Fin 0))"

end
