(* ===== verification/PaperLedger.thy ===== *)
theory PaperLedger
  imports JsError PaperTrading
begin

text \<open>
  Paper cash over a whole run of the paper executor (\<^verbatim>\<open>engine/program.ts\<close>).  The live balance is
  updated by every entry, rebalance and exit; a restart forgets it and rebuilds it with
  \<open>loadPaperCashLedger\<close> from the rows and events of the database.  The theory relates both to the
  exact sum of what was booked, and so to each other.
\<close>

section \<open>Exact amounts of events\<close>

definition amt :: "jsnum option \<Rightarrow> rat" where
  "amt a = (case a of Some (Fin q) \<Rightarrow> q | _ \<Rightarrow> 0)"

definition ev_entry :: "string \<Rightarrow> PaperPositionEvent \<Rightarrow> rat" where
  "ev_entry i e =
     (if ppe_positionId e = Some i \<and> ppe_event e = EnterEvent then amt (ppe_valueUsd e) else 0)"

definition ev_cost :: "string \<Rightarrow> PaperPositionEvent \<Rightarrow> rat" where
  "ev_cost i e =
     (case paperRebalanceMetadataFor e i of None \<Rightarrow> 0 | Some m \<Rightarrow> amt (prm_modeledCostUsd m))"

definition ev_scale :: "string \<Rightarrow> PaperPositionEvent \<Rightarrow> rat" where
  "ev_scale i e =
     (case paperRebalanceMetadataFor e i of
        None \<Rightarrow> 0 | Some m \<Rightarrow> if prm_scaleIn m = Some True then amt (prm_topUpUsd m) else 0)"

definition ev_comp :: "string \<Rightarrow> PaperPositionEvent \<Rightarrow> rat" where
  "ev_comp i e =
     (case paperRebalanceMetadataFor e i of
        None \<Rightarrow> 0 | Some m \<Rightarrow> if prm_compounded m = Some True then amt (prm_topUpUsd m) else 0)"

definition ev_hit :: "string \<Rightarrow> PaperPositionEvent \<Rightarrow> nat" where
  "ev_hit i e = (if ppe_positionId e = Some i then 1 else 0)"

definition evsum :: "(string \<Rightarrow> PaperPositionEvent \<Rightarrow> 'a::comm_monoid_add) \<Rightarrow> string
    \<Rightarrow> PaperPositionEvent list \<Rightarrow> 'a" where
  "evsum f i evs = sum_list (map (f i) evs)"

text \<open>The events the executor writes.\<close>

definition ev_ok :: "PaperPositionEvent \<Rightarrow> bool" where
  "ev_ok e \<longleftrightarrow>
     (ppe_event e = EnterEvent \<longrightarrow> (\<exists>q \<ge> 0. ppe_valueUsd e = Some (Fin q))) \<and>
     (ppe_event e = RebalanceEvent \<longrightarrow>
       (\<exists>m c t. ppe_metadata e = Some m \<and> prm_modeledCostUsd m = Some (Fin c) \<and> 0 \<le> c \<and> 0 \<le> t \<and>
          (prm_topUpUsd m = None \<and> prm_compounded m = None \<and> prm_scaleIn m = None \<or>
           prm_topUpUsd m = Some (Fin t) \<and>
             (prm_compounded m = Some True \<and> prm_scaleIn m = None \<or>
              prm_compounded m = None \<and> prm_scaleIn m = Some True))))"

lemma amt_simps [simp]: "amt None = 0" "amt (Some (Fin q)) = q"
  by (simp_all add: amt_def)

lemma evsum_simps [simp]:
  "evsum f i [] = 0" "evsum f i (xs @ ys) = evsum f i xs + evsum f i ys"
  "evsum f i (e # ys) = f i e + evsum f i ys"
  by (simp_all add: evsum_def)

lemmas ev_defs = ev_entry_def ev_cost_def ev_scale_def ev_comp_def ev_hit_def
  paperRebalanceMetadataFor_def

lemma ev_other:
  assumes "ppe_positionId e \<noteq> Some i"
  shows "ev_entry i e = 0" "ev_cost i e = 0" "ev_scale i e = 0" "ev_comp i e = 0" "ev_hit i e = 0"
  using assms by (simp_all add: ev_defs)

lemma evsum_zero: "\<forall>e \<in> set es. f i e = 0 \<Longrightarrow> evsum f i es = 0"
  by (induction es) auto

lemma evsum_other:
  assumes "\<forall>e \<in> set es. ppe_positionId e \<noteq> Some i"
  shows "evsum ev_entry i es = 0" "evsum ev_cost i es = 0" "evsum ev_scale i es = 0"
    "evsum ev_comp i es = 0" "evsum ev_hit i es = 0"
  using assms by (auto intro!: evsum_zero simp: ev_other)

lemma ev_nonneg:
  assumes "ev_ok e"
  shows "0 \<le> ev_entry i e" "0 \<le> ev_cost i e" "0 \<le> ev_scale i e" "0 \<le> ev_comp i e"
  using assms by (auto simp: ev_ok_def ev_defs split: option.splits)

lemma evsum_nonneg_gen: "\<forall>e \<in> set es. 0 \<le> f i e \<Longrightarrow> (0 :: rat) \<le> evsum f i es"
  unfolding evsum_def by (rule sum_list_nonneg) auto

lemma evsum_nonneg:
  assumes "\<forall>e \<in> set es. ev_ok e"
  shows "0 \<le> evsum ev_entry i es" "0 \<le> evsum ev_cost i es" "0 \<le> evsum ev_scale i es"
    "0 \<le> evsum ev_comp i es"
  using assms by (auto intro!: evsum_nonneg_gen simp: ev_nonneg)

lemma hits_sum:
  "distinct ids \<Longrightarrow> sum_list (map (\<lambda>i. evsum ev_hit i evs) ids) \<le> length evs"
proof (induction evs)
  case (Cons e evs)
  have "distinct ids \<Longrightarrow> sum_list (map (\<lambda>i. ev_hit i e) ids) \<le> 1" for ids
    by (induction ids) (auto simp: ev_hit_def sum_list_eq_0_iff intro!: sum_list_0)
  from this [OF Cons.prems] show ?case using Cons by (simp add: sum_list_addf)
qed simp

section \<open>Sums over the rows of a table\<close>

lemma sum_delete:
  fixes f :: "string \<times> 'b \<Rightarrow> 'a::comm_monoid_add"
  assumes "distinct (map fst xs)"
  shows "sum_list (map f xs) = sum_list (map f (AList.delete i xs)) +
      (case map_of xs i of None \<Rightarrow> 0 | Some q \<Rightarrow> f (i, q))"
  using assms
proof (induction xs)
  case (Cons x xs)
  obtain j q where x: "x = (j, q)" by force
  show ?case
  proof (cases "j = i")
    case True
    then have "i \<notin> fst ` set xs" using Cons.prems x by auto
    then have "AList.delete i xs = xs" by (simp add: delete_id)
    then show ?thesis using True by (simp add: x add.commute)
  next
    case False
    then show ?thesis using Cons by (simp add: x add.assoc)
  qed
qed simp

lemma sum_update:
  fixes f :: "string \<times> 'b \<Rightarrow> 'a::comm_monoid_add"
  assumes "distinct (map fst xs)"
  shows "sum_list (map f (AList.update i p xs)) = sum_list (map f (AList.delete i xs)) + f (i, p)"
  using assms
proof (induction xs)
  case (Cons x xs)
  obtain j q where x: "x = (j, q)" by force
  show ?case
  proof (cases "j = i")
    case True
    then have "i \<notin> fst ` set xs" using Cons.prems x by auto
    then have "AList.delete i xs = xs" by (simp add: delete_id)
    then show ?thesis using True by (simp add: x add.commute)
  next
    case False
    then show ?thesis using Cons by (simp add: x add.assoc)
  qed
qed simp

lemma map_entry_update:
  "map_of xs i = Some p \<Longrightarrow> AList.map_entry i g xs = AList.update i (g p) xs"
  by (induction xs) auto

lemma fst_set_update [simp]: "fst ` set (AList.update i p xs) = insert i (fst ` set xs)"
  using AList.dom_update [of i p xs] by (simp add: dom_map_of_conv_image_fst)

lemma set_update:
  "distinct (map fst xs) \<Longrightarrow> x \<in> set (AList.update i p xs) \<longleftrightarrow> x = (i, p) \<or> x \<in> set xs \<and> fst x \<noteq> i"
  by (induction xs) force+

section \<open>The folds of the code\<close>

lemma sum_abs_evsum:
  "\<forall>e \<in> set evs. 0 \<le> f i e \<Longrightarrow> sum_list (map (\<lambda>e. \<bar>f i e\<bar>) evs) = (evsum f i evs :: rat)"
  unfolding evsum_def by (rule arg_cong [of _ _ sum_list]) simp

text \<open>A fold over the events of a position that adds an amount per event.\<close>

lemma evsum_fold:
  assumes "\<forall>e \<in> set evs. 0 \<le> g i e"
    and "\<forall>e \<in> set evs. (\<forall>a. F a e = a) \<and> g i e = 0 \<or>
      ppe_positionId e = Some i \<and> (\<forall>a. F a e = jadd a (Fin (g i e)))"
    and "evsum g i evs + of_nat (evsum ev_hit i evs) * unit_error \<le> sum_limit"
  shows "near (evsum ev_hit i evs) (foldl F (Fin 0) evs) (evsum g i evs)"
proof -
  have "near (0 + sum_list (map (ev_hit i) evs)) (foldl F (Fin 0) evs)
      (0 + sum_list (map (g i) evs))"
  proof (rule near_fold)
    show "\<forall>e \<in> set evs. (\<forall>a. F a e = a) \<and> g i e = 0 \<or>
        (\<exists>d y. near d y (g i e) \<and> d + 1 \<le> ev_hit i e \<and> (\<forall>a. F a e = jadd a y))"
    proof
      fix e assume "e \<in> set evs"
      then consider "(\<forall>a. F a e = a) \<and> g i e = 0" |
        "ppe_positionId e = Some i" "\<forall>a. F a e = jadd a (Fin (g i e))" using assms(2) by blast
      then show "(\<forall>a. F a e = a) \<and> g i e = 0 \<or>
          (\<exists>d y. near d y (g i e) \<and> d + 1 \<le> ev_hit i e \<and> (\<forall>a. F a e = jadd a y))"
      proof cases
        case 2
        then have "near 0 (Fin (g i e)) (g i e) \<and> 0 + 1 \<le> ev_hit i e" by (simp add: ev_hit_def)
        with 2(2) show ?thesis by blast
      qed simp
    qed
    show "\<bar>0\<bar> + sum_list (map (\<lambda>e. \<bar>g i e\<bar>) evs) +
        of_nat (0 + sum_list (map (ev_hit i) evs)) * unit_error \<le> sum_limit"
      using assms(3) sum_abs_evsum [of evs g i, OF assms(1)] by (simp add: evsum_def)
  qed simp
  then show ?thesis by (simp add: evsum_def)
qed

lemma ev_ok_metadata:
  assumes "ev_ok e" "paperRebalanceMetadataFor e i = Some m"
  obtains c t where "ppe_positionId e = Some i" "ppe_event e = RebalanceEvent"
    "ppe_metadata e = Some m" "prm_modeledCostUsd m = Some (Fin c)" "0 \<le> c" "0 \<le> t"
    "prm_topUpUsd m = None \<and> prm_compounded m = None \<and> prm_scaleIn m = None \<or>
     prm_topUpUsd m = Some (Fin t) \<and> prm_compounded m = Some True \<and> prm_scaleIn m = None \<or>
     prm_topUpUsd m = Some (Fin t) \<and> prm_compounded m = None \<and> prm_scaleIn m = Some True"
  using assms by (fastforce simp: ev_ok_def paperRebalanceMetadataFor_def split: if_splits)

lemma add_amount_Fin: "0 \<le> q \<Longrightarrow> add_amount a (Some (Fin q)) = jadd a (Fin q)"
  by (simp add: add_amount_def finiteNonNegativeNumber_def)

lemma rebalance_costs_near:
  assumes "\<forall>e \<in> set evs. ev_ok e"
    and "evsum ev_cost i evs + of_nat (evsum ev_hit i evs) * unit_error \<le> sum_limit"
  shows "near (evsum ev_hit i evs) (paperRebalanceCostsUsd evs i) (evsum ev_cost i evs)"
  unfolding paperRebalanceCostsUsd_def
proof (rule evsum_fold [OF _ _ assms(2)])
  let ?F = "\<lambda>acc event. case paperRebalanceMetadataFor event i of None \<Rightarrow> acc
      | Some metadata \<Rightarrow> add_amount acc (prm_modeledCostUsd metadata)"
  show "\<forall>e \<in> set evs. (\<forall>a. ?F a e = a) \<and> ev_cost i e = 0 \<or>
      ppe_positionId e = Some i \<and> (\<forall>a. ?F a e = jadd a (Fin (ev_cost i e)))"
  proof
    fix e assume "e \<in> set evs"
    then have ok: "ev_ok e" using assms(1) by blast
    show "(\<forall>a. ?F a e = a) \<and> ev_cost i e = 0 \<or>
        ppe_positionId e = Some i \<and> (\<forall>a. ?F a e = jadd a (Fin (ev_cost i e)))"
    proof (cases "paperRebalanceMetadataFor e i")
      case (Some m)
      from ok Some show ?thesis
        by (rule ev_ok_metadata) (simp add: Some ev_cost_def add_amount_Fin)
    qed (simp add: ev_cost_def)
  qed
qed (use assms(1) in \<open>simp add: ev_nonneg\<close>)

lemma compounded_fees_near:
  assumes "\<forall>e \<in> set evs. ev_ok e"
    and "\<forall>e \<in> set evs. \<forall>m. paperRebalanceMetadataFor e i = Some m \<longrightarrow> prm_scaleIn m = Some True \<longrightarrow> b"
    and "evsum ev_comp i evs + of_nat (evsum ev_hit i evs) * unit_error \<le> sum_limit"
  shows "near (evsum ev_hit i evs) (paperCompoundedFeesUsd evs i b) (evsum ev_comp i evs)"
  unfolding paperCompoundedFeesUsd_def
proof (rule evsum_fold [OF _ _ assms(3)])
  let ?F = "\<lambda>acc event. case paperRebalanceMetadataFor event i of None \<Rightarrow> acc
      | Some metadata \<Rightarrow>
          if prm_compounded metadata = Some True \<or> prm_scaleIn metadata = Some True \<and> \<not> b
          then add_amount acc (prm_topUpUsd metadata) else acc"
  show "\<forall>e \<in> set evs. (\<forall>a. ?F a e = a) \<and> ev_comp i e = 0 \<or>
      ppe_positionId e = Some i \<and> (\<forall>a. ?F a e = jadd a (Fin (ev_comp i e)))"
  proof
    fix e assume e: "e \<in> set evs"
    then have ok: "ev_ok e" using assms(1) by blast
    show "(\<forall>a. ?F a e = a) \<and> ev_comp i e = 0 \<or>
        ppe_positionId e = Some i \<and> (\<forall>a. ?F a e = jadd a (Fin (ev_comp i e)))"
    proof (cases "paperRebalanceMetadataFor e i")
      case (Some m)
      have b: "prm_scaleIn m = Some True \<Longrightarrow> b" using assms(2) e Some by blast
      from ok Some show ?thesis
        by (rule ev_ok_metadata) (use b in \<open>auto simp: Some ev_comp_def add_amount_Fin\<close>)
    qed (simp add: ev_comp_def)
  qed
qed (use assms(1) in \<open>simp add: ev_nonneg\<close>)

section \<open>Replaying the events of a position\<close>

definition eventsOf :: "string \<Rightarrow> PaperPositionEvent list \<Rightarrow> PaperPositionEvent list" where
  "eventsOf i evs = filter (\<lambda>e. ppe_positionId e = Some i) evs"

definition capitalOf :: "PositionRecord \<Rightarrow> PaperPositionEvent list \<Rightarrow> PaperLedgerCapital" where
  "capitalOf p evs = foldl (\<lambda>c e. applyPaperCapitalEvent c e (Some p)) noCapital evs"

lemma evsum_eventsOf:
  "evsum ev_entry i (eventsOf i evs) = evsum ev_entry i evs"
  "evsum ev_cost i (eventsOf i evs) = evsum ev_cost i evs"
  "evsum ev_scale i (eventsOf i evs) = evsum ev_scale i evs"
  "evsum ev_comp i (eventsOf i evs) = evsum ev_comp i evs"
  "evsum ev_hit i (eventsOf i evs) = evsum ev_hit i evs"
  by (induction evs) (simp_all add: eventsOf_def ev_other)

definition entry_step :: "jsnum \<Rightarrow> PaperPositionEvent \<Rightarrow> jsnum" where
  "entry_step a e = (if ppe_event e = EnterEvent then add_amount a (ppe_valueUsd e) else a)"

definition cost_step :: "jsnum \<Rightarrow> PaperPositionEvent \<Rightarrow> jsnum" where
  "cost_step a e =
     (if ppe_event e = RebalanceEvent
      then (case ppe_metadata e of None \<Rightarrow> a | Some m \<Rightarrow> add_amount a (prm_modeledCostUsd m)) else a)"

definition scale_step :: "PositionRecord \<Rightarrow> jsnum \<Rightarrow> PaperPositionEvent \<Rightarrow> jsnum" where
  "scale_step p a e =
     (if ppe_event e = RebalanceEvent
      then (case ppe_metadata e of
          None \<Rightarrow> a | Some m \<Rightarrow> jadd a (paperFreshScaleInUsd m (Some p))) else a)"

lemma apply_fields:
  "plc_entryUsd (applyPaperCapitalEvent c e (Some p)) = entry_step (plc_entryUsd c) e"
  "plc_rebalanceCostUsd (applyPaperCapitalEvent c e (Some p)) = cost_step (plc_rebalanceCostUsd c) e"
  "plc_scaleInUsd (applyPaperCapitalEvent c e (Some p)) = scale_step p (plc_scaleInUsd c) e"
  "plc_hasEntry (applyPaperCapitalEvent c e (Some p)) \<longleftrightarrow> plc_hasEntry c \<or>
     ppe_event e = EnterEvent \<and> finiteNonNegativeValue (ppe_valueUsd e) \<noteq> None"
  by (auto simp: applyPaperCapitalEvent_def entry_step_def cost_step_def scale_step_def add_amount_def
      finiteNonNegativeValue_def Let_def split: option.splits)

lemma foldl_fields:
  "plc_entryUsd (foldl (\<lambda>c e. applyPaperCapitalEvent c e (Some p)) c evs) =
     foldl entry_step (plc_entryUsd c) evs"
  "plc_rebalanceCostUsd (foldl (\<lambda>c e. applyPaperCapitalEvent c e (Some p)) c evs) =
     foldl cost_step (plc_rebalanceCostUsd c) evs"
  "plc_scaleInUsd (foldl (\<lambda>c e. applyPaperCapitalEvent c e (Some p)) c evs) =
     foldl (scale_step p) (plc_scaleInUsd c) evs"
  "plc_hasEntry (foldl (\<lambda>c e. applyPaperCapitalEvent c e (Some p)) c evs) \<longleftrightarrow> plc_hasEntry c \<or>
     (\<exists>e \<in> set evs. ppe_event e = EnterEvent \<and> finiteNonNegativeValue (ppe_valueUsd e) \<noteq> None)"
  by (induction evs arbitrary: c) (auto simp: apply_fields)

lemma capitalOf_fields:
  "plc_entryUsd (capitalOf p evs) = foldl entry_step (Fin 0) evs"
  "plc_rebalanceCostUsd (capitalOf p evs) = foldl cost_step (Fin 0) evs"
  "plc_scaleInUsd (capitalOf p evs) = foldl (scale_step p) (Fin 0) evs"
  "plc_hasEntry (capitalOf p evs) \<longleftrightarrow> (\<exists>e \<in> set evs. ppe_event e = EnterEvent \<and>
     finiteNonNegativeValue (ppe_valueUsd e) \<noteq> None)"
  unfolding capitalOf_def foldl_fields by (simp_all add: noCapital_def)

lemma capital_near:
  assumes ok: "\<forall>e \<in> set evs. ev_ok e"
    and run: "\<forall>e \<in> set evs. \<forall>m. paperRebalanceMetadataFor e i = Some m \<longrightarrow>
      prm_scaleIn m = Some True \<longrightarrow> pr_launchRunner p = Some True"
    and lim: "evsum ev_entry i evs + evsum ev_cost i evs + evsum ev_scale i evs +
      of_nat (evsum ev_hit i evs) * unit_error \<le> sum_limit"
  shows "near (evsum ev_hit i evs) (plc_entryUsd (capitalOf p (eventsOf i evs))) (evsum ev_entry i evs)"
    "near (evsum ev_hit i evs) (plc_rebalanceCostUsd (capitalOf p (eventsOf i evs)))
      (evsum ev_cost i evs)"
    "near (evsum ev_hit i evs) (plc_scaleInUsd (capitalOf p (eventsOf i evs))) (evsum ev_scale i evs)"
proof -
  let ?es = "eventsOf i evs"
  have es: "e \<in> set ?es \<Longrightarrow> ppe_positionId e = Some i \<and> e \<in> set evs" for e
    by (simp add: eventsOf_def)
  have oks: "\<forall>e \<in> set ?es. ev_ok e" using ok es by blast
  note pos = evsum_nonneg [OF ok, of i] and nn = ev_nonneg
  have l: "evsum ev_entry i ?es + of_nat (evsum ev_hit i ?es) * unit_error \<le> sum_limit"
    "evsum ev_cost i ?es + of_nat (evsum ev_hit i ?es) * unit_error \<le> sum_limit"
    "evsum ev_scale i ?es + of_nat (evsum ev_hit i ?es) * unit_error \<le> sum_limit"
    using lim pos unfolding evsum_eventsOf by linarith+
  have e: "(\<forall>a. entry_step a e = a) \<and> ev_entry i e = 0 \<or>
      ppe_positionId e = Some i \<and> (\<forall>a. entry_step a e = jadd a (Fin (ev_entry i e)))" if "e \<in> set ?es" for e
    using es [OF that] ok
    by (auto simp: ev_ok_def entry_step_def ev_entry_def add_amount_Fin dest!: bspec)
  have c: "(\<forall>a. cost_step a e = a) \<and> ev_cost i e = 0 \<or>
      ppe_positionId e = Some i \<and> (\<forall>a. cost_step a e = jadd a (Fin (ev_cost i e)))" if "e \<in> set ?es" for e
    using es [OF that] ok
    by (fastforce simp: ev_ok_def cost_step_def ev_cost_def paperRebalanceMetadataFor_def add_amount_Fin)
  have s: "(\<forall>a. scale_step p a e = a) \<and> ev_scale i e = 0 \<or>
      ppe_positionId e = Some i \<and> (\<forall>a. scale_step p a e = jadd a (Fin (ev_scale i e)))" if "e \<in> set ?es" for e
  proof (cases "paperRebalanceMetadataFor e i")
    case None
    then show ?thesis using es [OF that] ok
      by (fastforce simp: ev_ok_def scale_step_def ev_scale_def paperRebalanceMetadataFor_def split: if_splits)
  next
    case (Some m)
    have b: "prm_scaleIn m = Some True \<Longrightarrow> pr_launchRunner p = Some True"
      using run es [OF that] Some by blast
    have "ev_ok e" using es [OF that] ok by blast
    then show ?thesis using Some
      by (rule ev_ok_metadata) (use b in \<open>auto simp: Some scale_step_def ev_scale_def
        paperFreshScaleInUsd_def finiteNonNegativeValue_def finiteNonNegativeNumber_def\<close>)
  qed
  show "near (evsum ev_hit i evs) (plc_entryUsd (capitalOf p ?es)) (evsum ev_entry i evs)"
    using evsum_fold [of ?es ev_entry i entry_step, OF _ _ l(1)] oks e nn
    unfolding evsum_eventsOf capitalOf_fields by blast
  show "near (evsum ev_hit i evs) (plc_rebalanceCostUsd (capitalOf p ?es)) (evsum ev_cost i evs)"
    using evsum_fold [of ?es ev_cost i cost_step, OF _ _ l(2)] oks c nn
    unfolding evsum_eventsOf capitalOf_fields by blast
  show "near (evsum ev_hit i evs) (plc_scaleInUsd (capitalOf p ?es)) (evsum ev_scale i evs)"
    using evsum_fold [of ?es ev_scale i "scale_step p", OF _ _ l(3)] oks s nn
    unfolding evsum_eventsOf capitalOf_fields by blast
qed

section \<open>The invariant\<close>

definition row_ledger :: "PaperPositionEvent list \<Rightarrow> string \<times> PositionRecord \<Rightarrow> rat" where
  "row_ledger evs row =
     (let i = fst row
      in if pr_closedAt (snd row) = None
         then - (evsum ev_entry i evs + evsum ev_scale i evs + evsum ev_cost i evs)
         else amt (pr_realizedPnlUsd (snd row)))"

definition row_error :: "PaperPositionEvent list \<Rightarrow> string \<times> PositionRecord \<Rightarrow> nat" where
  "row_error evs row =
     (if pr_closedAt (snd row) = None then 2 else 30) * evsum ev_hit (fst row) evs"

definition row_volume :: "PaperPositionEvent list \<Rightarrow> string \<times> PositionRecord \<Rightarrow> rat" where
  "row_volume evs row =
     (let i = fst row
      in evsum ev_entry i evs + evsum ev_scale i evs + evsum ev_cost i evs + evsum ev_comp i evs +
         (if pr_closedAt (snd row) = None then 0 else \<bar>amt (pr_realizedPnlUsd (snd row))\<bar>))"

definition open_row_ok :: "PaperPositionEvent list \<Rightarrow> string \<Rightarrow> PositionRecord \<Rightarrow> bool" where
  "open_row_ok evs i p \<longleftrightarrow>
     pr_paperExitedAt p = None \<and> pr_cumulativeRewardsClaimedUsd p = Fin 0 \<and>
     near (evsum ev_hit i evs) (pr_depositedUsd p)
       (evsum ev_entry i evs + evsum ev_scale i evs + evsum ev_comp i evs) \<and>
     (\<exists>f. pr_cumulativeFeesClaimedUsd p = Fin f \<and> 0 \<le> f \<and> fl f = Fin f \<and>
        evsum ev_comp i evs \<le> f + of_nat (evsum ev_hit i evs + 1) * unit_error)"

definition row_ok :: "PaperPositionEvent list \<Rightarrow> string \<times> PositionRecord \<Rightarrow> bool" where
  "row_ok evs row \<longleftrightarrow>
     (let i = fst row; p = snd row
      in pr_positionId p = i \<and> pr_positionPubKey p = None \<and>
         (\<exists>e \<in> set evs. ppe_positionId e = Some i \<and> ppe_event e = EnterEvent) \<and>
         (pr_closedAt p = None \<longrightarrow> open_row_ok evs i p) \<and>
         (pr_closedAt p \<noteq> None \<longrightarrow>
            pr_paperExitedAt p \<noteq> None \<and> (\<exists>r. pr_realizedPnlUsd p = Some (Fin r))) \<and>
         (\<forall>e \<in> set evs. ppe_positionId e = Some i \<longrightarrow> ppe_poolAddress e = pr_poolAddress p \<and>
            (\<forall>m. paperRebalanceMetadataFor e i = Some m \<longrightarrow> prm_scaleIn m = Some True \<longrightarrow>
               pr_launchRunner p = Some True)))"

definition ledger_ok :: "rat \<Rightarrow> PaperState \<Rightarrow> rat \<Rightarrow> bool" where
  "ledger_ok q st v \<longleftrightarrow>
     distinct (map fst (pst_positions st)) \<and> distinct (map fst (pst_tracked st)) \<and>
     (\<forall>row \<in> set (pst_positions st). row_ok (pst_events st) row) \<and>
     (\<forall>e \<in> set (pst_events st). ev_ok e \<and>
        (\<exists>i \<in> fst ` set (pst_positions st). ppe_positionId e = Some i)) \<and>
     (\<forall>i p. map_of (pst_tracked st) i = Some p \<longleftrightarrow>
        map_of (pst_positions st) i = Some p \<and> pr_closedAt p = None) \<and>
     near (sum_list (map (row_error (pst_events st)) (pst_positions st))) (pst_cash st)
       (q + sum_list (map (row_ledger (pst_events st)) (pst_positions st))) \<and>
     sum_list (map (row_volume (pst_events st)) (pst_positions st)) \<le> v"

definition old_of :: "(string \<times> PositionRecord \<Rightarrow> 'a::comm_monoid_add) \<Rightarrow> PaperState \<Rightarrow> string \<Rightarrow> 'a" where
  "old_of f st i = (case map_of (pst_positions st) i of None \<Rightarrow> 0 | Some p \<Rightarrow> f (i, p))"

lemma row_other:
  assumes "\<forall>e \<in> set es. ppe_positionId e = Some i" "fst row \<noteq> i"
  shows "row_ledger (evs @ es) row = row_ledger evs row" "row_error (evs @ es) row = row_error evs row"
    "row_volume (evs @ es) row = row_volume evs row" "row_ok evs row \<Longrightarrow> row_ok (evs @ es) row"
proof -
  have o: "\<forall>e \<in> set es. ppe_positionId e \<noteq> Some (fst row)" using assms by auto
  note z = evsum_other [OF o]
  show "row_ledger (evs @ es) row = row_ledger evs row" "row_error (evs @ es) row = row_error evs row"
    "row_volume (evs @ es) row = row_volume evs row"
    by (simp_all add: row_ledger_def row_error_def row_volume_def Let_def z)
  show "row_ok (evs @ es) row" if "row_ok evs row"
    using that o by (auto simp: row_ok_def open_row_ok_def Let_def z)
qed

lemma row_bounds:
  assumes "\<forall>e \<in> set evs. ev_ok e"
  shows "\<bar>row_ledger evs row\<bar> \<le> row_volume evs row" "0 \<le> row_volume evs row"
  using evsum_nonneg [OF assms, of "fst row"] by (auto simp: row_ledger_def row_volume_def Let_def)

lemma sum_abs_le: "\<forall>x \<in> set xs. \<bar>f x\<bar> \<le> (g x :: rat) \<Longrightarrow> \<bar>sum_list (map f xs)\<bar> \<le> sum_list (map g xs)"
  by (induction xs) (auto intro: order_trans [OF abs_triangle_ineq] add_mono)

lemma set_delete_subset: "x \<in> set (AList.delete i xs) \<Longrightarrow> x \<in> set xs \<and> fst x \<noteq> i"
  by (auto simp: AList.delete_eq)

lemma error_total:
  assumes "distinct (map fst (pst_positions st))"
  shows "sum_list (map (row_error evs) (pst_positions st)) \<le> 30 * length evs"
proof -
  have "sum_list (map (row_error evs) (pst_positions st)) \<le>
      sum_list (map (\<lambda>row. 30 * evsum ev_hit (fst row) evs) (pst_positions st))"
    by (rule sum_list_mono) (simp add: row_error_def)
  also have "\<dots> = 30 * sum_list (map (\<lambda>i. evsum ev_hit i evs) (map fst (pst_positions st)))"
    by (simp add: sum_list_const_mult o_def)
  also have "\<dots> \<le> 30 * length evs" using hits_sum [OF assms] by simp
  finally show ?thesis .
qed

text \<open>One row changes, with the events of its position.\<close>

lemma ledger_ok_book:
  assumes inv: "ledger_ok q st v"
    and upd: "pst_positions st' = AList.update i p' (pst_positions st)"
      "pst_events st' = pst_events st @ es"
      "map_of (pst_tracked st') = (map_of (pst_tracked st))
         (i := if pr_closedAt p' = None then Some p' else None)"
      "distinct (map fst (pst_tracked st'))"
    and es: "\<forall>e \<in> set es. ev_ok e \<and> ppe_positionId e = Some i"
    and row: "row_ok (pst_events st @ es) (i, p')"
    and vol: "row_volume (pst_events st @ es) (i, p') \<le> old_of (row_volume (pst_events st)) st i + (v' - v)"
    and cash: "\<And>e r. near (e + old_of (row_error (pst_events st)) st i) (pst_cash st)
        (r + old_of (row_ledger (pst_events st)) st i) \<Longrightarrow>
      \<bar>r\<bar> + old_of (row_volume (pst_events st)) st i \<le> \<bar>q\<bar> + v \<Longrightarrow>
      e + old_of (row_error (pst_events st)) st i \<le> 30 * length (pst_events st) \<Longrightarrow>
      near (e + row_error (pst_events st @ es) (i, p')) (pst_cash st')
        (r + row_ledger (pst_events st @ es) (i, p'))"
  shows "ledger_ok q st' v'"
proof -
  let ?evs = "pst_events st" and ?xs = "pst_positions st"
  let ?ds = "AList.delete i ?xs"
  have inv': "distinct (map fst ?xs)" "\<forall>row \<in> set ?xs. row_ok ?evs row"
    "\<forall>e \<in> set ?evs. ev_ok e \<and> (\<exists>i \<in> fst ` set ?xs. ppe_positionId e = Some i)"
    "\<forall>i p. map_of (pst_tracked st) i = Some p \<longleftrightarrow> map_of ?xs i = Some p \<and> pr_closedAt p = None"
    "near (sum_list (map (row_error ?evs) ?xs)) (pst_cash st)
       (q + sum_list (map (row_ledger ?evs) ?xs))"
    "sum_list (map (row_volume ?evs) ?xs) \<le> v"
    using inv by (auto simp: ledger_ok_def)
  have oks: "\<forall>e \<in> set ?evs. ev_ok e" using inv'(3) by blast
  have ids: "\<forall>e \<in> set es. ppe_positionId e = Some i" using es by blast
  have other: "map (row_error (?evs @ es)) ?ds = map (row_error ?evs) ?ds"
    "map (row_ledger (?evs @ es)) ?ds = map (row_ledger ?evs) ?ds"
    "map (row_volume (?evs @ es)) ?ds = map (row_volume ?evs) ?ds"
    by (rule map_cong [OF refl], rule row_other [OF ids], erule conjunct2 [OF set_delete_subset])+
  let ?e = "sum_list (map (row_error ?evs) ?ds)" and ?r = "q + sum_list (map (row_ledger ?evs) ?ds)"
  have sums: "sum_list (map (row_error ?evs) ?xs) = ?e + old_of (row_error ?evs) st i"
    "q + sum_list (map (row_ledger ?evs) ?xs) = ?r + old_of (row_ledger ?evs) st i"
    "sum_list (map (row_volume ?evs) ?xs) =
       sum_list (map (row_volume ?evs) ?ds) + old_of (row_volume ?evs) st i"
    unfolding old_of_def by (simp_all add: sum_delete [OF inv'(1), of _ i] add.assoc)
  have "\<bar>sum_list (map (row_ledger ?evs) ?ds)\<bar> \<le> sum_list (map (row_volume ?evs) ?ds)"
    by (rule sum_abs_le) (simp add: row_bounds oks)
  then have r: "\<bar>?r\<bar> + old_of (row_volume ?evs) st i \<le> \<bar>q\<bar> + v" using inv'(6) sums(3) by linarith
  have e: "?e + old_of (row_error ?evs) st i \<le> 30 * length ?evs"
    using error_total [OF inv'(1), of ?evs] sums(1) by simp
  have near': "near (?e + row_error (?evs @ es) (i, p')) (pst_cash st')
      (?r + row_ledger (?evs @ es) (i, p'))"
    by (rule cash [OF _ r e]) (use inv'(5) sums(1,2) in simp)
  have n: "near (sum_list (map (row_error (?evs @ es)) (AList.update i p' ?xs))) (pst_cash st')
      (q + sum_list (map (row_ledger (?evs @ es)) (AList.update i p' ?xs)))"
    using near' by (simp only: sum_update [OF inv'(1)] other add.assoc)
  have vs: "sum_list (map (row_volume (?evs @ es)) (AList.update i p' ?xs)) \<le> v'"
    using vol inv'(6) sums(3) by (simp only: sum_update [OF inv'(1)] other)
  have d: "distinct (map fst (AList.update i p' ?xs))" using inv'(1) by (rule distinct_update)
  have rows: "\<forall>row \<in> set (AList.update i p' ?xs). row_ok (?evs @ es) row"
    using inv'(2) row row_other(4) [OF ids] by (auto simp: set_update [OF inv'(1)])
  have evs: "\<forall>e \<in> set (?evs @ es). ev_ok e \<and>
      (\<exists>j \<in> fst ` set (AList.update i p' ?xs). ppe_positionId e = Some j)"
    using inv'(3) es by auto
  have tracked: "map_of (pst_tracked st') j = Some r \<longleftrightarrow>
      map_of (AList.update i p' ?xs) j = Some r \<and> pr_closedAt r = None" for j r
    using inv'(4) by (auto simp: upd(3) update_conv')
  show ?thesis unfolding ledger_ok_def upd(1,2) using upd(4) d rows evs tracked n vs by blast
qed

section \<open>The events of a pool\<close>

lemma evsum_mset: "mset xs = mset ys \<Longrightarrow> evsum f i xs = evsum f i ys"
  unfolding evsum_def by (metis mset_map sum_mset_sum_list)

lemma evsum_pool:
  assumes "\<forall>e. ppe_positionId e \<noteq> Some i \<longrightarrow> f i e = 0"
    and "\<forall>e \<in> set (pst_events st). ppe_positionId e = Some i \<longrightarrow> ppe_poolAddress e = a"
  shows "evsum f i (getPositionEvents st a) = evsum f i (pst_events st)"
proof -
  have "evsum f i (filter (\<lambda>e. ppe_poolAddress e = a) evs) = evsum f i evs"
    if "\<forall>e \<in> set evs. ppe_positionId e = Some i \<longrightarrow> ppe_poolAddress e = a" for evs
    using that by (induction evs) (auto simp: assms(1))
  then show ?thesis using assms(2)
    by (subst evsum_mset [of _ "filter (\<lambda>e. ppe_poolAddress e = a) (pst_events st)"])
      (simp_all add: getPositionEvents_def mset_sort_before)
qed

lemma pool_events:
  assumes "\<forall>e \<in> set (pst_events st). ppe_positionId e = Some i \<longrightarrow> ppe_poolAddress e = a"
  shows "evsum ev_entry i (getPositionEvents st a) = evsum ev_entry i (pst_events st)"
    "evsum ev_cost i (getPositionEvents st a) = evsum ev_cost i (pst_events st)"
    "evsum ev_scale i (getPositionEvents st a) = evsum ev_scale i (pst_events st)"
    "evsum ev_comp i (getPositionEvents st a) = evsum ev_comp i (pst_events st)"
    "evsum ev_hit i (getPositionEvents st a) = evsum ev_hit i (pst_events st)"
  by (rule evsum_pool [OF _ assms], simp add: ev_other)+

lemma set_pool_events: "set (getPositionEvents st a) \<subseteq> set (pst_events st)"
  by (auto simp: getPositionEvents_def set_sort_before)

section \<open>What a restart rebuilds\<close>

lemma replay_other:
  "L i = None \<Longrightarrow> replayPaperCapitalEvents evs L m i = m i"
  unfolding replayPaperCapitalEvents_def
  by (induction evs arbitrary: m) (auto split: option.splits)

lemma replay_at:
  assumes "L i = Some p"
  shows "replayPaperCapitalEvents evs L m i =
    (if eventsOf i evs = [] then m i
     else Some (foldl (\<lambda>c e. applyPaperCapitalEvent c e (Some p)) (nullish (m i) noCapital) (eventsOf i evs)))"
  unfolding replayPaperCapitalEvents_def
proof (induction evs arbitrary: m)
  case (Cons e evs)
  then show ?case
    using assms by (cases "ppe_positionId e") (auto simp: eventsOf_def)
qed (simp add: eventsOf_def)

lemma replay_pools:
  assumes L: "L i = Some p"
    and "\<forall>e \<in> set (pst_events st). ppe_positionId e = Some i \<longrightarrow> ppe_poolAddress e = a"
    and "distinct pools" "a \<in> set pools" "m i = None" "eventsOf i (pst_events st) \<noteq> []"
  shows "foldl (\<lambda>m b. replayPaperCapitalEvents (getPositionEvents st b) L m) m pools i =
    Some (capitalOf p (eventsOf i (getPositionEvents st a)))"
proof -
  let ?F = "\<lambda>m b. replayPaperCapitalEvents (getPositionEvents st b) L m"
  have other: "eventsOf i (getPositionEvents st b) = []" if "b \<noteq> a" for b
    using assms(2) that by (auto simp: eventsOf_def getPositionEvents_def set_sort_before filter_empty_conv)
  have skip: "foldl ?F m bs i = m i" if "a \<notin> set bs" for bs m
    using that by (induction bs arbitrary: m) (auto simp: replay_at [where L = L and i = i, OF L] other)
  have ne: "eventsOf i (getPositionEvents st a) \<noteq> []"
    using assms(2,6) by (auto simp: eventsOf_def getPositionEvents_def set_sort_before filter_empty_conv)
  obtain xs ys where p: "pools = xs @ a # ys" "a \<notin> set xs" using split_list_first [OF assms(4)] by blast
  then have "a \<notin> set ys" using assms(3) by simp
  then show ?thesis using ne
    by (simp add: p(1) skip p(2) replay_at [where L = L and i = i, OF L] assms(5) capitalOf_def)
qed

definition within_limit :: "rat \<Rightarrow> rat \<Rightarrow> nat \<Rightarrow> bool" where
  "within_limit q v n \<longleftrightarrow> \<bar>q\<bar> + 4 * v + of_nat (100 * n + 100) * unit_error \<le> sum_limit"

definition openRows :: "PaperState \<Rightarrow> (string \<times> PositionRecord) list" where
  "openRows st = filter (\<lambda>row. pr_closedAt (snd row) = None) (pst_positions st)"

definition closedRows :: "PaperState \<Rightarrow> (string \<times> PositionRecord) list" where
  "closedRows st = filter (\<lambda>row. pr_closedAt (snd row) \<noteq> None) (pst_positions st)"

text \<open>What the code reads of the tables, under the invariant.\<close>

lemma ledger_okD:
  assumes "ledger_ok q st v"
  shows "distinct (map fst (pst_positions st))"
    "row \<in> set (pst_positions st) \<Longrightarrow> row_ok (pst_events st) row"
    "\<forall>e \<in> set (pst_events st). ev_ok e"
    "e \<in> set (pst_events st) \<Longrightarrow> \<exists>i \<in> fst ` set (pst_positions st). ppe_positionId e = Some i"
    "map_of (pst_tracked st) i = Some p \<longleftrightarrow> map_of (pst_positions st) i = Some p \<and> pr_closedAt p = None"
    "near (sum_list (map (row_error (pst_events st)) (pst_positions st))) (pst_cash st)
       (q + sum_list (map (row_ledger (pst_events st)) (pst_positions st)))"
    "sum_list (map (row_volume (pst_events st)) (pst_positions st)) \<le> v"
    "distinct (map fst (pst_tracked st))"
  using assms by (auto simp: ledger_ok_def)

lemma filter_snd:
  "\<forall>row \<in> set xs. P (snd row) \<longleftrightarrow> Q row \<Longrightarrow> filter P (map snd xs) = map snd (filter Q xs)"
  by (induction xs) auto

lemma rows_read:
  assumes "ledger_ok q st v"
  shows "filter (\<lambda>pos. pr_positionPubKey pos = None) (getAllPositions st) = map snd (openRows st)"
    "mset (getClosedPositions st) = mset (map snd (closedRows st))"
proof -
  have ok: "pr_positionPubKey (snd row) = None \<and>
      (pr_closedAt (snd row) = None \<longleftrightarrow> pr_paperExitedAt (snd row) = None)"
    if "row \<in> set (pst_positions st)" for row
    using ledger_okD(2) [OF assms that] by (auto simp: row_ok_def open_row_ok_def Let_def)
  show "filter (\<lambda>pos. pr_positionPubKey pos = None) (getAllPositions st) = map snd (openRows st)"
    unfolding getAllPositions_def openRows_def filter_filter
    by (rule filter_snd) (use ok in blast)
  have "filter (\<lambda>pos. pr_closedAt pos \<noteq> None \<or> pr_paperExitedAt pos \<noteq> None)
      (map snd (pst_positions st)) = map snd (closedRows st)"
    unfolding closedRows_def by (rule filter_snd, rule ballI, drule ok, simp)
  then show "mset (getClosedPositions st) = mset (map snd (closedRows st))"
    by (simp add: getClosedPositions_def mset_sort_before del: mset_map)
qed

lemma sum_filter_split:
  "sum_list (map f xs) =
     sum_list (map f (filter P xs)) + (sum_list (map f (filter (\<lambda>x. \<not> P x) xs)) :: 'a::comm_monoid_add)"
  by (induction xs) (simp_all add: add_ac)

lemma sum_split:
  "sum_list (map f (pst_positions st)) =
     sum_list (map f (openRows st)) + (sum_list (map f (closedRows st)) :: 'a::comm_monoid_add)"
  unfolding openRows_def closedRows_def by (rule sum_filter_split)

definition hits_of :: "PaperState \<Rightarrow> string \<times> PositionRecord \<Rightarrow> nat" where
  "hits_of st row = evsum ev_hit (fst row) (pst_events st)"

lemma hits_total:
  assumes "ledger_ok q st v"
  shows "sum_list (map (hits_of st) (openRows st)) + sum_list (map (hits_of st) (closedRows st)) \<le>
    length (pst_events st)"
  using hits_sum [OF ledger_okD(1) [OF assms], of "pst_events st"]
  unfolding sum_split [of "hits_of st" st, symmetric] by (simp add: hits_of_def [abs_def] o_def)

lemma hit_positive:
  "row_ok evs row \<Longrightarrow> 1 \<le> evsum ev_hit (fst row) evs"
proof -
  assume "row_ok evs row"
  then obtain e where e: "e \<in> set evs" "ppe_positionId e = Some (fst row)"
    by (auto simp: row_ok_def Let_def)
  then have "ev_hit (fst row) e = 1" "ev_hit (fst row) e \<in> set (map (ev_hit (fst row)) evs)"
    by (simp_all add: ev_hit_def)
  then show ?thesis using member_le_sum_list [of "ev_hit (fst row) e"]
    by (simp add: evsum_def)
qed

text \<open>The capital of every open position, as the restart replays it.\<close>

lemma replayed_capital:
  assumes inv: "ledger_ok q st v"
    and row: "(i, p) \<in> set (openRows st)"
  defines "L \<equiv> map_of (rev (map (\<lambda>pos. (pr_positionId pos, pos)) (map snd (openRows st))))"
  shows "foldl (\<lambda>m b. replayPaperCapitalEvents (getPositionEvents st b) L m) (\<lambda>_. None)
      (remdups (map pr_poolAddress (map snd (openRows st)))) i =
    Some (capitalOf p (eventsOf i (getPositionEvents st (pr_poolAddress p))))"
proof -
  have mem: "(i, p) \<in> set (pst_positions st)" using row by (simp add: openRows_def)
  note ok = ledger_okD(2) [OF inv mem]
  have "map (\<lambda>row. (pr_positionId (snd row), snd row)) (openRows st) = map id (openRows st)"
  proof (rule map_cong [OF refl])
    fix r assume "r \<in> set (openRows st)"
    then have "row_ok (pst_events st) r" using ledger_okD(2) [OF inv] by (simp add: openRows_def)
    then show "(pr_positionId (snd r), snd r) = id r" by (cases r) (simp add: row_ok_def Let_def)
  qed
  then have ids: "map (\<lambda>pos. (pr_positionId pos, pos)) (map snd (openRows st)) = openRows st"
    by (simp add: o_def)
  have "distinct (map fst (openRows st))"
    using ledger_okD(1) [OF inv] unfolding openRows_def by (rule distinct_map_filter)
  then have L: "L i = Some p" using row unfolding L_def ids
    by (subst map_of_eq_Some_iff) (simp_all add: rev_map [symmetric])
  have pool: "\<forall>e \<in> set (pst_events st). ppe_positionId e = Some i \<longrightarrow> ppe_poolAddress e = pr_poolAddress p"
    using ok by (simp add: row_ok_def Let_def)
  have "eventsOf i (pst_events st) \<noteq> []"
    using ok by (auto simp: row_ok_def Let_def eventsOf_def filter_empty_conv)
  then show ?thesis using row pool by (intro replay_pools [where L = L and i = i, OF L]) force+
qed

lemma member_le_sum:
  "x \<in> set xs \<Longrightarrow> \<forall>y \<in> set xs. 0 \<le> f y \<Longrightarrow> (f x :: rat) \<le> sum_list (map f xs)"
proof (induction xs)
  case (Cons a xs)
  have "0 \<le> sum_list (map f xs)" using Cons.prems(2) by (intro sum_list_nonneg) auto
  then show ?case using Cons by fastforce
qed simp

lemma row_volume_le:
  assumes "ledger_ok q st v" "row \<in> set (pst_positions st)"
  shows "row_volume (pst_events st) row \<le> v"
  using member_le_sum [OF assms(2), of "row_volume (pst_events st)"] row_bounds(2) [OF ledger_okD(3) [OF assms(1)]]
    ledger_okD(7) [OF assms(1)] by auto

lemma add_amount_nonneg: "jle (Fin 0) a \<Longrightarrow> jle (Fin 0) (add_amount a m)"
  by (auto simp: add_amount_def finiteNonNegativeNumber_def jadd_nonneg split: option.splits)

lemma cost_steps_nonneg: "jle (Fin 0) a \<Longrightarrow> jle (Fin 0) (foldl cost_step a evs)"
  by (induction evs arbitrary: a)
    (auto simp: cost_step_def add_amount_nonneg split: option.splits)

lemma within_limit_use:
  assumes "within_limit q v n" "0 \<le> v" "m \<le> 100 * n + 100"
  shows "\<bar>q\<bar> + 4 * v + of_nat m * unit_error \<le> sum_limit"
proof -
  have "of_nat m * unit_error \<le> of_nat (100 * n + 100) * unit_error"
    by (rule units_mono [OF assms(3)])
  then show ?thesis using assms(1) unfolding within_limit_def by linarith
qed

lemma ledger_volume_nonneg: "ledger_ok q st v \<Longrightarrow> 0 \<le> v"
proof -
  assume inv: "ledger_ok q st v"
  have "0 \<le> sum_list (map (row_volume (pst_events st)) (pst_positions st))"
    by (rule sum_list_nonneg) (auto simp: row_bounds(2) [OF ledger_okD(3) [OF inv]])
  then show ?thesis using ledger_okD(7) [OF inv] by simp
qed

lemma hits_le:
  assumes "ledger_ok q st v" "row \<in> set (pst_positions st)"
  shows "hits_of st row \<le> length (pst_events st)"
proof -
  have "hits_of st row \<le> sum_list (map (hits_of st) (pst_positions st))"
    using assms(2) by (intro member_le_sum_list) auto
  then show ?thesis using hits_total [OF assms(1)] sum_split [of "hits_of st" st] by linarith
qed

text \<open>The replayed capital and cost of an open position.\<close>

lemma open_row_capital:
  assumes inv: "ledger_ok q st v" and lim: "within_limit q v (length (pst_events st))"
    and row: "(i, p) \<in> set (openRows st)"
  defines "C \<equiv> Some (capitalOf p (eventsOf i (getPositionEvents st (pr_poolAddress p))))"
    and "evs \<equiv> pst_events st"
  shows "near (2 * evsum ev_hit i evs + 1) (committedPaperCapitalUsd p C)
      (evsum ev_entry i evs + evsum ev_scale i evs)"
    "near (evsum ev_hit i evs) (paperRebalanceCostForPosition C) (evsum ev_cost i evs)"
proof -
  let ?pe = "getPositionEvents st (pr_poolAddress p)" and ?h = "evsum ev_hit i evs"
  let ?c = "capitalOf p (eventsOf i ?pe)"
  have mem: "(i, p) \<in> set (pst_positions st)" "pr_closedAt p = None" using row by (simp_all add: openRows_def)
  note ok = ledger_okD(2) [OF inv mem(1), unfolded row_ok_def Let_def fst_conv snd_conv]
  have pool: "\<forall>e \<in> set (pst_events st). ppe_positionId e = Some i \<longrightarrow> ppe_poolAddress e = pr_poolAddress p"
    using ok by blast
  note sums = pool_events [OF pool, folded evs_def]
  note pos = evsum_nonneg [OF ledger_okD(3) [OF inv], of i, folded evs_def]
  have vol: "evsum ev_entry i evs + evsum ev_scale i evs + evsum ev_cost i evs + evsum ev_comp i evs \<le> v"
    using row_volume_le [OF inv mem(1)] mem(2) by (simp add: row_volume_def evs_def)
  have h: "?h \<le> length (pst_events st)" using hits_le [OF inv mem(1)] by (simp add: hits_of_def evs_def)
  have v: "0 \<le> v" using ledger_volume_nonneg [OF inv] .
  have l1: "\<bar>q\<bar> + 4 * v + of_nat ?h * unit_error \<le> sum_limit"
    by (rule within_limit_use [OF lim v]) (use h in simp)
  have l2: "\<bar>q\<bar> + 4 * v + of_nat (?h + ?h) * unit_error \<le> sum_limit"
    by (rule within_limit_use [OF lim v]) (use h in simp)
  have oks: "\<forall>e \<in> set ?pe. ev_ok e" using ledger_okD(3) [OF inv] set_pool_events by blast
  have run: "\<forall>e \<in> set ?pe. \<forall>m. paperRebalanceMetadataFor e i = Some m \<longrightarrow>
      prm_scaleIn m = Some True \<longrightarrow> pr_launchRunner p = Some True"
  proof (intro ballI allI impI)
    fix e m assume e: "e \<in> set ?pe" "paperRebalanceMetadataFor e i = Some m" "prm_scaleIn m = Some True"
    then have "ppe_positionId e = Some i" by (simp add: paperRebalanceMetadataFor_def split: if_splits)
    then show "pr_launchRunner p = Some True" using ok e set_pool_events by blast
  qed
  have l3: "evsum ev_entry i ?pe + evsum ev_cost i ?pe + evsum ev_scale i ?pe +
      of_nat (evsum ev_hit i ?pe) * unit_error \<le> sum_limit"
    unfolding sums using vol pos v l1 by linarith
  note cn = capital_near [OF oks run l3, unfolded sums]
  have "near (?h + ?h + 1) (jadd (plc_entryUsd ?c) (plc_scaleInUsd ?c))
      (evsum ev_entry i evs + evsum ev_scale i evs)"
    by (rule near_add [OF cn(1,3)]) (use vol pos v l2 in linarith)
  then have add: "near (2 * ?h + 1) (jadd (plc_entryUsd ?c) (plc_scaleInUsd ?c))
      (evsum ev_entry i evs + evsum ev_scale i evs)" by (simp add: mult_2)
  obtain e where e: "e \<in> set (pst_events st)" "ppe_positionId e = Some i" "ppe_event e = EnterEvent"
    using ok by blast
  have "e \<in> set (eventsOf i ?pe)"
    using e pool by (simp add: eventsOf_def getPositionEvents_def set_sort_before)
  moreover have "finiteNonNegativeValue (ppe_valueUsd e) \<noteq> None"
    using ledger_okD(3) [OF inv] e
    by (auto simp: ev_ok_def finiteNonNegativeValue_def finiteNonNegativeNumber_def)
  ultimately have entry: "plc_hasEntry ?c" using e(3) by (auto simp: capitalOf_fields)
  have "open_row_ok evs i p" using ok mem(2) by (simp add: evs_def)
  then have "is_finite (pr_depositedUsd p)" by (auto simp: open_row_ok_def dest: near_finite)
  then show "near (2 * ?h + 1) (committedPaperCapitalUsd p C)
      (evsum ev_entry i evs + evsum ev_scale i evs)"
    using add near_finite [OF add] entry by (simp add: committedPaperCapitalUsd_def C_def)
  have "jle (Fin 0) (plc_rebalanceCostUsd ?c)" by (simp add: capitalOf_fields cost_steps_nonneg)
  then have "finiteNonNegativeNumber (plc_rebalanceCostUsd ?c)"
    using near_finite [OF cn(2)] by (simp add: finiteNonNegativeNumber_def)
  then show "near ?h (paperRebalanceCostForPosition C) (evsum ev_cost i evs)"
    using cn(2) by (simp add: paperRebalanceCostForPosition_def C_def Let_def)
qed

lemma sum_mset_list: "mset xs = mset ys \<Longrightarrow> sum_list (map f xs) = (sum_list (map f ys) :: 'a::comm_monoid_add)"
  by (metis mset_map sum_mset_sum_list)

lemma row_volume_split:
  "sum_list (map (\<lambda>(i, p). evsum ev_entry i evs + evsum ev_scale i evs) rows) +
   sum_list (map (\<lambda>(i, p). evsum ev_cost i evs) rows) \<le> sum_list (map (row_volume evs) rows)"
  if "\<forall>e \<in> set evs. ev_ok e" for rows
proof (induction rows)
  case (Cons r rows)
  then show ?case using evsum_nonneg [OF that, of "fst r"]
    by (auto simp: row_volume_def Let_def split: prod.splits)
qed simp

text \<open>The realized profit of the closed positions is summed with one rounding per row.\<close>

lemma closed_realized_near:
  assumes inv: "ledger_ok q st v" and lim: "within_limit q v (length (pst_events st))"
  defines "evs \<equiv> pst_events st"
  shows "near (sum_list (map (hits_of st) (closedRows st)))
      (paperClosedRealizedUsd (getClosedPositions st)) (sum_list (map (row_ledger evs) (closedRows st)))"
    "\<bar>sum_list (map (row_ledger evs) (closedRows st))\<bar> +
       sum_list (map (\<lambda>(i, p). evsum ev_entry i evs + evsum ev_scale i evs) (openRows st)) +
       sum_list (map (\<lambda>(i, p). evsum ev_cost i evs) (openRows st)) \<le> v"
proof -
  let ?Cs = "closedRows st" and ?ps = "getClosedPositions st"
  let ?g = "\<lambda>p. amt (pr_realizedPnlUsd p)"
  note oks = ledger_okD(3) [OF inv, folded evs_def]
  have row: "r \<in> set (pst_positions st) \<and> pr_closedAt (snd r) \<noteq> None \<and> row_ok evs r" if "r \<in> set ?Cs" for r
    using that ledger_okD(2) [OF inv] by (simp add: closedRows_def evs_def)
  have rg: "row_ledger evs r = ?g (snd r)" if "r \<in> set ?Cs" for r
    using row [OF that] by (auto simp: row_ledger_def Let_def)
  have g: "sum_list (map (row_ledger evs) ?Cs) = sum_list (map ?g (map snd ?Cs))"
    unfolding map_map by (rule arg_cong [of _ _ sum_list], rule map_cong [OF refl]) (simp add: rg)
  have ms: "mset ?ps = mset (map snd ?Cs)" using rows_read(2) [OF inv] .
  have "sum_list (map (\<lambda>p. \<bar>?g p\<bar>) ?ps) = sum_list (map (\<lambda>r. \<bar>row_ledger evs r\<bar>) ?Cs)"
    unfolding sum_mset_list [OF ms] map_map
    by (rule arg_cong [of _ _ sum_list], rule map_cong [OF refl]) (simp add: rg)
  moreover have "sum_list (map (\<lambda>r. \<bar>row_ledger evs r\<bar>) ?Cs) \<le> sum_list (map (row_volume evs) ?Cs)"
    by (rule sum_list_mono) (simp add: row_bounds(1) oks)
  moreover have "sum_list (map (row_volume evs) (openRows st)) + sum_list (map (row_volume evs) ?Cs) \<le> v"
    using ledger_okD(7) [OF inv] by (simp add: sum_split evs_def)
  moreover have nn: "0 \<le> sum_list (map (row_volume evs) (openRows st))"
    by (rule sum_list_nonneg) (auto simp: row_bounds(2) oks)
  ultimately have vol: "sum_list (map (\<lambda>p. \<bar>?g p\<bar>) ?ps) +
      sum_list (map (row_volume evs) (openRows st)) \<le> v" by linarith
  have abs: "\<bar>sum_list (map ?g ?ps)\<bar> \<le> sum_list (map (\<lambda>p. \<bar>?g p\<bar>) ?ps)" by (rule sum_abs_le) simp
  have eq: "sum_list (map ?g ?ps) = sum_list (map (row_ledger evs) ?Cs)"
    unfolding g by (rule sum_mset_list [OF ms])
  show "\<bar>sum_list (map (row_ledger evs) ?Cs)\<bar> +
       sum_list (map (\<lambda>(i, p). evsum ev_entry i evs + evsum ev_scale i evs) (openRows st)) +
       sum_list (map (\<lambda>(i, p). evsum ev_cost i evs) (openRows st)) \<le> v"
    using abs vol eq row_volume_split [OF oks, of "openRows st"] by linarith
  have count: "length ?ps \<le> sum_list (map (hits_of st) ?Cs)"
  proof -
    have "length ?ps = length ?Cs" using arg_cong [OF ms, of size] by simp
    also have "\<dots> = sum_list (map (\<lambda>_. 1) ?Cs)" by (simp add: sum_list_triv)
    also have "\<dots> \<le> sum_list (map (hits_of st) ?Cs)"
      by (rule sum_list_mono) (use row hit_positive in \<open>auto simp: hits_of_def evs_def\<close>)
    finally show ?thesis .
  qed
  have "near (0 + sum_list (map (\<lambda>_. 1) ?ps)) (paperClosedRealizedUsd ?ps) (0 + sum_list (map ?g ?ps))"
    unfolding paperClosedRealizedUsd_def
  proof (rule near_fold)
    let ?F = "\<lambda>s pos. if pr_positionPubKey pos = None
      then jadd s (nullish (finiteValue (pr_realizedPnlUsd pos)) (Fin 0)) else s"
    show "\<forall>p \<in> set ?ps. (\<forall>a. ?F a p = a) \<and> ?g p = 0 \<or>
        (\<exists>e y. near e y (?g p) \<and> e + 1 \<le> 1 \<and> (\<forall>a. ?F a p = jadd a y))"
    proof
      fix p assume "p \<in> set ?ps"
      then have "p \<in> set (map snd ?Cs)" using ms by (metis set_mset_mset)
      then obtain i where "(i, p) \<in> set ?Cs" by auto
      from row [OF this] obtain r where "pr_positionPubKey p = None" "pr_realizedPnlUsd p = Some (Fin r)"
        by (auto simp: row_ok_def Let_def)
      then have "near 0 (Fin r) (?g p) \<and> 0 + 1 \<le> (1 :: nat) \<and> (\<forall>a. ?F a p = jadd a (Fin r))"
        by (simp add: finiteValue_def)
      then show "(\<forall>a. ?F a p = a) \<and> ?g p = 0 \<or>
        (\<exists>e y. near e y (?g p) \<and> e + 1 \<le> 1 \<and> (\<forall>a. ?F a p = jadd a y))" by blast
    qed
    have "0 + sum_list (map (\<lambda>_. 1) ?ps) \<le> 100 * length (pst_events st) + 100"
      using count hits_total [OF inv] by (simp add: sum_list_triv)
    from within_limit_use [OF lim ledger_volume_nonneg [OF inv] this]
    show "\<bar>0\<bar> + sum_list (map (\<lambda>p. \<bar>?g p\<bar>) ?ps) +
        of_nat (0 + sum_list (map (\<lambda>_. 1) ?ps)) * unit_error \<le> sum_limit"
      using vol ledger_volume_nonneg [OF inv] nn by (simp only: abs_zero)
  qed simp
  then show "near (sum_list (map (hits_of st) ?Cs)) (paperClosedRealizedUsd ?ps)
      (sum_list (map (row_ledger evs) ?Cs))"
    by (intro near_mono [OF _ count]) (simp only: sum_list_triv eq add_0_left mult_1_right of_nat_id)
qed

lemma sum_negated:
  "\<forall>x \<in> set xs. f x = - (g x + h x) \<Longrightarrow>
   sum_list (map f xs) = - (sum_list (map g xs) + (sum_list (map h xs) :: rat))"
  by (induction xs) auto

text \<open>The sums over the open positions.\<close>

lemma open_sum_near:
  assumes inv: "ledger_ok q st v" and lim: "within_limit q v (length (pst_events st))"
    and F: "\<And>i p. (i, p) \<in> set (openRows st) \<Longrightarrow>
      near (2 * hits_of st (i, p) + 1) (f (snd (i, p))) (g (i, p)) \<and> 0 \<le> g (i, p)"
    and vol: "sum_list (map g (openRows st)) \<le> v"
  shows "near (4 * sum_list (map (hits_of st) (openRows st)))
      (foldl (\<lambda>s pos. jadd s (f pos)) (Fin 0) (map snd (openRows st))) (sum_list (map g (openRows st)))"
proof -
  let ?O = "openRows st"
  have hit: "1 \<le> hits_of st r" if "r \<in> set ?O" for r
    using that ledger_okD(2) [OF inv] hit_positive by (simp add: openRows_def hits_of_def)
  have "near (0 + sum_list (map (\<lambda>r. 4 * hits_of st r) ?O))
      (foldl (\<lambda>s r. jadd s (f (snd r))) (Fin 0) ?O) (0 + sum_list (map g ?O))"
  proof (rule near_fold)
    show "\<forall>r \<in> set ?O. (\<forall>a. jadd a (f (snd r)) = a) \<and> g r = 0 \<or>
        (\<exists>e y. near e y (g r) \<and> e + 1 \<le> 4 * hits_of st r \<and> (\<forall>a. jadd a (f (snd r)) = jadd a y))"
    proof
      fix r assume r: "r \<in> set ?O"
      obtain i p where ip: "r = (i, p)" by force
      have "near (2 * hits_of st r + 1) (f (snd r)) (g r)" using F [of i p] r by (simp add: ip)
      moreover have "2 * hits_of st r + 1 + 1 \<le> 4 * hits_of st r" using hit [OF r] by simp
      ultimately show "(\<forall>a. jadd a (f (snd r)) = a) \<and> g r = 0 \<or>
        (\<exists>e y. near e y (g r) \<and> e + 1 \<le> 4 * hits_of st r \<and> (\<forall>a. jadd a (f (snd r)) = jadd a y))"
        by blast
    qed
    have nn: "\<forall>r \<in> set ?O. 0 \<le> g r" using F by fastforce
    then have "sum_list (map (\<lambda>r. \<bar>g r\<bar>) ?O) = sum_list (map g ?O)"
      by (intro arg_cong [of _ _ sum_list] map_cong) auto
    moreover have "0 + sum_list (map (\<lambda>r. 4 * hits_of st r) ?O) \<le> 100 * length (pst_events st) + 100"
      using hits_total [OF inv] by (simp add: sum_list_const_mult)
    note within_limit_use [OF lim ledger_volume_nonneg [OF inv] this]
    ultimately show "\<bar>0\<bar> + sum_list (map (\<lambda>r. \<bar>g r\<bar>) ?O) +
        of_nat (0 + sum_list (map (\<lambda>r. 4 * hits_of st r) ?O)) * unit_error \<le> sum_limit"
      using vol ledger_volume_nonneg [OF inv] by simp
  qed simp
  then show ?thesis by (simp add: sum_list_const_mult foldl_map)
qed

lemma restart_near:
  assumes inv: "ledger_ok q st v" and lim: "within_limit q v (length (pst_events st))"
  shows "near (8 * length (pst_events st) + 3) (loadPaperCashLedger (Fin q) st)
    (max (q + sum_list (map (row_ledger (pst_events st)) (pst_positions st))) 0)"
proof -
  let ?evs = "pst_events st" and ?n = "length (pst_events st)"
  let ?O = "openRows st" and ?hO = "sum_list (map (hits_of st) (openRows st))"
  let ?hC = "sum_list (map (hits_of st) (closedRows st))"
  let ?L = "map_of (rev (map (\<lambda>pos. (pr_positionId pos, pos)) (map snd ?O)))"
  let ?cap = "foldl (\<lambda>m b. replayPaperCapitalEvents (getPositionEvents st b) ?L m) (\<lambda>_. None)
      (remdups (map pr_poolAddress (map snd ?O)))"
  let ?com = "\<lambda>(i, p). evsum ev_entry i ?evs + evsum ev_scale i ?evs"
  let ?cost = "\<lambda>(i, p). evsum ev_cost i ?evs"
  let ?R = "sum_list (map (row_ledger ?evs) (closedRows st))"
  note v = ledger_volume_nonneg [OF inv] and hits = hits_total [OF inv]
  note pos = evsum_nonneg [OF ledger_okD(3) [OF inv]]
  note closed = closed_realized_near [OF inv lim]
  have nn: "0 \<le> sum_list (map ?com ?O)" "0 \<le> sum_list (map ?cost ?O)"
    by (rule sum_list_nonneg; use pos in auto)+
  have row: "?cap (pr_positionId p) = Some (capitalOf p (eventsOf i (getPositionEvents st (pr_poolAddress p))))"
    if "(i, p) \<in> set ?O" for i p
  proof -
    have "pr_positionId p = i"
      using that ledger_okD(2) [OF inv, of "(i, p)"] by (simp add: openRows_def row_ok_def Let_def)
    then show ?thesis using replayed_capital [OF inv that] by simp
  qed
  have near_cap: "near (4 * ?hO) (foldl (\<lambda>s pos. jadd s
      (committedPaperCapitalUsd pos (?cap (pr_positionId pos)))) (Fin 0) (map snd ?O))
      (sum_list (map ?com ?O))"
  proof (rule open_sum_near [OF inv lim])
    fix i p assume r: "(i, p) \<in> set ?O"
    show "near (2 * hits_of st (i, p) + 1)
        (committedPaperCapitalUsd (snd (i, p)) (?cap (pr_positionId (snd (i, p))))) (?com (i, p)) \<and>
        0 \<le> ?com (i, p)"
      using open_row_capital(1) [OF inv lim r] pos by (simp only: snd_conv row [OF r] hits_of_def fst_conv) simp
  qed (use closed(2) nn in linarith)
  have near_cost: "near (4 * ?hO) (foldl (\<lambda>s pos. jadd s
      (paperRebalanceCostForPosition (?cap (pr_positionId pos)))) (Fin 0) (map snd ?O))
      (sum_list (map ?cost ?O))"
  proof (rule open_sum_near [OF inv lim])
    fix i p assume r: "(i, p) \<in> set ?O"
    show "near (2 * hits_of st (i, p) + 1)
        (paperRebalanceCostForPosition (?cap (pr_positionId (snd (i, p))))) (?cost (i, p)) \<and>
        0 \<le> ?cost (i, p)"
      using near_mono [OF open_row_capital(2) [OF inv lim r], of "2 * hits_of st (i, p) + 1"] pos
      by (simp only: snd_conv row [OF r] hits_of_def fst_conv) simp
  qed (use closed(2) nn in linarith)
  have l: "\<bar>q\<bar> + 4 * v + of_nat m * unit_error \<le> sum_limit" if "m \<le> 8 * ?n + 3" for m
    by (rule within_limit_use [OF lim v]) (use that in simp)
  have n1: "near (?hC + 1) (jadd (Fin q) (paperClosedRealizedUsd (getClosedPositions st))) (q + ?R)"
  proof -
    have "\<bar>q + ?R\<bar> + of_nat (0 + ?hC) * unit_error \<le> sum_limit"
      using l [of "0 + ?hC"] closed(2) nn v hits by linarith
    from near_add [OF near_exact closed(1) this] show ?thesis by simp
  qed
  have n2: "near (?hC + 1 + 4 * ?hO + 1) (jsub (jadd (Fin q) (paperClosedRealizedUsd (getClosedPositions st)))
      (foldl (\<lambda>s pos. jadd s (committedPaperCapitalUsd pos (?cap (pr_positionId pos)))) (Fin 0) (map snd ?O)))
      (q + ?R - sum_list (map ?com ?O))"
    by (rule near_sub [OF n1 near_cap]) (use l [of "?hC + 1 + 4 * ?hO"] closed(2) nn v hits in linarith)
  have n3: "near (?hC + 1 + 4 * ?hO + 1 + 4 * ?hO + 1)
      (jsub (jsub (jadd (Fin q) (paperClosedRealizedUsd (getClosedPositions st)))
        (foldl (\<lambda>s pos. jadd s (committedPaperCapitalUsd pos (?cap (pr_positionId pos)))) (Fin 0) (map snd ?O)))
       (foldl (\<lambda>s pos. jadd s (paperRebalanceCostForPosition (?cap (pr_positionId pos)))) (Fin 0) (map snd ?O)))
      (q + ?R - sum_list (map ?com ?O) - sum_list (map ?cost ?O))"
    by (rule near_sub [OF n2 near_cost]) (use l [of "?hC + 1 + 4 * ?hO + 1 + 4 * ?hO"] closed(2) nn v hits in linarith)
  have le: "?hC + 1 + 4 * ?hO + 1 + 4 * ?hO + 1 \<le> 8 * ?n + 3" using hits by linarith
  have "sum_list (map (row_ledger ?evs) ?O) = - (sum_list (map ?com ?O) + sum_list (map ?cost ?O))"
    by (rule sum_negated) (auto simp: openRows_def row_ledger_def Let_def)
  then have eq: "q + sum_list (map (row_ledger ?evs) (pst_positions st)) =
      q + ?R - sum_list (map ?com ?O) - sum_list (map ?cost ?O)"
    unfolding sum_split [of "row_ledger ?evs" st] by linarith
  show ?thesis
    unfolding loadPaperCashLedger_def Let_def rows_read(1) [OF inv] eq
    by (rule near_max0, rule near_mono [OF n3 le])
qed

end
