(* ===== verification/PaperRuns.thy ===== *)
theory PaperRuns
  imports PaperLedger
begin

text \<open>
  Every step of the paper executor keeps the invariant of \<open>PaperLedger\<close>, so the cash a restart
  rebuilds is the cash the run had, up to the rounding of the sums.
\<close>

section \<open>Steps of the executor\<close>

lemma ledger_ok_mono: "ledger_ok q st v \<Longrightarrow> v \<le> w \<Longrightarrow> ledger_ok q st w"
  by (auto simp: ledger_ok_def)

lemma ledger_ok_cong:
  "pst_positions st' = pst_positions st \<Longrightarrow> pst_tracked st' = pst_tracked st \<Longrightarrow>
   pst_events st' = pst_events st \<Longrightarrow> pst_cash st' = pst_cash st \<Longrightarrow>
   ledger_ok q st v \<Longrightarrow> ledger_ok q st' v"
  by (simp add: ledger_ok_def)

lemma near_shift: "near e a x \<Longrightarrow> \<bar>x - y\<bar> \<le> of_nat d * unit_error \<Longrightarrow> near (e + d) a y"
  by (auto simp: near_def distrib_right)

lemma within_limit_mono:
  assumes "within_limit q w n" "v \<le> w" "m \<le> n"
  shows "within_limit q v m"
proof -
  have "of_nat (100 * m + 100) * unit_error \<le> of_nat (100 * n + 100) * unit_error"
    by (rule units_mono) (use assms(3) in simp)
  moreover have "4 * v \<le> 4 * w" using assms(2) by simp
  ultimately show ?thesis using assms(1) unfolding within_limit_def by linarith
qed

lemma within_limit_le:
  assumes "within_limit q w n" "d \<le> 100 * n + 100" "x \<le> \<bar>q\<bar> + (w + w)" "0 \<le> w"
  shows "x + of_nat d * unit_error \<le> sum_limit"
proof -
  have "of_nat d * unit_error \<le> of_nat (100 * n + 100) * unit_error"
    by (rule units_mono [OF assms(2)])
  then show ?thesis using assms(1,3,4) unfolding within_limit_def by linarith
qed

lemma near_debit:
  assumes "near e a x" "within_limit q w n" "e \<le> 100 * n + 100" "\<bar>x\<bar> + s \<le> \<bar>q\<bar> + (w + w)" "0 \<le> s" "0 \<le> w"
  shows "near (e + 1) (jsub a (Fin s)) (x - s)"
proof -
  have "\<bar>x - s\<bar> \<le> \<bar>q\<bar> + (w + w)" using assms(4,5) abs_triangle_ineq4 [of x s] by simp
  from within_limit_le [OF assms(2) _ this assms(6), of "e + 0"] assms(3)
  have "\<bar>x - s\<bar> + of_nat (e + 0) * unit_error \<le> sum_limit" by simp
  from near_sub [OF assms(1) near_exact this] show ?thesis by simp
qed

lemma first_known_simps [simp]: "first_known (Some x) b = Some x" "first_known a a = a"
  by (simp_all add: first_known_def split: option.splits)

lemma coalesce_None [simp]: "coalesce_row None pos = pos"
  by (simp add: coalesce_row_def)

lemma book_fields:
  "pst_positions (bookPaperEntry deps now pos usd st) = pst_positions (savePosition pos st)"
  "pst_events (bookPaperEntry deps now pos usd st) = pst_events st @
     [\<lparr>ppe_poolAddress = pr_poolAddress pos, ppe_positionId = Some (pr_positionId pos),
       ppe_event = EnterEvent, ppe_valueUsd = Some usd, ppe_feesUsd = None,
       ppe_metadata = None, ppe_createdAt = now\<rparr>]"
  "pst_tracked (bookPaperEntry deps now pos usd st) =
     AList.update (pr_positionId pos) pos (pst_tracked st)"
  "pst_cash (bookPaperEntry deps now pos usd st) = pst_cash (debitPaperCash deps usd st)"
  by (simp_all add: bookPaperEntry_def savePositionEvent_def savePosition_def trackPosition_def
      debitPaperCash_def Let_def)

lemma booked_entry_ok:
  assumes inv: "ledger_ok q st v" and lim: "within_limit q (v + s) (length (pst_events st) + 1)"
    and s: "0 \<le> s" and ledger: "ped_hasLedger deps"
    and fresh: "pr_positionId pos \<notin> fst ` set (pst_positions st)"
    and pos: "pr_positionPubKey pos = None" "pr_depositedUsd pos = Fin s" "pr_closedAt pos = None"
      "pr_paperExitedAt pos = None" "pr_cumulativeFeesClaimedUsd pos = Fin 0"
      "pr_cumulativeRewardsClaimedUsd pos = Fin 0"
  shows "ledger_ok q (bookPaperEntry deps now pos (Fin s) st) (v + s)"
proof -
  let ?i = "pr_positionId pos" and ?evs = "pst_events st"
  let ?e = "\<lparr>ppe_poolAddress = pr_poolAddress pos, ppe_positionId = Some ?i, ppe_event = EnterEvent,
    ppe_valueUsd = Some (Fin s), ppe_feesUsd = None, ppe_metadata = None, ppe_createdAt = now\<rparr>"
  have none: "map_of (pst_positions st) ?i = None" using fresh by (simp add: map_of_eq_None_iff)
  have no: "\<forall>e \<in> set ?evs. ppe_positionId e \<noteq> Some ?i" using ledger_okD(4) [OF inv] fresh by force
  note z = evsum_other [OF no]
  have old: "old_of f st ?i = 0" for f :: "string \<times> PositionRecord \<Rightarrow> 'a::comm_monoid_add"
    by (simp add: old_of_def none)
  have e: "ev_entry ?i ?e = s" "ev_cost ?i ?e = 0" "ev_scale ?i ?e = 0" "ev_comp ?i ?e = 0" "ev_hit ?i ?e = 1"
    by (simp_all add: ev_defs)
  have v: "0 \<le> v" using ledger_volume_nonneg [OF inv] .
  show ?thesis
  proof (rule ledger_ok_book [OF inv, where es = "[?e]" and p' = pos and i = ?i])
    show "row_ok (?evs @ [?e]) (?i, pos)"
      using pos no s by (auto simp: row_ok_def open_row_ok_def Let_def z e paperRebalanceMetadataFor_def
          intro: near_mono [OF near_exact])
    show "\<forall>e \<in> set [?e]. ev_ok e \<and> ppe_positionId e = Some ?i" using s by (simp add: ev_ok_def)
    show "row_volume (?evs @ [?e]) (?i, pos) \<le> old_of (row_volume ?evs) st ?i + (v + s - v)"
      by (simp add: row_volume_def old z e pos)
    fix d r
    assume a: "near (d + old_of (row_error ?evs) st ?i) (pst_cash st) (r + old_of (row_ledger ?evs) st ?i)"
      "\<bar>r\<bar> + old_of (row_volume ?evs) st ?i \<le> \<bar>q\<bar> + v"
      "d + old_of (row_error ?evs) st ?i \<le> 30 * length ?evs"
    have r: "\<bar>r\<bar> \<le> \<bar>q\<bar> + v" using a(2) by (simp add: old)
    have d: "d + 0 \<le> 100 * (length ?evs + 1) + 100" using a(3) by (simp add: old)
    have "\<bar>r - s\<bar> \<le> \<bar>q\<bar> + ((v + s) + (v + s))" "0 \<le> v + s"
      using r s v abs_triangle_ineq4 [of r s] by simp_all
    from within_limit_le [OF lim d this]
    have "\<bar>r - s\<bar> + of_nat (d + 0) * unit_error \<le> sum_limit" .
    from near_sub [OF _ near_exact this] a(1) have "near (d + 0 + 1) (jsub (pst_cash st) (Fin s)) (r - s)"
      by (simp add: old)
    then show "near (d + row_error (?evs @ [?e]) (?i, pos)) (pst_cash (bookPaperEntry deps now pos (Fin s) st))
        (r + row_ledger (?evs @ [?e]) (?i, pos))"
      using s ledger by (auto simp: book_fields debitPaperCash_def finiteNonNegativeNumber_def row_error_def
          row_ledger_def Let_def pos z e intro: near_mono)
  qed (simp_all add: book_fields savePosition_def none pos update_conv' distinct_update
      ledger_okD(8) [OF inv])
qed

text \<open>A tracked position is an open row under its own id.\<close>

lemma target_open:
  assumes inv: "ledger_ok q st v" and target: "resolveTargetPosition (pst_tracked st) d = Some p"
  shows "map_of (pst_positions st) (pr_positionId p) = Some p" "pr_closedAt p = None"
    "map_of (pst_tracked st) (pr_positionId p) = Some p" "row_ok (pst_events st) (pr_positionId p, p)"
    "(pr_positionId p, p) \<in> set (pst_positions st)"
proof -
  have tracked: "map_of (pst_positions st) (pr_positionId p) = Some p \<and> pr_closedAt p = None \<and>
      map_of (pst_tracked st) (pr_positionId p) = Some p" if "map_of (pst_tracked st) j = Some p" for j
  proof -
    have m: "map_of (pst_positions st) j = Some p" "pr_closedAt p = None"
      using that ledger_okD(5) [OF inv] by blast+
    then have "pr_positionId p = j"
      using ledger_okD(2) [OF inv map_of_SomeD [OF m(1)]] by (simp add: row_ok_def Let_def)
    then show ?thesis using that m by simp
  qed
  have "\<exists>j. map_of (pst_tracked st) j = Some p"
  proof (cases "dec_positionId d")
    case None
    then have "positionsForPool (pst_tracked st) (dec_poolAddress d) = [p]"
      using target by (auto simp: resolveTargetPosition_def split: list.splits)
    then have "p \<in> set (positionsForPool (pst_tracked st) (dec_poolAddress d))" by simp
    then obtain j where "(j, p) \<in> set (pst_tracked st)" by (auto simp: positionsForPool_def)
    then show ?thesis using ledger_okD(8) [OF inv] by (auto simp: map_of_eq_Some_iff)
  next
    case (Some j)
    then show ?thesis using target by (auto simp: resolveTargetPosition_def split: option.splits if_splits)
  qed
  then show m: "map_of (pst_positions st) (pr_positionId p) = Some p" and "pr_closedAt p = None"
    and "map_of (pst_tracked st) (pr_positionId p) = Some p" using tracked by blast+
  from map_of_SomeD [OF m] show "(pr_positionId p, p) \<in> set (pst_positions st)" .
  then show "row_ok (pst_events st) (pr_positionId p, p)" by (rule ledger_okD(2) [OF inv])
qed

lemma old_open:
  assumes "map_of (pst_positions st) i = Some p" "pr_closedAt p = None"
  shows "old_of (row_error evs) st i = 2 * evsum ev_hit i evs"
    "old_of (row_ledger evs) st i = - (evsum ev_entry i evs + evsum ev_scale i evs + evsum ev_cost i evs)"
    "old_of (row_volume evs) st i =
       evsum ev_entry i evs + evsum ev_scale i evs + evsum ev_cost i evs + evsum ev_comp i evs"
  using assms by (simp_all add: old_of_def row_error_def row_ledger_def row_volume_def Let_def)

text \<open>What the code reads of the events of an open row.\<close>

lemma open_row_reads:
  assumes inv: "ledger_ok q st v" and lim: "within_limit q v (length (pst_events st))"
    and mem: "(i, p) \<in> set (pst_positions st)" "pr_closedAt p = None"
  defines "evs \<equiv> pst_events st" and "pe \<equiv> getPositionEvents st (pr_poolAddress p)"
  shows "near (evsum ev_hit i evs) (paperRebalanceCostsUsd pe i) (evsum ev_cost i evs)"
    "near (evsum ev_hit i evs) (paperCompoundedFeesUsd pe i (pr_launchRunner p = Some True))
      (evsum ev_comp i evs)"
    "evsum ev_hit i evs \<le> length evs"
    "evsum ev_entry i evs + evsum ev_scale i evs + evsum ev_cost i evs + evsum ev_comp i evs \<le> v"
proof -
  let ?h = "evsum ev_hit i evs"
  note ok = ledger_okD(2) [OF inv mem(1), unfolded row_ok_def Let_def fst_conv snd_conv]
  have pool: "\<forall>e \<in> set (pst_events st). ppe_positionId e = Some i \<longrightarrow> ppe_poolAddress e = pr_poolAddress p"
    using ok by blast
  note sums = pool_events [OF pool, folded evs_def pe_def]
  note pos = evsum_nonneg [OF ledger_okD(3) [OF inv], of i, folded evs_def]
  show vol: "evsum ev_entry i evs + evsum ev_scale i evs + evsum ev_cost i evs + evsum ev_comp i evs \<le> v"
    using row_volume_le [OF inv mem(1)] mem(2) by (simp add: row_volume_def evs_def)
  show h: "?h \<le> length evs" using hits_le [OF inv mem(1)] by (simp add: hits_of_def evs_def)
  have oks: "\<forall>e \<in> set pe. ev_ok e" using ledger_okD(3) [OF inv] set_pool_events pe_def by blast
  have run: "\<forall>e \<in> set pe. \<forall>m. paperRebalanceMetadataFor e i = Some m \<longrightarrow>
      prm_scaleIn m = Some True \<longrightarrow> pr_launchRunner p = Some True"
  proof (intro ballI allI impI)
    fix e m assume e: "e \<in> set pe" "paperRebalanceMetadataFor e i = Some m" "prm_scaleIn m = Some True"
    then have "ppe_positionId e = Some i" by (simp add: paperRebalanceMetadataFor_def split: if_splits)
    then show "pr_launchRunner p = Some True" using ok e set_pool_events pe_def by blast
  qed
  have le: "evsum ev_cost i evs \<le> \<bar>q\<bar> + (v + v)" "evsum ev_comp i evs \<le> \<bar>q\<bar> + (v + v)"
    using vol pos by simp_all
  note v = ledger_volume_nonneg [OF inv]
  have h': "?h \<le> 100 * length (pst_events st) + 100" using h by (simp add: evs_def)
  show "near ?h (paperRebalanceCostsUsd pe i) (evsum ev_cost i evs)"
    using rebalance_costs_near [OF oks, of i] within_limit_le [OF lim h' le(1) v] by (simp add: sums)
  show "near ?h (paperCompoundedFeesUsd pe i (pr_launchRunner p = Some True)) (evsum ev_comp i evs)"
    using compounded_fees_near [OF oks run] within_limit_le [OF lim h' le(2) v] by (simp add: sums)
qed

text \<open>Claimed fees less compounded fees.\<close>

lemma liquid_fees_near:
  assumes inv: "ledger_ok q st v" and lim: "within_limit q w (length (pst_events st) + 1)" "v \<le> w"
    and mem: "(i, p) \<in> set (pst_positions st)" "pr_closedAt p = None"
    and f: "pr_cumulativeFeesClaimedUsd p = Fin f" "f \<le> w"
  defines "evs \<equiv> pst_events st"
  shows "\<exists>z. paperLiquidFeesUsd p (getPositionEvents st (pr_poolAddress p)) = Fin (max z 0) \<and>
      \<bar>z - (f - evsum ev_comp i evs)\<bar> \<le> of_nat (evsum ev_hit i evs + 1) * unit_error"
proof -
  let ?pe = "getPositionEvents st (pr_poolAddress p)" and ?h = "evsum ev_hit i evs"
  have lim': "within_limit q v (length (pst_events st))" by (rule within_limit_mono [OF lim]) simp
  note ok = ledger_okD(2) [OF inv mem(1), unfolded row_ok_def Let_def fst_conv snd_conv]
  have i: "pr_positionId p = i" and f0: "0 \<le> f"
    using ok mem(2) f(1) by (auto simp: open_row_ok_def)
  note reads = open_row_reads [OF inv lim' mem, folded evs_def]
  note pos = evsum_nonneg [OF ledger_okD(3) [OF inv], of i, folded evs_def]
  have w: "0 \<le> w" using ledger_volume_nonneg [OF inv] lim(2) by simp
  have "\<bar>f - evsum ev_comp i evs\<bar> \<le> \<bar>q\<bar> + (w + w)"
    unfolding abs_le_iff using f0 f(2) pos reads(4) lim(2) abs_ge_zero [of q] by (intro conjI) linarith+
  from within_limit_le [OF lim(1) _ this w, of "0 + ?h"] reads(3)
  have "\<bar>f - evsum ev_comp i evs\<bar> + of_nat (0 + ?h) * unit_error \<le> sum_limit" by (simp add: evs_def)
  from near_sub [OF near_exact reads(2) this] have "near (?h + 1)
      (jsub (Fin f) (paperCompoundedFeesUsd ?pe i (pr_launchRunner p = Some True)))
      (f - evsum ev_comp i evs)" by simp
  then obtain z where z: "jsub (Fin f) (paperCompoundedFeesUsd ?pe i (pr_launchRunner p = Some True)) = Fin z"
    "\<bar>z - (f - evsum ev_comp i evs)\<bar> \<le> of_nat (?h + 1) * unit_error" by (auto simp: near_def)
  have "finiteNonNegativeNumber (Fin f)" using f0 by (simp add: finiteNonNegativeNumber_def)
  then have "paperLiquidFeesUsd p ?pe = Fin (max z 0)"
    by (simp add: paperLiquidFeesUsd_def i f(1) z(1))
  with z(2) show ?thesis by blast
qed

section \<open>Rebalancing\<close>

lemma rebalanced_fields:
  fixes now :: int and p pool params and t :: jsnum
  defines "u \<equiv> buildPaperRebalancedPosition now p
      (applyCompoundToCostBasis \<lparr>cci_depositedUsd = pr_depositedUsd p, cci_currentValueUsd = pr_currentValueUsd p,
        cci_highestValueUsd = pr_highestValueUsd p, cci_compoundedFeesUsd = t\<rparr>) params pool t"
  shows "pr_positionId u = pr_positionId p" "pr_positionPubKey u = pr_positionPubKey p"
    "pr_poolAddress u = pr_poolAddress p" "pr_closedAt u = pr_closedAt p"
    "pr_paperExitedAt u = pr_paperExitedAt p"
    "pr_cumulativeFeesClaimedUsd u = pr_cumulativeFeesClaimedUsd p"
    "pr_cumulativeRewardsClaimedUsd u = pr_cumulativeRewardsClaimedUsd p"
    "pr_launchRunner u = pr_launchRunner p" "pr_realizedPnlUsd u = pr_realizedPnlUsd p"
    "pr_depositedUsd u = jadd (pr_depositedUsd p) t" "coalesce_row (Some p) u = u"
  by (simp_all add: u_def buildPaperRebalancedPosition_def applyCompoundToCostBasis_def Let_def
      coalesce_row_def)

definition sane_top_up :: "PaperState \<Rightarrow> PositionRecord \<Rightarrow> RebalanceParams \<Rightarrow> bool" where
  "sane_top_up st p params \<longleftrightarrow>
     (case nullish (reb_topUpUsd params) (Fin 0) of
        Fin t \<Rightarrow> 0 \<le> t \<and> (reb_topUp params = None \<longrightarrow> t = 0) \<and>
          (reb_topUp params \<noteq> None \<longrightarrow> isPaperRunnerScaleIn p params (Fin t) \<or>
             jle (Fin t) (paperLiquidFeesUsd p (getPositionEvents st (pr_poolAddress p))))
      | _ \<Rightarrow> False)"

definition top_up_amount :: "RebalanceParams \<Rightarrow> rat" where
  "top_up_amount params = amt (Some (nullish (reb_topUpUsd params) (Fin 0)))"

definition rebalance_cost :: "PaperExecDeps \<Rightarrow> rat" where
  "rebalance_cost deps = amt (Some (resolvePaperRebalanceCostUsd (ped_rebalanceCostUsd deps)))"

lemma rebalance_cost_Fin:
  "resolvePaperRebalanceCostUsd (ped_rebalanceCostUsd deps) = Fin (rebalance_cost deps) \<and>
   0 \<le> rebalance_cost deps"
  by (cases "nullish (ped_rebalanceCostUsd deps) (Fin 0)")
    (auto simp: rebalance_cost_def resolvePaperRebalanceCostUsd_def finiteNonNegativeNumber_def Let_def)

lemma debit_fields [simp]:
  "pst_positions (debitPaperCash deps a st) = pst_positions st"
  "pst_events (debitPaperCash deps a st) = pst_events st"
  "pst_tracked (debitPaperCash deps a st) = pst_tracked st"
  by (simp_all add: debitPaperCash_def)

lemma debit_cash:
  "ped_hasLedger deps \<Longrightarrow> 0 \<le> s \<Longrightarrow> pst_cash (debitPaperCash deps (Fin s) st) = jsub (pst_cash st) (Fin s)"
  by (simp add: debitPaperCash_def finiteNonNegativeNumber_def)

lemma rebalanced_ok:
  assumes inv: "ledger_ok q st v"
    and target: "resolveTargetPosition (pst_tracked st) d = Some p"
    and ledger: "ped_hasLedger deps" and top: "sane_top_up st p params"
    and lim: "within_limit q (v + top_up_amount params + rebalance_cost deps) (length (pst_events st) + 1)"
  shows "ledger_ok q (rebalancePaperPosition deps now pool params p st)
    (v + top_up_amount params + rebalance_cost deps)"
proof -
  define t where "t = top_up_amount params"
  define c where "c = rebalance_cost deps"
  define u where "u = buildPaperRebalancedPosition now p
      (applyCompoundToCostBasis \<lparr>cci_depositedUsd = pr_depositedUsd p, cci_currentValueUsd = pr_currentValueUsd p,
        cci_highestValueUsd = pr_highestValueUsd p, cci_compoundedFeesUsd = Fin t\<rparr>) params pool (Fin t)"
  define grow where "grow \<longleftrightarrow> isPaperRunnerScaleIn p params (Fin t)"
  define m where "m = \<lparr>prm_modeledCostUsd = Some (Fin c),
     prm_topUpUsd = (if reb_topUp params \<noteq> None then Some (Fin t) else None),
     prm_compounded = (if reb_topUp params \<noteq> None \<and> \<not> grow then Some True else None),
     prm_scaleIn = (if reb_topUp params \<noteq> None \<and> grow then Some True else None)\<rparr>"
  let ?i = "pr_positionId p" and ?evs = "pst_events st"
  define e where "e = \<lparr>ppe_poolAddress = pr_poolAddress p, ppe_positionId = Some ?i,
     ppe_event = RebalanceEvent, ppe_valueUsd = Some (pr_currentValueUsd u), ppe_feesUsd = None,
     ppe_metadata = Some m, ppe_createdAt = now\<rparr>"
  let ?h = "evsum ev_hit ?i ?evs" and ?C = "evsum ev_comp ?i ?evs"
  have t: "nullish (reb_topUpUsd params) (Fin 0) = Fin t" "0 \<le> t" "reb_topUp params = None \<Longrightarrow> t = 0"
    "reb_topUp params \<noteq> None \<Longrightarrow> grow \<or> jle (Fin t) (paperLiquidFeesUsd p (getPositionEvents st (pr_poolAddress p)))"
    using top by (auto simp: sane_top_up_def t_def top_up_amount_def grow_def split: jsnum.splits)
  have c: "resolvePaperRebalanceCostUsd (ped_rebalanceCostUsd deps) = Fin c" "0 \<le> c"
    using rebalance_cost_Fin by (simp_all add: c_def)
  have grow: "grow \<longleftrightarrow> pr_launchRunner p = Some True \<and> reb_topUp params \<noteq> None \<and> 0 < t"
    by (simp add: grow_def isPaperRunnerScaleIn_def)
  note tgt = target_open [OF inv target]
  note u = rebalanced_fields [where now = now and p = p and t = "Fin t" and params = params and pool = pool,
    folded u_def]
  have result: "rebalancePaperPosition deps now pool params p st = savePositionEvent e
      (if 0 < c then debitPaperCash deps (Fin c)
          (if grow then debitPaperCash deps (Fin t) (savePosition u (trackPosition u st))
           else savePosition u (trackPosition u st))
       else (if grow then debitPaperCash deps (Fin t) (savePosition u (trackPosition u st))
           else savePosition u (trackPosition u st)))"
    unfolding rebalancePaperPosition_def Let_def t(1) c(1) u_def [symmetric] grow_def [symmetric]
    by (simp add: e_def m_def u)
  let ?st' = "rebalancePaperPosition deps now pool params p st"
  have amounts: "ev_entry ?i e = 0" "ev_cost ?i e = c" "ev_scale ?i e = (if grow then t else 0)"
    "ev_comp ?i e = (if grow then 0 else t)" "ev_hit ?i e = 1"
    using t(3) by (cases "reb_topUp params"; simp add: ev_defs e_def m_def grow)+
  have cash': "pst_cash ?st' = (let x = (if grow then jsub (pst_cash st) (Fin t) else pst_cash st)
      in if 0 < c then jsub x (Fin c) else x)"
    using t(2) c(2) ledger by (simp add: result savePositionEvent_def debit_cash savePosition_def trackPosition_def Let_def)
  have v: "0 \<le> v" using ledger_volume_nonneg [OF inv] .
  note pos = evsum_nonneg [OF ledger_okD(3) [OF inv], of ?i]
  have lim0: "within_limit q v (length ?evs)"
    by (rule within_limit_mono [OF lim [folded t_def c_def]]) (use t(2) c(2) in simp_all)
  note reads = open_row_reads [OF inv lim0 tgt(5,2)]
  obtain f where f: "pr_cumulativeFeesClaimedUsd p = Fin f" "0 \<le> f" "fl f = Fin f"
      "?C \<le> f + of_nat (?h + 1) * unit_error"
    and open': "pr_paperExitedAt p = None" "pr_cumulativeRewardsClaimedUsd p = Fin 0"
      "near ?h (pr_depositedUsd p) (evsum ev_entry ?i ?evs + evsum ev_scale ?i ?evs + ?C)"
    using tgt(2,4) by (auto simp: row_ok_def open_row_ok_def Let_def)
  let ?D = "evsum ev_entry ?i ?evs + evsum ev_scale ?i ?evs + ?C"
  have "near (?h + 0 + 1) (jadd (pr_depositedUsd p) (Fin t)) (?D + t)"
  proof (rule near_add [OF open'(3) near_exact])
    have "\<bar>?D + t\<bar> \<le> \<bar>q\<bar> + ((v + t + c) + (v + t + c))"
      unfolding abs_le_iff using pos reads(4) t(2) c(2) v abs_ge_zero [of q] by (intro conjI) linarith+
    from within_limit_le [OF lim [folded t_def c_def] _ this, of "?h + 0"] reads(3) v t(2) c(2)
    show "\<bar>?D + t\<bar> + of_nat (?h + 0) * unit_error \<le> sum_limit" by simp
  qed
  then have dep: "near (?h + 1) (pr_depositedUsd u) (evsum ev_entry ?i (?evs @ [e]) +
      evsum ev_scale ?i (?evs @ [e]) + evsum ev_comp ?i (?evs @ [e]))"
    by (auto simp: u amounts add_ac)
  have comp: "evsum ev_comp ?i (?evs @ [e]) \<le> f + of_nat (?h + 1 + 1) * unit_error"
  proof -
    let ?w = "v + t + c"
    have "?C + (if grow then 0 else t) \<le> f + of_nat (?h + 1) * unit_error" if "t = 0 \<or> grow"
      using that f(4) by auto
    moreover have "?C + t \<le> f + of_nat (?h + 1) * unit_error" if "t \<noteq> 0" "\<not> grow" "f \<le> ?w"
    proof -
      have "jle (Fin t) (paperLiquidFeesUsd p (getPositionEvents st (pr_poolAddress p)))"
        using that t(3,4) by blast
      moreover have "\<exists>z. paperLiquidFeesUsd p (getPositionEvents st (pr_poolAddress p)) = Fin (max z 0) \<and>
          \<bar>z - (f - ?C)\<bar> \<le> of_nat (?h + 1) * unit_error"
        by (rule liquid_fees_near [OF inv lim [folded t_def c_def] _ tgt(5,2) f(1) that(3)])
          (use t(2) c(2) in simp)
      ultimately obtain z where "t \<le> max z 0" "\<bar>z - (f - ?C)\<bar> \<le> of_nat (?h + 1) * unit_error" by auto
      then show ?thesis using that(1) t(2) by (auto simp: max_def split: if_splits)
    qed
    moreover have "?C + t \<le> f + of_nat (?h + 1) * unit_error" if "\<not> f \<le> ?w"
    proof -
      have "?C + t \<le> f" using that reads(4) pos c(2) by linarith
      moreover have "0 \<le> of_nat (?h + 1) * unit_error" by simp
      ultimately show ?thesis by linarith
    qed
    ultimately have "?C + (if grow then 0 else t) \<le> f + of_nat (?h + 1) * unit_error"
      by (cases grow; cases "t = 0"; cases "f \<le> ?w") simp_all
    moreover have "of_nat (?h + 1) * unit_error \<le> of_nat (?h + 1 + 1) * unit_error"
      by (rule units_mono) simp
    ultimately show ?thesis unfolding evsum_simps amounts by linarith
  qed
  have ev: "ev_ok e" using t(2) c(2) by (cases "reb_topUp params") (auto simp: ev_ok_def e_def m_def)
  have meta: "paperRebalanceMetadataFor e ?i = Some m" by (simp add: paperRebalanceMetadataFor_def e_def)
  show ?thesis unfolding t_def [symmetric] c_def [symmetric]
  proof (rule ledger_ok_book [OF inv, where es = "[e]" and p' = u and i = ?i])
    show "row_ok (?evs @ [e]) (?i, u)"
    proof -
      have "open_row_ok (?evs @ [e]) ?i u"
        using dep comp f(1-3) open'(1,2) amounts(5) by (simp add: open_row_ok_def u)
      moreover have "ppe_poolAddress e = pr_poolAddress p" "ppe_positionId e = Some ?i"
        "prm_scaleIn m = Some True \<Longrightarrow> pr_launchRunner p = Some True"
        by (simp_all add: e_def m_def grow split: if_splits)
      ultimately show ?thesis using tgt(2,4) by (auto simp: row_ok_def Let_def u meta)
    qed
    show "row_volume (?evs @ [e]) (?i, u) \<le> old_of (row_volume ?evs) st ?i + (v + t + c - v)"
      by (simp add: row_volume_def old_of_def tgt(1,2) u Let_def amounts)
    show "\<forall>e' \<in> set [e]. ev_ok e' \<and> ppe_positionId e' = Some ?i" using ev by (simp add: e_def)
    fix d r
    assume "near (d + old_of (row_error ?evs) st ?i) (pst_cash st) (r + old_of (row_ledger ?evs) st ?i)"
      "\<bar>r\<bar> + old_of (row_volume ?evs) st ?i \<le> \<bar>q\<bar> + v"
      "d + old_of (row_error ?evs) st ?i \<le> 30 * length ?evs"
    note a0 = this [unfolded old_open [OF tgt(1,2)]]
    define x where "x = r + - (evsum ev_entry ?i ?evs + evsum ev_scale ?i ?evs + evsum ev_cost ?i ?evs)"
    have a: "near (d + 2 * ?h) (pst_cash st) x" "\<bar>x\<bar> \<le> \<bar>q\<bar> + v" "d + 2 * ?h \<le> 30 * length ?evs"
      using a0 pos unfolding x_def
      by (simp_all only:)
    define y where "y = (if grow then x - t else x)"
    have y: "near (d + 2 * ?h + 1) (if grow then jsub (pst_cash st) (Fin t) else pst_cash st) y"
      "\<bar>y\<bar> \<le> \<bar>q\<bar> + v + t"
    proof -
      have "near (d + 2 * ?h + 1) (jsub (pst_cash st) (Fin t)) (x - t)"
        by (rule near_debit [OF a(1) lim [folded t_def c_def]]) (use a v t(2) c(2) in simp_all)
      then show "near (d + 2 * ?h + 1) (if grow then jsub (pst_cash st) (Fin t) else pst_cash st) y"
        using near_mono [OF a(1), of "d + 2 * ?h + 1"] by (simp add: y_def)
      show "\<bar>y\<bar> \<le> \<bar>q\<bar> + v + t" using a(2) t(2) abs_triangle_ineq4 [of x t] by (auto simp: y_def)
    qed
    have "near (d + 2 * ?h + 1 + 1) (jsub (if grow then jsub (pst_cash st) (Fin t) else pst_cash st) (Fin c)) (y - c)"
      by (rule near_debit [OF y(1) lim [folded t_def c_def]]) (use a(3) y(2) v t(2) c(2) in simp_all)
    then have "near (d + 2 * (?h + 1)) (pst_cash ?st') (y - c)"
      using near_mono [OF y(1), of "d + 2 * (?h + 1)"] c(2) unfolding cash' Let_def
      by (cases "0 < c") simp_all
    then show "near (d + row_error (?evs @ [e]) (?i, u)) (pst_cash ?st')
        (r + row_ledger (?evs @ [e]) (?i, u))"
      by (simp add: row_error_def row_ledger_def Let_def u tgt(2) amounts y_def x_def algebra_simps
          split: if_splits)
  qed (use tgt(2,3) inv in \<open>simp_all add: result savePositionEvent_def savePosition_def trackPosition_def
      tgt(1) u update_conv' distinct_update ledger_okD(8)\<close>)
qed

section \<open>Marking\<close>

lemma accrued_cases:
  fixes paper scan now pool pos st
  defines "r \<equiv> accruePaperPositionFees paper scan now pool pos st"
  shows "fst r = pos \<and> pst_events (snd r) = pst_events st \<or>
    (\<exists>delta. \<not> jle delta (Fin 0) \<and>
      fst r = pos\<lparr>pr_cumulativeFeesClaimedUsd := jadd (pr_cumulativeFeesClaimedUsd pos) delta\<rparr> \<and>
      pst_events (snd r) = pst_events st @
        [\<lparr>ppe_poolAddress = ps_address pool, ppe_positionId = Some (pr_positionId pos),
          ppe_event = ClaimEvent, ppe_valueUsd = Some delta, ppe_feesUsd = Some delta,
          ppe_metadata = None, ppe_createdAt = now\<rparr>])"
    "pst_positions (snd r) = pst_positions st" "pst_tracked (snd r) = pst_tracked st"
    "pst_cash (snd r) = pst_cash st"
  unfolding r_def accruePaperPositionFees_def Let_def by (auto simp: savePositionEvent_def)

lemma marked_ok:
  assumes inv: "ledger_ok q st v"
    and row: "map_of (pst_tracked st) i = Some p" and pool: "ps_address pool = pr_poolAddress p"
    and fin: "\<forall>u. map_of (pst_tracked (refreshPositionValue sqrtf powf paper scan now chain pool p st)) i = Some u \<longrightarrow>
      is_finite (pr_cumulativeFeesClaimedUsd u)"
  shows "ledger_ok q (refreshPositionValue sqrtf powf paper scan now chain pool p st) v"
proof -
  define p1 where "p1 = p\<lparr>pr_currentValueUsd := positionMark sqrtf powf chain pool p,
     pr_highestValueUsd := (if jgt (positionMark sqrtf powf chain pool p) (nullish (pr_highestValueUsd p) (pr_depositedUsd p))
        then Some (positionMark sqrtf powf chain pool p) else pr_highestValueUsd p)\<rparr>"
  define acc where "acc = accruePaperPositionFees paper scan now pool p1 st"
  let ?u = "fst acc" and ?evs = "pst_events st"
  define st' where "st' = refreshPositionValue sqrtf powf paper scan now chain pool p st"
  have st': "st' = savePosition ?u (trackPosition ?u (snd acc))"
    by (simp add: st'_def refreshPositionValue_def Let_def p1_def acc_def split: prod.splits)
  note acc = accrued_cases [of paper scan now pool p1 st, folded acc_def]
  have tgt: "map_of (pst_positions st) i = Some p" "pr_closedAt p = None"
    using row ledger_okD(5) [OF inv] by blast+
  note ok = ledger_okD(2) [OF inv map_of_SomeD [OF tgt(1)]]
  have i: "pr_positionId p = i" using ok by (simp add: row_ok_def Let_def)
  have u: "pr_positionId ?u = i" "pr_positionPubKey ?u = pr_positionPubKey p"
    "pr_poolAddress ?u = pr_poolAddress p" "pr_closedAt ?u = None"
    "pr_paperExitedAt ?u = pr_paperExitedAt p" "pr_launchRunner ?u = pr_launchRunner p"
    "pr_cumulativeRewardsClaimedUsd ?u = pr_cumulativeRewardsClaimedUsd p"
    "pr_depositedUsd ?u = pr_depositedUsd p" "coalesce_row (Some p) ?u = ?u"
    using acc(1) i tgt(2) by (auto simp: p1_def coalesce_row_def)
  obtain es where es: "pst_events st' = ?evs @ es"
    "\<forall>e \<in> set es. ppe_event e = ClaimEvent \<and> ppe_positionId e = Some i \<and> ppe_poolAddress e = pr_poolAddress p"
    "length es \<le> 1"
  proof -
    from acc(1) consider "pst_events (snd acc) = ?evs" | delta where
      "pst_events (snd acc) = ?evs @ [\<lparr>ppe_poolAddress = ps_address pool, ppe_positionId = Some (pr_positionId p1),
        ppe_event = ClaimEvent, ppe_valueUsd = Some delta, ppe_feesUsd = Some delta,
        ppe_metadata = None, ppe_createdAt = now\<rparr>]" by blast
    then show ?thesis
    proof cases
      case 1
      then show ?thesis using that [of "[]"] by (simp add: st' savePosition_def trackPosition_def)
    next
      case 2
      then show ?thesis using pool i by (intro that) (auto simp: st' savePosition_def trackPosition_def p1_def)
    qed
  qed
  have zero: "evsum ev_entry i es = 0" "evsum ev_cost i es = 0" "evsum ev_scale i es = 0" "evsum ev_comp i es = 0"
    by (rule evsum_zero; use es(2) in \<open>simp add: ev_defs\<close>)+
  have tracked: "pst_tracked st' = AList.update i ?u (pst_tracked st)"
    by (simp add: st' savePosition_def trackPosition_def acc(3) u(1))
  obtain f where f: "pr_cumulativeFeesClaimedUsd p = Fin f" "0 \<le> f" "fl f = Fin f"
      "evsum ev_comp i ?evs \<le> f + of_nat (evsum ev_hit i ?evs + 1) * unit_error"
    and open': "pr_paperExitedAt p = None" "pr_cumulativeRewardsClaimedUsd p = Fin 0"
      "near (evsum ev_hit i ?evs) (pr_depositedUsd p)
        (evsum ev_entry i ?evs + evsum ev_scale i ?evs + evsum ev_comp i ?evs)"
    using ok tgt(2) by (auto simp: row_ok_def open_row_ok_def Let_def)
  have "is_finite (pr_cumulativeFeesClaimedUsd ?u)"
    using fin tracked by (simp add: st'_def [symmetric] update_conv')
  then obtain g where g: "pr_cumulativeFeesClaimedUsd ?u = Fin g" "fl g = Fin g" "f \<le> g"
    using acc(1)
  proof (elim disjE exE)
    assume "fst acc = p1 \<and> pst_events (snd acc) = ?evs"
    then show ?thesis using f by (intro that [of f]) (simp_all add: p1_def)
  next
    fix delta
    assume fin: "is_finite (pr_cumulativeFeesClaimedUsd ?u)" and d: "\<not> jle delta (Fin 0) \<and>
      ?u = p1\<lparr>pr_cumulativeFeesClaimedUsd := jadd (pr_cumulativeFeesClaimedUsd p1) delta\<rparr> \<and>
      pst_events (snd acc) = ?evs @ [\<lparr>ppe_poolAddress = ps_address pool,
        ppe_positionId = Some (pr_positionId p1), ppe_event = ClaimEvent, ppe_valueUsd = Some delta,
        ppe_feesUsd = Some delta, ppe_metadata = None, ppe_createdAt = now\<rparr>]"
    have c: "pr_cumulativeFeesClaimedUsd ?u = jadd (Fin f) delta" using d f(1) by (simp add: p1_def)
    then obtain g where g: "jadd (Fin f) delta = Fin g" using fin by (auto simp: is_finite_iff)
    then have "delta \<noteq> NaN" by auto
    then have "jle (Fin 0) delta" using d not_jle_iff [of delta "Fin 0"] by (auto intro: jlt_imp_jle)
    then have "jle (Fin f) (jadd (Fin f) delta)" using f(3) by (intro jadd_ge_left) simp_all
    moreover have "is_double (jadd (Fin f) delta)" by (rule is_double_add)
    ultimately show ?thesis using that [of g] c g by simp
  qed
  have "evsum ev_comp i ?evs \<le> g + of_nat (evsum ev_hit i ?evs + evsum ev_hit i es + 1) * unit_error"
    using f(4) g(3) units_mono [of "evsum ev_hit i ?evs + 1" "evsum ev_hit i ?evs + evsum ev_hit i es + 1"] by linarith
  then have open_u: "open_row_ok (?evs @ es) i ?u"
    using open' g f(2) by (auto simp: open_row_ok_def u zero intro: near_mono)
  show ?thesis unfolding st'_def [symmetric]
  proof (rule ledger_ok_book [OF inv _ es(1), where i = i and p' = ?u])
    show "row_ok (?evs @ es) (i, ?u)"
      using ok open_u es(2) tgt(2) by (auto simp: row_ok_def Let_def u paperRebalanceMetadataFor_def)
    show "\<forall>e \<in> set es. ev_ok e \<and> ppe_positionId e = Some i" using es(2) by (simp add: ev_ok_def)
    show "row_volume (?evs @ es) (i, ?u) \<le> old_of (row_volume ?evs) st i + (v - v)"
      by (simp add: row_volume_def old_open(3) [OF tgt] u zero Let_def)
    fix d r
    assume "near (d + old_of (row_error ?evs) st i) (pst_cash st) (r + old_of (row_ledger ?evs) st i)"
    then show "near (d + row_error (?evs @ es) (i, ?u)) (pst_cash st') (r + row_ledger (?evs @ es) (i, ?u))"
      unfolding old_open [OF tgt]
      by (simp add: row_error_def row_ledger_def u zero Let_def st' savePosition_def trackPosition_def acc(4)
          near_mono)
  qed (use row in \<open>simp_all add: tracked u distinct_update ledger_okD(8) [OF inv] update_conv' tgt
      st' savePosition_def trackPosition_def acc(2,3)\<close>)
qed

section \<open>Closing\<close>

definition exit_volume :: "PaperExecDeps \<Rightarrow> int \<Rightarrow> PaperState \<Rightarrow> PositionRecord \<Rightarrow> rat" where
  "exit_volume deps now st p =
     \<bar>amt (Some (pr_cumulativeFeesClaimedUsd p))\<bar> + \<bar>amt (Some (pr_currentValueUsd p))\<bar> +
     \<bar>amt (Some (paperExitCosts now p deps))\<bar> +
     \<bar>amt (Some (pxs_realizedPnlUsd (resolvePaperExitSettlement now p deps
        (paperRebalanceCostsUsd (getPositionEvents st (pr_poolAddress p)) (pr_positionId p)))))\<bar>"

lemma near_add_within:
  assumes "near d a x" "near e b y" "within_limit q w n" "0 \<le> w" "d + e \<le> 100 * n + 100"
    "x + y \<le> w + w" "- (x + y) \<le> w + w"
  shows "near (d + e + 1) (jadd a b) (x + y)"
  by (rule near_add [OF assms(1,2) within_limit_le [OF assms(3,5) _ assms(4)]]) (use assms(6,7) in simp)

lemma near_sub_within:
  assumes "near d a x" "near e b y" "within_limit q w n" "0 \<le> w" "d + e \<le> 100 * n + 100"
    "x - y \<le> w + w" "- (x - y) \<le> w + w"
  shows "near (d + e + 1) (jsub a b) (x - y)"
  by (rule near_sub [OF assms(1,2) within_limit_le [OF assms(3,5) _ assms(4)]]) (use assms(6,7) in simp)

text \<open>The realized profit of a closed position and the cash it returns.\<close>

lemma exit_amounts:
  assumes inv: "ledger_ok q st v"
    and mem: "(pr_positionId p, p) \<in> set (pst_positions st)" "pr_closedAt p = None"
    and x: "pr_currentValueUsd p = Fin x" and k: "paperExitCosts now p deps = Fin k"
    and lim: "within_limit q (v + exit_volume deps now st p) (length (pst_events st) + 1)"
  defines "i \<equiv> pr_positionId p" and "evs \<equiv> pst_events st"
    and "pe \<equiv> getPositionEvents st (pr_poolAddress p)"
  defines "C \<equiv> evsum ev_comp i evs" and "K \<equiv> evsum ev_cost i evs" and "h \<equiv> evsum ev_hit i evs"
    and "B \<equiv> evsum ev_entry i evs + evsum ev_scale i evs"
    and "f \<equiv> amt (Some (pr_cumulativeFeesClaimedUsd p))"
  shows "near (2 * h + 5) (pxs_realizedPnlUsd (resolvePaperExitSettlement now p deps (paperRebalanceCostsUsd pe i)))
      (x + f - (B + C) - (k + K))"
    "near (2 * h + 6) (jsub (jadd (jadd (pr_currentValueUsd p) (paperLiquidFeesUsd p pe)) (Fin 0))
        (jadd (pxs_closeCostsUsd (resolvePaperExitSettlement now p deps (paperRebalanceCostsUsd pe i))) (Fin 0)))
      (x + (f - C) + 0 - (k + 0))"
    "\<bar>x + (f - C) + 0 - (k + 0)\<bar> \<le> v + exit_volume deps now st p"
proof -
  let ?w = "v + exit_volume deps now st p"
  note v = ledger_volume_nonneg [OF inv]
  note ok = ledger_okD(2) [OF inv mem(1), folded i_def evs_def]
  obtain f' where f': "pr_cumulativeFeesClaimedUsd p = Fin f'" "0 \<le> f'"
      "C \<le> f' + of_nat (h + 1) * unit_error"
    and open': "pr_cumulativeRewardsClaimedUsd p = Fin 0" "near h (pr_depositedUsd p) (B + C)"
    using ok mem(2) by (auto simp: row_ok_def open_row_ok_def Let_def C_def h_def B_def)
  have f: "pr_cumulativeFeesClaimedUsd p = Fin f" "0 \<le> f" "C \<le> f + of_nat (h + 1) * unit_error"
    using f' by (simp_all add: f_def)
  have ev: "f + \<bar>x\<bar> + \<bar>k\<bar> \<le> exit_volume deps now st p"
    using f(2) by (simp add: exit_volume_def f_def x k)
  have w: "0 \<le> ?w" using v ev f(2) by simp
  have lim0: "within_limit q v (length (pst_events st))"
    by (rule within_limit_mono [OF lim]) (use ev f(2) in simp_all)
  note reads = open_row_reads [OF inv lim0 mem, folded i_def evs_def, folded pe_def C_def K_def h_def]
  note pos = evsum_nonneg [OF ledger_okD(3) [OF inv], of i, folded evs_def, folded C_def K_def]
  have B: "0 \<le> B" "B + K + C \<le> v" using pos reads(4) by (simp_all add: B_def)
  have h: "h + h + 20 \<le> 100 * (length (pst_events st) + 1) + 100" "0 \<le> h"
    using reads(3) by (simp_all add: evs_def)
  note x1 = abs_ge_self [of x] abs_ge_minus_self [of x] abs_ge_self [of k] abs_ge_minus_self [of k] abs_ge_zero [of q]
  have n1: "near (0 + 0 + 1) (jadd (Fin x) (Fin f)) (x + f)"
    by (rule near_add_within [OF near_exact near_exact lim w])
      (use x1 ev f(2) v h in linarith)+
  have n2: "near (0 + 0 + 1 + 0 + 1) (jadd (jadd (Fin x) (Fin f)) (Fin 0)) (x + f + 0)"
    by (rule near_add_within [OF n1 near_exact lim w]) (use x1 ev f(2) v h in linarith)+
  have n3: "near (0 + 0 + 1 + 0 + 1 + h + 1) (jsub (jadd (jadd (Fin x) (Fin f)) (Fin 0)) (pr_depositedUsd p))
      (x + f + 0 - (B + C))"
    by (rule near_sub_within [OF n2 open'(2) lim w])
      (use x1 ev f(2) v B pos h in linarith)+
  have rebs: "near h (jmax (paperRebalanceCostsUsd pe i) (Fin 0)) K"
    using near_max0 [OF reads(1)] pos(2) by simp
  have n4: "near (0 + h + 1) (jadd (Fin k) (jmax (paperRebalanceCostsUsd pe i) (Fin 0))) (k + K)"
    by (rule near_add_within [OF near_exact rebs lim w])
      (use x1 ev f(2) v B pos h in linarith)+
  have n5: "near (0 + 0 + 1 + 0 + 1 + h + 1 + (0 + h + 1) + 1)
      (jsub (jsub (jadd (jadd (Fin x) (Fin f)) (Fin 0)) (pr_depositedUsd p))
        (jadd (Fin k) (jmax (paperRebalanceCostsUsd pe i) (Fin 0))))
      (x + f + 0 - (B + C) - (k + K))"
    by (rule near_sub_within [OF n3 n4 lim w])
      (use x1 ev f(2) v B pos h in linarith)+
  have count: "0 + 0 + 1 + 0 + 1 + h + 1 + (0 + h + 1) + 1 = 2 * h + 5" by simp
  show "near (2 * h + 5) (pxs_realizedPnlUsd (resolvePaperExitSettlement now p deps (paperRebalanceCostsUsd pe i)))
      (x + f - (B + C) - (k + K))"
    using n5 [unfolded count] pos(2)
    by (simp add: resolvePaperExitSettlement_def computeRealizedPnlUsd_def Let_def x f(1) k open'(1))
  obtain z where z: "paperLiquidFeesUsd p pe = Fin (max z 0)" "\<bar>z - (f - C)\<bar> \<le> of_nat (h + 1) * unit_error"
  proof -
    have "v \<le> ?w" "f \<le> ?w" using ev v f(2) x1 by linarith+
    from liquid_fees_near [OF inv lim this(1) mem f(1) this(2), folded i_def evs_def, folded pe_def C_def h_def]
    show ?thesis using that by blast
  qed
  have "near (h + 1) (Fin (max z 0)) (f - C)" using z(2) f(3) by (auto simp: near_def)
  then have m1: "near (0 + (h + 1) + 1) (jadd (Fin x) (Fin (max z 0))) (x + (f - C))"
    by (rule near_add_within [OF near_exact _ lim w])
      (use x1 ev f(2) v B pos h in linarith)+
  have m2: "near (0 + (h + 1) + 1 + 0 + 1) (jadd (jadd (Fin x) (Fin (max z 0))) (Fin 0)) (x + (f - C) + 0)"
    by (rule near_add_within [OF m1 near_exact lim w])
      (use x1 ev f(2) v B pos h in linarith)+
  have m3: "near (0 + 0 + 1) (jadd (Fin k) (Fin 0)) (k + 0)"
    by (rule near_add_within [OF near_exact near_exact lim w])
      (use x1 ev f(2) v B pos h in linarith)+
  have "near (0 + (h + 1) + 1 + 0 + 1 + (0 + 0 + 1) + 1)
      (jsub (jadd (jadd (Fin x) (Fin (max z 0))) (Fin 0)) (jadd (Fin k) (Fin 0))) (x + (f - C) + 0 - (k + 0))"
    by (rule near_sub_within [OF m2 m3 lim w])
      (use x1 ev f(2) v B pos h in linarith)+
  then have "near (2 * h + 6) (jsub (jadd (jadd (Fin x) (Fin (max z 0))) (Fin 0)) (jadd (Fin k) (Fin 0)))
      (x + (f - C) + 0 - (k + 0))" by (rule near_mono) simp
  moreover have "pxs_closeCostsUsd (resolvePaperExitSettlement now p deps r) = Fin k" for r
    by (simp add: resolvePaperExitSettlement_def Let_def k)
  ultimately show "near (2 * h + 6) (jsub (jadd (jadd (pr_currentValueUsd p) (paperLiquidFeesUsd p pe)) (Fin 0))
        (jadd (pxs_closeCostsUsd (resolvePaperExitSettlement now p deps (paperRebalanceCostsUsd pe i))) (Fin 0)))
      (x + (f - C) + 0 - (k + 0))"
    by (simp only: x z(1))
  show "\<bar>x + (f - C) + 0 - (k + 0)\<bar> \<le> ?w" unfolding abs_le_iff using x1 ev f(2) v B pos by (intro conjI) linarith+
qed

lemma closed_fields:
  fixes deps now pool p st
  defines "r \<equiv> pxs_realizedPnlUsd (resolvePaperExitSettlement now p deps
      (paperRebalanceCostsUsd (getPositionEvents st (pr_poolAddress p)) (pr_positionId p)))"
    and "st' \<equiv> closePaperPosition deps now pool p st"
  assumes "map_of (pst_positions st) (pr_positionId p) = Some p" "ped_hasLedger deps"
    "pr_cumulativeRewardsClaimedUsd p = Fin 0"
  shows "pst_positions st' = AList.update (pr_positionId p)
      (p\<lparr>pr_closedAt := Some now, pr_realizedPnlUsd := Some r, pr_paperExitedAt := Some now\<rparr>) (pst_positions st)"
    "pst_tracked st' = AList.delete (pr_positionId p) (pst_tracked st)"
    "\<exists>e. pst_events st' = pst_events st @ [e] \<and> ppe_event e = ExitEvent \<and>
       ppe_positionId e = Some (pr_positionId p) \<and> ppe_poolAddress e = pr_poolAddress p"
    "pst_cash st' = (let net = jsub (jadd (jadd (pr_currentValueUsd p)
         (paperLiquidFeesUsd p (getPositionEvents st (pr_poolAddress p)))) (Fin 0))
         (jadd (pxs_closeCostsUsd (resolvePaperExitSettlement now p deps
            (paperRebalanceCostsUsd (getPositionEvents st (pr_poolAddress p)) (pr_positionId p)))) (Fin 0))
       in if is_finite net then jadd (pst_cash st) net else pst_cash st)"
proof -
  have u: "AList.map_entry (pr_positionId p) g (AList.map_entry (pr_positionId p) f (pst_positions st)) =
      AList.update (pr_positionId p) (g (f p)) (pst_positions st)" for f g
    by (simp add: map_entry_update [OF assms(3)] map_entry_update update_conv')
  have z: "finiteNonNegativeNumber (Fin 0)" by (simp add: finiteNonNegativeNumber_def)
  show "pst_positions st' = AList.update (pr_positionId p)
      (p\<lparr>pr_closedAt := Some now, pr_realizedPnlUsd := Some r, pr_paperExitedAt := Some now\<rparr>) (pst_positions st)"
    by (simp add: st'_def r_def closePaperPosition_def Let_def creditPaperCash_def untrackPosition_def
        markPaperExited_def persistPaperExitRugBlocks_def closePosition_def savePositionEvent_def u
        split: option.splits)
  show "pst_tracked st' = AList.delete (pr_positionId p) (pst_tracked st)"
    by (simp add: st'_def closePaperPosition_def Let_def creditPaperCash_def untrackPosition_def
        markPaperExited_def persistPaperExitRugBlocks_def closePosition_def savePositionEvent_def
        split: option.splits)
  show "\<exists>e. pst_events st' = pst_events st @ [e] \<and> ppe_event e = ExitEvent \<and>
       ppe_positionId e = Some (pr_positionId p) \<and> ppe_poolAddress e = pr_poolAddress p"
    by (simp add: st'_def closePaperPosition_def Let_def creditPaperCash_def untrackPosition_def
        markPaperExited_def persistPaperExitRugBlocks_def closePosition_def savePositionEvent_def
        split: option.splits)
  show "pst_cash st' = (let net = jsub (jadd (jadd (pr_currentValueUsd p)
         (paperLiquidFeesUsd p (getPositionEvents st (pr_poolAddress p)))) (Fin 0))
         (jadd (pxs_closeCostsUsd (resolvePaperExitSettlement now p deps
            (paperRebalanceCostsUsd (getPositionEvents st (pr_poolAddress p)) (pr_positionId p)))) (Fin 0))
       in if is_finite net then jadd (pst_cash st) net else pst_cash st)"
    by (simp add: st'_def closePaperPosition_def Let_def creditPaperCash_def untrackPosition_def
        markPaperExited_def persistPaperExitRugBlocks_def closePosition_def savePositionEvent_def assms(4,5) z
        split: option.splits)
qed

lemma closed_ok:
  assumes inv: "ledger_ok q st v"
    and target: "resolveTargetPosition (pst_tracked st) d = Some p"
    and ledger: "ped_hasLedger deps"
    and fin: "is_finite (pr_currentValueUsd p)" "is_finite (paperExitCosts now p deps)"
    and lim: "within_limit q (v + exit_volume deps now st p) (length (pst_events st) + 1)"
  shows "ledger_ok q (closePaperPosition deps now pool p st) (v + exit_volume deps now st p)"
proof -
  let ?i = "pr_positionId p" and ?evs = "pst_events st" and ?w = "v + exit_volume deps now st p"
  define st' where "st' = closePaperPosition deps now pool p st"
  define r where "r = pxs_realizedPnlUsd (resolvePaperExitSettlement now p deps
      (paperRebalanceCostsUsd (getPositionEvents st (pr_poolAddress p)) ?i))"
  define u where "u = p\<lparr>pr_closedAt := Some now, pr_realizedPnlUsd := Some r, pr_paperExitedAt := Some now\<rparr>"
  let ?h = "evsum ev_hit ?i ?evs" and ?C = "evsum ev_comp ?i ?evs" and ?K = "evsum ev_cost ?i ?evs"
  let ?B = "evsum ev_entry ?i ?evs + evsum ev_scale ?i ?evs"
  let ?f = "amt (Some (pr_cumulativeFeesClaimedUsd p))"
  note tgt = target_open [OF inv target]
  obtain x k where x: "pr_currentValueUsd p = Fin x" and k: "paperExitCosts now p deps = Fin k"
    using fin by (auto simp: is_finite_iff)
  have rew: "pr_cumulativeRewardsClaimedUsd p = Fin 0" and f0: "0 \<le> ?f"
    using tgt(2,4) by (auto simp: row_ok_def open_row_ok_def Let_def)
  note cl = closed_fields [OF tgt(1) ledger rew, where now = now and pool = pool, folded r_def st'_def, folded u_def]
  note am = exit_amounts [OF inv tgt(5,2) x k lim, folded r_def]
  obtain R where R: "r = Fin R" "\<bar>R - (x + ?f - (?B + ?C) - (k + ?K))\<bar> \<le> of_nat (2 * ?h + 5) * unit_error"
    using am(1) by (auto simp: near_def)
  obtain e where e: "pst_events st' = ?evs @ [e]" "ppe_event e = ExitEvent" "ppe_positionId e = Some ?i"
      "ppe_poolAddress e = pr_poolAddress p" using cl(3) by blast
  have amounts: "ev_entry ?i e = 0" "ev_cost ?i e = 0" "ev_scale ?i e = 0" "ev_comp ?i e = 0" "ev_hit ?i e = 1"
    using e by (simp_all add: ev_defs)
  have v: "0 \<le> v" using ledger_volume_nonneg [OF inv] .
  have ev: "\<bar>R\<bar> \<le> exit_volume deps now st p" "0 \<le> exit_volume deps now st p"
    using f0 R(1) by (simp_all add: exit_volume_def r_def [symmetric])
  show ?thesis unfolding st'_def [symmetric]
  proof (rule ledger_ok_book [OF inv, where es = "[e]" and p' = u and i = ?i])
    show "row_ok (?evs @ [e]) (?i, u)"
      using tgt(2,4) R(1) e by (auto simp: row_ok_def Let_def u_def paperRebalanceMetadataFor_def)
    show "\<forall>e' \<in> set [e]. ev_ok e' \<and> ppe_positionId e' = Some ?i" using e by (simp add: ev_ok_def)
    show "row_volume (?evs @ [e]) (?i, u) \<le> old_of (row_volume ?evs) st ?i + (?w - v)"
      using ev by (simp add: row_volume_def old_open(3) [OF tgt(1,2)] u_def Let_def amounts R(1))
    fix d s
    assume "near (d + old_of (row_error ?evs) st ?i) (pst_cash st) (s + old_of (row_ledger ?evs) st ?i)"
      "\<bar>s\<bar> + old_of (row_volume ?evs) st ?i \<le> \<bar>q\<bar> + v"
      "d + old_of (row_error ?evs) st ?i \<le> 30 * length ?evs"
    note a = this [unfolded old_open [OF tgt(1,2)]]
    define y where "y = s + - (evsum ev_entry ?i ?evs + evsum ev_scale ?i ?evs + ?K)"
    note pos = evsum_nonneg [OF ledger_okD(3) [OF inv], of ?i]
    have y: "\<bar>y\<bar> \<le> \<bar>q\<bar> + v" using a(2) pos unfolding y_def by (simp_all only:)
    let ?net = "x + (?f - ?C) + 0 - (k + 0)"
    have "\<bar>y + ?net\<bar> \<le> \<bar>q\<bar> + (?w + ?w)"
      using abs_triangle_ineq [of y ?net] y am(3) v ev(2) by linarith
    from within_limit_le [OF lim _ this, of "d + 2 * ?h + (2 * ?h + 6)"] a(3) v ev(2)
      open_row_reads(3) [OF inv within_limit_mono [OF lim] tgt(5,2)]
    have "\<bar>y + ?net\<bar> + of_nat (d + 2 * ?h + (2 * ?h + 6)) * unit_error \<le> sum_limit" by simp
    from near_add [OF a(1) [folded y_def] am(2) this] near_finite [OF am(2)]
    have cash: "near (d + 2 * ?h + (2 * ?h + 6) + 1) (pst_cash st') (y + ?net)"
      by (simp add: cl(4) Let_def)
    have "\<bar>y + ?net - (s + R)\<bar> \<le> of_nat (2 * ?h + 5) * unit_error"
      using R(2) by (simp add: y_def abs_minus_commute algebra_simps)
    from near_shift [OF cash this]
    have "near (d + 30 * (?h + 1)) (pst_cash st') (s + R)" by (rule near_mono) simp
    then show "near (d + row_error (?evs @ [e]) (?i, u)) (pst_cash st') (s + row_ledger (?evs @ [e]) (?i, u))"
      by (simp add: row_error_def row_ledger_def u_def Let_def amounts R(1))
  qed (use tgt(3) e cl in \<open>simp_all add: u_def distinct_delete ledger_okD(8) [OF inv] delete_conv' fun_upd_def\<close>)
qed

section \<open>Entering\<close>

lemma made_record:
  fixes now inp
  defines "p \<equiv> makePaperPositionRecord now inp"
  shows "pr_positionId p = ppi_positionId inp" "pr_positionPubKey p = ppi_positionPubKey inp"
    "pr_depositedUsd p = ppi_depositedUsd inp" "pr_closedAt p = None"
    "pr_paperExitedAt p = ppi_paperExitedAt inp" "pr_cumulativeFeesClaimedUsd p = Fin 0"
    "pr_cumulativeRewardsClaimedUsd p = Fin 0"
  by (simp_all add: p_def makePaperPositionRecord_def Let_def split: prod.splits)

definition fresh_ids :: "PaperState \<Rightarrow> string \<Rightarrow> (nat \<Rightarrow> string) \<Rightarrow> bool" where
  "fresh_ids st pool uuid \<longleftrightarrow>
     paperId pool (uuid 0) \<noteq> paperId pool (uuid 1) \<and>
     paperId pool (uuid 0) \<notin> fst ` set (pst_positions st) \<and>
     paperId pool (uuid 1) \<notin> fst ` set (pst_positions st)"

lemma no_live_exited:
  assumes inv: "ledger_ok q st v"
  shows "find_first (\<lambda>p. pr_paperExitedAt p \<noteq> None \<and> pr_positionPubKey p \<noteq> None)
    (positionsForPool (pst_tracked st) pool) = None"
proof -
  have "pr_paperExitedAt p = None" if p: "p \<in> set (positionsForPool (pst_tracked st) pool)" for p
  proof -
    obtain j where "(j, p) \<in> set (pst_tracked st)" using p by (auto simp: positionsForPool_def)
    then have "map_of (pst_tracked st) j = Some p" using ledger_okD(8) [OF inv] by simp
    then have m: "map_of (pst_positions st) j = Some p" "pr_closedAt p = None"
      using ledger_okD(5) [OF inv] by blast+
    then show ?thesis using ledger_okD(2) [OF inv map_of_SomeD [OF m(1)]]
      by (simp add: row_ok_def open_row_ok_def Let_def)
  qed
  then show ?thesis by (auto simp: find_first_None_iff)
qed

lemma half_size:
  assumes "20 \<le> s" "s \<le> sum_limit"
  shows "\<exists>h. jdiv (Fin s) (Fin 2) = Fin h \<and> 0 \<le> h \<and> h \<le> s"
proof -
  obtain h where h: "fl (s / 2) = Fin h" "\<bar>h - s / 2\<bar> \<le> unit_error"
    using fl_near [of "s / 2"] assms by auto
  moreover have "unit_error \<le> 1" by (simp add: unit_error_def)
  ultimately show ?thesis using assms(1) by (intro exI [of _ h]) (simp add: abs_le_iff)
qed

lemma entered_ok:
  assumes inv: "ledger_ok q st v" and ledger: "ped_hasLedger deps"
    and size: "dec_positionSizeUsd d = Some (Fin s)" "0 < s"
    and fresh: "fresh_ids st (dec_poolAddress d) uuid"
    and lim: "within_limit q (v + 2 * s)
      (length (pst_events (snd (executePaperEnter deps now uuid d pool ts sid st))))"
  shows "ledger_ok q (snd (executePaperEnter deps now uuid d pool ts sid st)) (v + 2 * s)"
proof -
  let ?leg = "\<lambda>u r h. makePaperPositionRecord now
    \<lparr>ppi_decision = d, ppi_pool = pool, ppi_positionId = paperId (dec_poolAddress d) u,
     ppi_positionPubKey = None, ppi_depositedUsd = h, ppi_fullSizeUsd = h,
     ppi_activeBinId = pep_activeBinId pool, ppi_lowerBinId = range_lowerBinId r,
     ppi_upperBinId = range_upperBinId r, ppi_entryDipOffsetBins = ped_entryDipOffsetBins deps,
     ppi_signalTimestamp = ts, ppi_signalSnapshotId = sid, ppi_paperExitedAt = None\<rparr>"
  let ?R = "\<lambda>w. recommendBinRange (pep_activeBinId pool) (pep_binStep pool) w
    (nullish (ped_entryDipOffsetBins deps) (Fin 0))"
  note none = no_live_exited [OF inv, of "dec_poolAddress d"]
  show ?thesis
  proof (cases "paperLadderPlan deps (pst_tracked st) d None")
    case None
    let ?r = "?R (ped_entryRangeHalfWidth deps)"
    from None have r: "snd (executePaperEnter deps now uuid d pool ts sid st) =
        bookPaperEntry deps now (?leg (uuid 0) ?r (Fin s)) (Fin s) st"
      unfolding executePaperEnter_def none Let_def by (simp add: size(1))
    have n: "length (pst_events (snd (executePaperEnter deps now uuid d pool ts sid st))) =
        length (pst_events st) + 1" by (simp add: r book_fields)
    have "ledger_ok q (bookPaperEntry deps now (?leg (uuid 0) ?r (Fin s)) (Fin s) st) (v + s)"
      by (rule booked_entry_ok [OF inv within_limit_mono [OF lim] _ ledger])
        (use size(2) fresh in \<open>simp_all add: made_record fresh_ids_def n\<close>)
    from ledger_ok_mono [OF this, of "v + 2 * s"] show ?thesis unfolding r using size(2) by simp
  next
    case (Some plan)
    have s20: "20 \<le> s" and half: "plp_halfSize plan = jdiv (Fin s) (Fin 2)"
      using Some size(1) by (auto simp: paperLadderPlan_def Let_def split: if_splits prod.splits)
    have v: "0 \<le> v" using ledger_volume_nonneg [OF inv] .
    have "s \<le> sum_limit" using within_limit_le [OF lim, of 0 s] v size(2) by simp
    from half_size [OF s20 this] obtain h where h: "plp_halfSize plan = Fin h" "0 \<le> h" "h \<le> s"
      unfolding half by blast
    let ?r = "?R (Some (plp_wideHalf plan))" and ?r' = "?R (Some (plp_tightHalf plan))"
    from Some have r: "snd (executePaperEnter deps now uuid d pool ts sid st) =
        bookPaperEntry deps now (?leg (uuid 1) ?r (Fin h)) (Fin h)
          (bookPaperEntry deps now (?leg (uuid 0) ?r' (Fin h)) (Fin h) st)"
      unfolding executePaperEnter_def none Let_def savePaperLadderLeg_def by (simp add: h(1))
    have n: "length (pst_events (snd (executePaperEnter deps now uuid d pool ts sid st))) =
        length (pst_events st) + 2" by (simp add: r book_fields)
    let ?st1 = "bookPaperEntry deps now (?leg (uuid 0) ?r' (Fin h)) (Fin h) st"
    have one: "ledger_ok q ?st1 (v + h)"
      by (rule booked_entry_ok [OF inv within_limit_mono [OF lim] h(2) ledger])
        (use h size(2) fresh in \<open>simp_all add: made_record fresh_ids_def n\<close>)
    have "ledger_ok q (bookPaperEntry deps now (?leg (uuid 1) ?r (Fin h)) (Fin h) ?st1) (v + h + h)"
      by (rule booked_entry_ok [OF one within_limit_mono [OF lim] h(2) ledger])
        (use h size(2) fresh in \<open>auto simp: made_record fresh_ids_def book_fields savePosition_def n\<close>)
    from ledger_ok_mono [OF this, of "v + 2 * s"] show ?thesis unfolding r using h(3) by simp
  qed
qed

section \<open>Runs\<close>

text \<open>
  The runs of the paper executor from an empty database and a seed balance: entries of positive
  size under fresh ids, exits with finite marks and costs, rebalances whose compounded top-up is
  covered by the claimed fees, and marks.  The last argument bounds the amounts booked so far.
\<close>

inductive paper_run :: "rat \<Rightarrow> PaperState \<Rightarrow> rat \<Rightarrow> bool" for q where
  started: "pst_positions st = [] \<Longrightarrow> pst_tracked st = [] \<Longrightarrow> pst_events st = [] \<Longrightarrow>
    pst_cash st = Fin q \<Longrightarrow> paper_run q st 0"
| entered: "paper_run q st v \<Longrightarrow> ped_hasLedger deps \<Longrightarrow> dec_action d = ENTER \<Longrightarrow>
    dec_positionSizeUsd d = Some (Fin s) \<Longrightarrow> 0 < s \<Longrightarrow> fresh_ids st (dec_poolAddress d) uuid \<Longrightarrow>
    paper_run q (snd (executePaper deps now uuid d pool ts sid st)) (v + 2 * s)"
| exited: "paper_run q st v \<Longrightarrow> ped_hasLedger deps \<Longrightarrow> dec_action d = EXIT \<Longrightarrow>
    resolveTargetPosition (pst_tracked st) d = Some p \<Longrightarrow> is_finite (pr_currentValueUsd p) \<Longrightarrow>
    is_finite (paperExitCosts now p deps) \<Longrightarrow>
    paper_run q (snd (executePaper deps now uuid d pool ts sid st)) (v + exit_volume deps now st p)"
| rebalanced: "paper_run q st v \<Longrightarrow> ped_hasLedger deps \<Longrightarrow> dec_action d = REBALANCE \<Longrightarrow>
    resolveTargetPosition (pst_tracked st) d = Some p \<Longrightarrow> dec_rebalanceParams d = Some params \<Longrightarrow>
    sane_top_up st p params \<Longrightarrow>
    paper_run q (snd (executePaper deps now uuid d pool ts sid st))
      (v + top_up_amount params + rebalance_cost deps)"
| marked: "paper_run q st v \<Longrightarrow> map_of (pst_tracked st) i = Some p \<Longrightarrow>
    ps_address pool = pr_poolAddress p \<Longrightarrow>
    st' = refreshPositionValue sqrtf powf paper scan now chain pool p st \<Longrightarrow>
    \<forall>u. map_of (pst_tracked st') i = Some u \<longrightarrow> is_finite (pr_cumulativeFeesClaimedUsd u) \<Longrightarrow>
    paper_run q st' v"

text \<open>A run within the limit keeps the invariant.\<close>

lemma executePaper_dispatch:
  "dec_action d = ENTER \<Longrightarrow> dec_positionSizeUsd d = Some (Fin s) \<Longrightarrow> 0 < s \<Longrightarrow>
     executePaper deps now uuid d pool ts sid st = executePaperEnter deps now uuid d pool ts sid st"
  "dec_action d = EXIT \<Longrightarrow> executePaper deps now uuid d pool ts sid st = executePaperExit deps now d pool st"
  "dec_action d = REBALANCE \<Longrightarrow>
     executePaper deps now uuid d pool ts sid st = executePaperRebalance deps now d pool st"
  by (simp_all add: executePaper_def)

lemma rotation_check_fields:
  fixes deps now d st
  defines "st' \<equiv> snd (isExitRotationBlocked deps now d st)"
  shows "pst_positions st' = pst_positions st" "pst_tracked st' = pst_tracked st"
    "pst_events st' = pst_events st" "pst_cash st' = pst_cash st"
  by (simp_all add: st'_def isExitRotationBlocked_def checkRotationArm_def Let_def)

lemma run_volume: "paper_run q st v \<Longrightarrow> 0 \<le> v"
proof (induction rule: paper_run.induct)
  case (rebalanced st v deps d p params now uuid pool ts sid)
  then show ?case
    using rebalance_cost_Fin [of deps] by (auto simp: top_up_amount_def sane_top_up_def split: jsnum.splits)
qed (simp_all add: exit_volume_def)

lemma exited_ok:
  assumes inv: "ledger_ok q st v" and ledger: "ped_hasLedger deps"
    and target: "resolveTargetPosition (pst_tracked st) d = Some p"
    and fin: "is_finite (pr_currentValueUsd p)" "is_finite (paperExitCosts now p deps)"
    and lim: "within_limit q (v + exit_volume deps now st p)
      (length (pst_events (snd (executePaperExit deps now d pool st))))"
  shows "ledger_ok q (snd (executePaperExit deps now d pool st)) (v + exit_volume deps now st p)"
proof -
  define st1 where "st1 = snd (isExitRotationBlocked deps now d st)"
  note same = rotation_check_fields [of deps now d st, folded st1_def]
  have inv1: "ledger_ok q st1 v" by (rule ledger_ok_cong [OF same inv])
  have vol: "exit_volume deps now st1 p = exit_volume deps now st p"
    by (simp add: exit_volume_def getPositionEvents_def same)
  have "pr_positionPubKey p = None"
    using target_open(4) [OF inv target] by (simp add: row_ok_def Let_def)
  then have result: "snd (executePaperExit deps now d pool st) =
      (if fst (isExitRotationBlocked deps now d st) then st1 else closePaperPosition deps now pool p st1)"
    using target by (simp add: executePaperExit_def st1_def Let_def split: prod.splits)
  show ?thesis
  proof (cases "fst (isExitRotationBlocked deps now d st)")
    case True
    have "0 \<le> exit_volume deps now st p" by (simp add: exit_volume_def)
    then show ?thesis using ledger_ok_mono [OF inv1] True by (simp add: result)
  next
    case False
    have target1: "resolveTargetPosition (pst_tracked st1) d = Some p" using target by (simp add: same)
    have "pr_cumulativeRewardsClaimedUsd p = Fin 0"
      using target_open(2,4) [OF inv target] by (auto simp: row_ok_def open_row_ok_def Let_def)
    then obtain e where "pst_events (closePaperPosition deps now pool p st1) = pst_events st1 @ [e]"
      using closed_fields(3) [OF target_open(1) [OF inv1 target1] ledger] by blast
    then have "within_limit q (v + exit_volume deps now st1 p) (length (pst_events st1) + 1)"
      using lim False by (simp add: result vol)
    from closed_ok [OF inv1 target1 ledger fin this] False show ?thesis by (simp add: result vol)
  qed
qed

lemma closed_events:
  "\<exists>e. pst_events (closePaperPosition deps now pool p st) = pst_events st @ [e]"
  by (simp add: closePaperPosition_def Let_def creditPaperCash_def untrackPosition_def
      markPaperExited_def persistPaperExitRugBlocks_def closePosition_def savePositionEvent_def
      split: option.splits)

lemma entered_events:
  "length (pst_events st) \<le> length (pst_events (snd (executePaperEnter deps now uuid d pool ts sid st)))"
  unfolding executePaperEnter_def Let_def savePaperLadderLeg_def
  by (auto simp: book_fields split: option.splits)

lemma step_events:
  "length (pst_events st) \<le> length (pst_events (snd (executePaperExit deps now d pool st))) \<and>
   length (pst_events (snd (executePaperExit deps now d pool st))) \<le> length (pst_events st) + 1"
  "\<exists>e. pst_events (rebalancePaperPosition deps now pool params p st) = pst_events st @ [e]"
  "\<exists>es. pst_events (refreshPositionValue sqrtf powf paper scan now chain pool2 p st) = pst_events st @ es"
proof -
  define st1 where "st1 = snd (isExitRotationBlocked deps now d st)"
  have same: "pst_events st1 = pst_events st" by (simp add: st1_def rotation_check_fields)
  have "pst_events (snd (executePaperExit deps now d pool st)) = pst_events st \<or>
      (\<exists>p. pst_events (snd (executePaperExit deps now d pool st)) = pst_events (closePaperPosition deps now pool p st1))"
    using same by (auto simp: executePaperExit_def st1_def Let_def split: option.splits prod.splits)
  then show "length (pst_events st) \<le> length (pst_events (snd (executePaperExit deps now d pool st))) \<and>
   length (pst_events (snd (executePaperExit deps now d pool st))) \<le> length (pst_events st) + 1"
  proof (elim disjE exE)
    fix p
    assume r: "pst_events (snd (executePaperExit deps now d pool st)) = pst_events (closePaperPosition deps now pool p st1)"
    obtain e where "pst_events (closePaperPosition deps now pool p st1) = pst_events st1 @ [e]"
      using closed_events by blast
    then show ?thesis by (simp add: r same)
  qed simp
  show "\<exists>e. pst_events (rebalancePaperPosition deps now pool params p st) = pst_events st @ [e]"
    by (simp add: rebalancePaperPosition_def savePositionEvent_def Let_def savePosition_def trackPosition_def)
  show "\<exists>es. pst_events (refreshPositionValue sqrtf powf paper scan now chain pool2 p st) = pst_events st @ es"
    by (simp add: refreshPositionValue_def accruePaperPositionFees_def savePositionEvent_def Let_def
        savePosition_def trackPosition_def)
qed

lemma run_keeps_ledger:
  "paper_run q st v \<Longrightarrow> within_limit q v (length (pst_events st)) \<Longrightarrow> ledger_ok q st v"
proof (induction rule: paper_run.induct)
  case (started st)
  then show ?case by (simp add: ledger_ok_def)
next
  case (entered st v deps d s uuid now pool ts sid)
  have *: "executePaper deps now uuid d pool ts sid st = executePaperEnter deps now uuid d pool ts sid st"
    by (rule executePaper_dispatch(1)) (use entered in simp_all)
  have lim: "within_limit q v (length (pst_events st))"
    by (rule within_limit_mono [OF entered.prems]) (use entered.hyps entered_events in \<open>simp_all add: *\<close>)
  show ?case unfolding *
    by (rule entered_ok [OF entered.IH [OF lim]]) (use entered * in simp_all)
next
  case (exited st v deps d p now uuid pool ts sid)
  have *: "executePaper deps now uuid d pool ts sid st = executePaperExit deps now d pool st"
    by (rule executePaper_dispatch(2)) (use exited in simp_all)
  have lim: "within_limit q v (length (pst_events st))"
    by (rule within_limit_mono [OF exited.prems]) (simp_all add: * step_events exit_volume_def)
  show ?case unfolding *
    by (rule exited_ok [OF exited.IH [OF lim]]) (use exited * in simp_all)
next
  case (rebalanced st v deps d p params now uuid pool ts sid)
  have *: "executePaper deps now uuid d pool ts sid st = executePaperRebalance deps now d pool st"
    by (rule executePaper_dispatch(3)) (use rebalanced in simp_all)
  have r: "snd (executePaperRebalance deps now d pool st) = rebalancePaperPosition deps now pool params p st"
    using rebalanced by (simp add: executePaperRebalance_def)
  obtain e where e: "pst_events (rebalancePaperPosition deps now pool params p st) = pst_events st @ [e]"
    using step_events(2) by blast
  have "0 \<le> top_up_amount params"
    using rebalanced.hyps by (auto simp: top_up_amount_def sane_top_up_def split: jsnum.splits)
  then have lim: "within_limit q v (length (pst_events st))"
    by (intro within_limit_mono [OF rebalanced.prems]) (use rebalance_cost_Fin [of deps] in \<open>simp_all add: * r e\<close>)
  show ?case unfolding * r
    by (rule rebalanced_ok [OF rebalanced.IH [OF lim]]) (use rebalanced * r e in simp_all)
next
  case (marked st v i p pool st' sqrtf powf paper scan now chain)
  have lim: "within_limit q v (length (pst_events st))"
    by (rule within_limit_mono [OF marked.prems])
      (use step_events(3) [of sqrtf powf paper scan now chain pool p st] in \<open>auto simp: marked.hyps(4)\<close>)
  show ?case unfolding marked.hyps(4)
    by (rule marked_ok [OF marked.IH [OF lim]]) (use marked.hyps in simp_all)
qed

section \<open>A restart keeps the cash\<close>

text \<open>
  C5. A restart keeps the paper cash: over any run of the paper executor (entries, ladders,
  rebalances with fresh or compounded top-ups, fee accruals, exits) the balance that
  loadPaperCashLedger rebuilds from the rows and events of the database equals the running balance,
  clamped at zero, up to 40 roundings of 2 ^ -23 dollars per recorded event.
\<close>
theorem restart_keeps_cash:
  assumes run: "paper_run q st v"
    and volume: "\<bar>q\<bar> + 4 * v + of_nat (100 * length (pst_events st) + 100) / 2 ^ 23 \<le> 2 ^ 30"
  shows "\<exists>c l. pst_cash st = Fin c \<and> loadPaperCashLedger (Fin q) st = Fin l \<and>
    \<bar>l - max c 0\<bar> \<le> of_nat (40 * length (pst_events st) + 3) / 2 ^ 23"
proof -
  let ?n = "length (pst_events st)"
  let ?Q = "q + sum_list (map (row_ledger (pst_events st)) (pst_positions st))"
  have lim: "within_limit q v ?n"
    using volume by (simp add: within_limit_def unit_error_def sum_limit_def)
  note inv = run_keeps_ledger [OF run lim]
  have "near (30 * ?n) (pst_cash st) ?Q"
    by (rule near_mono [OF ledger_okD(6) [OF inv] error_total [OF ledger_okD(1) [OF inv]]])
  then obtain c where c: "pst_cash st = Fin c" "\<bar>c - ?Q\<bar> \<le> of_nat (30 * ?n) * unit_error"
    by (auto simp: near_def)
  obtain l where l: "loadPaperCashLedger (Fin q) st = Fin l"
      "\<bar>l - max ?Q 0\<bar> \<le> of_nat (8 * ?n + 3) * unit_error"
    using restart_near [OF inv lim] by (auto simp: near_def)
  have "\<bar>max c 0 - max ?Q 0\<bar> \<le> \<bar>c - ?Q\<bar>" by (simp add: max_def abs_if)
  then have "\<bar>l - max c 0\<bar> \<le> of_nat (8 * ?n + 3) * unit_error + of_nat (30 * ?n) * unit_error"
    using c(2) l(2) by linarith
  also have "\<dots> \<le> of_nat (40 * ?n + 3) * unit_error"
    unfolding distrib_right [symmetric] of_nat_add [symmetric] by (rule units_mono) simp
  finally show ?thesis using c(1) l(1) by (simp add: unit_error_def)
qed

definition sampleDeps :: PaperExecDeps where
  "sampleDeps = \<lparr>ped_entryRangeHalfWidth = Some (Fin 10), ped_ladderEnabled = False,
     ped_ladderTightMult = None, ped_ladderWideMult = None, ped_maxOpenPositions = None,
     ped_maxPositionsPerPool = None, ped_entryDipOffsetBins = None, ped_rotationArmMs = None,
     ped_runnerMinFeeApr = None, ped_entryAprPct = None, ped_poolAprByAddress = (\<lambda>_. None),
     ped_harvestTxCostUsdEst = Some (Fin (1 / 64)), ped_runnerSwapCostPct = Some (Fin (1 / 256)),
     ped_feeCaptureHarvestCostUsd = Some (Fin 0), ped_feeCaptureConversionCostPct = Some (Fin (1 / 16)),
     ped_rebalanceCostUsd = None, ped_hasLedger = True, ped_rugExitLossPct = None,
     ped_rugTokenBlockMs = None, ped_stablecoinMints = None\<rparr>"

definition sampleStart :: PaperState where
  "sampleStart = \<lparr>pst_tracked = [], pst_positions = [], pst_events = [], pst_cash = Fin 1000,
     pst_feeAccrualAt = (\<lambda>_. None), pst_rotationArms = (\<lambda>_. None), pst_yieldBase = (\<lambda>_. None),
     pst_rugBlocks = (\<lambda>_. None), pst_signalOutcomes = []\<rparr>"

definition sampleDecision :: "ActionType \<Rightarrow> AgentDecision" where
  "sampleDecision action = \<lparr>dec_action = action, dec_poolAddress = ''P'', dec_confidence = Fin 1,
     dec_reasoning = '''', dec_rebalanceParams = None, dec_positionSizeUsd = Some (Fin 100),
     dec_positionId = None, dec_positionMode = None, dec_tpLadderJson = None,
     dec_invalidationStopPrice = None\<rparr>"

definition samplePool :: PaperExecPool where
  "samplePool = \<lparr>pep_activeBinId = Fin 50, pep_binStep = Fin 10, pep_tokenXSymbol = ''X'',
     pep_tokenYSymbol = ''Y'', pep_tokenX = None, pep_tokenY = None, pep_currentPrice = Fin 2\<rparr>"

definition sampleIds :: "nat \<Rightarrow> string" where
  "sampleIds k = (if k = 0 then ''a'' else ''b'')"

definition sampleEntered :: PaperState where
  "sampleEntered = snd (executePaper sampleDeps 0 sampleIds (sampleDecision ENTER) samplePool None None sampleStart)"

definition sampleExited :: PaperState where
  "sampleExited = snd (executePaper sampleDeps 0 sampleIds (sampleDecision EXIT) samplePool None None sampleEntered)"

definition sampleRow :: PositionRecord where
  "sampleRow = makePaperPositionRecord 0
     \<lparr>ppi_decision = sampleDecision ENTER, ppi_pool = samplePool, ppi_positionId = paperId ''P'' ''a'',
      ppi_positionPubKey = None, ppi_depositedUsd = Fin 100, ppi_fullSizeUsd = Fin 100,
      ppi_activeBinId = Fin 50,
      ppi_lowerBinId = range_lowerBinId (recommendBinRange (Fin 50) (Fin 10) (Some (Fin 10)) (Fin 0)),
      ppi_upperBinId = range_upperBinId (recommendBinRange (Fin 50) (Fin 10) (Some (Fin 10)) (Fin 0)),
      ppi_entryDipOffsetBins = None, ppi_signalTimestamp = None, ppi_signalSnapshotId = None,
      ppi_paperExitedAt = None\<rparr>"

lemma sample_row:
  "pr_positionId sampleRow = paperId ''P'' ''a''" "pr_currentValueUsd sampleRow = Fin 100"
  "pr_depositedUsd sampleRow = Fin 100" "pr_timestamp sampleRow = 0" "pr_poolAddress sampleRow = ''P''"
  "pr_cumulativeFeesClaimedUsd sampleRow = Fin 0" "pr_cumulativeRewardsClaimedUsd sampleRow = Fin 0"
  by (simp_all add: sampleRow_def makePaperPositionRecord_def sampleDecision_def Let_def split: prod.splits)

lemma sample_entered: "sampleEntered = bookPaperEntry sampleDeps 0 sampleRow (Fin 100) sampleStart"
  by (simp add: sampleEntered_def executePaper_def executePaperEnter_def paperLadderPlan_def sampleDeps_def
      sampleStart_def sampleDecision_def samplePool_def sampleIds_def sampleRow_def positionsForPool_def Let_def)

lemma sample_target:
  "resolveTargetPosition (pst_tracked sampleEntered) (sampleDecision EXIT) = Some sampleRow"
  by (simp add: sample_entered book_fields sampleStart_def resolveTargetPosition_def positionsForPool_def
      sampleDecision_def sample_row)

lemma sample_costs: "paperExitCosts 0 sampleRow sampleDeps = Fin (13 / 16)"
  by (simp add: paperExitCosts_def paperCloseCostsUsd_def sample_row sampleDeps_def finitePositive_def
      cost_fraction_def cost_amount_def clamp01_def of_bigint_def PAPER_DAY_MS_def Let_def num_simps)

lemma sample_volume: "exit_volume sampleDeps 0 sampleEntered sampleRow = 100 + 13 / 8"
  by (simp add: exit_volume_def sample_row sample_costs resolvePaperExitSettlement_def computeRealizedPnlUsd_def
      sample_entered getPositionEvents_def book_fields sampleStart_def paperRebalanceCostsUsd_def
      paperRebalanceMetadataFor_def sort_before_simps Let_def jsub_def num_simps)

lemma restart_keeps_cash_witness:
  "\<exists>c l. pst_cash sampleExited = Fin c \<and> loadPaperCashLedger (Fin 1000) sampleExited = Fin l \<and>
    \<bar>l - max c 0\<bar> \<le> of_nat (40 * length (pst_events sampleExited) + 3) / 2 ^ 23"
proof (rule restart_keeps_cash)
  have "paper_run 1000 sampleStart 0" by (rule started) (simp_all add: sampleStart_def)
  then have "paper_run 1000 sampleEntered (0 + 2 * 100)"
    unfolding sampleEntered_def
    by (rule entered) (simp_all add: sampleDeps_def sampleDecision_def fresh_ids_def sampleStart_def
        sampleIds_def paperId_def)
  then show "paper_run 1000 sampleExited (0 + 2 * 100 + exit_volume sampleDeps 0 sampleEntered sampleRow)"
    unfolding sampleExited_def
    by (rule exited [OF _ _ _ sample_target]) (simp_all add: sampleDeps_def sampleDecision_def sample_row sample_costs [unfolded sampleDeps_def])
  have "executePaper sampleDeps 0 sampleIds (sampleDecision EXIT) samplePool None None sampleEntered =
      executePaperExit sampleDeps 0 (sampleDecision EXIT) samplePool sampleEntered"
    by (rule executePaper_dispatch(2)) (simp add: sampleDecision_def)
  moreover have "length (pst_events sampleEntered) = 1"
    by (simp add: sample_entered book_fields sampleStart_def)
  ultimately have "length (pst_events sampleExited) \<le> 2"
    using step_events(1) [of sampleEntered sampleDeps 0 "sampleDecision EXIT" samplePool]
    by (simp add: sampleExited_def)
  then have n: "of_nat (length (pst_events sampleExited)) \<le> (of_nat 2 :: rat)"
    unfolding of_nat_le_iff .
  have room: "4413 / 2 + (100 * x + 100) / 8388608 \<le> (1073741824 :: rat)" if "x \<le> of_nat 2" for x
    using that by (simp add: field_simps)
  show "\<bar>1000\<bar> + 4 * (0 + 2 * 100 + exit_volume sampleDeps 0 sampleEntered sampleRow) +
      of_nat (100 * length (pst_events sampleExited) + 100) / 2 ^ 23 \<le> (2 ^ 30 :: rat)"
    unfolding sample_volume using room [OF n] by simp
qed

end
