(* ===== verification/MarketSignals.thy ===== *)
theory MarketSignals
  imports FeeCapture PositionExits
begin

text \<open>
  Pure signals read from market data: the regime gate (\<^verbatim>\<open>engine/regime-gate.ts\<close>), the market-runner
  lane and its rotation (\<^verbatim>\<open>engine/market-runner.ts\<close>), wash forensics (\<^verbatim>\<open>engine/wash-forensics.ts\<close>),
  the depeg and liquidity-drain detector (\<^verbatim>\<open>engine/depeg-liquidity-detector.ts\<close>) and the
  TA-exhaustion exit (\<^verbatim>\<open>engine/ta-exhaustion.ts\<close>).  \<^verbatim>\<open>Math.sqrt\<close> and the text of a number are
  parameters; a \<^verbatim>\<open>Set\<close> is a list of its elements, a \<^verbatim>\<open>Map\<close> the list of its entries or a lookup
  function.
\<close>

text \<open>\<^verbatim>\<open>Math.max\<close> of any number of arguments.\<close>

fun jmaxs :: "jsnum list \<Rightarrow> jsnum" where
  "jmaxs [] = NegInf"
| "jmaxs (x # xs) = jmax x (jmaxs xs)"

section \<open>Herding\<close>

record HerdingAssessment =
  ha_known :: bool
  ha_pairCount :: nat
  ha_meanCorrelation :: jsnum
  ha_edgeDensity :: jsnum

definition last_n :: "nat \<Rightarrow> 'a list \<Rightarrow> 'a list" where
  "last_n n xs = drop (length xs - n) xs"

definition pearson_sums :: "jsnum \<Rightarrow> jsnum \<Rightarrow> (jsnum \<times> jsnum) list \<Rightarrow> jsnum \<times> jsnum \<times> jsnum" where
  "pearson_sums ma mb points =
     foldl (\<lambda>(cov, va, vb) (x, y).
         let da = jsub x ma; db = jsub y mb
         in (jadd cov (jmul da db), jadd va (jmul da da), jadd vb (jmul db db)))
       (Fin 0, Fin 0, Fin 0) points"

definition pearson :: "(jsnum \<Rightarrow> jsnum) \<Rightarrow> jsnum list \<Rightarrow> jsnum list \<Rightarrow> jsnum option" where
  "pearson sqrtf a b =
     (let n = min (length a) (length b)
      in if n < 2 then None
         else
           let ma = jdiv (jsum (last_n n a)) (jnat n);
               mb = jdiv (jsum (last_n n b)) (jnat n);
               (cov, va, vb) = pearson_sums ma mb (zip (last_n n a) (last_n n b))
           in if jle va (Fin 0) \<or> jle vb (Fin 0) then None
              else
                let denom = sqrtf (jmul va vb)
                in if jle denom (Fin 0) then None else Some (jdiv cov denom))"

record HerdingOptions =
  ho_minPoints :: "jsnum option"
  ho_minPairs :: "jsnum option"
  ho_maxPools :: "jsnum option"

fun collect_series :: "jsnum \<Rightarrow> jsnum \<Rightarrow> jsnum list list \<Rightarrow> jsnum list list \<Rightarrow> jsnum list list" where
  "collect_series minPoints maxPools usable [] = usable"
| "collect_series minPoints maxPools usable (s # rest) =
     (let usable' = (if jge (jnat (length s)) minPoints then usable @ [s] else usable)
      in if jge (jnat (length usable')) maxPools then usable'
         else collect_series minPoints maxPools usable' rest)"

definition collectUsableSeries :: "(string \<times> jsnum list) list \<Rightarrow> jsnum \<Rightarrow> jsnum \<Rightarrow> jsnum list list" where
  "collectUsableSeries seriesByPool minPoints maxPools =
     collect_series minPoints maxPools [] (map snd seriesByPool)"

record HerdingPairTotals =
  hpt_sum :: jsnum
  hpt_count :: nat
  hpt_edges :: nat

definition add_pair :: "HerdingPairTotals \<Rightarrow> jsnum option \<Rightarrow> HerdingPairTotals" where
  "add_pair t r =
     (case r of
        None \<Rightarrow> t
      | Some c \<Rightarrow> \<lparr>hpt_sum = jadd (hpt_sum t) c, hpt_count = hpt_count t + 1,
           hpt_edges = (if jgt c (Fin (1 / 2)) then hpt_edges t + 1 else hpt_edges t)\<rparr>)"

fun score_pairs :: "(jsnum \<Rightarrow> jsnum) \<Rightarrow> HerdingPairTotals \<Rightarrow> jsnum list list \<Rightarrow> HerdingPairTotals" where
  "score_pairs sqrtf t [] = t"
| "score_pairs sqrtf t (s # rest) =
     score_pairs sqrtf (foldl (\<lambda>t u. add_pair t (pearson sqrtf s u)) t rest) rest"

definition scoreHerdingPairs :: "(jsnum \<Rightarrow> jsnum) \<Rightarrow> jsnum list list \<Rightarrow> HerdingPairTotals" where
  "scoreHerdingPairs sqrtf usable =
     score_pairs sqrtf \<lparr>hpt_sum = Fin 0, hpt_count = 0, hpt_edges = 0\<rparr> usable"

definition buildHerdingAssessment :: "HerdingPairTotals \<Rightarrow> jsnum \<Rightarrow> HerdingAssessment" where
  "buildHerdingAssessment t minPairs =
     (if jlt (jnat (hpt_count t)) minPairs
      then \<lparr>ha_known = False, ha_pairCount = hpt_count t, ha_meanCorrelation = Fin 0,
            ha_edgeDensity = Fin 0\<rparr>
      else \<lparr>ha_known = True, ha_pairCount = hpt_count t,
            ha_meanCorrelation = jdiv (hpt_sum t) (jnat (hpt_count t)),
            ha_edgeDensity = jdiv (jnat (hpt_edges t)) (jnat (hpt_count t))\<rparr>)"

definition assessHerding ::
  "(jsnum \<Rightarrow> jsnum) \<Rightarrow> (string \<times> jsnum list) list \<Rightarrow> HerdingOptions \<Rightarrow> HerdingAssessment" where
  "assessHerding sqrtf seriesByPool opts =
     (let usable = collectUsableSeries seriesByPool (nullish (ho_minPoints opts) (Fin 12))
            (nullish (ho_maxPools opts) (Fin 64))
      in buildHerdingAssessment (scoreHerdingPairs sqrtf usable) (nullish (ho_minPairs opts) (Fin 6)))"

definition herdingBlocksEntry :: "HerdingAssessment \<Rightarrow> jsnum option \<Rightarrow> jsnum option \<Rightarrow> bool" where
  "herdingBlocksEntry assessment edgeDensityThreshold meanCorrThreshold \<longleftrightarrow>
     ha_known assessment \<and>
     (jge (ha_edgeDensity assessment) (nullish edgeDensityThreshold (fl (8 / 10))) \<or>
      jge (ha_meanCorrelation assessment) (nullish meanCorrThreshold (fl (6 / 10))))"

section \<open>Yield spikes\<close>

definition percentileRank :: "jsnum list \<Rightarrow> jsnum \<Rightarrow> jsnum" where
  "percentileRank samples value =
     (if samples = [] then Fin (1 / 2)
      else jdiv (jnat (length (filter (\<lambda>s. jlt s value) samples))) (jnat (length samples)))"

definition sort_numbers :: "jsnum list \<Rightarrow> jsnum list" where
  "sort_numbers xs = sort_before (\<lambda>x y. jlt (jsub x y) (Fin 0)) xs"

definition median_of :: "jsnum list \<Rightarrow> jsnum" where
  "median_of samples =
     (let sorted = sort_numbers samples; mid = length sorted div 2
      in if length sorted mod 2 = 1 then sorted ! mid
         else jdiv (jadd (sorted ! (mid - 1)) (sorted ! mid)) (Fin 2))"

definition DEFAULT_APR_OUTLIER_PERCENTILE :: jsnum where
  "DEFAULT_APR_OUTLIER_PERCENTILE = fl (98 / 100)"

definition DEFAULT_APR_OUTLIER_MIN_SPIKE_RATIO :: jsnum where
  "DEFAULT_APR_OUTLIER_MIN_SPIKE_RATIO = Fin 2"

record AprOutlierParams =
  aop_priorAprs :: "jsnum list"
  aop_currentApr :: jsnum
  aop_outlierPercentile :: "jsnum option"
  aop_minSpikeRatio :: "jsnum option"

definition isAprSelfOutlier :: "AprOutlierParams \<Rightarrow> bool" where
  "isAprSelfOutlier params =
     (let pct = nullish (aop_outlierPercentile params) DEFAULT_APR_OUTLIER_PERCENTILE;
          prior = filter is_finite (aop_priorAprs params)
      in if jle pct (Fin 0) then False
         else if \<not> is_finite (aop_currentApr params) then False
         else if length prior < 3 then False
         else
           let med = median_of prior
           in if jle med (Fin 0) then jgt (aop_currentApr params) (Fin 0)
              else
                let ratio = nullish (aop_minSpikeRatio params) DEFAULT_APR_OUTLIER_MIN_SPIKE_RATIO
                in jge (percentileRank prior (aop_currentApr params)) pct \<and>
                   jge (aop_currentApr params) (jmul med ratio))"

section \<open>The market-runner lane\<close>

definition DEFAULT_RUNNER_MIN_FEE_APR :: jsnum where
  "DEFAULT_RUNNER_MIN_FEE_APR = Fin 500"

definition DEFAULT_ROTATION_APR_MULT :: jsnum where
  "DEFAULT_ROTATION_APR_MULT = Fin 5"

definition DEFAULT_RUNNER_MIN_DRIFT_BINS :: jsnum where
  "DEFAULT_RUNNER_MIN_DRIFT_BINS = Fin (- 8)"

definition passesRunnerDriftFloor :: "jsnum option \<Rightarrow> jsnum option \<Rightarrow> bool" where
  "passesRunnerDriftFloor netDriftBins runnerMinDriftBins =
     (case netDriftBins of
        None \<Rightarrow> True
      | Some drift \<Rightarrow> if \<not> is_finite drift then True
          else jge drift (nullish runnerMinDriftBins DEFAULT_RUNNER_MIN_DRIFT_BINS))"

record MarketRunnerParams =
  mrp_enabled :: bool
  mrp_marketScanPools :: "string list"
  mrp_poolAddress :: string
  mrp_statsSource :: "StatsSource option"
  mrp_feeAprPct :: jsnum
  mrp_runnerMinFeeApr :: "jsnum option"
  mrp_netDriftBins :: "jsnum option"
  mrp_runnerMinDriftBins :: "jsnum option"

definition isMarketRunnerPool :: "MarketRunnerParams \<Rightarrow> bool" where
  "isMarketRunnerPool params =
     (if \<not> mrp_enabled params then False
      else if mrp_poolAddress params \<notin> set (mrp_marketScanPools params) then False
      else if mrp_statsSource params \<noteq> Some Datapi then False
      else if \<not> is_finite (mrp_feeAprPct params) \<or> jle (mrp_feeAprPct params) (Fin 0) then False
      else if jlt (mrp_feeAprPct params) (nullish (mrp_runnerMinFeeApr params) DEFAULT_RUNNER_MIN_FEE_APR)
      then False
      else passesRunnerDriftFloor (mrp_netDriftBins params) (mrp_runnerMinDriftBins params))"

record HeldPositionApr =
  hpa_positionId :: string
  hpa_poolAddress :: string
  hpa_feeAprPct :: jsnum
  hpa_tvlUsd :: jsnum

record RotationTargetFilter =
  rtf_minAgeMs :: "jsnum option"
  rtf_nowMs :: "jsnum option"
  rtf_selectionScore :: "(string \<Rightarrow> jsnum option) option"

record RotationPosition =
  rop_positionId :: string
  rop_poolAddress :: string
  rop_openedAt :: "jsnum option"

record PoolApr =
  pap_feeAprPct :: jsnum
  pap_tvlUsd :: jsnum
  pap_measured :: "bool option"

definition resolveRotationNowMs :: "jsnum \<Rightarrow> jsnum option \<Rightarrow> jsnum" where
  "resolveRotationNowMs clock nowMs = nullish nowMs clock"

definition rotationPositionSkipped ::
  "string \<Rightarrow> jsnum option \<Rightarrow> string option \<Rightarrow> jsnum \<Rightarrow> jsnum option \<Rightarrow> bool" where
  "rotationPositionSkipped poolAddress openedAt excludePoolAddress nowMs minAgeMs =
     (if Some poolAddress = excludePoolAddress then True
      else case minAgeMs of
        None \<Rightarrow> False
      | Some age \<Rightarrow> if jle age (Fin 0) then False
          else jlt (jsub nowMs (nullish openedAt (Fin 0))) age)"

definition rotationCandidateApr :: "jsnum \<Rightarrow> jsnum option" where
  "rotationCandidateApr apr =
     (if \<not> is_finite apr \<or> jle apr (Fin 0) then None else Some apr)"

definition selectedRotationApr :: "jsnum \<Rightarrow> string \<Rightarrow> (string \<Rightarrow> jsnum option) option \<Rightarrow> jsnum option" where
  "selectedRotationApr grossApr positionId selectionScores =
     (case selectionScores of
        None \<Rightarrow> Some grossApr
      | Some scores \<Rightarrow>
          (case scores positionId of
             None \<Rightarrow> None
           | Some selected \<Rightarrow>
               if is_finite selected \<and> jge selected (Fin 0) then Some selected else None))"

definition rotationCandidateForPosition ::
  "(string \<Rightarrow> PoolApr option) \<Rightarrow> string option \<Rightarrow> jsnum \<Rightarrow> jsnum option
   \<Rightarrow> (string \<Rightarrow> jsnum option) option \<Rightarrow> RotationPosition \<Rightarrow> HeldPositionApr option" where
  "rotationCandidateForPosition poolAprByAddress excludePoolAddress nowMs minAgeMs selectionScores pos =
     (if rotationPositionSkipped (rop_poolAddress pos) (rop_openedAt pos) excludePoolAddress nowMs minAgeMs
      then None
      else case poolAprByAddress (rop_poolAddress pos) of
        None \<Rightarrow> None
      | Some entry \<Rightarrow>
          if pap_measured entry = Some False then None
          else case rotationCandidateApr (pap_feeAprPct entry) of
            None \<Rightarrow> None
          | Some grossApr \<Rightarrow>
              (case selectedRotationApr grossApr (rop_positionId pos) selectionScores of
                 None \<Rightarrow> None
               | Some apr \<Rightarrow> Some \<lparr>hpa_positionId = rop_positionId pos,
                   hpa_poolAddress = rop_poolAddress pos, hpa_feeAprPct = apr,
                   hpa_tvlUsd = pap_tvlUsd entry\<rparr>))"

definition isLowerRotationApr :: "HeldPositionApr \<Rightarrow> HeldPositionApr option \<Rightarrow> bool" where
  "isLowerRotationApr candidate worst =
     (case worst of None \<Rightarrow> True | Some w \<Rightarrow> jlt (hpa_feeAprPct candidate) (hpa_feeAprPct w))"

definition keep_worst :: "HeldPositionApr option \<Rightarrow> HeldPositionApr option \<Rightarrow> HeldPositionApr option" where
  "keep_worst worst candidate =
     (case candidate of
        None \<Rightarrow> worst
      | Some c \<Rightarrow> if isLowerRotationApr c worst then Some c else worst)"

definition lowestAprHeldPosition ::
  "jsnum \<Rightarrow> RotationPosition list \<Rightarrow> (string \<Rightarrow> PoolApr option) \<Rightarrow> string option
   \<Rightarrow> RotationTargetFilter \<Rightarrow> HeldPositionApr option" where
  "lowestAprHeldPosition clock positions poolAprByAddress excludePoolAddress filters =
     foldl (\<lambda>worst pos. keep_worst worst
         (rotationCandidateForPosition poolAprByAddress excludePoolAddress
           (resolveRotationNowMs clock (rtf_nowMs filters)) (rtf_minAgeMs filters)
           (rtf_selectionScore filters) pos)) None positions"

definition isPositiveFiniteApr :: "jsnum \<Rightarrow> bool" where
  "isPositiveFiniteApr apr \<longleftrightarrow> is_finite apr \<and> jgt apr (Fin 0)"

definition isNonNegativeFiniteApr :: "jsnum \<Rightarrow> bool" where
  "isNonNegativeFiniteApr apr \<longleftrightarrow> is_finite apr \<and> jge apr (Fin 0)"

definition isValidRotationMultiplier :: "jsnum \<Rightarrow> bool" where
  "isValidRotationMultiplier multiplier \<longleftrightarrow> is_finite multiplier \<and> jge multiplier (Fin 1)"

definition shouldRotate :: "jsnum \<Rightarrow> HeldPositionApr option \<Rightarrow> jsnum option \<Rightarrow> bool" where
  "shouldRotate candidateAprPct worst aprMult =
     (case worst of
        None \<Rightarrow> False
      | Some w \<Rightarrow>
          if \<not> isPositiveFiniteApr candidateAprPct then False
          else if \<not> isNonNegativeFiniteApr (hpa_feeAprPct w) then False
          else
            let multiplier = nullish aprMult DEFAULT_ROTATION_APR_MULT
            in if \<not> isValidRotationMultiplier multiplier then False
               else jgt candidateAprPct (hpa_feeAprPct w) \<and>
                    jge candidateAprPct (jmul (hpa_feeAprPct w) multiplier))"

fun consecutiveAboveFloorObservations ::
  "(jsnum \<times> jsnum) list \<Rightarrow> jsnum \<Rightarrow> jsnum \<Rightarrow> jsnum \<Rightarrow> nat" where
  "consecutiveAboveFloorObservations [] floorApr now maxGapMs = 0"
| "consecutiveAboveFloorObservations ((obs_at, apr) # rest) floorApr now maxGapMs =
     (if jgt (jsub now obs_at) maxGapMs then 0
      else if jlt apr floorApr then 0
      else consecutiveAboveFloorObservations rest floorApr now maxGapMs + 1)"

section \<open>Herding never blocks without evidence\<close>

definition pair_totals_ok :: "HerdingPairTotals \<Rightarrow> bool" where
  "pair_totals_ok t \<longleftrightarrow> hpt_edges t \<le> hpt_count t"

lemma add_pair_ok: "pair_totals_ok t \<Longrightarrow> pair_totals_ok (add_pair t r)"
  by (auto simp: pair_totals_ok_def add_pair_def split: option.splits)

lemma fold_pairs_ok: "pair_totals_ok t \<Longrightarrow> pair_totals_ok (foldl (\<lambda>t u. add_pair t (f u)) t us)"
  by (induction us arbitrary: t) (simp_all add: add_pair_ok)

lemma score_pairs_ok: "pair_totals_ok t \<Longrightarrow> pair_totals_ok (score_pairs sqrtf t us)"
  by (induction sqrtf t us rule: score_pairs.induct) (simp_all add: fold_pairs_ok)

lemma add_pair_count: "hpt_count (add_pair t r) \<le> hpt_count t + 1"
  by (simp add: add_pair_def split: option.split)

lemma fold_pairs_count: "hpt_count (foldl (\<lambda>t u. add_pair t (f u)) t us) \<le> hpt_count t + length us"
proof (induction us arbitrary: t)
  case (Cons u us)
  show ?case using Cons.IH [of "add_pair t (f u)"] add_pair_count [of t "f u"] by simp
qed simp

lemma score_pairs_count:
  "hpt_count (score_pairs sqrtf t us) \<le> hpt_count t + length us * (length us - 1) div 2"
proof (induction sqrtf t us rule: score_pairs.induct)
  case (2 sqrtf t s rest)
  let ?n = "length rest"
  have "(?n + 1) * ?n div 2 = ?n + ?n * (?n - 1) div 2"
    by (cases ?n) (simp_all add: algebra_simps)
  then show ?case
    using 2 fold_pairs_count [of "pearson sqrtf s" t rest] by (simp add: algebra_simps)
qed simp

lemma collect_series_long:
  assumes "\<forall>s \<in> set usable. jge (jnat (length s)) minPoints"
  shows "\<forall>s \<in> set (collect_series minPoints maxPools usable ss). jge (jnat (length s)) minPoints"
  using assms
proof (induction ss arbitrary: usable)
  case (Cons s rest)
  define usable' where "usable' = (if jge (jnat (length s)) minPoints then usable @ [s] else usable)"
  have ok: "\<forall>s \<in> set usable'. jge (jnat (length s)) minPoints"
    using Cons.prems by (auto simp: usable'_def)
  have "collect_series minPoints maxPools usable (s # rest) =
      (if jge (jnat (length usable')) maxPools then usable' else collect_series minPoints maxPools usable' rest)"
    by (simp only: collect_series.simps Let_def usable'_def)
  then show ?case using ok Cons.IH [OF ok] by metis
qed simp

lemma edge_density_unit:
  assumes "e \<le> n" "0 < n"
  shows "jle (Fin 0) (jdiv (jnat e) (jnat n)) \<and> jle (jdiv (jnat e) (jnat n)) (Fin 1)"
  using assms jdiv_le_1 [of "jnat e" "jnat n"] jdiv_nonneg [of "jnat e" "jnat n"]
    jdiv_finite_pos_not_NaN [of "jnat n" "jnat e"] by (simp add: jnat_def)

text \<open>A block rests on enough pairs of long enough series, and on a density that is a fraction.\<close>

lemma herding_block_has_evidence:
  assumes "herdingBlocksEntry (assessHerding sqrtf seriesByPool opts) edgeThreshold meanThreshold"
  defines "usable \<equiv> collectUsableSeries seriesByPool (nullish (ho_minPoints opts) (Fin 12))
    (nullish (ho_maxPools opts) (Fin 64))"
  defines "n \<equiv> hpt_count (scoreHerdingPairs sqrtf usable)"
  shows "\<not> jlt (jnat n) (nullish (ho_minPairs opts) (Fin 6))"
    and "n \<le> length usable * (length usable - 1) div 2"
    and "\<forall>s \<in> set usable. jge (jnat (length s)) (nullish (ho_minPoints opts) (Fin 12))"
    and "0 < n \<Longrightarrow> jle (Fin 0) (ha_edgeDensity (assessHerding sqrtf seriesByPool opts)) \<and>
      jle (ha_edgeDensity (assessHerding sqrtf seriesByPool opts)) (Fin 1)"
proof -
  have t: "pair_totals_ok (scoreHerdingPairs sqrtf usable)"
    unfolding scoreHerdingPairs_def by (rule score_pairs_ok) (simp add: pair_totals_ok_def)
  show known: "\<not> jlt (jnat n) (nullish (ho_minPairs opts) (Fin 6))"
    using assms(1) by (auto simp: n_def usable_def herdingBlocksEntry_def assessHerding_def
        buildHerdingAssessment_def Let_def split: if_splits)
  show "n \<le> length usable * (length usable - 1) div 2"
    using score_pairs_count [of sqrtf "\<lparr>hpt_sum = Fin 0, hpt_count = 0, hpt_edges = 0\<rparr>" usable]
    by (simp add: n_def scoreHerdingPairs_def)
  show "\<forall>s \<in> set usable. jge (jnat (length s)) (nullish (ho_minPoints opts) (Fin 12))"
    unfolding usable_def collectUsableSeries_def by (rule collect_series_long) simp
  show "jle (Fin 0) (ha_edgeDensity (assessHerding sqrtf seriesByPool opts)) \<and>
      jle (ha_edgeDensity (assessHerding sqrtf seriesByPool opts)) (Fin 1)" if "0 < n"
    using edge_density_unit [of "hpt_edges (scoreHerdingPairs sqrtf usable)" n] t that known
    by (simp add: n_def usable_def pair_totals_ok_def assessHerding_def buildHerdingAssessment_def Let_def)
qed

section \<open>Rotation\<close>

text \<open>The candidates of a rotation, in the order of the positions.\<close>

definition rotationCandidates ::
  "jsnum \<Rightarrow> RotationPosition list \<Rightarrow> (string \<Rightarrow> PoolApr option) \<Rightarrow> string option
   \<Rightarrow> RotationTargetFilter \<Rightarrow> HeldPositionApr list" where
  "rotationCandidates clock positions poolAprByAddress excludePoolAddress filters =
     List.map_filter (rotationCandidateForPosition poolAprByAddress excludePoolAddress
       (resolveRotationNowMs clock (rtf_nowMs filters)) (rtf_minAgeMs filters)
       (rtf_selectionScore filters)) positions"

lemma keep_worst_fold:
  "foldl (\<lambda>w pos. keep_worst w (f pos)) w ps = foldl (\<lambda>w c. keep_worst w (Some c)) w (List.map_filter f ps)"
proof (induction ps arbitrary: w)
  case (Cons p ps)
  then show ?case by (cases "f p") (simp_all add: keep_worst_def map_filter_simps)
qed (simp add: map_filter_simps)

lemma keep_worst_least:
  assumes "\<forall>c \<in> set cs. is_finite (hpa_feeAprPct c)"
  shows "foldl (\<lambda>w c. keep_worst w (Some c)) (Some w0) cs = Some w \<Longrightarrow> is_finite (hpa_feeAprPct w0) \<Longrightarrow>
    w \<in> set (w0 # cs) \<and> (\<forall>c \<in> set (w0 # cs). jle (hpa_feeAprPct w) (hpa_feeAprPct c))"
  using assms
proof (induction cs arbitrary: w0)
  case (Cons c cs)
  show ?case
  proof (cases "jlt (hpa_feeAprPct c) (hpa_feeAprPct w0)")
    case True
    then have "foldl (\<lambda>w c. keep_worst w (Some c)) (Some c) cs = Some w"
      using Cons.prems(1) by (simp add: keep_worst_def isLowerRotationApr_def)
    from Cons.IH [OF this] show ?thesis
      using Cons.prems(2,3) True jle_trans [OF _ jlt_imp_jle [OF True]] by auto
  next
    case False
    then have le: "jle (hpa_feeAprPct w0) (hpa_feeAprPct c)"
      using Cons.prems(2,3) by (auto simp: is_finite_iff)
    have "foldl (\<lambda>w c. keep_worst w (Some c)) (Some w0) cs = Some w"
      using Cons.prems(1) False by (simp add: keep_worst_def isLowerRotationApr_def)
    from Cons.IH [OF this] have "w \<in> set (w0 # cs)"
        "\<forall>x \<in> set (w0 # cs). jle (hpa_feeAprPct w) (hpa_feeAprPct x)"
      using Cons.prems(2,3) by auto
    then show ?thesis
      using Cons.prems(2) jle_trans [OF _ le, of "hpa_feeAprPct w"] by auto
  qed
qed (auto simp: is_finite_iff)

lemma lowestAprHeldPosition_candidates:
  "lowestAprHeldPosition clock positions aprs excl filters =
     foldl (\<lambda>w c. keep_worst w (Some c)) None (rotationCandidates clock positions aprs excl filters)"
  unfolding lowestAprHeldPosition_def rotationCandidates_def by (rule keep_worst_fold)

lemma rotationCandidateE:
  assumes "rotationCandidateForPosition aprs excl now minAge scores pos = Some c"
  obtains entry where "aprs (rop_poolAddress pos) = Some entry" "pap_measured entry \<noteq> Some False"
    "\<not> rotationPositionSkipped (rop_poolAddress pos) (rop_openedAt pos) excl now minAge"
    "hpa_positionId c = rop_positionId pos" "hpa_poolAddress c = rop_poolAddress pos"
    "is_finite (hpa_feeAprPct c)" "jle (Fin 0) (hpa_feeAprPct c)"
  using assms
  by (auto simp: rotationCandidateForPosition_def rotationCandidateApr_def selectedRotationApr_def
      not_jle_iff jlt_imp_jle split: if_splits option.splits)

lemma rotationCandidates_finite:
  "\<forall>c \<in> set (rotationCandidates clock positions aprs excl filters). is_finite (hpa_feeAprPct c)"
  unfolding rotationCandidates_def map_filter_def
  by (auto elim: rotationCandidateE)

text \<open>The selection is the least candidate: no candidate is left out, none has a lower APR.\<close>

lemma lowest_is_least:
  "lowestAprHeldPosition clock positions aprs excl filters = Some w \<Longrightarrow>
     w \<in> set (rotationCandidates clock positions aprs excl filters) \<and>
     (\<forall>c \<in> set (rotationCandidates clock positions aprs excl filters).
        jle (hpa_feeAprPct w) (hpa_feeAprPct c))"
  unfolding lowestAprHeldPosition_candidates
  using rotationCandidates_finite [of clock positions aprs excl filters]
    keep_worst_least [of "tl (rotationCandidates clock positions aprs excl filters)"
      "hd (rotationCandidates clock positions aprs excl filters)" w]
  by (cases "rotationCandidates clock positions aprs excl filters")
    (simp_all add: keep_worst_def isLowerRotationApr_def)

text \<open>
  C21. A rotation closes the worst eligible position for a better pool: the incumbent is a held
  position of another pool that is old enough and measured, no eligible position earns less, and
  the candidate pays strictly more than it and at least its APR times the multiplier, which is at
  least one.
\<close>
theorem rotation_replaces_the_worst:
  assumes worst: "lowestAprHeldPosition clock positions aprs excl filters = Some w"
    and rotate: "shouldRotate candidate (Some w) aprMult"
  shows "(\<exists>pos \<in> set positions. rop_positionId pos = hpa_positionId w \<and>
        rop_poolAddress pos = hpa_poolAddress w \<and> Some (rop_poolAddress pos) \<noteq> excl \<and>
        (\<forall>age. rtf_minAgeMs filters = Some age \<longrightarrow> jgt age (Fin 0) \<longrightarrow>
           \<not> jlt (jsub (resolveRotationNowMs clock (rtf_nowMs filters))
             (nullish (rop_openedAt pos) (Fin 0))) age) \<and>
        (\<exists>entry. aprs (rop_poolAddress pos) = Some entry \<and> pap_measured entry \<noteq> Some False)) \<and>
     (\<forall>c \<in> set (rotationCandidates clock positions aprs excl filters).
        jle (hpa_feeAprPct w) (hpa_feeAprPct c)) \<and>
     jgt candidate (hpa_feeAprPct w) \<and>
     jge candidate (jmul (hpa_feeAprPct w) (nullish aprMult DEFAULT_ROTATION_APR_MULT)) \<and>
     jge (nullish aprMult DEFAULT_ROTATION_APR_MULT) (Fin 1)"
proof -
  let ?now = "resolveRotationNowMs clock (rtf_nowMs filters)"
  note least = lowest_is_least [OF worst]
  then obtain pos where pos: "pos \<in> set positions" "rotationCandidateForPosition aprs excl ?now
      (rtf_minAgeMs filters) (rtf_selectionScore filters) pos = Some w"
    by (auto simp: rotationCandidates_def map_filter_def)
  from pos(2) obtain entry where e: "aprs (rop_poolAddress pos) = Some entry" "pap_measured entry \<noteq> Some False"
      "\<not> rotationPositionSkipped (rop_poolAddress pos) (rop_openedAt pos) excl ?now (rtf_minAgeMs filters)"
      "hpa_positionId w = rop_positionId pos" "hpa_poolAddress w = rop_poolAddress pos"
    by (rule rotationCandidateE)
  have held: "Some (rop_poolAddress pos) \<noteq> excl"
      "\<forall>age. rtf_minAgeMs filters = Some age \<longrightarrow> jgt age (Fin 0) \<longrightarrow>
         \<not> jlt (jsub ?now (nullish (rop_openedAt pos) (Fin 0))) age"
    using e(3) jlt_asym by (auto simp: rotationPositionSkipped_def split: if_splits)
  have "jgt candidate (hpa_feeAprPct w)"
      "jge candidate (jmul (hpa_feeAprPct w) (nullish aprMult DEFAULT_ROTATION_APR_MULT))"
      "jge (nullish aprMult DEFAULT_ROTATION_APR_MULT) (Fin 1)"
    using rotate by (auto simp: shouldRotate_def isValidRotationMultiplier_def Let_def split: if_splits)
  then show ?thesis using pos(1) e held least by auto
qed

definition sampleHeld :: "RotationPosition list" where
  "sampleHeld = [\<lparr>rop_positionId = ''p1'', rop_poolAddress = ''A'', rop_openedAt = Some (Fin 0)\<rparr>,
     \<lparr>rop_positionId = ''p2'', rop_poolAddress = ''B'', rop_openedAt = Some (Fin 0)\<rparr>,
     \<lparr>rop_positionId = ''p3'', rop_poolAddress = ''C'', rop_openedAt = Some (Fin 900)\<rparr>]"

definition sampleAprs :: "string \<Rightarrow> PoolApr option" where
  "sampleAprs a = Some \<lparr>pap_feeAprPct = Fin (if a = ''A'' then 300 else 100), pap_tvlUsd = Fin 5000,
     pap_measured = Some True\<rparr>"

definition sampleFilter :: RotationTargetFilter where
  "sampleFilter = \<lparr>rtf_minAgeMs = Some (Fin 500), rtf_nowMs = Some (Fin 1000), rtf_selectionScore = None\<rparr>"

lemma sample_lowest:
  "lowestAprHeldPosition (Fin 0) sampleHeld sampleAprs (Some ''D'') sampleFilter =
     Some \<lparr>hpa_positionId = ''p2'', hpa_poolAddress = ''B'', hpa_feeAprPct = Fin 100, hpa_tvlUsd = Fin 5000\<rparr>"
  by (simp add: lowestAprHeldPosition_def sampleHeld_def sampleAprs_def sampleFilter_def keep_worst_def
      isLowerRotationApr_def rotationCandidateForPosition_def rotationPositionSkipped_def
      rotationCandidateApr_def selectedRotationApr_def resolveRotationNowMs_def jsub_def num_simps)

theorem rotation_witness:
  "jgt (Fin 600) (Fin 100) \<and> jge (Fin 600) (jmul (Fin 100) (nullish None DEFAULT_ROTATION_APR_MULT))"
proof -
  have "shouldRotate (Fin 600) (Some \<lparr>hpa_positionId = ''p2'', hpa_poolAddress = ''B'',
      hpa_feeAprPct = Fin 100, hpa_tvlUsd = Fin 5000\<rparr>) None"
    by (simp add: shouldRotate_def isPositiveFiniteApr_def isNonNegativeFiniteApr_def
        isValidRotationMultiplier_def DEFAULT_ROTATION_APR_MULT_def Let_def num_simps)
  from rotation_replaces_the_worst [OF sample_lowest this] show ?thesis by simp
qed

end
