(* ===== verification/NumberText.thy ===== *)
theory NumberText
  imports JsArith
begin

text \<open>
  Numbers as text: \<^verbatim>\<open>Number.prototype.toFixed\<close>, the decimal digits of a \<^verbatim>\<open>bigint\<close> and the reading
  of such digits by \<^verbatim>\<open>BigInt\<close>.  The text of a number of 10 ^ 21 or more is a parameter.
\<close>

section \<open>Number.prototype.toFixed\<close>

definition digit_char :: "nat \<Rightarrow> char" where
  "digit_char d = char_of (48 + d)"

fun nat_text :: "nat \<Rightarrow> string" where
  "nat_text n = (if n < 10 then [digit_char n] else nat_text (n div 10) @ [digit_char (n mod 10)])"

declare nat_text.simps [simp del]

definition place_point :: "nat \<Rightarrow> string \<Rightarrow> string" where
  "place_point f digits =
     (if f = 0 then digits
      else
        let padded = replicate (f + 1 - length digits) (CHR ''0'') @ digits; k = length padded - f
        in take k padded @ CHR ''.'' # drop k padded)"

definition toFixed :: "(jsnum \<Rightarrow> string) \<Rightarrow> jsnum \<Rightarrow> nat \<Rightarrow> string" where
  "toFixed numText x f =
     (case x of
        NaN \<Rightarrow> ''NaN''
      | PosInf \<Rightarrow> ''Infinity''
      | NegInf \<Rightarrow> ''-Infinity''
      | Fin r \<Rightarrow>
          if 10 ^ 21 \<le> \<bar>r\<bar> then numText x
          else (if r < 0 then ''-'' else '''') @
               place_point f (nat_text (nat \<lfloor>\<bar>r\<bar> * 10 ^ f + 1 / 2\<rfloor>)))"

section \<open>Reading digits\<close>

definition digit_value :: "char \<Rightarrow> nat option" where
  "digit_value c = (let n = of_char c :: nat in if 48 \<le> n \<and> n \<le> 57 then Some (n - 48) else None)"

fun read_digits :: "nat \<Rightarrow> string \<Rightarrow> nat option" where
  "read_digits acc [] = Some acc"
| "read_digits acc (c # cs) =
     (case digit_value c of None \<Rightarrow> None | Some d \<Rightarrow> read_digits (10 * acc + d) cs)"

text \<open>
  \<^verbatim>\<open>BigInt(text)\<close> for the texts this program builds: an optional minus sign and decimal digits.
  None is the exception of a text that is no integer.
\<close>

definition read_bigint :: "string \<Rightarrow> int option" where
  "read_bigint s =
     (let negative = (s \<noteq> [] \<and> hd s = CHR ''-''); body = (if negative then tl s else s)
      in if body = [] then None
         else map_option (\<lambda>n. if negative then - int n else int n) (read_digits 0 body))"

text \<open>\<^verbatim>\<open>bigint\<close> division and remainder truncate towards zero.\<close>

definition bigint_div :: "int \<Rightarrow> int \<Rightarrow> int" where
  "bigint_div a b = sgn a * sgn b * (\<bar>a\<bar> div \<bar>b\<bar>)"

definition bigint_rem :: "int \<Rightarrow> int \<Rightarrow> int" where
  "bigint_rem a b = a - b * bigint_div a b"

definition bigint_text :: "int \<Rightarrow> string" where
  "bigint_text n = (if n < 0 then ''-'' else '''') @ nat_text (nat \<bar>n\<bar>)"

lemma bigint_div_nonneg: "0 \<le> a \<Longrightarrow> 0 < b \<Longrightarrow> bigint_div a b = a div b"
  by (cases "a = 0") (simp_all add: bigint_div_def)

lemma bigint_rem_nonneg: "0 \<le> a \<Longrightarrow> 0 < b \<Longrightarrow> bigint_rem a b = a mod b"
  by (simp add: bigint_rem_def bigint_div_nonneg minus_mult_div_eq_mod)

text \<open>The rounded-up quotient, written in the source with a remainder test.\<close>

definition ceil_div :: "int \<Rightarrow> int \<Rightarrow> int" where
  "ceil_div a b = (if bigint_rem a b = 0 then bigint_div a b else bigint_div a b + 1)"

lemma ceil_div_bounds:
  assumes "0 \<le> a" "0 < b"
  shows "a \<le> ceil_div a b * b" and "ceil_div a b * b < a + b"
proof -
  define q r where "q = a div b" and "r = a mod b"
  have e: "a = b * q + r" "0 \<le> r" "r < b" using assms by (simp_all add: q_def r_def)
  have "ceil_div a b = (if r = 0 then q else q + 1)"
    using assms by (simp add: ceil_div_def bigint_div_nonneg bigint_rem_nonneg q_def r_def)
  then show "a \<le> ceil_div a b * b" "ceil_div a b * b < a + b"
    using e assms(2) by (auto simp: algebra_simps)
qed

section \<open>Round trips\<close>

lemma digit_value_char: "d < 10 \<Longrightarrow> digit_value (digit_char d) = Some d"
  by (simp add: digit_value_def digit_char_def)

lemma digit_char_not: "d < 10 \<Longrightarrow> digit_char d \<noteq> CHR ''.'' \<and> digit_char d \<noteq> CHR ''-''"
  using digit_value_char [of d] by (auto simp: digit_value_def)

lemma read_digits_append:
  "read_digits acc (xs @ ys) = (case read_digits acc xs of None \<Rightarrow> None | Some a \<Rightarrow> read_digits a ys)"
  by (induction xs arbitrary: acc) (auto split: option.split)

lemma read_nat_text: "read_digits acc (nat_text n) = Some (acc * 10 ^ length (nat_text n) + n)"
proof (induction n arbitrary: acc rule: nat_text.induct)
  case (1 n)
  show ?case
  proof (cases "n < 10")
    case True
    then show ?thesis by (simp add: nat_text.simps [of n] digit_value_char)
  next
    case False
    have "10 * (acc * 10 ^ length (nat_text (n div 10)) + n div 10) + n mod 10 =
        acc * 10 ^ (length (nat_text (n div 10)) + 1) + n"
      by (simp add: algebra_simps)
    then show ?thesis
      using False 1 [OF False] by (simp add: nat_text.simps [of n] read_digits_append digit_value_char)
  qed
qed

lemma nat_text_chars: "c \<in> set (nat_text n) \<Longrightarrow> \<exists>d < 10. c = digit_char d"
proof (induction n rule: nat_text.induct)
  case (1 n)
  show ?case
  proof (cases "n < 10")
    case True
    then show ?thesis using 1(2) by (auto simp: nat_text.simps [of n])
  next
    case False
    then have "c \<in> set (nat_text (n div 10)) \<or> c = digit_char (n mod 10)"
      using 1(2) by (auto simp: nat_text.simps [of n])
    then show ?thesis using 1(1) [OF False] by (auto intro: exI [of _ "n mod 10"])
  qed
qed

lemma nat_text_nonempty [simp]: "nat_text n \<noteq> []"
  by (simp add: nat_text.simps [of n])

lemma read_zeros: "read_digits 0 (replicate k (CHR ''0'') @ s) = read_digits 0 s"
  by (induction k) (simp_all add: digit_value_def)

lemma nat_text_no_sign: "hd (nat_text n) \<noteq> CHR ''-''" "CHR ''.'' \<notin> set (nat_text n)"
  using nat_text_chars [of "hd (nat_text n)" n] nat_text_chars [of "CHR ''.''" n] digit_char_not
    hd_in_set [OF nat_text_nonempty, of n] by fastforce+

text \<open>A \<^verbatim>\<open>bigint\<close> written in decimal is read back.\<close>

lemma read_bigint_text: "read_bigint (bigint_text n) = Some n"
  using nat_text_no_sign(1) [of "nat \<bar>n\<bar>"] read_nat_text [of 0 "nat \<bar>n\<bar>"]
  by (cases "n < 0") (auto simp: read_bigint_def bigint_text_def Let_def)

text \<open>The two halves that \<^verbatim>\<open>split(".")\<close> finds in a text of \<open>toFixed\<close> are all its digits.\<close>

lemma place_point_halves:
  assumes "CHR ''.'' \<notin> set digits" "0 < f"
  defines "padded \<equiv> replicate (f + 1 - length digits) (CHR ''0'') @ digits"
  shows "takeWhile (\<lambda>c. c \<noteq> CHR ''.'') (place_point f digits) = take (length padded - f) padded"
    and "drop 1 (dropWhile (\<lambda>c. c \<noteq> CHR ''.'') (place_point f digits)) = drop (length padded - f) padded"
    and "takeWhile (\<lambda>c. c \<noteq> CHR ''.'') (drop (length padded - f) padded) = drop (length padded - f) padded"
    and "length (drop (length padded - f) padded) = f"
proof -
  let ?k = "length padded - f"
  have p: "place_point f digits = take ?k padded @ CHR ''.'' # drop ?k padded"
    using assms(2) by (simp add: place_point_def padded_def Let_def)
  have no: "\<forall>c \<in> set padded. c \<noteq> CHR ''.''" using assms(1) by (auto simp: padded_def)
  then have t: "\<forall>c \<in> set (take ?k padded). c \<noteq> CHR ''.''" "\<forall>c \<in> set (drop ?k padded). c \<noteq> CHR ''.''"
    by (auto dest: in_set_takeD in_set_dropD)
  show "takeWhile (\<lambda>c. c \<noteq> CHR ''.'') (place_point f digits) = take ?k padded"
    unfolding p using t(1) by (simp add: takeWhile_append)
  show "drop 1 (dropWhile (\<lambda>c. c \<noteq> CHR ''.'') (place_point f digits)) = drop ?k padded"
    unfolding p using t(1) by (simp add: dropWhile_append)
  show "takeWhile (\<lambda>c. c \<noteq> CHR ''.'') (drop ?k padded) = drop ?k padded"
    using t(2) by (simp add: takeWhile_eq_all_conv)
  show "length (drop ?k padded) = f" by (simp add: padded_def)
qed

lemma read_padded:
  assumes "0 < f"
  shows "read_bigint ((if neg then ''-'' else '''') @ replicate (f + 1 - length (nat_text n)) (CHR ''0'') @ nat_text n)
    = Some (if neg then - int n else int n)"
  using nat_text_no_sign(1) [of n] read_nat_text [of 0 n] assms
  by (cases "f + 1 - length (nat_text n)")
    (auto simp: read_bigint_def Let_def read_zeros [of "Suc _", simplified] read_zeros)

end
