(* ===== verification/MarketDetectors.thy ===== *)
theory MarketDetectors
  imports MarketSignals NumberText
begin

text \<open>
  Detectors over recent market data: wash forensics of a launch (\<^verbatim>\<open>engine/wash-forensics.ts\<close>),
  the depeg and liquidity-drain detector (\<^verbatim>\<open>engine/depeg-liquidity-detector.ts\<close>) and the
  TA-exhaustion exit (\<^verbatim>\<open>engine/ta-exhaustion.ts\<close>).  \<^verbatim>\<open>Math.sqrt\<close> and the text of a number of
  10 ^ 21 or more are parameters; the dash of the messages is written as a hyphen.
\<close>

section \<open>Wash forensics\<close>

record WashTradeRow =
  wtr_payer :: string
  wtr_timestamp :: jsnum
  wtr_feeLamports :: jsnum

record WashEvidence =
  we_tradeCount :: nat
  we_distinctPayers :: nat
  we_txsPerSecond :: jsnum
  we_uniquePayerRate :: jsnum
  we_feeCv :: "jsnum option"
  we_suspicious :: bool
  we_reason :: "string option"

definition WASH_MIN_TRADES :: nat where
  "WASH_MIN_TRADES = 20"

definition WASH_MAX_UNIQUE_PAYER_RATE :: jsnum where
  "WASH_MAX_UNIQUE_PAYER_RATE = fl (15 / 100)"

definition WASH_MAX_DISTINCT_PAYERS :: nat where
  "WASH_MAX_DISTINCT_PAYERS = 2"

definition WASH_MAX_TPS_FOR_BURST :: jsnum where
  "WASH_MAX_TPS_FOR_BURST = Fin 5"

definition sampleSpanSec :: "jsnum list \<Rightarrow> jsnum" where
  "sampleSpanSec timestamps =
     (if length timestamps < 2 then Fin 0
      else jmax (Fin 1) (jsub (jmaxs timestamps) (jmins timestamps)))"

definition txsPerSecondOf :: "nat \<Rightarrow> jsnum \<Rightarrow> jsnum" where
  "txsPerSecondOf tradeCount spanSec =
     (if jgt spanSec (Fin 0) then jdiv (jnat tradeCount) spanSec else Fin 0)"

definition uniquePayerRateOf :: "nat \<Rightarrow> nat \<Rightarrow> jsnum" where
  "uniquePayerRateOf distinctPayers tradeCount =
     (if tradeCount > 0 then jdiv (jnat distinctPayers) (jnat tradeCount) else Fin 0)"

definition feeCoefficientOfVariation :: "(jsnum \<Rightarrow> jsnum) \<Rightarrow> WashTradeRow list \<Rightarrow> jsnum option" where
  "feeCoefficientOfVariation sqrtf rows =
     (let fees = filter (\<lambda>f. jgt f (Fin 0)) (map wtr_feeLamports rows)
      in if length fees < 3 then None
         else
           let mean = jdiv (jsum fees) (jnat (length fees))
           in if jle mean (Fin 0) then None
              else
                let variance = jdiv (jsum (map (\<lambda>f. jmul (jsub f mean) (jsub f mean)) fees))
                      (jnat (length fees))
                in Some (jdiv (sqrtf variance) mean))"

definition concentratedWalletReason :: "nat \<Rightarrow> nat \<Rightarrow> string option" where
  "concentratedWalletReason tradeCount distinctPayers =
     (if tradeCount < WASH_MIN_TRADES \<or> distinctPayers > WASH_MAX_DISTINCT_PAYERS then None
      else Some (nat_text distinctPayers @ '' wallet(s) produced '' @ nat_text tradeCount @
        '' recent trades - concentrated''))"

definition lowUniqueRateReason :: "(jsnum \<Rightarrow> string) \<Rightarrow> nat \<Rightarrow> jsnum \<Rightarrow> string option" where
  "lowUniqueRateReason numText tradeCount uniquePayerRate =
     (if tradeCount < WASH_MIN_TRADES \<or> jgt uniquePayerRate WASH_MAX_UNIQUE_PAYER_RATE then None
      else Some (''only '' @ toFixed numText (jmul uniquePayerRate (Fin 100)) 0 @
        ''% distinct payers across '' @ nat_text tradeCount @ '' trades - wash pattern''))"

definition botBurstReason :: "(jsnum \<Rightarrow> string) \<Rightarrow> nat \<Rightarrow> jsnum \<Rightarrow> string option" where
  "botBurstReason numText distinctPayers txsPerSecond =
     (if distinctPayers > WASH_MAX_DISTINCT_PAYERS \<or> jlt txsPerSecond WASH_MAX_TPS_FOR_BURST then None
      else Some (toFixed numText txsPerSecond 1 @ '' trades/sec from '' @ nat_text distinctPayers @
        '' wallet(s) - bot burst''))"

definition classifyWash :: "(jsnum \<Rightarrow> string) \<Rightarrow> nat \<Rightarrow> nat \<Rightarrow> jsnum \<Rightarrow> jsnum \<Rightarrow> bool \<times> string option" where
  "classifyWash numText tradeCount distinctPayers uniquePayerRate txsPerSecond =
     (case concentratedWalletReason tradeCount distinctPayers of
        Some concentrated \<Rightarrow> (True, Some concentrated)
      | None \<Rightarrow>
          (case lowUniqueRateReason numText tradeCount uniquePayerRate of
             Some lowRate \<Rightarrow> (True, Some lowRate)
           | None \<Rightarrow>
               (case botBurstReason numText distinctPayers txsPerSecond of
                  Some burst \<Rightarrow> (True, Some burst)
                | None \<Rightarrow> (False, None))))"

definition scoreWashEvidence ::
  "(jsnum \<Rightarrow> jsnum) \<Rightarrow> (jsnum \<Rightarrow> string) \<Rightarrow> WashTradeRow list \<Rightarrow> WashEvidence" where
  "scoreWashEvidence sqrtf numText rows =
     (let tradeCount = length rows;
          distinctPayers = length (remdups (map wtr_payer rows));
          txsPerSecond = txsPerSecondOf tradeCount (sampleSpanSec (map wtr_timestamp rows));
          uniquePayerRate = uniquePayerRateOf distinctPayers tradeCount;
          verdict = classifyWash numText tradeCount distinctPayers uniquePayerRate txsPerSecond
      in \<lparr>we_tradeCount = tradeCount, we_distinctPayers = distinctPayers,
          we_txsPerSecond = txsPerSecond, we_uniquePayerRate = uniquePayerRate,
          we_feeCv = feeCoefficientOfVariation sqrtf rows,
          we_suspicious = fst verdict, we_reason = snd verdict\<rparr>)"

section \<open>Depeg and liquidity drain\<close>

record PoolSnapshot =
  snp_poolAddress :: string
  snp_timestamp :: jsnum
  snp_activeBinId :: jsnum
  snp_tvlUsd :: jsnum
  snp_volume24hUsd :: jsnum
  snp_fees24hUsd :: jsnum
  snp_apr :: jsnum
  snp_currentPrice :: jsnum
  snp_binStep :: jsnum
  snp_tokenXSymbol :: string
  snp_tokenYSymbol :: string
  snp_binArray :: BinArray
  snp_statsSource :: "StatsSource option"

record DepegLiquidityConfig =
  dlc_stablecoinMints :: "string list option"
  dlc_depegAbsoluteUsd :: "jsnum option"
  dlc_depegRelativePct :: "jsnum option"
  dlc_liquidityDrainPct :: "jsnum option"
  dlc_liquidityDrainLookbackSnapshots :: "jsnum option"

record DepegLiquiditySignals =
  dls_depeg :: "(string \<times> jsnum) option"
  dls_liquidityDrain :: "(jsnum \<times> jsnum) option"

definition stablePairLegs :: "string \<Rightarrow> string \<Rightarrow> string list option \<Rightarrow> string list" where
  "stablePairLegs tokenX tokenY stablecoinMints =
     (case stablecoinMints of
        None \<Rightarrow> []
      | Some mints \<Rightarrow> filter (\<lambda>mint. mint \<in> set mints) [tokenX, tokenY])"

definition stablecoinDeviation :: "string \<Rightarrow> string \<Rightarrow> jsnum \<Rightarrow> jsnum" where
  "stablecoinDeviation tokenMint tokenX currentPrice =
     (let price = (if tokenMint = tokenX then currentPrice else jdiv (Fin 1) currentPrice)
      in jabs (jsub price (Fin 1)))"

fun first_depegged :: "string list \<Rightarrow> string \<Rightarrow> jsnum \<Rightarrow> jsnum \<Rightarrow> jsnum \<Rightarrow> (string \<times> jsnum) option" where
  "first_depegged [] tokenX currentPrice absoluteThreshold relativeThreshold = None"
| "first_depegged (tokenMint # rest) tokenX currentPrice absoluteThreshold relativeThreshold =
     (let deviationUsd = stablecoinDeviation tokenMint tokenX currentPrice
      in if jge deviationUsd absoluteThreshold \<or> jge deviationUsd relativeThreshold
         then Some (tokenMint, deviationUsd)
         else first_depegged rest tokenX currentPrice absoluteThreshold relativeThreshold)"

definition findDepegSignal ::
  "string list \<Rightarrow> string \<Rightarrow> jsnum \<Rightarrow> jsnum \<Rightarrow> jsnum \<Rightarrow> (string \<times> jsnum) option" where
  "findDepegSignal legs tokenX currentPrice absoluteThreshold relativeThreshold =
     (if \<not> finitePositive currentPrice \<or> length legs \<noteq> 2 then None
      else first_depegged legs tokenX currentPrice absoluteThreshold relativeThreshold)"

definition referenceAt :: "PoolSnapshot list \<Rightarrow> jsnum \<Rightarrow> PoolSnapshot option" where
  "referenceAt history lookback =
     (if jlt (jnat (length history)) lookback then None
      else js_at history (jsub (jnat (length history)) lookback))"

definition relativeChange :: "jsnum \<Rightarrow> jsnum \<Rightarrow> jsnum option" where
  "relativeChange current reference =
     (if \<not> finitePositive reference then None else Some (jdiv (jsub current reference) reference))"

definition drainSignal :: "jsnum option \<Rightarrow> jsnum option \<Rightarrow> jsnum \<Rightarrow> (jsnum \<times> jsnum) option" where
  "drainSignal tvlPct volumePct drainThreshold =
     (case (tvlPct, volumePct) of
        (Some t, Some v) \<Rightarrow>
          if jgt t (jneg drainThreshold) \<or> jgt v (jneg drainThreshold) then None else Some (t, v)
      | _ \<Rightarrow> None)"

definition detectDepegAndLiquidityDrain ::
  "PoolState \<Rightarrow> PoolSnapshot list \<Rightarrow> DepegLiquidityConfig \<Rightarrow> DepegLiquiditySignals" where
  "detectDepegAndLiquidityDrain pool history config =
     (let legs = stablePairLegs (ps_tokenX pool) (ps_tokenY pool) (dlc_stablecoinMints config);
          depeg = findDepegSignal legs (ps_tokenX pool) (ps_currentPrice pool)
            (nullish (dlc_depegAbsoluteUsd config) (fl (2 / 100)))
            (nullish (dlc_depegRelativePct config) (fl (2 / 100)));
          lookback = jmax (Fin 1)
            (jfloor (nullish (dlc_liquidityDrainLookbackSnapshots config) (Fin 2)));
          reference = referenceAt history lookback;
          tvlPct = (case reference of None \<Rightarrow> None
            | Some r \<Rightarrow> relativeChange (ps_tvlUsd pool) (snp_tvlUsd r));
          volumePct = (case reference of None \<Rightarrow> None
            | Some r \<Rightarrow> relativeChange (ps_volume24hUsd pool) (snp_volume24hUsd r))
      in \<lparr>dls_depeg = depeg,
          dls_liquidityDrain = drainSignal tvlPct volumePct
            (nullish (dlc_liquidityDrainPct config) (Fin (1 / 2)))\<rparr>)"

section \<open>What a wash verdict says\<close>

text \<open>The verdict over the three rules, and when a sample is left alone.\<close>

lemma wash_suspicious_iff:
  assumes "e = scoreWashEvidence sqrtf numText rows"
  shows "we_suspicious e \<longleftrightarrow>
    20 \<le> we_tradeCount e \<and>
      (we_distinctPayers e \<le> 2 \<or> \<not> jgt (we_uniquePayerRate e) WASH_MAX_UNIQUE_PAYER_RATE) \<or>
    we_distinctPayers e \<le> 2 \<and> \<not> jlt (we_txsPerSecond e) (Fin 5)"
  by (auto simp: assms scoreWashEvidence_def classifyWash_def concentratedWalletReason_def
      lowUniqueRateReason_def botBurstReason_def WASH_MIN_TRADES_def WASH_MAX_DISTINCT_PAYERS_def
      WASH_MAX_TPS_FOR_BURST_def Let_def not_less)

lemma wash_reason_iff:
  "we_suspicious (scoreWashEvidence sqrtf numText rows) \<longleftrightarrow>
     we_reason (scoreWashEvidence sqrtf numText rows) \<noteq> None"
  by (simp add: scoreWashEvidence_def classifyWash_def Let_def split: option.split)

text \<open>
  The burst rule has no minimum sample: five trades of one wallet within a second are suspicious,
  although a minimum of twenty trades is documented as needed before judging.
\<close>
lemma constant_span:
  "2 \<le> n \<Longrightarrow> sampleSpanSec (replicate n (Fin x)) = Fin 1"
proof -
  assume n: "2 \<le> n"
  have "jmaxs (replicate (Suc m) (Fin x)) = Fin x" "jmins (replicate (Suc m) (Fin x)) = Fin x" for m
    by (induction m) (simp_all add: jmax_def jmin_def)
  then show ?thesis using n by (cases n) (auto simp: sampleSpanSec_def jsub_def)
qed

lemma five_trades_suspicious:
  "we_suspicious (scoreWashEvidence sqrtf numText
     (replicate 5 \<lparr>wtr_payer = ''w'', wtr_timestamp = Fin 100, wtr_feeLamports = Fin 5000\<rparr>))"
proof -
  let ?rows = "replicate 5 \<lparr>wtr_payer = ''w'', wtr_timestamp = Fin 100, wtr_feeLamports = Fin 5000\<rparr>"
  have "remdups (replicate 5 ''w'') = [''w'']" by (simp add: numeral_eq_Suc)
  then show ?thesis
    unfolding wash_suspicious_iff [OF refl]
    by (simp add: scoreWashEvidence_def txsPerSecondOf_def constant_span jnat_def Let_def num_simps)
qed

section \<open>What a depeg says\<close>

lemma stable_pair_both:
  "length (stablePairLegs x y mints) = 2 \<longleftrightarrow> (\<exists>ms. mints = Some ms \<and> x \<in> set ms \<and> y \<in> set ms)"
  by (auto simp: stablePairLegs_def split: option.splits)

lemma first_depegged_Some:
  "first_depegged legs tokenX p absT relT = Some (m, d) \<Longrightarrow>
     m \<in> set legs \<and> d = stablecoinDeviation m tokenX p \<and> (jge d absT \<or> jge d relT)"
  by (induction legs) (auto simp: Let_def split: if_splits)

lemma first_depegged_None:
  "first_depegged legs tokenX p absT relT = None \<longleftrightarrow>
     (\<forall>m \<in> set legs. \<not> jge (stablecoinDeviation m tokenX p) absT \<and>
        \<not> jge (stablecoinDeviation m tokenX p) relT)"
  by (induction legs) (auto simp: Let_def)

text \<open>
  A depeg is reported for pairs of two stablecoins only, and exactly when the price or its inverse
  leaves a threshold; the price of a volatile leg never counts.
\<close>
lemma depeg_iff:
  "(\<exists>m d. dls_depeg (detectDepegAndLiquidityDrain pool history config) = Some (m, d)) \<longleftrightarrow>
     finitePositive (ps_currentPrice pool) \<and>
     (\<exists>ms. dlc_stablecoinMints config = Some ms \<and> ps_tokenX pool \<in> set ms \<and> ps_tokenY pool \<in> set ms) \<and>
     (\<exists>m \<in> {ps_tokenX pool, ps_tokenY pool}.
        jge (stablecoinDeviation m (ps_tokenX pool) (ps_currentPrice pool))
          (nullish (dlc_depegAbsoluteUsd config) (fl (2 / 100))) \<or>
        jge (stablecoinDeviation m (ps_tokenX pool) (ps_currentPrice pool))
          (nullish (dlc_depegRelativePct config) (fl (2 / 100))))"
proof -
  let ?legs = "stablePairLegs (ps_tokenX pool) (ps_tokenY pool) (dlc_stablecoinMints config)"
  have "dls_depeg (detectDepegAndLiquidityDrain pool history config) =
      (if finitePositive (ps_currentPrice pool) \<and> length ?legs = 2
       then first_depegged ?legs (ps_tokenX pool) (ps_currentPrice pool)
         (nullish (dlc_depegAbsoluteUsd config) (fl (2 / 100)))
         (nullish (dlc_depegRelativePct config) (fl (2 / 100))) else None)"
    by (simp add: detectDepegAndLiquidityDrain_def findDepegSignal_def Let_def)
  moreover have "length ?legs = 2 \<Longrightarrow> set ?legs = {ps_tokenX pool, ps_tokenY pool}"
    unfolding stable_pair_both by (auto simp: stablePairLegs_def)
  ultimately show ?thesis
    using first_depegged_None [of ?legs "ps_tokenX pool" "ps_currentPrice pool"
        "nullish (dlc_depegAbsoluteUsd config) (fl (2 / 100))"
        "nullish (dlc_depegRelativePct config) (fl (2 / 100))"]
    by (auto simp: stable_pair_both [symmetric])
qed

text \<open>A drain needs both TVL and volume below the reference by the threshold.\<close>

lemma drain_needs_both:
  assumes "dls_liquidityDrain (detectDepegAndLiquidityDrain pool history config) = Some (t, v)"
  shows "\<not> jgt t (jneg (nullish (dlc_liquidityDrainPct config) (Fin (1 / 2)))) \<and>
    \<not> jgt v (jneg (nullish (dlc_liquidityDrainPct config) (Fin (1 / 2)))) \<and>
    (\<exists>r \<in> set history. finitePositive (snp_tvlUsd r) \<and> finitePositive (snp_volume24hUsd r) \<and>
       t = jdiv (jsub (ps_tvlUsd pool) (snp_tvlUsd r)) (snp_tvlUsd r) \<and>
       v = jdiv (jsub (ps_volume24hUsd pool) (snp_volume24hUsd r)) (snp_volume24hUsd r))"
proof -
  have "js_at xs i = Some x \<Longrightarrow> x \<in> set xs" for xs :: "PoolSnapshot list" and i x
    by (auto simp: js_at_def split: jsnum.splits if_splits)
  then have "referenceAt history l = Some r \<Longrightarrow> r \<in> set history" for l r
    by (auto simp: referenceAt_def split: if_splits)
  then show ?thesis
    using assms
    by (fastforce simp: detectDepegAndLiquidityDrain_def drainSignal_def relativeChange_def Let_def
        split: option.splits if_splits)
qed

end
