(* ===== verification/TaExhaustion.thy ===== *)
theory TaExhaustion
  imports MarketDetectors
begin

text \<open>
  The TA-exhaustion exit (\<^verbatim>\<open>engine/ta-exhaustion.ts\<close>): Wilder RSI(2), Bollinger bands, the MACD
  histogram, their confluence and the EXIT decision.  \<^verbatim>\<open>Math.sqrt\<close> and the text of a number of
  10 ^ 21 or more are parameters.
\<close>

definition TA_EXHAUSTION_MIN_POINTS :: nat where
  "TA_EXHAUSTION_MIN_POINTS = 35"

definition TA_RSI_PERIOD :: nat where
  "TA_RSI_PERIOD = 2"

definition TA_RSI_OVERBOUGHT :: jsnum where
  "TA_RSI_OVERBOUGHT = Fin 90"

definition TA_BB_PERIOD :: nat where
  "TA_BB_PERIOD = 20"

definition TA_BB_MULT :: jsnum where
  "TA_BB_MULT = Fin 2"

definition TA_MACD_FAST_PERIOD :: nat where
  "TA_MACD_FAST_PERIOD = 12"

definition TA_MACD_SLOW_PERIOD :: nat where
  "TA_MACD_SLOW_PERIOD = 26"

definition TA_MACD_SIGNAL_PERIOD :: nat where
  "TA_MACD_SIGNAL_PERIOD = 9"

definition closesFinite :: "jsnum list \<Rightarrow> bool" where
  "closesFinite values \<longleftrightarrow> list_all is_finite values"

section \<open>RSI\<close>

record RsiAverages =
  rsi_avgGain :: jsnum
  rsi_avgLoss :: jsnum

text \<open>The differences of consecutive closes, \<^verbatim>\<open>closes[i] - closes[i - 1]\<close> for \<open>i \<ge> 1\<close>.\<close>

definition close_diffs :: "jsnum list \<Rightarrow> jsnum list" where
  "close_diffs closes = map2 jsub (tl closes) closes"

definition seedAverages :: "jsnum list \<Rightarrow> nat \<Rightarrow> RsiAverages" where
  "seedAverages closes period =
     (let (gainSum, lossSum) = foldl (\<lambda>(gain, loss) diff.
            if jgt diff (Fin 0) then (jadd gain diff, loss) else (gain, jsub loss diff))
          (Fin 0, Fin 0) (take period (close_diffs closes))
      in \<lparr>rsi_avgGain = jdiv gainSum (jnat period), rsi_avgLoss = jdiv lossSum (jnat period)\<rparr>)"

definition smoothStep :: "nat \<Rightarrow> RsiAverages \<Rightarrow> jsnum \<Rightarrow> RsiAverages" where
  "smoothStep period a diff =
     \<lparr>rsi_avgGain = jdiv (jadd (jmul (rsi_avgGain a) (jnat (period - 1)))
        (if jgt diff (Fin 0) then diff else Fin 0)) (jnat period),
      rsi_avgLoss = jdiv (jadd (jmul (rsi_avgLoss a) (jnat (period - 1)))
        (if jlt diff (Fin 0) then jneg diff else Fin 0)) (jnat period)\<rparr>"

definition smoothAverages :: "jsnum list \<Rightarrow> nat \<Rightarrow> RsiAverages \<Rightarrow> RsiAverages" where
  "smoothAverages closes period seed =
     foldl (smoothStep period) seed (drop period (close_diffs closes))"

definition computeRsi2 :: "jsnum list \<Rightarrow> jsnum option" where
  "computeRsi2 closes =
     (let period = TA_RSI_PERIOD
      in if length closes < period + 1 \<or> \<not> closesFinite closes then None
         else
           let a = smoothAverages closes period (seedAverages closes period)
           in if rsi_avgLoss a = Fin 0
              then Some (if rsi_avgGain a = Fin 0 then Fin 50 else Fin 100)
              else if rsi_avgGain a = Fin 0 then Some (Fin 0)
              else Some (jsub (Fin 100) (jdiv (Fin 100)
                (jadd (Fin 1) (jdiv (rsi_avgGain a) (rsi_avgLoss a))))))"

section \<open>Bollinger bands\<close>

record BollingerBands =
  bb_middle :: jsnum
  bb_upper :: jsnum
  bb_lower :: jsnum

definition bollingerBands :: "(jsnum \<Rightarrow> jsnum) \<Rightarrow> jsnum list \<Rightarrow> BollingerBands option" where
  "bollingerBands sqrtf closes =
     (let n = TA_BB_PERIOD
      in if length closes < n then None
         else
           let window = last_n n closes
           in if \<not> closesFinite window then None
              else
                let middle = jdiv (jsum window) (jnat n);
                    sq = jsum (map (\<lambda>v. jmul (jsub v middle) (jsub v middle)) window);
                    sd = sqrtf (jdiv sq (jnat n))
                in Some \<lparr>bb_middle = middle, bb_upper = jadd middle (jmul TA_BB_MULT sd),
                     bb_lower = jsub middle (jmul TA_BB_MULT sd)\<rparr>)"

definition computeBollingerUpper :: "(jsnum \<Rightarrow> jsnum) \<Rightarrow> jsnum list \<Rightarrow> jsnum option" where
  "computeBollingerUpper sqrtf closes = map_option bb_upper (bollingerBands sqrtf closes)"

definition last_close :: "jsnum list \<Rightarrow> jsnum option" where
  "last_close closes = (if closes = [] then None else Some (last closes))"

definition computeBollingerPercentB :: "(jsnum \<Rightarrow> jsnum) \<Rightarrow> jsnum list \<Rightarrow> jsnum option" where
  "computeBollingerPercentB sqrtf closes =
     (case (bollingerBands sqrtf closes, last_close closes) of
        (Some bands, Some close) \<Rightarrow>
          if \<not> is_finite close then None
          else
            let width = jsub (bb_upper bands) (bb_lower bands)
            in if width = Fin 0 then Some (Fin (1 / 2))
               else Some (jdiv (jsub close (bb_lower bands)) width)
      | _ \<Rightarrow> None)"

section \<open>MACD\<close>

fun emas :: "jsnum \<Rightarrow> jsnum \<Rightarrow> jsnum list \<Rightarrow> jsnum list" where
  "emas k ema [] = [ema]"
| "emas k ema (v # vs) = ema # emas k (jadd ema (jmul k (jsub v ema))) vs"

text \<open>The callers pass at least \<open>period\<close> values, so the seed reads only values that exist.\<close>

definition emaSeries :: "jsnum list \<Rightarrow> nat \<Rightarrow> jsnum list" where
  "emaSeries values period =
     emas (jdiv (Fin 2) (jnat (period + 1))) (jdiv (jsum (take period values)) (jnat period))
       (drop period values)"

record MacdHistogram =
  macd_current :: jsnum
  macd_previous :: jsnum

definition computeMacdHistogram :: "jsnum list \<Rightarrow> MacdHistogram option" where
  "computeMacdHistogram closes =
     (if length closes < TA_MACD_SLOW_PERIOD + TA_MACD_SIGNAL_PERIOD \<or> \<not> closesFinite closes then None
      else
        let fast = emaSeries closes TA_MACD_FAST_PERIOD;
            slow = emaSeries closes TA_MACD_SLOW_PERIOD;
            offset = TA_MACD_SLOW_PERIOD - TA_MACD_FAST_PERIOD;
            macd = map2 (\<lambda>s f. jsub f s) slow (drop offset fast);
            signal = emaSeries macd TA_MACD_SIGNAL_PERIOD;
            hist = map2 (\<lambda>s m. jsub m s) signal (drop (TA_MACD_SIGNAL_PERIOD - 1) macd)
        in case rev hist of
             current # previous # _ \<Rightarrow> Some \<lparr>macd_current = current, macd_previous = previous\<rparr>
           | _ \<Rightarrow> None)"

section \<open>The exit\<close>

record TaExhaustionSignals =
  ta_rsi2 :: jsnum
  ta_rsiOverbought :: bool
  ta_percentB :: jsnum
  ta_aboveBbUpper :: bool
  ta_histogram :: jsnum
  ta_previousHistogram :: jsnum
  ta_macdFirstGreen :: bool

definition taExhaustionSignals :: "(jsnum \<Rightarrow> jsnum) \<Rightarrow> jsnum list \<Rightarrow> TaExhaustionSignals option" where
  "taExhaustionSignals sqrtf closes =
     (if length closes < TA_EXHAUSTION_MIN_POINTS then None
      else
        case (computeRsi2 closes, computeBollingerPercentB sqrtf closes,
              computeBollingerUpper sqrtf closes, computeMacdHistogram closes) of
          (Some rsi2, Some percentB, Some upper, Some macd) \<Rightarrow>
            (case last_close closes of
               None \<Rightarrow> None
             | Some close \<Rightarrow>
                 if \<not> is_finite close then None
                 else Some
                   \<lparr>ta_rsi2 = rsi2, ta_rsiOverbought = jgt rsi2 TA_RSI_OVERBOUGHT,
                    ta_percentB = percentB, ta_aboveBbUpper = jgt close upper,
                    ta_histogram = macd_current macd, ta_previousHistogram = macd_previous macd,
                    ta_macdFirstGreen = jgt (macd_current macd) (Fin 0) \<and>
                      jle (macd_previous macd) (Fin 0)\<rparr>)
        | _ \<Rightarrow> None)"

definition isTaExhausted :: "bool \<Rightarrow> bool \<Rightarrow> bool \<Rightarrow> bool" where
  "isTaExhausted rsiOverbought aboveBbUpper macdFirstGreen \<longleftrightarrow>
     rsiOverbought \<and> (aboveBbUpper \<or> macdFirstGreen)"

definition taExhaustionReasoning :: "(jsnum \<Rightarrow> string) \<Rightarrow> TaExhaustionSignals \<Rightarrow> string" where
  "taExhaustionReasoning numText signals =
     (let leg = (if ta_aboveBbUpper signals then ''close above BB-upper''
                 else ''first-green MACD histogram'')
      in ''[ta-exhaustion] RSI(2) '' @ toFixed numText (ta_rsi2 signals) 1 @ '' > 90 with '' @ leg @
         '' (%B '' @ toFixed numText (ta_percentB signals) 2 @ '', hist '' @
         toFixed numText (ta_histogram signals) 4 @
         '') - profit-exhaustion, exiting before loss-side gates'')"

record TaExhaustionExitInput =
  tei_poolAddress :: string
  tei_positionId :: string
  tei_closes :: "jsnum list"

definition maybeTaExhaustionExit ::
  "(jsnum \<Rightarrow> jsnum) \<Rightarrow> (jsnum \<Rightarrow> string) \<Rightarrow> TaExhaustionExitInput \<Rightarrow> AgentDecision option" where
  "maybeTaExhaustionExit sqrtf numText inp =
     (case taExhaustionSignals sqrtf (tei_closes inp) of
        None \<Rightarrow> None
      | Some signals \<Rightarrow>
          if \<not> isTaExhausted (ta_rsiOverbought signals) (ta_aboveBbUpper signals)
                 (ta_macdFirstGreen signals)
          then None
          else Some
            \<lparr>dec_action = EXIT, dec_poolAddress = tei_poolAddress inp, dec_confidence = Fin 1,
             dec_reasoning = taExhaustionReasoning numText signals, dec_rebalanceParams = None,
             dec_positionSizeUsd = None, dec_positionId = Some (tei_positionId inp),
             dec_positionMode = None, dec_tpLadderJson = None, dec_invalidationStopPrice = None\<rparr>)"

section \<open>What the exit rests on\<close>

lemma length_emas [simp]: "length (emas k e vs) = length vs + 1"
  by (induction vs arbitrary: e) auto

lemma length_emaSeries [simp]: "length (emaSeries vs p) = length vs - p + 1"
  by (simp add: emaSeries_def)

lemma two_last: "2 \<le> length xs \<Longrightarrow> \<exists>a b r. rev xs = a # b # r"
  by (cases "rev xs"; cases "tl (rev xs)") (auto dest: arg_cong [of _ _ length])

text \<open>With enough finite closes the histogram exists: the two series are long enough.\<close>

lemma macd_defined:
  assumes "35 \<le> length closes" "closesFinite closes"
  shows "\<exists>h. computeMacdHistogram closes = Some h"
proof -
  let ?slow = "emaSeries closes 26" and ?fast = "emaSeries closes 12"
  let ?macd = "map2 (\<lambda>s f. jsub f s) ?slow (drop 14 ?fast)"
  have m: "length ?macd = length closes - 25" using assms(1) by simp
  let ?hist = "map2 (\<lambda>s m. jsub m s) (emaSeries ?macd 9) (drop 8 ?macd)"
  have "2 \<le> length ?hist" using assms(1) by (simp only: length_map length_zip length_drop
      length_emaSeries m) simp
  then obtain a b r where "rev ?hist = a # b # r" using two_last by blast
  then show ?thesis
    using assms unfolding computeMacdHistogram_def TA_MACD_SLOW_PERIOD_def TA_MACD_SIGNAL_PERIOD_def
      TA_MACD_FAST_PERIOD_def
    by (simp add: Let_def del: rev_map)
qed

section \<open>The range of the RSI\<close>

definition rsi_ok :: "RsiAverages \<Rightarrow> bool" where
  "rsi_ok a \<longleftrightarrow> jle (Fin 0) (rsi_avgGain a) \<and> jle (Fin 0) (rsi_avgLoss a)"

lemma half_nonneg: "jle (Fin 0) a \<Longrightarrow> jle (Fin 0) (jdiv a (jnat 2))"
  by (rule jdiv_nonneg) (simp_all add: jnat_def jdiv_finite_pos_not_NaN jle_not_NaN)

lemma once_nonneg: "jle (Fin 0) a \<Longrightarrow> jle (Fin 0) (jmul a (jnat 1))"
  by (rule jmul_nonneg) (simp_all add: jnat_def jmul_pos_not_NaN jle_not_NaN)

lemma smooth_step_ok: "rsi_ok a \<Longrightarrow> rsi_ok (smoothStep 2 a d)"
  using half_nonneg [OF jadd_nonneg [OF once_nonneg]]
  by (cases d) (auto simp: rsi_ok_def smoothStep_def jlt_imp_jle)

lemma jsub_nonneg_of_nonpos:
  assumes "jle (Fin 0) l" "jle d (Fin 0)"
  shows "jle (Fin 0) (jsub l d)"
  unfolding jsub_def by (rule jadd_nonneg [OF assms(1)]) (use assms(2) in \<open>cases d; simp\<close>)

lemma seed_sums_ok:
  assumes "jle (Fin 0) g" "jle (Fin 0) l" "NaN \<notin> set ds"
  shows "jle (Fin 0) (fst (foldl (\<lambda>(gain, loss) diff.
            if jgt diff (Fin 0) then (jadd gain diff, loss) else (gain, jsub loss diff)) (g, l) ds)) \<and>
         jle (Fin 0) (snd (foldl (\<lambda>(gain, loss) diff.
            if jgt diff (Fin 0) then (jadd gain diff, loss) else (gain, jsub loss diff)) (g, l) ds))"
  using assms
proof (induction ds arbitrary: g l)
  case (Cons d ds)
  have "d \<noteq> NaN" using Cons.prems(3) by auto
  then have "jgt d (Fin 0) \<or> jle d (Fin 0)" by (cases d) auto
  then show ?case
  proof
    assume "jgt d (Fin 0)"
    then show ?thesis
      using Cons.IH [OF jadd_nonneg [OF Cons.prems(1)] Cons.prems(2)] Cons.prems(3)
      by (simp add: jlt_imp_jle)
  next
    assume d: "jle d (Fin 0)"
    then have "\<not> jgt d (Fin 0)" by (cases d) auto
    then show ?thesis
      using Cons.IH [OF Cons.prems(1) jsub_nonneg_of_nonpos [OF Cons.prems(2) d]] Cons.prems(3) by simp
  qed
qed simp

lemma close_diffs_not_NaN:
  assumes "closesFinite closes"
  shows "NaN \<notin> set (close_diffs closes)"
proof
  assume "NaN \<in> set (close_diffs closes)"
  then obtain x y where "x \<in> set (tl closes)" "y \<in> set closes" "jsub x y = NaN"
    by (fastforce simp: close_diffs_def dest: set_zip_leftD set_zip_rightD)
  moreover have "x \<in> set closes" using calculation(1) by (cases closes) auto
  ultimately have "is_finite x" "is_finite y" "jsub x y = NaN"
    using assms by (simp_all add: closesFinite_def list_all_iff)
  then show False using jsub_finite_not_NaN [of y x] by (auto simp: is_finite_iff)
qed

lemma seed_ok:
  assumes "closesFinite closes"
  shows "rsi_ok (seedAverages closes 2)"
proof -
  have "NaN \<notin> set (take 2 (close_diffs closes))"
    using close_diffs_not_NaN [OF assms] in_set_takeD by fastforce
  from seed_sums_ok [OF _ _ this, of "Fin 0" "Fin 0"] show ?thesis
    by (auto simp: rsi_ok_def seedAverages_def half_nonneg Let_def split: prod.splits)
qed

lemma smooth_ok: "rsi_ok a \<Longrightarrow> rsi_ok (foldl (smoothStep 2) a ds)"
  by (induction ds arbitrary: a) (simp_all add: smooth_step_ok)

lemma rsi_of_ratio:
  assumes "jle (Fin 0) r"
  shows "jle (Fin 0) (jsub (Fin 100) (jdiv (Fin 100) (jadd (Fin 1) r))) \<and>
    jle (jsub (Fin 100) (jdiv (Fin 100) (jadd (Fin 1) r))) (Fin 100)"
proof -
  have h: "fl 100 = Fin 100" "fl 1 = Fin 1" by (simp_all add: num_simps)
  have s: "jle (Fin 1) (jadd (Fin 1) r)" by (rule jadd_ge_left) (simp_all add: assms h)
  have "jle (jdiv (Fin 100) (jadd (Fin 1) r)) (jdiv (Fin 100) (Fin 1))"
    by (rule jdiv_antimono_right) (simp_all add: s)
  then have q: "jle (jdiv (Fin 100) (jadd (Fin 1) r)) (Fin 100)" by (simp add: h)
  have q0: "jle (Fin 0) (jdiv (Fin 100) (jadd (Fin 1) r))"
    by (rule jdiv_nonneg) (use s jle_trans [of "Fin 0" "Fin 1"] jle_not_NaN [OF q] in auto)
  obtain x where x: "jdiv (Fin 100) (jadd (Fin 1) r) = Fin x" "0 \<le> x" "x \<le> 100"
    using q q0 by (cases "jdiv (Fin 100) (jadd (Fin 1) r)") auto
  have "jle (Fin 0) (fl (100 - x))" by (rule fl_nonneg) (simp add: x)
  moreover have "jle (fl (100 - x)) (Fin 100)" by (rule fl_le) (simp_all add: x h)
  ultimately show ?thesis by (simp add: x jsub_def)
qed

text \<open>An RSI is a percentage; only sums of gains and losses that both overflow make it NaN.\<close>

lemma rsi_range:
  assumes "computeRsi2 closes = Some r"
  shows "r = NaN \<or> jle (Fin 0) r \<and> jle r (Fin 100)"
proof -
  have c: "closesFinite closes" using assms by (auto simp: computeRsi2_def Let_def split: if_splits)
  let ?a = "smoothAverages closes 2 (seedAverages closes 2)"
  have ok: "rsi_ok ?a" unfolding smoothAverages_def by (rule smooth_ok [OF seed_ok [OF c]])
  show ?thesis
  proof (cases "rsi_avgLoss ?a = Fin 0 \<or> rsi_avgGain ?a = Fin 0")
    case True
    then have "r = Fin 0 \<or> r = Fin 50 \<or> r = Fin 100"
      using assms unfolding computeRsi2_def TA_RSI_PERIOD_def Let_def
      by (simp split: if_splits)
    then show ?thesis by auto
  next
    case False
    let ?r = "jdiv (rsi_avgGain ?a) (rsi_avgLoss ?a)"
    have r: "r = jsub (Fin 100) (jdiv (Fin 100) (jadd (Fin 1) ?r))"
      using assms False by (auto simp: computeRsi2_def TA_RSI_PERIOD_def Let_def split: if_splits)
    show ?thesis
    proof (cases "?r = NaN")
      case True
      then show ?thesis unfolding r by (simp add: jsub_def)
    next
      case r': False
      have "jle (Fin 0) ?r" using jdiv_nonneg ok r' by (auto simp: rsi_ok_def)
      from rsi_of_ratio [OF this] show ?thesis unfolding r by blast
    qed
  qed
qed

section \<open>The TA-exhaustion exit is earned\<close>

lemma ta_tag: "exitReasonTag (Some (taExhaustionReasoning numText signals)) = ''ta-exhaustion''"
proof -
  obtain rest where "taExhaustionReasoning numText signals =
      ''['' @ ''ta-exhaustion'' @ CHR '']'' # rest"
    by (simp add: taExhaustionReasoning_def Let_def)
  then show ?thesis
    using bracket_match_tag [of "''ta-exhaustion''" rest] by (simp add: exitReasonTag_def del: bracket_match.simps)
qed

lemma taExhaustionSignalsE:
  assumes "taExhaustionSignals sqrtf closes = Some s"
  obtains upper macd close where
    "TA_EXHAUSTION_MIN_POINTS \<le> length closes" "computeRsi2 closes = Some (ta_rsi2 s)"
    "computeBollingerUpper sqrtf closes = Some upper" "computeMacdHistogram closes = Some macd"
    "last_close closes = Some close" "ta_rsiOverbought s = jgt (ta_rsi2 s) TA_RSI_OVERBOUGHT"
    "ta_aboveBbUpper s = jgt close upper"
    "ta_macdFirstGreen s = (jgt (macd_current macd) (Fin 0) \<and> jle (macd_previous macd) (Fin 0))"
  using assms by (fastforce simp: taExhaustionSignals_def split: if_splits option.splits)

text \<open>
  C22. A TA-exhaustion exit is earned: it names the asked pool and position with full confidence
  and the ledger tag ta-exhaustion; there are at least 35 closes, all finite, the RSI lies in
  (90, 100], and the last close is above the upper Bollinger band or the MACD histogram has just
  turned positive.
\<close>
theorem ta_exit_is_earned:
  assumes "maybeTaExhaustionExit sqrtf numText inp = Some d"
  shows "dec_action d = EXIT \<and> dec_poolAddress d = tei_poolAddress inp \<and>
    dec_positionId d = Some (tei_positionId inp) \<and> dec_confidence d = Fin 1 \<and>
    exitReasonTag (Some (dec_reasoning d)) = ''ta-exhaustion'' \<and>
    35 \<le> length (tei_closes inp) \<and> closesFinite (tei_closes inp) \<and>
    (\<exists>r. computeRsi2 (tei_closes inp) = Some r \<and> jlt (Fin 90) r \<and> jle r (Fin 100)) \<and>
    ((\<exists>u. computeBollingerUpper sqrtf (tei_closes inp) = Some u \<and> jlt u (last (tei_closes inp))) \<or>
     (\<exists>h. computeMacdHistogram (tei_closes inp) = Some h \<and> jlt (Fin 0) (macd_current h) \<and>
        jle (macd_previous h) (Fin 0)))"
proof -
  obtain s where s: "taExhaustionSignals sqrtf (tei_closes inp) = Some s"
      "isTaExhausted (ta_rsiOverbought s) (ta_aboveBbUpper s) (ta_macdFirstGreen s)"
    and d: "dec_action d = EXIT" "dec_poolAddress d = tei_poolAddress inp" "dec_confidence d = Fin 1"
      "dec_positionId d = Some (tei_positionId inp)" "dec_reasoning d = taExhaustionReasoning numText s"
    using assms by (fastforce simp: maybeTaExhaustionExit_def split: option.splits if_splits)
  from s(1) obtain upper macd close where t:
      "TA_EXHAUSTION_MIN_POINTS \<le> length (tei_closes inp)" "computeRsi2 (tei_closes inp) = Some (ta_rsi2 s)"
      "computeBollingerUpper sqrtf (tei_closes inp) = Some upper"
      "computeMacdHistogram (tei_closes inp) = Some macd"
      "last_close (tei_closes inp) = Some close" "ta_rsiOverbought s = jgt (ta_rsi2 s) TA_RSI_OVERBOUGHT"
      "ta_aboveBbUpper s = jgt close upper"
      "ta_macdFirstGreen s = (jgt (macd_current macd) (Fin 0) \<and> jle (macd_previous macd) (Fin 0))"
    by (rule taExhaustionSignalsE)
  have rsi: "jlt (Fin 90) (ta_rsi2 s)" using s(2) t(6) by (simp add: isTaExhausted_def TA_RSI_OVERBOUGHT_def)
  then have "jle (ta_rsi2 s) (Fin 100)" using rsi_range [OF t(2)] by auto
  moreover have "closesFinite (tei_closes inp)"
    using t(2) by (auto simp: computeRsi2_def Let_def split: if_splits)
  moreover have "last (tei_closes inp) = close" using t(5) by (auto simp: last_close_def split: if_splits)
  ultimately show ?thesis
    using d rsi t s(2) ta_tag [of numText s] by (auto simp: isTaExhausted_def TA_EXHAUSTION_MIN_POINTS_def)
qed

definition sampleCloses :: "jsnum list" where
  "sampleCloses = replicate 34 (Fin 0) @ [Fin 20]"

text \<open>A root that is right to two digits on the variance of the sample.\<close>

definition sampleRoot :: "jsnum \<Rightarrow> jsnum" where
  "sampleRoot x = (if x = Fin 19 then Fin (279 / 64) else x)"

lemma sample_rsi: "computeRsi2 sampleCloses = Some (Fin 100)"
  by (simp add: computeRsi2_def TA_RSI_PERIOD_def Let_def closesFinite_def sampleCloses_def
      smoothAverages_def seedAverages_def close_diffs_def smoothStep_def numeral_eq_Suc jsub_def jnat_def
      num_simps)

lemma sample_bands:
  "bollingerBands sampleRoot sampleCloses =
     Some \<lparr>bb_middle = Fin 1, bb_upper = Fin (311 / 32), bb_lower = Fin (- (247 / 32))\<rparr>"
  by (simp add: bollingerBands_def TA_BB_PERIOD_def TA_BB_MULT_def Let_def closesFinite_def last_n_def
      sampleCloses_def sampleRoot_def numeral_eq_Suc jsub_def jnat_def jsum_def num_simps)

lemma sample_exit:
  "\<exists>d. maybeTaExhaustionExit sampleRoot (\<lambda>_. ''1e21'')
     \<lparr>tei_poolAddress = ''pool'', tei_positionId = ''p1'', tei_closes = sampleCloses\<rparr> = Some d"
proof -
  have n: "length sampleCloses = 35" "closesFinite sampleCloses" "last_close sampleCloses = Some (Fin 20)"
    by (simp_all add: sampleCloses_def closesFinite_def last_close_def list_all_iff)
  obtain h where h: "computeMacdHistogram sampleCloses = Some h"
    using macd_defined [of sampleCloses] n by auto
  show ?thesis
    by (simp add: maybeTaExhaustionExit_def taExhaustionSignals_def TA_EXHAUSTION_MIN_POINTS_def n
        sample_rsi sample_bands h computeBollingerUpper_def computeBollingerPercentB_def
        TA_RSI_OVERBOUGHT_def isTaExhausted_def jsub_def Let_def num_simps)
qed

theorem ta_exit_witness:
  "computeRsi2 sampleCloses = Some (Fin 100) \<and> 35 \<le> length sampleCloses \<and> closesFinite sampleCloses"
proof -
  obtain d where "maybeTaExhaustionExit sampleRoot (\<lambda>_. ''1e21'')
     \<lparr>tei_poolAddress = ''pool'', tei_positionId = ''p1'', tei_closes = sampleCloses\<rparr> = Some d"
    using sample_exit by blast
  from ta_exit_is_earned [OF this] show ?thesis by (simp add: sample_rsi)
qed

end
