(* ===== verification/EntryPrep.thy ===== *)
theory EntryPrep
  imports NumberText EntrySizing SafetyPause
begin

text \<open>
  Funding the legs of a live entry (\<^verbatim>\<open>engine/entry-prep-service.ts\<close>): the fixed-point
  arithmetic, the requirements and deficits of the two legs, and the two funding phases (out of
  native SOL, or out of USDC).  The adapter is a record of replies; a reply about the wallet may
  depend on everything done before, so it is a function of the trace of calls.  A preparation is a
  program in a monad of errors over that trace.  \<^verbatim>\<open>Effect.all\<close> runs its parts in list order, one
  of the orders its unbounded concurrency allows.
\<close>

section \<open>Constants\<close>

definition USDC_MINT :: string where
  "USDC_MINT = ''EPjFWdd5AufqSSqeM2qN1xzybapC8G4wEGGkZwyTDt1v''"

definition GAS_TOP_UP_USDC :: int where
  "GAS_TOP_UP_USDC = 2"

definition MIN_SOL_FOR_GAS_LAMPORTS :: int where
  "MIN_SOL_FOR_GAS_LAMPORTS = 30000000"

definition SOL_GAS_TOP_UP_THRESHOLD_LAMPORTS :: int where
  "SOL_GAS_TOP_UP_THRESHOLD_LAMPORTS = MIN_SOL_FOR_ENTRY_LAMPORTS"

definition USDC_DECIMALS :: nat where
  "USDC_DECIMALS = 6"

definition FIXED_POINT_SCALE :: nat where
  "FIXED_POINT_SCALE = 12"

section \<open>Fixed-point arithmetic\<close>

definition strip_zeros :: "string \<Rightarrow> string" where
  "strip_zeros s = rev (dropWhile (\<lambda>c. c = CHR ''0'') (rev s))"

definition formatAtomic :: "int \<Rightarrow> nat \<Rightarrow> string" where
  "formatAtomic amount decimals =
     (if decimals = 0 then bigint_text amount
      else
        let sign = (if amount < 0 then ''-'' else '''');
            absAmount = \<bar>amount\<bar>;
            divisor = 10 ^ decimals;
            whole = bigint_text (bigint_div absAmount divisor);
            remainder = bigint_text (bigint_rem absAmount divisor);
            frac = replicate (decimals - length remainder) (CHR ''0'') @ remainder;
            trimmed = strip_zeros (take (min decimals 6) frac)
        in if trimmed \<noteq> '''' then sign @ whole @ ''.'' @ trimmed else sign @ whole)"

text \<open>None is the exception of \<^verbatim>\<open>BigInt\<close> on a text that is no integer.\<close>

definition numberToScaledBigInt :: "(jsnum \<Rightarrow> string) \<Rightarrow> jsnum \<Rightarrow> int option" where
  "numberToScaledBigInt numText value =
     (let sign = (if jlt value (Fin 0) then ''-'' else '''');
          text = toFixed numText (jabs value) FIXED_POINT_SCALE;
          whole = takeWhile (\<lambda>c. c \<noteq> CHR ''.'') text;
          frac = takeWhile (\<lambda>c. c \<noteq> CHR ''.'') (drop 1 (dropWhile (\<lambda>c. c \<noteq> CHR ''.'') text))
      in read_bigint (sign @ whole @ frac @ replicate (FIXED_POINT_SCALE - length frac) (CHR ''0'')))"

definition isValidDecimals :: "jsnum \<Rightarrow> bool" where
  "isValidDecimals decimals \<longleftrightarrow>
     is_integer decimals \<and> jge decimals (Fin 0) \<and> jle decimals (Fin 255)"

text \<open>\<^verbatim>\<open>10n ** BigInt(decimals)\<close>, used for valid decimals only.\<close>

definition ten_pow :: "jsnum \<Rightarrow> int" where
  "ten_pow decimals = (case to_bigint decimals of Some d \<Rightarrow> 10 ^ nat d | None \<Rightarrow> 1)"

definition computeRequiredAtomic ::
  "(jsnum \<Rightarrow> string) \<Rightarrow> jsnum \<Rightarrow> jsnum \<Rightarrow> jsnum \<Rightarrow> int option" where
  "computeRequiredAtomic numText halfUsd price decimals =
     (if jle halfUsd (Fin 0) \<or> jle price (Fin 0) \<or> \<not> isValidDecimals decimals then Some 0
      else
        case (numberToScaledBigInt numText halfUsd, numberToScaledBigInt numText price) of
          (Some usdScaled, Some priceScaled) \<Rightarrow>
            if priceScaled = 0 then Some 0
            else Some (bigint_div (usdScaled * ten_pow decimals) priceScaled)
        | _ \<Rightarrow> None)"

definition computeUsdcInputAtomic ::
  "(jsnum \<Rightarrow> string) \<Rightarrow> int \<Rightarrow> jsnum \<Rightarrow> jsnum \<Rightarrow> int option" where
  "computeUsdcInputAtomic numText amount decimals price =
     (if \<not> isValidDecimals decimals then Some 0
      else
        case numberToScaledBigInt numText price of
          None \<Rightarrow> None
        | Some priceScaled \<Rightarrow>
            if priceScaled = 0 then Some 0
            else Some (ceil_div (amount * priceScaled * 10 ^ USDC_DECIMALS * 101)
              (ten_pow decimals * 100 * 10 ^ FIXED_POINT_SCALE)))"

definition computeSwapInputAtomic ::
  "(jsnum \<Rightarrow> string) \<Rightarrow> int \<Rightarrow> jsnum \<Rightarrow> jsnum \<Rightarrow> jsnum \<Rightarrow> jsnum \<Rightarrow> int option" where
  "computeSwapInputAtomic numText outputAmount outputDecimals outputPriceUsd inputDecimals inputPriceUsd =
     (if \<not> isValidDecimals outputDecimals \<or> \<not> isValidDecimals inputDecimals \<or>
         jle outputPriceUsd (Fin 0) \<or> jle inputPriceUsd (Fin 0) then Some 0
      else
        case (numberToScaledBigInt numText outputPriceUsd, numberToScaledBigInt numText inputPriceUsd) of
          (Some outputPriceScaled, Some inputPriceScaled) \<Rightarrow>
            if outputPriceScaled \<le> 0 \<or> inputPriceScaled \<le> 0 then Some 0
            else Some (ceil_div (outputAmount * outputPriceScaled * ten_pow inputDecimals * 101)
              (ten_pow outputDecimals * inputPriceScaled * 100))
        | _ \<Rightarrow> None)"

section \<open>Quotes\<close>

text \<open>A field of unknown type: a text, a number, or anything else (also a missing one).\<close>

datatype QuoteField = QuoteText string | QuoteNumber jsnum | QuoteOther

record SwapQuoteData =
  sqd_outAmount :: QuoteField
  sqd_otherAmountThreshold :: QuoteField

definition parseAtomicAmount :: "QuoteField \<Rightarrow> int option" where
  "parseAtomicAmount v =
     (case v of
        QuoteText s \<Rightarrow>
          if s = [] \<or> list_ex (\<lambda>c. digit_value c = None) s then None else read_bigint s
      | QuoteNumber n \<Rightarrow>
          if is_finite n \<and> jge n (Fin 0) then to_bigint (jfloor n) else None
      | QuoteOther \<Rightarrow> None)"

text \<open>Quote data that is no object is None.\<close>

definition quoteOutAmount :: "SwapQuoteData option \<Rightarrow> int" where
  "quoteOutAmount quoteData =
     (case quoteData of None \<Rightarrow> 0 | Some q \<Rightarrow> nullish (parseAtomicAmount (sqd_outAmount q)) 0)"

definition quoteGuaranteedOutAmount :: "SwapQuoteData option \<Rightarrow> int" where
  "quoteGuaranteedOutAmount quoteData =
     (case quoteData of
        None \<Rightarrow> 0
      | Some q \<Rightarrow>
          (case parseAtomicAmount (sqd_otherAmountThreshold q) of
             Some threshold \<Rightarrow> threshold
           | None \<Rightarrow> quoteOutAmount quoteData))"

section \<open>Legs and deficits\<close>

record PrepDeficit =
  pd_mint :: string
  pd_amount :: int
  pd_decimals :: jsnum
  pd_price :: jsnum

definition spendableLeg :: "int \<Rightarrow> bool \<Rightarrow> int \<Rightarrow> int" where
  "spendableLeg balance isSolLeg claimed =
     (let free = (if isSolLeg
            then (if balance > GAS_RESERVE_LAMPORTS then balance - GAS_RESERVE_LAMPORTS else 0)
            else balance)
      in if free > claimed then free - claimed else 0)"

definition solLegRequirement :: "string \<Rightarrow> string \<Rightarrow> int \<Rightarrow> int \<Rightarrow> int" where
  "solLegRequirement tokenX tokenY requiredX requiredY =
     (if tokenX = SOL_MINT then requiredX else 0) + (if tokenY = SOL_MINT then requiredY else 0)"

definition priceOrZero :: "(string \<Rightarrow> jsnum option) \<Rightarrow> string \<Rightarrow> jsnum" where
  "priceOrZero prices mint = nullish (prices mint) (Fin 0)"

definition prepPriceMints :: "string \<Rightarrow> string \<Rightarrow> bool \<Rightarrow> bool \<Rightarrow> string list" where
  "prepPriceMints tokenX tokenY xOnly solFunded =
     (if xOnly then (if solFunded then [tokenX, SOL_MINT] else [tokenX])
      else if solFunded then [tokenX, tokenY, SOL_MINT]
      else [tokenX, tokenY])"

definition isUsablePrice :: "jsnum \<Rightarrow> bool" where
  "isUsablePrice price \<longleftrightarrow> is_finite price \<and> jgt price (Fin 0)"

definition prepPricesValid :: "jsnum \<Rightarrow> jsnum \<Rightarrow> bool \<Rightarrow> bool" where
  "prepPricesValid priceX priceY xOnly \<longleftrightarrow>
     isUsablePrice priceX \<and> (xOnly \<or> isUsablePrice priceY)"

definition solFundedFromMode :: "AutonomousTokenMode \<Rightarrow> bool" where
  "solFundedFromMode mode \<longleftrightarrow> mode = ModeCanary \<or> mode = ModeLive"

definition shouldSkipPrep :: "bool \<Rightarrow> bool \<Rightarrow> bool" where
  "shouldSkipPrep autoSwapEntry solFunded \<longleftrightarrow> \<not> autoSwapEntry \<and> \<not> solFunded"

definition claimFor :: "(string \<rightharpoonup> int) \<Rightarrow> string \<Rightarrow> int" where
  "claimFor claims mint = nullish (claims mint) 0"

definition acquiredFill :: "int \<Rightarrow> int \<Rightarrow> int" where
  "acquiredFill balanceBefore balanceAfter =
     (if balanceAfter > balanceBefore then balanceAfter - balanceBefore else 0)"

definition gasTopUpFor :: "int \<Rightarrow> int" where
  "gasTopUpFor nativeSol =
     (if nativeSol \<ge> SOL_GAS_TOP_UP_THRESHOLD_LAMPORTS then 0
      else GAS_TOP_UP_USDC * 10 ^ USDC_DECIMALS)"

definition legsFunded :: "int \<Rightarrow> int \<Rightarrow> int \<Rightarrow> int \<Rightarrow> bool" where
  "legsFunded balanceX balanceY requiredX requiredY \<longleftrightarrow>
     \<not> balanceX < requiredX \<and> balanceY \<ge> requiredY"

definition spendableAfterClaim :: "int \<Rightarrow> int \<Rightarrow> int" where
  "spendableAfterClaim balance claimed = (if balance > claimed then balance - claimed else 0)"

definition gasDepleted :: "bool \<Rightarrow> int \<Rightarrow> bool" where
  "gasDepleted swapped nativeAfter \<longleftrightarrow> swapped \<and> nativeAfter < MIN_SOL_FOR_GAS_LAMPORTS"

definition legDeficit :: "string \<Rightarrow> int \<Rightarrow> int \<Rightarrow> jsnum \<Rightarrow> jsnum \<Rightarrow> bool \<Rightarrow> PrepDeficit option" where
  "legDeficit mint required available decimals price solFunded =
     (if required \<le> available then None
      else if \<not> solFunded \<or> mint \<noteq> SOL_MINT
      then Some \<lparr>pd_mint = mint, pd_amount = required - available, pd_decimals = decimals, pd_price = price\<rparr>
      else None)"

section \<open>Errors\<close>

datatype PrepCode =
    PriceUnavailable | SwapQuoteFailed | SwapTransactionFailed | InsufficientBalanceAfterSwap
  | InsufficientUsdcBalance | BalanceReadFailed | NoWallet

text \<open>The messages, with the texts and numbers they print.\<close>

datatype PrepReason =
    NoWalletConfigured
  | InvalidDecimals string jsnum
  | PoolStateUnread string
  | PricesUnread string
  | DecimalsUnread string string
  | InvalidLegPrices string jsnum string jsnum
  | ZeroRequirement string jsnum string jsnum
  | NativeUnread string
  | BalanceUnread string string
  | UsdcLegShort string string string
  | SwapOpsUnavailable
  | InvalidSolPrice jsnum
  | SolInputTooSmall
  | SpendableSolShort string string
  | QuoteFailed string string
  | GuaranteeBelowDeficit string
  | PrepareFailed string string
  | StoppedAfter nat nat string string
  | FillUnread string PrepReason
  | FinalSolUnread PrepReason
  | FinalMintUnread string PrepReason
  | StillInsufficient string string string string
  | NativeBelowGas string
  | UsdcShort string string string bool
  | UsdcInputTooSmall string
  | QuotedBelowDeficit string string string
  | UsdcSwapFailed string string

record EntryPreparationReceipt =
  rcp_inputMint :: string
  rcp_outputMint :: string
  rcp_inputAmountAtomic :: int
  rcp_acquiredAmountAtomic :: int
  rcp_txSignature :: string

datatype PrepStatus = PrepComplete | PrepPartial

record EntryPreparationOutcome =
  epo_status :: PrepStatus
  epo_receipts :: "EntryPreparationReceipt list"

record EntryPrepError =
  pe_code :: PrepCode
  pe_reason :: PrepReason
  pe_poolAddress :: string
  pe_partialPreparation :: "EntryPreparationOutcome option"

definition makePrepError ::
  "PrepCode \<Rightarrow> PrepReason \<Rightarrow> string \<Rightarrow> EntryPreparationOutcome option \<Rightarrow> EntryPrepError" where
  "makePrepError code reason poolAddress partialPreparation =
     \<lparr>pe_code = code, pe_reason = reason, pe_poolAddress = poolAddress,
      pe_partialPreparation = partialPreparation\<rparr>"

text \<open>An exception inside the generator is no \<^verbatim>\<open>EntryPrepError\<close>.\<close>

datatype PrepFailure = PrepFailed EntryPrepError | PrepThrown

section \<open>Requirements\<close>

definition opt_list :: "'a option \<Rightarrow> 'a list" where
  "opt_list x = (case x of None \<Rightarrow> [] | Some a \<Rightarrow> [a])"

record PrepRequirementsInput =
  pri_positionSizeUsd :: jsnum
  pri_tokenX :: string
  pri_tokenY :: string
  pri_priceX :: jsnum
  pri_priceY :: jsnum
  pri_tokenXDecimals :: jsnum
  pri_tokenYDecimals :: jsnum
  pri_xOnly :: bool

definition wrapBuffer :: "string \<Rightarrow> int" where
  "wrapBuffer mint = (if mint = SOL_MINT then SOL_ENTRY_TRANSACTION_BUFFER_LAMPORTS else 0)"

definition resolvePrepRequirements ::
  "(jsnum \<Rightarrow> string) \<Rightarrow> string \<Rightarrow> PrepRequirementsInput \<Rightarrow> PrepFailure + (int \<times> int)" where
  "resolvePrepRequirements numText poolAddress inp =
     (let halfUsd = (if pri_xOnly inp then pri_positionSizeUsd inp
            else jdiv (pri_positionSizeUsd inp) (Fin 2))
      in case (computeRequiredAtomic numText halfUsd (pri_priceX inp) (pri_tokenXDecimals inp),
               if pri_xOnly inp then Some 0
               else computeRequiredAtomic numText halfUsd (pri_priceY inp) (pri_tokenYDecimals inp)) of
           (Some atomicX, Some atomicY) \<Rightarrow>
             let requiredX = atomicX + wrapBuffer (pri_tokenX inp);
                 requiredY = (if pri_xOnly inp then 0 else atomicY + wrapBuffer (pri_tokenY inp))
             in if \<not> pri_xOnly inp \<and> (requiredX = 0 \<or> requiredY = 0)
                then Inl (PrepFailed (makePrepError PriceUnavailable
                  (ZeroRequirement (pri_tokenX inp) (pri_priceX inp) (pri_tokenY inp) (pri_priceY inp))
                  poolAddress None))
                else Inr (requiredX, requiredY)
         | _ \<Rightarrow> Inl PrepThrown)"

record PrepSingleSidedInput = PrepRequirementsInput +
  psi_requiredX :: int
  psi_requiredY :: int
  psi_availableX :: int
  psi_availableY :: int

definition singleSidedNativeDeposit ::
  "(jsnum \<Rightarrow> string) \<Rightarrow> PrepSingleSidedInput \<Rightarrow> PrepFailure + bool" where
  "singleSidedNativeDeposit numText inp =
     (let xLegShort = psi_requiredX inp > psi_availableX inp;
          yLegShort = psi_requiredY inp > psi_availableY inp
      in if pri_xOnly inp \<or> xLegShort = yLegShort then Inr False
         else
           let heldIsX = yLegShort;
               heldMint = (if heldIsX then pri_tokenX inp else pri_tokenY inp);
               heldDecimals = (if heldIsX then pri_tokenXDecimals inp else pri_tokenYDecimals inp);
               heldPrice = (if heldIsX then pri_priceX inp else pri_priceY inp);
               heldAvailable = (if heldIsX then psi_availableX inp else psi_availableY inp)
           in case computeRequiredAtomic numText (pri_positionSizeUsd inp) heldPrice heldDecimals of
                None \<Rightarrow> Inl PrepThrown
              | Some atomic \<Rightarrow>
                  let fullSizeRequired = atomic + wrapBuffer heldMint
                  in Inr (fullSizeRequired > 0 \<and> heldAvailable \<ge> fullSizeRequired))"

record PrepDeficitInput =
  pdi_solFunded :: bool
  pdi_tokenX :: string
  pdi_tokenY :: string
  pdi_requiredX :: int
  pdi_requiredY :: int
  pdi_availableX :: int
  pdi_availableY :: int
  pdi_tokenXDecimals :: jsnum
  pdi_tokenYDecimals :: jsnum
  pdi_priceX :: jsnum
  pdi_priceY :: jsnum

definition legUsdcShortfallError ::
  "string \<Rightarrow> bool \<Rightarrow> int \<Rightarrow> int \<Rightarrow> string \<Rightarrow> string \<Rightarrow> EntryPrepError option" where
  "legUsdcShortfallError mint solFunded required available legLabel poolAddress =
     (if solFunded \<or> mint \<noteq> USDC_MINT \<or> required \<le> available then None
      else Some (makePrepError InsufficientUsdcBalance
        (UsdcLegShort (formatAtomic available USDC_DECIMALS) (formatAtomic required USDC_DECIMALS) legLabel)
        poolAddress None))"

definition collectPrepDeficits ::
  "string \<Rightarrow> PrepDeficitInput \<Rightarrow> PrepFailure + PrepDeficit list" where
  "collectPrepDeficits poolAddress inp =
     (case legUsdcShortfallError (pdi_tokenX inp) (pdi_solFunded inp) (pdi_requiredX inp)
             (pdi_availableX inp) ''X'' poolAddress of
        Some shortX \<Rightarrow> Inl (PrepFailed shortX)
      | None \<Rightarrow>
          (case legUsdcShortfallError (pdi_tokenY inp) (pdi_solFunded inp) (pdi_requiredY inp)
                  (pdi_availableY inp) ''Y'' poolAddress of
             Some shortY \<Rightarrow> Inl (PrepFailed shortY)
           | None \<Rightarrow>
               Inr (opt_list (legDeficit (pdi_tokenX inp) (pdi_requiredX inp) (pdi_availableX inp)
                      (pdi_tokenXDecimals inp) (pdi_priceX inp) (pdi_solFunded inp)) @
                    opt_list (legDeficit (pdi_tokenY inp) (pdi_requiredY inp) (pdi_availableY inp)
                      (pdi_tokenYDecimals inp) (pdi_priceY inp) (pdi_solFunded inp)))))"

definition insufficientUsdcError :: "int \<Rightarrow> int \<Rightarrow> int \<Rightarrow> bool \<Rightarrow> string \<Rightarrow> EntryPrepError" where
  "insufficientUsdcError spendable claimed required topUp poolAddress =
     makePrepError InsufficientUsdcBalance
       (UsdcShort (formatAtomic spendable USDC_DECIMALS) (formatAtomic claimed USDC_DECIMALS)
         (formatAtomic required USDC_DECIMALS) topUp)
       poolAddress None"

section \<open>The surroundings\<close>

record SwapRequest =
  srq_inputMint :: string
  srq_outputMint :: string
  srq_amountAtomic :: int
  srq_slippageBps :: jsnum

record SwapQuote =
  swq_request :: SwapRequest
  swq_outAmountAtomic :: int
  swq_minimumOutAmountAtomic :: int

record PreparedSwap =
  psw_quote :: SwapQuote
  psw_transactionBase64 :: string

text \<open>A failure of the USDC swap: its tag, the tag of its cause and its text.\<close>

record AdapterFailure =
  adf_tag :: "string option"
  adf_causeTag :: "string option"
  adf_text :: string

definition isSwapQuoteError :: "AdapterFailure \<Rightarrow> bool" where
  "isSwapQuoteError err \<longleftrightarrow>
     adf_tag err = Some ''SwapQuoteError'' \<or> adf_causeTag err = Some ''SwapQuoteError''"

text \<open>The calls of a preparation; a submission records its signature when it succeeds.\<close>

datatype PrepEvent =
    NativeRead
  | MintRead string
  | SwapQuoteAsked SwapRequest
  | SwapBuilt SwapQuote
  | SwapSimulated PreparedSwap
  | SwapSent PreparedSwap "string option"
  | UsdcQuoteAsked string int
  | UsdcSwapSent string int "string option"

text \<open>
  What the adapter and the database answer.  \<open>prr_settlementJobs\<close> is None when the jobs cannot be
  read, \<open>prr_hasSwapOps\<close> whether the adapter has all four swap operations.
\<close>

record PrepReplies =
  prr_hasWallet :: bool
  prr_walletAddress :: "string option"
  prr_poolTokens :: "string + (string \<times> string)"
  prr_tokenPrices :: "string list \<Rightarrow> string + (string \<Rightarrow> jsnum option)"
  prr_tokenDecimals :: "string \<Rightarrow> string + jsnum"
  prr_settlementJobs :: "SettlementJobRecord list option"
  prr_nativeSol :: "PrepEvent list \<Rightarrow> string + int"
  prr_tokenBalance :: "PrepEvent list \<Rightarrow> string \<Rightarrow> string + int"
  prr_hasSwapOps :: bool
  prr_quoteSwap :: "SwapRequest \<Rightarrow> string + SwapQuote"
  prr_prepareSwap :: "SwapQuote \<Rightarrow> string + PreparedSwap"
  prr_simulateSwap :: "PreparedSwap \<Rightarrow> string + unit"
  prr_submitSwap :: "PrepEvent list \<Rightarrow> PreparedSwap \<Rightarrow> string + string"
  prr_quoteUsdc :: "string \<Rightarrow> int \<Rightarrow> string + SwapQuoteData option"
  prr_swapUsdc :: "PrepEvent list \<Rightarrow> string \<Rightarrow> int \<Rightarrow> SwapQuoteData option \<Rightarrow> AdapterFailure + string"

record PrepConfig =
  pcf_autonomousTokenMode :: AutonomousTokenMode
  pcf_autoSwapEntry :: bool
  pcf_maxSwapSlippageBps :: "jsnum option"

section \<open>Programs over the trace\<close>

type_synonym 'a prep = "PrepEvent list \<Rightarrow> (PrepFailure + 'a) \<times> PrepEvent list"

definition prep_return :: "'a \<Rightarrow> 'a prep" where
  "prep_return a = (\<lambda>t. (Inr a, t))"

definition prep_lift :: "PrepFailure + 'a \<Rightarrow> 'a prep" where
  "prep_lift r = (\<lambda>t. (r, t))"

definition prep_fail :: "PrepCode \<Rightarrow> PrepReason \<Rightarrow> string \<Rightarrow> EntryPreparationOutcome option \<Rightarrow> 'a prep" where
  "prep_fail code reason poolAddress partial =
     (\<lambda>t. (Inl (PrepFailed (makePrepError code reason poolAddress partial)), t))"

definition prep_bind :: "'a prep \<Rightarrow> ('a \<Rightarrow> 'b prep) \<Rightarrow> 'b prep" where
  "prep_bind m f =
     (\<lambda>t. case m t of (Inl e, t') \<Rightarrow> (Inl e, t') | (Inr a, t') \<Rightarrow> f a t')"

definition prep_then :: "unit prep \<Rightarrow> 'b prep \<Rightarrow> 'b prep" where
  "prep_then m k = prep_bind m (\<lambda>_. k)"

text \<open>A guard: a failure when the condition does not hold.\<close>

definition prep_guard :: "bool \<Rightarrow> PrepCode \<Rightarrow> PrepReason \<Rightarrow> string \<Rightarrow> EntryPreparationOutcome option \<Rightarrow> unit prep" where
  "prep_guard b code reason poolAddress partial =
     (if b then prep_return () else prep_fail code reason poolAddress partial)"

text \<open>A call: its reply to the trace so far, recorded as an event, with its failure translated.\<close>

definition prep_call ::
  "(PrepEvent list \<Rightarrow> 'e + 'a) \<Rightarrow> ('e + 'a \<Rightarrow> PrepEvent) \<Rightarrow> ('e \<Rightarrow> EntryPrepError) \<Rightarrow> 'a prep" where
  "prep_call reply event wrap =
     (\<lambda>t. (case reply t of Inl e \<Rightarrow> Inl (PrepFailed (wrap e)) | Inr a \<Rightarrow> Inr a, t @ [event (reply t)]))"

definition prep_map_error :: "(EntryPrepError \<Rightarrow> EntryPrepError) \<Rightarrow> 'a prep \<Rightarrow> 'a prep" where
  "prep_map_error g m =
     (\<lambda>t. case m t of (Inl (PrepFailed e), t') \<Rightarrow> (Inl (PrepFailed (g e)), t') | r \<Rightarrow> r)"

fun prep_all :: "('a \<Rightarrow> 'b prep) \<Rightarrow> 'a list \<Rightarrow> 'b list prep" where
  "prep_all f [] = prep_return []"
| "prep_all f (a # as) = prep_bind (f a) (\<lambda>b. prep_bind (prep_all f as) (\<lambda>bs. prep_return (b # bs)))"

section \<open>Reads\<close>

definition readNativeSol :: "PrepReplies \<Rightarrow> string \<Rightarrow> int prep" where
  "readNativeSol env poolAddress =
     prep_call (prr_nativeSol env) (\<lambda>_. NativeRead)
       (\<lambda>err. makePrepError BalanceReadFailed (NativeUnread err) poolAddress None)"

definition readMintBalance :: "PrepReplies \<Rightarrow> string \<Rightarrow> string \<Rightarrow> int prep" where
  "readMintBalance env mint poolAddress =
     prep_call (\<lambda>t. prr_tokenBalance env t mint) (\<lambda>_. MintRead mint)
       (\<lambda>err. makePrepError BalanceReadFailed (BalanceUnread mint err) poolAddress None)"

definition readLegBalance :: "PrepReplies \<Rightarrow> string \<Rightarrow> int \<Rightarrow> string \<Rightarrow> int prep" where
  "readLegBalance env mint nativeSol poolAddress =
     (if mint = SOL_MINT then prep_return nativeSol else readMintBalance env mint poolAddress)"

record PrepMarketData =
  pmd_tokenX :: string
  pmd_tokenY :: string
  pmd_priceX :: jsnum
  pmd_priceY :: jsnum
  pmd_tokenXDecimals :: jsnum
  pmd_tokenYDecimals :: jsnum
  pmd_solPrice :: jsnum

fun validateTokenDecimals :: "(string \<times> jsnum) list \<Rightarrow> string \<Rightarrow> PrepFailure + unit" where
  "validateTokenDecimals [] poolAddress = Inr ()"
| "validateTokenDecimals ((mint, decimals) # rest) poolAddress =
     (if \<not> isValidDecimals decimals
      then Inl (PrepFailed (makePrepError PriceUnavailable (InvalidDecimals mint decimals) poolAddress None))
      else validateTokenDecimals rest poolAddress)"

definition priceError :: "(string \<Rightarrow> PrepReason) \<Rightarrow> string \<Rightarrow> string + 'a \<Rightarrow> PrepFailure + 'a" where
  "priceError reason poolAddress r =
     (case r of
        Inl err \<Rightarrow> Inl (PrepFailed (makePrepError PriceUnavailable (reason err) poolAddress None))
      | Inr a \<Rightarrow> Inr a)"

definition loadPrepMarketData :: "PrepReplies \<Rightarrow> string \<Rightarrow> bool \<Rightarrow> bool \<Rightarrow> PrepMarketData prep" where
  "loadPrepMarketData env poolAddress xOnly solFunded =
     prep_bind (prep_lift (priceError PoolStateUnread poolAddress (prr_poolTokens env))) (\<lambda>(tokenX, tokenY).
     prep_bind (prep_lift (priceError PricesUnread poolAddress
         (prr_tokenPrices env (prepPriceMints tokenX tokenY xOnly solFunded)))) (\<lambda>prices.
     prep_bind (prep_lift (priceError (DecimalsUnread tokenX) poolAddress
         (prr_tokenDecimals env tokenX))) (\<lambda>tokenXDecimals.
     prep_bind (if xOnly then prep_return (Fin 0)
         else prep_lift (priceError (DecimalsUnread tokenY) poolAddress
           (prr_tokenDecimals env tokenY))) (\<lambda>tokenYDecimals.
     prep_then (prep_lift (validateTokenDecimals
         ((tokenX, tokenXDecimals) # (if xOnly then [] else [(tokenY, tokenYDecimals)])) poolAddress))
     (let priceX = priceOrZero prices tokenX; priceY = priceOrZero prices tokenY;
          solPrice = priceOrZero prices SOL_MINT
      in prep_then (prep_guard (prepPricesValid priceX priceY xOnly) PriceUnavailable
             (InvalidLegPrices tokenX priceX tokenY priceY) poolAddress None)
         (prep_return \<lparr>pmd_tokenX = tokenX, pmd_tokenY = tokenY, pmd_priceX = priceX,
           pmd_priceY = priceY, pmd_tokenXDecimals = tokenXDecimals,
           pmd_tokenYDecimals = tokenYDecimals, pmd_solPrice = solPrice\<rparr>))))))"

definition addClaim :: "(string \<rightharpoonup> int) \<Rightarrow> SettlementJobRecord \<Rightarrow> (string \<rightharpoonup> int)" where
  "addClaim claims job =
     (if sj_status job = Confirmed \<or> sj_status job = Terminal then claims
      else if sj_amountAtomic job \<le> 0 then claims
      else claims(sj_tokenMint job \<mapsto> claimFor claims (sj_tokenMint job) + sj_amountAtomic job))"

definition readPendingSettlementClaims :: "PrepReplies \<Rightarrow> (string \<rightharpoonup> int)" where
  "readPendingSettlementClaims env =
     (case prr_walletAddress env of
        None \<Rightarrow> Map.empty
      | Some wallet \<Rightarrow> foldl addClaim Map.empty (nullish (prr_settlementJobs env) []))"

section \<open>Funding out of SOL\<close>

text \<open>What the two phases close over.\<close>

record PrepPlan =
  ppl_poolAddress :: string
  ppl_tokenX :: string
  ppl_tokenY :: string
  ppl_requiredX :: int
  ppl_requiredY :: int
  ppl_tokenXDecimals :: jsnum
  ppl_tokenYDecimals :: jsnum
  ppl_nativeSol :: int
  ppl_pendingClaims :: "string \<rightharpoonup> int"
  ppl_solPrice :: jsnum
  ppl_deficits :: "PrepDeficit list"

definition partialOutcome :: "EntryPreparationReceipt list \<Rightarrow> EntryPreparationOutcome" where
  "partialOutcome receipts = \<lparr>epo_status = PrepPartial, epo_receipts = receipts\<rparr>"

text \<open>\<^verbatim>\<open>formatAtomic\<close> with the decimals of a leg, a number.\<close>

definition formatLeg :: "int \<Rightarrow> jsnum \<Rightarrow> string" where
  "formatLeg amount decimals = formatAtomic amount (case to_bigint decimals of Some d \<Rightarrow> nat d | None \<Rightarrow> 0)"

definition readSolPhaseLeg ::
  "PrepReplies \<Rightarrow> PrepPlan \<Rightarrow> string \<Rightarrow> int \<Rightarrow> EntryPreparationReceipt list \<Rightarrow> int prep" where
  "readSolPhaseLeg env plan mint nativeAfter receipts =
     (if mint = SOL_MINT then prep_return nativeAfter
      else prep_map_error (\<lambda>err. makePrepError SwapTransactionFailed (FinalMintUnread mint (pe_reason err))
               (ppl_poolAddress plan) (Some (partialOutcome receipts)))
             (readMintBalance env mint (ppl_poolAddress plan)))"

text \<open>The swap input of every deficit; None when \<^verbatim>\<open>BigInt\<close> throws.\<close>

fun solRequests ::
  "(jsnum \<Rightarrow> string) \<Rightarrow> jsnum \<Rightarrow> PrepDeficit list \<Rightarrow> (PrepDeficit \<times> int) list option" where
  "solRequests numText solPrice [] = Some []"
| "solRequests numText solPrice (d # ds) =
     (case (computeSwapInputAtomic numText (pd_amount d) (pd_decimals d) (pd_price d) (Fin 9) solPrice,
            solRequests numText solPrice ds) of
        (Some amountAtomic, Some rest) \<Rightarrow> Some ((d, amountAtomic) # rest)
      | _ \<Rightarrow> None)"

definition quoteSolSwap ::
  "PrepReplies \<Rightarrow> PrepConfig \<Rightarrow> PrepPlan \<Rightarrow> PrepDeficit \<times> int \<Rightarrow> (PrepDeficit \<times> SwapQuote) prep" where
  "quoteSolSwap env cfg plan = (\<lambda>(deficit, amountAtomic).
     let request = \<lparr>srq_inputMint = SOL_MINT, srq_outputMint = pd_mint deficit,
            srq_amountAtomic = amountAtomic,
            srq_slippageBps = jmin (nullish (pcf_maxSwapSlippageBps cfg) (Fin 50)) (Fin 50)\<rparr>
     in prep_bind (prep_call (\<lambda>_. prr_quoteSwap env request) (\<lambda>_. SwapQuoteAsked request)
            (\<lambda>err. makePrepError SwapQuoteFailed (QuoteFailed (pd_mint deficit) err)
              (ppl_poolAddress plan) None)) (\<lambda>quote.
        prep_then (prep_guard (swq_minimumOutAmountAtomic quote \<ge> pd_amount deficit) SwapQuoteFailed
              (GuaranteeBelowDeficit (pd_mint deficit)) (ppl_poolAddress plan) None)
          (prep_return (deficit, quote))))"

definition prepareSolSwap ::
  "PrepReplies \<Rightarrow> PrepPlan \<Rightarrow> PrepDeficit \<times> SwapQuote \<Rightarrow> (PrepDeficit \<times> PreparedSwap) prep" where
  "prepareSolSwap env plan = (\<lambda>(deficit, quote).
     let failed = (\<lambda>err. makePrepError SwapTransactionFailed (PrepareFailed (pd_mint deficit) err)
            (ppl_poolAddress plan) None)
     in prep_bind (prep_call (\<lambda>_. prr_prepareSwap env quote) (\<lambda>_. SwapBuilt quote) failed) (\<lambda>operation.
        prep_bind (prep_call (\<lambda>_. prr_simulateSwap env operation) (\<lambda>_. SwapSimulated operation) failed)
          (\<lambda>_. prep_return (deficit, operation))))"

definition swapReceipt :: "PrepDeficit \<Rightarrow> PreparedSwap \<Rightarrow> int \<Rightarrow> string \<Rightarrow> EntryPreparationReceipt" where
  "swapReceipt deficit operation acquired signature =
     \<lparr>rcp_inputMint = SOL_MINT, rcp_outputMint = pd_mint deficit,
      rcp_inputAmountAtomic = srq_amountAtomic (swq_request (psw_quote operation)),
      rcp_acquiredAmountAtomic = acquired, rcp_txSignature = signature\<rparr>"

definition sendSolSwap ::
  "PrepReplies \<Rightarrow> PrepPlan \<Rightarrow> nat \<Rightarrow> EntryPreparationReceipt list \<Rightarrow> PrepDeficit \<Rightarrow> PreparedSwap \<Rightarrow> string prep" where
  "sendSolSwap env plan planned receipts deficit operation =
     prep_call (\<lambda>t. prr_submitSwap env t operation)
       (\<lambda>r. SwapSent operation (case r of Inl _ \<Rightarrow> None | Inr signature \<Rightarrow> Some signature))
       (\<lambda>err. makePrepError SwapTransactionFailed
         (StoppedAfter (length receipts) planned (pd_mint deficit) err) (ppl_poolAddress plan)
         (if receipts = [] then None else Some (partialOutcome receipts)))"

definition readFill ::
  "PrepReplies \<Rightarrow> PrepPlan \<Rightarrow> EntryPreparationReceipt list \<Rightarrow> PrepDeficit \<Rightarrow> PreparedSwap \<Rightarrow> string \<Rightarrow> int prep" where
  "readFill env plan receipts deficit operation signature =
     prep_map_error (\<lambda>err. makePrepError SwapTransactionFailed (FillUnread signature (pe_reason err))
         (ppl_poolAddress plan)
         (Some (partialOutcome (receipts @ [swapReceipt deficit operation 0 signature]))))
       (readMintBalance env (pd_mint deficit) (ppl_poolAddress plan))"

fun submitSolSwaps ::
  "PrepReplies \<Rightarrow> PrepPlan \<Rightarrow> nat \<Rightarrow> EntryPreparationReceipt list
   \<Rightarrow> (PrepDeficit \<times> PreparedSwap) list \<Rightarrow> EntryPreparationReceipt list prep" where
  "submitSolSwaps env plan planned receipts [] = prep_return receipts"
| "submitSolSwaps env plan planned receipts ((deficit, operation) # rest) =
     prep_bind (readMintBalance env (pd_mint deficit) (ppl_poolAddress plan)) (\<lambda>balanceBefore.
     prep_bind (sendSolSwap env plan planned receipts deficit operation) (\<lambda>signature.
     prep_bind (readFill env plan receipts deficit operation signature) (\<lambda>balanceAfter.
       submitSolSwaps env plan planned
         (receipts @ [swapReceipt deficit operation (acquiredFill balanceBefore balanceAfter) signature])
         rest)))"

text \<open>The reconciliation after the submissions.\<close>

definition finishSolPhase ::
  "PrepReplies \<Rightarrow> PrepPlan \<Rightarrow> EntryPreparationReceipt list \<Rightarrow> EntryPreparationOutcome prep" where
  "finishSolPhase env plan receipts =
     prep_bind (prep_map_error (\<lambda>err. makePrepError SwapTransactionFailed (FinalSolUnread (pe_reason err))
           (ppl_poolAddress plan) (Some (partialOutcome receipts)))
         (readNativeSol env (ppl_poolAddress plan))) (\<lambda>nativeSolAfter.
     prep_bind (readSolPhaseLeg env plan (ppl_tokenX plan) nativeSolAfter receipts) (\<lambda>balanceXAfter.
     prep_bind (readSolPhaseLeg env plan (ppl_tokenY plan) nativeSolAfter receipts) (\<lambda>balanceYAfter.
     prep_then (prep_guard
         (legsFunded balanceXAfter balanceYAfter (ppl_requiredX plan) (ppl_requiredY plan))
         InsufficientBalanceAfterSwap
         (StillInsufficient (formatLeg balanceXAfter (ppl_tokenXDecimals plan))
           (formatLeg (ppl_requiredX plan) (ppl_tokenXDecimals plan))
           (formatLeg balanceYAfter (ppl_tokenYDecimals plan))
           (formatLeg (ppl_requiredY plan) (ppl_tokenYDecimals plan)))
         (ppl_poolAddress plan) (Some (partialOutcome receipts)))
     (prep_then (prep_guard (\<not> nativeSolAfter < MIN_SOL_FOR_GAS_LAMPORTS) InsufficientBalanceAfterSwap
         (NativeBelowGas (formatAtomic nativeSolAfter 9)) (ppl_poolAddress plan)
         (Some (partialOutcome receipts)))
     (prep_return \<lparr>epo_status = PrepComplete, epo_receipts = receipts\<rparr>)))))"

definition runSolFundedPhase ::
  "(jsnum \<Rightarrow> string) \<Rightarrow> PrepReplies \<Rightarrow> PrepConfig \<Rightarrow> PrepPlan \<Rightarrow> EntryPreparationOutcome prep" where
  "runSolFundedPhase numText env cfg plan =
     prep_then (prep_guard (prr_hasSwapOps env) SwapTransactionFailed SwapOpsUnavailable
         (ppl_poolAddress plan) None)
     (prep_then (prep_guard (isUsablePrice (ppl_solPrice plan)) PriceUnavailable
         (InvalidSolPrice (ppl_solPrice plan)) (ppl_poolAddress plan) None)
     (prep_bind (prep_lift (case solRequests numText (ppl_solPrice plan) (ppl_deficits plan) of
           None \<Rightarrow> Inl PrepThrown | Some requests \<Rightarrow> Inr requests)) (\<lambda>requests.
     prep_then (prep_guard (\<not> list_ex (\<lambda>(_, amountAtomic). amountAtomic \<le> 0) requests) SwapQuoteFailed
         SolInputTooSmall (ppl_poolAddress plan) None)
     (let poolSolRequirement = solLegRequirement (ppl_tokenX plan) (ppl_tokenY plan)
            (ppl_requiredX plan) (ppl_requiredY plan);
          totalSolRequired = poolSolRequirement + foldl (\<lambda>total request. total + snd request) 0 requests;
          spendableSol = spendableLeg (ppl_nativeSol plan) True 0
      in prep_then (prep_guard (\<not> spendableSol < totalSolRequired) InsufficientBalanceAfterSwap
             (SpendableSolShort (formatAtomic spendableSol 9) (formatAtomic totalSolRequired 9))
             (ppl_poolAddress plan) None)
         (prep_bind (prep_all (quoteSolSwap env cfg plan) requests) (\<lambda>quoted.
          prep_bind (prep_all (prepareSolSwap env plan) quoted) (\<lambda>prepared.
          prep_bind (submitSolSwaps env plan (length prepared) [] prepared) (\<lambda>receipts.
          finishSolPhase env plan receipts))))))))"

section \<open>Funding out of USDC\<close>

fun usdcInputs :: "(jsnum \<Rightarrow> string) \<Rightarrow> PrepDeficit list \<Rightarrow> (PrepDeficit \<times> int) list option" where
  "usdcInputs numText [] = Some []"
| "usdcInputs numText (d # ds) =
     (case (computeUsdcInputAtomic numText (pd_amount d) (pd_decimals d) (pd_price d), usdcInputs numText ds) of
        (Some input, Some rest) \<Rightarrow> Some ((d, input) # rest)
      | _ \<Rightarrow> None)"

definition quoteUsdcSwap ::
  "PrepReplies \<Rightarrow> PrepPlan \<Rightarrow> PrepDeficit \<times> int \<Rightarrow> (PrepDeficit \<times> SwapQuoteData option) prep" where
  "quoteUsdcSwap env plan = (\<lambda>(deficit, usdcInputAtomic).
     prep_then (prep_guard (\<not> usdcInputAtomic \<le> 0) SwapQuoteFailed (UsdcInputTooSmall (pd_mint deficit))
         (ppl_poolAddress plan) None)
     (prep_bind (prep_call (\<lambda>_. prr_quoteUsdc env (pd_mint deficit) usdcInputAtomic)
         (\<lambda>_. UsdcQuoteAsked (pd_mint deficit) usdcInputAtomic)
         (\<lambda>err. makePrepError SwapQuoteFailed (QuoteFailed (pd_mint deficit) err) (ppl_poolAddress plan) None))
       (\<lambda>quoteData.
          let outAmount = quoteGuaranteedOutAmount quoteData
          in prep_then (prep_guard (\<not> outAmount < pd_amount deficit) SwapQuoteFailed
                 (QuotedBelowDeficit (pd_mint deficit) (formatLeg outAmount (pd_decimals deficit))
                   (formatLeg (pd_amount deficit) (pd_decimals deficit))) (ppl_poolAddress plan) None)
             (prep_return (deficit, quoteData)))))"

definition preflightedQuote :: "(PrepDeficit \<times> SwapQuoteData option) list \<Rightarrow> string \<Rightarrow> SwapQuoteData option" where
  "preflightedQuote quotes mint =
     (case map_of (rev (map (\<lambda>(d, q). (pd_mint d, q)) quotes)) mint of None \<Rightarrow> None | Some q \<Rightarrow> q)"

fun sendUsdcSwaps ::
  "PrepReplies \<Rightarrow> PrepPlan \<Rightarrow> (PrepDeficit \<times> SwapQuoteData option) list
   \<Rightarrow> (PrepDeficit \<times> int) list \<Rightarrow> bool \<Rightarrow> bool prep" where
  "sendUsdcSwaps env plan quotes [] swapped = prep_return swapped"
| "sendUsdcSwaps env plan quotes ((deficit, usdcInputAtomic) # rest) swapped =
     prep_then (prep_guard (usdcInputAtomic > 0) SwapQuoteFailed (UsdcInputTooSmall (pd_mint deficit))
         (ppl_poolAddress plan) None)
     (prep_bind (prep_call
         (\<lambda>t. prr_swapUsdc env t (pd_mint deficit) usdcInputAtomic (preflightedQuote quotes (pd_mint deficit)))
         (\<lambda>r. UsdcSwapSent (pd_mint deficit) usdcInputAtomic
           (case r of Inl _ \<Rightarrow> None | Inr signature \<Rightarrow> Some signature))
         (\<lambda>err. if isSwapQuoteError err
            then makePrepError SwapQuoteFailed (QuoteFailed (pd_mint deficit) (adf_text err))
              (ppl_poolAddress plan) None
            else makePrepError SwapTransactionFailed (UsdcSwapFailed (pd_mint deficit) (adf_text err))
              (ppl_poolAddress plan) None))
       (\<lambda>_. sendUsdcSwaps env plan quotes rest True))"

definition runUsdcPhase :: "(jsnum \<Rightarrow> string) \<Rightarrow> PrepReplies \<Rightarrow> PrepPlan \<Rightarrow> unit prep" where
  "runUsdcPhase numText env plan =
     prep_bind (readMintBalance env USDC_MINT (ppl_poolAddress plan)) (\<lambda>usdcBalance.
     let usdcClaimed = claimFor (ppl_pendingClaims plan) USDC_MINT;
         spendableUsdc = spendableAfterClaim usdcBalance usdcClaimed
     in prep_bind (prep_lift (case usdcInputs numText (ppl_deficits plan) of
              None \<Rightarrow> Inl PrepThrown | Some inputs \<Rightarrow> Inr inputs)) (\<lambda>inputs.
        let totalUsdcInputAtomic = foldl (\<lambda>total d. total + snd d) 0 inputs;
            requiredUsdcPoolLeg = (if ppl_tokenX plan = USDC_MINT then ppl_requiredX plan else 0) +
              (if ppl_tokenY plan = USDC_MINT then ppl_requiredY plan else 0);
            needsGasTopUp = ppl_nativeSol plan < SOL_GAS_TOP_UP_THRESHOLD_LAMPORTS;
            totalUsdcRequired = totalUsdcInputAtomic + requiredUsdcPoolLeg + gasTopUpFor (ppl_nativeSol plan)
        in prep_then (if spendableUsdc < totalUsdcRequired
              then prep_lift (Inl (PrepFailed (insufficientUsdcError spendableUsdc usdcClaimed
                totalUsdcRequired needsGasTopUp (ppl_poolAddress plan))))
              else prep_return ())
           (prep_bind (prep_all (quoteUsdcSwap env plan) inputs) (\<lambda>quotes.
            prep_bind (sendUsdcSwaps env plan quotes inputs False) (\<lambda>swapped.
            prep_bind (if swapped then readNativeSol env (ppl_poolAddress plan) else prep_return 0)
              (\<lambda>nativeSolAfter.
            prep_bind (readLegBalance env (ppl_tokenX plan) nativeSolAfter (ppl_poolAddress plan))
              (\<lambda>balanceXAfter.
            prep_bind (readLegBalance env (ppl_tokenY plan) nativeSolAfter (ppl_poolAddress plan))
              (\<lambda>balanceYAfter.
            prep_then (prep_guard
                (legsFunded balanceXAfter balanceYAfter (ppl_requiredX plan) (ppl_requiredY plan))
                InsufficientBalanceAfterSwap
                (StillInsufficient (formatLeg balanceXAfter (ppl_tokenXDecimals plan))
                  (formatLeg (ppl_requiredX plan) (ppl_tokenXDecimals plan))
                  (formatLeg balanceYAfter (ppl_tokenYDecimals plan))
                  (formatLeg (ppl_requiredY plan) (ppl_tokenYDecimals plan)))
                (ppl_poolAddress plan) None)
            (prep_guard (\<not> gasDepleted swapped nativeSolAfter) InsufficientBalanceAfterSwap
                (NativeBelowGas (formatAtomic nativeSolAfter 9)) (ppl_poolAddress plan) None)))))))))"

section \<open>The preparation\<close>

definition prepareEntryTokens ::
  "(jsnum \<Rightarrow> string) \<Rightarrow> PrepReplies \<Rightarrow> PrepConfig \<Rightarrow> string \<Rightarrow> jsnum \<Rightarrow> bool
   \<Rightarrow> EntryPreparationOutcome option prep" where
  "prepareEntryTokens numText env cfg poolAddress positionSizeUsd xOnly =
     (let solFunded = solFundedFromMode (pcf_autonomousTokenMode cfg)
      in if shouldSkipPrep (pcf_autoSwapEntry cfg) solFunded then prep_return None
         else prep_then (prep_guard (prr_hasWallet env) NoWallet NoWalletConfigured poolAddress None)
         (prep_bind (loadPrepMarketData env poolAddress xOnly solFunded) (\<lambda>m.
          let inp = \<lparr>pri_positionSizeUsd = positionSizeUsd, pri_tokenX = pmd_tokenX m,
                pri_tokenY = pmd_tokenY m, pri_priceX = pmd_priceX m, pri_priceY = pmd_priceY m,
                pri_tokenXDecimals = pmd_tokenXDecimals m, pri_tokenYDecimals = pmd_tokenYDecimals m,
                pri_xOnly = xOnly\<rparr>
          in prep_bind (prep_lift (resolvePrepRequirements numText poolAddress inp)) (\<lambda>(requiredX, requiredY).
             prep_bind (readNativeSol env poolAddress) (\<lambda>nativeSolLamports.
             let pendingClaims = readPendingSettlementClaims env
             in prep_bind (readLegBalance env (pmd_tokenX m) nativeSolLamports poolAddress) (\<lambda>balanceX.
                prep_bind (if xOnly then prep_return 0
                    else readLegBalance env (pmd_tokenY m) nativeSolLamports poolAddress) (\<lambda>balanceY.
                let availableX = spendableLeg balanceX (pmd_tokenX m = SOL_MINT)
                      (claimFor pendingClaims (pmd_tokenX m));
                    availableY = spendableLeg balanceY (pmd_tokenY m = SOL_MINT)
                      (claimFor pendingClaims (pmd_tokenY m))
                in prep_bind (prep_lift (singleSidedNativeDeposit numText
                     (PrepRequirementsInput.extend inp
                       (PrepSingleSidedInput.fields requiredX requiredY availableX availableY)))) (\<lambda>singleSidedReady.
                   if singleSidedReady then prep_return None
                   else prep_bind (prep_lift (collectPrepDeficits poolAddress
                     \<lparr>pdi_solFunded = solFunded, pdi_tokenX = pmd_tokenX m, pdi_tokenY = pmd_tokenY m,
                      pdi_requiredX = requiredX, pdi_requiredY = requiredY, pdi_availableX = availableX,
                      pdi_availableY = availableY, pdi_tokenXDecimals = pmd_tokenXDecimals m,
                      pdi_tokenYDecimals = pmd_tokenYDecimals m, pdi_priceX = pmd_priceX m,
                      pdi_priceY = pmd_priceY m\<rparr>)) (\<lambda>deficits.
                   if deficits = [] then prep_return None
                   else
                     let plan = \<lparr>ppl_poolAddress = poolAddress, ppl_tokenX = pmd_tokenX m,
                           ppl_tokenY = pmd_tokenY m, ppl_requiredX = requiredX, ppl_requiredY = requiredY,
                           ppl_tokenXDecimals = pmd_tokenXDecimals m, ppl_tokenYDecimals = pmd_tokenYDecimals m,
                           ppl_nativeSol = nativeSolLamports, ppl_pendingClaims = pendingClaims,
                           ppl_solPrice = pmd_solPrice m, ppl_deficits = deficits\<rparr>
                     in if solFunded
                        then prep_bind (runSolFundedPhase numText env cfg plan) (\<lambda>outcome. prep_return (Some outcome))
                        else prep_then (runUsdcPhase numText env plan) (prep_return None))))))))))"

end
