(* ===== verification/EntryPrepFacts.thy ===== *)
theory EntryPrepFacts
  imports EntryPrep
begin

text \<open>
  What the preparation of a live entry guarantees: the bounds of its fixed-point arithmetic, what
  the swaps may spend, when they may be sent, which receipts a failure reports, and what a success
  leaves in the wallet.  \<open>outcome\<close> is the weakest precondition of a program over the trace; its
  rules are collected in \<open>prep_wp\<close>.
\<close>

named_theorems prep_wp

definition outcome ::
  "'a prep \<Rightarrow> (PrepFailure + 'a \<Rightarrow> PrepEvent list \<Rightarrow> bool) \<Rightarrow> PrepEvent list \<Rightarrow> bool" where
  "outcome m Q t = (case m t of (r, t') \<Rightarrow> Q r t')"

lemma outcome_return [prep_wp]: "outcome (prep_return a) Q t = Q (Inr a) t"
  by (simp add: outcome_def prep_return_def)

lemma outcome_lift [prep_wp]: "outcome (prep_lift r) Q t = Q r t"
  by (simp add: outcome_def prep_lift_def)

lemma outcome_fail [prep_wp]:
  "outcome (prep_fail c r p o') Q t = Q (Inl (PrepFailed (makePrepError c r p o'))) t"
  by (simp add: outcome_def prep_fail_def)

lemma outcome_bind [prep_wp]:
  "outcome (prep_bind m f) Q t =
     outcome m (\<lambda>r t'. case r of Inl e \<Rightarrow> Q (Inl e) t' | Inr a \<Rightarrow> outcome (f a) Q t') t"
  by (simp add: outcome_def prep_bind_def split: prod.split sum.split)

lemma outcome_then [prep_wp]:
  "outcome (prep_then m k) Q t =
     outcome m (\<lambda>r t'. case r of Inl e \<Rightarrow> Q (Inl e) t' | Inr a \<Rightarrow> outcome k Q t') t"
  by (simp add: prep_then_def outcome_bind)

lemma outcome_guard [prep_wp]:
  "outcome (prep_guard b c r p o') Q t =
     (if b then Q (Inr ()) t else Q (Inl (PrepFailed (makePrepError c r p o'))) t)"
  by (simp add: prep_guard_def prep_wp)

lemma outcome_call [prep_wp]:
  "outcome (prep_call reply ev w) Q t =
     Q (case reply t of Inl e \<Rightarrow> Inl (PrepFailed (w e)) | Inr a \<Rightarrow> Inr a) (t @ [ev (reply t)])"
  by (simp add: outcome_def prep_call_def)

lemma outcome_map_error [prep_wp]:
  "outcome (prep_map_error g m) Q t =
     outcome m (\<lambda>r t'. Q (case r of Inl (PrepFailed e) \<Rightarrow> Inl (PrepFailed (g e)) | r' \<Rightarrow> r') t') t"
  by (auto simp: outcome_def prep_map_error_def split: prod.split sum.split PrepFailure.split)

lemma outcome_mono:
  assumes "outcome m Q t" "\<And>r t'. Q r t' \<Longrightarrow> R r t'"
  shows "outcome m R t"
  using assms by (auto simp: outcome_def split: prod.splits)

lemma outcome_conj: "outcome m Q t \<Longrightarrow> outcome m R t \<Longrightarrow> outcome m (\<lambda>r t'. Q r t' \<and> R r t') t"
  by (auto simp: outcome_def split: prod.splits)

lemma outcomeI: "(\<And>r t'. m t = (r, t') \<Longrightarrow> Q r t') \<Longrightarrow> outcome m Q t"
  by (auto simp: outcome_def split: prod.splits)

lemma outcomeD: "outcome m Q t \<Longrightarrow> m t = (r, t') \<Longrightarrow> Q r t'"
  by (simp add: outcome_def)

section \<open>Fixed-point values\<close>

lemma scaled_Fin:
  assumes "\<bar>r\<bar> < 10 ^ 21"
  shows "numberToScaledBigInt numText (Fin r) =
    Some ((if r < 0 then - 1 else 1) * \<lfloor>\<bar>r\<bar> * 10 ^ 12 + 1 / 2\<rfloor>)"
proof -
  define n where "n = nat \<lfloor>\<bar>r\<bar> * 10 ^ 12 + 1 / 2\<rfloor>"
  define padded where "padded = replicate (12 + 1 - length (nat_text n)) (CHR ''0'') @ nat_text n"
  have shown: "toFixed numText (jabs (Fin r)) 12 = place_point 12 (nat_text n)"
    using assms by (simp add: toFixed_def n_def)
  have twelve: "(0::nat) < 12" by simp
  note halves = place_point_halves [OF nat_text_no_sign(2) [of n] twelve, folded padded_def]
  have "numberToScaledBigInt numText (Fin r) =
      read_bigint ((if r < 0 then ''-'' else '''') @ padded)"
    unfolding numberToScaledBigInt_def Let_def FIXED_POINT_SCALE_def shown halves by (cases "r < 0") simp_all
  also have "\<dots> = Some (if r < 0 then - int n else int n)"
    unfolding padded_def by (rule read_padded) simp
  also have "\<dots> = Some ((if r < 0 then - 1 else 1) * \<lfloor>\<bar>r\<bar> * 10 ^ 12 + 1 / 2\<rfloor>)"
    by (simp add: n_def)
  finally show ?thesis .
qed

lemma scaled_positive:
  assumes "jgt v (Fin 0)" "numberToScaledBigInt numText v = Some n" "is_finite v" "jlt v (Fin (10 ^ 21))"
  shows "0 \<le> n" and "\<bar>of_int n - (case v of Fin r \<Rightarrow> r) * 10 ^ 12\<bar> \<le> (1 / 2 :: rat)"
proof -
  obtain r where r: "v = Fin r" "0 < r" "r < 10 ^ 21" using assms by (cases v) auto
  have n: "n = \<lfloor>r * 10 ^ 12 + 1 / 2\<rfloor>"
    using assms(2) scaled_Fin [of r numText] r by simp
  show "0 \<le> n" using r n by simp
  show "\<bar>of_int n - (case v of Fin r \<Rightarrow> r) * 10 ^ 12\<bar> \<le> (1 / 2 :: rat)"
    unfolding n r(1) jsnum.case by linarith
qed

lemma ten_pow_pos [simp]: "0 < ten_pow d"
  by (simp add: ten_pow_def split: option.split)

text \<open>
  The funding inputs cover what they are to buy with one percent to spare, and not by an atom more:
  with the prices as fixed-point integers, \<open>input * inPrice / 10 ^ inDecimals\<close> is at least
  \<open>1.01 * output * outPrice / 10 ^ outDecimals\<close>, and less for any smaller input.
\<close>
lemma swap_input_covers:
  assumes "computeSwapInputAtomic numText out od po id' pi' = Some input" "0 < input"
    and po: "numberToScaledBigInt numText po = Some sp" and pi': "numberToScaledBigInt numText pi' = Some si"
    and out: "0 \<le> out"
  shows "101 * (out * sp * ten_pow id') \<le> input * (100 * si * ten_pow od)"
    and "(input - 1) * (100 * si * ten_pow od) < 101 * (out * sp * ten_pow id')"
proof -
  have c: "0 < sp" "0 < si" "input = ceil_div (out * sp * ten_pow id' * 101) (ten_pow od * si * 100)"
    using assms by (auto simp: computeSwapInputAtomic_def split: if_splits)
  have n: "0 \<le> out * sp * ten_pow id' * 101" "0 < ten_pow od * si * 100"
    using c(1,2) out by (simp_all add: less_imp_le)
  show "101 * (out * sp * ten_pow id') \<le> input * (100 * si * ten_pow od)"
    using ceil_div_bounds(1) [OF n] unfolding c(3) by (simp add: mult.commute mult.left_commute)
  show "(input - 1) * (100 * si * ten_pow od) < 101 * (out * sp * ten_pow id')"
    using ceil_div_bounds(2) [OF n] unfolding c(3) by (simp add: algebra_simps)
qed

lemma usdc_input_covers:
  assumes "computeUsdcInputAtomic numText amount d p = Some input" "0 < input"
    and p: "numberToScaledBigInt numText p = Some sp" "0 \<le> sp" and amount: "0 \<le> amount"
  shows "101 * (amount * sp * 10 ^ 6) \<le> input * (100 * 10 ^ 12 * ten_pow d)"
    and "(input - 1) * (100 * 10 ^ 12 * ten_pow d) < 101 * (amount * sp * 10 ^ 6)"
proof -
  have c: "input = ceil_div (amount * sp * 10 ^ 6 * 101) (ten_pow d * 100 * 10 ^ 12)"
    using assms by (auto simp: computeUsdcInputAtomic_def USDC_DECIMALS_def FIXED_POINT_SCALE_def split: if_splits)
  have n: "0 \<le> amount * sp * 10 ^ 6 * 101" "0 < ten_pow d * 100 * 10 ^ 12"
    using p(2) amount by simp_all
  show "101 * (amount * sp * 10 ^ 6) \<le> input * (100 * 10 ^ 12 * ten_pow d)"
    using ceil_div_bounds(1) [OF n] unfolding c by (simp add: mult.commute mult.left_commute)
  show "(input - 1) * (100 * 10 ^ 12 * ten_pow d) < 101 * (amount * sp * 10 ^ 6)"
    using ceil_div_bounds(2) [OF n] unfolding c by (simp add: algebra_simps)
qed

section \<open>What a trace says\<close>

definition solSends :: "PrepEvent list \<Rightarrow> (PreparedSwap \<times> string option) list" where
  "solSends t = List.map_filter (\<lambda>e. case e of SwapSent op s \<Rightarrow> Some (op, s) | _ \<Rightarrow> None) t"

definition usdcSends :: "PrepEvent list \<Rightarrow> (string \<times> int) list" where
  "usdcSends t = List.map_filter (\<lambda>e. case e of UsdcSwapSent m n s \<Rightarrow> Some (m, n) | _ \<Rightarrow> None) t"

definition swapInput :: "PreparedSwap \<Rightarrow> int" where
  "swapInput op = srq_amountAtomic (swq_request (psw_quote op))"

lemma solSends_append [simp]: "solSends (a @ b) = solSends a @ solSends b"
  by (simp add: solSends_def map_filter_def)

lemma usdcSends_append [simp]: "usdcSends (a @ b) = usdcSends a @ usdcSends b"
  by (simp add: usdcSends_def map_filter_def)

lemma solSends_Cons [simp]:
  "solSends [] = []" "solSends (NativeRead # t) = solSends t" "solSends (MintRead m # t) = solSends t"
  "solSends (SwapQuoteAsked q # t) = solSends t" "solSends (SwapBuilt b # t) = solSends t"
  "solSends (SwapSimulated p # t) = solSends t" "solSends (SwapSent p s # t) = (p, s) # solSends t"
  "solSends (UsdcQuoteAsked m n # t) = solSends t" "solSends (UsdcSwapSent m n s # t) = solSends t"
  by (simp_all add: solSends_def map_filter_def)

lemma usdcSends_Cons [simp]:
  "usdcSends [] = []" "usdcSends (NativeRead # t) = usdcSends t" "usdcSends (MintRead m # t) = usdcSends t"
  "usdcSends (SwapQuoteAsked q # t) = usdcSends t" "usdcSends (SwapBuilt b # t) = usdcSends t"
  "usdcSends (SwapSimulated p # t) = usdcSends t" "usdcSends (SwapSent p s # t) = usdcSends t"
  "usdcSends (UsdcQuoteAsked m n # t) = usdcSends t" "usdcSends (UsdcSwapSent m n s # t) = (m, n) # usdcSends t"
  by (simp_all add: usdcSends_def map_filter_def)

text \<open>The receipts that account for exactly the submissions that succeeded.\<close>

definition receipt_of :: "EntryPreparationReceipt \<Rightarrow> PreparedSwap \<times> string option \<Rightarrow> bool" where
  "receipt_of r s \<longleftrightarrow> snd s = Some (rcp_txSignature r) \<and> rcp_inputMint r = SOL_MINT \<and>
     rcp_inputAmountAtomic r = swapInput (fst s)"

definition accounts :: "EntryPreparationReceipt list \<Rightarrow> PrepEvent list \<Rightarrow> bool" where
  "accounts receipts t \<longleftrightarrow>
     list_all2 receipt_of receipts (filter (\<lambda>s. snd s \<noteq> None) (solSends t))"

definition reportedReceipts :: "EntryPrepError \<Rightarrow> EntryPreparationReceipt list" where
  "reportedReceipts e = (case pe_partialPreparation e of None \<Rightarrow> [] | Some o' \<Rightarrow> epo_receipts o')"

lemma reportedReceipts_make [simp]:
  "reportedReceipts (makePrepError c r p None) = []"
  "reportedReceipts (makePrepError c r p (Some o')) = epo_receipts o'"
  by (simp_all add: reportedReceipts_def makePrepError_def)

lemma makePrepError_simps [simp]:
  "pe_code (makePrepError c r p o') = c" "pe_reason (makePrepError c r p o') = r"
  "pe_partialPreparation (makePrepError c r p o') = o'"
  by (simp_all add: makePrepError_def)

lemma accounts_Nil [simp]: "accounts [] [] "
  by (simp add: accounts_def)

lemma accounts_read [simp]:
  "accounts rs (t @ [MintRead m]) = accounts rs t" "accounts rs (t @ [NativeRead]) = accounts rs t"
  by (simp_all add: accounts_def)

lemma accounts_failed_send [simp]: "accounts rs (t @ [SwapSent op None]) = accounts rs t"
  by (simp add: accounts_def)

lemma accounts_send:
  "accounts rs t \<Longrightarrow> accounts (rs @ [swapReceipt d op n sig]) (t @ [SwapSent op (Some sig)])"
  by (simp add: accounts_def list_all2_appendI receipt_of_def swapReceipt_def swapInput_def)

section \<open>Submitting\<close>

text \<open>
  The submissions are a prefix of the prepared swaps; a success accounts for all of them, and a
  failure reports what was sent, unless the balance before the next submission could not be read.
\<close>

definition submit_result ::
  "nat \<Rightarrow> (PreparedSwap \<times> string option) list
   \<Rightarrow> PrepFailure + EntryPreparationReceipt list \<Rightarrow> PrepEvent list \<Rightarrow> bool" where
  "submit_result n s r t' \<longleftrightarrow>
     (case r of
        Inr rs \<Rightarrow> accounts rs t' \<and> length s = n \<and> (\<forall>x \<in> set s. snd x \<noteq> None)
      | Inl PrepThrown \<Rightarrow> False
      | Inl (PrepFailed e) \<Rightarrow>
          accounts (reportedReceipts e) t' \<or>
          pe_code e = BalanceReadFailed \<and> pe_partialPreparation e = None)"

definition read_event :: "PrepEvent \<Rightarrow> bool" where
  "read_event e \<longleftrightarrow> e = NativeRead \<or> (\<exists>m. e = MintRead m)"

definition submit_event :: "PrepEvent \<Rightarrow> bool" where
  "submit_event e \<longleftrightarrow> read_event e \<or> (\<exists>p s. e = SwapSent p s)"

lemma read_events [simp]: "read_event NativeRead" "read_event (MintRead m)"
  by (simp_all add: read_event_def)

definition submit_post ::
  "(PrepDeficit \<times> PreparedSwap) list \<Rightarrow> PrepEvent list
   \<Rightarrow> PrepFailure + EntryPreparationReceipt list \<Rightarrow> PrepEvent list \<Rightarrow> bool" where
  "submit_post ops t r t' \<longleftrightarrow>
     (\<exists>u k. t' = t @ u \<and> list_all submit_event u \<and> k \<le> length ops \<and>
        map fst (solSends u) = take k (map snd ops) \<and> submit_result (length ops) (solSends u) r t')"

lemma submit_events [simp]: "submit_event (MintRead m)" "submit_event (SwapSent p s)"
  by (simp_all add: submit_event_def)

lemma submit_post_failed:
  assumes "accounts (reportedReceipts e) (t @ u) \<or>
      pe_code e = BalanceReadFailed \<and> pe_partialPreparation e = None"
    and "list_all submit_event u" "k \<le> length ops" "map fst (solSends u) = take k (map snd ops)"
  shows "submit_post ops t (Inl (PrepFailed e)) (t @ u)"
  using assms unfolding submit_post_def submit_result_def by (intro exI conjI) auto

text \<open>One submission with its two reads, then the rest.\<close>

lemma submit_post_step:
  assumes "submit_post ops (t @ [MintRead m, SwapSent p (Some sig), MintRead m]) r t'"
  shows "submit_post ((d, p) # ops) t r t'"
proof -
  let ?three = "[MintRead m, SwapSent p (Some sig), MintRead m]"
  obtain u k where u: "t' = (t @ ?three) @ u" "list_all submit_event u"
      "k \<le> length ops" "map fst (solSends u) = take k (map snd ops)"
      "submit_result (length ops) (solSends u) r t'"
    using assms unfolding submit_post_def by blast
  have "submit_result (length ((d, p) # ops)) (solSends (?three @ u)) r t'"
    using u(5) by (auto simp: submit_result_def split: sum.splits PrepFailure.splits)
  then show ?thesis
    unfolding submit_post_def using u(1-4)
    by (intro exI [of _ "?three @ u"] exI [of _ "Suc k"]) simp
qed

lemma submit_outcome:
  assumes "accounts rs t"
  shows "outcome (submitSolSwaps env plan n rs ops) (submit_post ops t) t"
  using assms
proof (induction ops arbitrary: rs t)
  case Nil
  then show ?case by (simp add: prep_wp submit_post_def submit_result_def)
next
  case (Cons op ops)
  obtain d p where op: "op = (d, p)" by (cases op)
  let ?m = "pd_mint d"
  note unfolded = op prep_wp readMintBalance_def sendSolSwap_def readFill_def partialOutcome_def
  show ?case
  proof (cases "prr_tokenBalance env t ?m")
    case (Inl err)
    then show ?thesis
      by (auto simp: unfolded intro!: submit_post_failed [where k = 0])
  next
    case before: (Inr b)
    show ?thesis
    proof (cases "prr_submitSwap env (t @ [MintRead ?m]) p")
      case (Inl err)
      then show ?thesis
        using before Cons.prems
        by (auto simp: unfolded accounts_def intro!: submit_post_failed [where k = 1])
    next
      case (Inr sig)
      let ?t = "t @ [MintRead ?m, SwapSent p (Some sig), MintRead ?m]"
      have acc: "accounts (rs @ [swapReceipt d p x sig]) ?t" for x
        using accounts_send [of rs t d p x sig] Cons.prems by (simp add: accounts_def)
      show ?thesis
      proof (cases "prr_tokenBalance env (t @ [MintRead ?m, SwapSent p (Some sig)]) ?m")
        case (Inl err)
        then show ?thesis
          using before Inr acc [of 0]
          by (auto simp: unfolded intro!: submit_post_failed [where k = 1])
      next
        case after: (Inr b')
        have "outcome (submitSolSwaps env plan n (rs @ [swapReceipt d p (acquiredFill b b') sig]) ops)
            (submit_post (op # ops) t) ?t"
          unfolding op by (rule outcome_mono [OF Cons.IH [OF acc] submit_post_step])
        then show ?thesis using before Inr after by (simp add: unfolded)
      qed
    qed
  qed
qed

section \<open>Quoting and preparing\<close>

lemma outcome_seq:
  assumes "outcome m P t"
    and "\<And>e t'. P (Inl e) t' \<Longrightarrow> Q (Inl e) t'"
    and "\<And>a t'. P (Inr a) t' \<Longrightarrow> outcome (f a) Q t'"
  shows "outcome (prep_bind m f) Q t"
  unfolding outcome_bind
  by (rule outcome_mono [OF assms(1)]) (use assms(2,3) in \<open>auto split: sum.split\<close>)

text \<open>Programs that only extend the trace with harmless events, fail in a known way, or return.\<close>

definition quiet_event :: "PrepEvent \<Rightarrow> bool" where
  "quiet_event e \<longleftrightarrow> (\<forall>p s. e \<noteq> SwapSent p s) \<and> (\<forall>m n s. e \<noteq> UsdcSwapSent m n s)"

lemma quiet_events [simp]:
  "quiet_event NativeRead" "quiet_event (MintRead m)" "quiet_event (SwapQuoteAsked q)"
  "quiet_event (SwapBuilt b)" "quiet_event (SwapSimulated p)" "quiet_event (UsdcQuoteAsked m n)"
  by (simp_all add: quiet_event_def)

lemma quiet_sends: "list_all quiet_event u \<Longrightarrow> solSends u = [] \<and> usdcSends u = []"
proof (induction u)
  case (Cons e u)
  then show ?case by (cases e) (auto simp: quiet_event_def)
qed simp

definition unreported :: "PrepFailure \<Rightarrow> bool" where
  "unreported f \<longleftrightarrow> (case f of PrepThrown \<Rightarrow> True | PrepFailed e \<Rightarrow> pe_partialPreparation e = None)"

lemma unreported_make [simp]: "unreported PrepThrown" "unreported (PrepFailed (makePrepError c r p None))"
  by (simp_all add: unreported_def makePrepError_def)

definition quiet_post ::
  "('a \<Rightarrow> bool) \<Rightarrow> PrepEvent list \<Rightarrow> PrepFailure + 'a \<Rightarrow> PrepEvent list \<Rightarrow> bool" where
  "quiet_post R t r t' \<longleftrightarrow>
     (\<exists>u. t' = t @ u \<and> list_all quiet_event u) \<and>
     (case r of Inl e \<Rightarrow> unreported e | Inr a \<Rightarrow> R a)"

lemma quiet_post_trans:
  assumes "\<exists>u. t' = t @ u \<and> list_all quiet_event u" "quiet_post R t' r t''"
  shows "quiet_post R t r t''"
  using assms by (auto simp: quiet_post_def)

lemma prep_all_quiet:
  assumes "\<And>a t. outcome (f a) (quiet_post (R a) t) t"
  shows "outcome (prep_all f as) (quiet_post (list_all2 R as) t) t"
proof (induction "as" arbitrary: t)
  case Nil
  then show ?case by (simp add: prep_wp quiet_post_def)
next
  case (Cons a as)
  show ?case
    unfolding prep_all.simps
  proof (rule outcome_seq [OF assms])
    fix b t' assume b: "quiet_post (R a) t (Inr b) t'"
    show "outcome (prep_bind (prep_all f as) (\<lambda>bs. prep_return (b # bs))) (quiet_post (list_all2 R (a # as)) t) t'"
      by (rule outcome_seq [OF Cons.IH])
        (use b in \<open>auto simp: prep_wp quiet_post_def split: sum.splits\<close>)
  qed (simp add: quiet_post_def)
qed

definition swapRequest :: "PrepConfig \<Rightarrow> PrepDeficit \<Rightarrow> int \<Rightarrow> SwapRequest" where
  "swapRequest cfg deficit amount =
     \<lparr>srq_inputMint = SOL_MINT, srq_outputMint = pd_mint deficit, srq_amountAtomic = amount,
      srq_slippageBps = jmin (nullish (pcf_maxSwapSlippageBps cfg) (Fin 50)) (Fin 50)\<rparr>"

text \<open>A quote that guarantees its deficit, and a simulated transaction built from it.\<close>

definition quoted_ok :: "PrepReplies \<Rightarrow> PrepConfig \<Rightarrow> PrepDeficit \<times> int \<Rightarrow> PrepDeficit \<times> SwapQuote \<Rightarrow> bool" where
  "quoted_ok env cfg req q \<longleftrightarrow>
     fst q = fst req \<and> prr_quoteSwap env (swapRequest cfg (fst req) (snd req)) = Inr (snd q) \<and>
     pd_amount (fst req) \<le> swq_minimumOutAmountAtomic (snd q)"

definition prepared_ok :: "PrepReplies \<Rightarrow> PrepDeficit \<times> SwapQuote \<Rightarrow> PrepDeficit \<times> PreparedSwap \<Rightarrow> bool" where
  "prepared_ok env q p \<longleftrightarrow>
     fst p = fst q \<and> prr_prepareSwap env (snd q) = Inr (snd p) \<and> prr_simulateSwap env (snd p) = Inr ()"

lemma quote_quiet: "outcome (quoteSolSwap env cfg plan req) (quiet_post (quoted_ok env cfg req) t) t"
  by (cases req)
    (auto simp: quoteSolSwap_def prep_wp Let_def quiet_post_def quoted_ok_def swapRequest_def split: sum.split)

lemma prepare_quiet: "outcome (prepareSolSwap env plan q) (quiet_post (prepared_ok env q) t) t"
  by (cases q) (auto simp: prepareSolSwap_def prep_wp Let_def quiet_post_def prepared_ok_def split: sum.split)

section \<open>Reconciling\<close>

definition leg_funded ::
  "PrepReplies \<Rightarrow> PrepEvent list \<Rightarrow> int \<Rightarrow> string \<Rightarrow> int \<Rightarrow> bool" where
  "leg_funded env t native mint required \<longleftrightarrow>
     (if mint = SOL_MINT then required \<le> native
      else \<exists>v b. prr_tokenBalance env (t @ v) mint = Inr b \<and> list_all read_event v \<and> required \<le> b)"

definition plan_funded :: "PrepReplies \<Rightarrow> PrepPlan \<Rightarrow> PrepEvent list \<Rightarrow> bool" where
  "plan_funded env plan t \<longleftrightarrow>
     (\<exists>native. prr_nativeSol env t = Inr native \<and> MIN_SOL_FOR_GAS_LAMPORTS \<le> native \<and>
        leg_funded env t native (ppl_tokenX plan) (ppl_requiredX plan) \<and>
        leg_funded env t native (ppl_tokenY plan) (ppl_requiredY plan))"

definition finish_post ::
  "PrepReplies \<Rightarrow> PrepPlan \<Rightarrow> EntryPreparationReceipt list \<Rightarrow> PrepEvent list
   \<Rightarrow> PrepFailure + EntryPreparationOutcome \<Rightarrow> PrepEvent list \<Rightarrow> bool" where
  "finish_post env plan rs t r t' \<longleftrightarrow>
     (\<exists>u. t' = t @ u \<and> list_all read_event u) \<and>
     (case r of
        Inr o' \<Rightarrow> o' = \<lparr>epo_status = PrepComplete, epo_receipts = rs\<rparr> \<and> plan_funded env plan t
      | Inl PrepThrown \<Rightarrow> False
      | Inl (PrepFailed e) \<Rightarrow> reportedReceipts e = rs)"

lemma leg_fundedI:
  "mint = SOL_MINT \<Longrightarrow> required \<le> native \<Longrightarrow> leg_funded env t native mint required"
  "mint \<noteq> SOL_MINT \<Longrightarrow> prr_tokenBalance env (t @ v) mint = Inr b \<Longrightarrow> list_all read_event v \<Longrightarrow>
     required \<le> b \<Longrightarrow> leg_funded env t native mint required"
  by (auto simp: leg_funded_def)

lemma finish_outcome: "outcome (finishSolPhase env plan rs) (finish_post env plan rs t) t"
proof (cases "prr_nativeSol env t")
  case (Inl err)
  then show ?thesis
    by (simp add: finishSolPhase_def readNativeSol_def prep_wp finish_post_def partialOutcome_def)
next
  case native: (Inr native)
  let ?x = "ppl_tokenX plan" and ?y = "ppl_tokenY plan"
  note unfolded = finishSolPhase_def readNativeSol_def readSolPhaseLeg_def readMintBalance_def prep_wp
    finish_post_def partialOutcome_def
  have funded: "plan_funded env plan t"
    if "leg_funded env t native ?x (ppl_requiredX plan)" "leg_funded env t native ?y (ppl_requiredY plan)"
      "MIN_SOL_FOR_GAS_LAMPORTS \<le> native"
    using that native by (auto simp: plan_funded_def)
  note legs = leg_fundedI(1) leg_fundedI(2) [where v = "[NativeRead]"]
    leg_fundedI(2) [where v = "[NativeRead, MintRead ?x]"]
  show ?thesis
  proof (cases "?x = SOL_MINT")
    case x: True
    show ?thesis
    proof (cases "?y = SOL_MINT")
      case True
      then show ?thesis
        by (auto simp: unfolded native x legsFunded_def not_less intro!: funded legs(1))
    next
      case y: False
      show ?thesis
        by (cases "prr_tokenBalance env (t @ [NativeRead]) ?y")
          (auto simp: unfolded native x y legsFunded_def not_less
            intro!: funded legs(1) [OF x] legs(2) [OF y])
    qed
  next
    case x: False
    show ?thesis
    proof (cases "prr_tokenBalance env (t @ [NativeRead]) ?x")
      case (Inl err)
      then show ?thesis by (simp add: unfolded native x)
    next
      case bx: (Inr bx)
      show ?thesis
      proof (cases "?y = SOL_MINT")
        case y: True
        then show ?thesis
          by (auto simp: unfolded native x bx legsFunded_def not_less
              intro!: funded legs(1) [OF y] legs(2) [OF x])
      next
        case y: False
        show ?thesis
          by (cases "prr_tokenBalance env (t @ [NativeRead, MintRead ?x]) ?y")
            (auto simp: unfolded native x y bx legsFunded_def not_less
              intro!: funded legs(2) [OF x] legs(3) [OF y])
      qed
    qed
  qed
qed

section \<open>The SOL-funded phase\<close>

text \<open>
  Documented behaviour of the adapter: a quote answers the request it was asked, and a prepared
  swap carries the quote it was built from.
\<close>

definition faithful_swaps :: "PrepReplies \<Rightarrow> bool" where
  "faithful_swaps env \<longleftrightarrow>
     (\<forall>rq q. prr_quoteSwap env rq = Inr q \<longrightarrow> swq_request q = rq) \<and>
     (\<forall>q p. prr_prepareSwap env q = Inr p \<longrightarrow> psw_quote p = q)"

text \<open>
  The trace of the phase: quotes and simulations of all swaps, then the submissions, in the order
  of the deficits, then reads.
\<close>

definition sol_trace ::
  "PrepReplies \<Rightarrow> PrepConfig \<Rightarrow> PrepPlan \<Rightarrow> PrepEvent list \<Rightarrow> PrepEvent list \<Rightarrow> bool" where
  "sol_trace env cfg plan t t' \<longleftrightarrow>
     (\<exists>a b reqs quoted prepared k.
        t' = t @ a @ b \<and> list_all quiet_event a \<and>
        list_all submit_event b \<and>
        map fst (solSends b) = take k (map snd prepared) \<and>
        list_all2 (quoted_ok env cfg) reqs quoted \<and> list_all2 (prepared_ok env) quoted prepared \<and>
        map fst reqs = ppl_deficits plan \<and> (\<forall>r \<in> set reqs. 0 < snd r) \<and>
        solLegRequirement (ppl_tokenX plan) (ppl_tokenY plan) (ppl_requiredX plan) (ppl_requiredY plan) +
          sum_list (map snd reqs) \<le> spendableLeg (ppl_nativeSol plan) True 0)"

definition sol_post ::
  "PrepReplies \<Rightarrow> PrepConfig \<Rightarrow> PrepPlan \<Rightarrow> PrepEvent list
   \<Rightarrow> PrepFailure + EntryPreparationOutcome \<Rightarrow> PrepEvent list \<Rightarrow> bool" where
  "sol_post env cfg plan t r t' \<longleftrightarrow>
     (sol_trace env cfg plan t t' \<or> (\<exists>u. t' = t @ u \<and> list_all quiet_event u) \<and> (\<exists>e. r = Inl e)) \<and>
     (case r of
        Inr o' \<Rightarrow> epo_status o' = PrepComplete \<and> accounts (epo_receipts o') t' \<and>
          length (epo_receipts o') = length (ppl_deficits plan) \<and>
          (\<exists>v u. t' = v @ u \<and> list_all read_event u \<and> plan_funded env plan v)
      | Inl PrepThrown \<Rightarrow> solSends t' = []
      | Inl (PrepFailed e) \<Rightarrow>
          accounts (reportedReceipts e) t' \<or>
          pe_code e = BalanceReadFailed \<and> pe_partialPreparation e = None)"

lemma solRequests_fst: "solRequests numText p ds = Some reqs \<Longrightarrow> map fst reqs = ds"
  by (induction ds arbitrary: reqs) (auto split: option.splits)

lemma foldl_sum_int: "foldl (\<lambda>n r. n + snd r) (x::int) rs = x + sum_list (map snd rs)"
  by (induction rs arbitrary: x) simp_all

lemma read_quiet: "list_all read_event u \<Longrightarrow> list_all quiet_event u"
  by (auto simp: list_all_iff read_event_def)

lemma read_submits: "list_all read_event u \<Longrightarrow> list_all submit_event u"
  by (auto simp: list_all_iff submit_event_def)

lemma submit_no_usdc: "list_all submit_event u \<Longrightarrow> usdcSends u = []"
proof (induction u)
  case (Cons e u)
  then show ?case by (cases e) (auto simp: submit_event_def read_event_def)
qed simp

lemma accounts_quiet: "list_all quiet_event u \<Longrightarrow> accounts rs (t @ u) = accounts rs t"
  by (simp add: accounts_def quiet_sends)

lemma accounts_all_sent:
  assumes "accounts rs t" "solSends t = s" "\<forall>x \<in> set s. snd x \<noteq> None"
  shows "length rs = length s"
  using assms list_all2_lengthD by (fastforce simp: accounts_def filter_id_conv)

text \<open>A failure before the first submission.\<close>

lemma sol_post_early:
  assumes "unreported e" "list_all quiet_event u" "solSends t = []"
  shows "sol_post env cfg plan t (Inl e) (t @ u)"
  using assms quiet_sends [of u]
  by (cases e) (auto simp: sol_post_def accounts_def reportedReceipts_def unreported_def)

lemma sol_phase_tail:
  assumes t: "solSends t = []" and a: "list_all quiet_event a"
    and oks: "list_all2 (quoted_ok env cfg) reqs quoted" "list_all2 (prepared_ok env) quoted prepared"
    and reqs: "map fst reqs = ppl_deficits plan" "\<forall>r \<in> set reqs. 0 < snd r"
      "solLegRequirement (ppl_tokenX plan) (ppl_tokenY plan) (ppl_requiredX plan) (ppl_requiredY plan) +
          sum_list (map snd reqs) \<le> spendableLeg (ppl_nativeSol plan) True 0"
  shows "outcome (prep_bind (submitSolSwaps env plan (length prepared) [] prepared) (finishSolPhase env plan))
    (sol_post env cfg plan t) (t @ a)"
proof (rule outcome_seq [OF submit_outcome])
  show "accounts [] (t @ a)" using t a by (simp add: accounts_def quiet_sends)
next
  have len: "length prepared = length (ppl_deficits plan)"
    using oks reqs(1) by (metis length_map list_all2_lengthD)
  have tr: "sol_trace env cfg plan t ((t @ a) @ b)"
    if "list_all submit_event b" "map fst (solSends b) = take k (map snd prepared)" for b k
    unfolding sol_trace_def using a that oks reqs by (intro exI conjI) auto
  {
    fix e t' assume "submit_post prepared (t @ a) (Inl e) t'"
    then obtain u k where u: "t' = (t @ a) @ u" "list_all submit_event u"
        "map fst (solSends u) = take k (map snd prepared)"
        "submit_result (length prepared) (solSends u) (Inl e) t'"
      by (auto simp: submit_post_def)
    show "sol_post env cfg plan t (Inl e) t'"
      using tr [OF u(2,3)] u(4) unfolding u(1) [symmetric]
      by (auto simp: sol_post_def submit_result_def split: PrepFailure.splits)
  next
    fix rs t' assume "submit_post prepared (t @ a) (Inr rs) t'"
    then obtain u k where u: "t' = (t @ a) @ u" "list_all submit_event u"
        "map fst (solSends u) = take k (map snd prepared)"
        "accounts rs t'" "length (solSends u) = length prepared" "\<forall>x \<in> set (solSends u). snd x \<noteq> None"
      by (auto simp: submit_post_def submit_result_def)
    have "solSends t' = solSends u" using t a u(1) by (simp add: quiet_sends)
    then have rs: "length rs = length (ppl_deficits plan)"
      using accounts_all_sent [OF u(4) _ u(6)] u(5) len by simp
    show "outcome (finishSolPhase env plan rs) (sol_post env cfg plan t) t'"
    proof (rule outcome_mono [OF finish_outcome])
      fix r t'' assume "finish_post env plan rs t' r t''"
      then obtain v where v: "t'' = t' @ v" "list_all read_event v"
        and r: "case r of
            Inr o' \<Rightarrow> o' = \<lparr>epo_status = PrepComplete, epo_receipts = rs\<rparr> \<and> plan_funded env plan t'
          | Inl PrepThrown \<Rightarrow> False | Inl (PrepFailed e) \<Rightarrow> reportedReceipts e = rs"
        by (auto simp: finish_post_def)
      have acc: "accounts rs t''" using u(4) accounts_quiet [OF read_quiet [OF v(2)]] v(1) by simp
      have "t'' = (t @ a) @ (u @ v)" "list_all submit_event (u @ v)"
          "map fst (solSends (u @ v)) = take k (map snd prepared)"
        using u v read_submits quiet_sends [OF read_quiet [OF v(2)]] by simp_all
      from this(1) tr [OF this(2,3)] have "sol_trace env cfg plan t t''" by simp
      moreover have "\<exists>w x. t'' = w @ x \<and> list_all read_event x \<and> plan_funded env plan w"
        if "plan_funded env plan t'"
        using that v by blast
      ultimately show "sol_post env cfg plan t r t''"
        using r acc rs unfolding sol_post_def by (auto split: sum.splits PrepFailure.splits)
    qed
  }
qed

lemma sol_phase_outcome:
  assumes t: "solSends t = []"
  shows "outcome (runSolFundedPhase numText env cfg plan) (sol_post env cfg plan t) t"
proof -
  have early: "sol_post env cfg plan t (Inl e) t" if "unreported e" for e
    using sol_post_early [OF that, of "[]" t] t by simp
  show ?thesis
  proof (cases "prr_hasSwapOps env \<and> isUsablePrice (ppl_solPrice plan)")
    case False
    then show ?thesis by (auto simp: runSolFundedPhase_def prep_wp early)
  next
    case ops: True
    show ?thesis
    proof (cases "solRequests numText (ppl_solPrice plan) (ppl_deficits plan)")
      case None
      then show ?thesis using ops by (simp add: runSolFundedPhase_def prep_wp early)
    next
      case reqs: (Some reqs)
      let ?need = "solLegRequirement (ppl_tokenX plan) (ppl_tokenY plan) (ppl_requiredX plan) (ppl_requiredY plan) +
          sum_list (map snd reqs)"
      show ?thesis
      proof (cases "(\<exists>r \<in> set reqs. snd r \<le> 0) \<or> spendableLeg (ppl_nativeSol plan) True 0 < ?need")
        case True
        then show ?thesis
          using ops reqs by (auto simp: runSolFundedPhase_def prep_wp early Let_def list_ex_iff foldl_sum_int)
      next
        case False
        then have enough: "\<forall>r \<in> set reqs. 0 < snd r" "?need \<le> spendableLeg (ppl_nativeSol plan) True 0"
          by (auto simp: not_le)
        have "outcome (prep_bind (prep_all (quoteSolSwap env cfg plan) reqs) (\<lambda>quoted.
            prep_bind (prep_all (prepareSolSwap env plan) quoted) (\<lambda>prepared.
            prep_bind (submitSolSwaps env plan (length prepared) [] prepared) (finishSolPhase env plan))))
          (sol_post env cfg plan t) t"
        proof (rule outcome_seq [OF prep_all_quiet [where R = "quoted_ok env cfg", OF quote_quiet]])
          fix e t' assume "quiet_post (list_all2 (quoted_ok env cfg) reqs) t (Inl e) t'"
          then show "sol_post env cfg plan t (Inl e) t'" by (auto simp: quiet_post_def sol_post_early t)
        next
          fix quoted t1 assume q: "quiet_post (list_all2 (quoted_ok env cfg) reqs) t (Inr quoted) t1"
          show "outcome (prep_bind (prep_all (prepareSolSwap env plan) quoted) (\<lambda>prepared.
              prep_bind (submitSolSwaps env plan (length prepared) [] prepared) (finishSolPhase env plan)))
            (sol_post env cfg plan t) t1"
          proof (rule outcome_seq [OF prep_all_quiet [where R = "prepared_ok env", OF prepare_quiet]])
            fix e t' assume "quiet_post (list_all2 (prepared_ok env) quoted) t1 (Inl e) t'"
            then show "sol_post env cfg plan t (Inl e) t'"
              using q sol_post_early [of e "_ @ _"] t by (auto simp: quiet_post_def)
          next
            fix prepared t2 assume p: "quiet_post (list_all2 (prepared_ok env) quoted) t1 (Inr prepared) t2"
            obtain a where a: "t2 = t @ a" "list_all quiet_event a"
              using p q by (auto simp: quiet_post_def)
            show "outcome (prep_bind (submitSolSwaps env plan (length prepared) [] prepared) (finishSolPhase env plan))
                (sol_post env cfg plan t) t2"
              unfolding a(1)
              by (rule sol_phase_tail [OF t a(2)])
                (use p q solRequests_fst [OF reqs] enough in \<open>auto simp: quiet_post_def\<close>)
          qed
        qed
        then show ?thesis
          using ops reqs False
          by (simp add: runSolFundedPhase_def outcome_then outcome_guard outcome_bind [where m = "prep_lift _"]
              outcome_lift Let_def list_ex_iff foldl_sum_int case_prod_unfold)
      qed
    qed
  qed
qed

text \<open>What the submissions spend, for an adapter whose quotes and swaps are faithful.\<close>

lemma prepared_inputs:
  assumes "faithful_swaps env" "list_all2 (quoted_ok env cfg) reqs quoted"
    "list_all2 (prepared_ok env) quoted prepared"
  shows "map (swapInput \<circ> snd) prepared = map snd reqs"
proof -
  have q: "list_all2 (\<lambda>r q. srq_amountAtomic (swq_request (snd q)) = snd r) reqs quoted"
    by (rule list_all2_mono [OF assms(2)])
      (use assms(1) in \<open>auto simp: quoted_ok_def faithful_swaps_def swapRequest_def\<close>)
  have p: "list_all2 (\<lambda>q p. psw_quote (snd p) = snd q) quoted prepared"
    by (rule list_all2_mono [OF assms(3)]) (use assms(1) in \<open>auto simp: prepared_ok_def faithful_swaps_def\<close>)
  have "list_all2 (\<lambda>r p. swapInput (snd p) = snd r) reqs prepared"
    by (rule list_all2_trans [OF _ q p]) (simp add: swapInput_def)
  then have "list_all2 (=) (map snd reqs) (map (swapInput \<circ> snd) prepared)"
    by (simp add: list_all2_map1 list_all2_map2 list_all2_mono)
  then show ?thesis by (simp add: list.rel_eq)
qed

lemma sum_take_le:
  fixes xs :: "int list"
  assumes "\<forall>x \<in> set xs. 0 < x"
  shows "sum_list (take k xs) \<le> sum_list xs"
  using assms
proof (induction xs arbitrary: k)
  case (Cons x xs)
  then show ?case by (cases k) (auto simp: sum_list_nonneg less_imp_le)
qed simp

lemma sol_trace_spends:
  assumes "faithful_swaps env" "sol_trace env cfg plan t t'" "solSends t = []"
  shows "solLegRequirement (ppl_tokenX plan) (ppl_tokenY plan) (ppl_requiredX plan) (ppl_requiredY plan) +
    sum_list (map (swapInput \<circ> fst) (solSends t')) \<le> spendableLeg (ppl_nativeSol plan) True 0"
proof -
  obtain a b reqs quoted prepared k where h: "t' = t @ a @ b" "list_all quiet_event a"
      "map fst (solSends b) = take k (map snd prepared)"
      "list_all2 (quoted_ok env cfg) reqs quoted" "list_all2 (prepared_ok env) quoted prepared"
      "\<forall>r \<in> set reqs. 0 < snd r"
      "solLegRequirement (ppl_tokenX plan) (ppl_tokenY plan) (ppl_requiredX plan) (ppl_requiredY plan) +
          sum_list (map snd reqs) \<le> spendableLeg (ppl_nativeSol plan) True 0"
    using assms(2) unfolding sol_trace_def by blast
  have "map (swapInput \<circ> fst) (solSends t') = map swapInput (map fst (solSends b))"
    using h(1,2) assms(3) by (simp add: quiet_sends)
  also have "\<dots> = take k (map (swapInput \<circ> snd) prepared)" unfolding h(3) by (simp add: take_map)
  also have "\<dots> = take k (map snd reqs)" unfolding prepared_inputs [OF assms(1) h(4,5)] ..
  finally have "sum_list (map (swapInput \<circ> fst) (solSends t')) \<le> sum_list (map snd reqs)"
    using sum_take_le [of "map snd reqs" k] h(6) by simp
  then show ?thesis using h(7) by linarith
qed

section \<open>The USDC-funded phase\<close>

text \<open>The USDC the phase must find: the swap inputs, a USDC leg and the gas top-up.\<close>

definition usdcNeed :: "PrepPlan \<Rightarrow> (PrepDeficit \<times> int) list \<Rightarrow> int" where
  "usdcNeed plan inputs =
     sum_list (map snd inputs) + ((if ppl_tokenX plan = USDC_MINT then ppl_requiredX plan else 0) +
       (if ppl_tokenY plan = USDC_MINT then ppl_requiredY plan else 0)) + gasTopUpFor (ppl_nativeSol plan)"

definition usdc_post ::
  "(jsnum \<Rightarrow> string) \<Rightarrow> PrepReplies \<Rightarrow> PrepPlan \<Rightarrow> PrepEvent list
   \<Rightarrow> PrepFailure + unit \<Rightarrow> PrepEvent list \<Rightarrow> bool" where
  "usdc_post numText env plan t r t' \<longleftrightarrow>
     (\<exists>u. t' = t @ u \<and> solSends u = [] \<and>
        (usdcSends u = [] \<and> (\<exists>e. r = Inl e) \<or>
         (\<exists>balance inputs k rest. u = MintRead USDC_MINT # rest \<and> prr_tokenBalance env t USDC_MINT = Inr balance \<and>
            usdcInputs numText (ppl_deficits plan) = Some inputs \<and> (\<forall>i \<in> set inputs. 0 < snd i) \<and>
            usdcNeed plan inputs \<le> spendableAfterClaim balance (claimFor (ppl_pendingClaims plan) USDC_MINT) \<and>
            usdcSends u = take k (map (\<lambda>(d, n). (pd_mint d, n)) inputs))))"

lemma quote_usdc_quiet:
  "outcome (quoteUsdcSwap env plan inp) (quiet_post (\<lambda>q. 0 < snd inp \<and> fst q = fst inp) t) t"
  by (cases inp) (auto simp: quoteUsdcSwap_def prep_wp Let_def quiet_post_def split: sum.split)

lemma send_usdc_outcome:
  assumes "\<forall>i \<in> set inputs. 0 < snd i"
  shows "outcome (sendUsdcSwaps env plan quotes inputs swapped)
    (\<lambda>r t'. \<exists>u k. t' = t @ u \<and> solSends u = [] \<and>
       usdcSends u = take k (map (\<lambda>(d, n). (pd_mint d, n)) inputs)) t"
  using assms
proof (induction inputs arbitrary: t swapped)
  case Nil
  then show ?case by (simp add: prep_wp)
next
  case (Cons i inputs)
  obtain d n where i: "i = (d, n)" "0 < n" using Cons.prems by (cases i) auto
  let ?reply = "prr_swapUsdc env t (pd_mint d) n (preflightedQuote quotes (pd_mint d))"
  let ?sent = "UsdcSwapSent (pd_mint d) n (case ?reply of Inl _ \<Rightarrow> None | Inr signature \<Rightarrow> Some signature)"
  show ?case
  proof (cases ?reply)
    case (Inl err)
    then show ?thesis
      by (auto simp: i prep_wp intro!: exI [of _ "[?sent]"] exI [of _ 1])
  next
    case (Inr sig)
    have "outcome (sendUsdcSwaps env plan quotes inputs True)
      (\<lambda>r t'. \<exists>u k. t' = t @ u \<and> solSends u = [] \<and>
         usdcSends u = take k (map (\<lambda>(d, n). (pd_mint d, n)) (i # inputs))) (t @ [?sent])"
    proof (rule outcome_mono [OF Cons.IH])
      fix r t' assume "\<exists>u k. t' = (t @ [?sent]) @ u \<and> solSends u = [] \<and>
          usdcSends u = take k (map (\<lambda>(d, n). (pd_mint d, n)) inputs)"
      then obtain u k where "t' = t @ ?sent # u" "solSends u = []"
          "usdcSends u = take k (map (\<lambda>(d, n). (pd_mint d, n)) inputs)" by auto
      then show "\<exists>u k. t' = t @ u \<and> solSends u = [] \<and>
          usdcSends u = take k (map (\<lambda>(d, n). (pd_mint d, n)) (i # inputs))"
        by (intro exI [of _ "?sent # u"] exI [of _ "Suc k"]) (simp add: i)
    qed (use Cons.prems in simp)
    then show ?thesis using Inr i by (simp add: prep_wp)
  qed
qed

definition quietly :: "'a prep \<Rightarrow> bool" where
  "quietly m \<longleftrightarrow> (\<forall>t. outcome m (\<lambda>r t'. \<exists>u. t' = t @ u \<and> list_all quiet_event u) t)"

named_theorems quiet_intros

lemma quietly_return [quiet_intros]: "quietly (prep_return a)"
  by (simp add: quietly_def prep_wp)

lemma quietly_lift [quiet_intros]: "quietly (prep_lift a)"
  by (simp add: quietly_def prep_wp)

lemma quietly_guard [quiet_intros]: "quietly (prep_guard b c r p o')"
  by (simp add: quietly_def prep_wp)

lemma quietly_bind [quiet_intros]:
  assumes "quietly m" "\<And>a. quietly (f a)"
  shows "quietly (prep_bind m f)"
  unfolding quietly_def
proof
  fix t
  show "outcome (prep_bind m f) (\<lambda>r t'. \<exists>u. t' = t @ u \<and> list_all quiet_event u) t"
  proof (rule outcome_seq)
    show "outcome m (\<lambda>r t'. \<exists>u. t' = t @ u \<and> list_all quiet_event u) t"
      using assms(1) by (simp add: quietly_def)
  next
    fix a t' assume "\<exists>u. t' = t @ u \<and> list_all quiet_event u"
    then obtain u where u: "t' = t @ u" "list_all quiet_event u" by blast
    have "outcome (f a) (\<lambda>r t''. \<exists>u. t'' = t' @ u \<and> list_all quiet_event u) t'"
      using assms(2) [of a] by (simp add: quietly_def)
    then show "outcome (f a) (\<lambda>r t'. \<exists>u. t' = t @ u \<and> list_all quiet_event u) t'"
    proof (rule outcome_mono)
      fix r :: "PrepFailure + 'b" and t'' assume "\<exists>v. t'' = t' @ v \<and> list_all quiet_event v"
      then obtain v where "t'' = t' @ v" "list_all quiet_event v" by blast
      then show "\<exists>w. t'' = t @ w \<and> list_all quiet_event w" using u by (intro exI [of _ "u @ v"]) simp
    qed
  qed
qed

lemma quietly_then [quiet_intros]: "quietly m \<Longrightarrow> quietly k \<Longrightarrow> quietly (prep_then m k)"
  unfolding prep_then_def by (rule quietly_bind)

lemma quietly_if [quiet_intros]: "quietly a \<Longrightarrow> quietly b \<Longrightarrow> quietly (if c then a else b)"
  by simp

lemma quietly_reads [quiet_intros]:
  "quietly (readNativeSol env p)" "quietly (readMintBalance env m p)" "quietly (readLegBalance env m n p)"
  by (simp_all add: quietly_def prep_wp readNativeSol_def readMintBalance_def readLegBalance_def)

lemma quietlyD: "quietly m \<Longrightarrow> outcome m (\<lambda>r t'. \<exists>u. t' = t @ u \<and> list_all quiet_event u) t"
  by (simp add: quietly_def)

lemma usdc_post_early:
  "list_all quiet_event u \<Longrightarrow> usdc_post numText env plan t (Inl e) (t @ u)"
  by (auto simp: usdc_post_def quiet_sends)

text \<open>What follows the USDC swaps only reads.\<close>

definition usdcFinish :: "PrepReplies \<Rightarrow> PrepPlan \<Rightarrow> bool \<Rightarrow> unit prep" where
  "usdcFinish env plan swapped =
     prep_bind (if swapped then readNativeSol env (ppl_poolAddress plan) else prep_return 0)
       (\<lambda>nativeSolAfter.
     prep_bind (readLegBalance env (ppl_tokenX plan) nativeSolAfter (ppl_poolAddress plan)) (\<lambda>balanceXAfter.
     prep_bind (readLegBalance env (ppl_tokenY plan) nativeSolAfter (ppl_poolAddress plan)) (\<lambda>balanceYAfter.
     prep_then (prep_guard
         (legsFunded balanceXAfter balanceYAfter (ppl_requiredX plan) (ppl_requiredY plan))
         InsufficientBalanceAfterSwap
         (StillInsufficient (formatLeg balanceXAfter (ppl_tokenXDecimals plan))
           (formatLeg (ppl_requiredX plan) (ppl_tokenXDecimals plan))
           (formatLeg balanceYAfter (ppl_tokenYDecimals plan))
           (formatLeg (ppl_requiredY plan) (ppl_tokenYDecimals plan)))
         (ppl_poolAddress plan) None)
     (prep_guard (\<not> gasDepleted swapped nativeSolAfter) InsufficientBalanceAfterSwap
         (NativeBelowGas (formatAtomic nativeSolAfter 9)) (ppl_poolAddress plan) None))))"

lemma usdcFinish_quiet: "quietly (usdcFinish env plan swapped)"
  unfolding usdcFinish_def by (intro quiet_intros)

lemma usdc_phase_tail:
  assumes "prr_tokenBalance env t USDC_MINT = Inr balance" "usdcInputs numText (ppl_deficits plan) = Some inputs"
    "usdcNeed plan inputs \<le> spendableAfterClaim balance (claimFor (ppl_pendingClaims plan) USDC_MINT)"
    "list_all quiet_event a" "a = MintRead USDC_MINT # a'" and pos: "\<forall>i \<in> set inputs. 0 < snd i"
  shows "outcome (prep_bind (sendUsdcSwaps env plan quotes inputs False) (usdcFinish env plan))
    (usdc_post numText env plan t) (t @ a)"
proof (rule outcome_seq [OF send_usdc_outcome [OF pos]])
  have post: "usdc_post numText env plan t r ((t @ a) @ u)"
    if "solSends u = []" "usdcSends u = take k (map (\<lambda>(d, n). (pd_mint d, n)) inputs)" for r u k
    unfolding usdc_post_def using assms that quiet_sends [OF assms(4)]
    by (intro exI [of _ "a @ u"] conjI disjI2) auto
  {
    fix e t' assume "\<exists>u k. t' = (t @ a) @ u \<and> solSends u = [] \<and>
       usdcSends u = take k (map (\<lambda>(d, n). (pd_mint d, n)) inputs)"
    then show "usdc_post numText env plan t (Inl e) t'" using post by blast
  next
    fix sw t' assume "\<exists>u k. t' = (t @ a) @ u \<and> solSends u = [] \<and>
       usdcSends u = take k (map (\<lambda>(d, n). (pd_mint d, n)) inputs)"
    then obtain u k where u: "t' = (t @ a) @ u" "solSends u = []"
        "usdcSends u = take k (map (\<lambda>(d, n). (pd_mint d, n)) inputs)" by blast
    show "outcome (usdcFinish env plan sw) (usdc_post numText env plan t) t'"
    proof (rule outcome_mono [OF quietlyD [OF usdcFinish_quiet]])
      fix r t'' assume "\<exists>v. t'' = t' @ v \<and> list_all quiet_event v"
      then obtain v where "t'' = (t @ a) @ (u @ v)" "list_all quiet_event v" using u(1) by auto
      then show "usdc_post numText env plan t r t''"
        using post [of "u @ v" k r] u(2,3) quiet_sends [of v] by simp
    qed
  }
qed

lemma usdc_phase_outcome:
  "outcome (runUsdcPhase numText env plan) (usdc_post numText env plan t) t"
proof -
  note early = usdc_post_early [of "[MintRead USDC_MINT]"]
  show ?thesis
  proof (cases "prr_tokenBalance env t USDC_MINT")
    case (Inl err)
    then show ?thesis by (simp add: runUsdcPhase_def readMintBalance_def prep_wp early)
  next
    case balance: (Inr balance)
    let ?spendable = "spendableAfterClaim balance (claimFor (ppl_pendingClaims plan) USDC_MINT)"
    show ?thesis
    proof (cases "usdcInputs numText (ppl_deficits plan)")
      case None
      then show ?thesis using balance by (simp add: runUsdcPhase_def readMintBalance_def prep_wp early Let_def)
    next
      case inputs: (Some inputs)
      show ?thesis
      proof (cases "?spendable < usdcNeed plan inputs")
        case True
        then show ?thesis
          using balance inputs
          by (auto simp: runUsdcPhase_def readMintBalance_def prep_wp early Let_def foldl_sum_int usdcNeed_def)
      next
        case False
        have "outcome (prep_bind (prep_all (quoteUsdcSwap env plan) inputs) (\<lambda>quotes.
            prep_bind (sendUsdcSwaps env plan quotes inputs False) (usdcFinish env plan)))
          (usdc_post numText env plan t) (t @ [MintRead USDC_MINT])"
        proof (rule outcome_seq [OF prep_all_quiet [where R = "\<lambda>i q. 0 < snd i \<and> fst q = fst i", OF quote_usdc_quiet]])
          fix e t' assume "quiet_post (list_all2 (\<lambda>i q. 0 < snd i \<and> fst q = fst i) inputs) (t @ [MintRead USDC_MINT]) (Inl e) t'"
          then show "usdc_post numText env plan t (Inl e) t'"
            using usdc_post_early [of "MintRead USDC_MINT # _"] by (auto simp: quiet_post_def)
        next
          fix quotes :: "(PrepDeficit \<times> SwapQuoteData option) list" and t1
          assume "quiet_post (list_all2 (\<lambda>i q. 0 < snd i \<and> fst q = fst i) inputs) (t @ [MintRead USDC_MINT]) (Inr quotes) t1"
          then obtain u where u: "t1 = t @ MintRead USDC_MINT # u" "list_all quiet_event u"
              "list_all2 (\<lambda>i q. 0 < snd i \<and> fst q = fst i) inputs quotes"
            by (auto simp: quiet_post_def)
          have pos: "\<forall>i \<in> set inputs. 0 < snd i"
            using u(3) by (induction inputs quotes rule: list_all2_induct) auto
          show "outcome (prep_bind (sendUsdcSwaps env plan quotes inputs False) (usdcFinish env plan))
              (usdc_post numText env plan t) t1"
            unfolding u(1)
            by (rule usdc_phase_tail [OF balance inputs _ _ refl pos]) (use False u(2) in simp_all)
        qed
        then show ?thesis
          using balance inputs False
          by (simp add: runUsdcPhase_def readMintBalance_def outcome_then outcome_bind [where m = "prep_lift _"]
              outcome_bind [where m = "prep_call _ _ _"] outcome_call outcome_lift outcome_return Let_def
              foldl_sum_int usdcNeed_def usdcFinish_def [abs_def])
      qed
    qed
  qed
qed

section \<open>Requirements are amounts\<close>

text \<open>
  Documented behaviour of the text of a number of 10 ^ 21 or more: it has an exponent, after a
  mantissa with at most one point, so \<^verbatim>\<open>BigInt\<close> refuses it.
\<close>

definition exponent_text :: "(jsnum \<Rightarrow> string) \<Rightarrow> bool" where
  "exponent_text numText \<longleftrightarrow>
     (\<forall>r. 10 ^ 21 \<le> \<bar>r\<bar> \<longrightarrow>
        (\<exists>m b. numText (Fin r) = m @ CHR ''e'' # b \<and> length (filter (\<lambda>c. c = CHR ''.'') m) \<le> 1))"

lemma read_digits_refuses: "c \<in> set s \<Longrightarrow> digit_value c = None \<Longrightarrow> read_digits acc s = None"
  by (induction s arbitrary: acc) (auto split: option.split)

lemma read_bigint_refuses:
  assumes "c \<in> set s" "digit_value c = None" "c \<noteq> CHR ''-''"
  shows "read_bigint s = None"
proof -
  have "c \<in> set (tl s)" if "hd s = CHR ''-''" using assms that by (cases s) auto
  then show ?thesis using assms read_digits_refuses by (auto simp: read_bigint_def Let_def)
qed

lemma split_keeps_exponent:
  fixes m b s :: string
  assumes "length (filter (\<lambda>c. c = CHR ''.'') m) \<le> 1"
  defines "s \<equiv> m @ CHR ''e'' # b"
  shows "CHR ''e'' \<in> set (takeWhile (\<lambda>c. c \<noteq> CHR ''.'') s @
    takeWhile (\<lambda>c. c \<noteq> CHR ''.'') (drop 1 (dropWhile (\<lambda>c. c \<noteq> CHR ''.'') s)))"
  using assms(1) unfolding s_def
proof (induction m)
  case (Cons c m)
  show ?case
  proof (cases "c = CHR ''.''")
    case True
    then have "\<forall>c \<in> set m. c \<noteq> CHR ''.''" using Cons.prems by (auto simp: filter_empty_conv)
    then show ?thesis using True by (simp add: takeWhile_append)
  next
    case False
    then show ?thesis using Cons by simp
  qed
qed simp

lemma scaled_nonneg:
  assumes "exponent_text numText" "numberToScaledBigInt numText v = Some n" "\<not> jlt v (Fin 0)"
  shows "0 \<le> n"
proof (cases v)
  case (Fin r)
  show ?thesis
  proof (cases "\<bar>r\<bar> < 10 ^ 21")
    case True
    have "0 \<le> \<lfloor>\<bar>r\<bar> * 10 ^ 12 + 1 / 2\<rfloor>" by simp
    then show ?thesis using scaled_Fin [OF True, of numText] assms(2,3) Fin by auto
  next
    case False
    then have r: "r = \<bar>r\<bar>" "10 ^ 21 \<le> \<bar>\<bar>r\<bar>\<bar>" using assms(3) Fin by auto
    obtain m b where m: "numText (Fin \<bar>r\<bar>) = m @ CHR ''e'' # b" "length (filter (\<lambda>c. c = CHR ''.'') m) \<le> 1"
      using assms(1) r(2) unfolding exponent_text_def by blast
    let ?s = "m @ CHR ''e'' # b"
    have "toFixed numText (jabs v) 12 = ?s" using False m(1) Fin by (simp add: toFixed_def)
    then have "numberToScaledBigInt numText v = None"
      unfolding numberToScaledBigInt_def FIXED_POINT_SCALE_def Let_def
      using split_keeps_exponent [OF m(2), of b]
      by (intro read_bigint_refuses [of "CHR ''e''"]) (auto simp: digit_value_def)
    then show ?thesis using assms(2) by simp
  qed
qed (use assms(2,3) in \<open>simp_all add: numberToScaledBigInt_def toFixed_def read_bigint_def digit_value_def
      FIXED_POINT_SCALE_def Let_def\<close>)

lemma required_nonneg:
  assumes "exponent_text numText" "computeRequiredAtomic numText usd price d = Some n"
  shows "0 \<le> n"
proof (cases "jle usd (Fin 0) \<or> jle price (Fin 0) \<or> \<not> isValidDecimals d")
  case True
  then show ?thesis using assms(2) by (simp add: computeRequiredAtomic_def)
next
  case False
  then obtain u p where up: "numberToScaledBigInt numText usd = Some u"
      "numberToScaledBigInt numText price = Some p"
      "n = (if p = 0 then 0 else bigint_div (u * ten_pow d) p)"
    using assms(2) by (auto simp: computeRequiredAtomic_def split: option.splits if_splits)
  have "\<not> jlt usd (Fin 0)" "\<not> jlt price (Fin 0)"
    using False by (cases usd; cases price; auto)+
  then have "0 \<le> u" "0 \<le> p" using scaled_nonneg [OF assms(1)] up by auto
  then show ?thesis
    using up(3) bigint_div_nonneg [of "u * ten_pow d" p] by (simp add: less_imp_le pos_imp_zdiv_nonneg_iff)
qed

lemma requirements_nonneg:
  assumes "exponent_text numText" "resolvePrepRequirements numText pool inp = Inr (rx, ry)"
  shows "0 \<le> rx \<and> 0 \<le> ry"
  using assms required_nonneg [OF assms(1)]
  by (fastforce simp: resolvePrepRequirements_def wrapBuffer_def SOL_ENTRY_TRANSACTION_BUFFER_LAMPORTS_def Let_def
      split: option.splits if_splits)

lemma sol_leg_nonneg: "0 \<le> rx \<Longrightarrow> 0 \<le> ry \<Longrightarrow> 0 \<le> solLegRequirement x y rx ry"
  by (simp add: solLegRequirement_def)

section \<open>The whole preparation\<close>

text \<open>
  Either nothing is sent, or a plan with known figures was run by one of the two phases.  The first
  call of a preparation is the read of the native balance, the one its plan is made with.
\<close>

definition plan_known :: "PrepReplies \<Rightarrow> PrepPlan \<Rightarrow> bool" where
  "plan_known env plan \<longleftrightarrow>
     prr_nativeSol env [] = Inr (ppl_nativeSol plan) \<and>
     ppl_pendingClaims plan = readPendingSettlementClaims env \<and>
     0 \<le> ppl_requiredX plan \<and> 0 \<le> ppl_requiredY plan"

definition started :: "PrepEvent list \<Rightarrow> bool" where
  "started t \<longleftrightarrow> list_all quiet_event t \<and> (\<exists>rest. t = NativeRead # rest)"

definition prep_post ::
  "(jsnum \<Rightarrow> string) \<Rightarrow> PrepReplies \<Rightarrow> PrepConfig
   \<Rightarrow> PrepFailure + EntryPreparationOutcome option \<Rightarrow> PrepEvent list \<Rightarrow> bool" where
  "prep_post numText env cfg r t' \<longleftrightarrow>
     list_all quiet_event t' \<and> (case r of Inl e \<Rightarrow> unreported e | Inr o' \<Rightarrow> o' = None) \<or>
     (\<exists>plan t. plan_known env plan \<and> ppl_deficits plan \<noteq> [] \<and> started t \<and>
        (if solFundedFromMode (pcf_autonomousTokenMode cfg)
         then (\<exists>r'. sol_post env cfg plan t r' t' \<and>
            r = (case r' of Inl e \<Rightarrow> Inl e | Inr o' \<Rightarrow> Inr (Some o')))
         else (\<exists>r'. usdc_post numText env plan t r' t' \<and>
            (case r of Inr o' \<Rightarrow> o' = None | Inl e \<Rightarrow> True))))"

lemma front_bind:
  assumes "outcome m (quiet_post R t) t" "started t"
    and "\<And>a t'. R a \<Longrightarrow> started t' \<Longrightarrow> outcome (f a) (prep_post numText env cfg) t'"
  shows "outcome (prep_bind m f) (prep_post numText env cfg) t"
  by (rule outcome_seq [OF assms(1)]) (use assms(2,3) in \<open>auto simp: quiet_post_def prep_post_def started_def\<close>)

lemma front_lift:
  assumes "\<And>e. r = Inl e \<Longrightarrow> unreported e" "list_all quiet_event t"
    and "\<And>a. r = Inr a \<Longrightarrow> outcome (f a) (prep_post numText env cfg) t"
  shows "outcome (prep_bind (prep_lift r) f) (prep_post numText env cfg) t"
  using assms by (cases r) (auto simp: prep_wp prep_post_def)

lemma front_native:
  assumes "\<And>n. prr_nativeSol env [] = Inr n \<Longrightarrow> outcome (f n) (prep_post numText env cfg) [NativeRead]"
  shows "outcome (prep_bind (readNativeSol env p) f) (prep_post numText env cfg) []"
  using assms by (cases "prr_nativeSol env []") (auto simp: readNativeSol_def prep_wp prep_post_def)

lemma quiet_leg: "outcome (readLegBalance env m n p) (quiet_post (\<lambda>_. True) t) t"
  by (auto simp: readLegBalance_def readMintBalance_def prep_wp quiet_post_def split: sum.split)

lemma unreported_validate: "validateTokenDecimals ds p = Inl e \<Longrightarrow> unreported e"
  by (induction ds p rule: validateTokenDecimals.induct) (auto split: if_splits)

lemma unreported_price: "priceError f p r = Inl e \<Longrightarrow> unreported e"
  by (auto simp: priceError_def split: sum.splits)

lemma unreported_requirements: "resolvePrepRequirements numText p inp = Inl e \<Longrightarrow> unreported e"
  by (auto simp: resolvePrepRequirements_def Let_def split: option.splits if_splits)

lemma unreported_single: "singleSidedNativeDeposit numText inp = Inl e \<Longrightarrow> unreported e"
  by (auto simp: singleSidedNativeDeposit_def Let_def split: option.splits if_splits)

lemma unreported_deficits: "collectPrepDeficits p inp = Inl e \<Longrightarrow> unreported e"
  by (auto simp: collectPrepDeficits_def legUsdcShortfallError_def split: option.splits if_splits)

text \<open>The market data are no part of the trace.\<close>

definition still_post :: "PrepEvent list \<Rightarrow> PrepFailure + 'a \<Rightarrow> PrepEvent list \<Rightarrow> bool" where
  "still_post t r t' \<longleftrightarrow> t' = t \<and> (\<forall>e. r = Inl e \<longrightarrow> unreported e)"

lemma still_market: "outcome (loadPrepMarketData env p x s) (still_post t) t"
proof -
  have seq: "outcome (prep_bind (prep_lift r) f) (still_post t) t"
    if "\<And>e. r = Inl e \<Longrightarrow> unreported e" "\<And>a. outcome (f a) (still_post t) t"
    for r :: "PrepFailure + 'a" and f :: "'a \<Rightarrow> 'b prep"
    using that by (cases r) (simp_all add: prep_wp still_post_def)
  have seq': "outcome (prep_bind (if x then prep_return a else prep_lift r) f) (still_post t) t"
    if "\<And>e. r = Inl e \<Longrightarrow> unreported e" "\<And>a. outcome (f a) (still_post t) t"
    for r :: "PrepFailure + 'a" and f :: "'a \<Rightarrow> 'b prep" and a
    using that by (cases r) (simp_all add: prep_wp still_post_def)
  show ?thesis
    unfolding loadPrepMarketData_def prep_then_def case_prod_unfold
    by (intro seq seq') (auto simp: unreported_price unreported_validate Let_def prep_wp still_post_def
        dest: unreported_price unreported_validate simp del: validateTokenDecimals.simps)
qed

lemma front_market:
  assumes "\<And>m. outcome (f m) (prep_post numText env cfg) []"
  shows "outcome (prep_bind (loadPrepMarketData env p x s) f) (prep_post numText env cfg) []"
  by (rule outcome_seq [OF still_market]) (use assms in \<open>auto simp: still_post_def prep_post_def\<close>)

lemma prep_outcome:
  assumes numText: "exponent_text numText"
  shows "outcome (prepareEntryTokens numText env cfg pool usd xOnly) (prep_post numText env cfg) []"
proof -
  let ?sol = "solFundedFromMode (pcf_autonomousTokenMode cfg)"
  have stop: "outcome (prep_return None) (prep_post numText env cfg) t" if "list_all quiet_event t" for t
    using that by (simp add: prep_wp prep_post_def)
  have run: "outcome (if ?sol then prep_bind (runSolFundedPhase numText env cfg plan) (\<lambda>o'. prep_return (Some o'))
        else prep_then (runUsdcPhase numText env plan) (prep_return None)) (prep_post numText env cfg) t"
    if "plan_known env plan" "ppl_deficits plan \<noteq> []" "started t" for plan t
  proof (cases ?sol)
    case True
    have post: "prep_post numText env cfg (case r of Inl e \<Rightarrow> Inl e | Inr o' \<Rightarrow> Inr (Some o')) t'"
      if "sol_post env cfg plan t r t'" for r t'
      unfolding prep_post_def if_P [OF True]
      using that \<open>plan_known env plan\<close> \<open>ppl_deficits plan \<noteq> []\<close> \<open>started t\<close> by blast
    have "outcome (prep_bind (runSolFundedPhase numText env cfg plan) (\<lambda>o'. prep_return (Some o')))
        (prep_post numText env cfg) t"
      by (rule outcome_seq [OF sol_phase_outcome])
        (use post quiet_sends [of t] that(3) in \<open>force simp: prep_wp started_def\<close>)+
    then show ?thesis using True by simp
  next
    case False
    have post: "prep_post numText env cfg r' t'"
      if "usdc_post numText env plan t r t'" "case r' of Inr o' \<Rightarrow> o' = None | Inl e \<Rightarrow> True" for r r' t'
      unfolding prep_post_def if_not_P [OF False]
      using that \<open>plan_known env plan\<close> \<open>ppl_deficits plan \<noteq> []\<close> \<open>started t\<close> by blast
    have "outcome (prep_bind (runUsdcPhase numText env plan) (\<lambda>_. prep_return None)) (prep_post numText env cfg) t"
      by (rule outcome_seq [OF usdc_phase_outcome]) (use post in \<open>force simp: prep_wp\<close>)+
    then show ?thesis using False by (simp add: prep_then_def)
  qed
  show ?thesis
  proof (cases "shouldSkipPrep (pcf_autoSwapEntry cfg) ?sol")
    case True
    then show ?thesis by (simp add: prepareEntryTokens_def stop)
  next
    case skip: False
    show ?thesis
    proof (cases "prr_hasWallet env")
      case False
      then have noWallet: "\<not> prr_hasWallet env" .
      show ?thesis
        unfolding prepareEntryTokens_def Let_def if_not_P [OF skip] prep_guard_def if_not_P [OF noWallet]
          outcome_then outcome_fail by (simp add: prep_post_def)
    next
      case wallet: True
      show ?thesis
        unfolding prepareEntryTokens_def Let_def if_not_P [OF skip] prep_guard_def if_P [OF wallet]
          outcome_then outcome_return sum.case
        apply (rule front_market)
        apply (rule front_lift)
          apply (erule unreported_requirements)
         apply simp
        apply (simp only: case_prod_unfold)
        apply (rule front_native)
        apply (rule front_bind [OF quiet_leg])
         apply (simp add: started_def)
        apply (rule front_bind [where R = "\<lambda>_. True"])
          apply (auto simp: quiet_leg prep_wp quiet_post_def)[1]
         apply assumption
        apply (rule front_lift)
          apply (erule unreported_single)
         apply (simp add: started_def)
        subgoal for m reqs native bx t3 "by" t4 single
          apply (cases single)
           apply (simp add: stop started_def)
          apply (simp only: if_False)
          apply (rule front_lift)
            apply (erule unreported_deficits)
           apply (simp add: started_def)
          subgoal for deficits
            apply (cases "deficits = []")
             apply (simp add: stop started_def)
            apply (simp only: if_False simp_thms)
            apply (rule run)
              apply (use requirements_nonneg [OF numText] in \<open>cases reqs; auto simp: plan_known_def\<close>)
             apply simp
            apply assumption
            done
          done
        done
    qed
  qed
qed

section \<open>Properties\<close>

lemma spendable_sol: "0 < x \<Longrightarrow> x \<le> spendableLeg n True 0 \<Longrightarrow> x + GAS_RESERVE_LAMPORTS \<le> n"
  by (auto simp: spendableLeg_def Let_def split: if_splits)

lemma sol_sends_positive:
  assumes "faithful_swaps env" "sol_trace env cfg plan t t'" "solSends t = []"
  shows "\<forall>s \<in> set (solSends t'). 0 < swapInput (fst s)"
proof -
  obtain a b reqs quoted prepared k where h: "t' = t @ a @ b" "list_all quiet_event a"
      "map fst (solSends b) = take k (map snd prepared)"
      "list_all2 (quoted_ok env cfg) reqs quoted" "list_all2 (prepared_ok env) quoted prepared"
      "\<forall>r \<in> set reqs. 0 < snd r"
    using assms(2) unfolding sol_trace_def by blast
  have "map (swapInput \<circ> fst) (solSends t') = take k (map (swapInput \<circ> snd) prepared)"
    using h(1,2) assms(3) h(3) by (simp add: quiet_sends take_map [symmetric] map_map [symmetric] del: map_map)
  also have "\<dots> = take k (map snd reqs)" unfolding prepared_inputs [OF assms(1) h(4,5)] ..
  finally have "set (map (swapInput \<circ> fst) (solSends t')) \<subseteq> snd ` set reqs"
    by (metis set_map set_take_subset)
  then show ?thesis using h(6) by fastforce
qed

lemma prep_postE:
  assumes "prep_post numText env cfg r t'"
  obtains (silent) "list_all quiet_event t'" "case r of Inl e \<Rightarrow> unreported e | Inr o' \<Rightarrow> o' = None"
  | (sol) plan t r' where "solFundedFromMode (pcf_autonomousTokenMode cfg)" "plan_known env plan"
      "solSends t = []" "usdcSends t = []" "sol_post env cfg plan t r' t'"
      "r = (case r' of Inl e \<Rightarrow> Inl e | Inr o' \<Rightarrow> Inr (Some o'))" "started t"
  | (usdc) plan t r' where "\<not> solFundedFromMode (pcf_autonomousTokenMode cfg)" "plan_known env plan"
      "solSends t = []" "usdcSends t = []" "usdc_post numText env plan t r' t'"
      "case r of Inr o' \<Rightarrow> o' = None | Inl e \<Rightarrow> True" "started t"
  using assms unfolding prep_post_def by (metis quiet_sends started_def)

lemma sol_phase_spends:
  assumes "faithful_swaps env" "sol_post env cfg plan t r' t'" "solSends t = []" "usdcSends t = []"
    "plan_known env plan"
  shows "usdcSends t' = [] \<and> (solSends t' \<noteq> [] \<longrightarrow>
    sum_list (map (swapInput \<circ> fst) (solSends t')) + GAS_RESERVE_LAMPORTS \<le> ppl_nativeSol plan)"
proof (cases "sol_trace env cfg plan t t'")
  case False
  then show ?thesis using assms(2-4) by (auto simp: sol_post_def quiet_sends)
next
  case True
  let ?s = "sum_list (map (swapInput \<circ> fst) (solSends t'))"
  have no: "usdcSends t' = []"
    using True assms(4) unfolding sol_trace_def by (auto simp: quiet_sends submit_no_usdc)
  have "?s + GAS_RESERVE_LAMPORTS \<le> ppl_nativeSol plan" if sent: "solSends t' \<noteq> []"
  proof (rule spendable_sol)
    have pos: "\<forall>x \<in> set (map (swapInput \<circ> fst) (solSends t')). 0 < x"
      using sol_sends_positive [OF assms(1) True assms(3)] by auto
    then show "0 < ?s"
      using sent sum_take_le [OF pos, of 1] by (cases "solSends t'") auto
    have "0 \<le> solLegRequirement (ppl_tokenX plan) (ppl_tokenY plan) (ppl_requiredX plan) (ppl_requiredY plan)"
      using assms(5) by (intro sol_leg_nonneg) (simp_all add: plan_known_def)
    then show "?s \<le> spendableLeg (ppl_nativeSol plan) True 0"
      using sol_trace_spends [OF assms(1) True assms(3)] by linarith
  qed
  then show ?thesis using no by blast
qed

lemma usdc_phase_spends:
  assumes "usdc_post numText env plan t r' t'" "solSends t = []" "usdcSends t = []" "plan_known env plan"
  shows "solSends t' = [] \<and> (usdcSends t' \<noteq> [] \<longrightarrow>
    (\<exists>balance rest. t' = t @ MintRead USDC_MINT # rest \<and> prr_tokenBalance env t USDC_MINT = Inr balance \<and>
       sum_list (map snd (usdcSends t')) + gasTopUpFor (ppl_nativeSol plan) +
         claimFor (ppl_pendingClaims plan) USDC_MINT \<le> balance))"
proof -
  obtain u where u: "t' = t @ u" "solSends u = []"
    and fit: "usdcSends u = [] \<or> (\<exists>balance inputs k rest. u = MintRead USDC_MINT # rest \<and>
        prr_tokenBalance env t USDC_MINT = Inr balance \<and>
        (\<forall>i \<in> set inputs. 0 < snd i) \<and>
        usdcNeed plan inputs \<le> spendableAfterClaim balance (claimFor (ppl_pendingClaims plan) USDC_MINT) \<and>
        usdcSends u = take k (map (\<lambda>(d, n). (pd_mint d, n)) inputs))"
    using assms(1) unfolding usdc_post_def by blast
  have "\<exists>balance rest. t' = t @ MintRead USDC_MINT # rest \<and> prr_tokenBalance env t USDC_MINT = Inr balance \<and>
       sum_list (map snd (usdcSends t')) + gasTopUpFor (ppl_nativeSol plan) +
         claimFor (ppl_pendingClaims plan) USDC_MINT \<le> balance" if sent: "usdcSends t' \<noteq> []"
  proof -
    obtain balance inputs k rest where b: "prr_tokenBalance env t USDC_MINT = Inr balance"
        "\<forall>i \<in> set inputs. 0 < snd i"
        "usdcNeed plan inputs \<le> spendableAfterClaim balance (claimFor (ppl_pendingClaims plan) USDC_MINT)"
        "usdcSends u = take k (map (\<lambda>(d, n). (pd_mint d, n)) inputs)" "u = MintRead USDC_MINT # rest"
      using fit sent u assms(3) by auto
    have "map snd (usdcSends t') = take k (map snd inputs)"
      using u assms(3) b(4) by (simp add: take_map case_prod_unfold)
    then have "sum_list (map snd (usdcSends t')) \<le> sum_list (map snd inputs)"
      using sum_take_le [of "map snd inputs" k] b(2) by auto
    moreover have "0 < sum_list (map snd inputs)"
      using b(2) sum_take_le [of "map snd inputs" 1] sent u assms(3) b(4) by (cases inputs) auto
    moreover have "sum_list (map snd inputs) + gasTopUpFor (ppl_nativeSol plan) \<le> usdcNeed plan inputs"
      "0 \<le> gasTopUpFor (ppl_nativeSol plan)"
      using assms(4) by (auto simp: usdcNeed_def plan_known_def gasTopUpFor_def GAS_TOP_UP_USDC_def)
    ultimately show ?thesis
      using b(1,3,5) u(1) by (auto simp: spendableAfterClaim_def split: if_splits)
  qed
  then show ?thesis using u assms(2) by simp
qed

text \<open>
  The USDC that settlement jobs claim: the positive amounts of the jobs that are neither confirmed
  nor given up, of a wallet whose address and jobs could be read.
\<close>

definition claimedUsdc :: "PrepReplies \<Rightarrow> int" where
  "claimedUsdc env =
     (case (prr_walletAddress env, prr_settlementJobs env) of
        (Some _, Some jobs) \<Rightarrow>
          sum_list (map sj_amountAtomic (filter (\<lambda>j. sj_tokenMint j = USDC_MINT \<and>
            sj_status j \<noteq> Confirmed \<and> sj_status j \<noteq> Terminal \<and> 0 < sj_amountAtomic j) jobs))
      | _ \<Rightarrow> 0)"

lemma claims_sum:
  "claimFor (foldl addClaim claims jobs) m = claimFor claims m +
     sum_list (map sj_amountAtomic (filter (\<lambda>j. sj_tokenMint j = m \<and>
       sj_status j \<noteq> Confirmed \<and> sj_status j \<noteq> Terminal \<and> 0 < sj_amountAtomic j) jobs))"
  by (induction jobs arbitrary: claims) (auto simp: addClaim_def claimFor_def nullish_def)

lemma claimed_usdc: "claimFor (readPendingSettlementClaims env) USDC_MINT = claimedUsdc env"
  using claims_sum [of Map.empty _ USDC_MINT]
  by (auto simp: readPendingSettlementClaims_def claimedUsdc_def claimFor_def nullish_def split: option.splits)

text \<open>
  C9. Preparing an entry spends only free funds.  In the SOL-funded mode all swaps sent together
  leave the gas reserve of the native balance untouched that the run read as its first call.  In the
  USDC-funded mode the swaps, the gas top-up (two USDC when that native balance is below the
  threshold) and the USDC that unfinished settlement jobs claim fit into the USDC balance the run
  read before it sent anything.  No run sends swaps of both kinds.  When the wallet address or the
  job listing cannot be read, nothing is reserved for jobs, as in the code.  Two assumptions are on
  code outside: the adapter's quotes and prepared swaps carry the request they were made for, and
  the text of a number of 10 ^ 21 or more has an exponent.
\<close>
theorem preparation_spends_free_funds:
  assumes adapter: "faithful_swaps env" and numText: "exponent_text numText"
    and run: "prepareEntryTokens numText env cfg pool usd xOnly [] = (r, t')"
  shows "(solSends t' \<noteq> [] \<longrightarrow> usdcSends t' = [] \<and>
      (\<exists>native rest. t' = NativeRead # rest \<and> prr_nativeSol env [] = Inr native \<and>
         sum_list (map (swapInput \<circ> fst) (solSends t')) + GAS_RESERVE_LAMPORTS \<le> native)) \<and>
    (usdcSends t' \<noteq> [] \<longrightarrow> solSends t' = [] \<and>
      (\<exists>native balance before after. t' = NativeRead # before @ MintRead USDC_MINT # after \<and>
         usdcSends before = [] \<and> prr_nativeSol env [] = Inr native \<and>
         prr_tokenBalance env (NativeRead # before) USDC_MINT = Inr balance \<and>
         sum_list (map snd (usdcSends t')) +
           (if native < SOL_GAS_TOP_UP_THRESHOLD_LAMPORTS then GAS_TOP_UP_USDC * 10 ^ USDC_DECIMALS else 0) +
           claimedUsdc env \<le> balance))"
  using outcomeD [OF prep_outcome [OF numText] run]
proof (cases rule: prep_postE)
  case silent
  then show ?thesis by (simp add: quiet_sends)
next
  case (sol plan t r')
  obtain rest where "t' = NativeRead # rest"
    using sol(5,7) by (auto simp: sol_post_def sol_trace_def started_def)
  then show ?thesis
    using sol_phase_spends [OF adapter sol(5,3,4,2)] sol(2) by (auto simp: plan_known_def)
next
  case (usdc plan t r')
  obtain before where "t = NativeRead # before" using usdc(7) by (auto simp: started_def)
  moreover have "gasTopUpFor n = (if n < SOL_GAS_TOP_UP_THRESHOLD_LAMPORTS
      then GAS_TOP_UP_USDC * 10 ^ USDC_DECIMALS else 0)" for n
    by (simp add: gasTopUpFor_def)
  ultimately show ?thesis
    using usdc_phase_spends [OF usdc(5,3,4,2)] usdc(2,4) claimed_usdc [of env]
    by (fastforce simp: plan_known_def)
qed

text \<open>
  C10. A SOL-funded preparation reports what it swapped.  A success returns receipts that account
  for exactly the submissions that succeeded, in order, and leaves the gas minimum in the native
  balance read after the last of them; a failure reports the receipts of exactly the submissions
  that succeeded, unless it is a failed balance read; an exception leaves nothing sent.
\<close>
theorem preparation_reports_swaps:
  assumes numText: "exponent_text numText"
    and sol: "solFundedFromMode (pcf_autonomousTokenMode cfg)"
    and run: "prepareEntryTokens numText env cfg pool usd xOnly [] = (r, t')"
  shows "case r of
      Inr None \<Rightarrow> solSends t' = []
    | Inr (Some o') \<Rightarrow> epo_status o' = PrepComplete \<and> accounts (epo_receipts o') t' \<and>
        (\<exists>v u native. t' = v @ u \<and> solSends u = [] \<and> prr_nativeSol env v = Inr native \<and>
           MIN_SOL_FOR_GAS_LAMPORTS \<le> native)
    | Inl PrepThrown \<Rightarrow> solSends t' = []
    | Inl (PrepFailed e) \<Rightarrow> accounts (reportedReceipts e) t' \<or> pe_code e = BalanceReadFailed"
  using outcomeD [OF prep_outcome [OF numText] run]
proof (cases rule: prep_postE)
  case silent
  then show ?thesis
    by (auto simp: quiet_sends accounts_def reportedReceipts_def unreported_def split: sum.splits
        PrepFailure.splits option.splits)
next
  case (sol plan t r')
  have "\<exists>v u native. t' = v @ u \<and> solSends u = [] \<and> prr_nativeSol env v = Inr native \<and>
      MIN_SOL_FOR_GAS_LAMPORTS \<le> native" if "r' = Inr o'" for o'
    using sol(5) that quiet_sends [OF read_quiet] by (fastforce simp: sol_post_def plan_funded_def)
  then show ?thesis using sol(5,6) by (auto simp: sol_post_def split: sum.splits PrepFailure.splits)
next
  case usdc
  then show ?thesis using sol by simp
qed

section \<open>A failed balance read carries no receipts\<close>

definition bare_failure :: "PrepFailure \<Rightarrow> bool" where
  "bare_failure f \<longleftrightarrow>
     (\<forall>e. f = PrepFailed e \<longrightarrow> pe_code e = BalanceReadFailed \<longrightarrow> pe_partialPreparation e = None)"

definition bare :: "'a prep \<Rightarrow> bool" where
  "bare m \<longleftrightarrow> (\<forall>t. outcome m (\<lambda>r t'. \<forall>f. r = Inl f \<longrightarrow> bare_failure f) t)"

named_theorems bare_intros

lemma bareD: "bare m \<Longrightarrow> outcome m (\<lambda>r t'. \<forall>f. r = Inl f \<longrightarrow> bare_failure f) t"
  by (simp add: bare_def)

lemma bare_make [simp]: "bare_failure (PrepFailed (makePrepError c r p o')) \<longleftrightarrow> c = BalanceReadFailed \<longrightarrow> o' = None"
  "bare_failure PrepThrown"
  by (auto simp: bare_failure_def)

lemma unreported_bare: "unreported f \<Longrightarrow> bare_failure f"
  by (auto simp: unreported_def bare_failure_def)

lemma bare_return [bare_intros]: "bare (prep_return a)"
  by (simp add: bare_def prep_wp)

lemma bare_lift: "(\<And>e. r = Inl e \<Longrightarrow> bare_failure e) \<Longrightarrow> bare (prep_lift r)"
  by (simp add: bare_def prep_wp)

lemma bare_guard [bare_intros]: "(c = BalanceReadFailed \<Longrightarrow> o' = None) \<Longrightarrow> bare (prep_guard b c r p o')"
  by (simp add: bare_def prep_wp)

lemma bare_call [bare_intros]: "(\<And>e. bare_failure (PrepFailed (w e))) \<Longrightarrow> bare (prep_call reply ev w)"
  by (auto simp: bare_def prep_wp split: sum.splits)

lemma bare_map_error [bare_intros]:
  "(\<And>e. bare_failure (PrepFailed (g e))) \<Longrightarrow> bare (prep_map_error g m)"
  by (auto simp: bare_def outcome_def prep_map_error_def split: prod.splits sum.splits PrepFailure.splits)

lemma bare_bind [bare_intros]:
  assumes "bare m" "\<And>a. bare (f a)"
  shows "bare (prep_bind m f)"
  unfolding bare_def
  by (intro allI, rule outcome_seq [OF bareD [OF assms(1)]]) (use bareD [OF assms(2)] in auto)

lemma bare_then [bare_intros]: "bare m \<Longrightarrow> bare k \<Longrightarrow> bare (prep_then m k)"
  unfolding prep_then_def by (rule bare_bind)

lemma bare_if [bare_intros]: "(c \<Longrightarrow> bare a) \<Longrightarrow> (\<not> c \<Longrightarrow> bare b) \<Longrightarrow> bare (if c then a else b)"
  by simp

lemma bare_split [bare_intros]: "(\<And>a b. bare (f a b)) \<Longrightarrow> bare (case_prod f p)"
  by (cases p) simp

lemma bare_all [bare_intros]: "(\<And>a. bare (f a)) \<Longrightarrow> bare (prep_all f as)"
  by (induction "as") (auto intro!: bare_intros)

lemma bare_reads [bare_intros]:
  "bare (readNativeSol env p)" "bare (readMintBalance env m p)" "bare (readLegBalance env m n p)"
  unfolding readNativeSol_def readMintBalance_def readLegBalance_def by (auto intro!: bare_intros)

lemma bare_submit [bare_intros]: "bare (submitSolSwaps env plan n rs ops)"
proof (induction ops arbitrary: rs)
  case (Cons op ops)
  then show ?case
    by (cases op) (auto simp: sendSolSwap_def readFill_def intro!: bare_intros)
qed (simp add: bare_intros)

lemma bare_finish [bare_intros]: "bare (finishSolPhase env plan rs)"
  unfolding finishSolPhase_def readSolPhaseLeg_def by (auto intro!: bare_intros)

lemma bare_sol_phase [bare_intros]: "bare (runSolFundedPhase numText env cfg plan)"
  unfolding runSolFundedPhase_def quoteSolSwap_def prepareSolSwap_def Let_def
  by (auto intro!: bare_intros bare_lift split: option.splits)

lemma bare_send_usdc [bare_intros]: "bare (sendUsdcSwaps env plan quotes inputs swapped)"
proof (induction inputs arbitrary: swapped)
  case (Cons i inputs)
  then show ?case by (cases i) (auto intro!: bare_intros)
qed (simp add: bare_intros)

lemma bare_usdc_phase [bare_intros]: "bare (runUsdcPhase numText env plan)"
  unfolding runUsdcPhase_def quoteUsdcSwap_def Let_def
  by (auto simp: insufficientUsdcError_def intro!: bare_intros bare_lift split: option.splits if_splits)

lemma bare_market [bare_intros]: "bare (loadPrepMarketData env p x s)"
  unfolding bare_def
  by (intro allI, rule outcome_mono [OF still_market]) (auto simp: still_post_def unreported_bare)

lemma prepare_bare: "bare (prepareEntryTokens numText env cfg pool usd xOnly)"
  unfolding prepareEntryTokens_def Let_def
  by (intro bare_intros bare_lift)
    (simp_all add: unreported_bare unreported_requirements unreported_single unreported_deficits)

section \<open>A run that loses its receipts\<close>

text \<open>
  A pool of two tokens the wallet does not hold, in live mode.  The first swap is submitted and its
  fill read; then the balance of the second token cannot be read.
\<close>

definition sampleQuote :: "SwapRequest \<Rightarrow> SwapQuote" where
  "sampleQuote rq = \<lparr>swq_request = rq, swq_outAmountAtomic = 101000000, swq_minimumOutAmountAtomic = 100500000\<rparr>"

definition samplePrepEnvWith :: "(PrepEvent list \<Rightarrow> string \<Rightarrow> string + int) \<Rightarrow> PrepReplies" where
  "samplePrepEnvWith balance = \<lparr>prr_hasWallet = True, prr_walletAddress = Some ''wallet'',
     prr_poolTokens = Inr (''A'', ''B''),
     prr_tokenPrices = (\<lambda>_. Inr (\<lambda>m. Some (if m = SOL_MINT then Fin 128 else Fin 1))),
     prr_tokenDecimals = (\<lambda>_. Inr (Fin 6)), prr_settlementJobs = Some [],
     prr_nativeSol = (\<lambda>_. Inr 5000000000),
     prr_tokenBalance = balance,
     prr_hasSwapOps = True, prr_quoteSwap = (\<lambda>rq. Inr (sampleQuote rq)),
     prr_prepareSwap = (\<lambda>q. Inr \<lparr>psw_quote = q, psw_transactionBase64 = ''tx''\<rparr>),
     prr_simulateSwap = (\<lambda>_. Inr ()), prr_submitSwap = (\<lambda>_ _. Inr ''sig1''),
     prr_quoteUsdc = (\<lambda>_ _. Inl ''unused''), prr_swapUsdc = (\<lambda>_ _ _ _. Inr ''unused'')\<rparr>"

text \<open>The wallet of the run: the balance of the second token is unreadable after a submission.\<close>

definition samplePrepEnv :: PrepReplies where
  "samplePrepEnv = samplePrepEnvWith (\<lambda>t m. if solSends t \<noteq> [] \<and> m = ''B'' then Inl ''rpc down''
     else Inr (if solSends t = [] then 0 else 101000000))"

text \<open>A wallet in which every submission fills.\<close>

definition sampleGoodEnv :: PrepReplies where
  "sampleGoodEnv = samplePrepEnvWith (\<lambda>t m.
     Inr (if \<exists>s \<in> set (solSends t). srq_outputMint (swq_request (psw_quote (fst s))) = m then 101000000 else 0))"

definition samplePrepConfig :: PrepConfig where
  "samplePrepConfig = \<lparr>pcf_autonomousTokenMode = ModeLive, pcf_autoSwapEntry = False,
     pcf_maxSwapSlippageBps = Some (Fin 30)\<rparr>"

definition exponentText :: "jsnum \<Rightarrow> string" where
  "exponentText v = ''1e+21''"

lemma sample_text: "exponent_text exponentText"
proof -
  have "\<exists>m b. ''1e+21'' = m @ CHR ''e'' # b \<and> length (filter (\<lambda>c. c = CHR ''.'') m) \<le> 1"
    by (rule exI [of _ "''1''"], rule exI [of _ "''+21''"]) simp
  then show ?thesis by (simp add: exponent_text_def exponentText_def)
qed

lemma sample_faithful: "faithful_swaps (samplePrepEnvWith balance)"
  by (auto simp: faithful_swaps_def samplePrepEnvWith_def sampleQuote_def)

lemma sample_scaled:
  "numberToScaledBigInt exponentText (Fin 100) = Some (100 * 10 ^ 12)"
  "numberToScaledBigInt exponentText (Fin 1) = Some (10 ^ 12)"
  "numberToScaledBigInt exponentText (Fin 128) = Some (128 * 10 ^ 12)"
  by (simp_all add: scaled_Fin floor_eq_iff)

lemma sample_decimals: "isValidDecimals (Fin 6)" "isValidDecimals (Fin 9)" "ten_pow (Fin 6) = 1000000"
  "ten_pow (Fin 9) = 1000000000"
  by (simp_all add: isValidDecimals_def ten_pow_def to_bigint_def)

lemma sample_required: "computeRequiredAtomic exponentText (Fin 100) (Fin 1) (Fin 6) = Some 100000000"
  by (simp add: computeRequiredAtomic_def sample_scaled sample_decimals bigint_div_def)

lemma sample_input:
  "computeSwapInputAtomic exponentText 100000000 (Fin 6) (Fin 1) (Fin 9) (Fin 128) = Some 789062500"
  by (simp add: computeSwapInputAtomic_def sample_scaled sample_decimals ceil_div_def bigint_div_def bigint_rem_def)

definition sampleOperation :: "string \<Rightarrow> PreparedSwap" where
  "sampleOperation mint =
     \<lparr>psw_quote = sampleQuote \<lparr>srq_inputMint = SOL_MINT, srq_outputMint = mint, srq_amountAtomic = 789062500,
        srq_slippageBps = Fin 30\<rparr>, psw_transactionBase64 = ''tx''\<rparr>"

lemma sample_market:
  "loadPrepMarketData (samplePrepEnvWith balance) p False True t =
     (Inr \<lparr>pmd_tokenX = ''A'', pmd_tokenY = ''B'', pmd_priceX = Fin 1, pmd_priceY = Fin 1,
        pmd_tokenXDecimals = Fin 6, pmd_tokenYDecimals = Fin 6, pmd_solPrice = Fin 128\<rparr>, t)"
  by (simp add: loadPrepMarketData_def samplePrepEnvWith_def prep_bind_def prep_lift_def prep_then_def
      prep_return_def prep_guard_def priceError_def sample_decimals prepPricesValid_def isUsablePrice_def
      priceOrZero_def SOL_MINT_def Let_def)

definition samplePlan :: PrepPlan where
  "samplePlan = \<lparr>ppl_poolAddress = ''pool'', ppl_tokenX = ''A'', ppl_tokenY = ''B'',
     ppl_requiredX = 100000000, ppl_requiredY = 100000000, ppl_tokenXDecimals = Fin 6,
     ppl_tokenYDecimals = Fin 6, ppl_nativeSol = 5000000000, ppl_pendingClaims = Map.empty,
     ppl_solPrice = Fin 128,
     ppl_deficits = [\<lparr>pd_mint = ''A'', pd_amount = 100000000, pd_decimals = Fin 6, pd_price = Fin 1\<rparr>,
       \<lparr>pd_mint = ''B'', pd_amount = 100000000, pd_decimals = Fin 6, pd_price = Fin 1\<rparr>]\<rparr>"

lemmas prep_defs = prep_bind_def prep_lift_def prep_then_def prep_return_def prep_guard_def prep_fail_def
  prep_call_def prep_map_error_def

lemma sample_front:
  assumes "balance [NativeRead] ''A'' = Inr 0" "balance [NativeRead, MintRead ''A''] ''B'' = Inr 0"
  shows "prepareEntryTokens exponentText (samplePrepEnvWith balance) samplePrepConfig ''pool'' (Fin 200) False [] =
     prep_bind (runSolFundedPhase exponentText (samplePrepEnvWith balance) samplePrepConfig samplePlan)
       (\<lambda>o'. prep_return (Some o')) [NativeRead, MintRead ''A'', MintRead ''B'']"
proof -
  have half: "jdiv (Fin 200) (Fin 2) = Fin 100" by (simp add: num_simps)
  have req: "resolvePrepRequirements exponentText ''pool''
      \<lparr>pri_positionSizeUsd = Fin 200, pri_tokenX = ''A'', pri_tokenY = ''B'', pri_priceX = Fin 1,
       pri_priceY = Fin 1, pri_tokenXDecimals = Fin 6, pri_tokenYDecimals = Fin 6, pri_xOnly = False\<rparr> =
      Inr (100000000, 100000000)"
    by (simp add: resolvePrepRequirements_def half sample_required wrapBuffer_def SOL_MINT_def Let_def del: jdiv.simps)
  have claims: "readPendingSettlementClaims (samplePrepEnvWith balance) = Map.empty"
    by (simp add: readPendingSettlementClaims_def samplePrepEnvWith_def)
  have reads: "prr_nativeSol (samplePrepEnvWith balance) t = Inr 5000000000" "prr_hasWallet (samplePrepEnvWith balance)"
      "prr_tokenBalance (samplePrepEnvWith balance) [NativeRead] ''A'' = Inr 0"
      "prr_tokenBalance (samplePrepEnvWith balance) [NativeRead, MintRead ''A''] ''B'' = Inr 0" for t
    using assms by (simp_all add: samplePrepEnvWith_def)
  have mode: "solFundedFromMode (pcf_autonomousTokenMode samplePrepConfig)"
    by (simp add: samplePrepConfig_def solFundedFromMode_def)
  have names: "''A'' \<noteq> SOL_MINT" "''B'' \<noteq> SOL_MINT" by (simp_all add: SOL_MINT_def)
  show ?thesis
    by (simp add: prepareEntryTokens_def shouldSkipPrep_def mode reads sample_market req claims names prep_defs
        readNativeSol_def readLegBalance_def readMintBalance_def spendableLeg_def claimFor_def
        singleSidedNativeDeposit_def PrepRequirementsInput.defs PrepSingleSidedInput.defs collectPrepDeficits_def legUsdcShortfallError_def
        legDeficit_def opt_list_def samplePlan_def Let_def)
qed

definition sampleTrace :: "PrepEvent list" where
  "sampleTrace =
     (let q = (\<lambda>m. swq_request (psw_quote (sampleOperation m))); p = sampleOperation
      in [NativeRead, MintRead ''A'', MintRead ''B'', SwapQuoteAsked (q ''A''), SwapQuoteAsked (q ''B''),
          SwapBuilt (psw_quote (p ''A'')), SwapSimulated (p ''A''),
          SwapBuilt (psw_quote (p ''B'')), SwapSimulated (p ''B''),
          MintRead ''A'', SwapSent (p ''A'') (Some ''sig1''), MintRead ''A'', MintRead ''B''])"

lemmas sample_phase_defs = samplePlan_def samplePrepConfig_def solLegRequirement_def spendableLeg_def
  GAS_RESERVE_LAMPORTS_def quoteSolSwap_def prepareSolSwap_def prep_defs samplePrepEnvWith_def sampleQuote_def
  sendSolSwap_def readFill_def readMintBalance_def sampleTrace_def sampleOperation_def Let_def

lemma sample_names [simp]: "SOL_MINT \<noteq> ''A''" "SOL_MINT \<noteq> ''B''" "''A'' \<noteq> SOL_MINT" "''B'' \<noteq> SOL_MINT"
  by (simp_all add: SOL_MINT_def)

lemma sample_requests:
  "solRequests exponentText (ppl_solPrice samplePlan) (ppl_deficits samplePlan) =
     Some (map (\<lambda>d. (d, 789062500)) (ppl_deficits samplePlan))"
  by (simp add: samplePlan_def sample_input)

lemma sample_ops: "prr_hasSwapOps (samplePrepEnvWith balance)" "isUsablePrice (ppl_solPrice samplePlan)"
  by (simp_all add: samplePrepEnvWith_def samplePlan_def isUsablePrice_def)

lemma sample_run:
  "prepareEntryTokens exponentText samplePrepEnv samplePrepConfig ''pool'' (Fin 200) False [] =
     (Inl (PrepFailed (makePrepError BalanceReadFailed (BalanceUnread ''B'' ''rpc down'') ''pool'' None)), sampleTrace)"
  unfolding samplePrepEnv_def
  by (subst sample_front) (simp_all add: runSolFundedPhase_def sample_requests sample_ops prep_defs Let_def,
      simp add: sample_phase_defs)

text \<open>The successful run, and its receipts.\<close>

definition sampleReceipt :: "string \<Rightarrow> EntryPreparationReceipt" where
  "sampleReceipt mint = \<lparr>rcp_inputMint = SOL_MINT, rcp_outputMint = mint, rcp_inputAmountAtomic = 789062500,
     rcp_acquiredAmountAtomic = 101000000, rcp_txSignature = ''sig1''\<rparr>"

lemma sample_good_run:
  "\<exists>t'. prepareEntryTokens exponentText sampleGoodEnv samplePrepConfig ''pool'' (Fin 200) False [] =
     (Inr (Some \<lparr>epo_status = PrepComplete, epo_receipts = [sampleReceipt ''A'', sampleReceipt ''B'']\<rparr>), t') \<and>
     solSends t' = [(sampleOperation ''A'', Some ''sig1''), (sampleOperation ''B'', Some ''sig1'')]"
  unfolding sampleGoodEnv_def
  by (subst sample_front) (simp_all add: runSolFundedPhase_def sample_requests sample_ops prep_defs Let_def,
      simp add: sample_phase_defs finishSolPhase_def readNativeSol_def readSolPhaseLeg_def legsFunded_def
        MIN_SOL_FOR_GAS_LAMPORTS_def swapReceipt_def sampleReceipt_def acquiredFill_def)

text \<open>
  C20. A failed balance read loses receipts.  The failure of a SOL-funded preparation with the code
  of a failed balance read carries no receipts, however many swaps were sent before it; every other
  failure accounts for what was sent.  So the receipts of a failed preparation account for its
  successful submissions exactly when the failure is no failed balance read, or nothing was
  submitted successfully.  (The text of a number of 10 ^ 21 or more is taken to have an exponent.)
\<close>
theorem unread_balance_loses_receipts:
  assumes numText: "exponent_text numText"
    and sol: "solFundedFromMode (pcf_autonomousTokenMode cfg)"
    and run: "prepareEntryTokens numText env cfg pool usd xOnly [] = (Inl (PrepFailed e), t')"
  shows "(pe_code e = BalanceReadFailed \<longrightarrow> reportedReceipts e = []) \<and>
    (accounts (reportedReceipts e) t' \<longleftrightarrow>
       pe_code e \<noteq> BalanceReadFailed \<or> (\<forall>s \<in> set (solSends t'). snd s = None))"
proof -
  have bare: "pe_partialPreparation e = None" if "pe_code e = BalanceReadFailed"
    using outcomeD [OF bareD [OF prepare_bare] run] that by (auto simp: bare_failure_def)
  have none: "reportedReceipts e = []" if "pe_code e = BalanceReadFailed"
    using bare [OF that] by (simp add: reportedReceipts_def)
  have empty: "accounts [] t' \<longleftrightarrow> (\<forall>s \<in> set (solSends t'). snd s = None)"
    by (simp add: accounts_def filter_empty_conv)
  have acc: "accounts (reportedReceipts e) t' \<or> pe_code e = BalanceReadFailed"
    using outcomeD [OF prep_outcome [OF numText] run]
  proof (cases rule: prep_postE)
    case silent
    then show ?thesis by (simp add: quiet_sends accounts_def reportedReceipts_def unreported_def)
  next
    case (sol plan t r')
    then show ?thesis by (auto simp: sol_post_def split: sum.splits PrepFailure.splits)
  next
    case usdc
    then show ?thesis using sol by simp
  qed
  show ?thesis using none empty acc by auto
qed

lemma sample_run_receipts: "\<not> accounts [] sampleTrace"
  by (simp add: sampleTrace_def Let_def accounts_def)

lemma unread_balance_witness:
  "reportedReceipts (makePrepError BalanceReadFailed (BalanceUnread ''B'' ''rpc down'') ''pool'' None) = [] \<and>
   (\<exists>s \<in> set (solSends sampleTrace). snd s \<noteq> None)"
proof -
  have "solFundedFromMode (pcf_autonomousTokenMode samplePrepConfig)"
    by (simp add: samplePrepConfig_def solFundedFromMode_def)
  from unread_balance_loses_receipts [OF sample_text this sample_run] sample_run_receipts
  show ?thesis by auto
qed

theorem preparation_spends_witness:
  "sum_list (map (swapInput \<circ> fst) (solSends sampleTrace)) + GAS_RESERVE_LAMPORTS \<le> 5000000000 \<and>
     solSends sampleTrace \<noteq> []"
proof -
  have "solSends sampleTrace \<noteq> []" by (simp add: sampleTrace_def Let_def)
  moreover have "prr_nativeSol samplePrepEnv v = Inr 5000000000" for v
    by (simp add: samplePrepEnv_def samplePrepEnvWith_def)
  moreover have "faithful_swaps samplePrepEnv" unfolding samplePrepEnv_def by (rule sample_faithful)
  ultimately show ?thesis
    using preparation_spends_free_funds [OF _ sample_text sample_run] by auto
qed

theorem preparation_reports_witness:
  "\<exists>t'. accounts [sampleReceipt ''A'', sampleReceipt ''B''] t' \<and> length (solSends t') = 2"
proof -
  obtain t' where run: "prepareEntryTokens exponentText sampleGoodEnv samplePrepConfig ''pool'' (Fin 200) False [] =
     (Inr (Some \<lparr>epo_status = PrepComplete, epo_receipts = [sampleReceipt ''A'', sampleReceipt ''B'']\<rparr>), t')"
      "length (solSends t') = 2"
    using sample_good_run by fastforce
  have "solFundedFromMode (pcf_autonomousTokenMode samplePrepConfig)"
    by (simp add: samplePrepConfig_def solFundedFromMode_def)
  from preparation_reports_swaps [OF sample_text this run(1)] run(2) show ?thesis by auto
qed

end
