(* ===== verification/LiveTrading.thy ===== *)
theory LiveTrading
  imports PaperTrading EntryPrep "HOL-Library.State_Monad"
begin

text \<open>
  The live executor (\<^verbatim>\<open>engine/program.ts\<close>, \<^verbatim>\<open>executeLive\<close> and what it calls): entering,
  exiting and rebalancing a position on chain, with the operation ledger, the settlement jobs of
  the autonomous mode and the rows and events of the database.  A program is a state transformer
  (\<^verbatim>\<open>State_Monad\<close>) over the positions in memory, two sets of flagged pools and the trace of every
  call to the chain and every write to the database with its outcome.  What the outside answers is
  a record of replies, each a function of the trace so far; no write failure stops a program, as in
  the source.  The clock is read once per event.  The random ids of events and fee claims, which
  nothing reads back, are left out; logging is left out.
\<close>

section \<open>Records\<close>

datatype ExecutionOperationType = EntryOperation | ExitOperation | RollbackOperation | SettlementOperation

datatype ExecutionOperationStatus =
  OpPlanned | OpPrepared | OpSubmitted | OpConfirmed | OpRetryable | OpFailed

text \<open>The error texts of the executor.\<close>

datatype LiveError =
    NoWalletConfigured
  | EnterWithoutSize
  | NoLivePath ActionType
  | EntryOperationUnsaved
  | ExitOperationUnsaved
  | NativeSolUnread string
  | InsufficientSol jsnum jsnum jsnum
  | PreparationFailed EntryPrepError
  | EnterFailed string
  | NothingToExit string
  | RotationCanceled
  | ExitFailed string
  | SettlementJobsUnsaved
  | RebalanceWithoutPosition
  | RebalanceFailed string

record ExecutionOperationRecord =
  eop_id :: string
  eop_walletAddress :: string
  eop_agentInstanceId :: string
  eop_candidateId :: "string option"
  eop_positionId :: "string option"
  eop_poolAddress :: string
  eop_tokenMint :: string
  eop_operationType :: ExecutionOperationType
  eop_status :: ExecutionOperationStatus
  eop_amountAtomic :: "int option"
  eop_txSignature :: "string option"
  eop_error :: "LiveError option"
  eop_createdAt :: int
  eop_updatedAt :: int

record AutonomousExecutionContext =
  aec_mode :: AutonomousTokenMode
  aec_walletAddress :: string
  aec_agentInstanceId :: string
  aec_settlementMaxPendingMs :: int
  aec_settlementDustUsd :: jsnum

record LiveEnterResult =
  len_positionPubKey :: string
  len_txSignature :: string
  len_depositMode :: string
  len_amountXUsd :: jsnum
  len_amountYUsd :: jsnum

record LiveExitResult =
  ler_txSignature :: string
  ler_withdrawnXAtomic :: "string option"
  ler_withdrawnYAtomic :: "string option"
  ler_withdrawnUsd :: "jsnum option"
  ler_pendingFeeXAtomic :: "string option"
  ler_pendingFeeYAtomic :: "string option"
  ler_pendingFeeUsd :: "jsnum option"
  ler_sweptRewards :: "ClaimedReward list option"
  ler_isEmptyReap :: "bool option"

record LiveRebalanceResult =
  lrr_positionPubKey :: string
  lrr_txSignatures :: "string list"

record LiveClaimResult =
  lcr_txSignature :: string
  lcr_feeX :: jsnum
  lcr_feeY :: jsnum
  lcr_platformFeeX :: jsnum
  lcr_platformFeeY :: jsnum
  lcr_netFeeX :: jsnum
  lcr_netFeeY :: jsnum
  lcr_feeTransferTxSignature :: "string option"
  lcr_operatorFeeX :: "jsnum option"
  lcr_operatorFeeY :: "jsnum option"
  lcr_netFeesUsd :: "jsnum option"

record FeeClaimRow =
  fcr_poolAddress :: string
  fcr_positionPubkey :: string
  fcr_feeX :: jsnum
  fcr_feeY :: jsnum
  fcr_platformFeeX :: jsnum
  fcr_platformFeeY :: jsnum
  fcr_netFeeX :: jsnum
  fcr_netFeeY :: jsnum
  fcr_operatorFeeX :: jsnum
  fcr_operatorFeeY :: jsnum
  fcr_txSignature :: string
  fcr_feeTransferTxSignature :: "string option"
  fcr_createdAt :: int
  fcr_reportedToApi :: bool

record RevenueConfig =
  rvc_platformFeeRate :: jsnum
  rvc_revenueShareEnabled :: bool
  rvc_revenueShareOperatorPct :: jsnum
  rvc_feeWalletAddress :: string
  rvc_tier :: string

text \<open>What an event row says in its metadata.\<close>

datatype LiveMetadata =
    EnterMetadata jsnum jsnum string string EntryStrategySpec
  | ExitSweepMetadata "string option"
  | ExitSweepRewardMetadata "ClaimedReward list option"
  | SettlementExitMetadata nat string string
  | ExitMetadata "jsnum option" jsnum "string option"
  | UnpricedExitMetadata "jsnum option" jsnum jsnum "string option"
      "string option" "string option" "string option" "string option"
  | ClaimMetadata string
  | RebalanceMetadata jsnum jsnum "string list"

record LivePositionEvent =
  lpe_poolAddress :: string
  lpe_positionPubKey :: "string option"
  lpe_positionId :: string
  lpe_event :: PositionEventType
  lpe_valueUsd :: "jsnum option"
  lpe_feesUsd :: "jsnum option"
  lpe_price :: jsnum
  lpe_metadata :: LiveMetadata
  lpe_createdAt :: int

section \<open>State, replies and dependencies\<close>

datatype MetadataValue = TimeText int | EmptyText | YieldBaseText jsnum int

datatype LiveWrite =
    SaveOperation ExecutionOperationRecord
  | SaveJob SettlementJobRecord
  | SavePause SafetyPauseRecord
  | SavePosition PositionRecord
  | ClosePosition string "jsnum option"
  | DeletePosition string
  | SetMetadata string MetadataValue
  | SaveFeeClaim FeeClaimRow
  | SaveEvent LivePositionEvent
  | RecordOutcome int jsnum
  | UpsertWarning string

datatype LiveEvent =
    Wrote LiveWrite bool
  | NativeSolRead "string + int"
  | SolPriceRead "string + jsnum option"
  | SolToppedUp jsnum jsnum
  | TokensPrepared string jsnum bool "EntryPrepError + EntryPreparationOutcome option"
  | EnterTried string jsnum jsnum jsnum "string + LiveEnterResult"
  | ExitTried string string "string + LiveExitResult"
  | RebalanceTried string string jsnum jsnum "(int \<times> int) option" "string + LiveRebalanceResult"
  | ArmRead string
  | ClaimableRead string "string + jsnum option"
  | FeesClaimed string string "string + LiveClaimResult"
  | FeesReported string LiveClaimResult string

type_synonym live_trace = "LiveEvent list"

record LiveState =
  lst_tracked :: tracked
  lst_reconcile :: "string set"
  lst_warned :: "string set"
  lst_trace :: live_trace

record LiveReplies =
  lrp_hasWallet :: bool
  lrp_clock :: "live_trace \<Rightarrow> int"
  lrp_uuid :: "live_trace \<Rightarrow> nat \<Rightarrow> string"
  lrp_write :: "live_trace \<Rightarrow> LiveWrite \<Rightarrow> bool"
  lrp_nativeSol :: "live_trace \<Rightarrow> string + int"
  lrp_solPrice :: "live_trace \<Rightarrow> string + jsnum option"
  lrp_prepare :: "live_trace \<Rightarrow> string \<Rightarrow> jsnum \<Rightarrow> bool \<Rightarrow> EntryPrepError + EntryPreparationOutcome option"
  lrp_enter :: "live_trace \<Rightarrow> string \<Rightarrow> jsnum \<Rightarrow> jsnum \<Rightarrow> jsnum \<Rightarrow> EntryStrategySpec \<Rightarrow> bool
     \<Rightarrow> string + LiveEnterResult"
  lrp_exit :: "live_trace \<Rightarrow> string \<Rightarrow> string \<Rightarrow> string + LiveExitResult"
  lrp_rebalance :: "live_trace \<Rightarrow> string \<Rightarrow> string \<Rightarrow> jsnum \<Rightarrow> jsnum \<Rightarrow> (int \<times> int) option
     \<Rightarrow> string + LiveRebalanceResult"
  lrp_rotationArm :: "live_trace \<Rightarrow> string \<Rightarrow> RotationArmMetadata option"
  lrp_claimable :: "(live_trace \<Rightarrow> string \<Rightarrow> string \<Rightarrow> string + jsnum option) option"
  lrp_claim :: "live_trace \<Rightarrow> string \<Rightarrow> string \<Rightarrow> RevenueConfig \<Rightarrow> string + LiveClaimResult"
  lrp_revenueConfig :: RevenueConfig

record LiveExecDeps =
  lxd_solPriceUsd :: jsnum
  lxd_entryStrategySpec :: EntryStrategySpec
  lxd_entryRangeHalfWidth :: "jsnum option"
  lxd_entryDipOffsetBins :: "jsnum option"
  lxd_runnerSingleSidedX :: "bool option"
  lxd_hasReconcileSet :: bool
  lxd_hasMemory :: bool
  lxd_hasWarnedSet :: bool
  lxd_autonomous :: "AutonomousExecutionContext option"
  lxd_candidateId :: "string option"
  lxd_rotationArmMs :: "int option"
  lxd_runnerMinFeeApr :: "jsnum option"
  lxd_entryAprPct :: "jsnum option"
  lxd_poolAprByAddress :: "string \<Rightarrow> (jsnum \<times> bool option) option"
  lxd_harvestMinNetUsd :: "jsnum option"
  lxd_harvestMaxCostPct :: "jsnum option"
  lxd_harvestTxCostUsdEst :: "jsnum option"
  lxd_runnerSwapCostPct :: "jsnum option"
  lxd_feeCaptureHarvestCostUsd :: "jsnum option"
  lxd_rugExitLossPct :: "jsnum option"
  lxd_rugTokenBlockMs :: "int option"
  lxd_stablecoinMints :: "string list option"

type_synonym LiveExecPool = PaperExecPool

type_synonym live_result = "bool \<times> LiveError option"

section \<open>Programs\<close>

type_synonym 'a live = "(LiveState, 'a) state"

abbreviation ret :: "'a \<Rightarrow> 'a live" where
  "ret \<equiv> State_Monad.return"

text \<open>A call to the outside: its reply, recorded in the trace.\<close>

definition ask :: "(live_trace \<Rightarrow> 'r) \<Rightarrow> ('r \<Rightarrow> LiveEvent) \<Rightarrow> 'r live" where
  "ask reply event = State (\<lambda>st.
     let r = reply (lst_trace st) in (r, st\<lparr>lst_trace := lst_trace st @ [event r]\<rparr>))"

text \<open>A write to the database; the result says whether it succeeded.\<close>

definition store :: "LiveReplies \<Rightarrow> LiveWrite \<Rightarrow> bool live" where
  "store env w = ask (\<lambda>t. lrp_write env t w) (Wrote w)"

text \<open>A write whose failure is swallowed.\<close>

definition attempt :: "LiveReplies \<Rightarrow> LiveWrite \<Rightarrow> unit live" where
  "attempt env w = do { store env w; ret () }"

definition clock :: "LiveReplies \<Rightarrow> int live" where
  "clock env = State (\<lambda>st. (lrp_clock env (lst_trace st), st))"

definition freshIds :: "LiveReplies \<Rightarrow> (nat \<Rightarrow> string) live" where
  "freshIds env = State (\<lambda>st. (lrp_uuid env (lst_trace st), st))"

definition trackedNow :: "tracked live" where
  "trackedNow = State (\<lambda>st. (lst_tracked st, st))"

definition track :: "PositionRecord \<Rightarrow> unit live" where
  "track pos = State (\<lambda>st. ((), st\<lparr>lst_tracked := AList.update (pr_positionId pos) pos (lst_tracked st)\<rparr>))"

definition untrack :: "string \<Rightarrow> unit live" where
  "untrack positionId = State (\<lambda>st. ((), st\<lparr>lst_tracked := AList.delete positionId (lst_tracked st)\<rparr>))"

definition requestReconcile :: "LiveExecDeps \<Rightarrow> string \<Rightarrow> unit live" where
  "requestReconcile deps pool = State (\<lambda>st. ((),
     if lxd_hasReconcileSet deps then st\<lparr>lst_reconcile := insert pool (lst_reconcile st)\<rparr> else st))"

fun each :: "('a \<Rightarrow> unit live) \<Rightarrow> 'a list \<Rightarrow> unit live" where
  "each f [] = ret ()"
| "each f (x # xs) = do { f x; each f xs }"

section \<open>Operations and settlement jobs\<close>

definition operationRecord ::
  "AutonomousExecutionContext \<Rightarrow> string \<Rightarrow> string option \<Rightarrow> string option \<Rightarrow> string \<Rightarrow> string
   \<Rightarrow> ExecutionOperationType \<Rightarrow> ExecutionOperationStatus \<Rightarrow> int \<Rightarrow> ExecutionOperationRecord" where
  "operationRecord context operationId candidateId positionId poolAddress tokenMint operationType status now =
     \<lparr>eop_id = operationId, eop_walletAddress = aec_walletAddress context,
      eop_agentInstanceId = aec_agentInstanceId context, eop_candidateId = candidateId,
      eop_positionId = positionId, eop_poolAddress = poolAddress, eop_tokenMint = tokenMint,
      eop_operationType = operationType, eop_status = status, eop_amountAtomic = None,
      eop_txSignature = None, eop_error = None, eop_createdAt = now, eop_updatedAt = now\<rparr>"

definition pendingJob ::
  "AutonomousExecutionContext \<Rightarrow> string \<Rightarrow> string \<Rightarrow> string \<Rightarrow> string \<Rightarrow> int \<Rightarrow> int \<Rightarrow> SettlementJobRecord" where
  "pendingJob context jobId positionId poolAddress mint amountAtomic now =
     \<lparr>sj_id = jobId, sj_walletAddress = aec_walletAddress context,
      sj_agentInstanceId = aec_agentInstanceId context, sj_positionId = positionId,
      sj_poolAddress = poolAddress, sj_tokenMint = mint, sj_amountAtomic = amountAtomic,
      sj_destinationAsset = SolAsset, sj_status = Pending, sj_attempts = 0,
      sj_nextRetryAt = Some now, sj_txSignature = None, sj_confirmedOutputAtomic = None,
      sj_outputUsd = None, sj_executionCostUsd = None, sj_finalizedAt = None,
      sj_realizedPnlUsd = None, sj_expiresAt = now + aec_settlementMaxPendingMs context,
      sj_error = None, sj_createdAt = now, sj_updatedAt = now\<rparr>"

definition settlementJobsForReceipts ::
  "AutonomousExecutionContext \<Rightarrow> string \<Rightarrow> string \<Rightarrow> EntryPreparationReceipt list \<Rightarrow> int
   \<Rightarrow> (nat \<Rightarrow> string) \<Rightarrow> SettlementJobRecord list" where
  "settlementJobsForReceipts context positionId poolAddress receipts now uuid =
     map2 (\<lambda>i receipt. pendingJob context (uuid i) positionId poolAddress (rcp_outputMint receipt)
         (rcp_acquiredAmountAtomic receipt) now) [0..<length receipts] receipts"

definition armLiveRugBlocks ::
  "LiveReplies \<Rightarrow> LiveExecDeps \<Rightarrow> LiveExecPool \<Rightarrow> jsnum option \<Rightarrow> jsnum \<Rightarrow> int option
   \<Rightarrow> unit live" where
  "armLiveRugBlocks env deps pool realizedPnlUsd depositedUsd rugTokenBlockMs = do {
     let mints = rugBlockMints realizedPnlUsd depositedUsd
           (nullish (lxd_rugExitLossPct deps) (Fin (1 / 2))) (lxd_stablecoinMints deps)
           (pep_tokenX pool) (pep_tokenY pool);
     now \<leftarrow> clock env;
     each (\<lambda>mint. attempt env
       (SetMetadata (''token_rug_block:'' @ mint) (TimeText (now + nullish rugTokenBlockMs 604800000)))) mints
   }"

text \<open>Truthiness of the size of a decision.\<close>

definition truthySize :: "jsnum option \<Rightarrow> bool" where
  "truthySize sizeUsd \<longleftrightarrow> (case sizeUsd of None \<Rightarrow> False | Some s \<Rightarrow> s \<noteq> Fin 0 \<and> s \<noteq> NaN)"

definition planLiveEntryOperation ::
  "LiveReplies \<Rightarrow> LiveExecDeps \<Rightarrow> AgentDecision \<Rightarrow> string option
   \<Rightarrow> (ExecutionOperationRecord option \<times> LiveError option) live" where
  "planLiveEntryOperation env deps decision poolTokenX =
     (case lxd_autonomous deps of
        None \<Rightarrow> ret (None, None)
      | Some autonomous \<Rightarrow>
          if \<not> (dec_action decision = ENTER \<and> truthySize (dec_positionSizeUsd decision)
                \<and> nullish poolTokenX '''' \<noteq> '''')
          then ret (None, None)
          else do {
            now \<leftarrow> clock env;
            uuid \<leftarrow> freshIds env;
            let operation = operationRecord autonomous (uuid 0) None None (dec_poolAddress decision)
                  (nullish poolTokenX '''') EntryOperation OpPlanned now;
            persisted \<leftarrow> store env (SaveOperation operation);
            ret (if persisted then (Some operation, None) else (None, Some EntryOperationUnsaved))
          })"

section \<open>The SOL gate of a live entry\<close>

definition topUpSolReserve :: "LiveReplies \<Rightarrow> jsnum \<Rightarrow> jsnum \<Rightarrow> unit live" where
  "topUpSolReserve env entryReserveSol solPriceUsd = do {
     native \<leftarrow> ask (lrp_nativeSol env) NativeSolRead;
     case native of
       Inl _ \<Rightarrow> ret ()
     | Inr lamports \<Rightarrow>
         let preSwapSol = jdiv (of_bigint lamports) (Fin 1000000000)
         in if jge preSwapSol entryReserveSol then ret ()
            else do {
              let deficitSol = jsub entryReserveSol preSwapSol;
              price \<leftarrow> ask (lrp_solPrice env) SolPriceRead;
              let liveSolPrice = (case price of Inl _ \<Rightarrow> None | Inr p \<Rightarrow> p);
              let effectiveSolPrice = (case liveSolPrice of
                    Some p \<Rightarrow> if jgt p (Fin 0) then p else solPriceUsd | None \<Rightarrow> solPriceUsd);
              let topUpUsdc = (if jgt effectiveSolPrice (Fin 0)
                    then jmax (of_bigint GAS_TOP_UP_USDC)
                      (jceil (jmul (jmul deficitSol effectiveSolPrice) (fl (12 / 10))))
                    else of_bigint GAS_TOP_UP_USDC);
              ask (\<lambda>_. ()) (\<lambda>_. SolToppedUp entryReserveSol topUpUsdc)
            }
   }"

definition failPlannedEntryOp :: "LiveReplies \<Rightarrow> ExecutionOperationRecord \<Rightarrow> LiveError \<Rightarrow> unit live" where
  "failPlannedEntryOp env operation error = do {
     now \<leftarrow> clock env;
     attempt env (SaveOperation (operation\<lparr>eop_status := OpFailed, eop_error := Some error,
       eop_updatedAt := now\<rparr>))
   }"

definition refuseEntry ::
  "LiveReplies \<Rightarrow> LiveExecDeps \<Rightarrow> ExecutionOperationRecord option \<Rightarrow> LiveError \<Rightarrow> LiveError option live" where
  "refuseEntry env deps entryOperation error =
     (case (lxd_autonomous deps, entryOperation) of
        (Some _, Some operation) \<Rightarrow> do { failPlannedEntryOp env operation error; ret (Some error) }
      | _ \<Rightarrow> ret (Some error))"

definition checkLiveEntrySolGate ::
  "LiveReplies \<Rightarrow> LiveExecDeps \<Rightarrow> ExecutionOperationRecord option \<Rightarrow> LiveError option live" where
  "checkLiveEntrySolGate env deps entryOperation = do {
     topUpSolReserve env (jdiv (of_bigint SOL_GAS_TOP_UP_THRESHOLD_LAMPORTS) (Fin 1000000000))
       (lxd_solPriceUsd deps);
     nativeBalance \<leftarrow> ask (lrp_nativeSol env) NativeSolRead;
     case nativeBalance of
       Inl err \<Rightarrow> refuseEntry env deps entryOperation (NativeSolUnread err)
     | Inr solBalance \<Rightarrow>
         if solBalance < MIN_SOL_FOR_ENTRY_LAMPORTS
         then refuseEntry env deps entryOperation (InsufficientSol
                (jdiv (of_bigint solBalance) (Fin 1000000000))
                (jdiv (of_bigint MIN_SOL_FOR_ENTRY_LAMPORTS) (Fin 1000000000))
                (jdiv (jsub (of_bigint MIN_SOL_FOR_ENTRY_LAMPORTS) (of_bigint MIN_SOL_FOR_GAS_LAMPORTS))
                  (Fin 1000000000)))
         else ret None
   }"

section \<open>Rollback of funding swaps\<close>

text \<open>A settlement job that could not be stored: flag the pool for the reconcile and pause the wallet.\<close>

definition flagSettlementPersistenceFailure ::
  "LiveReplies \<Rightarrow> LiveExecDeps \<Rightarrow> AutonomousExecutionContext \<Rightarrow> string \<Rightarrow> int \<Rightarrow> unit live" where
  "flagSettlementPersistenceFailure env deps autonomous pool now = do {
     requestReconcile deps pool;
     attempt env (SavePause \<lparr>spr_walletAddress = aec_walletAddress autonomous,
       spr_agentInstanceId = aec_agentInstanceId autonomous,
       spr_reason = ''settlement_persistence_failed'', spr_triggeredAt = now, spr_resolvedAt = None\<rparr>)
   }"

text \<open>Jobs are stored in order up to the first that cannot be stored.\<close>

fun saveJobs ::
  "LiveReplies \<Rightarrow> LiveExecDeps \<Rightarrow> AutonomousExecutionContext \<Rightarrow> string \<Rightarrow> int \<Rightarrow> SettlementJobRecord list
   \<Rightarrow> bool live" where
  "saveJobs env deps autonomous pool now [] = ret True"
| "saveJobs env deps autonomous pool now (job # jobs) = do {
     saved \<leftarrow> store env (SaveJob job);
     if saved then saveJobs env deps autonomous pool now jobs
     else do { flagSettlementPersistenceFailure env deps autonomous pool now; ret False }
   }"

definition persistRollbackSettlements ::
  "LiveReplies \<Rightarrow> LiveExecDeps \<Rightarrow> string \<Rightarrow> AutonomousExecutionContext \<Rightarrow> ExecutionOperationRecord
   \<Rightarrow> string \<Rightarrow> EntryPreparationReceipt list \<Rightarrow> ExecutionOperationStatus \<Rightarrow> LiveError \<Rightarrow> int \<Rightarrow> bool live" where
  "persistRollbackSettlements env deps pool autonomous entryOperation rollbackPositionId receipts
       opStatus opError now = do {
     uuid \<leftarrow> freshIds env;
     jobsSaved \<leftarrow> saveJobs env deps autonomous pool now
       (settlementJobsForReceipts autonomous rollbackPositionId pool receipts now uuid);
     settlementPersisted \<leftarrow>
       (if jobsSaved
        then store env (SaveOperation (entryOperation\<lparr>eop_operationType := RollbackOperation,
               eop_status := opStatus, eop_error := Some opError, eop_updatedAt := now\<rparr>))
        else ret False);
     (if settlementPersisted then ret ()
      else flagSettlementPersistenceFailure env deps autonomous pool now);
     ret settlementPersisted
   }"

definition rollbackId :: "ExecutionOperationRecord \<Rightarrow> string" where
  "rollbackId operation = ''rollback:'' @ eop_id operation"

text \<open>
  A preparation replies with an outcome or with its typed error.  An exception inside it is a defect,
  which no handler of the executor catches: it ends the run there, so it is no reply.
\<close>

definition partialOf :: "EntryPrepError \<Rightarrow> EntryPreparationOutcome option" where
  "partialOf failure = pe_partialPreparation failure"

definition rollbackFailedPreparation ::
  "LiveReplies \<Rightarrow> LiveExecDeps \<Rightarrow> string \<Rightarrow> ExecutionOperationRecord option \<Rightarrow> EntryPrepError \<Rightarrow> unit live" where
  "rollbackFailedPreparation env deps pool entryOperation failure =
     (case (lxd_autonomous deps, entryOperation) of
        (Some autonomous, Some operation) \<Rightarrow> do {
          now \<leftarrow> clock env;
          persistRollbackSettlements env deps pool autonomous operation (rollbackId operation)
            (case partialOf failure of None \<Rightarrow> [] | Some preparation \<Rightarrow> epo_receipts preparation)
            (if partialOf failure \<noteq> None then OpRetryable else OpFailed)
            (PreparationFailed failure) now;
          ret ()
        }
      | _ \<Rightarrow> ret ())"

definition prepareLiveEntryTokens ::
  "LiveReplies \<Rightarrow> LiveExecDeps \<Rightarrow> AgentDecision \<Rightarrow> ExecutionOperationRecord option
   \<Rightarrow> (EntryPreparationOutcome option \<times> LiveError option) live" where
  "prepareLiveEntryTokens env deps decision entryOperation = do {
     let pool = dec_poolAddress decision;
     let prepSizeUsd = nullish (dec_positionSizeUsd decision) (Fin 0);
     let xOnly = (lxd_runnerSingleSidedX deps = Some True);
     prepResult \<leftarrow> ask (\<lambda>t. lrp_prepare env t pool prepSizeUsd xOnly)
       (TokensPrepared pool prepSizeUsd xOnly);
     case prepResult of
       Inl failure \<Rightarrow> do {
         rollbackFailedPreparation env deps pool entryOperation failure;
         ret (None, Some (PreparationFailed failure))
       }
     | Inr outcome \<Rightarrow> do {
         (case entryOperation of
            None \<Rightarrow> ret ()
          | Some operation \<Rightarrow> do {
              now \<leftarrow> clock env;
              attempt env (SaveOperation (operation\<lparr>eop_status := OpPrepared, eop_updatedAt := now\<rparr>))
            });
         ret (outcome, None)
       }
   }"

section \<open>Live entry\<close>

record LivePositionInput =
  lpi_decision :: AgentDecision
  lpi_pool :: LiveExecPool
  lpi_positionPubKey :: string
  lpi_depositedUsd :: jsnum
  lpi_amountXUsd :: jsnum
  lpi_amountYUsd :: jsnum
  lpi_lowerBinId :: jsnum
  lpi_upperBinId :: jsnum
  lpi_entryDipOffsetBins :: "jsnum option"
  lpi_signalTimestamp :: "int option"
  lpi_signalSnapshotId :: "int option"

definition makeLivePositionRecord :: "int \<Rightarrow> LivePositionInput \<Rightarrow> PositionRecord" where
  "makeLivePositionRecord now inp =
     (let decision = lpi_decision inp; pool = lpi_pool inp;
          dipEntry = (nullish (lpi_entryDipOffsetBins inp) (Fin 0) \<noteq> Fin 0)
      in \<lparr>pr_positionId = lpi_positionPubKey inp, pr_poolAddress = dec_poolAddress decision,
          pr_positionPubKey = Some (lpi_positionPubKey inp), pr_depositedUsd = lpi_depositedUsd inp,
          pr_currentValueUsd = lpi_depositedUsd inp, pr_tokenXSymbol = pep_tokenXSymbol pool,
          pr_tokenYSymbol = pep_tokenYSymbol pool, pr_activeBinId = pep_activeBinId pool,
          pr_lowerBinId = lpi_lowerBinId inp, pr_upperBinId = lpi_upperBinId inp,
          pr_timestamp = now, pr_outOfRangeSince = None, pr_oorCycleCount = 0,
          pr_lastFeeClaimAt = now, pr_trailingStopThreshold = None, pr_highestValueUsd = None,
          pr_lastRebalanceAt = 0, pr_paperExitedAt = None,
          pr_entrySignalTimestamp = lpi_signalTimestamp inp,
          pr_entrySignalSnapshotId = lpi_signalSnapshotId inp,
          pr_entryPriceUsd = Some (pep_currentPrice pool),
          pr_entryAmountXUsd = Some (lpi_amountXUsd inp),
          pr_entryAmountYUsd = Some (lpi_amountYUsd inp),
          pr_cumulativeFeesClaimedUsd = Fin 0, pr_cumulativeRewardsClaimedUsd = Fin 0,
          pr_closedAt = None, pr_realizedPnlUsd = None,
          pr_positionMode = dec_positionMode decision, pr_tpLadderJson = dec_tpLadderJson decision,
          pr_invalidationStopPrice = dec_invalidationStopPrice decision,
          pr_launchRunner = (if dipEntry then Some True else None),
          pr_launchRunnerSteps = (if dipEntry then Some (Fin 0) else None),
          pr_launchRunnerAnchorPrice = (if dipEntry then Some (pep_currentPrice pool) else None),
          pr_valuationAnchorPriceUsd = None, pr_valuationAnchorBinId = None,
          pr_valuationAnchorValueUsd = None\<rparr>)"

definition enterPositionAttempt ::
  "LiveReplies \<Rightarrow> LiveExecDeps \<Rightarrow> string \<Rightarrow> BinRange \<Rightarrow> jsnum \<Rightarrow> (string + LiveEnterResult) live" where
  "enterPositionAttempt env deps pool recommended positionSizeUsd =
     ask (\<lambda>t. lrp_enter env t pool (range_lowerBinId recommended) (range_upperBinId recommended)
            positionSizeUsd (lxd_entryStrategySpec deps) (lxd_runnerSingleSidedX deps = Some True))
       (EnterTried pool (range_lowerBinId recommended) (range_upperBinId recommended) positionSizeUsd)"

definition recordYieldBaseline :: "LiveReplies \<Rightarrow> PositionRecord \<Rightarrow> jsnum option \<Rightarrow> unit live" where
  "recordYieldBaseline env pos entryAprPct =
     (if pr_positionMode pos = Some LaunchMode then ret ()
      else do {
        now \<leftarrow> clock env;
        attempt env (SetMetadata (''yieldbase:'' @ pr_positionId pos)
          (YieldBaseText (nullish entryAprPct (Fin 0)) now))
      })"

definition confirmEnterOperation ::
  "LiveReplies \<Rightarrow> ExecutionOperationRecord option \<Rightarrow> string \<Rightarrow> string \<Rightarrow> unit live" where
  "confirmEnterOperation env entryOperation positionId txSignature =
     (case entryOperation of
        None \<Rightarrow> ret ()
      | Some operation \<Rightarrow> do {
          now \<leftarrow> clock env;
          attempt env (SaveOperation (operation\<lparr>eop_positionId := Some positionId,
            eop_status := OpConfirmed, eop_txSignature := Some txSignature, eop_updatedAt := now\<rparr>))
        })"

definition rollbackFailedEnter ::
  "LiveReplies \<Rightarrow> LiveExecDeps \<Rightarrow> string \<Rightarrow> ExecutionOperationRecord option
   \<Rightarrow> EntryPreparationOutcome option \<Rightarrow> LiveError \<Rightarrow> unit live" where
  "rollbackFailedEnter env deps pool entryOperation preparation error =
     (case (lxd_autonomous deps, entryOperation, preparation) of
        (Some autonomous, Some operation, Some prepared) \<Rightarrow> do {
          now \<leftarrow> clock env;
          persistRollbackSettlements env deps pool autonomous operation (rollbackId operation)
            (epo_receipts prepared) OpRetryable error now;
          ret ()
        }
      | _ \<Rightarrow> ret ())"

definition executeLiveEnterPosition ::
  "LiveReplies \<Rightarrow> LiveExecDeps \<Rightarrow> AgentDecision \<Rightarrow> LiveExecPool \<Rightarrow> int option \<Rightarrow> int option
   \<Rightarrow> EntryPreparationOutcome option \<Rightarrow> ExecutionOperationRecord option \<Rightarrow> live_result live" where
  "executeLiveEnterPosition env deps decision pool signalTimestamp signalSnapshotId preparation
       entryOperation = do {
     let positionSizeUsd = nullish (dec_positionSizeUsd decision) (Fin 0);
     let recommended = recommendBinRange (pep_activeBinId pool) (pep_binStep pool)
           (lxd_entryRangeHalfWidth deps) (nullish (lxd_entryDipOffsetBins deps) (Fin 0));
     enterResult \<leftarrow> enterPositionAttempt env deps (dec_poolAddress decision) recommended positionSizeUsd;
     case enterResult of
       Inl err \<Rightarrow> do {
         rollbackFailedEnter env deps (dec_poolAddress decision) entryOperation preparation (EnterFailed err);
         ret (False, Some (EnterFailed err))
       }
     | Inr entered \<Rightarrow> do {
         now \<leftarrow> clock env;
         let pos = makeLivePositionRecord now \<lparr>lpi_decision = decision, lpi_pool = pool,
               lpi_positionPubKey = len_positionPubKey entered, lpi_depositedUsd = positionSizeUsd,
               lpi_amountXUsd = len_amountXUsd entered, lpi_amountYUsd = len_amountYUsd entered,
               lpi_lowerBinId = range_lowerBinId recommended,
               lpi_upperBinId = range_upperBinId recommended,
               lpi_entryDipOffsetBins = lxd_entryDipOffsetBins deps,
               lpi_signalTimestamp = signalTimestamp, lpi_signalSnapshotId = signalSnapshotId\<rparr>;
         track pos;
         attempt env (SavePosition pos);
         recordYieldBaseline env pos (lxd_entryAprPct deps);
         eventAt \<leftarrow> clock env;
         attempt env (SaveEvent \<lparr>lpe_poolAddress = dec_poolAddress decision,
           lpe_positionPubKey = pr_positionPubKey pos, lpe_positionId = pr_positionId pos,
           lpe_event = EnterEvent, lpe_valueUsd = Some positionSizeUsd, lpe_feesUsd = None,
           lpe_price = pep_currentPrice pool,
           lpe_metadata = EnterMetadata (pr_lowerBinId pos) (pr_upperBinId pos)
             (len_txSignature entered) (len_depositMode entered) (lxd_entryStrategySpec deps),
           lpe_createdAt = eventAt\<rparr>);
         confirmEnterOperation env entryOperation (pr_positionId pos) (len_txSignature entered);
         ret (True, None)
       }
   }"

definition executeLiveEnterPipeline ::
  "LiveReplies \<Rightarrow> LiveExecDeps \<Rightarrow> AgentDecision \<Rightarrow> LiveExecPool \<Rightarrow> int option \<Rightarrow> int option
   \<Rightarrow> live_result live" where
  "executeLiveEnterPipeline env deps decision pool signalTimestamp signalSnapshotId = do {
     planned \<leftarrow> planLiveEntryOperation env deps decision (pep_tokenX pool);
     case snd planned of
       Some e \<Rightarrow> ret (False, Some e)
     | None \<Rightarrow> do {
         refused \<leftarrow> checkLiveEntrySolGate env deps (fst planned);
         case refused of
           Some e \<Rightarrow> ret (False, Some e)
         | None \<Rightarrow> do {
             funded \<leftarrow> prepareLiveEntryTokens env deps decision (fst planned);
             case snd funded of
               Some e \<Rightarrow> ret (False, Some e)
             | None \<Rightarrow> executeLiveEnterPosition env deps decision pool signalTimestamp
                 signalSnapshotId (fst funded) (fst planned)
           }
       }
   }"

section \<open>Live exit\<close>

definition planLiveExitOperation ::
  "LiveReplies \<Rightarrow> LiveExecDeps \<Rightarrow> AgentDecision \<Rightarrow> LiveExecPool \<Rightarrow> PositionRecord
   \<Rightarrow> (ExecutionOperationRecord option \<times> LiveError option) live" where
  "planLiveExitOperation env deps decision pool pos =
     (case lxd_autonomous deps of
        None \<Rightarrow> ret (None, None)
      | Some autonomous \<Rightarrow>
          if nullish (pep_tokenX pool) '''' = '''' then ret (None, None)
          else do {
            now \<leftarrow> clock env;
            uuid \<leftarrow> freshIds env;
            let operation = operationRecord autonomous (uuid 0) (lxd_candidateId deps)
                  (Some (pr_positionId pos)) (dec_poolAddress decision)
                  (nullish (pep_tokenX pool) '''') ExitOperation OpPlanned now;
            persisted \<leftarrow> store env (SaveOperation operation);
            ret (if persisted then (Some operation, None) else (None, Some ExitOperationUnsaved))
          })"

text \<open>The operation after the call to the chain; a failed close flags the pool.\<close>

definition finishExitOperation ::
  "LiveReplies \<Rightarrow> ExecutionOperationRecord option \<Rightarrow> (string + LiveExitResult) \<Rightarrow> unit live" where
  "finishExitOperation env exitOperation exitResult =
     (case exitOperation of
        None \<Rightarrow> ret ()
      | Some operation \<Rightarrow> do {
          now \<leftarrow> clock env;
          attempt env (SaveOperation (case exitResult of
             Inr result \<Rightarrow> operation\<lparr>eop_status := OpConfirmed,
               eop_txSignature := Some (ler_txSignature result), eop_updatedAt := now\<rparr>
           | Inl err \<Rightarrow> operation\<lparr>eop_status := OpFailed, eop_error := Some (ExitFailed err),
               eop_updatedAt := now\<rparr>))
        })"

definition runLiveExitPosition ::
  "LiveReplies \<Rightarrow> LiveExecDeps \<Rightarrow> string \<Rightarrow> string \<Rightarrow> ExecutionOperationRecord option
   \<Rightarrow> (LiveError + LiveExitResult option) live" where
  "runLiveExitPosition env deps pool positionPubKey exitOperation = do {
     exitResult \<leftarrow> ask (\<lambda>t. lrp_exit env t pool positionPubKey) (ExitTried pool positionPubKey);
     finishExitOperation env exitOperation exitResult;
     case exitResult of
       Inr result \<Rightarrow> ret (Inr (Some result))
     | Inl err \<Rightarrow> do { requestReconcile deps pool; ret (Inl (ExitFailed err)) }
   }"

definition runExitOrMarkExited ::
  "LiveReplies \<Rightarrow> LiveExecDeps \<Rightarrow> AgentDecision \<Rightarrow> PositionRecord \<Rightarrow> ExecutionOperationRecord option
   \<Rightarrow> (LiveError + LiveExitResult option) live" where
  "runExitOrMarkExited env deps decision pos exitOperation =
     (if nullish (pr_positionPubKey pos) '''' = '''' then ret (Inr None)
      else runLiveExitPosition env deps (dec_poolAddress decision)
             (nullish (pr_positionPubKey pos) '''') exitOperation)"

definition EMPTY_REAP_REDISCOVERY_COOLDOWN_MS :: int where
  "EMPTY_REAP_REDISCOVERY_COOLDOWN_MS = 86400000"

definition tombstoneReapedEmpty :: "LiveReplies \<Rightarrow> string option \<Rightarrow> bool option \<Rightarrow> unit live" where
  "tombstoneReapedEmpty env positionPubKey isEmptyReap =
     (case positionPubKey of
        None \<Rightarrow> ret ()
      | Some key \<Rightarrow>
          if isEmptyReap \<noteq> Some True then ret ()
          else do {
            now \<leftarrow> clock env;
            attempt env (SetMetadata (''reaped_empty:'' @ key)
              (TimeText (now + EMPTY_REAP_REDISCOVERY_COOLDOWN_MS)))
          })"

definition warnUnpricedExit :: "LiveReplies \<Rightarrow> LiveExecDeps \<Rightarrow> string \<Rightarrow> unit live" where
  "warnUnpricedExit env deps pool = do {
     State (\<lambda>st. ((), if lxd_hasWarnedSet deps
       then st\<lparr>lst_warned := insert pool (lst_warned st)\<rparr> else st));
     (if lxd_hasMemory deps then attempt env (UpsertWarning pool) else ret ())
   }"

text \<open>
  \<^verbatim>\<open>BigInt\<close> of an amount: the amounts of the legs are decimal texts; a reward is a number, whose text
  \<^verbatim>\<open>BigInt\<close> accepts when it is an integer below \<open>10 ^ 21\<close>.
\<close>

definition rewardAtoms :: "jsnum \<Rightarrow> int option" where
  "rewardAtoms amount =
     (case amount of
        Fin q \<Rightarrow> if is_integer amount \<and> \<bar>q\<bar> < 10 ^ 21 then Some \<lfloor>q\<rfloor> else None
      | _ \<Rightarrow> None)"

definition positiveAttributions :: "LiveExitResult \<Rightarrow> string \<Rightarrow> string \<Rightarrow> (string \<times> int) list" where
  "positiveAttributions exitResultData tokenX tokenY =
     List.map_filter
       (\<lambda>(mint, amount). case amount of Some n \<Rightarrow> if n > 0 then Some (mint, n) else None | None \<Rightarrow> None)
       ([(tokenX, read_bigint (nullish (ler_withdrawnXAtomic exitResultData) ''0'')),
         (tokenY, read_bigint (nullish (ler_withdrawnYAtomic exitResultData) ''0''))] @
        map (\<lambda>reward. (rew_mint reward, rewardAtoms (rew_amountAtomic reward)))
          (filter (\<lambda>reward. rew_mint reward \<noteq> ''unknown'')
            (nullish (ler_sweptRewards exitResultData) [])))"

definition exitSettlementJob ::
  "AutonomousExecutionContext \<Rightarrow> string \<Rightarrow> string \<Rightarrow> int \<Rightarrow> (nat \<Rightarrow> string) \<Rightarrow> nat \<times> string \<times> int
   \<Rightarrow> SettlementJobRecord" where
  "exitSettlementJob autonomous positionId pool now uuid = (\<lambda>(i, mint, amount).
     pendingJob autonomous (uuid i) positionId pool mint amount now)"

definition saveLiveEvent ::
  "LiveReplies \<Rightarrow> AgentDecision \<Rightarrow> LiveExecPool \<Rightarrow> PositionRecord \<Rightarrow> PositionEventType \<Rightarrow> jsnum option
   \<Rightarrow> jsnum option \<Rightarrow> LiveMetadata \<Rightarrow> int \<Rightarrow> unit live" where
  "saveLiveEvent env decision pool pos event valueUsd feesUsd metadata createdAt =
     attempt env (SaveEvent \<lparr>lpe_poolAddress = dec_poolAddress decision,
       lpe_positionPubKey = pr_positionPubKey pos, lpe_positionId = pr_positionId pos,
       lpe_event = event, lpe_valueUsd = valueUsd, lpe_feesUsd = feesUsd,
       lpe_price = pep_currentPrice pool, lpe_metadata = metadata, lpe_createdAt = createdAt\<rparr>)"

definition recordExitSweepEvents ::
  "LiveReplies \<Rightarrow> AgentDecision \<Rightarrow> LiveExecPool \<Rightarrow> PositionRecord \<Rightarrow> LiveExitResult \<Rightarrow> int \<Rightarrow> unit live" where
  "recordExitSweepEvents env decision pool pos exitResultData now = do {
     (case ler_pendingFeeUsd exitResultData of
        None \<Rightarrow> ret ()
      | Some pendingFeeUsd \<Rightarrow> saveLiveEvent env decision pool pos ClaimEvent None
          (Some pendingFeeUsd) (ExitSweepMetadata None) now);
     let rewards = nullish (ler_sweptRewards exitResultData) [];
     let total = foldl (\<lambda>sum reward. jadd sum (nullish (rew_amountUsd reward) (Fin 0))) (Fin 0) rewards;
     (if rewards = [] then ret ()
      else saveLiveEvent env decision pool pos ClaimEvent
             (if total = Fin 0 \<or> total = NaN then None else Some total) None
             (ExitSweepRewardMetadata None) now)
   }"

definition settlementRealizedPnl ::
  "PositionRecord \<Rightarrow> LiveExitResult \<Rightarrow> (string \<times> int) list \<Rightarrow> jsnum option" where
  "settlementRealizedPnl pos exitResultData attributable =
     (if ler_isEmptyReap exitResultData = Some True then Some (Fin 0)
      else case ler_withdrawnUsd exitResultData of
        None \<Rightarrow> None
      | Some withdrawnUsd \<Rightarrow>
          if attributable \<noteq> [] then None
          else Some (computeRealizedPnlUsd withdrawnUsd (pr_cumulativeFeesClaimedUsd pos)
                 (pr_depositedUsd pos) (pr_cumulativeRewardsClaimedUsd pos)))"

definition settleLiveExitAttribution ::
  "LiveReplies \<Rightarrow> LiveExecDeps \<Rightarrow> AgentDecision \<Rightarrow> LiveExecPool \<Rightarrow> PositionRecord \<Rightarrow> LiveExitResult
   \<Rightarrow> string \<Rightarrow> string \<Rightarrow> AutonomousExecutionContext \<Rightarrow> LiveError option live" where
  "settleLiveExitAttribution env deps decision pool pos exitResultData tokenX tokenY autonomous = do {
     now \<leftarrow> clock env;
     uuid \<leftarrow> freshIds env;
     let attributable = positiveAttributions exitResultData tokenX tokenY;
     settlementPersisted \<leftarrow> saveJobs env deps autonomous (dec_poolAddress decision) now
       (map (exitSettlementJob autonomous (pr_positionId pos) (dec_poolAddress decision) now uuid)
         (zip [0..<length attributable] attributable));
     if \<not> settlementPersisted then ret (Some SettlementJobsUnsaved)
     else do {
       recordExitSweepEvents env decision pool pos exitResultData now;
       let realizedPnlUsd = settlementRealizedPnl pos exitResultData attributable;
       attempt env (SavePosition pos);
       attempt env (ClosePosition (pr_positionId pos) realizedPnlUsd);
       tombstoneReapedEmpty env (pr_positionPubKey pos) (ler_isEmptyReap exitResultData);
       armLiveRugBlocks env deps pool realizedPnlUsd (pr_depositedUsd pos) None;
       untrack (pr_positionId pos);
       saveLiveEvent env decision pool pos ExitEvent (ler_withdrawnUsd exitResultData)
         (Some (pr_cumulativeFeesClaimedUsd pos))
         (SettlementExitMetadata (length attributable) (ler_txSignature exitResultData)
           (dec_reasoning decision)) now;
       ret None
     }
   }"

record LedgerExitRealized =
  lgr_realizedPnlUsd :: "jsnum option"
  lgr_pricedSweptRewardUsd :: jsnum
  lgr_withdrawnUsd :: "jsnum option"
  lgr_pricingUnresolved :: bool
  lgr_isEmptyReap :: bool
  lgr_modeledCostsUsd :: jsnum

definition liveCloseCostInput :: "int \<Rightarrow> LiveExecDeps \<Rightarrow> PositionRecord \<Rightarrow> LiveCloseCostsParams" where
  "liveCloseCostInput now deps pos =
     \<lparr>lcc_positionSizeUsd = pr_depositedUsd pos,
      lcc_ageDays = jdiv (of_bigint (max (now - pr_timestamp pos) 0)) PAPER_DAY_MS,
      lcc_swapCostPct = nullish (lxd_runnerSwapCostPct deps) (Fin 0),
      lcc_harvestCostUsd = nullish (lxd_feeCaptureHarvestCostUsd deps) (Fin 0),
      lcc_txCostUsd = nullish (lxd_harvestTxCostUsdEst deps) (Fin 0)\<rparr>"

definition sweptRewardsOf :: "LiveExitResult option \<Rightarrow> ClaimedReward list" where
  "sweptRewardsOf exitResultData =
     (case exitResultData of None \<Rightarrow> [] | Some d \<Rightarrow> nullish (ler_sweptRewards d) [])"

definition computeLedgerExitRealized ::
  "PositionRecord \<Rightarrow> LiveExitResult option \<Rightarrow> LiveCloseCostsParams \<Rightarrow> LedgerExitRealized" where
  "computeLedgerExitRealized pos exitResultData costs =
     (let withdrawnUsd = (case exitResultData of None \<Rightarrow> None | Some d \<Rightarrow> ler_withdrawnUsd d);
          pricedSweptRewardUsd = foldl (\<lambda>acc reward. case rew_amountUsd reward of
              Some usd \<Rightarrow> jadd acc usd | None \<Rightarrow> acc) (Fin 0) (sweptRewardsOf exitResultData);
          isEmptyReap = (case exitResultData of None \<Rightarrow> False | Some d \<Rightarrow> ler_isEmptyReap d = Some True);
          modeledCostsUsd = (if isEmptyReap then Fin 0 else liveCloseCostsUsd costs)
      in \<lparr>lgr_realizedPnlUsd =
            (if isEmptyReap then Some (Fin 0)
             else case withdrawnUsd of
               None \<Rightarrow> None
             | Some usd \<Rightarrow> Some (jsub (computeRealizedPnlUsd usd (pr_cumulativeFeesClaimedUsd pos)
                 (pr_depositedUsd pos) (jadd (pr_cumulativeRewardsClaimedUsd pos) pricedSweptRewardUsd))
                 modeledCostsUsd)),
          lgr_pricedSweptRewardUsd = pricedSweptRewardUsd, lgr_withdrawnUsd = withdrawnUsd,
          lgr_pricingUnresolved = (withdrawnUsd = None), lgr_isEmptyReap = isEmptyReap,
          lgr_modeledCostsUsd = modeledCostsUsd\<rparr>)"

text \<open>
  The rewards credited to a position: the position, the credited dollars and whether a reward had
  no price.
\<close>

fun creditSweptRewards ::
  "PositionRecord \<Rightarrow> jsnum \<Rightarrow> bool \<Rightarrow> ClaimedReward list \<Rightarrow> PositionRecord \<times> jsnum \<times> bool" where
  "creditSweptRewards pos sweptRewardUsd unpriced [] = (pos, sweptRewardUsd, unpriced)"
| "creditSweptRewards pos sweptRewardUsd unpriced (reward # rewards) =
     (case rew_amountUsd reward of
        Some usd \<Rightarrow> creditSweptRewards
          (pos\<lparr>pr_cumulativeRewardsClaimedUsd := jadd (pr_cumulativeRewardsClaimedUsd pos) usd\<rparr>)
          (jadd sweptRewardUsd usd) unpriced rewards
      | None \<Rightarrow> creditSweptRewards pos sweptRewardUsd True rewards)"

record ExitSweepFees =
  esf_feeUsd :: "jsnum option"
  esf_feeX :: jsnum
  esf_feeY :: jsnum

definition numberOfAtoms :: "string option \<Rightarrow> jsnum" where
  "numberOfAtoms atoms =
     (case read_bigint (nullish atoms ''0'') of Some n \<Rightarrow> of_bigint n | None \<Rightarrow> NaN)"

definition readExitSweepFees :: "LiveExitResult option \<Rightarrow> ExitSweepFees" where
  "readExitSweepFees exitResultData =
     (case exitResultData of
        None \<Rightarrow> \<lparr>esf_feeUsd = None, esf_feeX = Fin 0, esf_feeY = Fin 0\<rparr>
      | Some d \<Rightarrow> \<lparr>esf_feeUsd = ler_pendingFeeUsd d, esf_feeX = numberOfAtoms (ler_pendingFeeXAtomic d),
           esf_feeY = numberOfAtoms (ler_pendingFeeYAtomic d)\<rparr>)"

definition recordExitSweepFeeClaim ::
  "LiveReplies \<Rightarrow> AgentDecision \<Rightarrow> LiveExecPool \<Rightarrow> PositionRecord \<Rightarrow> jsnum \<Rightarrow> jsnum \<Rightarrow> jsnum \<Rightarrow> unit live" where
  "recordExitSweepFeeClaim env decision pool pos pendingFeeUsd pendingFeeX pendingFeeY =
     (case pr_positionPubKey pos of
        None \<Rightarrow> ret ()
      | Some key \<Rightarrow>
          if \<not> (jgt pendingFeeX (Fin 0) \<or> jgt pendingFeeY (Fin 0)) then ret ()
          else do {
            let sweepTxSignature = ''exit-sweep:'' @ pr_positionId pos;
            now \<leftarrow> clock env;
            attempt env (SaveFeeClaim \<lparr>fcr_poolAddress = dec_poolAddress decision,
              fcr_positionPubkey = key, fcr_feeX = pendingFeeX, fcr_feeY = pendingFeeY,
              fcr_platformFeeX = Fin 0, fcr_platformFeeY = Fin 0, fcr_netFeeX = pendingFeeX,
              fcr_netFeeY = pendingFeeY, fcr_operatorFeeX = Fin 0, fcr_operatorFeeY = Fin 0,
              fcr_txSignature = sweepTxSignature, fcr_feeTransferTxSignature = None,
              fcr_createdAt = now, fcr_reportedToApi = False\<rparr>);
            eventAt \<leftarrow> clock env;
            saveLiveEvent env decision pool pos ClaimEvent None (Some pendingFeeUsd)
              (ExitSweepMetadata (Some sweepTxSignature)) eventAt
          })"

definition recordSweptRewardEvent ::
  "LiveReplies \<Rightarrow> AgentDecision \<Rightarrow> LiveExecPool \<Rightarrow> PositionRecord \<Rightarrow> ClaimedReward list \<Rightarrow> jsnum \<Rightarrow> unit live" where
  "recordSweptRewardEvent env decision pool pos sweptRewards sweptRewardUsd =
     (if sweptRewards = [] then ret ()
      else do {
        now \<leftarrow> clock env;
        saveLiveEvent env decision pool pos ClaimEvent
          (if jgt sweptRewardUsd (Fin 0) then Some sweptRewardUsd else None) None
          (ExitSweepRewardMetadata (Some sweptRewards)) now
      })"

text \<open>
  The sweep is credited to the record that the map of positions shares; the result is the record
  after the credit.
\<close>

definition creditExitSweep ::
  "LiveReplies \<Rightarrow> AgentDecision \<Rightarrow> LiveExecPool \<Rightarrow> PositionRecord \<Rightarrow> LiveExitResult option
   \<Rightarrow> PositionRecord live" where
  "creditExitSweep env decision pool pos exitResultData = do {
     let sweep = readExitSweepFees exitResultData;
     let withFees = (case esf_feeUsd sweep of
           None \<Rightarrow> pos
         | Some usd \<Rightarrow> pos\<lparr>pr_cumulativeFeesClaimedUsd := jadd (pr_cumulativeFeesClaimedUsd pos) usd\<rparr>);
     track withFees;
     (case esf_feeUsd sweep of
        None \<Rightarrow> ret ()
      | Some usd \<Rightarrow> recordExitSweepFeeClaim env decision pool withFees usd (esf_feeX sweep) (esf_feeY sweep));
     let (credited, sweptRewardUsd, unpriced) =
       creditSweptRewards withFees (Fin 0) False (sweptRewardsOf exitResultData);
     track credited;
     recordSweptRewardEvent env decision pool credited (sweptRewardsOf exitResultData) sweptRewardUsd;
     ret credited
   }"

definition exitReasonField :: "string \<Rightarrow> string option" where
  "exitReasonField exitReason = (if exitReason \<noteq> '''' then Some exitReason else None)"

definition buildExitMetadata ::
  "jsnum option \<Rightarrow> bool \<Rightarrow> jsnum \<Rightarrow> LiveExitResult option \<Rightarrow> jsnum \<Rightarrow> string \<Rightarrow> LiveMetadata" where
  "buildExitMetadata realizedPnlUsd pricingUnresolved currentValueUsd exitResultData modeledCostsUsd
       exitReason =
     (let raw = (\<lambda>f. case exitResultData of None \<Rightarrow> None | Some d \<Rightarrow> f d)
      in if \<not> pricingUnresolved
         then ExitMetadata realizedPnlUsd modeledCostsUsd (exitReasonField exitReason)
         else UnpricedExitMetadata realizedPnlUsd modeledCostsUsd currentValueUsd
                (exitReasonField exitReason) (raw ler_withdrawnXAtomic) (raw ler_withdrawnYAtomic)
                (raw ler_pendingFeeXAtomic) (raw ler_pendingFeeYAtomic))"

definition warnUnpricedExitOnce :: "LiveReplies \<Rightarrow> LiveExecDeps \<Rightarrow> string \<Rightarrow> bool \<Rightarrow> unit live" where
  "warnUnpricedExitOnce env deps pool pricingUnresolved =
     (if \<not> pricingUnresolved then ret ()
      else do {
        warned \<leftarrow> State (\<lambda>st. (lxd_hasWarnedSet deps \<and> pool \<in> lst_warned st, st));
        (if warned then ret () else warnUnpricedExit env deps pool)
      })"

definition recordSignalOutcomeIfKnown :: "LiveReplies \<Rightarrow> int option \<Rightarrow> jsnum option \<Rightarrow> unit live" where
  "recordSignalOutcomeIfKnown env snapshotId realizedPnlUsd =
     (case (snapshotId, realizedPnlUsd) of
        (Some i, Some pnl) \<Rightarrow> attempt env (RecordOutcome i pnl)
      | _ \<Rightarrow> ret ())"

definition finalizeLiveExitLedger ::
  "LiveReplies \<Rightarrow> LiveExecDeps \<Rightarrow> AgentDecision \<Rightarrow> LiveExecPool \<Rightarrow> PositionRecord
   \<Rightarrow> LiveExitResult option \<Rightarrow> jsnum option \<Rightarrow> bool \<Rightarrow> jsnum \<Rightarrow> unit live" where
  "finalizeLiveExitLedger env deps decision pool pos exitResultData realizedPnlUsd pricingUnresolved
       modeledCostsUsd = do {
     attempt env (SavePosition pos);
     attempt env (ClosePosition (pr_positionId pos) realizedPnlUsd);
     tombstoneReapedEmpty env (pr_positionPubKey pos)
       (case exitResultData of None \<Rightarrow> None | Some d \<Rightarrow> ler_isEmptyReap d);
     armLiveRugBlocks env deps pool realizedPnlUsd (pr_depositedUsd pos) None;
     recordSignalOutcomeIfKnown env (pr_entrySignalSnapshotId pos) realizedPnlUsd;
     now \<leftarrow> clock env;
     saveLiveEvent env decision pool pos ExitEvent
       (case exitResultData of None \<Rightarrow> None | Some d \<Rightarrow> ler_withdrawnUsd d)
       (Some (pr_cumulativeFeesClaimedUsd pos))
       (buildExitMetadata realizedPnlUsd pricingUnresolved (pr_currentValueUsd pos) exitResultData
         modeledCostsUsd (dec_reasoning decision)) now;
     warnUnpricedExitOnce env deps (dec_poolAddress decision) pricingUnresolved;
     untrack (pr_positionId pos)
   }"

definition liveArmDeps :: "LiveExecDeps \<Rightarrow> RotationArmDeps" where
  "liveArmDeps deps = \<lparr>rad_rotationArmMs = lxd_rotationArmMs deps,
     rad_poolAprByAddress = lxd_poolAprByAddress deps, rad_runnerMinFeeApr = lxd_runnerMinFeeApr deps\<rparr>"

definition checkLiveRotationArm :: "LiveReplies \<Rightarrow> LiveExecDeps \<Rightarrow> AgentDecision \<Rightarrow> bool live" where
  "checkLiveRotationArm env deps decision = do {
     arm \<leftarrow> ask (\<lambda>t. lrp_rotationArm env t (dec_poolAddress decision))
       (\<lambda>_. ArmRead (dec_poolAddress decision));
     now \<leftarrow> clock env;
     let armValid = (case arm of None \<Rightarrow> False | Some a \<Rightarrow> rotationArmIsValid (liveArmDeps deps) now a);
     attempt env (SetMetadata (''rotarm:'' @ dec_poolAddress decision) EmptyText);
     ret armValid
   }"

definition isLiveExitRotationBlocked :: "LiveReplies \<Rightarrow> LiveExecDeps \<Rightarrow> AgentDecision \<Rightarrow> bool live" where
  "isLiveExitRotationBlocked env deps decision =
     (if \<not> starts_with (dec_reasoning decision) ''Rotation:'' then ret False
      else do { armValid \<leftarrow> checkLiveRotationArm env deps decision; ret (\<not> armValid) })"

definition liveAttributionInputs ::
  "AutonomousExecutionContext option \<Rightarrow> LiveExitResult option \<Rightarrow> string option \<Rightarrow> string option
   \<Rightarrow> (AutonomousExecutionContext \<times> LiveExitResult \<times> string \<times> string) option" where
  "liveAttributionInputs autonomous exitResultData tokenX tokenY =
     (case (autonomous, exitResultData, tokenX, tokenY) of
        (Some a, Some d, Some x, Some y) \<Rightarrow> Some (a, d, x, y)
      | _ \<Rightarrow> None)"

definition settleOrBookLiveExit ::
  "LiveReplies \<Rightarrow> LiveExecDeps \<Rightarrow> AgentDecision \<Rightarrow> LiveExecPool \<Rightarrow> PositionRecord
   \<Rightarrow> LiveExitResult option \<Rightarrow> live_result live" where
  "settleOrBookLiveExit env deps decision pool pos exitResultData =
     (case liveAttributionInputs (lxd_autonomous deps) exitResultData (pep_tokenX pool) (pep_tokenY pool) of
        Some (autonomous, d, x, y) \<Rightarrow> do {
          settled \<leftarrow> settleLiveExitAttribution env deps decision pool pos d x y autonomous;
          ret (settled = None, settled)
        }
      | None \<Rightarrow> do {
          now \<leftarrow> clock env;
          let computed = computeLedgerExitRealized pos exitResultData (liveCloseCostInput now deps pos);
          credited \<leftarrow> creditExitSweep env decision pool pos exitResultData;
          finalizeLiveExitLedger env deps decision pool credited exitResultData
            (lgr_realizedPnlUsd computed) (lgr_pricingUnresolved computed) (lgr_modeledCostsUsd computed);
          ret (True, None)
        })"

definition executeLiveExit ::
  "LiveReplies \<Rightarrow> LiveExecDeps \<Rightarrow> AgentDecision \<Rightarrow> LiveExecPool \<Rightarrow> live_result live" where
  "executeLiveExit env deps decision pool = do {
     trackedPositions \<leftarrow> trackedNow;
     case resolveTargetPosition trackedPositions decision of
       None \<Rightarrow> ret (False, Some (NothingToExit (dec_poolAddress decision)))
     | Some pos \<Rightarrow> do {
         rotationBlocked \<leftarrow> isLiveExitRotationBlocked env deps decision;
         if rotationBlocked then ret (False, Some RotationCanceled)
         else do {
           planned \<leftarrow> planLiveExitOperation env deps decision pool pos;
           case snd planned of
             Some e \<Rightarrow> ret (False, Some e)
           | None \<Rightarrow> do {
               exitRun \<leftarrow> runExitOrMarkExited env deps decision pos (fst planned);
               case exitRun of
                 Inl e \<Rightarrow> ret (False, Some e)
               | Inr exitResultData \<Rightarrow> settleOrBookLiveExit env deps decision pool pos exitResultData
             }
         }
       }
   }"

section \<open>Live rebalance\<close>

definition buildFeeClaimRow :: "int \<Rightarrow> string \<Rightarrow> string \<Rightarrow> LiveClaimResult \<Rightarrow> FeeClaimRow" where
  "buildFeeClaimRow now poolAddress positionPubKey claim =
     \<lparr>fcr_poolAddress = poolAddress, fcr_positionPubkey = positionPubKey, fcr_feeX = lcr_feeX claim,
      fcr_feeY = lcr_feeY claim, fcr_platformFeeX = lcr_platformFeeX claim,
      fcr_platformFeeY = lcr_platformFeeY claim, fcr_netFeeX = lcr_netFeeX claim,
      fcr_netFeeY = lcr_netFeeY claim,
      fcr_operatorFeeX = nullish (lcr_operatorFeeX claim) (Fin 0),
      fcr_operatorFeeY = nullish (lcr_operatorFeeY claim) (Fin 0),
      fcr_txSignature = lcr_txSignature claim,
      fcr_feeTransferTxSignature = lcr_feeTransferTxSignature claim,
      fcr_createdAt = now, fcr_reportedToApi = False\<rparr>"

definition hasReportablePlatformFees :: "LiveClaimResult \<Rightarrow> bool" where
  "hasReportablePlatformFees claim \<longleftrightarrow>
     jgt (lcr_platformFeeX claim) (Fin 0) \<or> jgt (lcr_platformFeeY claim) (Fin 0) \<or>
     jgt (nullish (lcr_operatorFeeX claim) (Fin 0)) (Fin 0) \<or>
     jgt (nullish (lcr_operatorFeeY claim) (Fin 0)) (Fin 0)"

definition bookPreRebalanceClaim ::
  "LiveReplies \<Rightarrow> AgentDecision \<Rightarrow> LiveExecPool \<Rightarrow> PositionRecord \<Rightarrow> string \<Rightarrow> LiveClaimResult
   \<Rightarrow> PositionRecord live" where
  "bookPreRebalanceClaim env decision pool pos positionPubKey claim = do {
     now \<leftarrow> clock env;
     attempt env (SaveFeeClaim (buildFeeClaimRow now (dec_poolAddress decision) positionPubKey claim));
     let claimedFeesUsd = nullish (lcr_netFeesUsd claim) (Fin 0);
     let credited = pos\<lparr>pr_cumulativeFeesClaimedUsd := jadd (pr_cumulativeFeesClaimedUsd pos) claimedFeesUsd\<rparr>;
     track credited;
     eventAt \<leftarrow> clock env;
     saveLiveEvent env decision pool credited ClaimEvent None (Some claimedFeesUsd)
       (ClaimMetadata (lcr_txSignature claim)) eventAt;
     (if hasReportablePlatformFees claim
      then ask (\<lambda>_. ()) (\<lambda>_. FeesReported (dec_poolAddress decision) claim (rvc_tier (lrp_revenueConfig env)))
      else ret ());
     ret credited
   }"

definition harvestGateOverrides :: "LiveExecDeps \<Rightarrow> HarvestGateConfig" where
  "harvestGateOverrides deps =
     \<lparr>hgc_harvestMinNetUsd = lxd_harvestMinNetUsd deps,
      hgc_harvestMaxCostPct = lxd_harvestMaxCostPct deps,
      hgc_harvestTxCostUsdEst = lxd_harvestTxCostUsdEst deps\<rparr>"

text \<open>Whether the harvest gate lets the claim through; an unread amount does.\<close>

definition readRebalanceHarvestGate :: "LiveReplies \<Rightarrow> LiveExecDeps \<Rightarrow> string \<Rightarrow> string \<Rightarrow> bool live" where
  "readRebalanceHarvestGate env deps poolAddress positionPubKey =
     (case lrp_claimable env of
        None \<Rightarrow> ret True
      | Some claimable \<Rightarrow> do {
          netUsd \<leftarrow> ask (\<lambda>t. claimable t poolAddress positionPubKey) (ClaimableRead poolAddress);
          ret (case netUsd of
             Inl _ \<Rightarrow> True | Inr net \<Rightarrow> fst (evaluateHarvestGate net (harvestGateOverrides deps)))
        })"

definition claimPreRebalanceFees ::
  "LiveReplies \<Rightarrow> LiveExecDeps \<Rightarrow> AgentDecision \<Rightarrow> LiveExecPool \<Rightarrow> PositionRecord \<Rightarrow> string
   \<Rightarrow> PositionRecord live" where
  "claimPreRebalanceFees env deps decision pool pos positionPubKey = do {
     approved \<leftarrow> readRebalanceHarvestGate env deps (dec_poolAddress decision) positionPubKey;
     if \<not> approved then ret pos
     else do {
       claimResult \<leftarrow> ask (\<lambda>t. lrp_claim env t (dec_poolAddress decision) positionPubKey
           (lrp_revenueConfig env)) (FeesClaimed (dec_poolAddress decision) positionPubKey);
       case claimResult of
         Inl _ \<Rightarrow> ret pos
       | Inr claim \<Rightarrow>
           if jgt (lcr_feeX claim) (Fin 0) \<or> jgt (lcr_feeY claim) (Fin 0)
           then bookPreRebalanceClaim env decision pool pos positionPubKey claim
           else ret pos
     }
   }"

definition attemptAtomicRebalance ::
  "LiveReplies \<Rightarrow> string \<Rightarrow> string \<Rightarrow> RebalanceParams \<Rightarrow> (string + LiveRebalanceResult) live" where
  "attemptAtomicRebalance env pool positionPubKey params =
     ask (\<lambda>t. lrp_rebalance env t pool positionPubKey (reb_newLowerBinId params)
            (reb_newUpperBinId params) (reb_topUp params))
       (RebalanceTried pool positionPubKey (reb_newLowerBinId params) (reb_newUpperBinId params)
         (reb_topUp params))"

definition buildRebalancedRecord ::
  "int \<Rightarrow> PositionRecord \<Rightarrow> jsnum \<Rightarrow> RebalanceParams \<Rightarrow> string \<Rightarrow> PositionRecord" where
  "buildRebalancedRecord now pos currentPrice params resultPubkey =
     (let topUpUsd = nullish (reb_topUpUsd params) (Fin 0);
          scaled = applyCompoundToCostBasis
            \<lparr>cci_depositedUsd = pr_depositedUsd pos, cci_currentValueUsd = pr_currentValueUsd pos,
             cci_highestValueUsd = pr_highestValueUsd pos, cci_compoundedFeesUsd = topUpUsd\<rparr>;
          reshaped = pos\<lparr>
            pr_depositedUsd := ccb_depositedUsd scaled,
            pr_currentValueUsd := ccb_currentValueUsd scaled,
            pr_highestValueUsd := Some (ccb_highestValueUsd scaled),
            pr_entryAmountXUsd := (if pr_launchRunner pos = Some True
              then Some (jadd (nullish (pr_entryAmountXUsd pos) (Fin 0)) topUpUsd)
              else pr_entryAmountXUsd pos),
            pr_positionId := resultPubkey, pr_positionPubKey := Some resultPubkey,
            pr_lowerBinId := reb_newLowerBinId params, pr_upperBinId := reb_newUpperBinId params\<rparr>;
          stepped = (if reb_topUp params \<noteq> None
            then reshaped\<lparr>pr_launchRunnerAnchorPrice := Some currentPrice,
                   pr_launchRunnerSteps := Some (jadd (nullish (pr_launchRunnerSteps pos) (Fin 0)) (Fin 1))\<rparr>
            else reshaped)
      in stepped\<lparr>pr_lastFeeClaimAt := now, pr_lastRebalanceAt := now\<rparr>)"

text \<open>The position moves with its key if the chain ever changes it.\<close>

definition rekeyPosition :: "LiveReplies \<Rightarrow> string \<Rightarrow> string \<Rightarrow> unit live" where
  "rekeyPosition env oldId newId =
     (if newId = oldId then ret () else do { untrack oldId; attempt env (DeletePosition oldId) })"

definition executeLiveRebalance ::
  "LiveReplies \<Rightarrow> LiveExecDeps \<Rightarrow> AgentDecision \<Rightarrow> LiveExecPool \<Rightarrow> RebalanceParams \<Rightarrow> live_result live" where
  "executeLiveRebalance env deps decision pool params = do {
     trackedPositions \<leftarrow> trackedNow;
     case resolveTargetPosition trackedPositions decision of
       None \<Rightarrow> ret (False, Some RebalanceWithoutPosition)
     | Some found \<Rightarrow>
         let positionPubKey = nullish (pr_positionPubKey found) ''''
         in if positionPubKey = '''' then ret (False, Some RebalanceWithoutPosition)
            else do {
              pos \<leftarrow> claimPreRebalanceFees env deps decision pool found positionPubKey;
              rebalanceResult \<leftarrow> attemptAtomicRebalance env (dec_poolAddress decision) positionPubKey params;
              case rebalanceResult of
                Inl err \<Rightarrow> do {
                  requestReconcile deps (dec_poolAddress decision);
                  ret (False, Some (RebalanceFailed err))
                }
              | Inr reshaped \<Rightarrow> do {
                  now \<leftarrow> clock env;
                  let updated = buildRebalancedRecord now pos (pep_currentPrice pool) params
                        (lrr_positionPubKey reshaped);
                  rekeyPosition env (pr_positionId pos) (pr_positionId updated);
                  track updated;
                  attempt env (SavePosition updated);
                  eventAt \<leftarrow> clock env;
                  saveLiveEvent env decision pool updated RebalanceEvent
                    (Some (pr_currentValueUsd updated)) None
                    (RebalanceMetadata (reb_newLowerBinId params) (reb_newUpperBinId params)
                      (lrr_txSignatures reshaped)) eventAt;
                  ret (True, None)
                }
            }
   }"

section \<open>The executor\<close>

definition executeLive ::
  "LiveReplies \<Rightarrow> LiveExecDeps \<Rightarrow> AgentDecision \<Rightarrow> LiveExecPool \<Rightarrow> int option \<Rightarrow> int option
   \<Rightarrow> live_result live" where
  "executeLive env deps decision pool signalTimestamp signalSnapshotId =
     (if \<not> lrp_hasWallet env then ret (False, Some NoWalletConfigured)
      else if dec_action decision = ENTER \<and> truthySize (dec_positionSizeUsd decision)
      then executeLiveEnterPipeline env deps decision pool signalTimestamp signalSnapshotId
      else if dec_action decision = ENTER then ret (False, Some EnterWithoutSize)
      else if dec_action decision = EXIT then executeLiveExit env deps decision pool
      else case (dec_action decision, dec_rebalanceParams decision) of
        (REBALANCE, Some params) \<Rightarrow> executeLiveRebalance env deps decision pool params
      | _ \<Rightarrow> ret (False, Some (NoLivePath (dec_action decision))))"

end
