(* ===== verification/LiveFacts.thy ===== *)
theory LiveFacts
  imports LiveTrading
begin

text \<open>
  What the live executor guarantees.  \<open>runs m Q st\<close> says that the program \<open>m\<close>, started in \<open>st\<close>, ends
  in a result and a state that satisfy \<open>Q\<close>; its rules are collected in \<open>live_wp\<close>.  The trace is
  read by projections: the sales stored for a position, the rows closed, the pauses requested, the
  statuses of the operations and the calls to the chain.
\<close>

section \<open>Weakest preconditions\<close>

named_theorems live_wp

definition runs :: "'a live \<Rightarrow> ('a \<Rightarrow> LiveState \<Rightarrow> bool) \<Rightarrow> LiveState \<Rightarrow> bool" where
  "runs m Q st \<longleftrightarrow> (case run_state m st of (a, st') \<Rightarrow> Q a st')"

lemma runs_State [live_wp]: "runs (State f) Q st = (case f st of (a, st') \<Rightarrow> Q a st')"
  by (simp add: runs_def)

lemma runs_ret [live_wp]: "runs (ret a) Q st = Q a st"
  by (simp add: runs_def)

lemma runs_ret_result [live_wp]: "runs (ret a) Q = Q a"
  by (rule ext) (rule runs_ret)

lemma runs_bind [live_wp]: "runs (State_Monad.bind m f) Q st = runs m (\<lambda>a. runs (f a) Q) st"
  by (simp add: runs_def split: prod.split)

lemma runs_ask [live_wp]:
  "runs (ask reply event) Q st =
     Q (reply (lst_trace st)) (st\<lparr>lst_trace := lst_trace st @ [event (reply (lst_trace st))]\<rparr>)"
  by (simp add: ask_def live_wp Let_def)

lemma runs_store [live_wp]:
  "runs (store env w) Q st = Q (lrp_write env (lst_trace st) w)
     (st\<lparr>lst_trace := lst_trace st @ [Wrote w (lrp_write env (lst_trace st) w)]\<rparr>)"
  by (simp add: store_def live_wp)

lemma runs_attempt [live_wp]:
  "runs (attempt env w) Q st =
     Q () (st\<lparr>lst_trace := lst_trace st @ [Wrote w (lrp_write env (lst_trace st) w)]\<rparr>)"
  by (simp add: attempt_def live_wp)

lemma runs_reads [live_wp]:
  "runs (clock env) Q st = Q (lrp_clock env (lst_trace st)) st"
  "runs (freshIds env) (\<lambda>u. P u) st = P (lrp_uuid env (lst_trace st)) st"
  "runs trackedNow (\<lambda>t. R t) st = R (lst_tracked st) st"
  by (simp_all add: clock_def freshIds_def trackedNow_def live_wp)

lemma runs_memory [live_wp]:
  "runs (track pos) Q st =
     Q () (st\<lparr>lst_tracked := AList.update (pr_positionId pos) pos (lst_tracked st)\<rparr>)"
  "runs (untrack i) Q st = Q () (st\<lparr>lst_tracked := AList.delete i (lst_tracked st)\<rparr>)"
  "runs (requestReconcile deps pool) Q st = Q ()
     (if lxd_hasReconcileSet deps then st\<lparr>lst_reconcile := insert pool (lst_reconcile st)\<rparr> else st)"
  by (simp_all add: track_def untrack_def requestReconcile_def live_wp)

lemma runs_mono: "runs m Q st \<Longrightarrow> (\<And>a st'. Q a st' \<Longrightarrow> R a st') \<Longrightarrow> runs m R st"
  by (auto simp: runs_def split: prod.splits)

lemma runs_conj: "runs m Q st \<Longrightarrow> runs m R st \<Longrightarrow> runs m (\<lambda>a st'. Q a st' \<and> R a st') st"
  by (auto simp: runs_def split: prod.splits)

lemma runsD: "runs m Q st \<Longrightarrow> run_state m st = (a, st') \<Longrightarrow> Q a st'"
  by (simp add: runs_def)

lemma runsI: "(\<And>a st'. run_state m st = (a, st') \<Longrightarrow> Q a st') \<Longrightarrow> runs m Q st"
  by (auto simp: runs_def split: prod.splits)

lemma runs_seq:
  assumes "runs m Q st" "\<And>a st'. Q a st' \<Longrightarrow> runs (f a) R st'"
  shows "runs (State_Monad.bind m f) R st"
  using runs_mono [OF assms] by (simp add: live_wp)

section \<open>Readings of the trace\<close>

text \<open>The stored sales: position, mint and amount of each settlement job that was written.\<close>

fun sale_of :: "LiveEvent \<Rightarrow> (string \<times> string \<times> int) list" where
  "sale_of (Wrote (SaveJob job) True) =
     (if sj_status job = Pending then [(sj_positionId job, sj_tokenMint job, sj_amountAtomic job)] else [])"
| "sale_of _ = []"

fun close_of :: "LiveEvent \<Rightarrow> (string \<times> jsnum option) list" where
  "close_of (Wrote (ClosePosition i pnl) ok) = [(i, pnl)]"
| "close_of _ = []"

fun pause_of :: "LiveEvent \<Rightarrow> string list" where
  "pause_of (Wrote (SavePause pause) ok) = [spr_reason pause]"
| "pause_of _ = []"

fun status_of :: "LiveEvent \<Rightarrow> (ExecutionOperationType \<times> ExecutionOperationStatus) list" where
  "status_of (Wrote (SaveOperation operation) ok) = [(eop_operationType operation, eop_status operation)]"
| "status_of _ = []"

fun exit_of :: "LiveEvent \<Rightarrow> LiveExitResult list" where
  "exit_of (ExitTried pool key (Inr result)) = [result]"
| "exit_of _ = []"

fun entry_of :: "LiveEvent \<Rightarrow> LiveEnterResult list" where
  "entry_of (EnterTried pool lower upper sizeUsd (Inr result)) = [result]"
| "entry_of _ = []"

fun funding_of :: "LiveEvent \<Rightarrow> EntryPreparationReceipt list" where
  "funding_of (TokensPrepared pool sizeUsd xOnly (Inr (Some outcome))) = epo_receipts outcome"
| "funding_of (TokensPrepared pool sizeUsd xOnly (Inl failure)) =
     (case partialOf failure of None \<Rightarrow> [] | Some outcome \<Rightarrow> epo_receipts outcome)"
| "funding_of _ = []"

definition reading :: "(LiveEvent \<Rightarrow> 'a list) \<Rightarrow> live_trace \<Rightarrow> 'a list" where
  "reading f t = concat (map f t)"

lemma reading_simps [simp]:
  "reading f [] = []" "reading f (e # t) = f e @ reading f t"
  "reading f (s @ t) = reading f s @ reading f t"
  by (simp_all add: reading_def)

definition storedSales :: "live_trace \<Rightarrow> (string \<times> string \<times> int) list" where
  "storedSales t = reading sale_of t"

definition closes :: "live_trace \<Rightarrow> (string \<times> jsnum option) list" where
  "closes t = reading close_of t"

definition pauses :: "live_trace \<Rightarrow> string list" where
  "pauses t = reading pause_of t"

definition operationStatuses :: "live_trace \<Rightarrow> (ExecutionOperationType \<times> ExecutionOperationStatus) list" where
  "operationStatuses t = reading status_of t"

definition exits :: "live_trace \<Rightarrow> LiveExitResult list" where
  "exits t = reading exit_of t"

definition entries :: "live_trace \<Rightarrow> LiveEnterResult list" where
  "entries t = reading entry_of t"

definition fundingReceipts :: "live_trace \<Rightarrow> EntryPreparationReceipt list" where
  "fundingReceipts t = reading funding_of t"

lemmas readings = storedSales_def closes_def pauses_def operationStatuses_def exits_def entries_def
  fundingReceipts_def

lemma readings_append:
  "storedSales (s @ t) = storedSales s @ storedSales t" "closes (s @ t) = closes s @ closes t"
  "pauses (s @ t) = pauses s @ pauses t"
  "operationStatuses (s @ t) = operationStatuses s @ operationStatuses t"
  "exits (s @ t) = exits s @ exits t" "entries (s @ t) = entries s @ entries t"
  "fundingReceipts (s @ t) = fundingReceipts s @ fundingReceipts t"
  by (simp_all add: readings)

section \<open>Silent programs\<close>

text \<open>
  A silent event is in none of the readings; a silent program appends silent events and leaves
  the positions in memory and the reconcile requests alone.
\<close>

definition silent :: "LiveEvent \<Rightarrow> bool" where
  "silent e \<longleftrightarrow> sale_of e = [] \<and> close_of e = [] \<and> pause_of e = [] \<and> status_of e = [] \<and>
     exit_of e = [] \<and> entry_of e = [] \<and> funding_of e = []"

lemma silent_reading:
  assumes "list_all silent u"
  shows "storedSales u = []" "closes u = []" "pauses u = []" "operationStatuses u = []"
    "exits u = []" "entries u = []" "fundingReceipts u = []"
  using assms by (induction u) (simp_all add: readings silent_def)

definition same_memory :: "LiveState \<Rightarrow> LiveState \<Rightarrow> bool" where
  "same_memory st st' \<longleftrightarrow>
     lst_tracked st' = lst_tracked st \<and> lst_reconcile st' = lst_reconcile st"

lemma same_memory_trans: "same_memory a b \<Longrightarrow> same_memory b c \<Longrightarrow> same_memory a c"
  by (simp add: same_memory_def)

lemma same_memory_simps [simp]:
  "same_memory st st" "same_memory st (st\<lparr>lst_trace := t\<rparr>)" "same_memory st (st\<lparr>lst_warned := w\<rparr>)"
  by (simp_all add: same_memory_def)

definition grows :: "(live_trace \<Rightarrow> bool) \<Rightarrow> LiveState \<Rightarrow> LiveState \<Rightarrow> bool" where
  "grows P st st' \<longleftrightarrow> (\<exists>u. lst_trace st' = lst_trace st @ u \<and> P u)"

definition silently :: "'a live \<Rightarrow> bool" where
  "silently m \<longleftrightarrow> (\<forall>st. runs m (\<lambda>_ st'. grows (list_all silent) st st' \<and> same_memory st st') st)"

named_theorems silent_intros

lemma silentlyI:
  "(\<And>st. runs m (\<lambda>_ st'. grows (list_all silent) st st' \<and> same_memory st st') st) \<Longrightarrow> silently m"
  by (simp add: silently_def)

lemma silently_ret [silent_intros]: "silently (ret a)"
  by (rule silentlyI) (simp add: live_wp grows_def)

lemma silently_bind [silent_intros]:
  assumes "silently m" "\<And>a. silently (f a)"
  shows "silently (State_Monad.bind m f)"
proof (rule silentlyI, rule runs_seq)
  fix st show "runs m (\<lambda>_ st'. grows (list_all silent) st st' \<and> same_memory st st') st"
    using assms(1) by (simp add: silently_def)
next
  fix st a st' assume here: "grows (list_all silent) st st' \<and> same_memory st st'"
  have "runs (f a) (\<lambda>_ st''. grows (list_all silent) st' st'' \<and> same_memory st' st'') st'"
    using assms(2) by (simp add: silently_def)
  then show "runs (f a) (\<lambda>_ st''. grows (list_all silent) st st'' \<and> same_memory st st'') st'"
  proof (rule runs_mono)
    fix b st'' assume next_: "grows (list_all silent) st' st'' \<and> same_memory st' st''"
    obtain u v where "lst_trace st' = lst_trace st @ u" "list_all silent u"
        "lst_trace st'' = lst_trace st' @ v" "list_all silent v"
      using here next_ by (auto simp: grows_def)
    then have "lst_trace st'' = lst_trace st @ (u @ v) \<and> list_all silent (u @ v)" by simp
    then have "grows (list_all silent) st st''" unfolding grows_def by (rule exI)
    then show "grows (list_all silent) st st'' \<and> same_memory st st''"
      using here next_ by (auto intro: same_memory_trans)
  qed
qed

lemma silently_ask [silent_intros]: "(\<And>r. silent (event r)) \<Longrightarrow> silently (ask reply event)"
  by (rule silentlyI) (auto simp: live_wp grows_def)

lemma silently_attempt [silent_intros]:
  "silent (Wrote w True) \<Longrightarrow> silent (Wrote w False) \<Longrightarrow> silently (attempt env w)"
  by (rule silentlyI) (auto simp: live_wp grows_def, metis (full_types))

lemma silently_clock [silent_intros]: "silently (clock env)"
  by (rule silentlyI) (simp add: live_wp grows_def)

lemma silently_if [silent_intros]:
  "(b \<Longrightarrow> silently m) \<Longrightarrow> (\<not> b \<Longrightarrow> silently k) \<Longrightarrow> silently (if b then m else k)"
  by simp

lemma silently_option [silent_intros]:
  "silently m \<Longrightarrow> (\<And>a. silently (f a)) \<Longrightarrow> silently (case x of None \<Rightarrow> m | Some a \<Rightarrow> f a)"
  by (cases x) auto

lemma silently_sum [silent_intros]:
  "(\<And>a. silently (f a)) \<Longrightarrow> (\<And>a. silently (g a)) \<Longrightarrow> silently (case x of Inl a \<Rightarrow> f a | Inr a \<Rightarrow> g a)"
  by (cases x) auto

lemma silently_pair [silent_intros]:
  "(\<And>a b. silently (f a b)) \<Longrightarrow> silently (case x of (a, b) \<Rightarrow> f a b)"
  by (cases x) auto

lemma silently_let [silent_intros]: "(\<And>a. silently (f a)) \<Longrightarrow> silently (let a = x in f a)"
  by simp

lemma silently_each [silent_intros]: "(\<And>a. silently (f a)) \<Longrightarrow> silently (each f xs)"
  by (induction xs) (auto intro!: silent_intros)

lemma silent_events [simp]:
  "silent (NativeSolRead r)" "silent (SolPriceRead p)" "silent (SolToppedUp a b)" "silent (ArmRead pool)"
  "silent (ClaimableRead pool c)" "silent (FeesClaimed pool key claim)" "silent (FeesReported pool report tier)"
  "silent (RebalanceTried pool key lower upper extra res)"
  "silent (Wrote (SavePosition pos) ok)" "silent (Wrote (SetMetadata k v) ok)"
  "silent (Wrote (SaveEvent ev) ok)" "silent (Wrote (SaveFeeClaim row) ok)"
  "silent (Wrote (RecordOutcome i pnl) ok)" "silent (Wrote (UpsertWarning pool) ok)"
  "silent (Wrote (DeletePosition gone) ok)"
  by (simp_all add: silent_def)

lemma runs_silently:
  assumes "silently m" "\<And>a st'. grows (list_all silent) st st' \<Longrightarrow> same_memory st st' \<Longrightarrow> Q a st'"
  shows "runs m Q st"
proof (rule runs_mono)
  show "runs m (\<lambda>_ st'. grows (list_all silent) st st' \<and> same_memory st st') st"
    using assms(1) by (simp add: silently_def)
qed (use assms(2) in blast)

lemma silently_programs [silent_intros]:
  "silently (saveLiveEvent env decision pool pos event valueUsd feesUsd metadata createdAt)"
  "silently (tombstoneReapedEmpty env key reap)"
  "silently (armLiveRugBlocks env deps pool pnl depositedUsd blockMs)"
  "silently (recordYieldBaseline env pos apr)"
  "silently (topUpSolReserve env reserve price)"
  "silently (recordSignalOutcomeIfKnown env i pnl)"
  unfolding saveLiveEvent_def tombstoneReapedEmpty_def armLiveRugBlocks_def recordYieldBaseline_def
    topUpSolReserve_def recordSignalOutcomeIfKnown_def
  by (auto intro!: silent_intros simp: Let_def split: option.split)

lemma silently_warnings [silent_intros]:
  "silently (warnUnpricedExit env deps pool)" "silently (warnUnpricedExitOnce env deps pool unresolved)"
proof -
  show w: "silently (warnUnpricedExit env deps pool)"
    unfolding warnUnpricedExit_def
    by (intro silent_intros; (rule silentlyI)?) (auto simp: live_wp grows_def)
  have "silently (State (\<lambda>st. (lxd_hasWarnedSet deps \<and> pool \<in> lst_warned st, st)))"
    by (rule silentlyI) (simp add: live_wp grows_def)
  then show "silently (warnUnpricedExitOnce env deps pool unresolved)"
    unfolding warnUnpricedExitOnce_def by (auto intro!: silent_intros w)
qed

lemma silently_claims [silent_intros]:
  "silently (recordExitSweepEvents env decision pool pos result now)"
  "silently (recordExitSweepFeeClaim env decision pool pos usd x y)"
  "silently (recordSweptRewardEvent env decision pool pos rewards usd)"
  "silently (readRebalanceHarvestGate env deps poolAddress key)"
  "silently (checkLiveRotationArm env deps decision)"
  "silently (isLiveExitRotationBlocked env deps decision)"
  unfolding recordExitSweepEvents_def recordExitSweepFeeClaim_def recordSweptRewardEvent_def
    readRebalanceHarvestGate_def isLiveExitRotationBlocked_def checkLiveRotationArm_def
  by (auto intro!: silent_intros simp: Let_def split: option.split)

section \<open>Storing settlement jobs\<close>

definition sale :: "SettlementJobRecord \<Rightarrow> string \<times> string \<times> int" where
  "sale job = (sj_positionId job, sj_tokenMint job, sj_amountAtomic job)"

definition flagged :: "LiveExecDeps \<Rightarrow> string \<Rightarrow> LiveState \<Rightarrow> LiveState \<Rightarrow> bool" where
  "flagged deps pool st st' \<longleftrightarrow> lst_tracked st' = lst_tracked st \<and>
     lst_reconcile st' = (if lxd_hasReconcileSet deps then insert pool (lst_reconcile st) else lst_reconcile st)"

definition only_sales :: "live_trace \<Rightarrow> bool" where
  "only_sales u \<longleftrightarrow> closes u = [] \<and> operationStatuses u = [] \<and> exits u = [] \<and> entries u = [] \<and>
     fundingReceipts u = []"

definition jobs_post ::
  "LiveExecDeps \<Rightarrow> string \<Rightarrow> SettlementJobRecord list \<Rightarrow> bool \<Rightarrow> LiveState \<Rightarrow> LiveState \<Rightarrow> bool" where
  "jobs_post deps pool jobs ok st st' \<longleftrightarrow>
     (\<exists>u. lst_trace st' = lst_trace st @ u \<and> only_sales u \<and>
        (if ok then storedSales u = map sale jobs \<and> pauses u = [] \<and> same_memory st st'
         else (\<exists>n < length jobs. storedSales u = take n (map sale jobs)) \<and> pauses u \<noteq> [] \<and>
           flagged deps pool st st'))"

lemma runs_flag [live_wp]:
  "runs (flagSettlementPersistenceFailure env deps autonomous pool now) Q st =
     Q () (let st1 = (if lxd_hasReconcileSet deps then st\<lparr>lst_reconcile := insert pool (lst_reconcile st)\<rparr> else st);
               w = SavePause \<lparr>spr_walletAddress = aec_walletAddress autonomous,
                 spr_agentInstanceId = aec_agentInstanceId autonomous,
                 spr_reason = ''settlement_persistence_failed'', spr_triggeredAt = now,
                 spr_resolvedAt = None\<rparr>
           in st1\<lparr>lst_trace := lst_trace st1 @ [Wrote w (lrp_write env (lst_trace st1) w)]\<rparr>)"
  by (simp add: flagSettlementPersistenceFailure_def live_wp Let_def)

lemma saveJobs_runs:
  assumes "\<forall>job \<in> set jobs. sj_status job = Pending"
  shows "runs (saveJobs env deps autonomous pool now jobs) (\<lambda>ok st'. jobs_post deps pool jobs ok st st') st"
  using assms
proof (induction jobs arbitrary: st)
  case Nil
  show ?case by (simp add: live_wp jobs_post_def only_sales_def readings)
next
  case (Cons job jobs)
  let ?ok = "lrp_write env (lst_trace st) (SaveJob job)"
  let ?st = "st\<lparr>lst_trace := lst_trace st @ [Wrote (SaveJob job) ?ok]\<rparr>"
  show ?case
  proof (cases ?ok)
    case True
    have "runs (saveJobs env deps autonomous pool now jobs) (\<lambda>ok st'. jobs_post deps pool jobs ok ?st st') ?st"
      using Cons by simp
    then have "runs (saveJobs env deps autonomous pool now jobs) (\<lambda>ok st'. jobs_post deps pool (job # jobs) ok st st') ?st"
    proof (rule runs_mono)
      fix ok st' assume "jobs_post deps pool jobs ok ?st st'"
      then obtain u where u: "lst_trace st' = lst_trace st @ Wrote (SaveJob job) True # u" "only_sales u"
          "if ok then storedSales u = map sale jobs \<and> pauses u = [] \<and> same_memory ?st st'
           else (\<exists>n < length jobs. storedSales u = take n (map sale jobs)) \<and> pauses u \<noteq> [] \<and>
             flagged deps pool ?st st'"
        using True by (auto simp: jobs_post_def)
      let ?u = "Wrote (SaveJob job) True # u"
      have heads: "only_sales ?u" "storedSales ?u = sale job # storedSales u" "pauses ?u = pauses u"
        using u(2) Cons.prems by (simp_all add: only_sales_def readings sale_def)
      show "jobs_post deps pool (job # jobs) ok st st'"
        unfolding jobs_post_def
      proof (rule exI [of _ ?u], intro conjI)
        show "lst_trace st' = lst_trace st @ ?u" by (rule u(1))
        show "only_sales ?u" by (rule heads)
        show "if ok then storedSales ?u = map sale (job # jobs) \<and> pauses ?u = [] \<and> same_memory st st'
          else (\<exists>n < length (job # jobs). storedSales ?u = take n (map sale (job # jobs))) \<and> pauses ?u \<noteq> [] \<and>
            flagged deps pool st st'"
        proof (cases ok)
          case False
          then obtain n where "n < length jobs" "storedSales u = take n (map sale jobs)" using u(3) by auto
          then have "Suc n < length (job # jobs) \<and> storedSales ?u = take (Suc n) (map sale (job # jobs))"
            using heads by simp
          then have "\<exists>n < length (job # jobs). storedSales ?u = take n (map sale (job # jobs))" by blast
          then show ?thesis using u(3) heads False by (simp add: flagged_def)
        qed (use u(3) heads in \<open>simp add: same_memory_def\<close>)
      qed
    qed
    then show ?thesis using True by (simp add: live_wp)
  next
    case False
    then show ?thesis
      by (auto simp: live_wp Let_def jobs_post_def only_sales_def readings flagged_def intro!: exI [of _ 0])
  qed
qed

section \<open>Closing a row\<close>

text \<open>
  A program that closes one row: its new events are silent up to the close, which is the only one,
  and the position leaves the map.
\<close>

definition closing :: "string \<Rightarrow> jsnum option \<Rightarrow> LiveState \<Rightarrow> LiveState \<Rightarrow> bool" where
  "closing i pnl st st' \<longleftrightarrow>
     (\<exists>u ok v. lst_trace st' = lst_trace st @ u @ [Wrote (ClosePosition i pnl) ok] @ v \<and>
        list_all silent u \<and> list_all silent v) \<and>
     lst_tracked st' = AList.delete i (lst_tracked st) \<and> lst_reconcile st' = lst_reconcile st"

lemma runs_closing:
  assumes "silently before" "silently after" "silently final"
  shows "runs (do { before; attempt env (ClosePosition i pnl); after; untrack i; final })
    (\<lambda>_ st'. closing i pnl st st') st"
  unfolding runs_bind
proof (rule runs_silently [OF assms(1)])
  fix st1 assume 1: "grows (list_all silent) st st1" "same_memory st st1"
  let ?c = "Wrote (ClosePosition i pnl) (lrp_write env (lst_trace st1) (ClosePosition i pnl))"
  show "runs (attempt env (ClosePosition i pnl)) (\<lambda>_. runs after (\<lambda>_. runs (untrack i)
      (\<lambda>_. runs final (\<lambda>_ st'. closing i pnl st st')))) st1"
    unfolding runs_attempt
  proof (rule runs_silently [OF assms(2)], unfold runs_memory, rule runs_silently [OF assms(3)])
    fix st2 st3
    assume 2: "grows (list_all silent) (st1\<lparr>lst_trace := lst_trace st1 @ [?c]\<rparr>) st2"
        "same_memory (st1\<lparr>lst_trace := lst_trace st1 @ [?c]\<rparr>) st2"
      and 3: "grows (list_all silent) (st2\<lparr>lst_tracked := AList.delete i (lst_tracked st2)\<rparr>) st3"
        "same_memory (st2\<lparr>lst_tracked := AList.delete i (lst_tracked st2)\<rparr>) st3"
    obtain u v w where u: "lst_trace st1 = lst_trace st @ u" "list_all silent u"
        and v: "lst_trace st2 = lst_trace st1 @ [?c] @ v" "list_all silent v"
        and w: "lst_trace st3 = lst_trace st2 @ w" "list_all silent w"
      using 1 2 3 by (auto simp: grows_def)
    have "lst_trace st3 = lst_trace st @ u @ [?c] @ (v @ w) \<and> list_all silent u \<and> list_all silent (v @ w)"
      using u v w by simp
    then have "\<exists>u ok v. lst_trace st3 = lst_trace st @ u @ [Wrote (ClosePosition i pnl) ok] @ v \<and>
        list_all silent u \<and> list_all silent v" by blast
    then show "closing i pnl st st3" using 1 2 3 by (auto simp: closing_def same_memory_def)
  qed
qed

text \<open>The sales an exit owes: what it withdrew and what it swept, as long as it is positive.\<close>

definition owedSales :: "string \<Rightarrow> LiveExitResult \<Rightarrow> string \<Rightarrow> string \<Rightarrow> (string \<times> string \<times> int) list" where
  "owedSales i result x y = map (\<lambda>(mint, amount). (i, mint, amount)) (positiveAttributions result x y)"

definition settle_post ::
  "LiveExecDeps \<Rightarrow> string \<Rightarrow> PositionRecord \<Rightarrow> LiveExitResult \<Rightarrow> string \<Rightarrow> string \<Rightarrow> LiveError option
   \<Rightarrow> LiveState \<Rightarrow> LiveState \<Rightarrow> bool" where
  "settle_post deps pool pos result x y r st st' \<longleftrightarrow>
     (let owed = owedSales (pr_positionId pos) result x y in
      if r = None
      then \<exists>u st1. lst_trace st1 = lst_trace st @ u \<and> only_sales u \<and> storedSales u = owed \<and> pauses u = [] \<and>
        same_memory st st1 \<and> closing (pr_positionId pos)
          (settlementRealizedPnl pos result (positiveAttributions result x y)) st1 st'
      else \<exists>u. lst_trace st' = lst_trace st @ u \<and> only_sales u \<and>
        (\<exists>n < length owed. storedSales u = take n owed) \<and> pauses u \<noteq> [] \<and> flagged deps pool st st')"

lemma exit_jobs:
  assumes "length ids = length owed"
  shows "map sale (map (exitSettlementJob autonomous i pool now uuid) (zip ids owed)) =
      map (\<lambda>(mint, amount). (i, mint, amount)) owed"
    and "\<forall>job \<in> set (map (exitSettlementJob autonomous i pool now uuid) (zip ids owed)). sj_status job = Pending"
  using assms
  by (induction ids owed rule: list_induct2) (auto simp: sale_def exitSettlementJob_def pendingJob_def)

lemma settle_runs:
  "runs (settleLiveExitAttribution env deps decision pool pos result x y autonomous)
     (\<lambda>r st'. settle_post deps (dec_poolAddress decision) pos result x y r st st') st"
proof -
  let ?owed = "positiveAttributions result x y"
  let ?now = "lrp_clock env (lst_trace st)"
  let ?jobs = "map (exitSettlementJob autonomous (pr_positionId pos) (dec_poolAddress decision) ?now
    (lrp_uuid env (lst_trace st))) (zip [0..<length ?owed] ?owed)"
  let ?pnl = "settlementRealizedPnl pos result ?owed"
  let ?finish = "do {
       do { recordExitSweepEvents env decision pool pos result ?now; attempt env (SavePosition pos) };
       attempt env (ClosePosition (pr_positionId pos) ?pnl);
       do { tombstoneReapedEmpty env (pr_positionPubKey pos) (ler_isEmptyReap result);
            armLiveRugBlocks env deps pool ?pnl (pr_depositedUsd pos) None };
       untrack (pr_positionId pos);
       do { saveLiveEvent env decision pool pos ExitEvent (ler_withdrawnUsd result)
              (Some (pr_cumulativeFeesClaimedUsd pos))
              (SettlementExitMetadata (length ?owed) (ler_txSignature result) (dec_reasoning decision)) ?now;
            ret (None :: LiveError option) } }"
  have sales: "map sale ?jobs = owedSales (pr_positionId pos) result x y"
    "\<forall>job \<in> set ?jobs. sj_status job = Pending"
    unfolding owedSales_def by (rule exit_jobs, simp)+
  have jobs: "runs (saveJobs env deps autonomous (dec_poolAddress decision) ?now ?jobs)
      (\<lambda>ok st'. jobs_post deps (dec_poolAddress decision) ?jobs ok st st') st"
    by (rule saveJobs_runs [OF sales(2)])
  have finish: "runs ?finish (\<lambda>r st'. r = None \<and> closing (pr_positionId pos) ?pnl st1 st') st1" for st1
  proof (rule runs_conj)
    show "runs ?finish (\<lambda>r st'. r = None) st1"
      by (rule runsI) (auto simp: split: prod.splits)
    show "runs ?finish (\<lambda>r st'. closing (pr_positionId pos) ?pnl st1 st') st1"
      by (rule runs_closing) (intro silent_intros silent_events)+
  qed
  have "runs (State_Monad.bind (saveJobs env deps autonomous (dec_poolAddress decision) ?now ?jobs)
      (\<lambda>ok. if \<not> ok then ret (Some SettlementJobsUnsaved) else ?finish))
      (\<lambda>r st'. settle_post deps (dec_poolAddress decision) pos result x y r st st') st"
  proof (rule runs_seq [OF jobs])
    fix ok st1 assume post: "jobs_post deps (dec_poolAddress decision) ?jobs ok st st1"
    show "runs (if \<not> ok then ret (Some SettlementJobsUnsaved) else ?finish)
      (\<lambda>r st'. settle_post deps (dec_poolAddress decision) pos result x y r st st') st1"
    proof (cases ok)
      case True
      have "runs ?finish (\<lambda>r st'. settle_post deps (dec_poolAddress decision) pos result x y r st st') st1"
      proof (rule runs_mono [OF finish])
        fix r :: "LiveError option" and st' assume "r = None \<and> closing (pr_positionId pos) ?pnl st1 st'"
        then show "settle_post deps (dec_poolAddress decision) pos result x y r st st'"
          using post True sales(1) by (auto simp: settle_post_def jobs_post_def Let_def)
      qed
      then show ?thesis using True by simp
    next
      case False
      then have "\<exists>u. lst_trace st1 = lst_trace st @ u \<and> only_sales u \<and>
          (\<exists>n < length (owedSales (pr_positionId pos) result x y).
             storedSales u = take n (owedSales (pr_positionId pos) result x y)) \<and> pauses u \<noteq> [] \<and>
          flagged deps (dec_poolAddress decision) st st1"
        using post unfolding jobs_post_def sales(1) [symmetric] by simp
      then show ?thesis using False by (simp add: live_wp settle_post_def Let_def)
    qed
  qed
  then show ?thesis
    unfolding settleLiveExitAttribution_def by (simp add: live_wp Let_def cong: if_cong)
qed

section \<open>Live exits\<close>

text \<open>
  What a live exit leaves behind.  Without a withdrawal nothing is sold or closed; after one, either
  every owed sale is stored before the row is closed, or the row stays open, the pool is flagged and
  the wallet paused.
\<close>

definition exit_post ::
  "LiveExecDeps \<Rightarrow> AgentDecision \<Rightarrow> PositionRecord \<Rightarrow> string \<Rightarrow> string \<Rightarrow> LiveState \<Rightarrow> live_result
   \<Rightarrow> LiveState \<Rightarrow> bool" where
  "exit_post deps decision pos x y st r st' \<longleftrightarrow>
     (\<exists>u. lst_trace st' = lst_trace st @ u \<and>
       (case exits u of
          [] \<Rightarrow> \<not> fst r \<and> storedSales u = [] \<and> closes u = [] \<and> lst_tracked st' = lst_tracked st
        | [result] \<Rightarrow>
            let owed = owedSales (pr_positionId pos) result x y in
            if fst r
            then (\<exists>before after. u = before @ after \<and> storedSales before = owed \<and> closes before = [] \<and>
                storedSales after = [] \<and> closes after = [(pr_positionId pos,
                  settlementRealizedPnl pos result (positiveAttributions result x y))]) \<and>
              lst_tracked st' = AList.delete (pr_positionId pos) (lst_tracked st)
            else closes u = [] \<and> (\<exists>n < length owed. storedSales u = take n owed) \<and> pauses u \<noteq> [] \<and>
              lst_tracked st' = lst_tracked st \<and>
              (lxd_hasReconcileSet deps \<longrightarrow> dec_poolAddress decision \<in> lst_reconcile st')
        | _ \<Rightarrow> False))"

lemma exit_postI_none:
  assumes "lst_trace st' = lst_trace st @ u" "exits u = []" "storedSales u = []" "closes u = []"
    "lst_tracked st' = lst_tracked st" "\<not> fst r"
  shows "exit_post deps decision pos x y st r st'"
  using assms by (auto simp: exit_post_def)

lemma settled_exit_post:
  assumes start: "lst_trace st1 = lst_trace st @ v" "exits v = [result]" "storedSales v = []" "closes v = []"
      "lst_tracked st1 = lst_tracked st"
    and settle: "settle_post deps (dec_poolAddress decision) pos result x y r st1 st'"
  shows "exit_post deps decision pos x y st (r = None, r) st'"
proof (cases "r = None")
  case True
  obtain u st2 a ok b where u: "lst_trace st2 = lst_trace st1 @ u" "only_sales u" "same_memory st1 st2"
      "storedSales u = owedSales (pr_positionId pos) result x y"
      and c: "lst_trace st' = lst_trace st2 @ a @ [Wrote (ClosePosition (pr_positionId pos)
          (settlementRealizedPnl pos result (positiveAttributions result x y))) ok] @ b"
        "list_all silent a" "list_all silent b"
        "lst_tracked st' = AList.delete (pr_positionId pos) (lst_tracked st2)"
    using settle True by (auto simp: settle_post_def closing_def Let_def)
  let ?close = "Wrote (ClosePosition (pr_positionId pos)
      (settlementRealizedPnl pos result (positiveAttributions result x y))) ok"
  note quiet = silent_reading [OF c(2)] silent_reading [OF c(3)]
  define before where "before = v @ u"
  define after where "after = a @ [?close] @ b"
  have t: "lst_trace st' = lst_trace st @ (before @ after)"
    using start(1) u(1) c(1) by (simp add: before_def after_def)
  have e: "exits (before @ after) = [result]"
    using start(2) u(2) quiet by (simp add: before_def after_def readings_append only_sales_def) (simp add: readings)
  have s: "storedSales before = owedSales (pr_positionId pos) result x y" "closes before = []"
      "storedSales after = []" "closes after = [(pr_positionId pos,
        settlementRealizedPnl pos result (positiveAttributions result x y))]"
    using start(3,4) u(2,4) quiet
    by (simp_all add: before_def after_def readings_append only_sales_def) (simp_all add: readings)
  have m: "lst_tracked st' = AList.delete (pr_positionId pos) (lst_tracked st)"
    using start(5) u(3) c(4) by (simp add: same_memory_def)
  show ?thesis
    unfolding exit_post_def
    by (rule exI [of _ "before @ after"]) (use t e s m True in \<open>auto simp: Let_def\<close>)
next
  case False
  obtain u n where u: "lst_trace st' = lst_trace st1 @ u" "only_sales u" "pauses u \<noteq> []"
      "n < length (owedSales (pr_positionId pos) result x y)"
      "storedSales u = take n (owedSales (pr_positionId pos) result x y)"
      "flagged deps (dec_poolAddress decision) st1 st'"
    using settle False by (auto simp: settle_post_def Let_def)
  have t: "lst_trace st' = lst_trace st @ (v @ u)" "exits (v @ u) = [result]" "closes (v @ u) = []"
      "storedSales (v @ u) = take n (owedSales (pr_positionId pos) result x y)" "pauses (v @ u) \<noteq> []"
    using start u by (simp_all add: readings_append only_sales_def)
  have m: "lst_tracked st' = lst_tracked st"
      "lxd_hasReconcileSet deps \<longrightarrow> dec_poolAddress decision \<in> lst_reconcile st'"
    using u(6) start(5) by (auto simp: flagged_def)
  show ?thesis
    unfolding exit_post_def
    by (rule exI [of _ "v @ u"]) (use t m u(4) False in \<open>auto simp: Let_def\<close>)
qed

lemma settleOrBook_runs:
  assumes "lxd_autonomous deps = Some autonomous" "pep_tokenX pool = Some x" "pep_tokenY pool = Some y"
    and "lst_trace st1 = lst_trace st @ v" "exits v = [result]" "storedSales v = []" "closes v = []"
      "lst_tracked st1 = lst_tracked st"
  shows "runs (settleOrBookLiveExit env deps decision pool pos (Some result))
    (\<lambda>r st'. exit_post deps decision pos x y st r st') st1"
  unfolding settleOrBookLiveExit_def
  by (simp add: assms(1-3) liveAttributionInputs_def runs_bind)
    (rule runs_mono [OF settle_runs], simp only: runs_ret, rule settled_exit_post [OF assms(4-8)])

lemma exit_call_runs:
  assumes "lxd_autonomous deps = Some autonomous" "pep_tokenX pool = Some x" "pep_tokenY pool = Some y"
    and key: "nullish (pr_positionPubKey pos) '''' \<noteq> ''''"
    and start: "lst_trace st1 = lst_trace st @ v" "exits v = []" "storedSales v = []" "closes v = []"
      "lst_tracked st1 = lst_tracked st"
  shows "runs (State_Monad.bind (runExitOrMarkExited env deps decision pos operation)
      (\<lambda>exitRun. case exitRun of
          Inl e \<Rightarrow> ret (False, Some e)
        | Inr exitResultData \<Rightarrow> settleOrBookLiveExit env deps decision pool pos exitResultData))
    (\<lambda>r st'. exit_post deps decision pos x y st r st') st1"
proof -
  let ?key = "nullish (pr_positionPubKey pos) ''''"
  let ?r = "lrp_exit env (lst_trace st1) (dec_poolAddress decision) ?key"
  let ?e = "ExitTried (dec_poolAddress decision) ?key ?r"
  show ?thesis
  proof (cases ?r)
    case (Inl err)
    note reply = Inl [unfolded start(1)] start(2-4) [unfolded readings]
    show ?thesis
      by (cases operation)
        (auto simp: runExitOrMarkExited_def key runLiveExitPosition_def finishExitOperation_def live_wp
          start reply readings intro!: exit_postI_none)
  next
    case (Inr result)
    note reply = Inr [unfolded start(1)] start(2-4) [unfolded readings]
    show ?thesis
      by (cases operation)
        (auto simp: runExitOrMarkExited_def key runLiveExitPosition_def finishExitOperation_def live_wp
          start reply readings intro!: settleOrBook_runs [OF assms(1-3)])
  qed
qed

lemma live_exit_runs:
  assumes ctx: "lxd_autonomous deps = Some autonomous" "pep_tokenX pool = Some x" "pep_tokenY pool = Some y"
    and target: "resolveTargetPosition (lst_tracked st) decision = Some pos"
    and key: "nullish (pr_positionPubKey pos) '''' \<noteq> ''''"
  shows "runs (executeLiveExit env deps decision pool) (\<lambda>r st'. exit_post deps decision pos x y st r st') st"
  unfolding executeLiveExit_def runs_bind runs_reads target option.case
proof (rule runs_silently [OF silently_claims(6)])
  fix blocked st1 assume "grows (list_all silent) st st1" and same: "same_memory st st1"
  then obtain v where v: "lst_trace st1 = lst_trace st @ v" "list_all silent v" by (auto simp: grows_def)
  note quiet = silent_reading [OF v(2)]
  have tracked: "lst_tracked st1 = lst_tracked st" using same by (simp add: same_memory_def)
  note call = exit_call_runs [OF ctx key _ _ _ _ _, where st = st and decision = decision and env = env]
  have stop: "exit_post deps decision pos x y st (False, e) st1" for e
    by (rule exit_postI_none [OF v(1)]) (simp_all add: quiet tracked)
  show "runs (if blocked then ret (False, Some RotationCanceled)
       else State_Monad.bind (planLiveExitOperation env deps decision pool pos) (\<lambda>planned.
         case snd planned of
           None \<Rightarrow> State_Monad.bind (runExitOrMarkExited env deps decision pos (fst planned)) (\<lambda>exitRun.
             case exitRun of
               Inl e \<Rightarrow> ret (False, Some e)
             | Inr exitResultData \<Rightarrow> settleOrBookLiveExit env deps decision pool pos exitResultData)
         | Some e \<Rightarrow> ret (False, Some e)))
     (\<lambda>r st'. exit_post deps decision pos x y st r st') st1"
  proof (cases blocked)
    case True
    then show ?thesis by (simp add: live_wp stop)
  next
    case False
    define operation where "operation = operationRecord autonomous (lrp_uuid env (lst_trace st1) 0)
      (lxd_candidateId deps) (Some (pr_positionId pos)) (dec_poolAddress decision) x ExitOperation OpPlanned
      (lrp_clock env (lst_trace st1))"
    let ?w = "Wrote (SaveOperation operation) (lrp_write env (lst_trace st1) (SaveOperation operation))"
    let ?st2 = "st1\<lparr>lst_trace := lst_trace st1 @ [?w]\<rparr>"
    have grown: "lst_trace ?st2 = lst_trace st @ (v @ [?w])" "exits (v @ [?w]) = []"
        "storedSales (v @ [?w]) = []" "closes (v @ [?w]) = []" "lst_tracked ?st2 = lst_tracked st"
      using v(1) quiet by (simp_all add: readings_append tracked) (simp_all add: readings)
    have refused: "exit_post deps decision pos x y st (False, e) ?st2" for e
      by (rule exit_postI_none [OF grown]) simp
    show ?thesis
    proof (cases "x = ''''")
      case True
      then show ?thesis
        using False call [OF v(1) quiet(5,1,2) tracked]
        by (simp add: planLiveExitOperation_def ctx(1,2) runs_bind runs_ret)
    next
      case x: False
      have "planLiveExitOperation env deps decision pool pos = do {
          now \<leftarrow> clock env; uuid \<leftarrow> freshIds env;
          let operation = operationRecord autonomous (uuid 0) (lxd_candidateId deps)
            (Some (pr_positionId pos)) (dec_poolAddress decision) x ExitOperation OpPlanned now;
          persisted \<leftarrow> store env (SaveOperation operation);
          ret (if persisted then (Some operation, None) else (None, Some ExitOperationUnsaved)) }"
        using x by (simp add: planLiveExitOperation_def ctx(1,2))
      then have plan: "runs (planLiveExitOperation env deps decision pool pos) Q st1 =
          Q (if lrp_write env (lst_trace st1) (SaveOperation operation) then (Some operation, None)
             else (None, Some ExitOperationUnsaved)) ?st2" for Q
        by (simp add: live_wp Let_def operation_def)
      show ?thesis
        unfolding if_not_P [OF False] runs_bind plan
        using call [OF grown] refused
        by (cases "lrp_write env (lst_trace st1) (SaveOperation operation)") (simp_all add: runs_bind runs_ret)
    qed
  qed
qed

text \<open>
  What a withdrawal owes, read off its result: one sale for each leg whose amount is a positive
  decimal text, and one for each swept reward of a known mint whose amount is a positive integer that
  prints without an exponent.
\<close>

definition legSale :: "string \<Rightarrow> string \<Rightarrow> string option \<Rightarrow> (string \<times> string \<times> int) list" where
  "legSale i mint atoms =
     (case Option.bind atoms read_bigint of
        Some n \<Rightarrow> if 0 < n then [(i, mint, n)] else []
      | None \<Rightarrow> [])"

definition rewardSale :: "string \<Rightarrow> ClaimedReward \<Rightarrow> (string \<times> string \<times> int) list" where
  "rewardSale i reward =
     (case rew_amountAtomic reward of
        Fin q \<Rightarrow> if rew_mint reward \<noteq> ''unknown'' \<and> q = of_int \<lfloor>q\<rfloor> \<and> 0 < q \<and> q < 10 ^ 21
                 then [(i, rew_mint reward, \<lfloor>q\<rfloor>)] else []
      | _ \<Rightarrow> [])"

definition withdrawnSales :: "string \<Rightarrow> LiveExitResult \<Rightarrow> string \<Rightarrow> string \<Rightarrow> (string \<times> string \<times> int) list" where
  "withdrawnSales i result x y =
     legSale i x (ler_withdrawnXAtomic result) @ legSale i y (ler_withdrawnYAtomic result) @
     concat (map (rewardSale i) (nullish (ler_sweptRewards result) []))"

lemma map_filter_parts:
  "List.map_filter f (xs @ ys) = List.map_filter f xs @ List.map_filter f ys"
  "List.map_filter f [] = []"
  "List.map_filter f (a # xs) = (case f a of None \<Rightarrow> [] | Some b \<Rightarrow> [b]) @ List.map_filter f xs"
  by (simp_all add: map_filter_def split: option.split)

lemma reward_sales:
  "map (\<lambda>(mint, amount). (i, mint, amount)) (List.map_filter
     (\<lambda>(mint, amount). case amount of Some n \<Rightarrow> if n > 0 then Some (mint, n) else None | None \<Rightarrow> None)
     (map (\<lambda>reward. (rew_mint reward, rewardAtoms (rew_amountAtomic reward)))
       (filter (\<lambda>reward. rew_mint reward \<noteq> ''unknown'') rewards))) = concat (map (rewardSale i) rewards)"
proof (induction rewards)
  case (Cons reward rewards)
  have "\<lfloor>q\<rfloor> > 0 \<longleftrightarrow> 0 < q" if "q = of_int \<lfloor>q\<rfloor>" for q :: rat
    using that by (metis of_int_0_less_iff)
  then show ?case
    using Cons by (auto simp: map_filter_parts rewardSale_def rewardAtoms_def split: jsnum.split)
qed (simp add: map_filter_parts)

lemma owed_withdrawn: "owedSales i result x y = withdrawnSales i result x y"
  unfolding owedSales_def positiveAttributions_def withdrawnSales_def map_filter_parts map_append reward_sales
  by (cases "ler_withdrawnXAtomic result"; cases "ler_withdrawnYAtomic result")
    (auto simp: legSale_def nullish_def read_bigint_def digit_value_def split: option.split)

lemma owed_nothing: "positiveAttributions result x y = [] \<longleftrightarrow> withdrawnSales i result x y = []"
  unfolding owed_withdrawn [symmetric] by (simp add: owedSales_def)

lemma settled_pnl:
  "settlementRealizedPnl pos result (positiveAttributions result x y) =
     (if ler_isEmptyReap result = Some True then Some (Fin 0)
      else if withdrawnSales i result x y \<noteq> [] then None
      else map_option (\<lambda>usd. computeRealizedPnlUsd usd (pr_cumulativeFeesClaimedUsd pos)
        (pr_depositedUsd pos) (pr_cumulativeRewardsClaimedUsd pos)) (ler_withdrawnUsd result))"
  by (auto simp: settlementRealizedPnl_def owed_nothing [of result x y i] split: option.split)

text \<open>
  C6. An autonomous exit never loses what it withdrew.  For a position with an on-chain key, in a pool
  whose two mints are known: the row is closed only after each positive amount that the withdrawal
  reports for the two legs, and each positive reward of a known mint that it swept, has a stored
  settlement job of exactly that mint and amount, and nothing else is sold; the profit is then left
  open until those jobs settle (an emptied account books zero, a withdrawal that owes nothing books
  its priced result).  If one job cannot be stored, the row stays open, the pool is flagged for the
  reconcile and a wallet pause is requested; without a withdrawal nothing is sold and nothing is
  closed.  Amounts that are not decimal texts and rewards of unknown mints are not sold.
\<close>
theorem live_exit_settles:
  assumes "lxd_autonomous deps = Some autonomous" "pep_tokenX pool = Some x" "pep_tokenY pool = Some y"
    and "dec_action decision = EXIT"
    and target: "resolveTargetPosition (lst_tracked st) decision = Some pos"
    and key: "nullish (pr_positionPubKey pos) '''' \<noteq> ''''"
    and run: "run_state (executeLive env deps decision pool signalTimestamp snapshotId) st = (r, st')"
  shows "\<exists>u. lst_trace st' = lst_trace st @ u \<and>
    (case exits u of
       [] \<Rightarrow> \<not> fst r \<and> storedSales u = [] \<and> closes u = [] \<and> lst_tracked st' = lst_tracked st
     | [result] \<Rightarrow>
         let owed = withdrawnSales (pr_positionId pos) result x y in
         if fst r
         then (\<exists>before after. u = before @ after \<and> storedSales before = owed \<and> closes before = [] \<and>
             storedSales after = [] \<and> closes after = [(pr_positionId pos,
               (if ler_isEmptyReap result = Some True then Some (Fin 0)
               else if owed \<noteq> [] then None
               else map_option (\<lambda>usd. computeRealizedPnlUsd usd (pr_cumulativeFeesClaimedUsd pos)
                 (pr_depositedUsd pos) (pr_cumulativeRewardsClaimedUsd pos)) (ler_withdrawnUsd result)))]) \<and>
           lst_tracked st' = AList.delete (pr_positionId pos) (lst_tracked st)
         else closes u = [] \<and> (\<exists>n < length owed. storedSales u = take n owed) \<and> pauses u \<noteq> [] \<and>
           lst_tracked st' = lst_tracked st \<and>
           (lxd_hasReconcileSet deps \<longrightarrow> dec_poolAddress decision \<in> lst_reconcile st')
     | _ \<Rightarrow> False)"
proof -
  have "runs (executeLive env deps decision pool signalTimestamp snapshotId)
      (\<lambda>r st'. exit_post deps decision pos x y st r st') st"
  proof (cases "lrp_hasWallet env")
    case True
    then show ?thesis
      using live_exit_runs [OF assms(1-3) target key] assms(4) by (simp add: executeLive_def)
  next
    case False
    then show ?thesis
      by (simp add: executeLive_def runs_ret) (rule exit_postI_none [of _ _ "[]"], simp_all add: readings)
  qed
  from runsD [OF this run] show ?thesis
    unfolding exit_post_def owed_withdrawn settled_pnl [of pos _ x y "pr_positionId pos"] Let_def .
qed

section \<open>Live entries\<close>

definition rollbackSales :: "string \<Rightarrow> EntryPreparationReceipt list \<Rightarrow> (string \<times> string \<times> int) list" where
  "rollbackSales i receipts =
     map (\<lambda>receipt. (i, rcp_outputMint receipt, rcp_acquiredAmountAtomic receipt)) receipts"

text \<open>
  The receipts are covered: each is a stored sale, or the pool is flagged and a pause requested.
\<close>

definition covered ::
  "LiveExecDeps \<Rightarrow> string \<Rightarrow> string \<Rightarrow> EntryPreparationReceipt list \<Rightarrow> live_trace \<Rightarrow> LiveState \<Rightarrow> bool" where
  "covered deps pool i receipts u st' \<longleftrightarrow>
     storedSales u = rollbackSales i receipts \<or>
     pauses u \<noteq> [] \<and> (lxd_hasReconcileSet deps \<longrightarrow> pool \<in> lst_reconcile st')"

definition no_deal :: "live_trace \<Rightarrow> bool" where
  "no_deal u \<longleftrightarrow> closes u = [] \<and> exits u = [] \<and> entries u = [] \<and> fundingReceipts u = []"

definition rollback_post ::
  "LiveExecDeps \<Rightarrow> string \<Rightarrow> string \<Rightarrow> EntryPreparationReceipt list \<Rightarrow> LiveState \<Rightarrow> LiveState \<Rightarrow> bool" where
  "rollback_post deps pool i receipts st st' \<longleftrightarrow>
     (\<exists>u. lst_trace st' = lst_trace st @ u \<and> no_deal u \<and> covered deps pool i receipts u st') \<and>
     lst_tracked st' = lst_tracked st"

lemma receipt_jobs:
  "map sale (settlementJobsForReceipts autonomous i pool receipts now uuid) = rollbackSales i receipts"
  "\<forall>job \<in> set (settlementJobsForReceipts autonomous i pool receipts now uuid). sj_status job = Pending"
proof -
  have "map sale (map2 (\<lambda>k receipt. pendingJob autonomous (uuid k) i pool (rcp_outputMint receipt)
        (rcp_acquiredAmountAtomic receipt) now) ks receipts) = rollbackSales i receipts \<and>
      (\<forall>job \<in> set (map2 (\<lambda>k receipt. pendingJob autonomous (uuid k) i pool (rcp_outputMint receipt)
        (rcp_acquiredAmountAtomic receipt) now) ks receipts). sj_status job = Pending)"
    if "length ks = length receipts" for ks
    using that
    by (induction ks receipts rule: list_induct2) (simp_all add: rollbackSales_def sale_def pendingJob_def)
  from this [of "[0..<length receipts]"]
  show "map sale (settlementJobsForReceipts autonomous i pool receipts now uuid) = rollbackSales i receipts"
    "\<forall>job \<in> set (settlementJobsForReceipts autonomous i pool receipts now uuid). sj_status job = Pending"
    unfolding settlementJobsForReceipts_def by simp_all
qed

lemma rollback_runs:
  "runs (persistRollbackSettlements env deps pool autonomous operation i receipts status e now)
     (\<lambda>_ st'. rollback_post deps pool i receipts st st') st"
  unfolding persistRollbackSettlements_def runs_bind runs_reads
proof (rule runs_mono [OF saveJobs_runs [OF receipt_jobs(2)]])
  let ?jobs = "settlementJobsForReceipts autonomous i pool receipts now (lrp_uuid env (lst_trace st))"
  fix ok st1 assume post: "jobs_post deps pool ?jobs ok st st1"
  then obtain u where u: "lst_trace st1 = lst_trace st @ u" "only_sales u" "lst_tracked st1 = lst_tracked st"
      "if ok then storedSales u = rollbackSales i receipts \<and> pauses u = [] else pauses u \<noteq> []"
    by (auto simp: jobs_post_def receipt_jobs same_memory_def flagged_def split: if_splits)
  note sales = u(2) [unfolded only_sales_def]
  have final: "rollback_post deps pool i receipts st st2"
    if "lst_trace st2 = lst_trace st @ u @ v" "no_deal v" "storedSales v = []" "lst_tracked st2 = lst_tracked st"
      "\<not> ok \<longrightarrow> lxd_hasReconcileSet deps \<longrightarrow> pool \<in> lst_reconcile st2"
      for st2 v
    unfolding rollback_post_def
    by (intro conjI exI [of _ "u @ v"])
      (use that sales u(4) in \<open>auto simp: no_deal_def covered_def readings_append split: if_splits\<close>)
  show "runs (if ok then store env (SaveOperation (operation\<lparr>eop_operationType := RollbackOperation,
              eop_status := status, eop_error := Some e, eop_updatedAt := now\<rparr>)) else ret False)
     (\<lambda>a. runs (if a then ret () else flagSettlementPersistenceFailure env deps autonomous pool now)
       (\<lambda>_. runs (ret a) (\<lambda>_. rollback_post deps pool i receipts st))) st1"
    using u(1,3) by (auto simp: live_wp Let_def no_deal_def readings intro!: final)
qed

definition enter_post ::
  "LiveExecDeps \<Rightarrow> AgentDecision \<Rightarrow> LiveState \<Rightarrow> live_result \<Rightarrow> LiveState \<Rightarrow> bool" where
  "enter_post deps decision st r st' \<longleftrightarrow>
     (\<exists>u. lst_trace st' = lst_trace st @ u \<and> closes u = [] \<and> exits u = [] \<and>
       (case entries u of
          [] \<Rightarrow> \<not> fst r \<and> lst_tracked st' = lst_tracked st \<and>
            (\<exists>i. covered deps (dec_poolAddress decision) (''rollback:'' @ i) (fundingReceipts u) u st')
        | [entered] \<Rightarrow> fst r \<and> storedSales u = [] \<and>
            (\<exists>pos. lst_tracked st' = AList.update (len_positionPubKey entered) pos (lst_tracked st) \<and>
               pr_positionId pos = len_positionPubKey entered \<and>
               pr_positionPubKey pos = Some (len_positionPubKey entered) \<and>
               pr_poolAddress pos = dec_poolAddress decision \<and>
               pr_depositedUsd pos = nullish (dec_positionSizeUsd decision) (Fin 0))
        | _ \<Rightarrow> False))"

text \<open>What has happened when the position is to be entered, with the receipts of the funding.\<close>

definition funded_start ::
  "EntryPreparationReceipt list \<Rightarrow> LiveState \<Rightarrow> LiveState \<Rightarrow> bool" where
  "funded_start receipts st st1 \<longleftrightarrow>
     (\<exists>v. lst_trace st1 = lst_trace st @ v \<and> closes v = [] \<and> exits v = [] \<and> entries v = [] \<and>
        storedSales v = [] \<and> fundingReceipts v = receipts) \<and> lst_tracked st1 = lst_tracked st"

lemma funded_refused:
  assumes "funded_start [] st st'" "\<not> fst r"
  shows "enter_post deps decision st r st'"
  using assms by (auto simp: funded_start_def enter_post_def covered_def rollbackSales_def)

lemma funded_rolled_back:
  assumes "funded_start receipts st st1"
    "rollback_post deps (dec_poolAddress decision) (''rollback:'' @ i) receipts st1 st'" "\<not> fst r"
  shows "enter_post deps decision st r st'"
proof -
  obtain v u where v: "lst_trace st1 = lst_trace st @ v" "closes v = []" "exits v = []" "entries v = []"
      "storedSales v = []" "fundingReceipts v = receipts" "lst_tracked st1 = lst_tracked st"
    and u: "lst_trace st' = lst_trace st1 @ u" "no_deal u" "lst_tracked st' = lst_tracked st1"
      "covered deps (dec_poolAddress decision) (''rollback:'' @ i) receipts u st'"
    using assms by (auto simp: funded_start_def rollback_post_def)
  have "covered deps (dec_poolAddress decision) (''rollback:'' @ i) (fundingReceipts (v @ u)) (v @ u) st'"
    using v u(2,4) by (auto simp: covered_def readings_append no_deal_def)
  then show ?thesis
    unfolding enter_post_def
    by (intro exI [of _ "v @ u"]) (use v u(1-3) assms(3) in \<open>auto simp: readings_append no_deal_def\<close>)
qed

lemma entered_runs:
  fixes operation :: ExecutionOperationRecord
  assumes start: "funded_start receipts st st1"
    and pos: "pr_positionId pos = len_positionPubKey entered"
      "pr_positionPubKey pos = Some (len_positionPubKey entered)"
      "pr_poolAddress pos = dec_poolAddress decision"
      "pr_depositedUsd pos = nullish (dec_positionSizeUsd decision) (Fin 0)"
    and event: "entry_of e = [entered]" "sale_of e = []" "close_of e = []" "exit_of e = []"
      "lst_trace st2 = lst_trace st1 @ [e]" "lst_tracked st2 = lst_tracked st1"
  shows "runs (do {
      track pos;
      attempt env (SavePosition pos);
      recordYieldBaseline env pos apr;
      eventAt \<leftarrow> clock env;
      attempt env (SaveEvent (row eventAt));
      confirmEnterOperation env (Some operation) i tx;
      ret (True, None :: LiveError option)
    }) (\<lambda>r st'. enter_post deps decision st r st') st2"
  unfolding runs_bind runs_memory runs_attempt
proof (rule runs_silently [OF silently_programs(4)], goal_cases)
  case (1 a st4)
  let ?st3 = "st2\<lparr>lst_tracked := AList.update (pr_positionId pos) pos (lst_tracked st2)\<rparr>"
  let ?saved = "Wrote (SavePosition pos) (lrp_write env (lst_trace ?st3) (SavePosition pos))"
  note grown = 1(1) and memory = 1(2)
  obtain v where v: "lst_trace st1 = lst_trace st @ v" "closes v = []" "exits v = []" "entries v = []"
      "storedSales v = []" "lst_tracked st1 = lst_tracked st"
    using start by (auto simp: funded_start_def)
  obtain w where w: "lst_trace st4 = lst_trace st @ v @ [e, ?saved] @ w" "list_all silent w"
    using grown event(5) v(1) by (auto simp: grows_def)
  note quiet = silent_reading [OF w(2)]
  have tracked: "lst_tracked st4 = AList.update (len_positionPubKey entered) pos (lst_tracked st)"
    using memory event(6) v(6) pos(1) by (simp add: same_memory_def)
  have final: "enter_post deps decision st (True, None) st5"
    if "lst_trace st5 = lst_trace st4 @ z" "storedSales z = []" "closes z = []" "exits z = []"
      "entries z = []" "lst_tracked st5 = lst_tracked st4" for st5 z
  proof -
    define u where "u = v @ [e, ?saved] @ w @ z"
    have "lst_trace st5 = lst_trace st @ u" using that(1) w(1) by (simp add: u_def)
    moreover have "closes u = []" "exits u = []" "entries u = [entered]" "storedSales u = []"
      using that(2-5) v(2-5) quiet event(1-4) by (simp_all add: u_def readings_append) (simp_all add: readings)
    ultimately show ?thesis
      unfolding enter_post_def
      by (intro exI [of _ u]) (use tracked that(6) pos in auto)
  qed
  show ?case
    by (simp add: live_wp confirmEnterOperation_def) (rule final, auto simp: readings)
qed

lemma funded_startI:
  assumes "funded_start receipts st st1" "lst_trace st2 = lst_trace st1 @ w" "lst_tracked st2 = lst_tracked st1"
    "closes w = []" "exits w = []" "entries w = []" "storedSales w = []"
  shows "funded_start (receipts @ fundingReceipts w) st st2"
proof -
  obtain v where "lst_trace st1 = lst_trace st @ v" "closes v = []" "exits v = []" "entries v = []"
      "storedSales v = []" "fundingReceipts v = receipts" "lst_tracked st1 = lst_tracked st"
    using assms(1) by (auto simp: funded_start_def)
  then have "lst_trace st2 = lst_trace st @ (v @ w) \<and> closes (v @ w) = [] \<and> exits (v @ w) = [] \<and>
      entries (v @ w) = [] \<and> storedSales (v @ w) = [] \<and>
      fundingReceipts (v @ w) = receipts @ fundingReceipts w" "lst_tracked st2 = lst_tracked st"
    using assms(2-) by (simp_all add: readings_append)
  then show ?thesis unfolding funded_start_def by blast
qed

lemma live_record:
  "pr_positionId (makeLivePositionRecord now inp) = lpi_positionPubKey inp"
  "pr_positionPubKey (makeLivePositionRecord now inp) = Some (lpi_positionPubKey inp)"
  "pr_poolAddress (makeLivePositionRecord now inp) = dec_poolAddress (lpi_decision inp)"
  "pr_depositedUsd (makeLivePositionRecord now inp) = lpi_depositedUsd inp"
  by (simp_all add: makeLivePositionRecord_def Let_def)

lemma enter_position_runs:
  assumes ctx: "lxd_autonomous deps = Some autonomous"
    and start: "funded_start receipts st st1"
    and prep: "receipts = (case preparation of None \<Rightarrow> [] | Some outcome \<Rightarrow> epo_receipts outcome)"
  shows "runs (executeLiveEnterPosition env deps decision pool signalTimestamp snapshotId preparation
      (Some operation)) (\<lambda>r st'. enter_post deps decision st r st') st1"
proof -
  let ?size = "nullish (dec_positionSizeUsd decision) (Fin 0)"
  let ?range = "recommendBinRange (pep_activeBinId pool) (pep_binStep pool)
           (lxd_entryRangeHalfWidth deps) (nullish (lxd_entryDipOffsetBins deps) (Fin 0))"
  let ?r = "lrp_enter env (lst_trace st1) (dec_poolAddress decision) (range_lowerBinId ?range)
      (range_upperBinId ?range) ?size (lxd_entryStrategySpec deps) (lxd_runnerSingleSidedX deps = Some True)"
  let ?e = "EnterTried (dec_poolAddress decision) (range_lowerBinId ?range) (range_upperBinId ?range) ?size ?r"
  let ?st2 = "st1\<lparr>lst_trace := lst_trace st1 @ [?e]\<rparr>"
  show ?thesis
  proof (cases ?r)
    case (Inl err)
    have tried: "funded_start receipts st ?st2"
      using funded_startI [OF start, of ?st2 "[?e]"] Inl by (simp add: readings)
    have refused: "enter_post deps decision st (False, e) ?st2" if "receipts = []" for e
      using tried that by (intro funded_refused) auto
    have undo: "runs (persistRollbackSettlements env deps (dec_poolAddress decision) autonomous operation
          (rollbackId operation) receipts OpRetryable (EnterFailed err) now)
        (\<lambda>_ st'. enter_post deps decision st (False, e) st') ?st2" for now e
      by (rule runs_mono [OF rollback_runs], unfold rollbackId_def, rule funded_rolled_back [OF tried], assumption)
        simp
    show ?thesis
      using undo refused prep Inl ctx
      by (cases preparation)
        (simp_all add: executeLiveEnterPosition_def enterPositionAttempt_def rollbackFailedEnter_def Let_def live_wp)
  next
    case (Inr entered)
    have ev: "entry_of ?e = [entered]" "sale_of ?e = []" "close_of ?e = []" "exit_of ?e = []"
      using Inr by simp_all
    show ?thesis
      unfolding executeLiveEnterPosition_def enterPositionAttempt_def Let_def runs_bind [of "ask _ _"] runs_ask Inr
        sum.case runs_bind [of "clock env"] runs_reads
      by (rule entered_runs [OF start _ _ _ _ ev [unfolded Inr]]) (simp_all add: live_record)
  qed
qed

lemma funded_silently:
  assumes "funded_start receipts st st1" "grows (list_all silent) st1 st2" "same_memory st1 st2"
  shows "funded_start receipts st st2"
proof -
  obtain w where w: "lst_trace st2 = lst_trace st1 @ w" "list_all silent w"
    using assms(2) by (auto simp: grows_def)
  show ?thesis
    using funded_startI [OF assms(1) w(1)] assms(3) silent_reading [OF w(2)] by (simp add: same_memory_def)
qed

lemma sol_gate_runs:
  assumes ctx: "lxd_autonomous deps = Some autonomous" and start: "funded_start [] st st1"
  shows "runs (checkLiveEntrySolGate env deps (Some operation)) (\<lambda>_ st'. funded_start [] st st') st1"
  unfolding checkLiveEntrySolGate_def runs_bind
proof (rule runs_silently [OF silently_programs(5)], goal_cases)
  case (1 a st2)
  let ?r = "lrp_nativeSol env (lst_trace st2)"
  let ?st3 = "st2\<lparr>lst_trace := lst_trace st2 @ [NativeSolRead ?r]\<rparr>"
  have read: "funded_start [] st ?st3"
    using funded_startI [OF funded_silently [OF start 1], of ?st3 "[NativeSolRead ?r]"] by (simp add: readings)
  have saved: "funded_start [] st (?st3\<lparr>lst_trace := lst_trace ?st3 @ [Wrote (SaveOperation x) ok]\<rparr>)" for x ok
    using funded_startI [OF read, of "?st3\<lparr>lst_trace := lst_trace ?st3 @ [Wrote (SaveOperation x) ok]\<rparr>"
      "[Wrote (SaveOperation x) ok]"] by (simp add: readings)
  show ?case
    using read saved
    by (cases ?r) (simp_all add: live_wp refuseEntry_def ctx failPlannedEntryOp_def)
qed

definition prepared_post ::
  "LiveExecDeps \<Rightarrow> AgentDecision \<Rightarrow> LiveState \<Rightarrow> EntryPreparationOutcome option \<times> LiveError option
   \<Rightarrow> LiveState \<Rightarrow> bool" where
  "prepared_post deps decision st funded st' \<longleftrightarrow>
     (case snd funded of
        Some e \<Rightarrow> enter_post deps decision st (False, Some e) st'
      | None \<Rightarrow> funded_start (case fst funded of None \<Rightarrow> [] | Some outcome \<Rightarrow> epo_receipts outcome) st st')"

lemma preparation_runs:
  assumes ctx: "lxd_autonomous deps = Some autonomous" and start: "funded_start [] st st1"
  shows "runs (prepareLiveEntryTokens env deps decision (Some operation))
    (\<lambda>funded st'. prepared_post deps decision st funded st') st1"
proof -
  let ?pool = "dec_poolAddress decision" and ?size = "nullish (dec_positionSizeUsd decision) (Fin 0)"
  let ?x = "lxd_runnerSingleSidedX deps = Some True"
  let ?r = "lrp_prepare env (lst_trace st1) ?pool ?size ?x"
  let ?e = "TokensPrepared ?pool ?size ?x ?r"
  let ?st2 = "st1\<lparr>lst_trace := lst_trace st1 @ [?e]\<rparr>"
  have tried: "funded_start (funding_of ?e) st ?st2"
    using funded_startI [OF start, of ?st2 "[?e]"] by (simp add: readings)
  show ?thesis
  proof (cases ?r)
    case (Inl failure)
    have receipts: "funding_of ?e = (case partialOf failure of None \<Rightarrow> [] | Some outcome \<Rightarrow> epo_receipts outcome)"
      using Inl by simp
    have undo: "runs (persistRollbackSettlements env deps ?pool autonomous operation (rollbackId operation)
          (case partialOf failure of None \<Rightarrow> [] | Some outcome \<Rightarrow> epo_receipts outcome) status e now)
        (\<lambda>_ st'. prepared_post deps decision st (None, Some (PreparationFailed failure)) st') ?st2" for status e now
      unfolding prepared_post_def snd_conv option.case
      by (rule runs_mono [OF rollback_runs], unfold rollbackId_def,
          rule funded_rolled_back [OF tried [unfolded receipts]], assumption) simp
    show ?thesis
      using undo Inl ctx
      by (simp add: prepareLiveEntryTokens_def rollbackFailedPreparation_def Let_def live_wp)
  next
    case (Inr outcome)
    have receipts: "funding_of ?e = (case outcome of None \<Rightarrow> [] | Some o' \<Rightarrow> epo_receipts o')"
      using Inr by (cases outcome) simp_all
    have saved: "funded_start (case outcome of None \<Rightarrow> [] | Some o' \<Rightarrow> epo_receipts o') st
        (?st2\<lparr>lst_trace := lst_trace ?st2 @ [Wrote (SaveOperation x) ok]\<rparr>)" for x ok
      using funded_startI [OF tried, of "?st2\<lparr>lst_trace := lst_trace ?st2 @ [Wrote (SaveOperation x) ok]\<rparr>"
        "[Wrote (SaveOperation x) ok]"] receipts by (simp add: readings)
    show ?thesis
      using saved Inr by (simp add: prepareLiveEntryTokens_def Let_def live_wp prepared_post_def)
  qed
qed

lemma live_enter_runs:
  assumes ctx: "lxd_autonomous deps = Some autonomous" "dec_action decision = ENTER"
      "truthySize (dec_positionSizeUsd decision)" "pep_tokenX pool = Some x" "x \<noteq> ''''"
  shows "runs (executeLiveEnterPipeline env deps decision pool signalTimestamp snapshotId)
    (\<lambda>r st'. enter_post deps decision st r st') st"
proof -
  have start: "funded_start [] st st" by (simp add: funded_start_def readings)
  define operation where "operation = operationRecord autonomous (lrp_uuid env (lst_trace st) 0) None None
    (dec_poolAddress decision) x EntryOperation OpPlanned (lrp_clock env (lst_trace st))"
  let ?w = "Wrote (SaveOperation operation) (lrp_write env (lst_trace st) (SaveOperation operation))"
  let ?st1 = "st\<lparr>lst_trace := lst_trace st @ [?w]\<rparr>"
  have planned: "funded_start [] st ?st1"
    using funded_startI [OF start, of ?st1 "[?w]"] by (simp add: readings)
  have plan: "runs (planLiveEntryOperation env deps decision (pep_tokenX pool)) Q st =
      Q (if lrp_write env (lst_trace st) (SaveOperation operation) then (Some operation, None)
         else (None, Some EntryOperationUnsaved)) ?st1" for Q
    using ctx by (simp add: planLiveEntryOperation_def live_wp Let_def operation_def)
  let ?rest = "\<lambda>planned. State_Monad.bind (checkLiveEntrySolGate env deps planned) (\<lambda>refused.
    case refused of
      None \<Rightarrow> State_Monad.bind (prepareLiveEntryTokens env deps decision planned) (\<lambda>funded.
        case snd funded of
          None \<Rightarrow> executeLiveEnterPosition env deps decision pool signalTimestamp snapshotId (fst funded) planned
        | Some e \<Rightarrow> ret (False, Some e))
    | Some e \<Rightarrow> ret (False, Some e))"
  have rest: "runs (?rest (Some operation)) (\<lambda>r st'. enter_post deps decision st r st') ?st1"
  proof (rule runs_seq [OF sol_gate_runs [OF ctx(1) planned]])
    fix refused st2 assume gated: "funded_start [] st st2"
    have "runs (State_Monad.bind (prepareLiveEntryTokens env deps decision (Some operation)) (\<lambda>funded.
        case snd funded of
          None \<Rightarrow> executeLiveEnterPosition env deps decision pool signalTimestamp snapshotId (fst funded) (Some operation)
        | Some e \<Rightarrow> ret (False, Some e))) (\<lambda>r st'. enter_post deps decision st r st') st2"
    proof (rule runs_seq [OF preparation_runs [OF ctx(1) gated]])
      fix funded st3 assume "prepared_post deps decision st funded st3"
      then show "runs (case snd funded of
          None \<Rightarrow> executeLiveEnterPosition env deps decision pool signalTimestamp snapshotId (fst funded) (Some operation)
        | Some e \<Rightarrow> ret (False, Some e)) (\<lambda>r st'. enter_post deps decision st r st') st3"
        by (cases "snd funded")
          (auto simp: prepared_post_def live_wp intro!: enter_position_runs [OF ctx(1)])
    qed
    then show "runs (case refused of
        None \<Rightarrow> State_Monad.bind (prepareLiveEntryTokens env deps decision (Some operation)) (\<lambda>funded.
          case snd funded of
            None \<Rightarrow> executeLiveEnterPosition env deps decision pool signalTimestamp snapshotId (fst funded) (Some operation)
          | Some e \<Rightarrow> ret (False, Some e))
      | Some e \<Rightarrow> ret (False, Some e)) (\<lambda>r st'. enter_post deps decision st r st') st2"
      using funded_refused [OF gated] by (cases refused) (simp_all add: live_wp)
  qed
  show ?thesis
  proof (cases "lrp_write env (lst_trace st) (SaveOperation operation)")
    case True
    show ?thesis
      unfolding executeLiveEnterPipeline_def runs_bind [of "planLiveEntryOperation _ _ _ _"] plan
        if_P [OF True] fst_conv snd_conv option.case by (rule rest [unfolded True])
  next
    case False
    show ?thesis
      unfolding executeLiveEnterPipeline_def runs_bind [of "planLiveEntryOperation _ _ _ _"] plan
        if_not_P [OF False] snd_conv option.case
      using funded_refused [OF planned] by (simp add: runs_ret)
  qed
qed

text \<open>
  C7. An autonomous entry never loses what its funding swaps bought: either the position opened on
  chain is in memory with its key, pool and size, or no position is added and every receipt of the
  funding has a stored settlement job of its amount under a rollback id, unless storing one failed, in
  which case the pool is flagged and a wallet pause is requested.
\<close>
theorem live_entry_rolls_back:
  assumes "lxd_autonomous deps = Some autonomous" "dec_action decision = ENTER"
      "truthySize (dec_positionSizeUsd decision)" "pep_tokenX pool = Some x" "x \<noteq> ''''"
    and run: "run_state (executeLive env deps decision pool signalTimestamp snapshotId) st = (r, st')"
  shows "\<exists>u. lst_trace st' = lst_trace st @ u \<and> closes u = [] \<and> exits u = [] \<and>
    (case entries u of
       [] \<Rightarrow> \<not> fst r \<and> lst_tracked st' = lst_tracked st \<and>
         (\<exists>i. storedSales u = rollbackSales (''rollback:'' @ i) (fundingReceipts u) \<or>
            pauses u \<noteq> [] \<and> (lxd_hasReconcileSet deps \<longrightarrow> dec_poolAddress decision \<in> lst_reconcile st'))
     | [entered] \<Rightarrow> fst r \<and> storedSales u = [] \<and>
         (\<exists>pos. lst_tracked st' = AList.update (len_positionPubKey entered) pos (lst_tracked st) \<and>
            pr_positionId pos = len_positionPubKey entered \<and>
            pr_positionPubKey pos = Some (len_positionPubKey entered) \<and>
            pr_poolAddress pos = dec_poolAddress decision \<and>
            pr_depositedUsd pos = nullish (dec_positionSizeUsd decision) (Fin 0))
     | _ \<Rightarrow> False)"
proof -
  have "runs (executeLive env deps decision pool signalTimestamp snapshotId)
      (\<lambda>r st'. enter_post deps decision st r st') st"
  proof (cases "lrp_hasWallet env")
    case True
    then show ?thesis using live_enter_runs [OF assms(1-5)] assms(2,3) by (simp add: executeLive_def)
  next
    case False
    have "funded_start [] st st" by (simp add: funded_start_def readings)
    with False show ?thesis by (simp add: executeLive_def live_wp funded_refused)
  qed
  from runsD [OF this run] show ?thesis unfolding enter_post_def covered_def .
qed

section \<open>Sample runs\<close>

definition sampleAutonomous :: AutonomousExecutionContext where
  "sampleAutonomous = \<lparr>aec_mode = ModeLive, aec_walletAddress = ''w'', aec_agentInstanceId = ''primary'',
     aec_settlementMaxPendingMs = 3600000, aec_settlementDustUsd = Fin (1 / 10)\<rparr>"

definition sampleLivePool :: LiveExecPool where
  "sampleLivePool = \<lparr>pep_activeBinId = Fin 100, pep_binStep = Fin 10, pep_tokenXSymbol = ''A'',
     pep_tokenYSymbol = ''SOL'', pep_tokenX = Some ''A'', pep_tokenY = Some ''S'', pep_currentPrice = Fin 2\<rparr>"

definition sampleLivePosition :: PositionRecord where
  "sampleLivePosition = makeLivePositionRecord 0 \<lparr>lpi_decision = \<lparr>dec_action = ENTER,
       dec_poolAddress = ''pool'', dec_confidence = Fin 1, dec_reasoning = ''x'', dec_rebalanceParams = None,
       dec_positionSizeUsd = Some (Fin 100), dec_positionId = None, dec_positionMode = None,
       dec_tpLadderJson = None, dec_invalidationStopPrice = None\<rparr>,
     lpi_pool = sampleLivePool, lpi_positionPubKey = ''key'', lpi_depositedUsd = Fin 100,
     lpi_amountXUsd = Fin 50, lpi_amountYUsd = Fin 50, lpi_lowerBinId = Fin 80, lpi_upperBinId = Fin 120,
     lpi_entryDipOffsetBins = None, lpi_signalTimestamp = None, lpi_signalSnapshotId = None\<rparr>"

definition sampleLiveState :: LiveState where
  "sampleLiveState = \<lparr>lst_tracked = [(''key'', sampleLivePosition)], lst_reconcile = {}, lst_warned = {},
     lst_trace = []\<rparr>"

definition sampleLiveDecision :: "ActionType \<Rightarrow> AgentDecision" where
  "sampleLiveDecision action = \<lparr>dec_action = action, dec_poolAddress = ''pool'', dec_confidence = Fin 1,
     dec_reasoning = ''x'', dec_rebalanceParams = None, dec_positionSizeUsd = Some (Fin 100),
     dec_positionId = None, dec_positionMode = None, dec_tpLadderJson = None,
     dec_invalidationStopPrice = None\<rparr>"

definition sampleExitResult :: LiveExitResult where
  "sampleExitResult = \<lparr>ler_txSignature = ''tx'', ler_withdrawnXAtomic = Some ''500'',
     ler_withdrawnYAtomic = Some ''0'', ler_withdrawnUsd = Some (Fin 90), ler_pendingFeeXAtomic = None,
     ler_pendingFeeYAtomic = None, ler_pendingFeeUsd = None,
     ler_sweptRewards = Some [\<lparr>rew_mint = ''R'', rew_amountAtomic = Fin 7, rew_amountUsd = None\<rparr>],
     ler_isEmptyReap = None\<rparr>"

definition sampleReceipts :: "EntryPreparationReceipt list" where
  "sampleReceipts = [\<lparr>rcp_inputMint = SOL_MINT, rcp_outputMint = ''A'', rcp_inputAmountAtomic = 3,
     rcp_acquiredAmountAtomic = 9, rcp_txSignature = ''s''\<rparr>]"

definition sampleLiveEnv :: LiveReplies where
  "sampleLiveEnv = \<lparr>lrp_hasWallet = True, lrp_clock = (\<lambda>_. 5), lrp_uuid = (\<lambda>_ _. ''id''),
     lrp_write = (\<lambda>_ _. True), lrp_nativeSol = (\<lambda>_. Inr 1000000000), lrp_solPrice = (\<lambda>_. Inr None),
     lrp_prepare = (\<lambda>_ _ _ _. Inr (Some \<lparr>epo_status = PrepComplete, epo_receipts = sampleReceipts\<rparr>)),
     lrp_enter = (\<lambda>_ _ _ _ _ _ _. Inl ''slippage''), lrp_exit = (\<lambda>_ _ _. Inr sampleExitResult),
     lrp_rebalance = (\<lambda>_ _ _ _ _ _. Inl ''no''), lrp_rotationArm = (\<lambda>_ _. None),
     lrp_claimable = None, lrp_claim = (\<lambda>_ _ _ _. Inl ''no''),
     lrp_revenueConfig = \<lparr>rvc_platformFeeRate = Fin 0, rvc_revenueShareEnabled = False,
       rvc_revenueShareOperatorPct = Fin 0, rvc_feeWalletAddress = ''f'', rvc_tier = ''t''\<rparr>\<rparr>"

definition sampleLiveDeps :: LiveExecDeps where
  "sampleLiveDeps = \<lparr>lxd_solPriceUsd = Fin 150, lxd_entryStrategySpec = Spot,
     lxd_entryRangeHalfWidth = Some (Fin 20), lxd_entryDipOffsetBins = None,
     lxd_runnerSingleSidedX = None, lxd_hasReconcileSet = True, lxd_hasMemory = False,
     lxd_hasWarnedSet = True, lxd_autonomous = Some sampleAutonomous, lxd_candidateId = None,
     lxd_rotationArmMs = None, lxd_runnerMinFeeApr = None, lxd_entryAprPct = None,
     lxd_poolAprByAddress = (\<lambda>_. None), lxd_harvestMinNetUsd = None, lxd_harvestMaxCostPct = None,
     lxd_harvestTxCostUsdEst = None, lxd_runnerSwapCostPct = None, lxd_feeCaptureHarvestCostUsd = None,
     lxd_rugExitLossPct = None, lxd_rugTokenBlockMs = Some 1000, lxd_stablecoinMints = None\<rparr>"

lemmas sample_live = sampleLiveEnv_def sampleLiveDeps_def sampleLiveDecision_def sampleLiveState_def
  sampleLivePool_def sampleAutonomous_def sampleReceipts_def

lemma sample_exit_target:
  "resolveTargetPosition (lst_tracked sampleLiveState) (sampleLiveDecision EXIT) = Some sampleLivePosition"
  by (simp add: resolveTargetPosition_def positionsForPool_def sample_live sampleLivePosition_def live_record)

lemma sample_exit_owed: "positiveAttributions sampleExitResult ''A'' ''S'' = [(''A'', 500), (''R'', 7)]"
  by (simp add: positiveAttributions_def sampleExitResult_def rewardAtoms_def read_bigint_def
      digit_value_def List.map_filter_def)

lemmas live_exit_defs = executeLive_def executeLiveExit_def isLiveExitRotationBlocked_def
  planLiveExitOperation_def runExitOrMarkExited_def runLiveExitPosition_def finishExitOperation_def
  settleOrBookLiveExit_def liveAttributionInputs_def settleLiveExitAttribution_def
  recordExitSweepEvents_def tombstoneReapedEmpty_def armLiveRugBlocks_def settlementRealizedPnl_def
  rugBlockMints_def saveLiveEvent_def

lemma sample_exit_run:
  "runs (executeLive sampleLiveEnv sampleLiveDeps (sampleLiveDecision EXIT) sampleLivePool None None)
     (\<lambda>r st'. fst r \<and> exits (lst_trace st') = [sampleExitResult]) sampleLiveState"
proof -
  have plain: "\<not> starts_with (dec_reasoning (sampleLiveDecision EXIT)) ''Rotation:''"
    by (simp add: sample_live starts_with_def)
  show ?thesis
    using plain sample_exit_target sample_exit_owed
    by (simp add: live_exit_defs live_wp Let_def sample_live sampleLivePosition_def live_record
        exitSettlementJob_def readings upt_rec sampleExitResult_def)
qed

theorem live_exit_witness:
  "\<exists>r st' before after. run_state (executeLive sampleLiveEnv sampleLiveDeps (sampleLiveDecision EXIT) sampleLivePool
       None None) sampleLiveState = (r, st') \<and> lst_trace st' = before @ after \<and> lst_tracked st' = [] \<and>
     closes before = [] \<and> storedSales before = [(''key'', ''A'', 500), (''key'', ''R'', 7)]"
proof -
  obtain r st' where run: "run_state (executeLive sampleLiveEnv sampleLiveDeps (sampleLiveDecision EXIT)
      sampleLivePool None None) sampleLiveState = (r, st')" by (metis surj_pair)
  have key: "nullish (pr_positionPubKey sampleLivePosition) '''' \<noteq> ''''" "pr_positionId sampleLivePosition = ''key''"
    by (simp_all add: sampleLivePosition_def live_record)
  have owed: "withdrawnSales ''key'' sampleExitResult ''A'' ''S'' = [(''key'', ''A'', 500), (''key'', ''R'', 7)]"
    by (simp add: owed_withdrawn [symmetric] owedSales_def sample_exit_owed)
  have "lxd_autonomous sampleLiveDeps = Some sampleAutonomous" "pep_tokenX sampleLivePool = Some ''A''"
      "pep_tokenY sampleLivePool = Some ''S''" "dec_action (sampleLiveDecision EXIT) = EXIT"
    by (simp_all add: sample_live)
  from live_exit_settles [OF this sample_exit_target key(1) run] runsD [OF sample_exit_run run] run owed key(2)
  show ?thesis by (fastforce simp: sampleLiveState_def Let_def)
qed

lemmas live_enter_defs = executeLive_def executeLiveEnterPipeline_def planLiveEntryOperation_def
  checkLiveEntrySolGate_def topUpSolReserve_def prepareLiveEntryTokens_def executeLiveEnterPosition_def
  enterPositionAttempt_def rollbackFailedEnter_def persistRollbackSettlements_def
  settlementJobsForReceipts_def rollbackId_def operationRecord_def truthySize_def

lemma sample_entry_run:
  "runs (executeLive sampleLiveEnv sampleLiveDeps (sampleLiveDecision ENTER) sampleLivePool None None)
     (\<lambda>r st'. entries (lst_trace st') = [] \<and> pauses (lst_trace st') = [] \<and>
        fundingReceipts (lst_trace st') = sampleReceipts \<and>
        operationStatuses (lst_trace st') = [(EntryOperation, OpPlanned), (EntryOperation, OpPrepared),
          (RollbackOperation, OpRetryable)]) sampleLiveState"
  by (simp add: live_enter_defs live_wp Let_def sample_live readings upt_rec
      SOL_GAS_TOP_UP_THRESHOLD_LAMPORTS_def MIN_SOL_FOR_ENTRY_LAMPORTS_def num_simps)

theorem live_entry_witness:
  "\<exists>r st' i. run_state (executeLive sampleLiveEnv sampleLiveDeps (sampleLiveDecision ENTER) sampleLivePool
       None None) sampleLiveState = (r, st') \<and> \<not> fst r \<and> lst_tracked st' = lst_tracked sampleLiveState \<and>
     storedSales (lst_trace st') = [(''rollback:'' @ i, ''A'', 9)]"
proof -
  obtain r st' where run: "run_state (executeLive sampleLiveEnv sampleLiveDeps (sampleLiveDecision ENTER)
      sampleLivePool None None) sampleLiveState = (r, st')" by (metis surj_pair)
  have "lxd_autonomous sampleLiveDeps = Some sampleAutonomous" "dec_action (sampleLiveDecision ENTER) = ENTER"
      "truthySize (dec_positionSizeUsd (sampleLiveDecision ENTER))" "pep_tokenX sampleLivePool = Some ''A''"
    by (simp_all add: sample_live truthySize_def)
  note applied = live_entry_rolls_back [OF this _ run]
  have receipts: "rollbackSales i sampleReceipts = [(i, ''A'', 9)]" for i
    by (simp add: rollbackSales_def sampleReceipts_def)
  show ?thesis
    using applied runsD [OF sample_entry_run run] run receipts by (auto simp: sampleLiveState_def)
qed

section \<open>Two findings\<close>

lemma exit_jobs_ignore_setting:
  "saveJobs env (deps\<lparr>lxd_rugTokenBlockMs := ms\<rparr>) autonomous pool now jobs = saveJobs env deps autonomous pool now jobs"
  by (induction jobs) (simp_all add: flagSettlementPersistenceFailure_def requestReconcile_def cong: if_cong)

text \<open>
  The configured duration of a rug block reaches the paper exit only: a live exit always blocks a
  token for seven days.
\<close>
lemma live_rug_block_ignores_setting:
  "executeLiveExit env (deps\<lparr>lxd_rugTokenBlockMs := ms\<rparr>) decision pool =
     executeLiveExit env deps decision pool"
  by (simp add: executeLiveExit_def isLiveExitRotationBlocked_def checkLiveRotationArm_def liveArmDeps_def
      planLiveExitOperation_def runExitOrMarkExited_def runLiveExitPosition_def finishExitOperation_def
      requestReconcile_def settleOrBookLiveExit_def settleLiveExitAttribution_def armLiveRugBlocks_def
      finalizeLiveExitLedger_def liveCloseCostInput_def warnUnpricedExitOnce_def warnUnpricedExit_def
      exit_jobs_ignore_setting
      cong: if_cong option.case_cong sum.case_cong prod.case_cong)

text \<open>
  An entry that fails on chain after a preparation that had nothing to swap leaves its operation row
  prepared: neither a failure nor a rollback is written for it.
\<close>
lemma unfunded_failure_leaves_prepared:
  "runs (executeLive (sampleLiveEnv\<lparr>lrp_prepare := (\<lambda>_ _ _ _. Inr None)\<rparr>) sampleLiveDeps
       (sampleLiveDecision ENTER) sampleLivePool None None)
     (\<lambda>r st'. \<not> fst r \<and>
        operationStatuses (lst_trace st') = [(EntryOperation, OpPlanned), (EntryOperation, OpPrepared)])
     sampleLiveState"
  by (simp add: live_enter_defs live_wp Let_def sample_live readings
      SOL_GAS_TOP_UP_THRESHOLD_LAMPORTS_def MIN_SOL_FOR_ENTRY_LAMPORTS_def num_simps)

section \<open>Live rebalances\<close>


























end
