(* ===== verification/Spec2Isabelle.thy ===== *)
theory Spec2Isabelle
  imports ProposalGates EntrySizing PositionExits EntryBreakers Backoff CandidateLifecycle
    MarketGate LaunchGate Strategy FeeCapture PnlAccounting SafetyPause Settlement
    UriText JsError PaperTrading PaperLedger PaperRuns MarketSignals
    MarketDetectors TaExhaustion NumberText EntryPrep EntryPrepFacts
    LiveFacts
begin

text \<open>
  Prism Liquidity Agent: a model of the decision core of the engine under \<^verbatim>\<open>src/engine\<close>.

  The program.  A cycle of the engine (\<^verbatim>\<open>program.ts\<close>) discovers pools, screens them, computes
  metrics, lets the strategy and an external advisor propose an action per pool, sends every
  action through the risk gates, and executes what they approve on a blockchain.  Between the
  effects (RPC calls, SQL, logging, HTTP) all decisions are taken by pure functions over records;
  these functions, with the small in-memory state machines around them, are what is modelled.

  Theories, from the bottom.
  \<^item> \<open>Prelude\<close>: optional values, chains of gates, stable sorting, runs of state machines.
  \<^item> \<open>JsNumber\<close>, \<open>JsArith\<close>: the numbers of the language.  A \<^verbatim>\<open>number\<close> is a rational that
    is rounded to binary64 after every operation, an infinity or NaN, so every property that
    mentions a number accounts for rounding, overflow and NaN.  The sign of zero is left out.  A
    \<^verbatim>\<open>bigint\<close> is an \<open>int\<close>.
  \<^item> \<open>DomainTypes\<close> (\<^verbatim>\<open>types.ts\<close>, \<^verbatim>\<open>services.ts\<close>): the records the components exchange.
  \<^item> \<open>RiskGates\<close>, \<open>ProposalGates\<close> (\<^verbatim>\<open>risk-service.ts\<close>): the ordered gates every decision
    passes, and the validation of what an external advisor proposes.  The lemmas show what an
    approval implies, which gate decides, and that validation never widens what the gates allow.
  \<^item> \<open>Strategy\<close> (\<^verbatim>\<open>strategy-service.ts\<close>): metrics, range widths, the evolution of thresholds and
    weights, scores.  The lemmas show that every evolved or measured quantity stays in its band.
  \<^item> \<open>EntrySizing\<close> (\<^verbatim>\<open>entry-sizing.ts\<close>, \<^verbatim>\<open>launch-position.ts\<close>, \<^verbatim>\<open>entry-sol-budget.ts\<close>,
    \<^verbatim>\<open>route-probe.ts\<close>, \<^verbatim>\<open>limit-orders.ts\<close>, \<^verbatim>\<open>fee-destination.ts\<close>): how much an entry may
    use.  The locale \<open>capped_sizing\<close> has one interpretation per sizing rule.
  \<^item> \<open>PositionExits\<close> (\<^verbatim>\<open>launch-position.ts\<close>, \<^verbatim>\<open>max-position-age.ts\<close>,
    \<^verbatim>\<open>position-loss-cap.ts\<close>, \<^verbatim>\<open>tp-ladder.ts\<close>, \<^verbatim>\<open>hot-window.ts\<close>, \<^verbatim>\<open>exit-reason.ts\<close>,
    \<^verbatim>\<open>rewards.ts\<close>): when a position is closed, and the tags of the reasons.
  \<^item> \<open>EntryBreakers\<close> (\<^verbatim>\<open>pnl-halt.ts\<close>, \<^verbatim>\<open>pool-pnl-kill-switch.ts\<close>, \<^verbatim>\<open>churn-guard.ts\<close>,
    \<^verbatim>\<open>cooldown.ts\<close>): what pauses new capital.
  \<^item> \<open>Backoff\<close> (\<^verbatim>\<open>entry-backoff.ts\<close>, \<^verbatim>\<open>proposal-backoff.ts\<close>, \<^verbatim>\<open>jev-gate.ts\<close>,
    \<^verbatim>\<open>jupiter-client.ts\<close>): delays, the circuit breaker, the paced and rate-limited clients and
    the verdict cache as machines stepped by events; the locales \<open>machine\<close> and
    \<open>monotone_machine\<close> carry their invariants along every run.
  \<^item> \<open>CandidateLifecycle\<close> (\<^verbatim>\<open>candidate-policy.ts\<close>, \<^verbatim>\<open>candidate-discovery.ts\<close>): the state
    machine of a token candidate, from discovered to eligible, entered, cooling down or rejected.
  \<^item> \<open>MarketGate\<close> (\<^verbatim>\<open>market-gate.ts\<close>, \<^verbatim>\<open>transfer-fee.ts\<close>, the stable daily fee of
    \<^verbatim>\<open>fee-capture.ts\<close>) and \<open>LaunchGate\<close> (\<^verbatim>\<open>launch-gate.ts\<close>): admission of discovered
    pools; both are chains of gates followed by a ranking that loses no pool.

  \<^item> \<open>FeeCapture\<close> (\<^verbatim>\<open>fee-capture.ts\<close>) and \<open>PnlAccounting\<close> (\<^verbatim>\<open>pnl.ts\<close>): what an entry is
    expected to earn and to cost, the analytics, cost basis and equity of positions, and the mark
    of a paper position as concentrated liquidity, against a reference for the value of a band, for
    any power and any square root that is finite on positive numbers.
  \<^item> \<open>UriText\<close>: texts as UTF-16 code units and \<^verbatim>\<open>encodeURIComponent\<close> on them, with the
    texts it refuses and a proof that it is injective; the keys of the daily baseline use it.
  \<^item> \<open>SafetyPause\<close>, \<open>Settlement\<close> (\<^verbatim>\<open>autonomous-runtime.ts\<close>): the wallet safety pause and
    the sale of swept tokens.  A pass over a settlement job is a function of the replies of the
    chain, the swap API and the database (\<open>SettlementReplies\<close>) to a result and a trace of events;
    the lemmas follow the row over many passes, some of them cut short, and show when a sale can
    and cannot happen twice.
  \<^item> \<open>JsError\<close>, \<open>PaperTrading\<close> (\<^verbatim>\<open>program.ts\<close>): the paper executor with its cash, rug
    blocks and rotation arms, the mark and the fee accrual of a cycle.  \<open>PaperLedger\<close> models the
    position rows and events of \<^verbatim>\<open>db-service.ts\<close> and the cash ledger that a restart rebuilds from
    them; \<open>PaperRuns\<close> shows that along every run of the executor the rebuilt cash is the cash the
    engine held.
  \<^item> \<open>MarketSignals\<close> (\<^verbatim>\<open>regime-gate.ts\<close>, \<^verbatim>\<open>market-runner.ts\<close>), \<open>MarketDetectors\<close>
    (\<^verbatim>\<open>wash-forensics.ts\<close>, \<^verbatim>\<open>depeg-liquidity-detector.ts\<close>) and \<open>TaExhaustion\<close>
    (\<^verbatim>\<open>ta-exhaustion.ts\<close>): what the market says about a pool or a position, and the rotation and
    the exit that follow from it.
  \<^item> \<open>NumberText\<close>: the decimal texts of numbers and big integers.  \<open>EntryPrep\<close>
    (\<^verbatim>\<open>entry-prep-service.ts\<close>): the swaps that fund a live entry.  A run is a program over the
    replies of the chain, the swap API and the database; it yields an error with the receipts it
    still knows, or a result, and the trace of submitted swaps.  \<open>EntryPrepFacts\<close> has the rules to
    reason about such programs (\<open>outcome\<close>) and shows what is spent and what is reported.
  \<^item> \<open>LiveTrading\<close> (\<^verbatim>\<open>program.ts\<close>): the live executor, that is \<^verbatim>\<open>executeLive\<close> and all it
    calls.  It is written in a state monad: the state holds the tracked positions, the pools to
    reconcile, the warned pools and the trace of effects so far; the replies of the chain, the clock
    and the database are functions of that trace.  \<open>LiveFacts\<close> has the rules of \<open>runs\<close>, a weakest
    precondition for such programs, and shows for every environment that an exit owes each withdrawn
    token one stored job before the row is closed, that a failed entry sells back what it bought, and
    that a rebalance keeps one row per position, with its basis, mark and fees carried over.

  Conventions.  An optional or nullable field is an \<open>option\<close>; a union of string literals is a
  \<open>datatype\<close>; a reason string is a constructor with the numbers it prints; an exception is a
  constructor of a sum or None; a module variable is a field of the component's state record; the
  clock and the responses of the network are arguments.  \<^verbatim>\<open>Array.sort\<close> is a stable insertion
  sort, which for a comparator that is not an order is one of the results the language permits.
  Loops over arrays are structural recursion or folds, so all functions are total and no fuel is
  used.  Strings are lists of characters, lower-casing is for ASCII letters.
  Amounts in atomic units and timestamps of the settlement are integers.
  Parameters of the model: \<^verbatim>\<open>Math.log\<close>, \<^verbatim>\<open>Math.log10\<close>, \<^verbatim>\<open>Math.sqrt\<close> and \<^verbatim>\<open>Math.pow\<close>, whose results
  the language leaves to the implementation, and the text of a number that is not computed here.

  Not modelled.  The effects of the cycle in \<^verbatim>\<open>program.ts\<close> outside the executors, the
  blockchain adapter, the SQL of the database, configuration parsing, the HTTP services of the hosted part, the user interface, and
  the JSON encodings of stored records.
\<close>

end
